(* ===== verification/Courier_Prelude.thy ===== *)
theory Courier_Prelude
  imports Main "HOL-Library.Word" "HOL-Library.List_Lexorder" "HOL-Library.Char_ord"
begin

text \<open>
  Shared vocabulary of the development: the machine integers of the Rust sources, the
  saturating and checked arithmetic of its standard library, computations that thread a
  state and may fail, and the generic list lemmas the component theories use.

  A fallible stateful function of the source is a value of type \<open>('s, 'e, 'a) comp\<close>: it
  takes the state and returns the result, \<open>Inl\<close> an error or \<open>Inr\<close> a value, together with
  the state it leaves behind, which is kept on the error paths too.
\<close>

named_theorems comp_simps

section \<open>Machine integers\<close>

type_synonym u8 = "8 word"
type_synonym u16 = "16 word"
type_synonym u32 = "32 word"
type_synonym u64 = "64 word"
type_synonym i64 = "64 word"
type_synonym uuid = "128 word"
type_synonym path = string
type_synonym bytes = "u8 list"
type_synonym datetime = int

definition saturating_add :: "'a::len word \<Rightarrow> 'a word \<Rightarrow> 'a word" where
  "saturating_add a b = (if unat a + unat b < 2 ^ LENGTH('a) then a + b else - 1)"

definition saturating_mul :: "'a::len word \<Rightarrow> 'a word \<Rightarrow> 'a word" where
  "saturating_mul a b = (if unat a * unat b < 2 ^ LENGTH('a) then a * b else - 1)"

definition saturating_sub :: "'a::len word \<Rightarrow> 'a word \<Rightarrow> 'a word" where
  "saturating_sub a b = (if b \<le> a then a - b else 0)"

definition checked_add :: "'a::len word \<Rightarrow> 'a word \<Rightarrow> 'a word option" where
  "checked_add a b = (if unat a + unat b < 2 ^ LENGTH('a) then Some (a + b) else None)"

definition checked_sub :: "'a::len word \<Rightarrow> 'a word \<Rightarrow> 'a word option" where
  "checked_sub a b = (if b \<le> a then Some (a - b) else None)"

definition div_ceil :: "'a::len word \<Rightarrow> 'a word \<Rightarrow> 'a word" where
  "div_ceil a b = (if a mod b > 0 then a div b + 1 else a div b)"

lemma unat_max_word: "unat (- 1 :: 'a::len word) = 2 ^ LENGTH('a) - 1"
  by (simp add: unsigned_minus_1_eq_mask mask_eq_exp_minus_1)

lemma unat_bound: "unat (a :: 'a::len word) < 2 ^ LENGTH('a)"
  by simp

lemma unat_add_no_wrap:
  "unat a + unat b < 2 ^ LENGTH('a) \<Longrightarrow> unat (a + b :: 'a::len word) = unat a + unat b"
  by (simp add: unat_word_ariths)

lemma unat_mult_no_wrap:
  "unat a * unat b < 2 ^ LENGTH('a) \<Longrightarrow> unat (a * b :: 'a::len word) = unat a * unat b"
  by (simp add: unat_word_ariths)

lemma unat_saturating_add:
  "unat (saturating_add a b :: 'a::len word) = min (unat a + unat b) (2 ^ LENGTH('a) - 1)"
  by (auto simp: saturating_add_def unat_add_no_wrap unat_max_word)

lemma unat_saturating_mul:
  "unat (saturating_mul a b :: 'a::len word) = min (unat a * unat b) (2 ^ LENGTH('a) - 1)"
  by (auto simp: saturating_mul_def unat_mult_no_wrap unat_max_word)

lemma unat_saturating_sub: "unat (saturating_sub a b :: 'a::len word) = unat a - unat b"
  by (auto simp: saturating_sub_def unat_sub word_le_nat_alt)

lemma checked_add_Some:
  "checked_add a b = Some c \<longleftrightarrow> unat a + unat b < 2 ^ LENGTH('a) \<and> c = (a + b :: 'a::len word)"
  by (auto simp: checked_add_def)

lemma unat_checked_add:
  "checked_add a b = Some (c :: 'a::len word) \<Longrightarrow> unat c = unat a + unat b"
  by (auto simp: checked_add_Some unat_add_no_wrap)

lemma checked_sub_Some:
  "checked_sub a b = Some c \<longleftrightarrow> b \<le> a \<and> c = (a - b :: 'a::len word)"
  by (auto simp: checked_sub_def)

lemma unat_checked_sub:
  "checked_sub a b = Some (c :: 'a::len word) \<Longrightarrow> unat c = unat a - unat b"
  by (auto simp: checked_sub_Some unat_sub)

lemma nat_div_quotient: "r < b \<Longrightarrow> (q * b + r) div b = (q :: nat)"
  by simp

lemma unat_div_ceil:
  assumes "b \<noteq> (0 :: 'a::len word)"
  shows "unat (div_ceil a b) = (unat a + unat b - 1) div unat b"
proof -
  have b: "0 < unat b" using assms by (simp add: unat_gt_0)
  have eq: "unat a = unat a div unat b * unat b + unat a mod unat b" by simp
  show ?thesis
  proof (cases "a mod b > 0")
    case True
    then have m: "0 < unat a mod unat b" by (simp add: word_less_nat_alt unat_mod)
    have "unat b \<noteq> 1" using m by auto
    then have "unat a div unat b < unat a"
      using b m by (cases "unat a = 0") (auto intro!: div_less_dividend)
    then have "unat (a div b) + 1 < 2 ^ LENGTH('a)"
      using unat_bound [of a] unfolding unat_div by linarith
    then have "unat (div_ceil a b) = unat a div unat b + 1"
      using True by (simp add: div_ceil_def unat_div unat_add_no_wrap)
    also have "\<dots> = (unat a + unat b - 1) div unat b"
    proof -
      have "unat a + unat b - 1 = (unat a div unat b + 1) * unat b + (unat a mod unat b - 1)"
        using eq m unfolding add_mult_distrib by linarith
      moreover have "unat a mod unat b - 1 < unat b" using b by (simp add: less_imp_diff_less)
      ultimately show ?thesis by (simp only: nat_div_quotient)
    qed
    finally show ?thesis .
  next
    case False
    then have m: "unat a mod unat b = 0" by (simp add: word_less_nat_alt unat_mod)
    then have "unat a + unat b - 1 = unat a div unat b * unat b + (unat b - 1)"
      using eq b by simp
    then have "(unat a + unat b - 1) div unat b = unat a div unat b"
      using b by (simp only: nat_div_quotient diff_less zero_less_one)
    then show ?thesis using False by (simp add: div_ceil_def unat_div)
  qed
qed

lemma unat_max: "unat (max a b :: 'a::len word) = max (unat a) (unat b)"
  by (simp add: max_def word_le_nat_alt)

lemma unat_min: "unat (min a b :: 'a::len word) = min (unat a) (unat b)"
  by (simp add: min_def word_le_nat_alt)

lemma nat_ceil_le_iff: "0 < b \<Longrightarrow> (a + b - 1) div b \<le> c \<longleftrightarrow> a \<le> c * (b :: nat)"
proof -
  assume b: "0 < b"
  have "(a + b - 1) div b \<le> c \<longleftrightarrow> (a + b - 1) div b < Suc c" by (rule less_Suc_eq_le [symmetric])
  also have "\<dots> \<longleftrightarrow> a + b - 1 < Suc c * b" using b by (rule div_less_iff_less_mult)
  also have "\<dots> \<longleftrightarrow> a \<le> c * b" using b by (simp, linarith)
  finally show ?thesis .
qed

lemma nat_ceil_less: "0 < b \<Longrightarrow> i < (a + b - 1) div b \<Longrightarrow> i * b < (a :: nat)"
  using nat_ceil_le_iff [of b a i] by (meson not_less)

lemma upt_butlast: "butlast [m..<n] = [m..<n - 1]"
  by (cases n) auto

section \<open>Computations that thread a state and may fail\<close>

type_synonym ('s, 'e, 'a) comp = "'s \<Rightarrow> ('e + 'a) \<times> 's"

definition ok :: "'a \<Rightarrow> ('s, 'e, 'a) comp" where
  "ok x = (\<lambda>s. (Inr x, s))"

definition fail :: "'e \<Rightarrow> ('s, 'e, 'a) comp" where
  "fail e = (\<lambda>s. (Inl e, s))"

definition gets :: "('s \<Rightarrow> 'a) \<Rightarrow> ('s, 'e, 'a) comp" where
  "gets f = (\<lambda>s. (Inr (f s), s))"

definition modifies :: "('s \<Rightarrow> 's) \<Rightarrow> ('s, 'e, unit) comp" where
  "modifies f = (\<lambda>s. (Inr (), f s))"

definition lift_res :: "'e + 'a \<Rightarrow> ('s, 'e, 'a) comp" where
  "lift_res r = (\<lambda>s. (r, s))"

text \<open>\<open>bindE m f\<close> is Rust's \<open>let x = m?; f(x)\<close>: an error of \<open>m\<close> returns at once.\<close>

definition bindE :: "('s, 'e, 'a) comp \<Rightarrow> ('a \<Rightarrow> ('s, 'e, 'b) comp) \<Rightarrow> ('s, 'e, 'b) comp" where
  "bindE m f = (\<lambda>s. case m s of (Inl e, s') \<Rightarrow> (Inl e, s') | (Inr x, s') \<Rightarrow> f x s')"

definition thenE :: "('s, 'e, 'a) comp \<Rightarrow> ('s, 'e, 'b) comp \<Rightarrow> ('s, 'e, 'b) comp" where
  "thenE m k = bindE m (\<lambda>_. k)"

text \<open>\<open>map_errE\<close> is the \<open>From\<close> conversion a \<open>?\<close> applies; \<open>catchE\<close> matches on a result.\<close>

definition map_errE :: "('e \<Rightarrow> 'f) \<Rightarrow> ('s, 'e, 'a) comp \<Rightarrow> ('s, 'f, 'a) comp" where
  "map_errE g m = (\<lambda>s. case m s of (Inl e, s') \<Rightarrow> (Inl (g e), s') | (Inr x, s') \<Rightarrow> (Inr x, s'))"

definition tryE :: "('s, 'e, 'a) comp \<Rightarrow> ('s, 'f, 'e + 'a) comp" where
  "tryE m = (\<lambda>s. case m s of (r, s') \<Rightarrow> (Inr r, s'))"

text \<open>A transaction: an error rolls the state back to where it began.\<close>

definition transaction :: "('s, 'e, 'a) comp \<Rightarrow> ('s, 'e, 'a) comp" where
  "transaction m = (\<lambda>s. case m s of (Inl e, _) \<Rightarrow> (Inl e, s) | (Inr x, s') \<Rightarrow> (Inr x, s'))"

fun for_each :: "('a \<Rightarrow> ('s, 'e, unit) comp) \<Rightarrow> 'a list \<Rightarrow> ('s, 'e, unit) comp" where
  "for_each f [] = ok ()"
| "for_each f (x # xs) = thenE (f x) (for_each f xs)"

fun map_sum_list :: "('a \<Rightarrow> 'e + 'b) \<Rightarrow> 'a list \<Rightarrow> 'e + 'b list" where
  "map_sum_list f [] = Inr []"
| "map_sum_list f (x # xs) =
     (case f x of Inl e \<Rightarrow> Inl e
      | Inr y \<Rightarrow> (case map_sum_list f xs of Inl e \<Rightarrow> Inl e | Inr ys \<Rightarrow> Inr (y # ys)))"

lemmas comp_defs = ok_def fail_def gets_def modifies_def lift_res_def bindE_def thenE_def
  map_errE_def tryE_def transaction_def

text \<open>How a computation can have returned a given result: the inversion rules of the proofs.\<close>

lemma ok_iff [comp_simps]: "ok x s = (r, s') \<longleftrightarrow> r = Inr x \<and> s' = s"
  by (auto simp: ok_def)

lemma fail_iff [comp_simps]: "fail e s = (r, s') \<longleftrightarrow> r = Inl e \<and> s' = s"
  by (auto simp: fail_def)

lemma gets_iff [comp_simps]: "gets f s = (r, s') \<longleftrightarrow> r = Inr (f s) \<and> s' = s"
  by (auto simp: gets_def)

lemma modifies_iff [comp_simps]: "modifies f s = (r, s') \<longleftrightarrow> r = Inr () \<and> s' = f s"
  by (auto simp: modifies_def)

lemma lift_res_iff [comp_simps]: "lift_res x s = (r, s') \<longleftrightarrow> x = r \<and> s' = s"
  by (auto simp: lift_res_def)

lemma bindE_Inr_iff [comp_simps]:
  "bindE m f s = (Inr x, s') \<longleftrightarrow> (\<exists>y t. m s = (Inr y, t) \<and> f y t = (Inr x, s'))"
  by (auto simp: bindE_def split: prod.splits sum.splits)

lemma bindE_Inl_iff [comp_simps]:
  "bindE m f s = (Inl e, s') \<longleftrightarrow>
     m s = (Inl e, s') \<or> (\<exists>y t. m s = (Inr y, t) \<and> f y t = (Inl e, s'))"
  by (auto simp: bindE_def split: prod.splits sum.splits)

lemma thenE_Inr_iff [comp_simps]:
  "thenE m k s = (Inr x, s') \<longleftrightarrow> (\<exists>y t. m s = (Inr y, t) \<and> k t = (Inr x, s'))"
  by (simp add: thenE_def bindE_Inr_iff)

lemma thenE_Inl_iff [comp_simps]:
  "thenE m k s = (Inl e, s') \<longleftrightarrow>
     m s = (Inl e, s') \<or> (\<exists>y t. m s = (Inr y, t) \<and> k t = (Inl e, s'))"
  by (simp add: thenE_def bindE_Inl_iff)

lemma map_errE_Inr_iff [comp_simps]: "map_errE g m s = (Inr x, s') \<longleftrightarrow> m s = (Inr x, s')"
  by (auto simp: map_errE_def split: prod.splits sum.splits)

lemma map_errE_Inl_iff [comp_simps]:
  "map_errE g m s = (Inl e, s') \<longleftrightarrow> (\<exists>e'. m s = (Inl e', s') \<and> e = g e')"
  by (auto simp: map_errE_def split: prod.splits sum.splits)

lemma tryE_iff [comp_simps]: "tryE m s = (r, s') \<longleftrightarrow> (\<exists>x. m s = (x, s') \<and> r = Inr x)"
  by (auto simp: tryE_def split: prod.splits)

lemma transaction_Inr_iff [comp_simps]: "transaction m s = (Inr x, s') \<longleftrightarrow> m s = (Inr x, s')"
  by (auto simp: transaction_def split: prod.splits sum.splits)

lemma transaction_Inl_iff [comp_simps]:
  "transaction m s = (Inl e, s') \<longleftrightarrow> s' = s \<and> (\<exists>t. m s = (Inl e, t))"
  by (auto simp: transaction_def split: prod.splits sum.splits)

lemma map_sum_list_Inr:
  "map_sum_list f xs = Inr ys \<longleftrightarrow> list_all2 (\<lambda>x y. f x = Inr y) xs ys"
proof (induction xs arbitrary: ys)
  case Nil
  then show ?case by auto
next
  case (Cons x xs)
  then show ?case
    by (cases ys; cases "f x"; cases "map_sum_list f xs") (simp_all flip: Cons.IH)
qed

text \<open>
  A state predicate every run keeps, errors included. Hoare-style preservation for the
  combinators: each component proves it for its operations and the callers compose it.
\<close>

definition keeps :: "('s \<Rightarrow> bool) \<Rightarrow> ('s, 'e, 'a) comp \<Rightarrow> bool" where
  "keeps I m \<longleftrightarrow> (\<forall>s r s'. I s \<longrightarrow> m s = (r, s') \<longrightarrow> I s')"

named_theorems keeps_intros

lemma keepsI: "(\<And>s r s'. I s \<Longrightarrow> m s = (r, s') \<Longrightarrow> I s') \<Longrightarrow> keeps I m"
  by (auto simp: keeps_def)

lemma keepsD: "keeps I m \<Longrightarrow> I s \<Longrightarrow> m s = (r, s') \<Longrightarrow> I s'"
  by (auto simp: keeps_def)

lemma keeps_ok [keeps_intros]: "keeps I (ok x)"
  by (auto simp: keeps_def ok_def)

lemma keeps_fail [keeps_intros]: "keeps I (fail e)"
  by (auto simp: keeps_def fail_def)

lemma keeps_gets [keeps_intros]: "keeps I (gets f)"
  by (auto simp: keeps_def gets_def)

lemma keeps_lift_res [keeps_intros]: "keeps I (lift_res r)"
  by (auto simp: keeps_def lift_res_def)

lemma keeps_modifies: "(\<And>s. I s \<Longrightarrow> I (f s)) \<Longrightarrow> keeps I (modifies f)"
  by (auto simp: keeps_def modifies_def)

lemma keeps_bindE [keeps_intros]: "keeps I m \<Longrightarrow> (\<And>x. keeps I (f x)) \<Longrightarrow> keeps I (bindE m f)"
proof (rule keepsI)
  fix s r s' assume m: "keeps I m" and f: "\<And>x. keeps I (f x)" and "I s" "bindE m f s = (r, s')"
  then consider e where "m s = (Inl e, s')" | x t where "m s = (Inr x, t)" "f x t = (r, s')"
    by (auto simp: bindE_def split: prod.splits sum.splits)
  then show "I s'" by cases (use m f \<open>I s\<close> in \<open>blast dest: keepsD\<close>)+
qed

lemma keeps_thenE [keeps_intros]: "keeps I m \<Longrightarrow> keeps I k \<Longrightarrow> keeps I (thenE m k)"
  unfolding thenE_def by (intro keeps_bindE)

lemma keeps_map_errE [keeps_intros]: "keeps I m \<Longrightarrow> keeps I (map_errE g m)"
  unfolding keeps_def map_errE_def by (auto split: prod.splits sum.splits)

lemma keeps_tryE [keeps_intros]: "keeps I m \<Longrightarrow> keeps I (tryE m)"
  unfolding keeps_def tryE_def by (auto split: prod.splits)

lemma keeps_transaction [keeps_intros]: "keeps I m \<Longrightarrow> keeps I (transaction m)"
  unfolding keeps_def transaction_def by (auto split: prod.splits sum.splits)

lemma keeps_for_each [keeps_intros]: "(\<And>x. x \<in> set xs \<Longrightarrow> keeps I (f x)) \<Longrightarrow> keeps I (for_each f xs)"
  by (induction xs) (auto intro: keeps_intros)

lemma keeps_let: "keeps I (m x) \<Longrightarrow> keeps I (let y = x in m y)"
  by simp

lemma keeps_if: "(b \<Longrightarrow> keeps I m) \<Longrightarrow> (\<not> b \<Longrightarrow> keeps I k) \<Longrightarrow> keeps I (if b then m else k)"
  by simp

lemma keeps_option:
  "(x = None \<Longrightarrow> keeps I m) \<Longrightarrow> (\<And>y. x = Some y \<Longrightarrow> keeps I (k y)) \<Longrightarrow>
     keeps I (case x of None \<Rightarrow> m | Some y \<Rightarrow> k y)"
  by (cases x) auto

lemma keeps_sum:
  "(\<And>e. x = Inl e \<Longrightarrow> keeps I (m e)) \<Longrightarrow> (\<And>y. x = Inr y \<Longrightarrow> keeps I (k y)) \<Longrightarrow>
     keeps I (case x of Inl e \<Rightarrow> m e | Inr y \<Rightarrow> k y)"
  by (cases x) auto

lemmas keeps_branches = keeps_let keeps_if keeps_option keeps_sum

text \<open>
  Total triples: from \<open>P\<close>, a run of \<open>m\<close> ends in \<open>Q\<close> with its value or in \<open>E\<close> with its error.
\<close>

definition hoare ::
  "('s \<Rightarrow> bool) \<Rightarrow> ('s, 'e, 'a) comp \<Rightarrow> ('a \<Rightarrow> 's \<Rightarrow> bool) \<Rightarrow> ('e \<Rightarrow> 's \<Rightarrow> bool) \<Rightarrow> bool" where
  "hoare P m Q E \<longleftrightarrow>
     (\<forall>s. P s \<longrightarrow> (case m s of (Inl e, s') \<Rightarrow> E e s' | (Inr x, s') \<Rightarrow> Q x s'))"


lemma hoareI:
  "(\<And>s x s'. P s \<Longrightarrow> m s = (Inr x, s') \<Longrightarrow> Q x s') \<Longrightarrow> (\<And>s e s'. P s \<Longrightarrow> m s = (Inl e, s') \<Longrightarrow> E e s')
     \<Longrightarrow> hoare P m Q E"
  by (auto simp: hoare_def split: prod.splits sum.splits)

lemma hoare_Inr: "hoare P m Q E \<Longrightarrow> P s \<Longrightarrow> m s = (Inr x, s') \<Longrightarrow> Q x s'"
  by (force simp: hoare_def)

lemma hoare_Inl: "hoare P m Q E \<Longrightarrow> P s \<Longrightarrow> m s = (Inl e, s') \<Longrightarrow> E e s'"
  by (force simp: hoare_def)

lemma hoare_weaken:
  assumes "hoare P' m Q' E'" and "\<And>s. P s \<Longrightarrow> P' s" and "\<And>x s. Q' x s \<Longrightarrow> Q x s"
    and "\<And>e s. E' e s \<Longrightarrow> E e s"
  shows "hoare P m Q E"
  using assms by (fastforce simp: hoare_def split: prod.splits sum.splits)

lemma hoare_pre: "hoare P' m Q E \<Longrightarrow> (\<And>s. P s \<Longrightarrow> P' s) \<Longrightarrow> hoare P m Q E"
  by (rule hoare_weaken)

lemma hoare_ok: "(\<And>s. P s \<Longrightarrow> Q x s) \<Longrightarrow> hoare P (ok x) Q E"
  by (auto simp: hoare_def ok_def)

lemma hoare_fail: "(\<And>s. P s \<Longrightarrow> E e s) \<Longrightarrow> hoare P (fail e) Q E"
  by (auto simp: hoare_def fail_def)

lemma hoare_bind:
  assumes "hoare P m R E" and "\<And>x. hoare (R x) (f x) Q E"
  shows "hoare P (bindE m f) Q E"
proof (rule hoareI)
  fix s x s' assume "P s" "bindE m f s = (Inr x, s')"
  then show "Q x s'" using assms by (auto simp: bindE_Inr_iff dest: hoare_Inr)
next
  fix s e s' assume "P s" "bindE m f s = (Inl e, s')"
  then show "E e s'" using assms by (auto simp: bindE_Inl_iff dest: hoare_Inr hoare_Inl)
qed

lemma hoare_then:
  "hoare P m (\<lambda>_. R) E \<Longrightarrow> hoare R k Q E \<Longrightarrow> hoare P (thenE m k) Q E"
  unfolding thenE_def by (rule hoare_bind)

lemma hoare_map_err: "hoare P m Q (\<lambda>e. E (g e)) \<Longrightarrow> hoare P (map_errE g m) Q E"
  by (rule hoareI) (auto simp: map_errE_Inr_iff map_errE_Inl_iff dest: hoare_Inr hoare_Inl)

lemma hoare_try: "hoare P m (\<lambda>x. Q (Inr x)) (\<lambda>e. Q (Inl e)) \<Longrightarrow> hoare P (tryE m) Q E"
proof (rule hoareI)
  fix s x s' assume h: "hoare P m (\<lambda>x. Q (Inr x)) (\<lambda>e. Q (Inl e))" and "P s" "tryE m s = (Inr x, s')"
  then have "m s = (x, s')" by (simp add: tryE_iff)
  then show "Q x s'" using h \<open>P s\<close> by (cases x) (auto dest: hoare_Inr hoare_Inl)
qed (simp add: tryE_iff)

lemma hoare_lift_res:
  "(\<And>s x. P s \<Longrightarrow> r = Inr x \<Longrightarrow> Q x s) \<Longrightarrow> (\<And>s e. P s \<Longrightarrow> r = Inl e \<Longrightarrow> E e s)
     \<Longrightarrow> hoare P (lift_res r) Q E"
  by (rule hoareI) (auto simp: lift_res_iff)

lemma hoare_keeps: "keeps I m \<longleftrightarrow> hoare I m (\<lambda>_. I) (\<lambda>_. I)"
proof
  assume "keeps I m"
  then show "hoare I m (\<lambda>_. I) (\<lambda>_. I)" by (intro hoareI) (auto dest: keepsD)
next
  assume h: "hoare I m (\<lambda>_. I) (\<lambda>_. I)"
  show "keeps I m"
  proof (rule keepsI)
    fix s r s' assume "I s" "m s = (r, s')"
    then show "I s'" using h by (cases r) (auto dest: hoare_Inr hoare_Inl)
  qed
qed

lemma hoare_if: "(b \<Longrightarrow> hoare P m Q E) \<Longrightarrow> (\<not> b \<Longrightarrow> hoare P k Q E) \<Longrightarrow> hoare P (if b then m else k) Q E"
  by simp

lemma hoare_assume: "(b \<Longrightarrow> hoare P m Q E) \<Longrightarrow> hoare (\<lambda>s. P s \<and> b) m Q E"
  by (auto simp: hoare_def)

end
