(* ===== verification/Model.thy ===== *)
theory Model
  imports Courier_Prelude "HOL-Library.Sublist"
begin

text \<open>
  The data model of the transfer engine: \<^verbatim>\<open>crates/courier-core/src/model.rs\<close> (statuses, transfers,
  files, parts, transport objects), \<^verbatim>\<open>error.rs\<close> (the error type), \<^verbatim>\<open>events.rs\<close> (persisted
  events) and \<^verbatim>\<open>retry.rs\<close> (the retry policy).

  The enums keep the source's constructors and are written qualified, as in Rust
  (\<open>TransferStatus.Ready\<close>, \<open>PartStatus.Complete\<close>). Record fields carry a prefix per record, since
  several structs share field names. The decoder of a quoted JSON literal, which
  \<^verbatim>\<open>FromStr\<close> of the statuses borrows from serde_json, is the parameter \<open>json_lit\<close>.
\<close>

section \<open>Errors\<close>

datatype io_kind = NotFound | InvalidData | UnexpectedEof | InterruptedIo | StorageFull | OtherIo

datatype io_error = IoError io_kind string

datatype sqlite_code = DatabaseCorrupt | NotADatabase | ConstraintViolation | OtherCode nat

datatype rusqlite_error =
    SqliteFailure sqlite_code string
  | ToSqlConversionFailure
  | QueryReturnedNoRows
  | OtherRusqlite string

datatype CourierError =
    Configuration string
  | Database rusqlite_error
  | Io path io_error
  | InvalidTransition string string
  | SourceModified path
  | InvalidSource path
  | TransferNotFound string
  | Serialization string
  | InvalidSystemTime
  | InvalidRelativePath path
  | SourceTraversal path string

definition is_database_corruption :: "CourierError \<Rightarrow> bool" where
  "is_database_corruption self =
     (case self of
        Database (SqliteFailure error _) \<Rightarrow>
          (case error of DatabaseCorrupt \<Rightarrow> True | NotADatabase \<Rightarrow> True | _ \<Rightarrow> False)
      | _ \<Rightarrow> False)"

section \<open>Text forms\<close>

definition ascii_lower :: "char \<Rightarrow> char" where
  "ascii_lower c = (if 65 \<le> (of_char c :: nat) \<and> (of_char c :: nat) \<le> 90
                    then char_of ((of_char c :: nat) + 32) else c)"

definition to_ascii_lowercase :: "string \<Rightarrow> string" where
  "to_ascii_lowercase s = map ascii_lower s"

definition hex_digit :: "nat \<Rightarrow> char" where
  "hex_digit n = (if n < 10 then char_of (48 + n) else char_of (87 + n))"

fun hex_fixed :: "nat \<Rightarrow> nat \<Rightarrow> string" where
  "hex_fixed 0 n = []"
| "hex_fixed (Suc k) n = hex_fixed k (n div 16) @ [hex_digit (n mod 16)]"

text \<open>\<^verbatim>\<open>Uuid::simple()\<close> and \<^verbatim>\<open>{:032x}\<close>: 32 lower-case hexadecimal digits.\<close>

definition uuid_simple :: "uuid \<Rightarrow> string" where
  "uuid_simple u = hex_fixed 32 (unat u)"

definition uuid_to_string :: "uuid \<Rightarrow> string" where
  "uuid_to_string u =
     (let h = uuid_simple u in
      take 8 h @ ''-'' @ take 4 (drop 8 h) @ ''-'' @ take 4 (drop 12 h) @ ''-''
        @ take 4 (drop 16 h) @ ''-'' @ drop 20 h)"

section \<open>Enumerations\<close>

datatype HashAlgorithm = Sha256 | XxHash3 | Blake3

definition hash_algorithm_fmt :: "HashAlgorithm \<Rightarrow> string" where
  "hash_algorithm_fmt self =
     (case self of Sha256 \<Rightarrow> ''sha256'' | XxHash3 \<Rightarrow> ''xxhash3'' | Blake3 \<Rightarrow> ''blake3'')"

definition hash_algorithm_from_str :: "string \<Rightarrow> CourierError + HashAlgorithm" where
  "hash_algorithm_from_str v =
     (let l = to_ascii_lowercase v in
      if l = ''sha256'' then Inr Sha256
      else if l = ''xxhash3'' \<or> l = ''xxh3'' then Inr XxHash3
      else if l = ''blake3'' then Inr Blake3
      else Inl (Configuration (''unsupported hash algorithm: '' @ v)))"

datatype TransferStatus =
  Draft | Inventorying | Ready | Uploading | Paused | Interrupted | Finalizing | Verifying
| Complete | Failed | Cancelled

definition can_transition_to :: "TransferStatus \<Rightarrow> TransferStatus \<Rightarrow> bool" where
  "can_transition_to self next \<longleftrightarrow>
     (case (self, next) of
        (TransferStatus.Draft, TransferStatus.Inventorying) \<Rightarrow> True
      | (TransferStatus.Inventorying, TransferStatus.Ready) \<Rightarrow> True
      | (TransferStatus.Inventorying, TransferStatus.Failed) \<Rightarrow> True
      | (TransferStatus.Ready, TransferStatus.Uploading) \<Rightarrow> True
      | (TransferStatus.Uploading, TransferStatus.Paused) \<Rightarrow> True
      | (TransferStatus.Uploading, TransferStatus.Interrupted) \<Rightarrow> True
      | (TransferStatus.Uploading, TransferStatus.Finalizing) \<Rightarrow> True
      | (TransferStatus.Uploading, TransferStatus.Failed) \<Rightarrow> True
      | (TransferStatus.Paused, TransferStatus.Uploading) \<Rightarrow> True
      | (TransferStatus.Interrupted, TransferStatus.Uploading) \<Rightarrow> True
      | (TransferStatus.Finalizing, TransferStatus.Verifying) \<Rightarrow> True
      | (TransferStatus.Finalizing, TransferStatus.Failed) \<Rightarrow> True
      | (TransferStatus.Verifying, TransferStatus.Complete) \<Rightarrow> True
      | (TransferStatus.Verifying, TransferStatus.Failed) \<Rightarrow> True
      | (_, TransferStatus.Cancelled) \<Rightarrow> True
      | _ \<Rightarrow> False)
     \<and> \<not> (case self of TransferStatus.Complete \<Rightarrow> True | TransferStatus.Cancelled \<Rightarrow> True
                      | _ \<Rightarrow> False)"

definition transfer_status_fmt :: "TransferStatus \<Rightarrow> string" where
  "transfer_status_fmt self =
     (case self of TransferStatus.Draft \<Rightarrow> ''draft'' | TransferStatus.Inventorying \<Rightarrow> ''inventorying''
      | TransferStatus.Ready \<Rightarrow> ''ready'' | TransferStatus.Uploading \<Rightarrow> ''uploading''
      | TransferStatus.Paused \<Rightarrow> ''paused'' | TransferStatus.Interrupted \<Rightarrow> ''interrupted''
      | TransferStatus.Finalizing \<Rightarrow> ''finalizing'' | TransferStatus.Verifying \<Rightarrow> ''verifying''
      | TransferStatus.Complete \<Rightarrow> ''complete'' | TransferStatus.Failed \<Rightarrow> ''failed''
      | TransferStatus.Cancelled \<Rightarrow> ''cancelled'')"

definition all_transfer_statuses :: "TransferStatus list" where
  "all_transfer_statuses =
     [TransferStatus.Draft, TransferStatus.Inventorying, TransferStatus.Ready,
      TransferStatus.Uploading, TransferStatus.Paused, TransferStatus.Interrupted,
      TransferStatus.Finalizing, TransferStatus.Verifying, TransferStatus.Complete,
      TransferStatus.Failed, TransferStatus.Cancelled]"

text \<open>
  \<open>decode_variant\<close> is serde's choice of a unit variant by its renamed name, over the literal
  the JSON decoder read.
\<close>

definition decode_variant ::
  "(string \<Rightarrow> string option) \<Rightarrow> ('a \<Rightarrow> string) \<Rightarrow> 'a list \<Rightarrow> string \<Rightarrow> CourierError + 'a" where
  "decode_variant json_lit fmt variants v =
     (case json_lit v of None \<Rightarrow> Inl (Serialization v)
      | Some s \<Rightarrow> (case find (\<lambda>x. fmt x = s) variants of
           None \<Rightarrow> Inl (Serialization v) | Some x \<Rightarrow> Inr x))"

definition transfer_status_from_str ::
  "(string \<Rightarrow> string option) \<Rightarrow> string \<Rightarrow> CourierError + TransferStatus" where
  "transfer_status_from_str json_lit v =
     decode_variant json_lit transfer_status_fmt all_transfer_statuses v"

datatype FileStatus = Pending | Ready | Uploading | Uploaded | SourceModified | Failed

definition file_status_fmt :: "FileStatus \<Rightarrow> string" where
  "file_status_fmt self =
     (case self of FileStatus.Pending \<Rightarrow> ''pending'' | FileStatus.Ready \<Rightarrow> ''ready''
      | FileStatus.Uploading \<Rightarrow> ''uploading'' | FileStatus.Uploaded \<Rightarrow> ''uploaded''
      | FileStatus.SourceModified \<Rightarrow> ''source_modified'' | FileStatus.Failed \<Rightarrow> ''failed'')"

datatype PartStatus = Pending | Uploading | Complete | Failed

definition part_status_fmt :: "PartStatus \<Rightarrow> string" where
  "part_status_fmt self =
     (case self of PartStatus.Pending \<Rightarrow> ''pending'' | PartStatus.Uploading \<Rightarrow> ''uploading''
      | PartStatus.Complete \<Rightarrow> ''complete'' | PartStatus.Failed \<Rightarrow> ''failed'')"

definition part_status_from_str ::
  "(string \<Rightarrow> string option) \<Rightarrow> string \<Rightarrow> CourierError + PartStatus" where
  "part_status_from_str json_lit v =
     decode_variant json_lit part_status_fmt
       [PartStatus.Pending, PartStatus.Uploading, PartStatus.Complete, PartStatus.Failed] v"

datatype TransportObjectKind = File | Pack

definition transport_object_kind_fmt :: "TransportObjectKind \<Rightarrow> string" where
  "transport_object_kind_fmt self =
     (case self of TransportObjectKind.File \<Rightarrow> ''file'' | TransportObjectKind.Pack \<Rightarrow> ''pack'')"

section \<open>Records\<close>

record Transfer =
  t_id :: uuid
  t_server_transfer_id :: "string option"
  t_project_id :: "string option"
  t_source_root :: path
  t_created_at :: datetime
  t_updated_at :: datetime
  t_status :: TransferStatus
  t_file_count :: u64
  t_original_bytes :: u64
  t_manifest_version :: u8
  t_registry_session_id :: "string option"

record RegistrySessionRecord =
  rs_session_id :: string
  rs_base_url :: string
  rs_expires_at :: datetime
  rs_refresh_expires_at :: datetime
  rs_projects_json :: string

text \<open>\<^verbatim>\<open>Transfer::draft\<close> takes the clock reading and the fresh identifier as arguments.\<close>

definition draft :: "datetime \<Rightarrow> uuid \<Rightarrow> path \<Rightarrow> string option \<Rightarrow> Transfer" where
  "draft now new_id source_root project_id =
     \<lparr>t_id = new_id, t_server_transfer_id = None, t_project_id = project_id,
      t_source_root = source_root, t_created_at = now, t_updated_at = now,
      t_status = TransferStatus.Draft, t_file_count = 0, t_original_bytes = 0,
      t_manifest_version = 3, t_registry_session_id = None\<rparr>"

record FileRecord =
  f_id :: uuid
  f_transfer_id :: uuid
  f_relative_path :: path
  f_absolute_path :: path
  f_size :: u64
  f_mtime_ns :: i64
  f_hash_algorithm :: HashAlgorithm
  f_sha256 :: string
  f_status :: FileStatus
  f_bytes_completed :: u64

record PartRecord =
  p_file_id :: uuid
  p_part_number :: u32
  p_source_offset :: u64
  p_source_length :: u64
  p_transport_length :: "u64 option"
  p_checksum :: "string option"
  p_etag :: "string option"
  p_attempt_count :: u32
  p_status :: PartStatus
  p_last_error :: "string option"

record TransportObjectRecord =
  o_id :: uuid
  o_transfer_id :: uuid
  o_kind :: TransportObjectKind
  o_compression :: string
  o_encoding_version :: u8
  o_original_bytes :: u64
  o_transport_bytes :: "u64 option"
  o_cache_path :: "path option"

record TransportMemberRecord =
  m_object_id :: uuid
  m_file_id :: uuid
  m_member_index :: u32

record TransferFileProgress =
  fp_id :: uuid
  fp_relative_path :: path
  fp_size :: u64
  fp_status :: FileStatus
  fp_object_id :: "uuid option"
  fp_kind :: "TransportObjectKind option"
  fp_object_transport_bytes :: "u64 option"
  fp_object_confirmed_bytes :: u64

record TransferFileProgressPage =
  fpp_files :: "TransferFileProgress list"
  fpp_total :: u64
  fpp_offset :: u64
  fpp_limit :: u64

section \<open>Events\<close>

datatype TransferErrorClass =
  Transient | AuthorizationExpired | UploadNotFound | Permanent | Paused | Local
| SourceChanged | Reconciliation | InvalidPlan | RetriesExhausted

record TransferEventDetails =
  d_object_id :: "uuid option"
  d_part_number :: "u32 option"
  d_attempt :: "u32 option"
  d_bytes :: "u64 option"
  d_state :: "TransferStatus option"
  d_from_state :: "TransferStatus option"
  d_error_class :: "TransferErrorClass option"

record TransferEvent =
  e_id :: uuid
  e_occurred_at :: datetime
  e_kind :: string
  e_details :: TransferEventDetails

definition default_details :: TransferEventDetails where
  "default_details =
     \<lparr>d_object_id = None, d_part_number = None, d_attempt = None, d_bytes = None,
      d_state = None, d_from_state = None, d_error_class = None\<rparr>"

section \<open>Retry policy\<close>

text \<open>
  Durations are nanoseconds; \<open>duration_max\<close> is the largest value of Rust's \<^verbatim>\<open>Duration\<close>,
  at which \<^verbatim>\<open>saturating_mul\<close> stops. The random generator is the parameter \<open>rng\<close>: \<open>rng n\<close> is the
  draw from \<open>0..=n\<close>.
\<close>

type_synonym duration = nat

definition duration_max :: duration where
  "duration_max = (2 ^ 64 - 1) * 10 ^ 9 + 999999999"

record RetryPolicy =
  r_base :: duration
  r_maximum :: duration
  r_max_attempts :: u32

definition default_retry_policy :: RetryPolicy where
  "default_retry_policy =
     \<lparr>r_base = 500 * 10 ^ 6, r_maximum = 30 * 10 ^ 9, r_max_attempts = 8\<rparr>"

definition saturating_pow_u32 :: "nat \<Rightarrow> nat \<Rightarrow> nat" where
  "saturating_pow_u32 b e = min (b ^ e) (2 ^ 32 - 1)"

definition delay_ceiling :: "RetryPolicy \<Rightarrow> u32 \<Rightarrow> duration" where
  "delay_ceiling self attempt =
     min (min (r_base self * saturating_pow_u32 2 (unat (min attempt 20))) duration_max)
         (r_maximum self)"

definition delay :: "(u64 \<Rightarrow> u64) \<Rightarrow> RetryPolicy \<Rightarrow> u32 \<Rightarrow> duration" where
  "delay rng self attempt =
     (let exponential = delay_ceiling self attempt;
          millis = (of_nat (exponential div 10 ^ 6) :: u64)
      in unat (rng millis) * 10 ^ 6)"

definition retries_http_status :: "u16 \<Rightarrow> bool" where
  "retries_http_status code \<longleftrightarrow>
     (400 \<le> code \<and> code \<le> 599) \<and> \<not> (code = 404 \<or> code = 413)"

section \<open>Lemmas\<close>

lemma can_transition_to_terminal [simp]:
  "\<not> can_transition_to TransferStatus.Complete s"
  "\<not> can_transition_to TransferStatus.Cancelled s"
  by (simp_all add: can_transition_to_def)

lemma in_all_transfer_statuses [simp]: "s \<in> set all_transfer_statuses"
  by (cases s) (simp_all add: all_transfer_statuses_def)

lemma transfer_status_fmt_inj: "transfer_status_fmt a = transfer_status_fmt b \<Longrightarrow> a = b"
  by (cases a; cases b) (simp_all add: transfer_status_fmt_def)

lemma part_status_fmt_inj: "part_status_fmt a = part_status_fmt b \<Longrightarrow> a = b"
  by (cases a; cases b) (simp_all add: part_status_fmt_def)

lemma find_inj:
  assumes "inj f" and "x \<in> set xs"
  shows "find (\<lambda>y. f y = f x) xs = Some x"
  using assms by (induction xs) (auto simp: inj_def)

lemma decode_variant_fmt:
  assumes "inj fmt" and "x \<in> set vs" and "js (fmt x) = Some (fmt x)"
  shows "decode_variant js fmt vs (fmt x) = Inr x"
  using assms by (simp add: decode_variant_def find_inj)

lemma hex_fixed_length [simp]: "length (hex_fixed k n) = k"
  by (induction k arbitrary: n) auto

lemma hex_digit_inj: "a < 16 \<Longrightarrow> b < 16 \<Longrightarrow> hex_digit a = hex_digit b \<Longrightarrow> a = b"
  by (auto simp: hex_digit_def of_char_of take_bit_eq_mod split: if_splits
      dest!: arg_cong [where f = "of_char :: char \<Rightarrow> nat"])

lemma hex_fixed_inj:
  "a < 16 ^ k \<Longrightarrow> b < 16 ^ k \<Longrightarrow> hex_fixed k a = hex_fixed k b \<Longrightarrow> a = b"
proof (induction k arbitrary: a b)
  case 0
  then show ?case by simp
next
  case (Suc k)
  from Suc.prems have "hex_fixed k (a div 16) = hex_fixed k (b div 16)"
    and d: "hex_digit (a mod 16) = hex_digit (b mod 16)" by auto
  moreover have "a div 16 < 16 ^ k" "b div 16 < 16 ^ k" using Suc.prems by auto
  ultimately have "a div 16 = b div 16" using Suc.IH by blast
  moreover have "a mod 16 = b mod 16" using d by (rule hex_digit_inj [rotated 2]) simp_all
  ultimately show ?case by (metis div_mult_mod_eq)
qed

lemma uuid_simple_inj: "uuid_simple a = uuid_simple b \<Longrightarrow> a = b"
proof -
  assume "uuid_simple a = uuid_simple b"
  moreover have "unat a < 16 ^ 32" "unat b < 16 ^ 32"
    using unat_bound [of a] unat_bound [of b] by simp_all
  ultimately have "unat a = unat b" unfolding uuid_simple_def by (rule hex_fixed_inj [rotated 2])
  then show "a = b" by (rule unsigned_word_eqI)
qed

end
