(* ===== verification/Planner.thy ===== *)
theory Planner
  imports Model
begin

text \<open>
  Multipart planning, \<^verbatim>\<open>crates/courier-transfer/src/planner.rs\<close>, and the re-planning of an
  unconfirmed tail, \<open>replan_large_unconfirmed_parts\<close> of \<^verbatim>\<open>executor.rs\<close>. All sizes are 64-bit
  and part numbers 32-bit words. \<open>well_planned\<close> is what a plan promises: parts numbered from one,
  contiguous from offset zero, covering the file exactly.
\<close>

section \<open>plan_parts\<close>

record MultipartLimits =
  target_part_size :: u64
  minimum_part_size :: u64
  maximum_part_size :: u64
  maximum_parts :: u32

definition default_limits :: MultipartLimits where
  "default_limits =
     \<lparr>target_part_size = 16 * 1024 * 1024, minimum_part_size = 5 * 1024 * 1024,
      maximum_part_size = 64 * 1024 * 1024, maximum_parts = 10000\<rparr>"

datatype PlanError = InvalidLimits | FileTooLarge u64 u64

definition part :: "uuid \<Rightarrow> u32 \<Rightarrow> u64 \<Rightarrow> u64 \<Rightarrow> PartRecord" where
  "part file_id part_number source_offset source_length =
     \<lparr>p_file_id = file_id, p_part_number = part_number, p_source_offset = source_offset,
      p_source_length = source_length, p_transport_length = None, p_checksum = None,
      p_etag = None, p_attempt_count = 0, p_status = PartStatus.Pending, p_last_error = None\<rparr>"

definition plan_part_size :: "u64 \<Rightarrow> MultipartLimits \<Rightarrow> u64" where
  "plan_part_size file_size limits =
     (let required = div_ceil file_size (ucast (maximum_parts limits))
      in min (max (max (target_part_size limits) (minimum_part_size limits)) required)
             (maximum_part_size limits))"

definition plan_parts :: "uuid \<Rightarrow> u64 \<Rightarrow> MultipartLimits \<Rightarrow> PlanError + PartRecord list" where
  "plan_parts file_id file_size limits =
     (if minimum_part_size limits = 0 \<or> maximum_parts limits = 0
         \<or> maximum_part_size limits < minimum_part_size limits
      then Inl InvalidLimits
      else
        let maximum_size = saturating_mul (maximum_part_size limits) (ucast (maximum_parts limits))
        in if file_size > maximum_size then Inl (FileTooLarge file_size maximum_size)
           else
             let part_size = plan_part_size file_size limits
             in if file_size = 0 then Inr [part file_id 1 0 0]
                else
                  let count = div_ceil file_size part_size
                  in Inr (map (\<lambda>i. let index = (of_nat i :: u64); offset = index * part_size
                                   in part file_id (ucast (index + 1)) offset
                                        (min (file_size - offset) part_size))
                              [0..<unat count]))"

section \<open>What a plan promises\<close>

fun contiguous :: "nat \<Rightarrow> PartRecord list \<Rightarrow> bool" where
  "contiguous off [] = True"
| "contiguous off (p # ps) \<longleftrightarrow>
     unat (p_source_offset p) = off \<and> contiguous (off + unat (p_source_length p)) ps"

definition numbered_from :: "nat \<Rightarrow> PartRecord list \<Rightarrow> bool" where
  "numbered_from n ps \<longleftrightarrow> map (\<lambda>p. unat (p_part_number p)) ps = [n ..< n + length ps]"

definition planned_bytes :: "PartRecord list \<Rightarrow> nat" where
  "planned_bytes ps = (\<Sum>p\<leftarrow>ps. unat (p_source_length p))"

definition well_planned :: "uuid \<Rightarrow> nat \<Rightarrow> PartRecord list \<Rightarrow> bool" where
  "well_planned file_id sz ps \<longleftrightarrow>
     (\<forall>p \<in> set ps. p_file_id p = file_id) \<and> numbered_from 1 ps \<and> contiguous 0 ps
     \<and> planned_bytes ps = sz"

lemma planned_bytes_simps [simp]:
  "planned_bytes [] = 0"
  "planned_bytes (p # ps) = unat (p_source_length p) + planned_bytes ps"
  "planned_bytes (ps @ qs) = planned_bytes ps + planned_bytes qs"
  by (simp_all add: planned_bytes_def)

lemma contiguous_append:
  "contiguous off (ps @ qs) \<longleftrightarrow> contiguous off ps \<and> contiguous (off + planned_bytes ps) qs"
  by (induction ps arbitrary: off) (auto simp: add.assoc)

lemma numbered_from_append:
  "numbered_from n (ps @ qs) \<longleftrightarrow> numbered_from n ps \<and> numbered_from (n + length ps) qs"
proof -
  have "[n ..< n + length (ps @ qs)] = [n ..< n + length ps] @ [n + length ps ..< n + length ps + length qs]"
    using upt_add_eq_append [of n "n + length ps" "length qs"] by (simp only: length_append add.assoc le_add1)
  then show ?thesis
    unfolding numbered_from_def map_append by (simp only: append_eq_append_conv length_map length_upt
      add_diff_cancel_left' add_diff_cancel_right' simp_thms)
qed

lemma part_sel [simp]:
  "p_file_id (part f n a l) = f" "p_part_number (part f n a l) = n"
  "p_source_offset (part f n a l) = a" "p_source_length (part f n a l) = l"
  "p_status (part f n a l) = PartStatus.Pending" "p_etag (part f n a l) = None"
  "p_attempt_count (part f n a l) = 0" "p_transport_length (part f n a l) = None"
  by (simp_all add: part_def)

section \<open>The plan is well formed\<close>

lemma len32: "2 ^ LENGTH(32) = (2 ^ 32 :: nat)"
  by simp

definition limits_valid :: "MultipartLimits \<Rightarrow> bool" where
  "limits_valid l \<longleftrightarrow> minimum_part_size l \<noteq> 0 \<and> maximum_parts l \<noteq> 0
     \<and> minimum_part_size l \<le> maximum_part_size l"

definition plan_capacity :: "MultipartLimits \<Rightarrow> u64" where
  "plan_capacity l = saturating_mul (maximum_part_size l) (ucast (maximum_parts l))"

lemma unat_ucast_u32 [simp]: "unat (ucast (x :: u32) :: u64) = unat x"
proof -
  have "unat x < 2 ^ 64" by (rule order_less_le_trans [OF unat_bound]) simp
  then show ?thesis by (simp add: unsigned_ucast_eq take_bit_nat_eq_self)
qed

lemma fits_capacity:
  "sz \<le> plan_capacity l \<Longrightarrow> unat sz \<le> unat (maximum_part_size l) * unat (maximum_parts l)"
  by (simp add: plan_capacity_def word_le_nat_alt unat_saturating_mul)

lemma word_pos_nat: "(x :: 'a::len word) \<noteq> 0 \<longleftrightarrow> 0 < unat x"
  by (simp add: unat_gt_0)

lemma plan_part_size_positive: "limits_valid l \<Longrightarrow> 0 < unat (plan_part_size sz l)"
  by (auto simp: plan_part_size_def limits_valid_def Let_def unat_min unat_max word_le_nat_alt
      word_pos_nat less_max_iff_disj)

lemma plan_part_size_le_max: "plan_part_size sz l \<le> maximum_part_size l"
  by (simp add: plan_part_size_def Let_def)

lemma plan_part_size_ge_min: "limits_valid l \<Longrightarrow> minimum_part_size l \<le> plan_part_size sz l"
  by (simp add: plan_part_size_def Let_def limits_valid_def le_max_iff_disj)

lemma plan_part_size_capacity:
  assumes "limits_valid l" and "sz \<le> plan_capacity l"
  shows "unat sz \<le> unat (maximum_parts l) * unat (plan_part_size sz l)"
proof -
  let ?m = "unat (maximum_parts l)" and ?M = "unat (maximum_part_size l)"
  let ?r = "(unat sz + ?m - 1) div ?m"
  have m: "0 < ?m" using assms(1) by (simp add: limits_valid_def word_pos_nat)
  then have nz: "(ucast (maximum_parts l) :: u64) \<noteq> 0" by (simp add: word_pos_nat)
  have req: "?r \<le> ?M"
    using m fits_capacity [OF assms(2)] by (simp only: nat_ceil_le_iff)
  have "?r \<le> unat (plan_part_size sz l)"
    using req nz by (simp add: plan_part_size_def Let_def unat_min unat_max unat_div_ceil)
  then show ?thesis using m by (simp only: nat_ceil_le_iff mult.commute)
qed

definition plan_count :: "u64 \<Rightarrow> MultipartLimits \<Rightarrow> nat" where
  "plan_count sz l = unat (div_ceil sz (plan_part_size sz l))"

definition nth_part :: "uuid \<Rightarrow> u64 \<Rightarrow> MultipartLimits \<Rightarrow> nat \<Rightarrow> PartRecord" where
  "nth_part f sz l i =
     (let s = plan_part_size sz l; off = of_nat i * s
      in part f (ucast (of_nat i + 1 :: u64)) off (min (sz - off) s))"

lemma plan_count_eq:
  "limits_valid l \<Longrightarrow> plan_count sz l
     = (unat sz + unat (plan_part_size sz l) - 1) div unat (plan_part_size sz l)"
  unfolding plan_count_def using plan_part_size_positive [of l sz]
  by (intro unat_div_ceil) (simp add: word_pos_nat)

lemma plan_count_le:
  "limits_valid l \<Longrightarrow> sz \<le> plan_capacity l \<Longrightarrow> plan_count sz l \<le> unat (maximum_parts l)"
  using plan_part_size_capacity [of l sz] plan_part_size_positive [of l sz]
  by (simp only: plan_count_eq nat_ceil_le_iff)

lemma plan_parts_unfold:
  "plan_parts f sz l =
     (if \<not> limits_valid l then Inl InvalidLimits
      else if sz > plan_capacity l then Inl (FileTooLarge sz (plan_capacity l))
      else if sz = 0 then Inr [part f 1 0 0]
      else Inr (map (nth_part f sz l) [0..<plan_count sz l]))"
  by (auto simp: plan_parts_def limits_valid_def plan_capacity_def plan_count_def nth_part_def
      Let_def not_less)

lemma nth_part_values:
  assumes "limits_valid l" and "sz \<le> plan_capacity l" and "i < plan_count sz l"
  shows "unat (p_part_number (nth_part f sz l i)) = i + 1"
    and "unat (p_source_offset (nth_part f sz l i)) = i * unat (plan_part_size sz l)"
    and "unat (p_source_length (nth_part f sz l i))
           = min (unat sz - i * unat (plan_part_size sz l)) (unat (plan_part_size sz l))"
    and "i * unat (plan_part_size sz l) < unat sz"
proof -
  let ?s = "unat (plan_part_size sz l)"
  have i32: "i + 1 < 2 ^ 32"
    using assms(3) plan_count_le [OF assms(1,2)] unat_bound [of "maximum_parts l"]
    unfolding len32 by linarith
  have ui: "unat (of_nat i :: u64) = i"
    using i32 by (simp add: unsigned_of_nat take_bit_nat_eq_self)
  show below: "i * ?s < unat sz"
    using assms plan_part_size_positive [of l sz]
    by (intro nat_ceil_less) (simp_all add: plan_count_eq)
  then have "unat (of_nat i :: u64) * ?s < 2 ^ LENGTH(64)"
    unfolding ui by (rule less_trans [OF _ unat_bound])
  then have off: "unat (of_nat i * plan_part_size sz l) = i * ?s"
    by (simp only: unat_mult_no_wrap ui)
  then have le: "of_nat i * plan_part_size sz l \<le> sz"
    using below by (simp add: word_le_nat_alt)
  show "unat (p_source_offset (nth_part f sz l i)) = i * ?s"
    by (simp add: nth_part_def Let_def off)
  show "unat (p_source_length (nth_part f sz l i)) = min (unat sz - i * ?s) ?s"
    using le off by (simp add: nth_part_def Let_def unat_min unat_sub)
  have "unat (of_nat i + 1 :: u64) = i + 1"
    using i32 by (subst unat_add_no_wrap) (simp_all add: ui)
  then have "unat (ucast (of_nat i + 1 :: u64) :: u32) = i + 1"
    using i32 by (simp add: unsigned_ucast_eq take_bit_nat_eq_self)
  then show "unat (p_part_number (nth_part f sz l i)) = i + 1"
    by (simp add: nth_part_def Let_def)
qed

lemma contiguous_map:
  assumes "\<And>i. i < n \<Longrightarrow> unat (p_source_offset (g i)) = i * s"
    and "\<And>i. Suc i < n \<Longrightarrow> unat (p_source_length (g i)) = s"
  shows "k \<le> n \<Longrightarrow> contiguous (k * s) (map g [k..<n])"
proof (induction "n - k" arbitrary: k)
  case 0
  then show ?case by simp
next
  case (Suc m)
  then have k: "k < n" by linarith
  then have split: "[k..<n] = k # [Suc k..<n]" by (rule upt_conv_Cons)
  have ih: "contiguous (Suc k * s) (map g [Suc k..<n])"
    using Suc.hyps(1) [of "Suc k"] Suc.hyps(2) k by simp
  show ?case
  proof (cases "Suc k < n")
    case True
    then show ?thesis using ih assms k by (simp add: split add.commute)
  next
    case False
    then show ?thesis using assms(1) [OF k] by (simp add: split)
  qed
qed

lemma sum_clipped:
  assumes "0 < s"
  shows "(\<Sum>i\<leftarrow>[0..<n]. min (F - i * s) s) = min F (n * (s :: nat))"
  by (induction n) (auto simp: min_def)

lemma planned_bytes_map:
  "planned_bytes (map g is) = (\<Sum>i\<leftarrow>is. unat (p_source_length (g i)))"
  by (simp add: planned_bytes_def comp_def)

theorem plan_parts_well_planned:
  assumes "plan_parts file_id sz limits = Inr parts"
  shows "well_planned file_id (unat sz) parts"
proof (cases "sz = 0")
  case True
  with assms have "parts = [part file_id 1 0 0]"
    by (simp add: plan_parts_unfold split: if_splits)
  with True show ?thesis by (simp add: well_planned_def numbered_from_def)
next
  case False
  with assms have v: "limits_valid limits" "sz \<le> plan_capacity limits"
    and parts: "parts = map (nth_part file_id sz limits) [0..<plan_count sz limits]"
    by (auto simp: plan_parts_unfold not_less split: if_splits)
  let ?s = "unat (plan_part_size sz limits)" and ?n = "plan_count sz limits"
  let ?g = "nth_part file_id sz limits"
  note val = nth_part_values [OF v]
  have s: "0 < ?s" using v(1) by (rule plan_part_size_positive)
  have full: "unat (p_source_length (?g i)) = ?s" if "Suc i < ?n" for i
  proof -
    have "Suc i * ?s < unat sz" using that by (rule val(4))
    then show ?thesis using that by (simp add: val(3))
  qed
  have cover: "unat sz \<le> ?n * ?s"
    using nat_ceil_le_iff [OF s, of "unat sz" ?n] by (simp add: plan_count_eq [OF v(1)])
  have "planned_bytes parts = (\<Sum>i\<leftarrow>[0..<?n]. min (unat sz - i * ?s) ?s)"
    unfolding parts planned_bytes_map by (rule arg_cong [where f = sum_list], rule map_cong)
      (simp_all add: val(3))
  then have "planned_bytes parts = unat sz" using cover by (simp only: sum_clipped [OF s] min_absorb1)
  moreover have "contiguous 0 parts"
    unfolding parts using contiguous_map [of ?n ?g ?s 0] by (simp add: val(2) full)
  moreover have "numbered_from 1 parts"
    unfolding parts numbered_from_def by (rule nth_equalityI) (simp_all add: val(1) del: upt_Suc)
  moreover have "\<forall>p \<in> set parts. p_file_id p = file_id"
    unfolding parts by (auto simp: nth_part_def Let_def)
  ultimately show ?thesis by (simp add: well_planned_def)
qed

lemma plan_parts_pending:
  "plan_parts file_id sz limits = Inr parts \<Longrightarrow> p \<in> set parts \<Longrightarrow>
     p_status p = PartStatus.Pending \<and> p_etag p = None \<and> p_attempt_count p = 0"
  by (auto simp: plan_parts_unfold nth_part_def Let_def split: if_splits)

lemma plan_parts_limits:
  assumes "plan_parts file_id sz limits = Inr parts"
  shows "parts \<noteq> []" and "length parts \<le> unat (maximum_parts limits)"
    and "\<forall>p \<in> set parts. p_source_length p \<le> maximum_part_size limits"
    and "\<forall>p \<in> set (butlast parts). minimum_part_size limits \<le> p_source_length p"
proof -
  have v: "limits_valid limits" "sz \<le> plan_capacity limits"
    using assms by (auto simp: plan_parts_unfold not_less split: if_splits)
  have one: "1 \<le> unat (maximum_parts limits)"
    using v(1) by (simp add: limits_valid_def word_pos_nat)
  let ?s = "unat (plan_part_size sz limits)" and ?n = "plan_count sz limits"
  note val = nth_part_values [OF v]
  have s: "0 < ?s" using v(1) by (rule plan_part_size_positive)
  have parts: "parts = (if sz = 0 then [part file_id 1 0 0]
                        else map (nth_part file_id sz limits) [0..<?n])"
    using assms v by (simp add: plan_parts_unfold not_less split: if_splits)
  have n: "sz \<noteq> 0 \<Longrightarrow> 0 < ?n"
    using nat_ceil_le_iff [OF s, of "unat sz" 0]
    unfolding plan_count_eq [OF v(1)] word_pos_nat mult_0 by linarith
  show "parts \<noteq> []" using n by (auto simp: parts)
  show "length parts \<le> unat (maximum_parts limits)"
    using plan_count_le [OF v] one by (simp add: parts)
  have "p_source_length (nth_part file_id sz limits i) \<le> plan_part_size sz limits" for i
    by (simp add: nth_part_def Let_def)
  then show "\<forall>p \<in> set parts. p_source_length p \<le> maximum_part_size limits"
    using plan_part_size_le_max [of sz limits] by (auto simp: parts intro: order_trans)
  have "minimum_part_size limits \<le> p_source_length (nth_part file_id sz limits i)"
    if "Suc i < ?n" for i
  proof -
    have "Suc i * ?s < unat sz" using that by (rule val(4))
    then have "unat (p_source_length (nth_part file_id sz limits i)) = ?s"
      using that by (simp add: val(3))
    then show ?thesis using plan_part_size_ge_min [OF v(1), of sz] by (simp add: word_le_nat_alt)
  qed
  then show "\<forall>p \<in> set (butlast parts). minimum_part_size limits \<le> p_source_length p"
    by (auto simp: parts upt_butlast simp flip: map_butlast)
qed

section \<open>Replanning an unconfirmed tail\<close>

text \<open>The consistency loop of the source over the whole plan: the offset it ends at.\<close>

fun check_plan :: "uuid \<Rightarrow> nat \<Rightarrow> u64 \<Rightarrow> PartRecord list \<Rightarrow> PlanError + u64" where
  "check_plan file_id index next_offset [] = Inr next_offset"
| "check_plan file_id index next_offset (p # ps) =
     (if p_file_id p \<noteq> file_id \<or> p_part_number p \<noteq> of_nat index + 1
         \<or> p_source_offset p \<noteq> next_offset
      then Inl InvalidLimits
      else case checked_add next_offset (p_source_length p) of
             None \<Rightarrow> Inl InvalidLimits
           | Some next' \<Rightarrow> check_plan file_id (Suc index) next' ps)"

definition is_complete :: "PartRecord \<Rightarrow> bool" where
  "is_complete p \<longleftrightarrow> p_status p = PartStatus.Complete"

definition replan_large_unconfirmed_parts ::
  "uuid \<Rightarrow> u64 \<Rightarrow> PartRecord list \<Rightarrow> PlanError + PartRecord list option" where
  "replan_large_unconfirmed_parts file_id file_size parts =
     (let limits = default_limits;
          confirmed_prefix = length (takeWhile is_complete parts);
          tail = drop confirmed_prefix parts
      in if tail = [] \<or> list_ex is_complete tail
            \<or> list_all (\<lambda>p. p_source_length p \<le> target_part_size limits) tail
         then Inr None
         else case check_plan file_id 0 0 parts of
           Inl e \<Rightarrow> Inl e
         | Inr next_offset \<Rightarrow>
             if next_offset \<noteq> file_size then Inl InvalidLimits
             else case checked_sub file_size (p_source_offset (hd tail)) of
               None \<Rightarrow> Inl InvalidLimits
             | Some remaining \<Rightarrow>
                 (case checked_sub (maximum_parts limits) (of_nat confirmed_prefix) of
                   None \<Rightarrow> Inl InvalidLimits
                 | Some available_parts \<Rightarrow>
                     (case plan_parts file_id remaining
                             (limits\<lparr>maximum_parts := available_parts\<rparr>) of
                       Inl e \<Rightarrow> Inl e
                     | Inr new_tail \<Rightarrow>
                         Inr (Some (take confirmed_prefix parts
                           @ map (\<lambda>p. p\<lparr>p_part_number := p_part_number p + of_nat confirmed_prefix,
                                        p_source_offset := p_source_offset p
                                          + p_source_offset (hd tail)\<rparr>) new_tail)))))"

lemma check_plan_Inr:
  assumes "check_plan f i off ps = Inr e"
  shows "contiguous (unat off) ps \<and> unat e = unat off + planned_bytes ps
    \<and> (\<forall>p \<in> set ps. p_file_id p = f)
    \<and> (\<forall>k < length ps. p_part_number (ps ! k) = of_nat (i + k) + 1)"
  using assms
proof (induction ps arbitrary: i off)
  case Nil
  then show ?case by simp
next
  case (Cons p ps)
  from Cons.prems obtain nxt where h: "p_file_id p = f" "p_part_number p = of_nat i + 1"
      "p_source_offset p = off" "checked_add off (p_source_length p) = Some nxt"
    and t: "check_plan f (Suc i) nxt ps = Inr e"
    by (auto split: if_splits option.splits)
  have u: "unat nxt = unat off + unat (p_source_length p)" using h(4) by (rule unat_checked_add)
  from Cons.IH [OF t] u h show ?case
    by (auto simp: nth_Cons split: nat.splits)
qed

lemma contiguous_shift:
  "contiguous off ps \<Longrightarrow> off + planned_bytes ps + unat d < 2 ^ 64 \<Longrightarrow>
   contiguous (off + unat d)
     (map (\<lambda>p. p\<lparr>p_part_number := g p, p_source_offset := p_source_offset p + d\<rparr>) ps)"
proof (induction ps arbitrary: off)
  case Nil
  then show ?case by simp
next
  case (Cons p ps)
  then have "unat (p_source_offset p + d) = off + unat d"
    by (subst unat_add_no_wrap) simp_all
  with Cons.IH [of "off + unat (p_source_length p)"] Cons.prems show ?case
    by (simp add: algebra_simps)
qed

lemma numbered_from_iff:
  "numbered_from n ps \<longleftrightarrow> (\<forall>k < length ps. unat (p_part_number (ps ! k)) = n + k)"
  unfolding numbered_from_def list_eq_iff_nth_eq by (auto simp del: upt_Suc)

lemma numbered_from_of_nat:
  assumes "\<forall>k < length ps. p_part_number (ps ! k) = of_nat k + 1" and "length ps < 2 ^ 32"
  shows "numbered_from 1 ps"
  unfolding numbered_from_iff
proof (intro allI impI)
  fix k assume k: "k < length ps"
  have "unat (of_nat k + 1 :: u32) = unat (of_nat (k + 1) :: u32)" by (simp add: add.commute)
  also have "\<dots> = k + 1"
    using k assms(2) by (simp only: unsigned_of_nat) (simp add: take_bit_nat_eq_self)
  finally show "unat (p_part_number (ps ! k)) = 1 + k" using assms(1) k by simp
qed

lemma replan_Some_cases:
  assumes "replan_large_unconfirmed_parts f sz parts = Inr (Some new)"
  defines "k \<equiv> length (takeWhile is_complete parts)"
  obtains nt rest p where "drop k parts = p # rest" "check_plan f 0 0 parts = Inr sz"
    "p_source_offset p \<le> sz" "(of_nat k :: u32) \<le> 10000"
    "plan_parts f (sz - p_source_offset p)
       (default_limits\<lparr>maximum_parts := 10000 - of_nat k\<rparr>) = Inr nt"
    "new = take k parts @ map (\<lambda>q. q\<lparr>p_part_number := p_part_number q + of_nat k,
             p_source_offset := p_source_offset q + p_source_offset p\<rparr>) nt"
proof -
  from assms(1) have ne: "drop k parts \<noteq> []"
    by (auto simp: replan_large_unconfirmed_parts_def Let_def k_def split: if_splits)
  then obtain p rest where pr: "drop k parts = p # rest" by (cases "drop k parts") auto
  from assms(1) show thesis
    using that [OF pr]
    by (auto simp: replan_large_unconfirmed_parts_def Let_def pr checked_sub_Some default_limits_def
        simp flip: k_def split: if_splits sum.splits option.splits)
qed

lemma planned_bytes_shift [simp]:
  "planned_bytes (map (\<lambda>p. p\<lparr>p_part_number := g p, p_source_offset := h p\<rparr>) ps) = planned_bytes ps"
  by (induction ps) auto

lemma unat_of_nat_u32: "k < 2 ^ 32 \<Longrightarrow> unat (of_nat k :: u32) = k"
  by (simp add: unsigned_of_nat take_bit_nat_eq_self)

lemma replan_well_planned:
  assumes replan: "replan_large_unconfirmed_parts f sz parts = Inr (Some new)"
    and len: "length parts < 2 ^ 32"
  shows "well_planned f (unat sz) new" and "length new \<le> 10000"
proof -
  let ?k = "length (takeWhile is_complete parts)"
  from replan obtain nt rest p where pr: "drop ?k parts = p # rest"
    and chk: "check_plan f 0 0 parts = Inr sz" and le: "p_source_offset p \<le> sz"
    and k10: "(of_nat ?k :: u32) \<le> 10000"
    and plan: "plan_parts f (sz - p_source_offset p)
       (default_limits\<lparr>maximum_parts := 10000 - of_nat ?k\<rparr>) = Inr nt"
    and new: "new = take ?k parts @ map (\<lambda>q. q\<lparr>p_part_number := p_part_number q + of_nat ?k,
             p_source_offset := p_source_offset q + p_source_offset p\<rparr>) nt"
    by (rule replan_Some_cases)
  have klen: "?k < length parts" using pr by (metis drop_all list.discI not_less)
  then have uk: "unat (of_nat ?k :: u32) = ?k" using len by (intro unat_of_nat_u32) simp
  then have k: "?k \<le> 10000" using k10 by (simp add: word_le_nat_alt)
  have split: "parts = take ?k parts @ p # rest" using pr by (metis append_take_drop_id)
  note c = check_plan_Inr [OF chk]
  have "numbered_from 1 parts" using c len by (intro numbered_from_of_nat) simp_all
  then have num: "numbered_from 1 (take ?k parts)"
    by (subst (asm) split) (simp only: numbered_from_append)
  have "contiguous 0 (take ?k parts @ p # rest)" using c split by simp
  then have cont: "contiguous 0 (take ?k parts)"
    and off: "unat (p_source_offset p) = planned_bytes (take ?k parts)"
    by (simp_all add: contiguous_append)
  have wp: "well_planned f (unat sz - unat (p_source_offset p)) nt"
    using plan_parts_well_planned [OF plan] le by (simp add: unat_sub)
  have "unat (10000 - of_nat ?k :: u32) = 10000 - ?k" using k10 uk by (simp add: unat_sub)
  then have lnt: "length nt \<le> 10000 - ?k" using plan_parts_limits(2) [OF plan] by simp
  have le': "unat (p_source_offset p) \<le> unat sz" using le by (simp add: word_le_nat_alt)
  let ?nt = "map (\<lambda>q. q\<lparr>p_part_number := p_part_number q + of_nat ?k,
             p_source_offset := p_source_offset q + p_source_offset p\<rparr>) nt"
  have "0 + planned_bytes nt + unat (p_source_offset p) < 2 ^ 64"
    using wp le' unat_bound [of sz] by (simp add: well_planned_def)
  then have "contiguous (0 + unat (p_source_offset p)) ?nt"
    using wp by (intro contiguous_shift) (simp_all add: well_planned_def)
  then have c2: "contiguous 0 new" using cont off by (simp add: new contiguous_append)
  have n2: "numbered_from (1 + ?k) ?nt"
    unfolding numbered_from_iff
  proof (intro allI impI)
    fix j assume j: "j < length ?nt"
    then have "unat (p_part_number (nt ! j)) = 1 + j"
      using wp by (simp add: well_planned_def numbered_from_iff)
    then have "unat (p_part_number (nt ! j) + of_nat ?k :: u32) = 1 + j + ?k"
      using j lnt k by (subst unat_add_no_wrap) (simp_all add: uk)
    then show "unat (p_part_number (?nt ! j)) = 1 + ?k + j" using j by simp
  qed
  have ids: "\<forall>q \<in> set new. p_file_id q = f"
    using c wp by (auto simp: new well_planned_def dest: in_set_takeD)
  have "planned_bytes new = unat sz"
    using wp le' off by (simp add: new well_planned_def)
  moreover have "numbered_from 1 new"
    using num n2 klen by (simp add: new numbered_from_append)
  ultimately show "well_planned f (unat sz) new" using c2 ids by (simp add: well_planned_def)
  show "length new \<le> 10000" using klen lnt k by (simp add: new)
qed

lemma replan_prefix:
  assumes "replan_large_unconfirmed_parts f sz parts = Inr (Some new)"
  defines "k \<equiv> length (takeWhile is_complete parts)"
  shows "take k new = takeWhile is_complete parts"
    and "\<forall>q \<in> set (drop k new). p_status q = PartStatus.Pending
           \<and> p_source_length q \<le> maximum_part_size default_limits"
    and "\<forall>q \<in> set (butlast (drop k new)). minimum_part_size default_limits \<le> p_source_length q"
proof -
  from assms(1) obtain nt rest p where pr: "drop k parts = p # rest"
    and plan: "plan_parts f (sz - p_source_offset p)
       (default_limits\<lparr>maximum_parts := 10000 - of_nat k\<rparr>) = Inr nt"
    and new: "new = take k parts @ map (\<lambda>q. q\<lparr>p_part_number := p_part_number q + of_nat k,
             p_source_offset := p_source_offset q + p_source_offset p\<rparr>) nt"
    unfolding k_def by (rule replan_Some_cases)
  have kl: "k \<le> length parts" by (simp add: k_def length_takeWhile_le)
  have tk: "take k parts = takeWhile is_complete parts"
    by (simp add: k_def takeWhile_eq_take [symmetric])
  have "take k new = take k parts" using kl by (simp add: new)
  then show "take k new = takeWhile is_complete parts" using tk by simp
  have drop: "drop k new = map (\<lambda>q. q\<lparr>p_part_number := p_part_number q + of_nat k,
             p_source_offset := p_source_offset q + p_source_offset p\<rparr>) nt"
    using kl by (simp add: new)
  show "\<forall>q \<in> set (drop k new). p_status q = PartStatus.Pending
           \<and> p_source_length q \<le> maximum_part_size default_limits"
    using plan_parts_pending [OF plan] plan_parts_limits(3) [OF plan] by (auto simp: drop)
  show "\<forall>q \<in> set (butlast (drop k new)). minimum_part_size default_limits \<le> p_source_length q"
    using plan_parts_limits(4) [OF plan] by (auto simp: drop simp flip: map_butlast)
qed

lemma contiguous_byte:
  assumes "contiguous off ps" and "off \<le> b" and "b < off + planned_bytes ps"
  shows "\<exists>!i. i < length ps \<and> unat (p_source_offset (ps ! i)) \<le> b
          \<and> b < unat (p_source_offset (ps ! i)) + unat (p_source_length (ps ! i))"
  using assms
proof (induction ps arbitrary: off)
  case Nil
  then show ?case by simp
next
  case (Cons p ps)
  let ?in = "\<lambda>qs i. i < length qs \<and> unat (p_source_offset (qs ! i)) \<le> b
          \<and> b < unat (p_source_offset (qs ! i)) + unat (p_source_length (qs ! i))"
  have lower: "off + unat (p_source_length p) \<le> unat (p_source_offset (ps ! i))" if "i < length ps" for i
  proof -
    have "contiguous (off + unat (p_source_length p)) (take i ps @ drop i ps)"
      using Cons.prems(1) by simp
    moreover have "drop i ps = ps ! i # drop (Suc i) ps" using that by (simp add: Cons_nth_drop_Suc)
    ultimately show ?thesis by (simp add: contiguous_append del: append_take_drop_id)
  qed
  show ?case
  proof (cases "b < off + unat (p_source_length p)")
    case True
    show ?thesis
    proof (rule ex1I [of _ 0])
      show "?in (p # ps) 0" using True Cons.prems by simp
    next
      fix i assume i: "?in (p # ps) i"
      show "i = 0"
      proof (cases i)
        case (Suc j)
        then show ?thesis using i True lower [of j] by simp
      qed
    qed
  next
    case False
    then have "\<exists>!i. ?in ps i"
      using Cons.prems by (intro Cons.IH [of "off + unat (p_source_length p)"]) simp_all
    then obtain i where i: "?in ps i" and u: "\<And>j. ?in ps j \<Longrightarrow> j = i" by blast
    show ?thesis
    proof (rule ex1I [of _ "Suc i"])
      show "?in (p # ps) (Suc i)" using i by simp
    next
      fix j assume j: "?in (p # ps) j"
      show "j = Suc i"
      proof (cases j)
        case 0
        then show ?thesis using j False Cons.prems by simp
      next
        case (Suc m)
        then show ?thesis using j u [of m] by simp
      qed
    qed
  qed
qed

end
