(* ===== verification/Paths.thy ===== *)
theory Paths
  imports Model
begin

text \<open>
  What the program uses of \<^verbatim>\<open>std::path\<close> on Unix: components, their order (a path compares by its
  components, not by its bytes), \<^verbatim>\<open>join\<close>, \<^verbatim>\<open>parent\<close>, \<^verbatim>\<open>file_name\<close> and \<^verbatim>\<open>strip_prefix\<close>; and
  the three path checks of the program: \<open>portable_path\<close> (\<^verbatim>\<open>courier-pack\<close>),
  \<open>portable_relative_path\<close> (\<^verbatim>\<open>courier-registry\<close>) and \<open>safe_path\<close> (the retrieve command).
  A path is its UTF-8 bytes, so the lossy conversions of the source are the identity here.
  \<open>strip_prefix\<close> and \<open>parent\<close> return the normalised spelling, which Rust's path equality
  does not tell apart from the slice it returns.
\<close>

section \<open>std::path\<close>

datatype Component = RootDir | CurDir | ParentDir | Normal string

fun split_on :: "char \<Rightarrow> string \<Rightarrow> string list" where
  "split_on c [] = [[]]"
| "split_on c (x # xs) =
     (if x = c then [] # split_on c xs
      else case split_on c xs of [] \<Rightarrow> [[x]] | w # ws \<Rightarrow> (x # w) # ws)"

fun join_with :: "string \<Rightarrow> string list \<Rightarrow> string" where
  "join_with sep [] = []"
| "join_with sep [x] = x"
| "join_with sep (x # y # xs) = x @ sep @ join_with sep (y # xs)"

fun body_component :: "string \<Rightarrow> Component list" where
  "body_component w = (if w = '''' \<or> w = ''.'' then [] else if w = ''..'' then [ParentDir]
                       else [Normal w])"

definition is_absolute :: "path \<Rightarrow> bool" where
  "is_absolute p \<longleftrightarrow> p \<noteq> [] \<and> hd p = CHR ''/''"

definition components :: "path \<Rightarrow> Component list" where
  "components p =
     (let parts = split_on (CHR ''/'') p in
      (if is_absolute p then [RootDir] else if hd parts = ''.'' then [CurDir] else [])
        @ concat (map body_component parts))"

fun component_text :: "Component \<Rightarrow> string" where
  "component_text RootDir = ''''"
| "component_text CurDir = ''.''"
| "component_text ParentDir = ''..''"
| "component_text (Normal w) = w"

definition render :: "Component list \<Rightarrow> path" where
  "render cs = (if cs = [RootDir] then ''/'' else join_with ''/'' (map component_text cs))"

definition path_join :: "path \<Rightarrow> path \<Rightarrow> path" where
  "path_join root p =
     (if is_absolute p then p
      else if root = [] \<or> last root = CHR ''/'' then root @ p else root @ ''/'' @ p)"

definition path_parent :: "path \<Rightarrow> path option" where
  "path_parent p =
     (case rev (components p) of [] \<Rightarrow> None | RootDir # _ \<Rightarrow> None
      | _ # rest \<Rightarrow> Some (render (rev rest)))"

definition path_file_name :: "path \<Rightarrow> string option" where
  "path_file_name p = (case rev (components p) of Normal w # _ \<Rightarrow> Some w | _ \<Rightarrow> None)"

fun strip_components :: "Component list \<Rightarrow> Component list \<Rightarrow> Component list option" where
  "strip_components cs [] = Some cs"
| "strip_components [] (b # bs) = None"
| "strip_components (c # cs) (b # bs) = (if c = b then strip_components cs bs else None)"

definition strip_prefix :: "path \<Rightarrow> path \<Rightarrow> path option" where
  "strip_prefix p base = map_option render (strip_components (components p) (components base))"

section \<open>The order of paths\<close>

fun component_rank :: "Component \<Rightarrow> nat" where
  "component_rank RootDir = 0"
| "component_rank CurDir = 1"
| "component_rank ParentDir = 2"
| "component_rank (Normal _) = 3"

instantiation Component :: linorder
begin

definition less_eq_Component :: "Component \<Rightarrow> Component \<Rightarrow> bool" where
  "less_eq_Component a b \<longleftrightarrow>
     (case (a, b) of (Normal x, Normal y) \<Rightarrow> x \<le> y
      | _ \<Rightarrow> component_rank a \<le> component_rank b)"

definition less_Component :: "Component \<Rightarrow> Component \<Rightarrow> bool" where
  "less_Component a b \<longleftrightarrow> a \<le> b \<and> \<not> b \<le> (a :: Component)"

instance
proof
  fix x y z :: Component
  show "x < y \<longleftrightarrow> x \<le> y \<and> \<not> y \<le> x" by (rule less_Component_def)
  show "x \<le> x" by (cases x) (simp_all add: less_eq_Component_def)
  show "x \<le> y \<Longrightarrow> y \<le> z \<Longrightarrow> x \<le> z"
    by (cases x; cases y; cases z) (auto simp: less_eq_Component_def)
  show "x \<le> y \<Longrightarrow> y \<le> x \<Longrightarrow> x = y"
    by (cases x; cases y) (auto simp: less_eq_Component_def)
  show "x \<le> y \<or> y \<le> x"
    by (cases x; cases y) (auto simp: less_eq_Component_def)
qed

end

definition path_le :: "path \<Rightarrow> path \<Rightarrow> bool" where
  "path_le p q \<longleftrightarrow> components p \<le> components q"

section \<open>Path checks of the program\<close>

text \<open>All components normal, joined by \<open>/\<close>; \<open>None\<close> when one is not.\<close>

fun normal_texts :: "Component list \<Rightarrow> string list option" where
  "normal_texts [] = Some []"
| "normal_texts (Normal w # cs) = map_option ((#) w) (normal_texts cs)"
| "normal_texts (_ # cs) = None"

definition portable_path :: "path \<Rightarrow> string option" where
  "portable_path p =
     (case normal_texts (components p) of None \<Rightarrow> None
      | Some ws \<Rightarrow> if ws = [] then None else Some (join_with ''/'' ws))"

definition portable_relative_path :: "FileRecord \<Rightarrow> string option" where
  "portable_relative_path file =
     map_option (join_with ''/'') (normal_texts (components (f_relative_path file)))"

fun is_normal :: "Component \<Rightarrow> bool" where
  "is_normal (Normal _) = True"
| "is_normal _ = False"

definition safe_path :: "path \<Rightarrow> string \<Rightarrow> path option" where
  "safe_path root v =
     (if \<not> (v \<noteq> [] \<and> CHR 0x5C \<notin> set v \<and> CHR 0x00 \<notin> set v
            \<and> list_all (\<lambda>part. part \<noteq> '''' \<and> part \<noteq> ''.'' \<and> part \<noteq> ''..'') (split_on (CHR ''/'') v))
      then None
      else if \<not> list_all is_normal (components v) then None
      else Some (path_join root v))"

section \<open>Lemmas\<close>

lemma split_on_ne [simp]: "split_on c s \<noteq> []"
  by (induction s) (auto split: list.splits)

lemma split_on_no_sep: "c \<notin> set s \<Longrightarrow> split_on c s = [s]"
  by (induction s) auto

lemma split_on_sep: "c \<notin> set w \<Longrightarrow> split_on c (w @ c # s) = w # split_on c s"
  by (induction w) auto

lemma split_on_append:
  "split_on c (r @ c # s) = split_on c r @ split_on c s"
  by (induction r) (auto split: list.splits)

lemma split_on_parts: "w \<in> set (split_on c s) \<Longrightarrow> c \<notin> set w"
proof (induction s arbitrary: w)
  case Nil
  then show ?case by simp
next
  case (Cons x s)
  then show ?case by (cases "split_on c s") (auto split: if_splits)
qed

lemma split_on_join:
  "ws \<noteq> [] \<Longrightarrow> (\<And>w. w \<in> set ws \<Longrightarrow> c \<notin> set w) \<Longrightarrow> split_on c (join_with [c] ws) = ws"
  by (induction "[c]" ws rule: join_with.induct) (auto simp: split_on_no_sep split_on_sep)

lemma join_split: "join_with [c] (split_on c s) = s"
proof (induction s)
  case Nil
  then show ?case by simp
next
  case (Cons x s)
  show ?case
  proof (cases "split_on c s")
    case Nil
    then show ?thesis by simp
  next
    case (Cons w ws)
    then show ?thesis using \<open>join_with [c] (split_on c s) = s\<close> by (cases ws) auto
  qed
qed

definition plain_name :: "string \<Rightarrow> bool" where
  "plain_name w \<longleftrightarrow> w \<noteq> '''' \<and> w \<noteq> ''.'' \<and> w \<noteq> ''..'' \<and> CHR ''/'' \<notin> set w"

lemma body_component_plain [simp]: "plain_name w \<Longrightarrow> body_component w = [Normal w]"
  by (simp add: plain_name_def)

lemma concat_body_plain [simp]:
  "list_all plain_name ws \<Longrightarrow> concat (map body_component ws) = map Normal ws"
  by (induction ws) (simp_all del: body_component.simps)

lemma body_component_normal:
  "Normal w \<in> set (body_component u) \<Longrightarrow> w = u \<and> u \<noteq> '''' \<and> u \<noteq> ''.'' \<and> u \<noteq> ''..''"
  by (auto split: if_splits)

lemma normal_in_components: "Normal w \<in> set (components p) \<Longrightarrow> plain_name w"
proof -
  assume "Normal w \<in> set (components p)"
  then obtain u where u: "u \<in> set (split_on (CHR ''/'') p)" "Normal w \<in> set (body_component u)"
    by (auto simp: components_def Let_def simp del: body_component.simps split: if_splits)
  then show ?thesis
    using body_component_normal [OF u(2)] split_on_parts [OF u(1)] by (simp add: plain_name_def)
qed

lemma components_join_plain:
  assumes "ws \<noteq> []" and "list_all plain_name ws"
  shows "components (join_with ''/'' ws) = map Normal ws"
    and "\<not> is_absolute (join_with ''/'' ws)"
    and "split_on (CHR ''/'') (join_with ''/'' ws) = ws"
proof -
  show split: "split_on (CHR ''/'') (join_with ''/'' ws) = ws"
    using assms by (intro split_on_join) (auto simp: list_all_iff plain_name_def)
  obtain w us where ws: "ws = w # us" using assms(1) by (cases ws) auto
  then have w: "plain_name w" using assms(2) by simp
  then obtain x xs where x: "w = x # xs" by (cases w) (auto simp: plain_name_def)
  then have "join_with ''/'' ws \<noteq> []" "hd (join_with ''/'' ws) = x"
    using ws by (cases us; simp)+
  moreover have "x \<noteq> CHR ''/''" using w x by (auto simp: plain_name_def)
  ultimately show rel: "\<not> is_absolute (join_with ''/'' ws)" by (simp add: is_absolute_def)
  have "hd ws \<noteq> ''.''" using ws w by (auto simp: plain_name_def)
  then show "components (join_with ''/'' ws) = map Normal ws"
    using rel assms by (simp add: components_def split)
qed

lemma normal_texts_Some: "normal_texts cs = Some ws \<longleftrightarrow> cs = map Normal ws"
  by (induction cs arbitrary: ws rule: normal_texts.induct) auto

lemma portable_path_Some:
  "portable_path p = Some s \<longleftrightarrow>
     (\<exists>ws. ws \<noteq> [] \<and> components p = map Normal ws \<and> s = join_with ''/'' ws)"
proof -
  have "inj (map Normal)" by (intro inj_mapI injI) simp
  then show ?thesis
    by (auto simp: portable_path_def normal_texts_Some inj_eq split: option.splits if_splits)
      (metis normal_texts_Some option.distinct(1))
qed

lemma portable_path_plain:
  assumes "components p = map Normal ws"
  shows "list_all plain_name ws"
  unfolding list_all_iff by (metis assms imageI list.set_map normal_in_components)

lemma components_portable_path:
  assumes "portable_path p = Some s"
  shows "components s = components p"
proof -
  from assms obtain ws where ws: "ws \<noteq> []" "components p = map Normal ws" "s = join_with ''/'' ws"
    by (auto simp: portable_path_Some)
  show ?thesis using components_join_plain(1) [OF ws(1) portable_path_plain [OF ws(2)]] ws by simp
qed

lemma portable_path_inj:
  assumes "portable_path p = Some s" and "portable_path q = Some s"
  shows "components p = components q"
  using components_portable_path [OF assms(1)] components_portable_path [OF assms(2)] by simp

lemma components_path_join:
  assumes "\<not> is_absolute q" and "hd (split_on (CHR ''/'') q) \<noteq> ''.''"
  shows "components (path_join root q) = components root @ components q"
proof -
  let ?sp = "split_on (CHR ''/'')"
  consider "root = []" | r where "root = r @ ''/''" | "root \<noteq> []" "last root \<noteq> CHR ''/''"
    by (metis append_butlast_last_id)
  then show ?thesis
  proof cases
    case 1
    then show ?thesis using assms by (simp add: path_join_def components_def is_absolute_def)
  next
    case (2 r)
    have abs: "is_absolute (r @ CHR ''/'' # q) = is_absolute (r @ ''/'')"
      by (cases r) (simp_all add: is_absolute_def)
    have j: "path_join root q = r @ CHR ''/'' # q" using 2 assms by (simp add: path_join_def)
    have "?sp (r @ CHR ''/'' # q) = ?sp r @ ?sp q" and "?sp root = ?sp r @ [[]]"
      using split_on_append [of _ r] 2 by simp_all
    then show ?thesis unfolding j using assms abs 2
      by (simp add: components_def Let_def)
  next
    case 3
    have abs: "is_absolute (root @ CHR ''/'' # q) = is_absolute root"
      using 3 by (cases root) (simp_all add: is_absolute_def)
    have j: "path_join root q = root @ CHR ''/'' # q" using 3 assms by (simp add: path_join_def)
    have "?sp (root @ CHR ''/'' # q) = ?sp root @ ?sp q" by (rule split_on_append)
    then show ?thesis unfolding j using assms abs by (simp add: components_def Let_def)
  qed
qed

lemma safe_path_Some:
  assumes "safe_path root v = Some p"
  shows "list_all plain_name (split_on (CHR ''/'') v)"
    and "components v = map Normal (split_on (CHR ''/'') v)"
    and "components p = components root @ map Normal (split_on (CHR ''/'') v)"
    and "p = path_join root v"
proof -
  let ?ws = "split_on (CHR ''/'') v"
  show pl: "list_all plain_name ?ws"
    using assms split_on_parts [of _ "CHR ''/''" v]
    by (auto simp: safe_path_def list_all_iff plain_name_def split: if_splits)
  have v: "v = join_with ''/'' ?ws" by (simp add: join_split)
  show cv: "components v = map Normal ?ws"
    using components_join_plain(1) [OF split_on_ne pl] v by simp
  have rel: "\<not> is_absolute v" using components_join_plain(2) [OF split_on_ne pl] v by simp
  have "hd ?ws \<noteq> ''.''" using pl by (cases ?ws) (auto simp: plain_name_def)
  then have "components (path_join root v) = components root @ components v"
    by (rule components_path_join [OF rel])
  moreover show "p = path_join root v" using assms by (simp add: safe_path_def split: if_splits)
  ultimately show "components p = components root @ map Normal ?ws" using cv by simp
qed

lemma safe_path_portable:
  assumes "portable_path q = Some s" and "CHR 0x5C \<notin> set s" and "CHR 0x00 \<notin> set s"
  shows "safe_path root s = Some (path_join root s)"
proof -
  from assms obtain ws where ws: "ws \<noteq> []" "components q = map Normal ws" "s = join_with ''/'' ws"
    by (auto simp: portable_path_Some)
  note pl = portable_path_plain [OF ws(2)]
  note j = components_join_plain [OF ws(1) pl]
  have "list_all is_normal (components s)" using j(1) ws by (simp add: list_all_iff)
  moreover have "s \<noteq> []"
    using j(1) ws by (cases s) (auto simp: components_def is_absolute_def)
  moreover have "list_all (\<lambda>part. part \<noteq> '''' \<and> part \<noteq> ''.'' \<and> part \<noteq> ''..'') (split_on (CHR ''/'') s)"
    using j(3) pl ws by (auto simp: list_all_iff plain_name_def)
  ultimately show ?thesis using assms(2,3) by (simp add: safe_path_def)
qed

lemma strip_components_append: "strip_components (bs @ cs) bs = Some cs"
  by (induction bs) auto

end
