(* ===== verification/Inventory.thy ===== *)
theory Inventory
  imports Paths
begin

text \<open>
  Inventory and integrity, \<^verbatim>\<open>crates/courier-core/src/inventory.rs\<close>: walking a source, hashing each
  file through a bounded buffer, reporting progress, and the mutation check.

  The file system is the record \<open>'w fs_ops\<close> of operations over an environment state \<open>'w\<close>, so
  that it may change between any two calls; the directory walker (walkdir) and the three
  streaming hashers (sha2, xxhash-rust, blake3) are the parameters \<open>fs_walk\<close> and \<open>hash_lib\<close>.
  The observer closure only receives events: its calls are the trace kept beside the environment.
\<close>

section \<open>The environment\<close>

record metadata =
  md_len :: u64
  md_modified :: "io_error + int"

type_synonym walk_item = "(path option \<times> string) + (path \<times> bool)"
type_synonym read_result = "io_error + bytes"

record 'w fs_ops =
  fs_exists :: "path \<Rightarrow> 'w \<Rightarrow> bool \<times> 'w"
  fs_is_file :: "path \<Rightarrow> 'w \<Rightarrow> bool \<times> 'w"
  fs_walk :: "path \<Rightarrow> 'w \<Rightarrow> walk_item list \<times> 'w"
  fs_metadata :: "path \<Rightarrow> 'w \<Rightarrow> (io_error + metadata) \<times> 'w"
  fs_reads :: "path \<Rightarrow> nat \<Rightarrow> 'w \<Rightarrow> (io_error + read_result list) \<times> 'w"
  fs_read_exact_at :: "path \<Rightarrow> u64 \<Rightarrow> nat \<Rightarrow> 'w \<Rightarrow> (io_error + bytes) \<times> 'w"

record 'h hash_lib =
  hl_new :: "HashAlgorithm \<Rightarrow> 'h"
  hl_update :: "HashAlgorithm \<Rightarrow> 'h \<Rightarrow> bytes \<Rightarrow> 'h"
  hl_digest :: "HashAlgorithm \<Rightarrow> 'h \<Rightarrow> string"

record InventoryOptions =
  io_buffer_size :: nat
  io_hash_algorithm :: HashAlgorithm

definition default_inventory_options :: InventoryOptions where
  "default_inventory_options =
     \<lparr>io_buffer_size = 8 * 1024 * 1024, io_hash_algorithm = Sha256\<rparr>"

record InventoryProgress =
  ip_files_analyzed :: u64
  ip_total_files :: u64
  ip_bytes_analyzed :: u64
  ip_total_bytes :: u64
  ip_current_path :: path

definition on_env :: "('w \<Rightarrow> 'a \<times> 'w) \<Rightarrow> ('w \<times> 't, 'e, 'a) comp" where
  "on_env op = (\<lambda>(w, t). case op w of (x, w') \<Rightarrow> (Inr x, (w', t)))"

definition on_env_io :: "path \<Rightarrow> ('w \<Rightarrow> (io_error + 'a) \<times> 'w) \<Rightarrow> ('w \<times> 't, CourierError, 'a) comp" where
  "on_env_io p op = (\<lambda>(w, t). case op w of
     (Inl e, w') \<Rightarrow> (Inl (Io p e), (w', t)) | (Inr x, w') \<Rightarrow> (Inr x, (w', t)))"

definition emit :: "'ev list \<Rightarrow> ('w \<times> 'ev list, 'e, unit) comp" where
  "emit evs = (\<lambda>(w, t). (Inr (), (w, t @ evs)))"

section \<open>Modification times and the mutation check\<close>

definition modified_ns :: "metadata \<Rightarrow> CourierError + i64" where
  "modified_ns md =
     (case md_modified md of
        Inl e \<Rightarrow> Inl (Io ''<metadata>'' e)
      | Inr t \<Rightarrow> if t < 0 then Inl InvalidSystemTime
          else let secs = t div 1000000000; subsec_nanos = t mod 1000000000
               in Inr (word_of_int (secs * 1000000000 + subsec_nanos)))"

definition verify_source_unchanged ::
  "'w fs_ops \<Rightarrow> FileRecord \<Rightarrow> ('w \<times> 't, CourierError, unit) comp" where
  "verify_source_unchanged fs file =
     bindE (on_env_io (f_absolute_path file) (fs_metadata fs (f_absolute_path file))) (\<lambda>md.
     if md_len md \<noteq> f_size file then fail (CourierError.SourceModified (f_absolute_path file))
     else bindE (lift_res (modified_ns md)) (\<lambda>mtime.
       if mtime \<noteq> f_mtime_ns file then fail (CourierError.SourceModified (f_absolute_path file))
       else ok ()))"

section \<open>Hashing\<close>

text \<open>The read loop: the hasher state, and the byte counts the observer sees.\<close>

fun hash_reads ::
  "'h hash_lib \<Rightarrow> HashAlgorithm \<Rightarrow> path \<Rightarrow> read_result list \<Rightarrow> 'h \<Rightarrow> u64
     \<Rightarrow> (CourierError + 'h) \<times> u64 list" where
  "hash_reads lib alg p [] h n = (Inr h, [])"
| "hash_reads lib alg p (Inl e # rs) h n = (Inl (Io p e), [])"
| "hash_reads lib alg p (Inr chunk # rs) h n =
     (if length chunk = 0 then (Inr h, [])
      else let n' = saturating_add n (of_nat (length chunk));
               (r, obs) = hash_reads lib alg p rs (hl_update lib alg h chunk) n'
           in (r, n' # obs))"

definition hash_file ::
  "'w fs_ops \<Rightarrow> 'h hash_lib \<Rightarrow> path \<Rightarrow> nat \<Rightarrow> HashAlgorithm \<Rightarrow> (u64 \<Rightarrow> 'ev list)
     \<Rightarrow> ('w \<times> 'ev list, CourierError, string) comp" where
  "hash_file fs lib p buffer_size alg observer =
     bindE (on_env_io p (fs_reads fs p buffer_size)) (\<lambda>reads.
       let (r, obs) = hash_reads lib alg p reads (hl_new lib alg) 0
       in thenE (emit (concat (map observer obs)))
            (case r of Inl e \<Rightarrow> fail e | Inr h \<Rightarrow> ok (hl_digest lib alg h)))"

definition digest_file ::
  "'w fs_ops \<Rightarrow> 'h hash_lib \<Rightarrow> path \<Rightarrow> HashAlgorithm
     \<Rightarrow> ('w \<times> 'ev list, CourierError, string) comp" where
  "digest_file fs lib p alg = hash_file fs lib p (1024 * 1024) alg (\<lambda>_. [])"

section \<open>The inventory\<close>

definition walk_entry :: "path \<Rightarrow> walk_item \<Rightarrow> CourierError + (path \<times> bool)" where
  "walk_entry source item =
     (case item of
        Inl (p, message) \<Rightarrow> Inl (SourceTraversal (case p of Some q \<Rightarrow> q | None \<Rightarrow> source) message)
      | Inr entry \<Rightarrow> Inr entry)"

definition walk_files :: "path \<Rightarrow> walk_item list \<Rightarrow> CourierError + path list" where
  "walk_files source items =
     (case map_sum_list (walk_entry source) items of
        Inl e \<Rightarrow> Inl e
      | Inr entries \<Rightarrow> Inr (map fst (filter snd entries)))"

fun total_size ::
  "'w fs_ops \<Rightarrow> u64 \<Rightarrow> path list \<Rightarrow> ('w \<times> 't, CourierError, u64) comp" where
  "total_size fs n [] = ok n"
| "total_size fs n (p # ps) =
     bindE (on_env_io p (fs_metadata fs p)) (\<lambda>md.
       total_size fs (saturating_add n (md_len md)) ps)"

definition progress :: "u64 \<Rightarrow> u64 \<Rightarrow> u64 \<Rightarrow> u64 \<Rightarrow> path \<Rightarrow> InventoryProgress" where
  "progress files_analyzed total_files bytes_analyzed total_bytes current_path =
     \<lparr>ip_files_analyzed = files_analyzed, ip_total_files = total_files,
      ip_bytes_analyzed = bytes_analyzed, ip_total_bytes = total_bytes,
      ip_current_path = current_path\<rparr>"

text \<open>\<open>fresh n\<close> is the identifier drawn for the \<open>n\<close>-th record.\<close>

definition inventory_one ::
  "'w fs_ops \<Rightarrow> 'h hash_lib \<Rightarrow> (nat \<Rightarrow> uuid) \<Rightarrow> uuid \<Rightarrow> path \<Rightarrow> InventoryOptions \<Rightarrow> u64 \<Rightarrow> u64
     \<Rightarrow> FileRecord list \<Rightarrow> u64 \<Rightarrow> path
     \<Rightarrow> ('w \<times> InventoryProgress list, CourierError, FileRecord list \<times> u64) comp" where
  "inventory_one fs lib fresh transfer_id root options total_files total_bytes records bytes_analyzed p =
     bindE (on_env_io p (fs_metadata fs p)) (\<lambda>md.
     case strip_prefix p root of
       None \<Rightarrow> fail (InvalidRelativePath p)
     | Some relative_path \<Rightarrow>
         bindE (lift_res (modified_ns md)) (\<lambda>mtime_ns.
         let files_analyzed = of_nat (length records); bytes_before_file = bytes_analyzed in
         bindE (hash_file fs lib p (io_buffer_size options) (io_hash_algorithm options)
                  (\<lambda>file_bytes_analyzed.
                     [progress files_analyzed total_files
                        (saturating_add bytes_before_file file_bytes_analyzed) total_bytes
                        relative_path])) (\<lambda>digest.
         let bytes' = saturating_add bytes_analyzed (md_len md);
             record = \<lparr>f_id = fresh (length records), f_transfer_id = transfer_id,
                       f_relative_path = relative_path, f_absolute_path = p, f_size = md_len md,
                       f_mtime_ns = mtime_ns, f_hash_algorithm = io_hash_algorithm options,
                       f_sha256 = digest, f_status = FileStatus.Ready, f_bytes_completed = 0\<rparr>;
             records' = records @ [record]
         in thenE (emit [progress (of_nat (length records')) total_files bytes' total_bytes
                           relative_path])
              (ok (records', bytes')))))"

fun inventory_loop ::
  "'w fs_ops \<Rightarrow> 'h hash_lib \<Rightarrow> (nat \<Rightarrow> uuid) \<Rightarrow> uuid \<Rightarrow> path \<Rightarrow> InventoryOptions \<Rightarrow> u64 \<Rightarrow> u64
     \<Rightarrow> FileRecord list \<Rightarrow> u64 \<Rightarrow> path list
     \<Rightarrow> ('w \<times> InventoryProgress list, CourierError, FileRecord list) comp" where
  "inventory_loop fs lib fresh transfer_id root options total_files total_bytes records bytes_analyzed [] =
     ok records"
| "inventory_loop fs lib fresh transfer_id root options total_files total_bytes records bytes_analyzed (p # ps) =
     bindE (inventory_one fs lib fresh transfer_id root options total_files total_bytes
              records bytes_analyzed p)
       (\<lambda>(records', bytes'). inventory_loop fs lib fresh transfer_id root options total_files
              total_bytes records' bytes' ps)"

definition inventory_visited ::
  "'w fs_ops \<Rightarrow> 'h hash_lib \<Rightarrow> (nat \<Rightarrow> uuid) \<Rightarrow> uuid \<Rightarrow> path \<Rightarrow> InventoryOptions \<Rightarrow> path list
     \<Rightarrow> ('w \<times> InventoryProgress list, CourierError, FileRecord list) comp" where
  "inventory_visited fs lib fresh transfer_id root options paths =
     (let total_files = of_nat (length paths) in
      bindE (total_size fs 0 paths) (\<lambda>total_bytes.
      thenE (emit [progress 0 total_files 0 total_bytes ''''])
        (bindE (inventory_loop fs lib fresh transfer_id root options total_files total_bytes
                  [] 0 paths)
           (\<lambda>records. ok (sort_key (\<lambda>r. components (f_relative_path r)) records)))))"

definition inventory_transfer_observed ::
  "'w fs_ops \<Rightarrow> 'h hash_lib \<Rightarrow> (nat \<Rightarrow> uuid) \<Rightarrow> uuid \<Rightarrow> path \<Rightarrow> InventoryOptions
     \<Rightarrow> ('w \<times> InventoryProgress list, CourierError, FileRecord list) comp" where
  "inventory_transfer_observed fs lib fresh transfer_id source options =
     bindE (on_env (fs_exists fs source)) (\<lambda>exists.
     if \<not> exists then fail (InvalidSource source)
     else bindE (on_env (fs_is_file fs source)) (\<lambda>single.
       let root = (if single then (case path_parent source of Some d \<Rightarrow> d | None \<Rightarrow> ''.'')
                   else source) in
       bindE (on_env (fs_is_file fs source)) (\<lambda>single'.
       bindE (if single' then ok [source]
              else bindE (on_env (fs_walk fs source)) (\<lambda>items. lift_res (walk_files source items)))
       (\<lambda>paths. inventory_visited fs lib fresh transfer_id root options paths))))"

definition inventory_transfer ::
  "'w fs_ops \<Rightarrow> 'h hash_lib \<Rightarrow> (nat \<Rightarrow> uuid) \<Rightarrow> uuid \<Rightarrow> path \<Rightarrow> InventoryOptions
     \<Rightarrow> 'w \<Rightarrow> (CourierError + FileRecord list) \<times> 'w" where
  "inventory_transfer fs lib fresh transfer_id source options w =
     (case inventory_transfer_observed fs lib fresh transfer_id source options (w, []) of
        (r, (w', _)) \<Rightarrow> (r, w'))"

section \<open>Hashing does not depend on the chunks\<close>

text \<open>The bytes a sequence of reads delivers: up to the first empty read, none if a read fails.\<close>

fun delivered :: "read_result list \<Rightarrow> bytes option" where
  "delivered [] = Some []"
| "delivered (Inl e # rs) = None"
| "delivered (Inr chunk # rs) =
     (if chunk = [] then Some [] else map_option (append chunk) (delivered rs))"

text \<open>What the code relies on of a streaming hasher: updates compose.\<close>

definition streaming :: "'h hash_lib \<Rightarrow> bool" where
  "streaming lib \<longleftrightarrow>
     (\<forall>alg h a b. hl_update lib alg (hl_update lib alg h a) b = hl_update lib alg h (a @ b))
     \<and> (\<forall>alg h. hl_update lib alg h [] = h)"

definition digest_of :: "'h hash_lib \<Rightarrow> HashAlgorithm \<Rightarrow> bytes \<Rightarrow> string" where
  "digest_of lib alg bs = hl_digest lib alg (hl_update lib alg (hl_new lib alg) bs)"

lemma hash_reads_delivered:
  assumes "streaming lib" and "delivered rs = Some bs"
  shows "fst (hash_reads lib alg p rs h n) = Inr (hl_update lib alg h bs)"
  using assms(2)
proof (induction rs arbitrary: bs h n)
  case Nil
  then show ?case using assms(1) by (simp add: streaming_def)
next
  case (Cons r rs)
  then show ?case
    using assms(1)
    by (cases r) (auto simp: streaming_def Let_def split: if_splits prod.splits dest: fstI)
qed

lemma hash_file_digest:
  assumes "streaming lib" and "fs_reads fs p buf w = (Inr rs, w')" and "delivered rs = Some bs"
  shows "\<exists>t'. hash_file fs lib p buf alg ob (w, t) = (Inr (digest_of lib alg bs), (w', t'))"
proof -
  obtain r obs where h: "hash_reads lib alg p rs (hl_new lib alg) 0 = (r, obs)" by force
  then have "r = Inr (hl_update lib alg (hl_new lib alg) bs)"
    using hash_reads_delivered [OF assms(1,3)] by (metis fst_conv)
  then show ?thesis
    by (simp add: hash_file_def on_env_io_def bindE_def assms(2) h thenE_def emit_def ok_def digest_of_def)
qed

section \<open>What an inventory records\<close>

definition inventoried :: "'w fs_ops \<Rightarrow> InventoryOptions \<Rightarrow> uuid \<Rightarrow> path \<Rightarrow> FileRecord \<Rightarrow> bool" where
  "inventoried fs options transfer_id root r \<longleftrightarrow>
     f_transfer_id r = transfer_id \<and> f_status r = FileStatus.Ready \<and> f_bytes_completed r = 0
     \<and> f_hash_algorithm r = io_hash_algorithm options
     \<and> strip_prefix (f_absolute_path r) root = Some (f_relative_path r)
     \<and> (\<exists>w md w'. fs_metadata fs (f_absolute_path r) w = (Inr md, w') \<and> md_len md = f_size r
          \<and> modified_ns md = Inr (f_mtime_ns r))"

lemma on_env_io_Inr [comp_simps]:
  "on_env_io p op s = (Inr x, s') \<longleftrightarrow> op (fst s) = (Inr x, fst s') \<and> snd s' = snd s"
  by (cases s; cases s') (auto simp: on_env_io_def split: prod.splits sum.splits)

lemma on_env_io_Inl [comp_simps]:
  "on_env_io p op s = (Inl e, s') \<longleftrightarrow>
     (\<exists>e'. op (fst s) = (Inl e', fst s') \<and> e = Io p e' \<and> snd s' = snd s)"
  by (cases s; cases s') (auto simp: on_env_io_def split: prod.splits sum.splits)

lemma on_env_iff [comp_simps]:
  "on_env op s = (r, s') \<longleftrightarrow> (\<exists>x. op (fst s) = (x, fst s') \<and> r = Inr x \<and> snd s' = snd s)"
  by (cases s; cases s') (auto simp: on_env_def split: prod.splits)

lemma emit_iff [comp_simps]:
  "emit evs s = (r, s') \<longleftrightarrow> r = Inr () \<and> fst s' = fst s \<and> snd s' = snd s @ evs"
  by (cases s; cases s') (auto simp: emit_def)

lemma bind_on_env: "bindE (on_env op) f (w, t) = f (fst (op w)) (snd (op w), t)"
  by (simp add: bindE_def on_env_def split: prod.splits)

lemma inventory_one_Inr:
  assumes "inventory_one fs lib fresh tid root opts tf tb rs b p s = (Inr (rs', b'), s')"
  shows "\<exists>r. rs' = rs @ [r] \<and> inventoried fs opts tid root r \<and> f_absolute_path r = p
    \<and> f_id r = fresh (length rs) \<and> b' = saturating_add b (f_size r)
    \<and> snd s' \<noteq> [] \<and> ip_files_analyzed (last (snd s')) = of_nat (Suc (length rs))
    \<and> ip_bytes_analyzed (last (snd s')) = b'"
proof -
  from assms obtain md w1 rel mt dg evs where
    md: "fs_metadata fs p (fst s) = (Inr md, w1)" and rel: "strip_prefix p root = Some rel"
    and mt: "modified_ns md = Inr mt"
    and rs': "rs' = rs @ [\<lparr>f_id = fresh (length rs), f_transfer_id = tid, f_relative_path = rel,
           f_absolute_path = p, f_size = md_len md, f_mtime_ns = mt,
           f_hash_algorithm = io_hash_algorithm opts, f_sha256 = dg,
           f_status = FileStatus.Ready, f_bytes_completed = 0\<rparr>]"
    and b': "b' = saturating_add b (md_len md)"
    and s': "snd s' = evs @ [progress (1 + of_nat (length rs)) tf
               (saturating_add b (md_len md)) tb rel]"
    by (auto simp: inventory_one_def comp_simps Let_def split: option.splits)
  show ?thesis
    unfolding rs' using md rel mt by (auto simp: inventoried_def b' s' progress_def)
qed

lemma inventory_loop_Inr:
  "inventory_loop fs lib fresh tid root opts tf tb rs b ps s = (Inr out, s') \<Longrightarrow>
   \<exists>new. out = rs @ new \<and> list_all (inventoried fs opts tid root) new
     \<and> map f_absolute_path new = ps
     \<and> map f_id new = map fresh [length rs ..< length rs + length ps]
     \<and> (ps \<noteq> [] \<longrightarrow> snd s' \<noteq> [] \<and> ip_files_analyzed (last (snd s')) = of_nat (length out)
          \<and> ip_bytes_analyzed (last (snd s')) = fold (\<lambda>r n. saturating_add n (f_size r)) new b)
     \<and> (ps = [] \<longrightarrow> s' = s)"
proof (induction ps arbitrary: rs b s)
  case Nil
  then show ?case by (simp add: comp_simps)
next
  case (Cons p ps)
  from Cons.prems obtain rs1 b1 s1
    where one: "inventory_one fs lib fresh tid root opts tf tb rs b p s = (Inr (rs1, b1), s1)"
      and rest: "inventory_loop fs lib fresh tid root opts tf tb rs1 b1 ps s1 = (Inr out, s')"
    by (auto simp: comp_simps)
  from inventory_one_Inr [OF one] obtain r where r: "rs1 = rs @ [r]"
    "inventoried fs opts tid root r" "f_absolute_path r = p" "f_id r = fresh (length rs)"
    "b1 = saturating_add b (f_size r)" "snd s1 \<noteq> []"
    "ip_files_analyzed (last (snd s1)) = of_nat (Suc (length rs))"
    "ip_bytes_analyzed (last (snd s1)) = b1" by blast
  from Cons.IH [OF rest] obtain new where new: "out = rs1 @ new"
    "list_all (inventoried fs opts tid root) new" "map f_absolute_path new = ps"
    "map f_id new = map fresh [length rs1 ..< length rs1 + length ps]"
    "ps \<noteq> [] \<longrightarrow> snd s' \<noteq> [] \<and> ip_files_analyzed (last (snd s')) = of_nat (length out)
          \<and> ip_bytes_analyzed (last (snd s')) = fold (\<lambda>r n. saturating_add n (f_size r)) new b1"
    "ps = [] \<longrightarrow> s' = s1" by blast
  have upt: "[length rs ..< length rs + length (p # ps)]
      = length rs # [length rs1 ..< length rs1 + length ps]"
    using r(1) by (simp add: upt_rec)
  have len: "length new = length ps" using new(3) by (metis length_map)
  show ?case
  proof (rule exI [of _ "r # new"], intro conjI impI)
    show "map f_id (r # new) = map fresh [length rs ..< length rs + length (p # ps)]"
      unfolding upt using r new by simp
    show "ip_files_analyzed (last (snd s')) = of_nat (length out)"
      using r new len by (cases "ps = []") auto
    show "ip_bytes_analyzed (last (snd s')) = fold (\<lambda>r n. saturating_add n (f_size r)) (r # new) b"
      using r new len by (cases "ps = []") auto
    show "snd s' \<noteq> []" using r new by (cases "ps = []") auto
  qed (use r new in auto)
qed

lemma walk_files_Inr:
  "walk_files source items = Inr ps \<longleftrightarrow>
     (\<exists>entries. items = map Inr entries \<and> ps = map fst (filter snd entries))"
proof -
  have "list_all2 (\<lambda>x y. walk_entry source x = Inr y) items es \<longleftrightarrow> items = map Inr es" for es
  proof -
    have "walk_entry source x = Inr y \<longleftrightarrow> x = Inr y" for x y
      by (auto simp: walk_entry_def split: sum.splits)
    then show ?thesis by (auto simp: list_eq_iff_nth_eq list_all2_conv_all_nth)
  qed
  then have eq: "map_sum_list (walk_entry source) items = Inr es \<longleftrightarrow> items = map Inr es" for es
    by (simp add: map_sum_list_Inr)
  show ?thesis
  proof (cases "map_sum_list (walk_entry source) items")
    case (Inl e)
    then have "items \<noteq> map Inr es" for es using eq by (metis sum.distinct(1))
    then show ?thesis by (auto simp: walk_files_def Inl)
  next
    case (Inr es)
    show ?thesis by (simp add: walk_files_def Inr) (metis eq Inr sum.inject(2))
  qed
qed

lemma total_size_trace: "total_size fs n ps s = (r, s') \<Longrightarrow> snd s' = snd s"
proof (induction fs n ps arbitrary: s rule: total_size.induct)
  case (1 fs n)
  then show ?case by (simp add: ok_def)
next
  case (2 fs n p ps)
  show ?case
  proof (cases r)
    case (Inl e)
    then show ?thesis using 2 by (force simp: comp_simps)
  next
    case (Inr x)
    then show ?thesis using 2 by (force simp: comp_simps)
  qed
qed

lemma inventory_visited_Inr:
  assumes "inventory_visited fs lib fresh tid root opts ps (w, []) = (Inr out, (w', tr))"
  shows "\<exists>new. out = sort_key (\<lambda>r. components (f_relative_path r)) new
    \<and> list_all (inventoried fs opts tid root) new \<and> map f_absolute_path new = ps
    \<and> map f_id new = map fresh [0..<length ps]
    \<and> tr \<noteq> [] \<and> ip_files_analyzed (last tr) = of_nat (length out)"
proof -
  from assms obtain n s1 s2 recs where
    "total_size fs 0 ps (w, []) = (Inr n, s1)"
    and s2: "snd s2 = snd s1 @ [progress 0 (of_nat (length ps)) 0 n '''']"
    and loop: "inventory_loop fs lib fresh tid root opts (of_nat (length ps)) n [] 0 ps s2
                 = (Inr recs, (w', tr))"
    and out: "out = sort_key (\<lambda>r. components (f_relative_path r)) recs"
    by (fastforce simp: inventory_visited_def comp_simps Let_def
        simp del: inventory_loop.simps total_size.simps)
  then have s2: "snd s2 = [progress 0 (of_nat (length ps)) 0 n '''']"
    using total_size_trace by fastforce
  from inventory_loop_Inr [OF loop] have recs: "list_all (inventoried fs opts tid root) recs"
    "map f_absolute_path recs = ps" "map f_id recs = map fresh [0..<length ps]"
    "ps \<noteq> [] \<longrightarrow> tr \<noteq> [] \<and> ip_files_analyzed (last tr) = of_nat (length recs)"
    "ps = [] \<longrightarrow> s2 = (w', tr)" by auto
  have "tr \<noteq> [] \<and> ip_files_analyzed (last tr) = of_nat (length out)"
  proof (cases "ps = []")
    case True
    then have "recs = []" "tr = snd s2" using recs by auto
    then show ?thesis using s2 by (simp add: out progress_def)
  next
    case False
    then show ?thesis using recs by (simp add: out)
  qed
  then show ?thesis using recs out by blast
qed

lemma visited_paths:
  assumes "bindE (if single then ok [source]
              else bindE (on_env (fs_walk fs source)) (\<lambda>items. lift_res (walk_files source items)))
            k (w, []) = (Inr out, s')"
  shows "\<exists>ps w1. (ps = [source] \<or> (\<exists>w0 entries w1. fs_walk fs source w0 = (map Inr entries, w1)
                          \<and> ps = map fst (filter snd entries)))
           \<and> k ps (w1, []) = (Inr out, s')"
proof (cases single)
  case True
  then show ?thesis using assms by (auto simp: comp_simps)
next
  case False
  then obtain items ps w1 where "fs_walk fs source w = (items, w1)" "walk_files source items = Inr ps"
    "k ps (w1, []) = (Inr out, s')"
    using assms by (auto simp: comp_simps)
  then show ?thesis using walk_files_Inr by metis
qed

text \<open>
  The result of an inventory: one record per visited file, in path order, and a trace of
  progress events that ends with every file counted.
\<close>

lemma inventory_observed_Inr:
  assumes "inventory_transfer_observed fs lib fresh tid source opts (w, []) = (Inr out, (w', tr))"
  shows "\<exists>root ps new. out = sort_key (\<lambda>r. components (f_relative_path r)) new
    \<and> list_all (inventoried fs opts tid root) new \<and> map f_absolute_path new = ps
    \<and> map f_id new = map fresh [0..<length ps]
    \<and> (ps = [source] \<or> (\<exists>w0 entries w1. fs_walk fs source w0 = (map Inr entries, w1)
                          \<and> ps = map fst (filter snd entries)))
    \<and> tr \<noteq> [] \<and> ip_files_analyzed (last tr) = of_nat (length out)"
proof -
  note run = assms [unfolded inventory_transfer_observed_def Let_def bind_on_env]
  define w1 where "w1 = snd (fs_exists fs source w)"
  define w2 where "w2 = snd (fs_is_file fs source w1)"
  have "fst (fs_exists fs source w)"
  proof (rule ccontr)
    assume "\<not> fst (fs_exists fs source w)"
    with run show False by (simp add: fail_iff)
  qed
  note run1 = run [unfolded if_not_P [OF not_not [THEN iffD2, OF this]] bind_on_env, folded w1_def,
    folded w2_def]
  from visited_paths [OF run1] obtain ps w2
    where ps: "ps = [source] \<or> (\<exists>w0 entries w1. fs_walk fs source w0 = (map Inr entries, w1)
                          \<and> ps = map fst (filter snd entries))"
      and v: "inventory_visited fs lib fresh tid
        (if fst (fs_is_file fs source w1)
         then case path_parent source of None \<Rightarrow> ''.'' | Some d \<Rightarrow> d else source) opts ps (w2, [])
          = (Inr out, (w', tr))"
    by blast
  from inventory_visited_Inr [OF v] obtain new
    where new: "out = sort_key (\<lambda>r. components (f_relative_path r)) new"
      "list_all (inventoried fs opts tid
        (if fst (fs_is_file fs source w1)
         then case path_parent source of None \<Rightarrow> ''.'' | Some d \<Rightarrow> d else source)) new"
      "map f_absolute_path new = ps" "map f_id new = map fresh [0..<length ps]"
      "tr \<noteq> []" "ip_files_analyzed (last tr) = of_nat (length out)"
    by (elim exE conjE)
  show ?thesis by (intro exI conjI) (rule new ps)+
qed

end
