(* ===== verification/Pack.thy ===== *)
theory Pack
  imports Inventory "HOL-Library.Multiset"
begin

text \<open>
  Transport packs, \<^verbatim>\<open>crates/courier-pack/src/lib.rs\<close>: grouping small files into bounded packs, and
  the container format that is written through a Zstandard encoder and read back through a
  decoder.

  Zstandard and serde_json are parameters. The encoder with the destination it writes to is a
  state \<open>'z\<close> (kept beside the file system as the second half of the run's state); what the
  decoder delivers is a \<open>stream\<close>, bytes followed by the end of input or an I/O error.
\<close>

section \<open>Options, plans, headers, errors\<close>

record PackOptions =
  po_maximum_member_size :: u64
  po_target_pack_size :: u64
  po_zstd_level :: "32 word"

definition default_pack_options :: PackOptions where
  "default_pack_options =
     \<lparr>po_maximum_member_size = 8 * 1024 * 1024, po_target_pack_size = 64 * 1024 * 1024,
      po_zstd_level = 3\<rparr>"

record PackPlan =
  pp_packs :: "FileRecord list list"
  pp_standalone :: "FileRecord list"

record PackMemberHeader =
  h_path :: string
  h_size :: u64
  h_digest_algorithm :: HashAlgorithm
  h_digest :: string

datatype PackError =
    Courier CourierError
  | PackIo io_error
  | Json string
  | InvalidOptions
  | UnsafePath string
  | SizeChanged string

section \<open>Planning\<close>

abbreviation path_key :: "FileRecord \<Rightarrow> Component list" where
  "path_key file \<equiv> components (f_relative_path file)"

fun pack_loop :: "u64 \<Rightarrow> FileRecord list list \<Rightarrow> FileRecord list \<Rightarrow> u64 \<Rightarrow> FileRecord list
    \<Rightarrow> FileRecord list list" where
  "pack_loop target packs current current_size [] =
     (if current \<noteq> [] then packs @ [current] else packs)"
| "pack_loop target packs current current_size (file # files) =
     (if current \<noteq> [] \<and> saturating_add current_size (f_size file) > target
      then pack_loop target (packs @ [current]) [file] (saturating_add 0 (f_size file)) files
      else pack_loop target packs (current @ [file]) (saturating_add current_size (f_size file))
             files)"

definition plan_packs :: "FileRecord list \<Rightarrow> PackOptions \<Rightarrow> PackError + PackPlan" where
  "plan_packs files options =
     (if po_maximum_member_size options = 0 \<or> po_target_pack_size options = 0
      then Inl InvalidOptions
      else
        let candidates = filter (\<lambda>file. f_size file \<le> po_maximum_member_size options) files;
            standalone = filter (\<lambda>file. f_size file > po_maximum_member_size options) files;
            candidates' = sort_key path_key candidates;
            standalone' = sort_key path_key standalone;
            packs = pack_loop (po_target_pack_size options) [] [] 0 candidates'
        in Inr \<lparr>pp_packs = packs, pp_standalone = sort_key path_key standalone'\<rparr>)"

section \<open>The container format\<close>

text \<open>\<open>to_le_bytes\<close> and \<open>from_le_bytes\<close> at \<open>k\<close> bytes.\<close>

fun le_bytes :: "nat \<Rightarrow> nat \<Rightarrow> bytes" where
  "le_bytes 0 n = []"
| "le_bytes (Suc k) n = word_of_nat (n mod 256) # le_bytes k (n div 256)"

fun le_value :: "bytes \<Rightarrow> nat" where
  "le_value [] = 0"
| "le_value (b # bs) = unat b + 256 * le_value bs"

definition u32_to_le_bytes :: "u32 \<Rightarrow> bytes" where
  "u32_to_le_bytes n = le_bytes 4 (unat n)"

definition u32_from_le_bytes :: "bytes \<Rightarrow> u32" where
  "u32_from_le_bytes bs = word_of_nat (le_value bs)"

definition u64_to_le_bytes :: "u64 \<Rightarrow> bytes" where
  "u64_to_le_bytes n = le_bytes 8 (unat n)"

definition u64_from_le_bytes :: "bytes \<Rightarrow> u64" where
  "u64_from_le_bytes bs = word_of_nat (le_value bs)"

definition MAGIC :: bytes where
  "MAGIC = map of_char ''ISCPACK1''"

record 'z zstd_encoder =
  ze_new :: "32 word \<Rightarrow> 'z \<Rightarrow> (io_error + unit) \<times> 'z"
  ze_include_checksum :: "'z \<Rightarrow> (io_error + unit) \<times> 'z"
  ze_write_all :: "bytes \<Rightarrow> 'z \<Rightarrow> (io_error + unit) \<times> 'z"
  ze_finish :: "'z \<Rightarrow> (io_error + unit) \<times> 'z"
  ze_output :: "'z \<Rightarrow> bytes"

record header_json =
  hj_to_vec :: "PackMemberHeader \<Rightarrow> string + bytes"
  hj_from_slice :: "bytes \<Rightarrow> string + PackMemberHeader"

definition on_sink :: "('z \<Rightarrow> (io_error + 'a) \<times> 'z) \<Rightarrow> ('w \<times> 'z, PackError, 'a) comp" where
  "on_sink op = (\<lambda>(w, z). case op z of
     (Inl e, z') \<Rightarrow> (Inl (PackIo e), (w, z')) | (Inr x, z') \<Rightarrow> (Inr x, (w, z')))"

definition on_source :: "('w \<Rightarrow> (io_error + 'a) \<times> 'w) \<Rightarrow> ('w \<times> 'z, PackError, 'a) comp" where
  "on_source op = (\<lambda>(w, z). case op w of
     (Inl e, w') \<Rightarrow> (Inl (PackIo e), (w', z)) | (Inr x, w') \<Rightarrow> (Inr x, (w', z)))"

text \<open>\<^verbatim>\<open>portable_path\<close> with the error it maps to.\<close>

definition member_path :: "path \<Rightarrow> PackError + string" where
  "member_path p = (case portable_path p of None \<Rightarrow> Inl (UnsafePath p) | Some s \<Rightarrow> Inr s)"

definition pack_invalid_data :: "string \<Rightarrow> PackError" where
  "pack_invalid_data message = PackIo (IoError InvalidData message)"

text \<open>
  \<^verbatim>\<open>io::copy\<close> from a reader limited by \<^verbatim>\<open>take\<close>: the count of bytes copied, which never
  exceeds the limit and so fits its \<^verbatim>\<open>u64\<close>.
\<close>

fun copy_take :: "'z zstd_encoder \<Rightarrow> read_result list \<Rightarrow> nat \<Rightarrow> nat
    \<Rightarrow> ('w \<times> 'z, PackError, nat) comp" where
  "copy_take enc [] limit copied = ok copied"
| "copy_take enc (r # rs) limit copied =
     (if limit = 0 then ok copied
      else case r of
        Inl e \<Rightarrow> fail (PackIo e)
      | Inr chunk \<Rightarrow>
          if chunk = [] then ok copied
          else let piece = take limit chunk
               in thenE (on_sink (ze_write_all enc piece))
                    (copy_take enc rs (limit - length piece) (copied + length piece)))"

definition member_header :: "FileRecord \<Rightarrow> string \<Rightarrow> PackMemberHeader" where
  "member_header member path =
     \<lparr>h_path = path, h_size = f_size member, h_digest_algorithm = f_hash_algorithm member,
      h_digest = f_sha256 member\<rparr>"

definition encode_member :: "'w fs_ops \<Rightarrow> 'z zstd_encoder \<Rightarrow> header_json \<Rightarrow> FileRecord \<Rightarrow> u64
    \<Rightarrow> ('w \<times> 'z, PackError, u64) comp" where
  "encode_member fs enc js member written =
     thenE (map_errE Courier (verify_source_unchanged fs member))
     (bindE (lift_res (member_path (f_relative_path member))) (\<lambda>path.
      let header = member_header member path in
      bindE (map_errE Json (lift_res (hj_to_vec js header))) (\<lambda>encoded.
      if \<not> length encoded < 2 ^ 32 then fail (pack_invalid_data ''pack header too large'')
      else
        let header_length = of_nat (length encoded) in
        thenE (on_sink (ze_write_all enc (u32_to_le_bytes header_length)))
        (thenE (on_sink (ze_write_all enc encoded))
        (thenE (on_sink (ze_write_all enc (u64_to_le_bytes (f_size member))))
        (let written' = saturating_add (saturating_add (saturating_add
                          (saturating_add written 4) (of_nat (length encoded))) 8) (f_size member)
         in bindE (on_source (fs_reads fs (f_absolute_path member) 8192)) (\<lambda>source.
            bindE (copy_take enc source (unat (f_size member)) 0) (\<lambda>copied.
            if copied \<noteq> unat (f_size member) then fail (SizeChanged (h_path header))
            else ok written'))))))))"

fun encode_members :: "'w fs_ops \<Rightarrow> 'z zstd_encoder \<Rightarrow> header_json \<Rightarrow> FileRecord list \<Rightarrow> u64
    \<Rightarrow> ('w \<times> 'z, PackError, u64) comp" where
  "encode_members fs enc js [] written = ok written"
| "encode_members fs enc js (member # members) written =
     bindE (encode_member fs enc js member written) (encode_members fs enc js members)"

definition encode_pack :: "'w fs_ops \<Rightarrow> 'z zstd_encoder \<Rightarrow> header_json \<Rightarrow> FileRecord list
    \<Rightarrow> 32 word \<Rightarrow> ('w \<times> 'z, PackError, u64) comp" where
  "encode_pack fs enc js members zstd_level =
     thenE (on_sink (ze_new enc zstd_level))
     (thenE (on_sink (ze_include_checksum enc))
     (thenE (on_sink (ze_write_all enc MAGIC))
     (bindE (encode_members fs enc js members (of_nat (length MAGIC))) (\<lambda>written.
      thenE (on_sink (ze_write_all enc (u32_to_le_bytes 0)))
      (let written' = saturating_add written 4 in
       thenE (on_sink (ze_finish enc)) (ok written'))))))"

section \<open>Reading a pack\<close>

type_synonym stream = "bytes \<times> io_error option"

definition read_exact :: "nat \<Rightarrow> stream \<Rightarrow> PackError + (bytes \<times> stream)" where
  "read_exact n st =
     (if n \<le> length (fst st) then Inr (take n (fst st), (drop n (fst st), snd st))
      else Inl (PackIo (case snd st of Some e \<Rightarrow> e
                        | None \<Rightarrow> IoError UnexpectedEof ''failed to fill whole buffer'')))"

text \<open>One turn of the loop up to the content: \<open>Inr None\<close> at the end of the pack.\<close>

definition read_header :: "header_json \<Rightarrow> stream
    \<Rightarrow> PackError + (PackMemberHeader \<times> stream) option" where
  "read_header js st =
     (case read_exact 4 st of Inl e \<Rightarrow> Inl e
      | Inr (length_bytes, st1) \<Rightarrow>
        let len = unat (u32_from_le_bytes length_bytes) in
        if len = 0 then
          (if fst st1 \<noteq> [] then
             Inl (pack_invalid_data ''Courier pack contains trailing decoded bytes'')
           else case snd st1 of Some e \<Rightarrow> Inl (PackIo e) | None \<Rightarrow> Inr None)
        else
          (case read_exact len st1 of Inl e \<Rightarrow> Inl e
           | Inr (encoded, st2) \<Rightarrow>
             (case hj_from_slice js encoded of Inl e \<Rightarrow> Inl (Json e)
              | Inr header \<Rightarrow>
                (case read_exact 8 st2 of Inl e \<Rightarrow> Inl e
                 | Inr (size_bytes, st3) \<Rightarrow>
                   if u64_from_le_bytes size_bytes \<noteq> h_size header
                   then Inl (pack_invalid_data ''pack member size mismatch'')
                   else Inr (Some (header, st3))))))"

definition take_view :: "nat \<Rightarrow> stream \<Rightarrow> stream" where
  "take_view n st = (take n (fst st), if n \<le> length (fst st) then None else snd st)"

text \<open>
  The member callback keeps a state \<open>'c\<close>; it is handed the limited reader and says how many bytes
  it read of it. What it left is drained, and must be nothing.
\<close>

type_synonym 'c member_fn = "'c \<Rightarrow> PackMemberHeader \<Rightarrow> stream \<Rightarrow> (PackError + nat) \<times> 'c"

definition drain :: "nat \<Rightarrow> stream \<Rightarrow> PackError + unit" where
  "drain consumed content =
     (case snd content of Some e \<Rightarrow> Inl (PackIo e)
      | None \<Rightarrow> if length (drop consumed (fst content)) \<noteq> 0
                then Inl (pack_invalid_data ''pack member was not fully consumed'') else Inr ())"

lemma read_exact_Inr:
  "read_exact n st = Inr (bs, st') \<longleftrightarrow>
     n \<le> length (fst st) \<and> bs = take n (fst st) \<and> st' = (drop n (fst st), snd st)"
  by (auto simp: read_exact_def)

lemma read_header_Some:
  "read_header js st = Inr (Some (header, st')) \<longleftrightarrow>
     (\<exists>a st1 b st2 c.
        read_exact 4 st = Inr (a, st1) \<and> unat (u32_from_le_bytes a) \<noteq> 0
        \<and> read_exact (unat (u32_from_le_bytes a)) st1 = Inr (b, st2)
        \<and> hj_from_slice js b = Inr header
        \<and> read_exact 8 st2 = Inr (c, st') \<and> u64_from_le_bytes c = h_size header)"
  by (auto simp: read_header_def Let_def split: sum.splits prod.splits option.splits if_splits)

lemma read_header_shorter:
  "read_header js st = Inr (Some (header, st')) \<Longrightarrow> length (fst st') < length (fst st)"
  by (auto simp: read_header_Some read_exact_Inr)

function decode_loop :: "header_json \<Rightarrow> 'c member_fn \<Rightarrow> 'c \<Rightarrow> stream \<Rightarrow> (PackError + unit) \<times> 'c" where
  "decode_loop js member c st =
     (case read_header js st of
        Inl e \<Rightarrow> (Inl e, c)
      | Inr None \<Rightarrow> (Inr (), c)
      | Inr (Some (header, st1)) \<Rightarrow>
        let n = unat (h_size header); content = take_view n st1 in
        (case member c header content of
           (Inl e, c') \<Rightarrow> (Inl e, c')
         | (Inr consumed, c') \<Rightarrow>
           (case drain consumed content of
              Inl e \<Rightarrow> (Inl e, c')
            | Inr _ \<Rightarrow> decode_loop js member c' (drop n (fst st1), snd st1))))"
  by pat_completeness auto

termination
  by (relation "measure (\<lambda>(js, member, c, st). length (fst st))")
    (auto dest: read_header_shorter)

declare decode_loop.simps [simp del]

definition decode_pack :: "(bytes \<Rightarrow> io_error + stream) \<Rightarrow> header_json \<Rightarrow> 'c member_fn \<Rightarrow> bytes
    \<Rightarrow> 'c \<Rightarrow> (PackError + unit) \<times> 'c" where
  "decode_pack zstd_decoder js member source c =
     (case zstd_decoder source of
        Inl e \<Rightarrow> (Inl (PackIo e), c)
      | Inr st \<Rightarrow>
        (case read_exact 8 st of
           Inl e \<Rightarrow> (Inl e, c)
         | Inr (magic, st1) \<Rightarrow>
           if magic \<noteq> MAGIC then (Inl (pack_invalid_data ''invalid Courier pack magic''), c)
           else decode_loop js member c st1))"

section \<open>What a plan is\<close>

definition pack_bytes :: "FileRecord list \<Rightarrow> nat" where
  "pack_bytes files = sum_list (map (\<lambda>file. unat (f_size file)) files)"

abbreviation u64_max :: nat where
  "u64_max \<equiv> 2 ^ 64 - 1"

text \<open>A pack is bounded unless it is a single file; the next pack's first file did not fit.\<close>

definition bounded_pack :: "u64 \<Rightarrow> FileRecord list \<Rightarrow> bool" where
  "bounded_pack target pack \<longleftrightarrow>
     pack \<noteq> [] \<and> (length pack = 1 \<or> min (pack_bytes pack) u64_max \<le> unat target)"

definition greedy_packs :: "u64 \<Rightarrow> FileRecord list list \<Rightarrow> bool" where
  "greedy_packs target packs \<longleftrightarrow>
     successively (\<lambda>p q. unat target < min (pack_bytes p + unat (f_size (hd q))) u64_max) packs"

lemma pack_bytes_simps [simp]:
  "pack_bytes [] = 0" "pack_bytes (f # fs) = unat (f_size f) + pack_bytes fs"
  "pack_bytes (ps @ qs) = pack_bytes ps + pack_bytes qs"
  by (simp_all add: pack_bytes_def)

lemma pack_loop_prefix:
  "pack_loop target packs current n files = packs @ pack_loop target [] current n files"
proof (induction files arbitrary: packs current n)
  case Nil
  then show ?case by simp
next
  case (Cons f fs)
  show ?case
    by (simp only: pack_loop.simps append_Nil Cons.IH [of packs] Cons.IH [of "packs @ [current]"]
        Cons.IH [of "[current]"] append_assoc if_distrib [of "append packs"])
qed

lemma pack_loop_concat: "concat (pack_loop target [] current n files) = current @ files"
proof (induction files arbitrary: current n)
  case Nil
  then show ?case by simp
next
  case (Cons f fs)
  then show ?case by (simp add: pack_loop_prefix [of _ "[current]"])
qed

lemma pack_loop_bounded:
  assumes "unat n = min (pack_bytes current) u64_max"
    and "current = [] \<or> bounded_pack target current"
  shows "list_all (bounded_pack target) (pack_loop target [] current n files)"
  using assms
proof (induction files arbitrary: current n)
  case Nil
  then show ?case by auto
next
  case (Cons f fs)
  have sat: "unat (saturating_add n (f_size f)) = min (pack_bytes (current @ [f])) u64_max"
    using Cons.prems by (simp add: unat_saturating_add)
  show ?case
  proof (cases "current \<noteq> [] \<and> saturating_add n (f_size f) > target")
    case True
    have "list_all (bounded_pack target)
        (pack_loop target [] [f] (saturating_add 0 (f_size f)) fs)"
      by (rule Cons.IH) (simp_all add: unat_saturating_add bounded_pack_def)
    then show ?thesis
      using True Cons.prems by (simp add: pack_loop_prefix [of _ "[current]"])
  next
    case False
    have "bounded_pack target (current @ [f])"
      using False sat by (auto simp: bounded_pack_def word_less_nat_alt)
    with False show ?thesis using Cons.IH [OF sat] by auto
  qed
qed

lemma hd_pack_loop: "current \<noteq> [] \<Longrightarrow>
  pack_loop target [] current n files \<noteq> [] \<and> hd (hd (pack_loop target [] current n files)) = hd current"
proof (induction files arbitrary: current n)
  case Nil
  then show ?case by simp
next
  case (Cons f fs)
  then show ?case by (simp add: pack_loop_prefix [of _ "[current]"])
qed

lemma pack_loop_greedy:
  assumes "unat n = min (pack_bytes current) u64_max"
  shows "greedy_packs target (pack_loop target [] current n files)"
  using assms
proof (induction files arbitrary: current n)
  case Nil
  then show ?case by (simp add: greedy_packs_def)
next
  case (Cons f fs)
  let ?rest = "pack_loop target [] [f] (saturating_add 0 (f_size f)) fs"
  have sat: "unat (saturating_add n (f_size f)) = min (pack_bytes current + unat (f_size f)) u64_max"
    using Cons.prems by (simp add: unat_saturating_add)
  show ?case
  proof (cases "current \<noteq> [] \<and> saturating_add n (f_size f) > target")
    case True
    have "greedy_packs target ?rest"
      by (rule Cons.IH) (simp add: unat_saturating_add)
    moreover have "?rest \<noteq> []" "hd (hd ?rest) = f"
      using hd_pack_loop [of "[f]"] by auto
    moreover have "unat target < min (pack_bytes current + unat (f_size f)) u64_max"
      using True sat by (simp add: word_less_nat_alt)
    ultimately show ?thesis
      using True
      by (cases ?rest) (simp_all add: pack_loop_prefix [of _ "[current]"] greedy_packs_def)
  next
    case False
    then show ?thesis using Cons.IH [of "saturating_add n (f_size f)" "current @ [f]"] sat
      by auto
  qed
qed

lemma plan_packs_Inr:
  "plan_packs files options = Inr plan \<longleftrightarrow>
     po_maximum_member_size options \<noteq> 0 \<and> po_target_pack_size options \<noteq> 0
     \<and> plan = \<lparr>pp_packs = pack_loop (po_target_pack_size options) [] [] 0
                (sort_key path_key (filter (\<lambda>f. f_size f \<le> po_maximum_member_size options) files)),
              pp_standalone =
                sort_key path_key (filter (\<lambda>f. f_size f > po_maximum_member_size options) files)\<rparr>"
  by (auto simp: plan_packs_def Let_def sort_key_id_if_sorted)

section \<open>Fixed-width integers on the wire\<close>

locale le_codec =
  fixes width :: nat and enc :: "'a \<Rightarrow> bytes" and dec :: "bytes \<Rightarrow> 'a"
  assumes length_enc [simp]: "length (enc x) = width"
    and dec_enc [simp]: "dec (enc x) = x"
    and enc_dec: "length bs = width \<Longrightarrow> enc (dec bs) = bs"
begin

lemma read_enc: "read_exact width (enc x @ rest, e) = Inr (enc x, (rest, e))"
  by (simp add: read_exact_def)

lemma read_dec: "read_exact width st = Inr (a, st') \<Longrightarrow> fst st = enc (dec a) @ fst st' \<and> snd st' = snd st"
  by (auto simp: read_exact_Inr enc_dec)

lemma enc_inj: "enc x = enc y \<Longrightarrow> x = y"
  by (metis dec_enc)

end

lemma le_bytes_length [simp]: "length (le_bytes k n) = k"
  by (induction k arbitrary: n) auto

lemma le_value_bytes: "le_value (le_bytes k n) = n mod 256 ^ k"
proof (induction k arbitrary: n)
  case 0
  then show ?case by simp
next
  case (Suc k)
  have "unat (word_of_nat (n mod 256) :: u8) = n mod 256"
    by (simp add: unat_of_nat take_bit_eq_mod)
  then show ?case by (simp add: Suc.IH mod_mult2_eq)
qed

lemma le_value_bound: "le_value bs < 256 ^ length bs"
proof (induction bs)
  case Nil
  then show ?case by simp
next
  case (Cons b bs)
  have "unat b < 256" using unat_bound [of b] by simp
  then show ?case using Cons.IH by simp
qed

lemma le_bytes_value: "le_bytes (length bs) (le_value bs) = bs"
proof (induction bs)
  case Nil
  then show ?case by simp
next
  case (Cons b bs)
  have "unat b < 256" using unat_bound [of b] by simp
  then show ?case by (simp add: Cons.IH)
qed

interpretation u32_le: le_codec 4 u32_to_le_bytes u32_from_le_bytes
proof
  show "length (u32_to_le_bytes x) = 4" for x by (simp add: u32_to_le_bytes_def)
  show "u32_from_le_bytes (u32_to_le_bytes x) = x" for x
    using unat_bound [of x] by (simp add: u32_to_le_bytes_def u32_from_le_bytes_def le_value_bytes)
  show "u32_to_le_bytes (u32_from_le_bytes bs) = bs" if "length bs = 4" for bs
    using that le_value_bound [of bs] le_bytes_value [of bs]
    by (simp add: u32_to_le_bytes_def u32_from_le_bytes_def unat_of_nat take_bit_eq_mod)
qed

interpretation u64_le: le_codec 8 u64_to_le_bytes u64_from_le_bytes
proof
  show "length (u64_to_le_bytes x) = 8" for x by (simp add: u64_to_le_bytes_def)
  show "u64_from_le_bytes (u64_to_le_bytes x) = x" for x
    using unat_bound [of x] by (simp add: u64_to_le_bytes_def u64_from_le_bytes_def le_value_bytes)
  show "u64_to_le_bytes (u64_from_le_bytes bs) = bs" if "length bs = 8" for bs
    using that le_value_bound [of bs] le_bytes_value [of bs]
    by (simp add: u64_to_le_bytes_def u64_from_le_bytes_def unat_of_nat take_bit_eq_mod)
qed

section \<open>What a pack contains\<close>

text \<open>
  The documented behaviour of the two libraries: the decoder delivers exactly what was written to
  an encoder over an empty destination; a serialized header parses back, and nothing parses from
  the empty slice.
\<close>

fun write_chunks :: "'z zstd_encoder \<Rightarrow> bytes list \<Rightarrow> 'z \<Rightarrow> 'z option" where
  "write_chunks enc [] z = Some z"
| "write_chunks enc (chunk # chunks) z =
     (case ze_write_all enc chunk z of (Inl _, _) \<Rightarrow> None
      | (Inr _, z') \<Rightarrow> write_chunks enc chunks z')"

definition zstd_faithful :: "'z zstd_encoder \<Rightarrow> (bytes \<Rightarrow> io_error + stream) \<Rightarrow> bool" where
  "zstd_faithful enc zstd_decoder \<longleftrightarrow>
     (\<forall>level z0 z1 z2 chunks z3 z4.
        ze_output enc z0 = [] \<and> ze_new enc level z0 = (Inr (), z1)
        \<and> ze_include_checksum enc z1 = (Inr (), z2) \<and> write_chunks enc chunks z2 = Some z3
        \<and> ze_finish enc z3 = (Inr (), z4)
        \<longrightarrow> zstd_decoder (ze_output enc z4) = Inr (concat chunks, None))"

definition json_faithful :: "header_json \<Rightarrow> bool" where
  "json_faithful js \<longleftrightarrow>
     (\<forall>h bs. hj_to_vec js h = Inr bs \<longrightarrow> hj_from_slice js bs = Inr h)
     \<and> (\<forall>h. hj_from_slice js [] \<noteq> Inr h)"

text \<open>The bytes of one member, and of a pack.\<close>

definition member_frame :: "bytes \<Rightarrow> u64 \<Rightarrow> bytes \<Rightarrow> bytes" where
  "member_frame encoded n content =
     u32_to_le_bytes (of_nat (length encoded)) @ encoded @ u64_to_le_bytes n @ content"

inductive framed :: "header_json \<Rightarrow> bytes \<Rightarrow> (PackMemberHeader \<times> bytes) list \<Rightarrow> bool"
  for js :: header_json where
  framed_end: "framed js (u32_to_le_bytes 0) []"
| framed_member: "framed js rest ms \<Longrightarrow> encoded \<noteq> [] \<Longrightarrow> length encoded < 2 ^ 32
    \<Longrightarrow> hj_from_slice js encoded = Inr header \<Longrightarrow> length content = unat (h_size header)
    \<Longrightarrow> framed js (member_frame encoded (h_size header) content @ rest) ((header, content) # ms)"

inductive_cases framed_ConsE: "framed js bs (m # ms)"
inductive_cases framed_NilE: "framed js bs []"

text \<open>The callback that reads every member to its end, and collects it.\<close>

definition collect :: "(PackMemberHeader \<times> bytes) list member_fn" where
  "collect acc header content =
     (case snd content of Some e \<Rightarrow> (Inl (PackIo e), acc)
      | None \<Rightarrow> (Inr (length (fst content)), acc @ [(header, fst content)]))"

lemma read_header_end: "read_header js (u32_to_le_bytes 0, None) = Inr None"
  using u32_le.read_enc [of 0 "[]" None] by (simp add: read_header_def Let_def)

lemma read_header_frame:
  assumes "encoded \<noteq> []" and "length encoded < 2 ^ 32" and "hj_from_slice js encoded = Inr header"
  shows "read_header js (member_frame encoded (h_size header) content @ rest, e)
           = Inr (Some (header, (content @ rest, e)))"
proof -
  have n: "unat (of_nat (length encoded) :: u32) = length encoded"
    using assms(2) by (simp add: unat_of_nat take_bit_eq_mod)
  show ?thesis
    unfolding read_header_Some member_frame_def append_assoc u32_le.read_enc
    using assms n u64_le.read_enc [of "h_size header" "content @ rest" e]
    by (auto simp: read_exact_Inr)
qed

lemma decode_collects:
  "framed js bs ms \<Longrightarrow> decode_loop js collect acc (bs, None) = (Inr (), acc @ ms)"
proof (induction bs ms arbitrary: acc rule: framed.induct)
  case framed_end
  then show ?case by (simp add: decode_loop.simps [of js] read_header_end)
next
  case (framed_member rest ms encoded header content)
  then show ?case
    by (simp add: decode_loop.simps [of js _ _ "(member_frame _ _ _ @ _, _)"] read_header_frame
        take_view_def collect_def drain_def)
qed

lemma framed_ne: "framed js bs ms \<Longrightarrow> bs \<noteq> []"
  by (induction rule: framed.induct)
    (use u32_le.length_enc in \<open>auto simp: member_frame_def simp del: u32_le.length_enc
       dest: arg_cong [where f = length]\<close>)

lemma read_header_None:
  "read_header js st = Inr None \<Longrightarrow> st = (u32_to_le_bytes 0, None)"
  by (cases st) (auto simp: read_header_def Let_def unat_eq_0 dest!: u32_le.read_dec
      split: sum.splits prod.splits option.splits if_splits)

lemma read_header_inv:
  assumes "read_header js st = Inr (Some (header, st'))"
  shows "\<exists>encoded. encoded \<noteq> [] \<and> length encoded < 2 ^ 32 \<and> hj_from_slice js encoded = Inr header
    \<and> fst st = member_frame encoded (h_size header) [] @ fst st' \<and> snd st' = snd st"
proof -
  from assms obtain a st1 b st2 c where
    a: "read_exact 4 st = Inr (a, st1)" "unat (u32_from_le_bytes a) \<noteq> 0"
    and b: "read_exact (unat (u32_from_le_bytes a)) st1 = Inr (b, st2)"
    and h: "hj_from_slice js b = Inr header"
    and c: "read_exact 8 st2 = Inr (c, st')" "u64_from_le_bytes c = h_size header"
    unfolding read_header_Some by blast
  have lb: "length b = unat (u32_from_le_bytes a)" "fst st1 = b @ fst st2" "snd st2 = snd st1"
    using b by (auto simp: read_exact_Inr)
  then have "of_nat (length b) = u32_from_le_bytes a" "length b < 2 ^ 32" "b \<noteq> []"
    using a(2) unat_bound [of "u32_from_le_bytes a"] by auto
  then show ?thesis
    using u32_le.read_dec [OF a(1)] u64_le.read_dec [OF c(1)] lb h c(2)
    by (intro exI [of _ b]) (simp add: member_frame_def)
qed

lemma decode_collect_framed:
  "decode_loop js collect acc st = (Inr (), out) \<Longrightarrow>
     \<exists>ms. out = acc @ ms \<and> framed js (fst st) ms \<and> snd st = None"
proof (induction "length (fst st)" arbitrary: st acc rule: less_induct)
  case less
  show ?case
  proof (cases "read_header js st")
    case (Inl e)
    then show ?thesis using less.prems by (simp add: decode_loop.simps [of js _ _ st])
  next
    case (Inr r)
    show ?thesis
    proof (cases r)
      case None
      then have "st = (u32_to_le_bytes 0, None)" using Inr read_header_None by simp
      then show ?thesis
        using less.prems framed_end
        by (simp add: decode_loop.simps [of js] read_header_end)
    next
      case (Some p)
      obtain header st1 where p: "p = (header, st1)" by (cases p)
      have hd: "read_header js st = Inr (Some (header, st1))" using Inr Some p by simp
      let ?n = "unat (h_size header)"
      let ?c = "take ?n (fst st1)"
      have view: "snd (take_view ?n st1) = None"
        and rest: "decode_loop js collect (acc @ [(header, ?c)]) (drop ?n (fst st1), snd st1)
                     = (Inr (), out)"
        using less.prems
        by (auto simp: decode_loop.simps [of js _ _ st] hd collect_def take_view_def drain_def
            Let_def split: option.splits if_splits)
      have "length (drop ?n (fst st1)) < length (fst st)"
        using read_header_shorter [OF hd] by simp
      then obtain ms where ms: "out = (acc @ [(header, ?c)]) @ ms"
        "framed js (drop ?n (fst st1)) ms" "snd st1 = None"
        using less.hyps [OF _ rest] by auto
      then have len: "length ?c = ?n" using framed_ne [OF ms(2)] by simp
      from read_header_inv [OF hd] obtain encoded where e: "encoded \<noteq> []" "length encoded < 2 ^ 32"
        "hj_from_slice js encoded = Inr header"
        "fst st = member_frame encoded (h_size header) [] @ fst st1" "snd st1 = snd st" by blast
      have "fst st = member_frame encoded (h_size header) ?c @ drop ?n (fst st1)"
        using e(4) by (simp add: member_frame_def)
      then have "framed js (fst st) ((header, ?c) # ms)"
        using framed_member [OF ms(2) e(1,2,3) len] by simp
      then show ?thesis using ms e by auto
    qed
  qed
qed

section \<open>What the encoder writes\<close>

fun taken :: "nat \<Rightarrow> read_result list \<Rightarrow> bytes" where
  "taken limit [] = []"
| "taken limit (Inl e # rs) = []"
| "taken limit (Inr chunk # rs) =
     (if limit = 0 \<or> chunk = [] then []
      else take limit chunk @ taken (limit - length (take limit chunk)) rs)"

definition verified_source :: "'w fs_ops \<Rightarrow> FileRecord \<Rightarrow> bool" where
  "verified_source fs member \<longleftrightarrow>
     (\<exists>w md w'. fs_metadata fs (f_absolute_path member) w = (Inr md, w')
        \<and> md_len md = f_size member \<and> modified_ns md = Inr (f_mtime_ns member))"

definition packed_as :: "'w fs_ops \<Rightarrow> FileRecord \<Rightarrow> PackMemberHeader \<times> bytes \<Rightarrow> bool" where
  "packed_as fs member m \<longleftrightarrow>
     (\<exists>path. member_path (f_relative_path member) = Inr path \<and> fst m = member_header member path)
     \<and> verified_source fs member \<and> length (snd m) = unat (f_size member)
     \<and> (\<exists>w rs w'. fs_reads fs (f_absolute_path member) 8192 w = (Inr rs, w')
          \<and> snd m = taken (unat (f_size member)) rs)"

lemma on_sink_Inr [comp_simps]:
  "on_sink op s = (Inr x, s') \<longleftrightarrow> op (snd s) = (Inr x, snd s') \<and> fst s' = fst s"
  by (cases s; cases s') (auto simp: on_sink_def split: prod.splits sum.splits)

lemma on_source_Inr [comp_simps]:
  "on_source op s = (Inr x, s') \<longleftrightarrow> op (fst s) = (Inr x, fst s') \<and> snd s' = snd s"
  by (cases s; cases s') (auto simp: on_source_def split: prod.splits sum.splits)

lemma verify_source_unchanged_Inr [comp_simps]:
  "verify_source_unchanged fs m s = (Inr x, s') \<longleftrightarrow>
     (\<exists>md. fs_metadata fs (f_absolute_path m) (fst s) = (Inr md, fst s') \<and> snd s' = snd s
        \<and> md_len md = f_size m \<and> modified_ns md = Inr (f_mtime_ns m))"
  by (cases s; cases s') (auto simp: verify_source_unchanged_def comp_simps split: if_splits)

lemma write_chunks_append:
  "write_chunks enc (xs @ ys) z = Option.bind (write_chunks enc xs z) (write_chunks enc ys)"
  by (induction xs arbitrary: z) (auto split: prod.splits sum.splits)

lemma write_chunks_snoc:
  "write_chunks enc xs z = Some z1 \<Longrightarrow> ze_write_all enc c z1 = (Inr u, z2)
     \<Longrightarrow> write_chunks enc (xs @ [c]) z = Some z2"
  by (simp add: write_chunks_append)

lemma copy_take_Inr:
  "copy_take enc rs limit copied s = (Inr n, s') \<Longrightarrow>
     \<exists>chunks. write_chunks enc chunks (snd s) = Some (snd s') \<and> fst s' = fst s
       \<and> concat chunks = taken limit rs \<and> n = copied + length (taken limit rs)"
proof (induction rs arbitrary: limit copied s)
  case Nil
  then show ?case by (intro exI [of _ "[]"]) (simp add: comp_simps)
next
  case (Cons r rs)
  show ?case
  proof (cases "limit = 0 \<or> r = Inr []")
    case True
    then show ?thesis
      using Cons.prems by (intro exI [of _ "[]"]; cases r) (auto simp: comp_simps split: if_splits)
  next
    case False
    then obtain chunk where r: "r = Inr chunk" "chunk \<noteq> []" "limit \<noteq> 0"
      using Cons.prems by (cases r) (auto simp: comp_simps)
    let ?p = "take limit chunk"
    from Cons.prems r obtain s1 where
      w: "ze_write_all enc ?p (snd s) = (Inr (), snd s1)" "fst s1 = fst s"
      and c: "copy_take enc rs (limit - length ?p) (copied + length ?p) s1 = (Inr n, s')"
      by (auto simp: comp_simps)
    from Cons.IH [OF c] obtain chunks where ch: "write_chunks enc chunks (snd s1) = Some (snd s')"
      "fst s' = fst s1" "concat chunks = taken (limit - length ?p) rs"
      "n = copied + length ?p + length (taken (limit - length ?p) rs)" by blast
    show ?thesis
    proof (intro exI [of _ "?p # chunks"] conjI)
      show "n = copied + length (taken limit (r # rs))" using r ch(4) by simp
    qed (use r w ch in auto)
  qed
qed

lemma encode_member_Inr:
  assumes "encode_member fs enc js member n s = (Inr n', s')"
  shows "\<exists>chunks encoded header content.
    write_chunks enc chunks (snd s) = Some (snd s') \<and> packed_as fs member (header, content)
    \<and> hj_to_vec js header = Inr encoded \<and> length encoded < 2 ^ 32
    \<and> h_size header = f_size member
    \<and> concat chunks = member_frame encoded (h_size header) content
    \<and> unat n' = min (unat n + length (concat chunks)) u64_max"
proof -
  from assms obtain md w1 path encoded z2 z3 z4 source w5 copied where
    v: "fs_metadata fs (f_absolute_path member) (fst s) = (Inr md, w1)"
      "md_len md = f_size member" "modified_ns md = Inr (f_mtime_ns member)"
    and p: "member_path (f_relative_path member) = Inr path"
    and h: "hj_to_vec js (member_header member path) = Inr encoded" "length encoded < 2 ^ 32"
    and w2: "ze_write_all enc (u32_to_le_bytes (of_nat (length encoded))) (snd s) = (Inr (), z2)"
    and w3: "ze_write_all enc encoded z2 = (Inr (), z3)"
    and w4: "ze_write_all enc (u64_to_le_bytes (f_size member)) z3 = (Inr (), z4)"
    and r: "fs_reads fs (f_absolute_path member) 8192 w1 = (Inr source, w5)"
    and c: "copy_take enc source (unat (f_size member)) 0 (w5, z4) = (Inr copied, s')"
      "copied = unat (f_size member)"
    and n': "n' = saturating_add (saturating_add (saturating_add (saturating_add n 4)
                    (of_nat (length encoded))) 8) (f_size member)"
    unfolding encode_member_def Let_def
    by (auto simp: comp_simps split: if_splits)
  from copy_take_Inr [OF c(1)] obtain chunks where ch:
    "write_chunks enc chunks z4 = Some (snd s')" "concat chunks = taken (unat (f_size member)) source"
    "copied = length (taken (unat (f_size member)) source)" by auto
  let ?content = "taken (unat (f_size member)) source"
  let ?h = "member_header member path"
  have "packed_as fs member (?h, ?content)"
    unfolding packed_as_def verified_source_def using v p r ch c by auto
  moreover have "write_chunks enc ([u32_to_le_bytes (of_nat (length encoded)), encoded,
      u64_to_le_bytes (f_size member)] @ chunks) (snd s) = Some (snd s')"
    using w2 w3 w4 ch(1) by simp
  moreover have "concat ([u32_to_le_bytes (of_nat (length encoded)), encoded,
      u64_to_le_bytes (f_size member)] @ chunks) = member_frame encoded (h_size ?h) ?content"
    by (simp add: member_frame_def member_header_def ch(2))
  moreover have "unat n' = min (unat n + length (member_frame encoded (h_size ?h) ?content)) u64_max"
  proof -
    have "unat (of_nat (length encoded) :: u64) = length encoded"
      using h(2) by (simp add: unat_of_nat take_bit_eq_mod)
    then show ?thesis
      using ch(3) c(2) by (simp add: n' unat_saturating_add member_frame_def)
  qed
  moreover have "h_size ?h = f_size member" by (simp add: member_header_def)
  ultimately show ?thesis using h by metis
qed

lemma encode_members_Inr:
  assumes "json_faithful js"
  shows "encode_members fs enc js members n s = (Inr n', s') \<Longrightarrow>
    \<exists>chunks ms. write_chunks enc chunks (snd s) = Some (snd s') \<and> list_all2 (packed_as fs) members ms
      \<and> framed js (concat chunks @ u32_to_le_bytes 0) ms
      \<and> unat n' = min (unat n + length (concat chunks)) u64_max"
proof (induction members arbitrary: n s)
  case Nil
  have "min (unat n) u64_max = unat n" using unat_bound [of n] by simp
  with Nil show ?case
    by (intro exI [of _ "[]"]) (auto simp: comp_simps framed_end)
next
  case (Cons m members)
  from Cons.prems obtain n1 s1 where one: "encode_member fs enc js m n s = (Inr n1, s1)"
    and rest: "encode_members fs enc js members n1 s1 = (Inr n', s')" by (auto simp: comp_simps)
  from encode_member_Inr [OF one] obtain c1 encoded header content where c1:
    "write_chunks enc c1 (snd s) = Some (snd s1)" "packed_as fs m (header, content)"
    "hj_to_vec js header = Inr encoded" "length encoded < 2 ^ 32" "h_size header = f_size m"
    "concat c1 = member_frame encoded (h_size header) content"
    "unat n1 = min (unat n + length (concat c1)) u64_max" by blast
  from Cons.IH [OF rest] obtain c2 ms where c2:
    "write_chunks enc c2 (snd s1) = Some (snd s')" "list_all2 (packed_as fs) members ms"
    "framed js (concat c2 @ u32_to_le_bytes 0) ms"
    "unat n' = min (unat n1 + length (concat c2)) u64_max" by blast
  have dec: "hj_from_slice js encoded = Inr header" "encoded \<noteq> []"
    using assms c1(3) unfolding json_faithful_def by (blast, metis)
  have len: "length content = unat (h_size header)" using c1(2,5) by (simp add: packed_as_def)
  have "framed js (concat (c1 @ c2) @ u32_to_le_bytes 0) ((header, content) # ms)"
    using framed_member [OF c2(3) dec(2) c1(4) dec(1) len] c1(6) by simp
  moreover have "write_chunks enc (c1 @ c2) (snd s) = Some (snd s')"
    using c1(1) c2(1) by (simp add: write_chunks_append)
  moreover have "unat n' = min (unat n + length (concat (c1 @ c2))) u64_max"
    using c1(7) c2(4) by simp
  moreover have "list_all2 (packed_as fs) (m # members) ((header, content) # ms)"
    using c1(2) c2(2) by simp
  ultimately show ?case by blast
qed

lemma encode_pack_Inr:
  assumes "json_faithful js" and "zstd_faithful enc dec" and "ze_output enc z = []"
    and "encode_pack fs enc js members level (w, z) = (Inr n, (w', z'))"
  shows "\<exists>bs ms. dec (ze_output enc z') = Inr (MAGIC @ bs, None) \<and> framed js bs ms
    \<and> list_all2 (packed_as fs) members ms \<and> unat n = min (length (MAGIC @ bs)) u64_max"
proof -
  from assms(4) obtain z1 z2 s3 s4 z5 k where
    e: "ze_new enc level z = (Inr (), z1)" "ze_include_checksum enc z1 = (Inr (), z2)"
      "ze_write_all enc MAGIC z2 = (Inr (), snd s3)"
    and m: "encode_members fs enc js members (of_nat (length MAGIC)) s3 = (Inr k, s4)"
    and f: "ze_write_all enc (u32_to_le_bytes 0) (snd s4) = (Inr (), z5)"
      "ze_finish enc z5 = (Inr (), z')" "n = saturating_add k 4"
    unfolding encode_pack_def Let_def by (auto simp: comp_simps)
  from encode_members_Inr [OF assms(1) m] obtain chunks ms where c:
    "write_chunks enc chunks (snd s3) = Some (snd s4)" "list_all2 (packed_as fs) members ms"
    "framed js (concat chunks @ u32_to_le_bytes 0) ms"
    "unat k = min (unat (of_nat (length MAGIC) :: u64) + length (concat chunks)) u64_max" by blast
  have "write_chunks enc (MAGIC # chunks @ [u32_to_le_bytes 0]) z2 = Some z5"
    using e(3) c(1) f(1) by (simp add: write_chunks_append)
  then have "dec (ze_output enc z') = Inr (concat (MAGIC # chunks @ [u32_to_le_bytes 0]), None)"
    using assms(2,3) e f(2) unfolding zstd_faithful_def by blast
  then have "dec (ze_output enc z') = Inr (MAGIC @ concat chunks @ u32_to_le_bytes 0, None)" by simp
  moreover have "unat n = min (length (MAGIC @ concat chunks @ u32_to_le_bytes 0)) u64_max"
    using c(4) by (simp add: f(3) unat_saturating_add MAGIC_def)
  ultimately show ?thesis using c by blast
qed

lemma decode_pack_framed:
  assumes "dec src = Inr (MAGIC @ bs, None)" and "framed js bs ms"
  shows "decode_pack dec js collect src [] = (Inr (), ms)"
proof -
  have "length MAGIC = 8" by (simp add: MAGIC_def)
  then show ?thesis
    using assms decode_collects [OF assms(2), of "[]"] by (simp add: decode_pack_def read_exact_def)
qed

lemma decode_pack_collect:
  assumes "decode_pack dec js collect src [] = (Inr (), ms)"
  shows "\<exists>bs. dec src = Inr (MAGIC @ bs, None) \<and> framed js bs ms"
proof -
  from assms obtain st st1 where s: "dec src = Inr st" "read_exact 8 st = Inr (MAGIC, st1)"
    "decode_loop js collect [] st1 = (Inr (), ms)"
    by (auto simp: decode_pack_def split: sum.splits prod.splits if_splits)
  then have st: "fst st = MAGIC @ fst st1" "snd st = snd st1"
    by (auto simp: read_exact_Inr) (metis append_take_drop_id)
  from decode_collect_framed [OF s(3)] have "framed js (fst st1) ms" "snd st1 = None" by auto
  then show ?thesis using s(1) st by (intro exI [of _ "fst st1"]) (metis prod.collapse)
qed

end
