(* ===== verification/PlanProperties.thy ===== *)
theory PlanProperties
  imports Planner Pack
begin

text \<open>
  What planning, inventory and packing promise: the properties of \<^verbatim>\<open>planner.rs\<close>, \<^verbatim>\<open>inventory.rs\<close>,
  \<^verbatim>\<open>courier-pack\<close> and the path checks, each with a concrete instance of its hypotheses.
\<close>

section \<open>Part plans\<close>

definition small_limits :: MultipartLimits where
  "small_limits = \<lparr>target_part_size = 4, minimum_part_size = 2, maximum_part_size = 8, maximum_parts = 3\<rparr>"

lemmas plan_eval = plan_parts_def plan_part_size_def saturating_mul_def div_ceil_def Let_def max_def
  min_def upt_rec

lemmas path_eval = safe_path_def portable_path_def components_def is_absolute_def path_join_def Let_def

lemma small_plan: "plan_parts 7 10 small_limits = Inr [part 7 1 0 4, part 7 2 4 4, part 7 3 8 2]"
  by (simp add: plan_eval small_limits_def)

text \<open>C1: A plan \<^verbatim>\<open>plan_parts\<close> returns covers the file: its parts carry the file's id, are numbered from
  one, follow each other from offset zero without gap or overlap and add up to the file size; there
  is at least one and at most the maximum number of them, none exceeds the maximum size, only the
  last may be below the minimum size, and all are pending.\<close>

theorem plan_parts_covers_the_file:
  assumes "plan_parts file_id sz limits = Inr parts"
  shows "well_planned file_id (unat sz) parts \<and> parts \<noteq> [] \<and> length parts \<le> unat (maximum_parts limits)
    \<and> list_all (\<lambda>p. p_source_length p \<le> maximum_part_size limits) parts
    \<and> list_all (\<lambda>p. minimum_part_size limits \<le> p_source_length p) (butlast parts)
    \<and> list_all (\<lambda>p. p_status p = PartStatus.Pending \<and> p_etag p = None \<and> p_attempt_count p = 0) parts"
  using plan_parts_well_planned [OF assms] plan_parts_limits [OF assms] plan_parts_pending [OF assms]
  by (simp add: list_all_iff)

theorem plan_parts_covers_the_file_witness:
  "well_planned 7 10 [part 7 1 0 4, part 7 2 4 4, part 7 3 8 2]"
  using plan_parts_covers_the_file [OF small_plan] by simp

text \<open>\<^verbatim>\<open>plan_parts\<close> returns a plan exactly when the limits are usable (a minimum part size, at least
  one part, the maximum size not below the minimum) and the file fits into the maximum number of
  maximum-sized parts, a product that saturates at the largest \<^verbatim>\<open>u64\<close>.\<close>

theorem plan_parts_accepts:
  "(\<exists>parts. plan_parts file_id sz limits = Inr parts) \<longleftrightarrow>
     limits_valid limits
     \<and> unat sz \<le> min (unat (maximum_part_size limits) * unat (maximum_parts limits)) (2 ^ 64 - 1)"
proof -
  have "unat (saturating_mul (maximum_part_size limits) (ucast (maximum_parts limits)))
      = min (unat (maximum_part_size limits) * unat (maximum_parts limits)) (2 ^ 64 - 1)"
    by (simp add: unat_saturating_mul)
  then show ?thesis
    by (auto simp: plan_parts_def limits_valid_def Let_def word_le_nat_alt word_less_nat_alt)
qed

text \<open>Every byte of the file lies in exactly one part of its plan.\<close>

theorem every_byte_in_one_part:
  assumes "plan_parts file_id sz limits = Inr parts" and "b < unat sz"
  shows "\<exists>!i. i < length parts \<and> unat (p_source_offset (parts ! i)) \<le> b
    \<and> b < unat (p_source_offset (parts ! i)) + unat (p_source_length (parts ! i))"
  using plan_parts_well_planned [OF assms(1)] assms(2)
  by (intro contiguous_byte [of 0]) (auto simp: well_planned_def)

theorem every_byte_in_one_part_witness:
  "\<exists>!i. i < Suc (Suc (Suc 0)) \<and> unat (p_source_offset ([part 7 1 0 4, part 7 2 4 4, part 7 3 8 2] ! i)) \<le> 5
    \<and> 5 < unat (p_source_offset ([part 7 1 0 4, part 7 2 4 4, part 7 3 8 2] ! i))
          + unat (p_source_length ([part 7 1 0 4, part 7 2 4 4, part 7 3 8 2] ! i))"
  using every_byte_in_one_part [OF small_plan, of 5] by simp

text \<open>C2: Replanning after reconciliation keeps the confirmed prefix as it is, number, size and ETag;
  the new tail is pending, none of its parts exceeds the default maximum and none but the last falls
  below the default minimum, and prefix and tail together are again a complete plan of the file, of at
  most ten thousand parts.\<close>

theorem replan_keeps_the_confirmed_prefix:
  assumes "replan_large_unconfirmed_parts f sz parts = Inr (Some new)" and "length parts < 2 ^ 32"
  shows "well_planned f (unat sz) new \<and> length new \<le> 10000
    \<and> take (length (takeWhile is_complete parts)) new = takeWhile is_complete parts
    \<and> list_all (\<lambda>q. p_status q = PartStatus.Pending \<and> p_source_length q \<le> maximum_part_size default_limits)
        (drop (length (takeWhile is_complete parts)) new)
    \<and> list_all (\<lambda>q. minimum_part_size default_limits \<le> p_source_length q)
        (butlast (drop (length (takeWhile is_complete parts)) new))"
  using replan_well_planned [OF assms] replan_prefix [OF assms(1)] by (simp add: list_all_iff)

definition old_plan :: "PartRecord list" where
  "old_plan = [(part 7 1 0 33554432)\<lparr>p_status := PartStatus.Complete, p_etag := Some ''e''\<rparr>,
               part 7 2 33554432 33554432]"

lemma tail_plan:
  "plan_parts 7 33554432 (default_limits\<lparr>maximum_parts := 9999\<rparr>)
     = Inr [part 7 1 0 16777216, part 7 2 16777216 16777216]"
  by (simp add: plan_eval default_limits_def)

lemma old_plan_replanned:
  "replan_large_unconfirmed_parts 7 67108864 old_plan =
     Inr (Some [hd old_plan, part 7 2 33554432 16777216, part 7 3 50331648 16777216])"
  by (simp add: replan_large_unconfirmed_parts_def Let_def old_plan_def is_complete_def Planner.part_def
      checked_add_def checked_sub_def tail_plan [unfolded Planner.part_def default_limits_def, simplified]
      default_limits_def)

theorem replan_keeps_the_confirmed_prefix_witness:
  "well_planned 7 67108864 [hd old_plan, part 7 2 33554432 16777216, part 7 3 50331648 16777216]"
proof -
  have "length old_plan < 2 ^ 32" by (simp add: old_plan_def)
  from replan_keeps_the_confirmed_prefix [OF old_plan_replanned this] show ?thesis by simp
qed

section \<open>Paths\<close>

text \<open>C3: A path the retrieval check accepts stays under the root: its components are the root's
  followed by plain names, none empty, \<^verbatim>\<open>.\<close>, \<^verbatim>\<open>..\<close> or containing a slash.\<close>

theorem safe_path_stays_under_the_root:
  assumes "safe_path root v = Some p"
  shows "\<exists>names. names \<noteq> [] \<and> list_all plain_name names
    \<and> components p = components root @ map Normal names \<and> join_with ''/'' names = v"
  using safe_path_Some [OF assms] join_split [of "CHR ''/''" v]
  by (intro exI [of _ "split_on (CHR ''/'') v"]) simp

theorem safe_path_stays_under_the_root_witness:
  "\<exists>names. names \<noteq> [] \<and> list_all plain_name names
    \<and> components ''/data/out/a/b.txt'' = components ''/data/out'' @ map Normal names
    \<and> join_with ''/'' names = ''a/b.txt''"
proof -
  have "safe_path ''/data/out'' ''a/b.txt'' = Some ''/data/out/a/b.txt''"
    by (simp add: path_eval)
  from safe_path_stays_under_the_root [OF this] show ?thesis .
qed

text \<open>A relative path written into a pack is accepted on retrieval, and lands under the root at
  the components it had at the source, provided no name contains a backslash or a NUL; two paths
  with the same packed spelling have the same components.\<close>

theorem packed_path_is_safe:
  assumes "portable_path q = Some s" and "CHR 0x5C \<notin> set s" and "CHR 0x00 \<notin> set s"
  shows "\<exists>p. safe_path root s = Some p \<and> components p = components root @ components q"
proof -
  have s: "safe_path root s = Some (path_join root s)" by (rule safe_path_portable [OF assms])
  have "components s = map Normal (split_on (CHR ''/'') s)" using safe_path_Some(2) [OF s] .
  then show ?thesis using s safe_path_Some(3) [OF s] components_portable_path [OF assms(1)] by simp
qed

theorem packed_path_is_safe_witness:
  "\<exists>p. safe_path ''/out'' ''a/b'' = Some p \<and> components p = components ''/out'' @ components ''a//./b''"
proof -
  have "portable_path ''a//./b'' = Some ''a/b''" by (simp add: path_eval)
  from packed_path_is_safe [OF this] show ?thesis by simp
qed

section \<open>Inventory\<close>

text \<open>A digest depends on the bytes of the file only: over hashers whose updates compose, two
  successful runs of \<^verbatim>\<open>hash_file\<close> that are delivered the same bytes, in whatever chunks and with
  whatever buffer size, return the same digest, that of the bytes.\<close>

theorem digest_ignores_chunking:
  assumes "streaming lib" and "fs_reads fs p buf w = (Inr rs, w')" and "delivered rs = Some bs"
  shows "\<exists>t'. hash_file fs lib p buf alg ob (w, t) = (Inr (digest_of lib alg bs), (w', t'))"
  by (rule hash_file_digest [OF assms])

definition byte_hash :: "bytes hash_lib" where
  "byte_hash = \<lparr>hl_new = (\<lambda>_. []), hl_update = (\<lambda>_ h bs. h @ bs),
     hl_digest = (\<lambda>_ h. map (char_of \<circ> unat) h)\<rparr>"

definition one_file :: "path \<Rightarrow> bytes \<Rightarrow> read_result list \<Rightarrow> unit fs_ops" where
  "one_file q bs reads =
     \<lparr>fs_exists = (\<lambda>p w. (p = q, w)), fs_is_file = (\<lambda>p w. (p = q, w)),
      fs_walk = (\<lambda>p w. ([], w)),
      fs_metadata = (\<lambda>p w. (Inr \<lparr>md_len = of_nat (length bs), md_modified = Inr 5\<rparr>, w)),
      fs_reads = (\<lambda>p n w. (Inr reads, w)),
      fs_read_exact_at = (\<lambda>p off n w. (Inr (take n (drop (unat off) bs)), w))\<rparr>"

lemma byte_hash_streaming: "streaming byte_hash"
  by (simp add: streaming_def byte_hash_def)

theorem digest_ignores_chunking_witness:
  "\<exists>t'. hash_file (one_file ''a'' [1, 2, 3] [Inr [1], Inr [2, 3], Inr []]) byte_hash ''a'' 2 Sha256
     (\<lambda>_. [()]) ((), []) = (Inr (digest_of byte_hash Sha256 [1, 2, 3]), ((), t'))"
proof -
  let ?fs = "one_file ''a'' [1, 2, 3] [Inr [1], Inr [2, 3], Inr []]"
  have "fs_reads ?fs ''a'' 2 () = (Inr [Inr [1], Inr [2, 3], Inr []], ())" by (simp add: one_file_def)
  from digest_ignores_chunking [OF byte_hash_streaming this, of "[1, 2, 3]"] show ?thesis by simp
qed

text \<open>A successful inventory is sorted by path components, holds one record for each visited file,
  each ready with no byte completed, under the path it has below the source, with the size and
  modification time the file system reported and its own identifier; the visited files are the
  source itself or what the walk listed as files, and the last progress event counts them all.\<close>

theorem inventory_lists_the_source:
  assumes "inventory_transfer_observed fs lib fresh tid source opts (w, []) = (Inr out, (w', tr))"
  shows "\<exists>root ps new. out = sort_key (\<lambda>r. components (f_relative_path r)) new
    \<and> list_all (inventoried fs opts tid root) new \<and> map f_absolute_path new = ps
    \<and> map f_id new = map fresh [0..<length ps]
    \<and> (ps = [source] \<or> (\<exists>w0 entries w1. fs_walk fs source w0 = (map Inr entries, w1)
                          \<and> ps = map fst (filter snd entries)))
    \<and> tr \<noteq> [] \<and> ip_files_analyzed (last tr) = of_nat (length out)"
  by (rule inventory_observed_Inr [OF assms])

definition one_record :: FileRecord where
  "one_record = \<lparr>f_id = 9, f_transfer_id = 4, f_relative_path = ''a'', f_absolute_path = ''/d/a'',
     f_size = 3, f_mtime_ns = 5, f_hash_algorithm = Sha256,
     f_sha256 = map (char_of \<circ> unat) [1 :: u8, 2, 3], f_status = FileStatus.Ready, f_bytes_completed = 0\<rparr>"

lemma one_inventory:
  "fst (inventory_transfer_observed (one_file ''/d/a'' [1, 2, 3] [Inr [1, 2, 3], Inr []]) byte_hash
     (\<lambda>_. 9) 4 ''/d/a'' default_inventory_options ((), [])) = Inr [one_record]"
  by (simp add: inventory_transfer_observed_def inventory_visited_def inventory_one_def hash_file_def
      comp_defs on_env_def on_env_io_def one_file_def byte_hash_def modified_ns_def emit_def
      default_inventory_options_def path_parent_def render_def components_def is_absolute_def
      strip_prefix_def one_record_def progress_def Let_def saturating_add_def split_def)

theorem inventory_lists_the_source_witness:
  "\<exists>root. inventoried (one_file ''/d/a'' [1, 2, 3] [Inr [1, 2, 3], Inr []])
     default_inventory_options 4 root one_record"
proof -
  let ?fs = "one_file ''/d/a'' [1, 2, 3] [Inr [1, 2, 3], Inr []]"
  obtain w' tr where run: "inventory_transfer_observed ?fs byte_hash (\<lambda>_. 9) 4 ''/d/a''
      default_inventory_options ((), []) = (Inr [one_record], (w', tr))"
    using one_inventory by (metis prod.collapse)
  from inventory_lists_the_source [OF run] obtain root new where
    new: "[one_record] = sort_key (\<lambda>r. components (f_relative_path r)) new"
    "list_all (inventoried ?fs default_inventory_options 4 root) new"
    by (elim exE conjE)
  then have "one_record \<in> set new" by (metis list.set_intros(1) set_sort)
  then show ?thesis using new(2) by (auto simp: list_all_iff)
qed

section \<open>Packs\<close>

text \<open>C4: \<^verbatim>\<open>plan_packs\<close> loses and repeats nothing: the packs and the standalone files together are the
  files it was given; a file is standalone exactly when it exceeds the member limit, so a small file
  with no other beside it is a pack of one member; no pack is empty, and one of more than a single
  member stays within the target size; each pack is as full as it can be before the next one begins.\<close>

theorem plan_packs_partitions:
  assumes "plan_packs files options = Inr plan"
  shows "mset (concat (pp_packs plan) @ pp_standalone plan) = mset files
    \<and> set (pp_standalone plan) = {f \<in> set files. po_maximum_member_size options < f_size f}
    \<and> list_all (bounded_pack (po_target_pack_size options)) (pp_packs plan)
    \<and> greedy_packs (po_target_pack_size options) (pp_packs plan)"
proof -
  have "list_all (bounded_pack t) (pack_loop t [] [] 0 fs)" "greedy_packs t (pack_loop t [] [] 0 fs)"
    for t fs by (simp_all add: pack_loop_bounded pack_loop_greedy)
  moreover have "mset (filter (\<lambda>f. f_size f \<le> m) files) + mset (filter (\<lambda>f. m < f_size f) files)
      = mset files" for m
    by (induction files) (auto simp: not_le)
  ultimately show ?thesis
    using assms by (auto simp: plan_packs_Inr pack_loop_concat simp flip: mset_filter)
qed

definition sized :: "string \<Rightarrow> u64 \<Rightarrow> FileRecord" where
  "sized name n = one_record\<lparr>f_relative_path := name, f_size := n\<rparr>"

definition tiny_packs :: PackOptions where
  "tiny_packs = \<lparr>po_maximum_member_size = 4, po_target_pack_size = 5, po_zstd_level = 3\<rparr>"

definition tiny_plan :: PackPlan where
  "tiny_plan = \<lparr>pp_packs = [[sized ''a'' 3, sized ''b'' 2], [sized ''c'' 4]],
     pp_standalone = [sized ''d'' 9]\<rparr>"

lemma tiny_planned:
  "plan_packs [sized ''c'' 4, sized ''d'' 9, sized ''a'' 3, sized ''b'' 2] tiny_packs = Inr tiny_plan"
  by (simp add: plan_packs_def tiny_packs_def tiny_plan_def sized_def Let_def components_def
      is_absolute_def less_Component_def less_eq_Component_def saturating_add_def)

theorem plan_packs_partitions_witness:
  "mset (concat (pp_packs tiny_plan) @ pp_standalone tiny_plan)
     = mset [sized ''c'' 4, sized ''d'' 9, sized ''a'' 3, sized ''b'' 2]"
  using plan_packs_partitions [OF tiny_planned] by simp

text \<open>The plan does not depend on the order in which the files are listed, when no two have the
  same path.\<close>

theorem plan_packs_ignores_order:
  assumes "mset files = mset files'" and "inj_on path_key (set files)"
  shows "plan_packs files options = plan_packs files' options"
proof -
  have sort: "sort_key path_key (filter P files) = sort_key path_key (filter P files')" for P
    using assms
    by (intro sort_key_inj_key_eq) (auto intro: inj_on_subset)
  have "inj_on path_key (set files')" using assms by (metis mset_eq_setD)
  show ?thesis by (simp add: plan_packs_def Let_def sort)
qed

theorem plan_packs_ignores_order_witness:
  "plan_packs [sized ''b'' 2, sized ''a'' 3] tiny_packs = plan_packs [sized ''a'' 3, sized ''b'' 2] tiny_packs"
  by (rule plan_packs_ignores_order)
    (simp_all add: sized_def components_def is_absolute_def Let_def inj_on_def add_mset_commute)

text \<open>C5: What a run of \<^verbatim>\<open>encode_pack\<close> wrote, \<^verbatim>\<open>decode_pack\<close> reads back: over a lossless compressor and
  a faithful header codec, decoding a pack that was encoded without an error yields exactly one
  member for each file, in order, with the file's portable path, size and digest in the header and
  the file's bytes as content, and consumes the whole pack.\<close>

theorem pack_round_trip:
  assumes "json_faithful js" and "zstd_faithful enc dec" and "ze_output enc z = []"
    and "encode_pack fs enc js members level (w, z) = (Inr n, (w', z'))"
  shows "\<exists>ms. decode_pack dec js collect (ze_output enc z') [] = (Inr (), ms)
    \<and> list_all2 (packed_as fs) members ms"
  using encode_pack_Inr [OF assms] decode_pack_framed by blast

definition plain_zstd :: "bytes zstd_encoder" where
  "plain_zstd = \<lparr>ze_new = (\<lambda>level z. (Inr (), z)), ze_include_checksum = (\<lambda>z. (Inr (), z)),
     ze_write_all = (\<lambda>bs z. (Inr (), z @ bs)), ze_finish = (\<lambda>z. (Inr (), z)), ze_output = (\<lambda>z. z)\<rparr>"

definition plain_unzstd :: "bytes \<Rightarrow> io_error + stream" where
  "plain_unzstd bs = Inr (bs, None)"

definition one_header :: PackMemberHeader where
  "one_header = member_header one_record ''a''"

definition one_json :: header_json where
  "one_json = \<lparr>hj_to_vec = (\<lambda>h. if h = one_header then Inr [7] else Inl ''''),
     hj_from_slice = (\<lambda>bs. if bs = [7] then Inr one_header else Inl '''')\<rparr>"

lemma one_json_faithful: "json_faithful one_json"
  by (auto simp: json_faithful_def one_json_def)

lemma plain_write_chunks: "write_chunks plain_zstd chunks z = Some (z @ concat chunks)"
  by (induction chunks arbitrary: z) (simp_all add: plain_zstd_def)

lemma plain_zstd_faithful: "zstd_faithful plain_zstd plain_unzstd"
  by (auto simp: zstd_faithful_def plain_write_chunks) (simp_all add: plain_zstd_def plain_unzstd_def)

definition one_pack :: bytes where
  "one_pack = MAGIC @ member_frame [7] 3 [1, 2, 3] @ u32_to_le_bytes 0"

lemma one_encoded:
  "encode_pack (one_file ''/d/a'' [1, 2, 3] [Inr [1, 2, 3], Inr []]) plain_zstd one_json [one_record] 3
     ((), []) = (Inr 28, ((), one_pack))"
  by (simp add: encode_pack_def encode_member_def comp_defs on_sink_def on_source_def plain_zstd_def
      one_json_def one_header_def one_file_def one_record_def verify_source_unchanged_def on_env_io_def
      modified_ns_def member_path_def portable_path_def components_def is_absolute_def member_header_def
      member_frame_def one_pack_def saturating_add_def MAGIC_def Let_def)

theorem pack_round_trip_witness:
  "\<exists>ms. decode_pack plain_unzstd one_json collect one_pack [] = (Inr (), ms)
    \<and> list_all2 (packed_as (one_file ''/d/a'' [1, 2, 3] [Inr [1, 2, 3], Inr []])) [one_record] ms"
proof -
  have "ze_output plain_zstd [] = []" by (simp add: plain_zstd_def)
  from pack_round_trip [OF one_json_faithful plain_zstd_faithful this one_encoded]
  show ?thesis by (simp add: plain_zstd_def)
qed

text \<open>\<^verbatim>\<open>decode_pack\<close> accepts only packs: a decoding that ends without an error read the magic
  number, then a sequence of complete member frames, whose headers and contents are what the
  callback was given, then the end marker, and nothing after it.\<close>

theorem decode_pack_accepts_packs_only:
  assumes "decode_pack dec js collect src [] = (Inr (), ms)"
  shows "\<exists>bs. dec src = Inr (MAGIC @ bs, None) \<and> framed js bs ms"
  by (rule decode_pack_collect [OF assms])

theorem decode_pack_accepts_packs_only_witness:
  "\<exists>bs. plain_unzstd one_pack = Inr (MAGIC @ bs, None) \<and> framed one_json bs [(one_header, [1, 2, 3])]"
proof -
  have "framed one_json (member_frame [7] (h_size one_header) [1, 2, 3] @ u32_to_le_bytes 0)
      [(one_header, [1, 2, 3])]"
    by (rule framed_member [OF framed_end])
      (simp_all add: one_json_def one_header_def member_header_def one_record_def)
  then have "decode_pack plain_unzstd one_json collect one_pack [] = (Inr (), [(one_header, [1, 2, 3])])"
    by (intro decode_pack_framed)
      (simp_all add: plain_unzstd_def one_pack_def one_header_def member_header_def one_record_def)
  from decode_pack_accepts_packs_only [OF this] show ?thesis .
qed

text \<open>The fixed-width integers of the container are little-endian codecs: encoding a value gives its
  width in bytes, decoding gives the value back, and every byte string of that width is the encoding
  of what it decodes to.\<close>

theorem le_codecs_round_trip:
  "length (u32_to_le_bytes x) = 4 \<and> u32_from_le_bytes (u32_to_le_bytes x) = x
    \<and> length (u64_to_le_bytes y) = 8 \<and> u64_from_le_bytes (u64_to_le_bytes y) = y
    \<and> u32_to_le_bytes (u32_from_le_bytes [a, b, c, d]) = [a, b, c, d]"
  by (simp add: u32_le.enc_dec)

end
