(* ===== verification/Sqlite.thy ===== *)
theory Sqlite
  imports Model
begin

text \<open>
  The local database of the transfer engine: the tables that the migrations of
  \<^verbatim>\<open>crates/courier-core/migrations/\<close> create, their keys, foreign keys and checks, the triggers
  that write the event outbox, and the execution of a statement.

  A table is the list of its rows. A column of type TEXT that spells an id, a status or a time
  holds that value (the spellings are injective, see \<^verbatim>\<open>Model\<close>). A statement is a function of
  the tables: it fails and changes nothing, or succeeds. Every statement may also fail for a
  reason of the environment (\<open>st_fault\<close>), reads the clock (\<open>st_now\<close>) and may draw fresh
  identifiers (\<open>st_fresh\<close>); the three are functions of the number of statements run so far.
\<close>

section \<open>Rows and tables\<close>

record transfer_row = Transfer +
  tr_registry_url :: "string option"
  tr_manifest_json :: "string option"

record file_row = FileRecord +
  fr_object_key :: "string option"
  fr_upload_id :: "string option"
  fr_server_file_id :: "uuid option"

record part_row =
  pr_owner :: uuid
  pr_part_number :: u32
  pr_source_offset :: u64
  pr_source_length :: u64
  pr_transport_length :: "u64 option"
  pr_checksum :: "string option"
  pr_etag :: "string option"
  pr_attempt_count :: nat
  pr_status :: PartStatus
  pr_last_attempt :: "datetime option"
  pr_last_error :: "string option"

record object_row = TransportObjectRecord +
  or_server_object_id :: "uuid option"
  or_object_key :: "string option"
  or_upload_id :: "string option"

record session_row = RegistrySessionRecord +
  sr_created_at :: datetime

record setting_row =
  sg_key :: string
  sg_value :: string
  sg_updated_at :: datetime

record event_row =
  ev_sequence :: nat
  ev_id :: uuid
  ev_transfer_id :: uuid
  ev_occurred_at :: datetime
  ev_kind :: string
  ev_details :: TransferEventDetails
  ev_synced_at :: "datetime option"

record tables =
  tb_transfers :: "transfer_row list"
  tb_files :: "file_row list"
  tb_parts :: "part_row list"
  tb_objects :: "object_row list"
  tb_members :: "TransportMemberRecord list"
  tb_object_parts :: "part_row list"
  tb_sessions :: "session_row list"
  tb_settings :: "setting_row list"
  tb_events :: "event_row list"
  tb_sequence :: nat

definition empty_tables :: tables where
  "empty_tables = \<lparr>tb_transfers = [], tb_files = [], tb_parts = [], tb_objects = [],
     tb_members = [], tb_object_parts = [], tb_sessions = [], tb_settings = [], tb_events = [],
     tb_sequence = 0\<rparr>"

section \<open>Constraints\<close>

definition transfers_ok :: "tables \<Rightarrow> bool" where
  "transfers_ok t \<longleftrightarrow> distinct (map t_id (tb_transfers t))"

definition files_ok :: "tables \<Rightarrow> bool" where
  "files_ok t \<longleftrightarrow>
     distinct (map f_id (tb_files t))
     \<and> distinct (map (\<lambda>f. (f_transfer_id f, f_relative_path f)) (tb_files t))
     \<and> f_transfer_id ` set (tb_files t) \<subseteq> t_id ` set (tb_transfers t)"

definition parts_ok :: "uuid set \<Rightarrow> part_row list \<Rightarrow> bool" where
  "parts_ok owners rows \<longleftrightarrow>
     distinct (map (\<lambda>p. (pr_owner p, pr_part_number p)) rows) \<and> pr_owner ` set rows \<subseteq> owners"

definition objects_ok :: "tables \<Rightarrow> bool" where
  "objects_ok t \<longleftrightarrow>
     distinct (map o_id (tb_objects t))
     \<and> list_all (\<lambda>r. o_compression r = ''none'' \<or> o_compression r = ''zstd'') (tb_objects t)
     \<and> o_transfer_id ` set (tb_objects t) \<subseteq> t_id ` set (tb_transfers t)"

definition members_ok :: "tables \<Rightarrow> bool" where
  "members_ok t \<longleftrightarrow>
     distinct (map (\<lambda>m. (m_object_id m, m_member_index m)) (tb_members t))
     \<and> distinct (map m_file_id (tb_members t))
     \<and> m_object_id ` set (tb_members t) \<subseteq> o_id ` set (tb_objects t)
     \<and> m_file_id ` set (tb_members t) \<subseteq> f_id ` set (tb_files t)"

definition events_ok :: "tables \<Rightarrow> bool" where
  "events_ok t \<longleftrightarrow>
     distinct (map ev_id (tb_events t))
     \<and> ev_transfer_id ` set (tb_events t) \<subseteq> t_id ` set (tb_transfers t)"

definition constraints :: "tables \<Rightarrow> bool" where
  "constraints t \<longleftrightarrow>
     transfers_ok t \<and> files_ok t \<and> parts_ok (f_id ` set (tb_files t)) (tb_parts t)
     \<and> objects_ok t \<and> members_ok t \<and> parts_ok (o_id ` set (tb_objects t)) (tb_object_parts t)
     \<and> distinct (map rs_session_id (tb_sessions t)) \<and> distinct (map sg_key (tb_settings t))
     \<and> events_ok t"

section \<open>Running statements\<close>

record store =
  st_tables :: tables
  st_tick :: nat
  st_now :: "nat \<Rightarrow> datetime"
  st_fresh :: "nat \<Rightarrow> nat \<Rightarrow> uuid"
  st_fault :: "nat \<Rightarrow> rusqlite_error option"

type_synonym 'a stmt =
  "datetime \<Rightarrow> (nat \<Rightarrow> uuid) \<Rightarrow> tables \<Rightarrow> rusqlite_error + ('a \<times> tables)"

type_synonym 'a db = "(store, CourierError, 'a) comp"

definition execute :: "'a stmt \<Rightarrow> 'a db" where
  "execute stmt = (\<lambda>s.
     let n = st_tick s; s1 = s\<lparr>st_tick := Suc n\<rparr> in
     case st_fault s n of
       Some e \<Rightarrow> (Inl (Database e), s1)
     | None \<Rightarrow> (case stmt (st_now s n) (st_fresh s n) (st_tables s) of
         Inl e \<Rightarrow> (Inl (Database e), s1)
       | Inr (x, t) \<Rightarrow> (Inr x, s1\<lparr>st_tables := t\<rparr>)))"

definition query :: "(tables \<Rightarrow> 'a) \<Rightarrow> 'a db" where
  "query f = execute (\<lambda>_ _ t. Inr (f t, t))"

definition query_rows :: "(tables \<Rightarrow> rusqlite_error + 'a) \<Rightarrow> 'a db" where
  "query_rows f = execute (\<lambda>_ _ t. case f t of Inl e \<Rightarrow> Inl e | Inr x \<Rightarrow> Inr (x, t))"

text \<open>A transaction: \<^verbatim>\<open>BEGIN\<close>, the statements, \<^verbatim>\<open>COMMIT\<close>; an error in any of them rolls the tables back.\<close>

definition atomically :: "'a db \<Rightarrow> 'a db" where
  "atomically m = (\<lambda>s.
     case thenE (query (\<lambda>_. ())) (bindE m (\<lambda>x. thenE (query (\<lambda>_. ())) (ok x))) s of
       (Inl e, s') \<Rightarrow> (Inl e, s'\<lparr>st_tables := st_tables s\<rparr>)
     | (Inr x, s') \<Rightarrow> (Inr x, s'))"

definition checked :: "'a \<Rightarrow> tables \<Rightarrow> rusqlite_error + ('a \<times> tables)" where
  "checked x t =
     (if constraints t then Inr (x, t)
      else Inl (SqliteFailure ConstraintViolation ''constraint failed''))"

text \<open>An SQLite integer is signed: a \<^verbatim>\<open>u64\<close> parameter from \<open>2 ^ 63\<close> on does not convert.\<close>

definition fits_sql :: "u64 \<Rightarrow> bool" where
  "fits_sql n \<longleftrightarrow> unat n < 2 ^ 63"

definition update_where :: "('a \<Rightarrow> bool) \<Rightarrow> ('a \<Rightarrow> 'a) \<Rightarrow> 'a list \<Rightarrow> 'a list" where
  "update_where P f rows = map (\<lambda>r. if P r then f r else r) rows"

section \<open>The event outbox\<close>

text \<open>
  \<open>new_event\<close> is a row a statement or trigger inserts; \<open>insert_events\<close> inserts them in order, each
  with the next sequence number and a fresh id.
\<close>

type_synonym new_event = "uuid \<times> datetime \<times> string \<times> TransferEventDetails"

definition insert_event :: "uuid \<Rightarrow> new_event \<Rightarrow> tables \<Rightarrow> tables" where
  "insert_event eid ev t =
     (case ev of (tid, at, kind, details) \<Rightarrow>
       t\<lparr>tb_sequence := Suc (tb_sequence t),
         tb_events := tb_events t @ [\<lparr>ev_sequence = Suc (tb_sequence t), ev_id = eid,
           ev_transfer_id = tid, ev_occurred_at = at, ev_kind = kind, ev_details = details,
           ev_synced_at = None\<rparr>]\<rparr>)"

fun insert_events :: "(nat \<Rightarrow> uuid) \<Rightarrow> nat \<Rightarrow> new_event list \<Rightarrow> tables \<Rightarrow> tables" where
  "insert_events fresh k [] t = t"
| "insert_events fresh k (ev # evs) t = insert_events fresh (Suc k) evs (insert_event (fresh k) ev t)"

text \<open>\<^verbatim>\<open>transfer_event_created\<close> and \<^verbatim>\<open>transfer_event_transition\<close>.\<close>

definition created_event :: "transfer_row \<Rightarrow> new_event" where
  "created_event r =
     (t_id r, t_created_at r, ''state.created'', default_details\<lparr>d_state := Some (t_status r)\<rparr>)"

definition transition_event :: "transfer_row \<Rightarrow> transfer_row \<Rightarrow> new_event list" where
  "transition_event old new =
     (if t_status new \<noteq> t_status old
      then [(t_id new, t_updated_at new, ''state.changed'',
             default_details\<lparr>d_state := Some (t_status new), d_from_state := Some (t_status old)\<rparr>)]
      else [])"

text \<open>
  \<^verbatim>\<open>transfer_event_part_confirmed\<close>, \<^verbatim>\<open>transfer_event_part_failed\<close> and their legacy twins;
  \<open>transfer_of\<close> finds the owner's transfer in \<^verbatim>\<open>transport_objects\<close> or in \<^verbatim>\<open>files\<close>.
\<close>

definition owner_event ::
  "uuid option \<Rightarrow> datetime \<Rightarrow> string \<Rightarrow> TransferEventDetails \<Rightarrow> new_event list" where
  "owner_event transfer now kind details =
     (case transfer of None \<Rightarrow> [] | Some tid \<Rightarrow> [(tid, now, kind, details)])"

definition confirmed_event ::
  "datetime \<Rightarrow> (uuid \<Rightarrow> uuid option) \<Rightarrow> part_row \<Rightarrow> part_row \<Rightarrow> new_event list" where
  "confirmed_event now transfer_of old new =
     (if pr_status new = PartStatus.Complete \<and> pr_status old \<noteq> PartStatus.Complete
      then owner_event (transfer_of (pr_owner new)) now ''part.confirmed''
             (default_details\<lparr>d_object_id := Some (pr_owner new),
                d_part_number := Some (pr_part_number new), d_bytes := pr_transport_length new\<rparr>)
      else [])"

definition failed_event ::
  "datetime \<Rightarrow> (uuid \<Rightarrow> uuid option) \<Rightarrow> part_row \<Rightarrow> part_row \<Rightarrow> new_event list" where
  "failed_event now transfer_of old new =
     (if pr_status new = PartStatus.Failed
      then owner_event (transfer_of (pr_owner new)) now ''part.failed''
             (default_details\<lparr>d_object_id := Some (pr_owner new),
                d_part_number := Some (pr_part_number new),
                d_attempt := Some (of_nat (pr_attempt_count new))\<rparr>)
      else [])"

definition object_transfer :: "tables \<Rightarrow> uuid \<Rightarrow> uuid option" where
  "object_transfer t oid = map_option o_transfer_id (find (\<lambda>r. o_id r = oid) (tb_objects t))"

definition file_transfer :: "tables \<Rightarrow> uuid \<Rightarrow> uuid option" where
  "file_transfer t fid = map_option f_transfer_id (find (\<lambda>r. f_id r = fid) (tb_files t))"

section \<open>Deleting with cascades\<close>

definition drop_files :: "(file_row \<Rightarrow> bool) \<Rightarrow> tables \<Rightarrow> tables" where
  "drop_files P t =
     (let gone = f_id ` set (filter P (tb_files t)) in
      t\<lparr>tb_files := filter (\<lambda>r. \<not> P r) (tb_files t),
        tb_parts := filter (\<lambda>p. pr_owner p \<notin> gone) (tb_parts t),
        tb_members := filter (\<lambda>m. m_file_id m \<notin> gone) (tb_members t)\<rparr>)"

definition drop_objects :: "(object_row \<Rightarrow> bool) \<Rightarrow> tables \<Rightarrow> tables" where
  "drop_objects P t =
     (let gone = o_id ` set (filter P (tb_objects t)) in
      t\<lparr>tb_objects := filter (\<lambda>r. \<not> P r) (tb_objects t),
        tb_object_parts := filter (\<lambda>p. pr_owner p \<notin> gone) (tb_object_parts t),
        tb_members := filter (\<lambda>m. m_object_id m \<notin> gone) (tb_members t)\<rparr>)"

definition drop_transfer :: "uuid \<Rightarrow> tables \<Rightarrow> tables" where
  "drop_transfer tid t =
     (let t1 = drop_objects (\<lambda>r. o_transfer_id r = tid) (drop_files (\<lambda>r. f_transfer_id r = tid) t)
      in t1\<lparr>tb_transfers := filter (\<lambda>r. t_id r \<noteq> tid) (tb_transfers t1),
            tb_events := filter (\<lambda>e. ev_transfer_id e \<noteq> tid) (tb_events t1)\<rparr>)"

section \<open>How statements and transactions behave\<close>

lemma execute_Inr [comp_simps]:
  "execute stmt s = (Inr x, s') \<longleftrightarrow>
     st_fault s (st_tick s) = None
     \<and> (\<exists>t. stmt (st_now s (st_tick s)) (st_fresh s (st_tick s)) (st_tables s) = Inr (x, t)
          \<and> s' = s\<lparr>st_tick := Suc (st_tick s), st_tables := t\<rparr>)"
  by (auto simp: execute_def Let_def split: option.splits sum.splits prod.splits)

lemma execute_Inl [comp_simps]:
  "execute stmt s = (Inl e, s') \<longleftrightarrow>
     (\<exists>e'. e = Database e' \<and> s' = s\<lparr>st_tick := Suc (st_tick s)\<rparr>
        \<and> (st_fault s (st_tick s) = Some e'
           \<or> st_fault s (st_tick s) = None
             \<and> stmt (st_now s (st_tick s)) (st_fresh s (st_tick s)) (st_tables s) = Inl e'))"
  by (auto simp: execute_def Let_def split: option.splits sum.splits prod.splits)

lemma query_Inr [comp_simps]:
  "query f s = (Inr x, s') \<longleftrightarrow>
     st_fault s (st_tick s) = None \<and> x = f (st_tables s) \<and> s' = s\<lparr>st_tick := Suc (st_tick s)\<rparr>"
  by (auto simp: query_def execute_Inr)

lemma query_Inl [comp_simps]:
  "query f s = (Inl e, s') \<longleftrightarrow>
     (\<exists>e'. e = Database e' \<and> st_fault s (st_tick s) = Some e') \<and> s' = s\<lparr>st_tick := Suc (st_tick s)\<rparr>"
  by (auto simp: query_def execute_Inl)

lemma query_rows_Inr [comp_simps]:
  "query_rows f s = (Inr x, s') \<longleftrightarrow>
     st_fault s (st_tick s) = None \<and> f (st_tables s) = Inr x \<and> s' = s\<lparr>st_tick := Suc (st_tick s)\<rparr>"
  by (auto simp: query_rows_def execute_Inr split: sum.splits)

lemma checked_Inr [simp]: "checked x t = Inr (y, t') \<longleftrightarrow> constraints t \<and> y = x \<and> t' = t"
  by (auto simp: checked_def)

lemma atomically_Inr:
  "atomically m s = (Inr x, s') \<Longrightarrow>
     \<exists>s1 s2. st_tables s1 = st_tables s \<and> m s1 = (Inr x, s2) \<and> st_tables s' = st_tables s2"
proof -
  assume "atomically m s = (Inr x, s')"
  then obtain s2 where "m (s\<lparr>st_tick := Suc (st_tick s)\<rparr>) = (Inr x, s2)"
    "s' = s2\<lparr>st_tick := Suc (st_tick s2)\<rparr>"
    by (auto simp: atomically_def comp_simps split: prod.splits sum.splits)
  then show ?thesis by (intro exI [of _ "s\<lparr>st_tick := Suc (st_tick s)\<rparr>"] exI [of _ s2]) simp
qed

lemma atomically_Inl: "atomically m s = (Inl e, s') \<Longrightarrow> st_tables s' = st_tables s"
  by (auto simp: atomically_def split: prod.splits sum.splits)

text \<open>Predicates of the tables that an operation keeps, whatever it returns.\<close>

abbreviation tables_keep :: "(tables \<Rightarrow> bool) \<Rightarrow> 'a db \<Rightarrow> bool" where
  "tables_keep I m \<equiv> keeps (\<lambda>s. I (st_tables s)) m"

lemma keeps_execute:
  "(\<And>now fresh t x t'. I t \<Longrightarrow> stmt now fresh t = Inr (x, t') \<Longrightarrow> I t') \<Longrightarrow> tables_keep I (execute stmt)"
proof (rule keepsI)
  fix s r s'
  assume stmt: "\<And>now fresh t x t'. I t \<Longrightarrow> stmt now fresh t = Inr (x, t') \<Longrightarrow> I t'"
    and "I (st_tables s)" "execute stmt s = (r, s')"
  then show "I (st_tables s')"
    by (cases r) (auto simp: comp_simps intro: stmt)
qed

lemma keeps_query [keeps_intros]: "tables_keep I (query f)"
  unfolding query_def by (rule keeps_execute) simp

lemma keeps_query_rows [keeps_intros]: "tables_keep I (query_rows f)"
  unfolding query_rows_def by (rule keeps_execute) (simp split: sum.splits)

lemma keeps_atomically [keeps_intros]:
  assumes "tables_keep I m" shows "tables_keep I (atomically m)"
proof (rule keepsI)
  fix s r s' assume I: "I (st_tables s)" and run: "atomically m s = (r, s')"
  show "I (st_tables s')"
  proof (cases r)
    case (Inl e)
    then show ?thesis using I run by (simp add: atomically_Inl)
  next
    case (Inr x)
    then obtain s1 s2 where "st_tables s1 = st_tables s" "m s1 = (Inr x, s2)"
      "st_tables s' = st_tables s2"
      using run by (auto dest: atomically_Inr)
    moreover from this have "I (st_tables s1)" using I by simp
    ultimately show ?thesis using keepsD [OF assms] by metis
  qed
qed

section \<open>Rows, keys and constraints\<close>

lemma map_update_where [simp]:
  "(\<And>r. k (f r) = k r) \<Longrightarrow> map k (update_where P f rows) = map k rows"
  by (simp add: update_where_def)

lemma image_update_where [simp]:
  "(\<And>r. k (f r) = k r) \<Longrightarrow> k ` set (update_where P f rows) = k ` set rows"
  by (metis map_update_where set_map)

lemma length_update_where [simp]: "length (update_where P f rows) = length rows"
  by (simp add: update_where_def)

lemma find_update_where:
  assumes "\<And>r. k (f r) = k r"
  shows "find (\<lambda>r. k r = i) (update_where P f rows)
           = map_option (\<lambda>r. if P r then f r else r) (find (\<lambda>r. k r = i) rows)"
  by (induction rows) (auto simp: update_where_def assms)

lemma find_key_Some:
  "distinct (map k rows) \<Longrightarrow> find (\<lambda>r. k r = i) rows = Some r \<longleftrightarrow> r \<in> set rows \<and> k r = i"
  by (induction rows) (auto simp: image_iff)

lemma find_key_None: "find (\<lambda>r. k r = i) rows = None \<longleftrightarrow> i \<notin> k ` set rows"
  by (induction rows) auto

lemma distinct_map_filter_key: "distinct (map k rows) \<Longrightarrow> distinct (map k (filter P rows))"
  by (rule distinct_map_filter)

lemma insert_event_simps [simp]:
  "tb_transfers (insert_event i ev t) = tb_transfers t"
  "tb_files (insert_event i ev t) = tb_files t"
  "tb_parts (insert_event i ev t) = tb_parts t"
  "tb_objects (insert_event i ev t) = tb_objects t"
  "tb_members (insert_event i ev t) = tb_members t"
  "tb_object_parts (insert_event i ev t) = tb_object_parts t"
  "tb_sessions (insert_event i ev t) = tb_sessions t"
  "tb_settings (insert_event i ev t) = tb_settings t"
  by (cases ev; simp add: insert_event_def)+

lemma insert_events_simps [simp]:
  "tb_transfers (insert_events fresh k evs t) = tb_transfers t"
  "tb_files (insert_events fresh k evs t) = tb_files t"
  "tb_parts (insert_events fresh k evs t) = tb_parts t"
  "tb_objects (insert_events fresh k evs t) = tb_objects t"
  "tb_members (insert_events fresh k evs t) = tb_members t"
  "tb_object_parts (insert_events fresh k evs t) = tb_object_parts t"
  "tb_sessions (insert_events fresh k evs t) = tb_sessions t"
  "tb_settings (insert_events fresh k evs t) = tb_settings t"
  by (induction evs arbitrary: k t; simp)+

lemma cascade:
  "g ` set xs \<subseteq> k ` set rows \<Longrightarrow>
     g ` set (filter (\<lambda>x. g x \<notin> k ` set (filter P rows)) xs) \<subseteq> k ` set (filter (\<lambda>r. \<not> P r) rows)"
  by fastforce

lemma image_filter_subset: "g ` set xs \<subseteq> A \<Longrightarrow> g ` set (filter P xs) \<subseteq> A"
  by auto

lemma drop_files_constraints:
  assumes "constraints t" shows "constraints (drop_files P t)"
  using assms
  unfolding constraints_def transfers_ok_def files_ok_def parts_ok_def objects_ok_def members_ok_def
    events_ok_def drop_files_def Let_def
  by (elim conjE, intro conjI)
    (simp_all add: distinct_map_filter image_filter_subset cascade del: set_filter)

lemma drop_objects_constraints:
  assumes "constraints t" shows "constraints (drop_objects P t)"
  using assms
  unfolding constraints_def transfers_ok_def files_ok_def parts_ok_def objects_ok_def members_ok_def
    events_ok_def drop_objects_def Let_def list_all_iff
  by (elim conjE, intro conjI)
    (simp_all add: distinct_map_filter image_filter_subset cascade del: set_filter, simp)

lemma subset_image_filter:
  "g ` set xs \<subseteq> k ` set rows \<Longrightarrow> (\<And>x. x \<in> set xs \<Longrightarrow> g x \<noteq> i)
     \<Longrightarrow> g ` set xs \<subseteq> k ` set (filter (\<lambda>r. k r \<noteq> i) rows)"
  by fastforce

lemma drop_transfer_constraints:
  assumes "constraints t" shows "constraints (drop_transfer tid t)"
proof -
  define u where "u = drop_objects (\<lambda>r. o_transfer_id r = tid) (drop_files (\<lambda>r. f_transfer_id r = tid) t)"
  have c: "constraints u"
    unfolding u_def using assms by (intro drop_objects_constraints drop_files_constraints)
  have f: "f_transfer_id ` set (tb_files u) \<subseteq> t_id ` set (tb_transfers u)"
    and o: "o_transfer_id ` set (tb_objects u) \<subseteq> t_id ` set (tb_transfers u)"
    and e: "ev_transfer_id ` set (tb_events u) \<subseteq> t_id ` set (tb_transfers u)"
    using c by (auto simp: constraints_def files_ok_def objects_ok_def events_ok_def)
  have "f_transfer_id ` set (tb_files u) \<subseteq> t_id ` set (filter (\<lambda>r. t_id r \<noteq> tid) (tb_transfers u))"
    by (rule subset_image_filter [OF f]) (simp add: u_def drop_objects_def drop_files_def Let_def)
  moreover have "o_transfer_id ` set (tb_objects u) \<subseteq> t_id ` set (filter (\<lambda>r. t_id r \<noteq> tid) (tb_transfers u))"
    by (rule subset_image_filter [OF o]) (simp add: u_def drop_objects_def drop_files_def Let_def)
  moreover have "ev_transfer_id ` set (filter (\<lambda>e. ev_transfer_id e \<noteq> tid) (tb_events u))
      \<subseteq> t_id ` set (filter (\<lambda>r. t_id r \<noteq> tid) (tb_transfers u))"
    by (rule subset_image_filter [OF image_filter_subset [OF e]]) simp
  ultimately show ?thesis
    using c unfolding constraints_def transfers_ok_def files_ok_def objects_ok_def events_ok_def
      members_ok_def drop_transfer_def Let_def u_def [symmetric]
    by (simp add: distinct_map_filter del: set_filter)
qed

end
