(* ===== verification/TransferStore.thy ===== *)
theory TransferStore
  imports Sqlite
begin

text \<open>
  \<^verbatim>\<open>TransferStore\<close> of \<^verbatim>\<open>crates/courier-core/src/db.rs\<close>, first half: transfers and their status,
  the event outbox, the inventory, registry sessions and bindings. The part ledger is in
  \<^verbatim>\<open>PartLedger\<close>. Each operation is the sequence of statements the source executes.
\<close>

section \<open>Events\<close>

definition record_transfer_event :: "uuid \<Rightarrow> string \<Rightarrow> TransferEventDetails \<Rightarrow> unit db" where
  "record_transfer_event transfer_id kind details =
     execute (\<lambda>now fresh t.
       checked () (insert_event (fresh 0) (transfer_id, now, kind, details) t))"

definition event_of_row :: "event_row \<Rightarrow> TransferEvent" where
  "event_of_row r =
     \<lparr>e_id = ev_id r, e_occurred_at = ev_occurred_at r, e_kind = ev_kind r,
      e_details = ev_details r\<rparr>"

definition unsynced :: "uuid \<Rightarrow> event_row \<Rightarrow> bool" where
  "unsynced transfer_id r \<longleftrightarrow> ev_transfer_id r = transfer_id \<and> ev_synced_at r = None"

definition pending_transfer_events :: "uuid \<Rightarrow> nat \<Rightarrow> TransferEvent list db" where
  "pending_transfer_events transfer_id limit =
     query (\<lambda>t. map event_of_row (take (min limit 100)
       (sort_key ev_sequence (filter (unsynced transfer_id) (tb_events t)))))"

definition acknowledge_one :: "uuid \<Rightarrow> uuid \<Rightarrow> unit db" where
  "acknowledge_one transfer_id i =
     execute (\<lambda>now _ t. Inr ((), t\<lparr>tb_events :=
       update_where (\<lambda>r. ev_transfer_id r = transfer_id \<and> ev_id r = i)
         (\<lambda>r. r\<lparr>ev_synced_at := Some now\<rparr>) (tb_events t)\<rparr>))"

definition acknowledge_transfer_events :: "uuid \<Rightarrow> uuid list \<Rightarrow> unit db" where
  "acknowledge_transfer_events transfer_id ids =
     atomically (for_each (acknowledge_one transfer_id) ids)"

definition transfers_with_pending_events :: "uuid option \<Rightarrow> uuid list db" where
  "transfers_with_pending_events after =
     query (\<lambda>t. take 20 (sort (map t_id (filter
       (\<lambda>r. t_server_transfer_id r \<noteq> None
          \<and> (case after of None \<Rightarrow> True | Some a \<Rightarrow> a < t_id r)
          \<and> list_ex (unsynced (t_id r)) (tb_events t)) (tb_transfers t)))))"

section \<open>Transfers\<close>

definition transfer_row_of :: "Transfer \<Rightarrow> transfer_row" where
  "transfer_row_of tr =
     Transfer.extend tr \<lparr>tr_registry_url = None, tr_manifest_json = None\<rparr>"

definition create_transfer :: "Transfer \<Rightarrow> unit db" where
  "create_transfer transfer =
     execute (\<lambda>now fresh t.
       if \<not> (fits_sql (t_file_count transfer) \<and> fits_sql (t_original_bytes transfer))
       then Inl ToSqlConversionFailure
       else let row = transfer_row_of transfer in
         checked () (insert_event (fresh 0) (created_event row)
           (t\<lparr>tb_transfers := tb_transfers t @ [row]\<rparr>)))"

definition transfer_by_id :: "tables \<Rightarrow> uuid \<Rightarrow> transfer_row option" where
  "transfer_by_id t tid = find (\<lambda>r. t_id r = tid) (tb_transfers t)"

definition get_transfer :: "uuid \<Rightarrow> Transfer option db" where
  "get_transfer tid = query (\<lambda>t. map_option Transfer.truncate (transfer_by_id t tid))"

text \<open>An \<^verbatim>\<open>UPDATE\<close> of \<^verbatim>\<open>transfers\<close> with its trigger.\<close>

definition update_transfers ::
  "(transfer_row \<Rightarrow> bool) \<Rightarrow> (transfer_row \<Rightarrow> transfer_row) \<Rightarrow> (nat \<Rightarrow> uuid) \<Rightarrow> tables
     \<Rightarrow> rusqlite_error + (unit \<times> tables)" where
  "update_transfers P f fresh t =
     checked () (insert_events fresh 0
       (concat (map (\<lambda>r. if P r then transition_event r (f r) else []) (tb_transfers t)))
       (t\<lparr>tb_transfers := update_where P f (tb_transfers t)\<rparr>))"

definition transition :: "uuid \<Rightarrow> TransferStatus \<Rightarrow> unit db" where
  "transition tid next =
     bindE (get_transfer tid) (\<lambda>found.
     case found of
       None \<Rightarrow> fail (TransferNotFound (uuid_to_string tid))
     | Some current \<Rightarrow>
         if \<not> can_transition_to (t_status current) next
         then fail (InvalidTransition (transfer_status_fmt (t_status current))
                      (transfer_status_fmt next))
         else execute (\<lambda>now fresh t. update_transfers (\<lambda>r. t_id r = tid)
                (\<lambda>r. r\<lparr>t_status := next, t_updated_at := now\<rparr>) fresh t))"

definition allowed_current :: "TransferStatus \<Rightarrow> TransferStatus list" where
  "allowed_current remote =
     (case remote of
        TransferStatus.Verifying \<Rightarrow> [TransferStatus.Finalizing]
      | TransferStatus.Complete \<Rightarrow> [TransferStatus.Finalizing, TransferStatus.Verifying]
      | TransferStatus.Failed \<Rightarrow> [TransferStatus.Finalizing, TransferStatus.Verifying]
      | _ \<Rightarrow> [])"

definition is_terminal :: "TransferStatus \<Rightarrow> bool" where
  "is_terminal s \<longleftrightarrow> s \<in> {TransferStatus.Complete, TransferStatus.Failed, TransferStatus.Cancelled}"

definition reconcile_registry_status :: "uuid \<Rightarrow> TransferStatus \<Rightarrow> unit db" where
  "reconcile_registry_status tid remote =
     bindE (get_transfer tid) (\<lambda>found.
     case found of
       None \<Rightarrow> fail (TransferNotFound (uuid_to_string tid))
     | Some current \<Rightarrow>
         if t_status current = remote \<or> is_terminal (t_status current) then ok ()
         else if t_status current \<notin> set (allowed_current remote)
         then fail (InvalidTransition (transfer_status_fmt (t_status current))
                      (transfer_status_fmt remote))
         else execute (\<lambda>now fresh t. update_transfers
                (\<lambda>r. t_id r = tid \<and> t_status r \<in> set (allowed_current remote))
                (\<lambda>r. r\<lparr>t_status := remote, t_updated_at := now\<rparr>) fresh t))"

definition manifest_snapshot :: "uuid \<Rightarrow> string option db" where
  "manifest_snapshot tid =
     query (\<lambda>t. Option.bind (transfer_by_id t tid) tr_manifest_json)"

definition ensure_manifest_snapshot :: "uuid \<Rightarrow> string \<Rightarrow> string db" where
  "ensure_manifest_snapshot tid candidate =
     thenE (execute (\<lambda>_ _ t. Inr ((), t\<lparr>tb_transfers :=
              update_where (\<lambda>r. t_id r = tid \<and> tr_manifest_json r = None)
                (\<lambda>r. r\<lparr>tr_manifest_json := Some candidate\<rparr>) (tb_transfers t)\<rparr>)))
     (bindE (manifest_snapshot tid) (\<lambda>snapshot.
        case snapshot of None \<Rightarrow> fail (TransferNotFound (uuid_to_string tid)) | Some m \<Rightarrow> ok m))"

definition list_transfers :: "Transfer list db" where
  "list_transfers =
     query (\<lambda>t. map Transfer.truncate (sort_key (\<lambda>r. - t_created_at r) (tb_transfers t)))"

definition delete_transfer :: "uuid \<Rightarrow> bool db" where
  "delete_transfer tid =
     execute (\<lambda>_ _ t. Inr (filter (\<lambda>r. t_id r = tid) (tb_transfers t) \<noteq> [], drop_transfer tid t))"

definition incomplete_transfers :: "Transfer list db" where
  "incomplete_transfers =
     bindE list_transfers (\<lambda>ts. ok (filter
       (\<lambda>t. t_status t \<notin> {TransferStatus.Complete, TransferStatus.Cancelled}) ts))"

section \<open>Inventory\<close>

definition file_row_of :: "uuid \<Rightarrow> FileRecord \<Rightarrow> file_row" where
  "file_row_of transfer_id f =
     FileRecord.extend (f\<lparr>f_transfer_id := transfer_id\<rparr>)
       \<lparr>fr_object_key = None, fr_upload_id = None, fr_server_file_id = None\<rparr>"

definition insert_file :: "uuid \<Rightarrow> FileRecord \<Rightarrow> unit db" where
  "insert_file transfer_id f =
     execute (\<lambda>_ _ t.
       if \<not> (fits_sql (f_size f) \<and> fits_sql (f_bytes_completed f))
       then Inl ToSqlConversionFailure
       else checked () (t\<lparr>tb_files := tb_files t @ [file_row_of transfer_id f]\<rparr>))"

definition inventory_bytes :: "FileRecord list \<Rightarrow> u64" where
  "inventory_bytes files = fold (\<lambda>f bytes. saturating_add bytes (f_size f)) files 0"

definition replace_inventory :: "uuid \<Rightarrow> FileRecord list \<Rightarrow> unit db" where
  "replace_inventory transfer_id files =
     atomically
       (thenE (execute (\<lambda>_ _ t. Inr ((), drop_files (\<lambda>r. f_transfer_id r = transfer_id) t)))
       (thenE (for_each (insert_file transfer_id) files)
       (execute (\<lambda>now _ t.
          if \<not> (fits_sql (of_nat (length files)) \<and> fits_sql (inventory_bytes files))
          then Inl ToSqlConversionFailure
          else Inr ((), t\<lparr>tb_transfers := update_where (\<lambda>r. t_id r = transfer_id)
             (\<lambda>r. r\<lparr>t_file_count := of_nat (length files),
                    t_original_bytes := inventory_bytes files, t_updated_at := now\<rparr>)
             (tb_transfers t)\<rparr>)))))"

definition files_for_transfer :: "uuid \<Rightarrow> FileRecord list db" where
  "files_for_transfer transfer_id =
     query (\<lambda>t. map FileRecord.truncate (sort_key f_relative_path
       (filter (\<lambda>r. f_transfer_id r = transfer_id) (tb_files t))))"

section \<open>Bindings, settings and registry sessions\<close>

definition update_files :: "uuid \<Rightarrow> (file_row \<Rightarrow> file_row) \<Rightarrow> unit db" where
  "update_files file_id f =
     execute (\<lambda>_ _ t. Inr ((), t\<lparr>tb_files :=
       update_where (\<lambda>r. f_id r = file_id) f (tb_files t)\<rparr>))"

definition update_objects :: "uuid \<Rightarrow> (object_row \<Rightarrow> object_row) \<Rightarrow> unit db" where
  "update_objects object_id f =
     execute (\<lambda>_ _ t. Inr ((), t\<lparr>tb_objects :=
       update_where (\<lambda>r. o_id r = object_id) f (tb_objects t)\<rparr>))"

definition bind_transfer :: "uuid \<Rightarrow> (transfer_row \<Rightarrow> transfer_row) \<Rightarrow> unit db" where
  "bind_transfer tid f =
     execute (\<lambda>now _ t. Inr ((), t\<lparr>tb_transfers := update_where (\<lambda>r. t_id r = tid)
       (\<lambda>r. (f r)\<lparr>t_updated_at := now\<rparr>) (tb_transfers t)\<rparr>))"

definition bind_registry_object :: "uuid \<Rightarrow> uuid \<Rightarrow> string \<Rightarrow> unit db" where
  "bind_registry_object object_id server_object_id object_key =
     update_objects object_id
       (\<lambda>r. r\<lparr>or_server_object_id := Some server_object_id, or_object_key := Some object_key\<rparr>)"

definition both :: "'a option \<Rightarrow> 'b option \<Rightarrow> ('a \<times> 'b) option" where
  "both x y = (case (x, y) of (Some a, Some b) \<Rightarrow> Some (a, b) | _ \<Rightarrow> None)"

definition object_by_id :: "tables \<Rightarrow> uuid \<Rightarrow> object_row option" where
  "object_by_id t oid = find (\<lambda>r. o_id r = oid) (tb_objects t)"

definition file_by_id :: "tables \<Rightarrow> uuid \<Rightarrow> file_row option" where
  "file_by_id t fid = find (\<lambda>r. f_id r = fid) (tb_files t)"

definition registry_object_binding :: "uuid \<Rightarrow> (uuid \<times> string) option db" where
  "registry_object_binding object_id =
     query (\<lambda>t. Option.bind (object_by_id t object_id)
       (\<lambda>r. both (or_server_object_id r) (or_object_key r)))"

definition bind_registry_transfer :: "uuid \<Rightarrow> string \<Rightarrow> unit db" where
  "bind_registry_transfer tid server_transfer_id =
     bind_transfer tid (\<lambda>r. r\<lparr>t_server_transfer_id := Some server_transfer_id\<rparr>)"

definition bind_transfer_registry :: "uuid \<Rightarrow> string \<Rightarrow> unit db" where
  "bind_transfer_registry tid base_url =
     bind_transfer tid (\<lambda>r. r\<lparr>tr_registry_url := Some base_url,
       t_registry_session_id := Some (''legacy:'' @ base_url)\<rparr>)"

definition bind_transfer_registry_session :: "uuid \<Rightarrow> string \<Rightarrow> string \<Rightarrow> unit db" where
  "bind_transfer_registry_session tid base_url session_id =
     bind_transfer tid (\<lambda>r. r\<lparr>tr_registry_url := Some base_url,
       t_registry_session_id := Some session_id\<rparr>)"

definition transfer_registry :: "uuid \<Rightarrow> string option db" where
  "transfer_registry tid = query (\<lambda>t. Option.bind (transfer_by_id t tid) tr_registry_url)"

definition transfer_registry_session :: "uuid \<Rightarrow> string option db" where
  "transfer_registry_session tid =
     query (\<lambda>t. Option.bind (transfer_by_id t tid) t_registry_session_id)"

text \<open>\<^verbatim>\<open>INSERT \<dots> ON CONFLICT(key) DO UPDATE\<close>.\<close>

definition upsert :: "('a \<Rightarrow> 'k) \<Rightarrow> 'a \<Rightarrow> 'a list \<Rightarrow> 'a list" where
  "upsert key row rows =
     (if key row \<in> key ` set rows then update_where (\<lambda>r. key r = key row) (\<lambda>_. row) rows
      else rows @ [row])"

definition put_setting :: "string \<Rightarrow> string \<Rightarrow> unit db" where
  "put_setting k v =
     execute (\<lambda>now _ t. Inr ((), t\<lparr>tb_settings := upsert sg_key
       \<lparr>sg_key = k, sg_value = v, sg_updated_at = now\<rparr> (tb_settings t)\<rparr>))"

definition get_setting :: "string \<Rightarrow> string option db" where
  "get_setting k = query (\<lambda>t. map_option sg_value (find (\<lambda>r. sg_key r = k) (tb_settings t)))"

definition set_active_registry :: "string \<Rightarrow> unit db" where
  "set_active_registry base_url = put_setting ''active_registry_url'' base_url"

definition set_active_registry_session :: "string \<Rightarrow> string \<Rightarrow> unit db" where
  "set_active_registry_session session_id base_url =
     thenE (set_active_registry base_url) (put_setting ''active_registry_session_id'' session_id)"

definition active_registry_session_id :: "string option db" where
  "active_registry_session_id = get_setting ''active_registry_session_id''"

definition active_registry :: "string option db" where
  "active_registry = get_setting ''active_registry_url''"

definition bind_registry_file :: "uuid \<Rightarrow> uuid \<Rightarrow> string \<Rightarrow> unit db" where
  "bind_registry_file file_id server_file_id object_key =
     update_files file_id
       (\<lambda>r. r\<lparr>fr_server_file_id := Some server_file_id, fr_object_key := Some object_key\<rparr>)"

definition registry_file_binding :: "uuid \<Rightarrow> (uuid \<times> string) option db" where
  "registry_file_binding file_id =
     query (\<lambda>t. Option.bind (file_by_id t file_id)
       (\<lambda>r. both (fr_server_file_id r) (fr_object_key r)))"

definition save_registry_session :: "RegistrySessionRecord \<Rightarrow> unit db" where
  "save_registry_session session =
     execute (\<lambda>now _ t. Inr ((), t\<lparr>tb_sessions := upsert rs_session_id
       (RegistrySessionRecord.extend session \<lparr>sr_created_at = now\<rparr>) (tb_sessions t)\<rparr>))"

definition registry_session :: "string \<Rightarrow> RegistrySessionRecord option db" where
  "registry_session session_id =
     query (\<lambda>t. map_option RegistrySessionRecord.truncate
       (find (\<lambda>r. rs_session_id r = session_id) (tb_sessions t)))"

end
