(* ===== verification/PartLedger.thy ===== *)
theory PartLedger
  imports TransferStore
begin

text \<open>
  \<^verbatim>\<open>TransferStore\<close> of \<^verbatim>\<open>crates/courier-core/src/db.rs\<close>, second half: the part ledger, kept in
  \<^verbatim>\<open>transport_parts\<close> when the id names a transport object and in \<^verbatim>\<open>parts\<close> otherwise, the
  transport plan, upload sessions, and the paged file progress.
\<close>

section \<open>Rows of a part table\<close>

definition part_row_of :: "PartRecord \<Rightarrow> part_row" where
  "part_row_of p =
     \<lparr>pr_owner = p_file_id p, pr_part_number = p_part_number p,
      pr_source_offset = p_source_offset p, pr_source_length = p_source_length p,
      pr_transport_length = p_transport_length p, pr_checksum = p_checksum p,
      pr_etag = p_etag p, pr_attempt_count = unat (p_attempt_count p), pr_status = p_status p,
      pr_last_attempt = None, pr_last_error = p_last_error p\<rparr>"

definition row_to_part :: "part_row \<Rightarrow> rusqlite_error + PartRecord" where
  "row_to_part r =
     (if pr_attempt_count r < 2 ^ 32 then
        Inr \<lparr>p_file_id = pr_owner r, p_part_number = pr_part_number r,
          p_source_offset = pr_source_offset r, p_source_length = pr_source_length r,
          p_transport_length = pr_transport_length r, p_checksum = pr_checksum r,
          p_etag = pr_etag r, p_attempt_count = of_nat (pr_attempt_count r),
          p_status = pr_status r, p_last_error = pr_last_error r\<rparr>
      else Inl (OtherRusqlite ''integral value out of range''))"

definition part_fits :: "PartRecord \<Rightarrow> bool" where
  "part_fits p \<longleftrightarrow>
     fits_sql (p_source_offset p) \<and> fits_sql (p_source_length p)
     \<and> (case p_transport_length p of None \<Rightarrow> True | Some n \<Rightarrow> fits_sql n)"

text \<open>\<open>SUM(source_length)\<close> over the complete parts of a file.\<close>

definition complete_rows :: "uuid \<Rightarrow> part_row list \<Rightarrow> part_row list" where
  "complete_rows owner rows =
     filter (\<lambda>p. pr_owner p = owner \<and> pr_status p = PartStatus.Complete) rows"

definition completed_sum :: "uuid \<Rightarrow> part_row list \<Rightarrow> nat" where
  "completed_sum owner rows = sum_list (map (\<lambda>p. unat (pr_source_length p)) (complete_rows owner rows))"

definition refresh_stmt :: "uuid \<Rightarrow> tables \<Rightarrow> rusqlite_error + (unit \<times> tables)" where
  "refresh_stmt file_id t =
     (if completed_sum file_id (tb_parts t) < 2 ^ 63 \<or> file_by_id t file_id = None
      then Inr ((), t\<lparr>tb_files := update_where (\<lambda>r. f_id r = file_id)
             (\<lambda>r. r\<lparr>f_bytes_completed := of_nat (completed_sum file_id (tb_parts t))\<rparr>)
             (tb_files t)\<rparr>)
      else Inl (OtherRusqlite ''integer overflow''))"

definition refresh_file_progress :: "uuid \<Rightarrow> unit db" where
  "refresh_file_progress file_id = execute (\<lambda>_ _ t. refresh_stmt file_id t)"

definition has_object :: "tables \<Rightarrow> uuid \<Rightarrow> bool" where
  "has_object t i \<longleftrightarrow> list_ex (\<lambda>r. o_id r = i) (tb_objects t)"

definition has_transport_object :: "uuid \<Rightarrow> bool db" where
  "has_transport_object i = query (\<lambda>t. has_object t i)"

text \<open>
  The statements on one of the two part tables. A \<open>part_table\<close> says which one: how to read and
  replace its rows, and where its triggers find the transfer.
\<close>

record part_table =
  pt_rows :: "tables \<Rightarrow> part_row list"
  pt_set :: "part_row list \<Rightarrow> tables \<Rightarrow> tables"
  pt_transfer :: "tables \<Rightarrow> uuid \<Rightarrow> uuid option"

definition file_parts :: part_table where
  "file_parts = \<lparr>pt_rows = tb_parts, pt_set = (\<lambda>rows t. t\<lparr>tb_parts := rows\<rparr>),
                 pt_transfer = file_transfer\<rparr>"

definition object_parts :: part_table where
  "object_parts = \<lparr>pt_rows = tb_object_parts, pt_set = (\<lambda>rows t. t\<lparr>tb_object_parts := rows\<rparr>),
                   pt_transfer = object_transfer\<rparr>"

definition delete_parts :: "part_table \<Rightarrow> uuid \<Rightarrow> unit db" where
  "delete_parts pt owner =
     execute (\<lambda>_ _ t. Inr ((), pt_set pt (filter (\<lambda>r. pr_owner r \<noteq> owner) (pt_rows pt t)) t))"

definition insert_part :: "part_table \<Rightarrow> PartRecord \<Rightarrow> unit db" where
  "insert_part pt part =
     execute (\<lambda>_ _ t.
       if \<not> part_fits part then Inl ToSqlConversionFailure
       else checked () (pt_set pt (pt_rows pt t @ [part_row_of part]) t))"

text \<open>\<open>update_parts\<close> with the triggers that fire on its columns.\<close>

definition update_parts ::
  "part_table \<Rightarrow> (part_row \<Rightarrow> bool) \<Rightarrow> (part_row \<Rightarrow> part_row)
     \<Rightarrow> (part_row \<Rightarrow> part_row \<Rightarrow> new_event list) \<Rightarrow> (nat \<Rightarrow> uuid) \<Rightarrow> tables
     \<Rightarrow> rusqlite_error + (unit \<times> tables)" where
  "update_parts pt P f triggers fresh t =
     checked () (insert_events fresh 0
       (concat (map (\<lambda>r. if P r then triggers r (f r) else []) (pt_rows pt t)))
       (pt_set pt (update_where P f (pt_rows pt t)) t))"

definition is_part :: "uuid \<Rightarrow> u32 \<Rightarrow> part_row \<Rightarrow> bool" where
  "is_part owner number r \<longleftrightarrow> pr_owner r = owner \<and> pr_part_number r = number"

definition confirm_stmt ::
  "part_table \<Rightarrow> uuid \<Rightarrow> u32 \<Rightarrow> string \<Rightarrow> string option \<Rightarrow> u64 \<Rightarrow> unit stmt" where
  "confirm_stmt pt owner number etag checksum transport_length now fresh t =
     (if \<not> fits_sql transport_length then Inl ToSqlConversionFailure
      else update_parts pt (is_part owner number)
        (\<lambda>r. r\<lparr>pr_status := PartStatus.Complete, pr_etag := Some etag, pr_checksum := checksum,
               pr_transport_length := Some transport_length,
               pr_attempt_count := pr_attempt_count r + 1, pr_last_attempt := Some now,
               pr_last_error := None\<rparr>)
        (\<lambda>old new. confirmed_event now (pt_transfer pt t) old new
                     @ failed_event now (pt_transfer pt t) old new) fresh t)"

definition fail_stmt :: "part_table \<Rightarrow> uuid \<Rightarrow> u32 \<Rightarrow> string \<Rightarrow> unit stmt" where
  "fail_stmt pt owner number error now fresh t =
     update_parts pt (is_part owner number)
       (\<lambda>r. r\<lparr>pr_status := PartStatus.Failed, pr_attempt_count := pr_attempt_count r + 1,
              pr_last_attempt := Some now, pr_last_error := Some error\<rparr>)
       (\<lambda>old new. confirmed_event now (pt_transfer pt t) old new
                    @ failed_event now (pt_transfer pt t) old new) fresh t"

text \<open>The two statements of a reconciliation update no \<open>attempt_count\<close>: only one trigger can fire.\<close>

definition reset_stmt :: "part_table \<Rightarrow> uuid \<Rightarrow> unit stmt" where
  "reset_stmt pt owner now fresh t =
     update_parts pt (\<lambda>r. pr_owner r = owner \<and> pr_status r = PartStatus.Complete)
       (\<lambda>r. r\<lparr>pr_status := PartStatus.Pending, pr_etag := None\<rparr>)
       (confirmed_event now (pt_transfer pt t)) fresh t"

definition restore_stmt :: "part_table \<Rightarrow> uuid \<Rightarrow> u32 \<times> string \<Rightarrow> unit stmt" where
  "restore_stmt pt owner remote now fresh t =
     (case remote of (number, etag) \<Rightarrow>
       update_parts pt (is_part owner number)
         (\<lambda>r. r\<lparr>pr_status := PartStatus.Complete, pr_etag := Some etag, pr_last_error := None\<rparr>)
         (confirmed_event now (pt_transfer pt t)) fresh t)"

section \<open>Operations\<close>

definition replace_part_plan :: "uuid \<Rightarrow> PartRecord list \<Rightarrow> unit db" where
  "replace_part_plan file_id parts =
     atomically (bindE (query (\<lambda>t. has_object t file_id)) (\<lambda>is_transport_object.
       if is_transport_object
       then thenE (delete_parts object_parts file_id) (for_each (insert_part object_parts) parts)
       else thenE (delete_parts file_parts file_id)
              (thenE (for_each (insert_part file_parts) parts)
                 (execute (\<lambda>_ _ t. refresh_stmt file_id t)))))"

definition object_row_of :: "TransportObjectRecord \<Rightarrow> object_row" where
  "object_row_of ob =
     TransportObjectRecord.extend ob
       \<lparr>or_server_object_id = None, or_object_key = None, or_upload_id = None\<rparr>"

definition insert_object :: "TransportObjectRecord \<Rightarrow> unit db" where
  "insert_object ob =
     execute (\<lambda>_ _ t.
       if \<not> (fits_sql (o_original_bytes ob)
             \<and> (case o_transport_bytes ob of None \<Rightarrow> True | Some n \<Rightarrow> fits_sql n))
       then Inl ToSqlConversionFailure
       else checked () (t\<lparr>tb_objects := tb_objects t @ [object_row_of ob]\<rparr>))"

definition insert_member :: "TransportMemberRecord \<Rightarrow> unit db" where
  "insert_member m =
     execute (\<lambda>_ _ t. checked () (t\<lparr>tb_members := tb_members t @ [m]\<rparr>))"

definition replace_transport_plan ::
  "uuid \<Rightarrow> TransportObjectRecord list \<Rightarrow> TransportMemberRecord list \<Rightarrow> unit db" where
  "replace_transport_plan transfer_id objects members =
     atomically
       (thenE (execute (\<lambda>_ _ t. Inr ((), drop_objects (\<lambda>r. o_transfer_id r = transfer_id) t)))
       (thenE (for_each insert_object objects) (for_each insert_member members)))"

definition transport_objects :: "uuid \<Rightarrow> TransportObjectRecord list db" where
  "transport_objects transfer_id =
     query (\<lambda>t. map TransportObjectRecord.truncate (sort_key o_id
       (filter (\<lambda>r. o_transfer_id r = transfer_id) (tb_objects t))))"

definition transport_members :: "uuid \<Rightarrow> TransportMemberRecord list db" where
  "transport_members transfer_id =
     query (\<lambda>t. sort_key m_object_id (sort_key m_member_index
       (filter (\<lambda>m. list_ex (\<lambda>r. o_id r = m_object_id m \<and> o_transfer_id r = transfer_id)
                      (tb_objects t)) (tb_members t))))"

definition parts_of :: "part_row list \<Rightarrow> uuid \<Rightarrow> rusqlite_error + PartRecord list" where
  "parts_of rows owner =
     map_sum_list row_to_part (sort_key pr_part_number (filter (\<lambda>r. pr_owner r = owner) rows))"

definition parts_for_file :: "uuid \<Rightarrow> PartRecord list db" where
  "parts_for_file file_id =
     bindE (has_transport_object file_id) (\<lambda>is_transport_object.
       let pt = (if is_transport_object then object_parts else file_parts)
       in query_rows (\<lambda>t. parts_of (pt_rows pt t) file_id))"

definition set_upload_session :: "uuid \<Rightarrow> string \<Rightarrow> string \<Rightarrow> unit db" where
  "set_upload_session file_id object_key upload_id =
     bindE (has_transport_object file_id) (\<lambda>is_transport_object.
       if is_transport_object
       then update_objects file_id
              (\<lambda>r. r\<lparr>or_object_key := Some object_key, or_upload_id := Some upload_id\<rparr>)
       else update_files file_id
              (\<lambda>r. r\<lparr>fr_object_key := Some object_key, fr_upload_id := Some upload_id\<rparr>))"

definition upload_session :: "uuid \<Rightarrow> (string \<times> string) option db" where
  "upload_session file_id =
     bindE (has_transport_object file_id) (\<lambda>is_transport_object.
       query (\<lambda>t. if is_transport_object
         then Option.bind (object_by_id t file_id) (\<lambda>r. both (or_object_key r) (or_upload_id r))
         else Option.bind (file_by_id t file_id) (\<lambda>r. both (fr_object_key r) (fr_upload_id r))))"

definition object_key :: "uuid \<Rightarrow> string option db" where
  "object_key file_id =
     bindE (has_transport_object file_id) (\<lambda>is_transport_object.
       query (\<lambda>t. if is_transport_object then Option.bind (object_by_id t file_id) or_object_key
                  else Option.bind (file_by_id t file_id) fr_object_key))"

definition confirm_part ::
  "uuid \<Rightarrow> u32 \<Rightarrow> string \<Rightarrow> string option \<Rightarrow> u64 \<Rightarrow> unit db" where
  "confirm_part file_id part_number etag checksum transport_length =
     bindE (has_transport_object file_id) (\<lambda>is_transport_object.
       if is_transport_object
       then execute (confirm_stmt object_parts file_id part_number etag checksum transport_length)
       else thenE
         (execute (confirm_stmt file_parts file_id part_number etag checksum transport_length))
         (refresh_file_progress file_id))"

definition record_part_failure :: "uuid \<Rightarrow> u32 \<Rightarrow> string \<Rightarrow> unit db" where
  "record_part_failure file_id part_number error =
     bindE (has_transport_object file_id) (\<lambda>is_transport_object.
       if is_transport_object then execute (fail_stmt object_parts file_id part_number error)
       else execute (fail_stmt file_parts file_id part_number error))"

definition mark_file_uploaded :: "uuid \<Rightarrow> unit db" where
  "mark_file_uploaded file_id =
     update_files file_id (\<lambda>r. r\<lparr>f_status := FileStatus.Uploaded, f_bytes_completed := f_size r\<rparr>)"

definition reconcile_remote_parts :: "uuid \<Rightarrow> (u32 \<times> string) list \<Rightarrow> unit db" where
  "reconcile_remote_parts file_id remote =
     bindE (atomically (bindE (query (\<lambda>t. has_object t file_id)) (\<lambda>is_transport_object.
       let pt = (if is_transport_object then object_parts else file_parts) in
       thenE (execute (reset_stmt pt file_id))
         (thenE (for_each (\<lambda>r. execute (restore_stmt pt file_id r)) remote)
            (ok is_transport_object))))) (\<lambda>is_transport_object.
     if is_transport_object then ok () else refresh_file_progress file_id)"

section \<open>Paged file progress\<close>

definition member_object :: "tables \<Rightarrow> file_row \<Rightarrow> object_row option" where
  "member_object t f =
     Option.bind (find (\<lambda>m. m_file_id m = f_id f) (tb_members t)) (\<lambda>m.
       find (\<lambda>r. o_id r = m_object_id m \<and> o_transfer_id r = f_transfer_id f) (tb_objects t))"

definition page_key ::
  "tables \<Rightarrow> uuid option \<Rightarrow> file_row \<Rightarrow> (nat \<times> bool) \<times> path \<times> uuid" where
  "page_key t active f =
     ((if active \<noteq> None \<and> map_option o_id (member_object t f) = active then 0 else 1,
       f_status f = FileStatus.Uploaded), f_relative_path f, f_id f)"

text \<open>\<open>COALESCE(SUM(transport_length), 0)\<close>: a null length is skipped.\<close>

definition confirmed_bytes :: "tables \<Rightarrow> uuid \<Rightarrow> nat" where
  "confirmed_bytes t oid =
     sum_list (map (\<lambda>p. case pr_transport_length p of None \<Rightarrow> 0 | Some n \<Rightarrow> unat n)
       (complete_rows oid (tb_object_parts t)))"

definition file_progress :: "tables \<Rightarrow> file_row \<Rightarrow> TransferFileProgress" where
  "file_progress t f =
     (let ob = member_object t f in
      \<lparr>fp_id = f_id f, fp_relative_path = f_relative_path f, fp_size = f_size f,
       fp_status = f_status f, fp_object_id = map_option o_id ob, fp_kind = map_option o_kind ob,
       fp_object_transport_bytes = Option.bind ob o_transport_bytes,
       fp_object_confirmed_bytes =
         (case ob of None \<Rightarrow> 0 | Some r \<Rightarrow> of_nat (confirmed_bytes t (o_id r)))\<rparr>)"

definition ordered_files :: "tables \<Rightarrow> uuid \<Rightarrow> uuid option \<Rightarrow> file_row list" where
  "ordered_files t transfer_id active =
     (let files = filter (\<lambda>f. f_transfer_id f = transfer_id) (tb_files t)
      in sort_key (\<lambda>f. fst (fst (page_key t active f)))
           (sort_key (\<lambda>f. snd (fst (page_key t active f)))
              (sort_key f_relative_path (sort_key f_id files))))"

definition page_rows ::
  "tables \<Rightarrow> uuid \<Rightarrow> nat \<Rightarrow> nat \<Rightarrow> uuid option \<Rightarrow> rusqlite_error + TransferFileProgress list" where
  "page_rows t transfer_id offset limit active =
     (let page = take limit (drop offset (ordered_files t transfer_id active)) in
      if list_ex (\<lambda>f. case member_object t f of None \<Rightarrow> False
                      | Some r \<Rightarrow> \<not> confirmed_bytes t (o_id r) < 2 ^ 63) page
      then Inl (OtherRusqlite ''integer overflow'')
      else Inr (map (file_progress t) page))"

definition transfer_file_progress ::
  "uuid \<Rightarrow> u64 \<Rightarrow> u64 \<Rightarrow> uuid option \<Rightarrow> TransferFileProgressPage db" where
  "transfer_file_progress transfer_id offset limit active_object_id =
     (let limit = max 1 (min limit 100);
          sql_offset = (if unat offset < 2 ^ 63 then unat offset else 2 ^ 63 - 1)
      in bindE (query (\<lambda>t. of_nat (length (filter (\<lambda>f. f_transfer_id f = transfer_id) (tb_files t)))))
         (\<lambda>total.
      bindE (query_rows (\<lambda>t. page_rows t transfer_id sql_offset (unat limit) active_object_id))
         (\<lambda>files. ok \<lparr>fpp_files = files, fpp_total = total, fpp_offset = offset,
                      fpp_limit = limit\<rparr>)))"

end
