(* ===== verification/StoreInvariants.thy ===== *)
theory StoreInvariants
  imports PartLedger
begin

text \<open>
  What every operation of the transfer store keeps: the constraints of the schema, the order of the
  outbox, and the agreement of the outbox with the status of each transfer (replaying the
  state events of a transfer gives its status); and how a status and a manifest snapshot can change.
\<close>

section \<open>The operations that write\<close>

datatype op =
    RecordTransferEvent uuid string TransferEventDetails
  | AcknowledgeTransferEvents uuid "uuid list"
  | CreateTransfer Transfer
  | Transition uuid TransferStatus
  | ReconcileRegistryStatus uuid TransferStatus
  | EnsureManifestSnapshot uuid string
  | DeleteTransfer uuid
  | ReplaceInventory uuid "FileRecord list"
  | BindRegistryObject uuid uuid string
  | BindRegistryTransfer uuid string
  | BindTransferRegistry uuid string
  | BindTransferRegistrySession uuid string string
  | SetActiveRegistry string
  | SetActiveRegistrySession string string
  | BindRegistryFile uuid uuid string
  | SaveRegistrySession RegistrySessionRecord
  | ReplacePartPlan uuid "PartRecord list"
  | ReplaceTransportPlan uuid "TransportObjectRecord list" "TransportMemberRecord list"
  | SetUploadSession uuid string string
  | ConfirmPart uuid u32 string "string option" u64
  | RecordPartFailure uuid u32 string
  | MarkFileUploaded uuid
  | ReconcileRemoteParts uuid "(u32 \<times> string) list"

fun run_op :: "op \<Rightarrow> unit db" where
  "run_op (RecordTransferEvent tid kind d) = record_transfer_event tid kind d"
| "run_op (AcknowledgeTransferEvents tid ids) = acknowledge_transfer_events tid ids"
| "run_op (CreateTransfer tr) = create_transfer tr"
| "run_op (Transition tid next) = transition tid next"
| "run_op (ReconcileRegistryStatus tid remote) = reconcile_registry_status tid remote"
| "run_op (EnsureManifestSnapshot tid m) = thenE (ensure_manifest_snapshot tid m) (ok ())"
| "run_op (DeleteTransfer tid) = thenE (delete_transfer tid) (ok ())"
| "run_op (ReplaceInventory tid files) = replace_inventory tid files"
| "run_op (BindRegistryObject i j k) = bind_registry_object i j k"
| "run_op (BindRegistryTransfer tid s) = bind_registry_transfer tid s"
| "run_op (BindTransferRegistry tid url) = bind_transfer_registry tid url"
| "run_op (BindTransferRegistrySession tid url sid) = bind_transfer_registry_session tid url sid"
| "run_op (SetActiveRegistry url) = set_active_registry url"
| "run_op (SetActiveRegistrySession sid url) = set_active_registry_session sid url"
| "run_op (BindRegistryFile i j k) = bind_registry_file i j k"
| "run_op (SaveRegistrySession sr) = save_registry_session sr"
| "run_op (ReplacePartPlan i ps) = replace_part_plan i ps"
| "run_op (ReplaceTransportPlan tid obs ms) = replace_transport_plan tid obs ms"
| "run_op (SetUploadSession i k u) = set_upload_session i k u"
| "run_op (ConfirmPart i n e c l) = confirm_part i n e c l"
| "run_op (RecordPartFailure i n e) = record_part_failure i n e"
| "run_op (MarkFileUploaded i) = mark_file_uploaded i"
| "run_op (ReconcileRemoteParts i ps) = reconcile_remote_parts i ps"

section \<open>Composing what the statements keep\<close>

definition part_triggers :: "(part_row \<Rightarrow> part_row \<Rightarrow> new_event list) \<Rightarrow> bool" where
  "part_triggers triggers \<longleftrightarrow>
     (\<forall>old new. \<forall>ev \<in> set (triggers old new). fst (snd (snd ev)) \<in> {''part.confirmed'', ''part.failed''})"

lemma in_owner_event: "ev \<in> set (owner_event tr now kind d) \<Longrightarrow> fst (snd (snd ev)) = kind"
  by (cases tr) (simp_all add: owner_event_def)

lemma part_triggers_events:
  "part_triggers (confirmed_event now transfer_of)"
  "part_triggers (\<lambda>old new. confirmed_event now transfer_of old new
                              @ failed_event now transfer_of old new)"
  unfolding part_triggers_def confirmed_event_def failed_event_def
  by (auto dest: in_owner_event split: if_split_asm)

text \<open>
  A predicate that each kind of statement keeps is kept by every operation but the four that
  insert events or move a status; those are proved of each predicate on their own.
\<close>

locale kept_predicate =
  fixes I :: "tables \<Rightarrow> bool"
  assumes files_updated: "I t
      \<Longrightarrow> (\<And>r. f_id (f r) = f_id r \<and> f_transfer_id (f r) = f_transfer_id r
             \<and> f_relative_path (f r) = f_relative_path r)
      \<Longrightarrow> I (t\<lparr>tb_files := update_where P f (tb_files t)\<rparr>)"
    and objects_updated: "I t
      \<Longrightarrow> (\<And>r. o_id (g r) = o_id r \<and> o_transfer_id (g r) = o_transfer_id r
             \<and> o_compression (g r) = o_compression r)
      \<Longrightarrow> I (t\<lparr>tb_objects := update_where P' g (tb_objects t)\<rparr>)"
    and transfers_updated: "I t
      \<Longrightarrow> (\<And>r. Q r \<Longrightarrow> t_id (h r) = t_id r \<and> t_status (h r) = t_status r
             \<and> (tr_manifest_json r \<noteq> None \<longrightarrow> tr_manifest_json (h r) = tr_manifest_json r))
      \<Longrightarrow> I (t\<lparr>tb_transfers := update_where Q h (tb_transfers t)\<rparr>)"
    and files_inserted: "I t \<Longrightarrow> constraints (t\<lparr>tb_files := files\<rparr>) \<Longrightarrow> I (t\<lparr>tb_files := files\<rparr>)"
    and objects_inserted: "I t \<Longrightarrow> constraints (t\<lparr>tb_objects := obs\<rparr>) \<Longrightarrow> I (t\<lparr>tb_objects := obs\<rparr>)"
    and members_inserted: "I t \<Longrightarrow> constraints (t\<lparr>tb_members := ms\<rparr>) \<Longrightarrow> I (t\<lparr>tb_members := ms\<rparr>)"
    and parts_inserted: "I t \<Longrightarrow> constraints (pt_set pt ps t) \<Longrightarrow> pt \<in> {file_parts, object_parts}
      \<Longrightarrow> I (pt_set pt ps t)"
    and parts_deleted: "I t \<Longrightarrow> pt \<in> {file_parts, object_parts}
      \<Longrightarrow> I (pt_set pt (filter R (pt_rows pt t)) t)"
    and parts_updated: "I t \<Longrightarrow> part_triggers triggers \<Longrightarrow> pt \<in> {file_parts, object_parts}
      \<Longrightarrow> update_parts pt S k triggers fresh t = Inr (u, t') \<Longrightarrow> I t'"
    and files_dropped: "I t \<Longrightarrow> I (drop_files V t)"
    and objects_dropped: "I t \<Longrightarrow> I (drop_objects W t)"
    and transfer_dropped: "I t \<Longrightarrow> I (drop_transfer tid t)"
    and acknowledged: "I t
      \<Longrightarrow> I (t\<lparr>tb_events := update_where X (\<lambda>r. r\<lparr>ev_synced_at := Some now\<rparr>) (tb_events t)\<rparr>)"
    and setting_put: "I t \<Longrightarrow> I (t\<lparr>tb_settings := upsert sg_key sg (tb_settings t)\<rparr>)"
    and session_put: "I t \<Longrightarrow> I (t\<lparr>tb_sessions := upsert rs_session_id sr (tb_sessions t)\<rparr>)"
begin

lemma update_files_keeps:
  "(\<And>r. f_id (f r) = f_id r \<and> f_transfer_id (f r) = f_transfer_id r
      \<and> f_relative_path (f r) = f_relative_path r) \<Longrightarrow> tables_keep I (update_files i f)"
  unfolding update_files_def by (rule keeps_execute) (auto intro!: files_updated)

lemma update_objects_keeps:
  "(\<And>r. o_id (f r) = o_id r \<and> o_transfer_id (f r) = o_transfer_id r
      \<and> o_compression (f r) = o_compression r) \<Longrightarrow> tables_keep I (update_objects i f)"
  unfolding update_objects_def by (rule keeps_execute) (auto intro!: objects_updated)

lemma bind_transfer_keeps:
  "(\<And>r. t_id (f r) = t_id r \<and> t_status (f r) = t_status r
      \<and> tr_manifest_json (f r) = tr_manifest_json r) \<Longrightarrow> tables_keep I (bind_transfer i f)"
  unfolding bind_transfer_def by (rule keeps_execute) (auto intro!: transfers_updated)

lemma refresh_keeps: "tables_keep I (execute (\<lambda>_ _ t. refresh_stmt i t))"
  by (rule keeps_execute) (auto simp: refresh_stmt_def intro!: files_updated split: if_splits)

lemma table_choice: "(if b then object_parts else file_parts) \<in> {file_parts, object_parts}"
  by simp

lemma confirm_keeps:
  "pt \<in> {file_parts, object_parts} \<Longrightarrow> tables_keep I (execute (confirm_stmt pt i n e c l))"
  by (rule keeps_execute)
    (auto simp: confirm_stmt_def simp del: insert_iff split: if_splits
      intro: parts_updated [OF _ part_triggers_events(2)])

lemma fail_keeps: "pt \<in> {file_parts, object_parts} \<Longrightarrow> tables_keep I (execute (fail_stmt pt i n e))"
  by (rule keeps_execute)
    (auto simp: fail_stmt_def simp del: insert_iff intro: parts_updated [OF _ part_triggers_events(2)])

lemma reset_keeps: "pt \<in> {file_parts, object_parts} \<Longrightarrow> tables_keep I (execute (reset_stmt pt i))"
  by (rule keeps_execute)
    (auto simp: reset_stmt_def simp del: insert_iff intro: parts_updated [OF _ part_triggers_events(1)])

lemma restore_keeps: "pt \<in> {file_parts, object_parts} \<Longrightarrow> tables_keep I (execute (restore_stmt pt i p))"
  by (rule keeps_execute)
    (auto simp: restore_stmt_def simp del: insert_iff split: prod.splits
      intro: parts_updated [OF _ part_triggers_events(1)])

lemma insert_part_keeps: "pt \<in> {file_parts, object_parts} \<Longrightarrow> tables_keep I (insert_part pt p)"
  unfolding insert_part_def
  by (rule keeps_execute) (auto simp del: insert_iff split: if_splits intro: parts_inserted)

lemma delete_parts_keeps: "pt \<in> {file_parts, object_parts} \<Longrightarrow> tables_keep I (delete_parts pt i)"
  unfolding delete_parts_def
  by (rule keeps_execute) (auto simp del: insert_iff intro: parts_deleted)

lemma insert_row_keeps:
  "tables_keep I (insert_file tid fr)" "tables_keep I (insert_object ob)" "tables_keep I (insert_member m)"
  unfolding insert_file_def insert_object_def insert_member_def
  by (rule keeps_execute,
      auto split: if_splits intro: files_inserted objects_inserted members_inserted)+

lemma replace_inventory_keeps: "tables_keep I (replace_inventory tid files)"
  unfolding replace_inventory_def
  by (intro keeps_intros insert_row_keeps keeps_execute)
    (auto split: if_splits intro!: files_dropped transfers_updated)

lemma replace_part_plan_keeps: "tables_keep I (replace_part_plan i ps)"
  unfolding replace_part_plan_def
  by (intro keeps_intros)
    (auto intro!: keeps_intros delete_parts_keeps insert_part_keeps refresh_keeps)

lemma replace_transport_plan_keeps: "tables_keep I (replace_transport_plan tid obs ms)"
  unfolding replace_transport_plan_def
  by (intro keeps_intros insert_row_keeps keeps_execute) (auto intro!: objects_dropped)

lemma ensure_manifest_snapshot_keeps: "tables_keep I (ensure_manifest_snapshot tid m)"
  unfolding ensure_manifest_snapshot_def manifest_snapshot_def
  by (intro keeps_intros keeps_execute)
    (auto intro!: transfers_updated keeps_intros split: option.splits)

lemma acknowledge_keeps: "tables_keep I (acknowledge_transfer_events tid ids)"
  unfolding acknowledge_transfer_events_def acknowledge_one_def
  by (intro keeps_intros keeps_execute) (auto intro: acknowledged)

lemma put_setting_keeps: "tables_keep I (put_setting k v)"
  unfolding put_setting_def by (rule keeps_execute) (auto intro: setting_put)

lemma save_registry_session_keeps: "tables_keep I (save_registry_session sr)"
  unfolding save_registry_session_def by (rule keeps_execute) (auto intro: session_put)

lemma delete_transfer_keeps: "tables_keep I (delete_transfer tid)"
  unfolding delete_transfer_def by (rule keeps_execute) (auto intro: transfer_dropped)

lemma reconcile_remote_parts_keeps: "tables_keep I (reconcile_remote_parts i ps)"
  unfolding reconcile_remote_parts_def Let_def refresh_file_progress_def
  by (intro keeps_intros reset_keeps restore_keeps table_choice)
    (auto intro!: keeps_intros refresh_keeps)

lemma confirm_part_keeps: "tables_keep I (confirm_part i n e c l)"
  unfolding confirm_part_def has_transport_object_def refresh_file_progress_def
  by (intro keeps_intros) (auto intro!: keeps_intros confirm_keeps refresh_keeps)

lemma record_part_failure_keeps: "tables_keep I (record_part_failure i n e)"
  unfolding record_part_failure_def has_transport_object_def
  by (intro keeps_intros) (auto intro!: fail_keeps)

lemma set_upload_session_keeps: "tables_keep I (set_upload_session i k u)"
  unfolding set_upload_session_def has_transport_object_def
  by (intro keeps_intros) (auto intro!: update_objects_keeps update_files_keeps)

text \<open>Every operation that neither inserts events of its own nor moves a status.\<close>

lemma run_op_keeps:
  assumes "\<And>tid kind d. oper \<noteq> RecordTransferEvent tid kind d" "\<And>tr. oper \<noteq> CreateTransfer tr"
    "\<And>tid next. oper \<noteq> Transition tid next" "\<And>tid next. oper \<noteq> ReconcileRegistryStatus tid next"
  shows "tables_keep I (run_op oper)"
  using assms
  by (cases oper)
    (auto simp: bind_registry_object_def bind_registry_transfer_def bind_transfer_registry_def
        bind_transfer_registry_session_def set_active_registry_def set_active_registry_session_def
        bind_registry_file_def mark_file_uploaded_def
      intro!: keeps_intros replace_inventory_keeps replace_part_plan_keeps
        replace_transport_plan_keeps ensure_manifest_snapshot_keeps acknowledge_keeps
        put_setting_keeps save_registry_session_keeps delete_transfer_keeps
        reconcile_remote_parts_keeps confirm_part_keeps record_part_failure_keeps
        set_upload_session_keeps update_objects_keeps update_files_keeps bind_transfer_keeps)

end

section \<open>The constraints of the schema\<close>

lemmas constraint_defs = constraints_def transfers_ok_def files_ok_def parts_ok_def objects_ok_def
  members_ok_def events_ok_def

lemma map_upsert_distinct: "distinct (map key rows) \<Longrightarrow> distinct (map key (upsert key row rows))"
proof (cases "key row \<in> key ` set rows")
  case True
  have "map key (update_where (\<lambda>r. key r = key row) (\<lambda>_. row) rows) = map key rows"
    by (auto simp: update_where_def)
  then show "distinct (map key rows) \<Longrightarrow> ?thesis" using True by (simp add: upsert_def)
qed (simp add: upsert_def)

lemma map_update_where_on:
  "(\<And>r. P r \<Longrightarrow> k (f r) = k r) \<Longrightarrow> map k (update_where P f rows) = map k rows"
  by (simp add: update_where_def)

lemma update_parts_Inr:
  "update_parts pt S k triggers fresh t = Inr (u, t') \<longleftrightarrow>
     t' = insert_events fresh 0
       (concat (map (\<lambda>r. if S r then triggers r (k r) else []) (pt_rows pt t)))
       (pt_set pt (update_where S k (pt_rows pt t)) t) \<and> constraints t'"
  by (auto simp: update_parts_def)

lemma pt_simps [simp]:
  "pt_rows file_parts t = tb_parts t" "pt_set file_parts rows t = t\<lparr>tb_parts := rows\<rparr>"
  "pt_rows object_parts t = tb_object_parts t"
  "pt_set object_parts rows t = t\<lparr>tb_object_parts := rows\<rparr>"
  by (simp_all add: file_parts_def object_parts_def)

interpretation kept_constraints: kept_predicate constraints
proof unfold_locales
  fix t :: tables and f :: "file_row \<Rightarrow> file_row" and P
  assume "constraints t"
    and f: "\<And>r. f_id (f r) = f_id r \<and> f_transfer_id (f r) = f_transfer_id r
             \<and> f_relative_path (f r) = f_relative_path r"
  then show "constraints (t\<lparr>tb_files := update_where P f (tb_files t)\<rparr>)"
    by (simp add: constraint_defs f)
next
  fix t :: tables and g :: "object_row \<Rightarrow> object_row" and P
  assume c: "constraints t"
    and g: "\<And>r. o_id (g r) = o_id r \<and> o_transfer_id (g r) = o_transfer_id r
             \<and> o_compression (g r) = o_compression r"
  have "list_all (\<lambda>r. o_compression r = ''none'' \<or> o_compression r = ''zstd'')
          (update_where P g (tb_objects t))
      \<longleftrightarrow> list_all (\<lambda>r. o_compression r = ''none'' \<or> o_compression r = ''zstd'') (tb_objects t)"
    by (simp add: update_where_def list.pred_map comp_def g if_distrib [of o_compression])
  then show "constraints (t\<lparr>tb_objects := update_where P g (tb_objects t)\<rparr>)"
    using c by (simp add: constraint_defs g)
next
  fix t :: tables and h :: "transfer_row \<Rightarrow> transfer_row" and Q
  assume c: "constraints t"
    and h: "\<And>r. Q r \<Longrightarrow> t_id (h r) = t_id r \<and> t_status (h r) = t_status r
             \<and> (tr_manifest_json r \<noteq> None \<longrightarrow> tr_manifest_json (h r) = tr_manifest_json r)"
  have "map t_id (update_where Q h (tb_transfers t)) = map t_id (tb_transfers t)"
    by (rule map_update_where_on) (simp add: h)
  moreover from this have "t_id ` set (update_where Q h (tb_transfers t)) = t_id ` set (tb_transfers t)"
    by (metis set_map)
  ultimately show "constraints (t\<lparr>tb_transfers := update_where Q h (tb_transfers t)\<rparr>)"
    using c by (simp add: constraint_defs)
next
  fix t :: tables and X now
  assume "constraints t"
  then show "constraints (t\<lparr>tb_events := update_where X (\<lambda>r. r\<lparr>ev_synced_at := Some now\<rparr>) (tb_events t)\<rparr>)"
    by (simp add: constraint_defs)
next
  fix t pt R
  assume "constraints t" "pt \<in> {file_parts, object_parts}"
  then show "constraints (pt_set pt (filter R (pt_rows pt t)) t)"
    by (elim insertE emptyE)
      (simp_all add: constraint_defs distinct_map_filter image_filter_subset del: set_filter)
next
  fix t :: tables and sg
  assume "constraints t"
  then show "constraints (t\<lparr>tb_settings := upsert sg_key sg (tb_settings t)\<rparr>)"
    by (simp add: constraint_defs map_upsert_distinct)
next
  fix t :: tables and sr
  assume "constraints t"
  then show "constraints (t\<lparr>tb_sessions := upsert rs_session_id sr (tb_sessions t)\<rparr>)"
    by (simp add: constraint_defs map_upsert_distinct)
next
  fix t pt S k triggers fresh and u :: unit and t'
  assume "update_parts pt S k triggers fresh t = Inr (u, t')"
  then show "constraints t'" unfolding update_parts_Inr by (rule conjunct2)
qed (assumption | erule drop_files_constraints drop_objects_constraints drop_transfer_constraints)+

lemma transition_constraints: "tables_keep constraints (transition tid next)"
  unfolding transition_def get_transfer_def
  by (auto intro!: keeps_intros keeps_execute simp: update_transfers_def split: option.splits)

lemma reconcile_status_constraints: "tables_keep constraints (reconcile_registry_status tid remote)"
  unfolding reconcile_registry_status_def get_transfer_def
  by (auto intro!: keeps_intros keeps_execute simp: update_transfers_def split: option.splits)

lemma run_op_constraints: "tables_keep constraints (run_op oper)"
proof (cases oper)
  case (RecordTransferEvent tid kind d)
  then show ?thesis by (auto simp: record_transfer_event_def intro!: keeps_execute)
next
  case (CreateTransfer tr)
  then show ?thesis by (auto simp: create_transfer_def Let_def intro!: keeps_execute split: if_splits)
next
  case (Transition tid nxt)
  then show ?thesis by (simp add: transition_constraints)
next
  case (ReconcileRegistryStatus tid remote)
  then show ?thesis by (simp add: reconcile_status_constraints)
qed (rule kept_constraints.run_op_keeps; simp)+

section \<open>How a status and a manifest snapshot change\<close>

definition status_is :: "uuid \<Rightarrow> TransferStatus \<Rightarrow> tables \<Rightarrow> bool" where
  "status_is tid st t \<longleftrightarrow> (\<forall>r \<in> set (tb_transfers t). t_id r = tid \<longrightarrow> t_status r = st)"

definition manifest_is :: "uuid \<Rightarrow> string \<Rightarrow> tables \<Rightarrow> bool" where
  "manifest_is tid m t \<longleftrightarrow>
     (\<forall>r \<in> set (tb_transfers t). t_id r = tid \<longrightarrow> tr_manifest_json r = Some m)"

text \<open>A registry response may also take a transfer straight from finalizing to complete.\<close>

definition status_edge :: "TransferStatus \<Rightarrow> TransferStatus \<Rightarrow> bool" where
  "status_edge a b \<longleftrightarrow>
     can_transition_to a b \<or> (a = TransferStatus.Finalizing \<and> b = TransferStatus.Complete)"

lemma set_update_where: "x \<in> set (update_where P f rows) \<Longrightarrow> \<exists>r \<in> set rows. x = (if P r then f r else r)"
  by (auto simp: update_where_def)

lemma drop_transfers_table [simp]:
  "tb_transfers (drop_files V t) = tb_transfers t"
  "tb_transfers (drop_objects W t) = tb_transfers t"
  "tb_events (drop_files V t) = tb_events t"
  "tb_events (drop_objects W t) = tb_events t"
  "tb_transfers (drop_transfer tid t) = filter (\<lambda>r. t_id r \<noteq> tid) (tb_transfers t)"
  "tb_events (drop_transfer tid t) = filter (\<lambda>e. ev_transfer_id e \<noteq> tid) (tb_events t)"
  "tb_sequence (drop_files V t) = tb_sequence t"
  "tb_sequence (drop_objects W t) = tb_sequence t"
  "tb_sequence (drop_transfer tid t) = tb_sequence t"
  by (simp_all add: drop_files_def drop_objects_def drop_transfer_def Let_def)

interpretation status_kept: kept_predicate "status_is tid st" for tid st
proof unfold_locales
  fix t :: tables and h :: "transfer_row \<Rightarrow> transfer_row" and Q
  assume "status_is tid st t"
    and "\<And>r. Q r \<Longrightarrow> t_id (h r) = t_id r \<and> t_status (h r) = t_status r
             \<and> (tr_manifest_json r \<noteq> None \<longrightarrow> tr_manifest_json (h r) = tr_manifest_json r)"
  then show "status_is tid st (t\<lparr>tb_transfers := update_where Q h (tb_transfers t)\<rparr>)"
    by (auto simp: status_is_def dest!: set_update_where)
next
  fix t pt S k triggers fresh and u :: unit and t'
  assume "status_is tid st t" "pt \<in> {file_parts, object_parts}"
    "update_parts pt S k triggers fresh t = Inr (u, t')"
  then show "status_is tid st t'" by (elim insertE emptyE) (auto simp: status_is_def update_parts_Inr)
next
  fix t pt ps assume "status_is tid st t" "pt \<in> {file_parts, object_parts}"
  then show "status_is tid st (pt_set pt ps t)" by (elim insertE emptyE) (auto simp: status_is_def)
next
  fix t pt R assume "status_is tid st t" "pt \<in> {file_parts, object_parts}"
  then show "status_is tid st (pt_set pt (filter R (pt_rows pt t)) t)"
    by (elim insertE emptyE) (auto simp: status_is_def)
qed (simp_all add: status_is_def)

interpretation manifest_kept: kept_predicate "manifest_is tid m" for tid m
proof unfold_locales
  fix t :: tables and h :: "transfer_row \<Rightarrow> transfer_row" and Q
  assume "manifest_is tid m t"
    and "\<And>r. Q r \<Longrightarrow> t_id (h r) = t_id r \<and> t_status (h r) = t_status r
             \<and> (tr_manifest_json r \<noteq> None \<longrightarrow> tr_manifest_json (h r) = tr_manifest_json r)"
  then show "manifest_is tid m (t\<lparr>tb_transfers := update_where Q h (tb_transfers t)\<rparr>)"
    by (fastforce simp: manifest_is_def dest!: set_update_where)
next
  fix t pt S k triggers fresh and u :: unit and t'
  assume "manifest_is tid m t" "pt \<in> {file_parts, object_parts}"
    "update_parts pt S k triggers fresh t = Inr (u, t')"
  then show "manifest_is tid m t'" by (elim insertE emptyE) (auto simp: manifest_is_def update_parts_Inr)
next
  fix t pt ps assume "manifest_is tid m t" "pt \<in> {file_parts, object_parts}"
  then show "manifest_is tid m (pt_set pt ps t)" by (elim insertE emptyE) (auto simp: manifest_is_def)
next
  fix t pt R assume "manifest_is tid m t" "pt \<in> {file_parts, object_parts}"
  then show "manifest_is tid m (pt_set pt (filter R (pt_rows pt t)) t)"
    by (elim insertE emptyE) (auto simp: manifest_is_def)
qed (simp_all add: manifest_is_def)

lemma transfer_by_id_Some:
  "constraints t \<Longrightarrow> transfer_by_id t tid = Some r \<longleftrightarrow> r \<in> set (tb_transfers t) \<and> t_id r = tid"
  unfolding transfer_by_id_def by (rule find_key_Some) (simp add: constraint_defs)

lemma transfer_by_id_unique:
  "constraints t \<Longrightarrow> transfer_by_id t tid = Some r \<Longrightarrow> x \<in> set (tb_transfers t) \<Longrightarrow> t_id x = tid \<Longrightarrow> x = r"
  by (metis transfer_by_id_Some option.inject)

text \<open>The exact effect of the two operations that move a status.\<close>

lemma update_transfers_Inr:
  "update_transfers P f fresh t = Inr (u, t') \<longleftrightarrow>
     t' = insert_events fresh 0
        (concat (map (\<lambda>r. if P r then transition_event r (f r) else []) (tb_transfers t)))
        (t\<lparr>tb_transfers := update_where P f (tb_transfers t)\<rparr>) \<and> constraints t'"
  by (auto simp: update_transfers_def)

lemma transition_cases:
  assumes "transition tid nxt s = (res, s')"
  obtains (unchanged) e where "res = Inl e" "st_tables s' = st_tables s"
  | (moved) r now fresh where "res = Inr ()" "transfer_by_id (st_tables s) tid = Some r"
      "can_transition_to (t_status r) nxt"
      "update_transfers (\<lambda>r. t_id r = tid) (\<lambda>r. r\<lparr>t_status := nxt, t_updated_at := now\<rparr>) fresh
         (st_tables s) = Inr ((), st_tables s')"
proof (cases res)
  case (Inl e)
  then have "st_tables s' = st_tables s"
    using assms
    by (auto simp: transition_def get_transfer_def comp_simps split: option.splits if_splits)
  with Inl show thesis by (rule unchanged)
next
  case (Inr u)
  then show thesis
    using assms moved
    by (fastforce simp: transition_def get_transfer_def comp_simps Transfer.truncate_def
        split: option.splits if_splits)
qed

lemma reconcile_registry_status_cases:
  assumes "reconcile_registry_status tid remote s = (res, s')"
  obtains (unchanged) "st_tables s' = st_tables s"
  | (moved) r now fresh where "res = Inr ()" "transfer_by_id (st_tables s) tid = Some r"
      "\<not> is_terminal (t_status r)" "t_status r \<noteq> remote" "t_status r \<in> set (allowed_current remote)"
      "update_transfers (\<lambda>r. t_id r = tid \<and> t_status r \<in> set (allowed_current remote))
         (\<lambda>r. r\<lparr>t_status := remote, t_updated_at := now\<rparr>) fresh
         (st_tables s) = Inr ((), st_tables s')"
proof (cases res)
  case (Inl e)
  then have "st_tables s' = st_tables s"
    using assms
    by (auto simp: reconcile_registry_status_def get_transfer_def comp_simps
        split: option.splits if_splits)
  then show thesis by (rule unchanged)
next
  case (Inr u)
  then show thesis
    using assms moved unchanged
    by (fastforce simp: reconcile_registry_status_def get_transfer_def comp_simps
        Transfer.truncate_def split: option.splits if_splits)
qed

lemma allowed_current_edge: "a \<in> set (allowed_current b) \<Longrightarrow> status_edge a b"
  by (cases b) (auto simp: allowed_current_def status_edge_def can_transition_to_def)

lemma transfer_by_id_id: "transfer_by_id t tid = Some r \<Longrightarrow> t_id r = tid"
  by (auto simp: transfer_by_id_def find_Some_iff)

lemma update_transfers_moves:
  assumes "update_transfers P (\<lambda>r. r\<lparr>t_status := st, t_updated_at := now\<rparr>) fresh t = Inr ((), t')"
    and "transfer_by_id t tid = Some r"
  shows "transfer_by_id t' tid = Some (if P r then r\<lparr>t_status := st, t_updated_at := now\<rparr> else r)"
proof -
  have "tb_transfers t' = update_where P (\<lambda>r. r\<lparr>t_status := st, t_updated_at := now\<rparr>) (tb_transfers t)"
    using assms(1) by (simp add: update_transfers_Inr)
  then show ?thesis using assms(2) by (simp add: transfer_by_id_def find_update_where)
qed

lemma create_transfer_tables:
  assumes "constraints (st_tables s)" and "create_transfer tr s = (res, s')"
    and "transfer_by_id (st_tables s) tid = Some r"
  shows "transfer_by_id (st_tables s') tid = Some r"
proof (cases res)
  case (Inl e)
  then show ?thesis using assms by (auto simp: create_transfer_def comp_simps)
next
  case (Inr u)
  then have "tb_transfers (st_tables s') = tb_transfers (st_tables s) @ [transfer_row_of tr]"
    using assms(2) by (auto simp: create_transfer_def comp_simps Let_def split: if_splits)
  then show ?thesis using assms(3) by (simp add: transfer_by_id_def find_Some_iff nth_append) blast
qed

lemma record_event_tables:
  "record_transfer_event i kind d s = (res, s') \<Longrightarrow> tb_transfers (st_tables s') = tb_transfers (st_tables s)"
  by (cases res) (auto simp: record_transfer_event_def comp_simps)

text \<open>
  Only two operations move a status, and only to the status they were called with: a transition along
  an edge of the state machine, and the reconciliation with what the Registry reports.
\<close>

definition registry_edge :: "TransferStatus \<Rightarrow> TransferStatus \<Rightarrow> bool" where
  "registry_edge a b \<longleftrightarrow>
     a = TransferStatus.Finalizing \<and> b \<in> {TransferStatus.Verifying, TransferStatus.Complete, TransferStatus.Failed}
     \<or> a = TransferStatus.Verifying \<and> b \<in> {TransferStatus.Complete, TransferStatus.Failed}"

lemma allowed_current_registry: "a \<in> set (allowed_current b) \<longleftrightarrow> registry_edge a b"
  by (cases b) (auto simp: allowed_current_def registry_edge_def)

theorem status_move:
  assumes c: "constraints (st_tables s)" and run: "run_op oper s = (res, s')"
    and r: "transfer_by_id (st_tables s) tid = Some r"
    and r': "transfer_by_id (st_tables s') tid = Some r'"
  shows "t_status r' = t_status r
    \<or> res = Inr () \<and> (oper = Transition tid (t_status r') \<and> can_transition_to (t_status r) (t_status r')
        \<or> oper = ReconcileRegistryStatus tid (t_status r') \<and> registry_edge (t_status r) (t_status r'))"
proof (cases oper)
  case (RecordTransferEvent i kind d)
  then show ?thesis using run r r' record_event_tables by (simp add: transfer_by_id_def)
next
  case (CreateTransfer tr)
  then show ?thesis using create_transfer_tables [OF c _ r] run r' by simp
next
  case (Transition i nxt)
  then have "transition i nxt s = (res, s')" using run by simp
  then show ?thesis
  proof (cases rule: transition_cases)
    case unchanged
    then show ?thesis using r r' by simp
  next
    case (moved x now fresh)
    then show ?thesis
      using update_transfers_moves [OF moved(4) r] r r' moved(1-3) transfer_by_id_id [OF r] Transition
      by (auto split: if_splits)
  qed
next
  case (ReconcileRegistryStatus i remote)
  then have "reconcile_registry_status i remote s = (res, s')" using run by simp
  then show ?thesis
  proof (cases rule: reconcile_registry_status_cases)
    case unchanged
    then show ?thesis using r r' by simp
  next
    case (moved x now fresh)
    then show ?thesis
      using update_transfers_moves [OF moved(6) r] r' moved(1) transfer_by_id_id [OF r] ReconcileRegistryStatus
      by (auto simp: allowed_current_registry split: if_splits)
  qed
qed (use keepsD [OF status_kept.run_op_keeps [of oper tid "t_status r"] _ run] r r'
       transfer_by_id_unique [OF c r] transfer_by_id_Some
       keepsD [OF run_op_constraints c run] in \<open>auto simp: status_is_def\<close>)

lemma status_change:
  assumes "constraints (st_tables s)" and "run_op oper s = (res, s')"
    and "transfer_by_id (st_tables s) tid = Some r" and "transfer_by_id (st_tables s') tid = Some r'"
  shows "t_status r' = t_status r \<or> status_edge (t_status r) (t_status r')"
  using status_move [OF assms] allowed_current_edge
  by (auto simp: status_edge_def simp flip: allowed_current_registry)

theorem manifest_change:
  assumes c: "constraints (st_tables s)" and run: "run_op oper s = (res, s')"
    and r: "transfer_by_id (st_tables s) tid = Some r" and m: "tr_manifest_json r = Some m"
    and r': "transfer_by_id (st_tables s') tid = Some r'"
  shows "tr_manifest_json r' = Some m"
proof (cases oper)
  case (RecordTransferEvent i kind d)
  then show ?thesis using run r r' m record_event_tables by (simp add: transfer_by_id_def)
next
  case (CreateTransfer tr)
  then show ?thesis using create_transfer_tables [OF c _ r] run r' m by simp
next
  case (Transition i nxt)
  then have "transition i nxt s = (res, s')" using run by simp
  then show ?thesis
  proof (cases rule: transition_cases)
    case unchanged
    then show ?thesis using r r' m by simp
  next
    case (moved x now fresh)
    then show ?thesis using update_transfers_moves [OF moved(4) r] r' m by (auto split: if_splits)
  qed
next
  case (ReconcileRegistryStatus i remote)
  then have "reconcile_registry_status i remote s = (res, s')" using run by simp
  then show ?thesis
  proof (cases rule: reconcile_registry_status_cases)
    case unchanged
    then show ?thesis using r r' m by simp
  next
    case (moved x now fresh)
    then show ?thesis using update_transfers_moves [OF moved(6) r] r' m by (auto split: if_splits)
  qed
qed (use keepsD [OF manifest_kept.run_op_keeps [of oper tid m] _ run] r r' m
       transfer_by_id_unique [OF c r] transfer_by_id_Some
       keepsD [OF run_op_constraints c run] in \<open>auto simp: manifest_is_def\<close>)

section \<open>The outbox replays to the status\<close>

definition payload :: "event_row \<Rightarrow> new_event" where
  "payload e = (ev_transfer_id e, ev_occurred_at e, ev_kind e, ev_details e)"

text \<open>
  A reader of the outbox follows the state events of one transfer: the status it holds is the one it
  is created with, and each change starts from the status before.
\<close>

definition replay_step :: "uuid \<Rightarrow> TransferStatus option \<Rightarrow> new_event \<Rightarrow> TransferStatus option" where
  "replay_step tid current ev =
     (case ev of (i, at, kind, d) \<Rightarrow>
       if i \<noteq> tid then current
       else if kind = ''state.created'' then d_state d
       else if kind = ''state.changed'' then
         (if current \<noteq> None \<and> current = d_from_state d then d_state d else None)
       else current)"

definition replay :: "uuid \<Rightarrow> new_event list \<Rightarrow> TransferStatus option" where
  "replay tid evs = foldl (replay_step tid) None evs"

definition state_kinds :: "string set" where
  "state_kinds = {''state.created'', ''state.changed''}"

definition in_sequence :: "tables \<Rightarrow> bool" where
  "in_sequence t \<longleftrightarrow>
     sorted_wrt (<) (map ev_sequence (tb_events t))
     \<and> (\<forall>e \<in> set (tb_events t). ev_sequence e \<le> tb_sequence t)"

definition outbox_ok :: "tables \<Rightarrow> bool" where
  "outbox_ok t \<longleftrightarrow>
     constraints t \<and> in_sequence t
     \<and> (\<forall>r \<in> set (tb_transfers t).
          replay (t_id r) (map payload (tb_events t)) = Some (t_status r))"

lemma insert_event_events:
  "tb_events (insert_event i ev t) = tb_events t @
     [\<lparr>ev_sequence = Suc (tb_sequence t), ev_id = i, ev_transfer_id = fst ev,
       ev_occurred_at = fst (snd ev), ev_kind = fst (snd (snd ev)), ev_details = snd (snd (snd ev)),
       ev_synced_at = None\<rparr>]"
  "tb_sequence (insert_event i ev t) = Suc (tb_sequence t)"
  by (cases ev; simp add: insert_event_def)+

lemma payload_insert_events:
  "map payload (tb_events (insert_events fresh k evs t)) = map payload (tb_events t) @ evs"
  by (induction evs arbitrary: k t) (simp_all add: insert_event_events payload_def)

lemma in_sequence_insert_event: "in_sequence t \<Longrightarrow> in_sequence (insert_event i ev t)"
  by (auto simp: in_sequence_def insert_event_events sorted_wrt_append less_Suc_eq_le)

lemma in_sequence_insert_events: "in_sequence t \<Longrightarrow> in_sequence (insert_events fresh k evs t)"
  by (induction evs arbitrary: k t) (simp_all add: in_sequence_insert_event)

lemma in_sequence_cong:
  "tb_events t' = tb_events t \<Longrightarrow> tb_sequence t' = tb_sequence t \<Longrightarrow> in_sequence t' = in_sequence t"
  by (simp add: in_sequence_def)

lemma in_sequence_filter:
  "in_sequence t \<Longrightarrow> tb_events t' = filter P (tb_events t) \<Longrightarrow> tb_sequence t' = tb_sequence t
     \<Longrightarrow> in_sequence t'"
  by (auto simp: in_sequence_def sorted_wrt_map intro: sorted_wrt_filter)

lemma replay_skip:
  "(\<And>ev. ev \<in> set evs \<Longrightarrow> fst ev \<noteq> tid \<or> fst (snd (snd ev)) \<notin> state_kinds)
     \<Longrightarrow> foldl (replay_step tid) cur evs = cur"
proof (induction evs)
  case Nil
  then show ?case by simp
next
  case (Cons ev evs)
  have "replay_step tid cur ev = cur"
    using Cons.prems [of ev] by (cases ev) (auto simp: replay_step_def state_kinds_def)
  then show ?case using Cons by simp
qed

lemma replay_filter: "replay tid (filter (\<lambda>ev. fst ev \<noteq> i) evs) = replay tid evs" if "i \<noteq> tid"
proof -
  have "foldl (replay_step tid) cur (filter (\<lambda>ev. fst ev \<noteq> i) evs) = foldl (replay_step tid) cur evs" for cur
    using that by (induction evs arbitrary: cur) (auto simp: replay_step_def split: prod.splits)
  then show ?thesis by (simp add: replay_def)
qed

lemma replay_rows:
  assumes "distinct (map t_id rows)" and "\<And>r ev. ev \<in> set (g r) \<Longrightarrow> fst ev = t_id r"
    and "x \<in> set rows"
  shows "foldl (replay_step (t_id x)) cur (concat (map g rows)) = foldl (replay_step (t_id x)) cur (g x)"
  using assms(1,3)
proof (induction rows arbitrary: cur)
  case Nil
  then show ?case by simp
next
  case (Cons y rows)
  show ?case
  proof (cases "y = x")
    case True
    then have "t_id x \<notin> t_id ` set rows" using Cons.prems by simp
    then have "foldl (replay_step (t_id x)) cur' (concat (map g rows)) = cur'" for cur'
      by (intro replay_skip) (auto dest: assms(2))
    then show ?thesis using True by simp
  next
    case False
    then have "x \<in> set rows" "t_id y \<noteq> t_id x" using Cons.prems by auto
    moreover from this have "foldl (replay_step (t_id x)) cur (g y) = cur"
      by (intro replay_skip) (auto dest: assms(2))
    ultimately show ?thesis using Cons by simp
  qed
qed

lemma transition_event_id: "ev \<in> set (transition_event r r') \<Longrightarrow> fst ev = t_id r'"
  by (auto simp: transition_event_def split: if_splits)

lemma replay_transition:
  "foldl (replay_step (t_id r')) (Some (t_status r)) (transition_event r r') = Some (t_status r')"
  by (simp add: transition_event_def replay_step_def default_details_def)

lemma outbox_update_transfers:
  assumes ok: "outbox_ok t" and f: "\<And>r. t_id (f r) = t_id r"
    and run: "update_transfers P f fresh t = Inr (u, t')"
  shows "outbox_ok t'"
proof -
  define evs where "evs = concat (map (\<lambda>r. if P r then transition_event r (f r) else []) (tb_transfers t))"
  have t': "t' = insert_events fresh 0 evs (t\<lparr>tb_transfers := update_where P f (tb_transfers t)\<rparr>)"
    and c: "constraints t'"
    using run unfolding update_transfers_Inr evs_def by (rule conjunct1, rule conjunct2)
  have "replay (t_id r') (map payload (tb_events t')) = Some (t_status r')"
    if r': "r' \<in> set (tb_transfers t')" for r'
  proof -
    obtain r where r: "r \<in> set (tb_transfers t)" "r' = (if P r then f r else r)"
      using r' by (auto simp: t' dest: set_update_where)
    have tid: "t_id r' = t_id r" using r f by simp
    have "foldl (replay_step (t_id r)) (Some (t_status r)) evs
        = foldl (replay_step (t_id r)) (Some (t_status r)) (if P r then transition_event r (f r) else [])"
      unfolding evs_def
      by (rule replay_rows)
        (use ok r(1) f in \<open>auto simp: outbox_ok_def constraint_defs dest!: transition_event_id split: if_splits\<close>)
    also have "\<dots> = Some (t_status r')"
      using replay_transition [of "f r" r] r(2) f by simp
    finally show ?thesis
      using ok r(1) unfolding t' tid payload_insert_events
      by (simp add: replay_def outbox_ok_def)
  qed
  moreover have "in_sequence t'"
    unfolding t' using ok
    by (intro in_sequence_insert_events) (simp add: outbox_ok_def in_sequence_def)
  ultimately show ?thesis using c by (simp add: outbox_ok_def)
qed

text \<open>An operation on other tables keeps the agreement: events, sequence and statuses stay.\<close>

lemma outbox_cong:
  assumes "outbox_ok t" and "constraints t'"
    and "map payload (tb_events t') = map payload (tb_events t)"
    and "in_sequence t'"
    and "\<And>r'. r' \<in> set (tb_transfers t') \<Longrightarrow>
           \<exists>r \<in> set (tb_transfers t). t_id r' = t_id r \<and> t_status r' = t_status r"
  shows "outbox_ok t'"
  using assms unfolding outbox_ok_def by metis

lemma outbox_same:
  assumes "outbox_ok t" and "constraints t'"
    and "tb_events t' = tb_events t" "tb_sequence t' = tb_sequence t" "tb_transfers t' = tb_transfers t"
  shows "outbox_ok t'"
  using assms by (auto simp: outbox_ok_def in_sequence_def)

lemma constraints_of: "outbox_ok t \<Longrightarrow> constraints t"
  by (simp add: outbox_ok_def)

lemma outbox_parts_updated:
  assumes "outbox_ok t" "part_triggers triggers" "pt \<in> {file_parts, object_parts}"
    and run: "update_parts pt S k triggers fresh t = Inr (u, t')"
  shows "outbox_ok t'"
proof -
  define evs where "evs = concat (map (\<lambda>r. if S r then triggers r (k r) else []) (pt_rows pt t))"
  define t1 where "t1 = pt_set pt (update_where S k (pt_rows pt t)) t"
  have t': "t' = insert_events fresh 0 evs t1" and c: "constraints t'"
    using run unfolding update_parts_Inr evs_def t1_def by (rule conjunct1, rule conjunct2)
  have same: "tb_events t1 = tb_events t" "tb_sequence t1 = tb_sequence t"
    "tb_transfers t1 = tb_transfers t"
    using assms(3) by (auto simp: t1_def)
  have "foldl (replay_step tid) cur evs = cur" for tid cur
    by (rule replay_skip) (use assms(2) in \<open>fastforce simp: evs_def part_triggers_def state_kinds_def split: if_splits\<close>)
  moreover have "in_sequence t'"
    unfolding t' by (rule in_sequence_insert_events)
      (use assms(1) same in \<open>simp add: outbox_ok_def in_sequence_def\<close>)
  ultimately show ?thesis
    using assms(1) c unfolding outbox_ok_def t' payload_insert_events
    by (simp add: same replay_def)
qed

lemma outbox_transfer_dropped: "outbox_ok t \<Longrightarrow> outbox_ok (drop_transfer tid t)"
proof -
  assume ok: "outbox_ok t"
  have "map payload (filter (\<lambda>e. ev_transfer_id e \<noteq> tid) (tb_events t))
      = filter (\<lambda>ev. fst ev \<noteq> tid) (map payload (tb_events t))"
    by (simp add: filter_map comp_def payload_def)
  then have "replay (t_id r) (map payload (tb_events (drop_transfer tid t))) = Some (t_status r)"
    if "r \<in> set (tb_transfers (drop_transfer tid t))" for r
    using that ok replay_filter [of tid "t_id r"] by (auto simp: outbox_ok_def)
  moreover have "in_sequence (drop_transfer tid t)"
    using ok by (auto simp: outbox_ok_def intro: in_sequence_filter)
  ultimately show ?thesis
    using ok by (simp add: outbox_ok_def drop_transfer_constraints)
qed

lemma map_payload_synced:
  "map payload (update_where X (\<lambda>r. r\<lparr>ev_synced_at := Some now\<rparr>) rows) = map payload rows"
  by (rule map_update_where) (simp add: payload_def)

interpretation outbox_kept: kept_predicate outbox_ok
proof unfold_locales
  fix t :: tables and f :: "file_row \<Rightarrow> file_row" and P
  assume "outbox_ok t" and "\<And>r. f_id (f r) = f_id r \<and> f_transfer_id (f r) = f_transfer_id r
             \<and> f_relative_path (f r) = f_relative_path r"
  then show "outbox_ok (t\<lparr>tb_files := update_where P f (tb_files t)\<rparr>)"
    by - (rule outbox_same [OF _ kept_constraints.files_updated [OF constraints_of]], (assumption | simp)+)
next
  fix t :: tables and g :: "object_row \<Rightarrow> object_row" and P
  assume "outbox_ok t" and "\<And>r. o_id (g r) = o_id r \<and> o_transfer_id (g r) = o_transfer_id r
             \<and> o_compression (g r) = o_compression r"
  then show "outbox_ok (t\<lparr>tb_objects := update_where P g (tb_objects t)\<rparr>)"
    by - (rule outbox_same [OF _ kept_constraints.objects_updated [OF constraints_of]], (assumption | simp)+)
next
  fix t :: tables and h :: "transfer_row \<Rightarrow> transfer_row" and Q
  assume ok: "outbox_ok t" and h: "\<And>r. Q r \<Longrightarrow> t_id (h r) = t_id r \<and> t_status (h r) = t_status r
             \<and> (tr_manifest_json r \<noteq> None \<longrightarrow> tr_manifest_json (h r) = tr_manifest_json r)"
  show "outbox_ok (t\<lparr>tb_transfers := update_where Q h (tb_transfers t)\<rparr>)"
  proof (rule outbox_cong [OF ok])
    show "constraints (t\<lparr>tb_transfers := update_where Q h (tb_transfers t)\<rparr>)"
      using constraints_of [OF ok] h by (rule kept_constraints.transfers_updated)
    show "in_sequence (t\<lparr>tb_transfers := update_where Q h (tb_transfers t)\<rparr>)"
      using ok by (simp add: outbox_ok_def in_sequence_def)
  qed (auto dest!: set_update_where simp: h)
next
  fix t :: tables and X now
  assume ok: "outbox_ok t"
  show "outbox_ok (t\<lparr>tb_events := update_where X (\<lambda>r. r\<lparr>ev_synced_at := Some now\<rparr>) (tb_events t)\<rparr>)"
  proof (rule outbox_cong [OF ok])
    show "constraints (t\<lparr>tb_events := update_where X (\<lambda>r. r\<lparr>ev_synced_at := Some now\<rparr>) (tb_events t)\<rparr>)"
      using constraints_of [OF ok] by (rule kept_constraints.acknowledged)
    show "in_sequence (t\<lparr>tb_events := update_where X (\<lambda>r. r\<lparr>ev_synced_at := Some now\<rparr>) (tb_events t)\<rparr>)"
      using ok unfolding outbox_ok_def in_sequence_def by (auto dest: set_update_where)
  qed (auto simp: map_payload_synced)
next
  fix t pt S k triggers fresh and u :: unit and t'
  assume "outbox_ok t" "part_triggers triggers" "pt \<in> {file_parts, object_parts}"
    "update_parts pt S k triggers fresh t = Inr (u, t')"
  then show "outbox_ok t'" by (rule outbox_parts_updated)
next
  fix t pt R assume "outbox_ok t" and pt: "pt \<in> {file_parts, object_parts}"
  then show "outbox_ok (pt_set pt (filter R (pt_rows pt t)) t)"
    by - (rule outbox_same [OF _ kept_constraints.parts_deleted [OF constraints_of]], (assumption | simp)+, use pt in auto)
next
  fix t pt ps assume ok: "outbox_ok t" and c: "constraints (pt_set pt ps t)"
    and pt: "pt \<in> {file_parts, object_parts}"
  show "outbox_ok (pt_set pt ps t)" by (rule outbox_same [OF ok c]) (use pt in auto)
next
  fix t V assume "outbox_ok t"
  then show "outbox_ok (drop_files V t)"
    by - (rule outbox_same [OF _ drop_files_constraints [OF constraints_of]], (assumption | simp)+)
next
  fix t W assume "outbox_ok t"
  then show "outbox_ok (drop_objects W t)"
    by - (rule outbox_same [OF _ drop_objects_constraints [OF constraints_of]], (assumption | simp)+)
next
  fix t tid assume "outbox_ok t"
  then show "outbox_ok (drop_transfer tid t)" by (rule outbox_transfer_dropped)
next
  fix t sg assume "outbox_ok t"
  then show "outbox_ok (t\<lparr>tb_settings := upsert sg_key sg (tb_settings t)\<rparr>)"
    by - (rule outbox_same [OF _ kept_constraints.setting_put [OF constraints_of]], (assumption | simp)+)
next
  fix t sr assume "outbox_ok t"
  then show "outbox_ok (t\<lparr>tb_sessions := upsert rs_session_id sr (tb_sessions t)\<rparr>)"
    by - (rule outbox_same [OF _ kept_constraints.session_put [OF constraints_of]], (assumption | simp)+)
next
  fix t :: tables and files assume "outbox_ok t" "constraints (t\<lparr>tb_files := files\<rparr>)"
  then show "outbox_ok (t\<lparr>tb_files := files\<rparr>)" by (rule outbox_same) simp_all
next
  fix t :: tables and obs assume "outbox_ok t" "constraints (t\<lparr>tb_objects := obs\<rparr>)"
  then show "outbox_ok (t\<lparr>tb_objects := obs\<rparr>)" by (rule outbox_same) simp_all
next
  fix t :: tables and ms assume "outbox_ok t" "constraints (t\<lparr>tb_members := ms\<rparr>)"
  then show "outbox_ok (t\<lparr>tb_members := ms\<rparr>)" by (rule outbox_same) simp_all
qed

text \<open>The events a caller adds of its own are not state events.\<close>

fun plain_event :: "op \<Rightarrow> bool" where
  "plain_event (RecordTransferEvent tid kind d) = (kind \<notin> state_kinds)"
| "plain_event _ = True"

lemma outbox_record_event:
  assumes "kind \<notin> state_kinds" shows "tables_keep outbox_ok (record_transfer_event tid kind d)"
  unfolding record_transfer_event_def
proof (rule keeps_execute)
  fix now fresh t x t'
  assume ok: "outbox_ok t" and "checked () (insert_event (fresh (0::nat)) (tid, now, kind, d) t) = Inr (x, t')"
  then have t': "t' = insert_events fresh 0 [(tid, now, kind, d)] t" and c: "constraints t'" by simp_all
  have "foldl (replay_step i) cur [(tid, now, kind, d)] = cur" for i cur
    by (rule replay_skip) (use assms in auto)
  then show "outbox_ok t'"
    using ok c in_sequence_insert_events [of t fresh 0 "[(tid, now, kind, d)]"]
    unfolding outbox_ok_def t' payload_insert_events by (simp add: replay_def)
qed

lemma outbox_create: "tables_keep outbox_ok (create_transfer tr)"
  unfolding create_transfer_def
proof (rule keeps_execute)
  fix now fresh t x t'
  assume ok: "outbox_ok t" and run: "(if \<not> (fits_sql (t_file_count tr) \<and> fits_sql (t_original_bytes tr))
       then Inl ToSqlConversionFailure
       else let row = transfer_row_of tr in
         checked () (insert_event (fresh (0::nat)) (created_event row)
           (t\<lparr>tb_transfers := tb_transfers t @ [row]\<rparr>))) = Inr (x, t')"
  let ?row = "transfer_row_of tr"
  have t': "t' = insert_events fresh 0 [created_event ?row] (t\<lparr>tb_transfers := tb_transfers t @ [?row]\<rparr>)"
    and c: "constraints t'" using run by (simp_all add: Let_def split: if_split_asm)
  have new: "t_id ?row \<notin> t_id ` set (tb_transfers t)" using c by (simp add: t' constraint_defs)
  have "replay (t_id r) (map payload (tb_events t) @ [created_event ?row]) = Some (t_status r)"
    if "r \<in> set (tb_transfers t)" for r
    using ok that new
    by (auto simp: replay_def outbox_ok_def created_event_def replay_step_def)
  moreover have "ev_transfer_id ` set (tb_events t) \<subseteq> t_id ` set (tb_transfers t)"
    using ok by (simp add: outbox_ok_def constraint_defs)
  then have "foldl (replay_step (t_id ?row)) None (map payload (tb_events t)) = None"
    by (intro replay_skip) (use new in \<open>fastforce simp: payload_def\<close>)
  then have "replay (t_id ?row) (map payload (tb_events t) @ [created_event ?row]) = Some (t_status ?row)"
    by (simp add: replay_def created_event_def replay_step_def)
  moreover have "in_sequence t'"
    unfolding t' by (rule in_sequence_insert_events) (use ok in \<open>simp add: outbox_ok_def in_sequence_def\<close>)
  ultimately show "outbox_ok t'"
    using c unfolding outbox_ok_def t' payload_insert_events by auto
qed

lemma outbox_transition: "tables_keep outbox_ok (transition tid nxt)"
proof (rule keepsI)
  fix s res s' assume ok: "outbox_ok (st_tables s)" and run: "transition tid nxt s = (res, s')"
  from run show "outbox_ok (st_tables s')"
    by (cases rule: transition_cases) (use ok in \<open>auto elim: outbox_update_transfers [OF ok, rotated]\<close>)
qed

lemma outbox_reconcile_status: "tables_keep outbox_ok (reconcile_registry_status tid remote)"
proof (rule keepsI)
  fix s res s'
  assume ok: "outbox_ok (st_tables s)" and run: "reconcile_registry_status tid remote s = (res, s')"
  from run show "outbox_ok (st_tables s')"
    by (cases rule: reconcile_registry_status_cases)
      (use ok in \<open>auto elim: outbox_update_transfers [OF ok, rotated]\<close>)
qed

lemma run_op_outbox: "plain_event oper \<Longrightarrow> tables_keep outbox_ok (run_op oper)"
  by (cases oper)
    (auto intro: outbox_record_event outbox_create outbox_transition outbox_reconcile_status
      simp del: run_op.simps(2,6-23) intro!: outbox_kept.run_op_keeps)

end
