(* ===== verification/StoreBehaviour.thy ===== *)
theory StoreBehaviour
  imports StoreInvariants "HOL-Library.Multiset"
begin

text \<open>
  What the operations of the transfer store do: the lifecycle of a transfer over any run of
  operations, the part ledger (one contract, discharged for both part tables), the inventory as a
  round trip, and the paging of file progress.
\<close>

section \<open>Runs of operations\<close>

inductive reachable_store :: "store \<Rightarrow> bool" where
  reachable_init: "st_tables s = empty_tables \<Longrightarrow> reachable_store s"
| reachable_step: "reachable_store s \<Longrightarrow> plain_event oper \<Longrightarrow> run_op oper s = (res, s')
    \<Longrightarrow> reachable_store s'"

lemma outbox_ok_empty: "outbox_ok empty_tables"
  by (simp add: outbox_ok_def constraint_defs in_sequence_def empty_tables_def)

lemma reachable_outbox: "reachable_store s \<Longrightarrow> outbox_ok (st_tables s)"
proof (induction rule: reachable_store.induct)
  case (reachable_init s)
  then show ?case by (simp add: outbox_ok_empty)
next
  case (reachable_step s oper res s')
  then show ?case using keepsD [OF run_op_outbox] by blast
qed

fun store_trace :: "op list \<Rightarrow> store \<Rightarrow> store list" where
  "store_trace [] s = [s]"
| "store_trace (oper # opers) s = s # store_trace opers (snd (run_op oper s))"

definition status_of :: "uuid \<Rightarrow> store \<Rightarrow> TransferStatus option" where
  "status_of tid s = map_option t_status (transfer_by_id (st_tables s) tid)"

text \<open>The statuses a transfer must have been through to be where it is, from a draft on.\<close>

definition passed_through :: "TransferStatus \<Rightarrow> TransferStatus list" where
  "passed_through st =
     (let uploading = [TransferStatus.Draft, TransferStatus.Inventorying, TransferStatus.Ready,
                       TransferStatus.Uploading] in
      case st of
        TransferStatus.Draft \<Rightarrow> [TransferStatus.Draft]
      | TransferStatus.Inventorying \<Rightarrow> [TransferStatus.Draft, TransferStatus.Inventorying]
      | TransferStatus.Ready \<Rightarrow>
          [TransferStatus.Draft, TransferStatus.Inventorying, TransferStatus.Ready]
      | TransferStatus.Uploading \<Rightarrow> uploading
      | TransferStatus.Paused \<Rightarrow> uploading
      | TransferStatus.Interrupted \<Rightarrow> uploading
      | TransferStatus.Finalizing \<Rightarrow> uploading @ [TransferStatus.Finalizing]
      | TransferStatus.Verifying \<Rightarrow> uploading @ [TransferStatus.Finalizing]
      | TransferStatus.Complete \<Rightarrow> uploading @ [TransferStatus.Finalizing, TransferStatus.Complete]
      | TransferStatus.Failed \<Rightarrow> [TransferStatus.Draft, TransferStatus.Inventorying]
      | TransferStatus.Cancelled \<Rightarrow> [TransferStatus.Draft])"

lemma passed_through_edge: "status_edge a b \<Longrightarrow> subseq (passed_through b) (passed_through a @ [b])"
  by (cases a; cases b) (simp_all add: status_edge_def can_transition_to_def passed_through_def)

lemma status_chain_passes:
  assumes "xs \<noteq> []" "hd xs = TransferStatus.Draft"
    and "successively (\<lambda>a b. b = a \<or> status_edge a b) xs"
  shows "subseq (passed_through (last xs)) xs"
  using assms
proof (induction xs rule: rev_induct)
  case Nil
  then show ?case by simp
next
  case (snoc b xs)
  show ?case
  proof (cases "xs = []")
    case True
    then show ?thesis using snoc.prems by (simp add: passed_through_def)
  next
    case False
    then have IH: "subseq (passed_through (last xs)) xs"
      and edge: "b = last xs \<or> status_edge (last xs) b"
      using snoc by (auto simp: successively_append_iff)
    from edge show ?thesis
    proof
      assume "b = last xs"
      then show ?thesis using list_emb_prefix [OF IH] by simp
    next
      assume "status_edge (last xs) b"
      then have "subseq (passed_through b) (passed_through (last xs) @ [b])"
        by (rule passed_through_edge)
      also have "subseq (passed_through (last xs) @ [b]) (xs @ [b])"
        using IH by (rule list_emb_append_mono) simp
      finally show ?thesis by simp
    qed
  qed
qed

lemma trace_not_Nil [simp]: "store_trace opers s \<noteq> []"
  by (cases opers) simp_all

lemma hd_trace [simp]: "hd (store_trace opers s) = s"
  by (cases opers) simp_all

lemma trace_statuses:
  assumes "constraints (st_tables s)"
    and "list_all (\<lambda>s. status_of tid s \<noteq> None) (store_trace opers s)"
  shows "successively (\<lambda>a b. b = a \<or> status_edge a b)
           (map (\<lambda>s. the (status_of tid s)) (store_trace opers s))"
  using assms
proof (induction opers arbitrary: s)
  case Nil
  then show ?case by simp
next
  case (Cons oper opers)
  obtain res s' where run: "run_op oper s = (res, s')" by force
  have c: "constraints (st_tables s')" using keepsD [OF run_op_constraints Cons.prems(1) run] .
  have "the (status_of tid s') = the (status_of tid s)
      \<or> status_edge (the (status_of tid s)) (the (status_of tid s'))"
  proof -
    have "status_of tid s' \<noteq> None" "status_of tid s \<noteq> None"
      using Cons.prems(2) run by (cases opers; simp)+
    then obtain r r' where r: "transfer_by_id (st_tables s) tid = Some r"
      "transfer_by_id (st_tables s') tid = Some r'" by (auto simp: status_of_def)
    then show ?thesis
      using status_change [OF Cons.prems(1) run r] by (simp add: status_of_def)
  qed
  moreover have "successively (\<lambda>a b. b = a \<or> status_edge a b)
           (map (\<lambda>s. the (status_of tid s)) (store_trace opers s'))"
    using Cons.IH [OF c] Cons.prems(2) run by simp
  ultimately show ?case
    by (simp add: run successively_Cons hd_map)
qed

section \<open>The part ledger\<close>

lemma for_each_view:
  assumes "\<And>x s s'. f x s = (Inr (), s') \<Longrightarrow> V (st_tables s') = g x (V (st_tables s))"
  shows "for_each f xs s = (Inr (), s') \<Longrightarrow> V (st_tables s') = fold g xs (V (st_tables s))"
proof (induction xs arbitrary: s)
  case Nil
  then show ?case by (simp add: comp_simps)
next
  case (Cons x xs)
  then show ?case by (auto simp: comp_simps assms)
qed

lemma fold_map_rows: "fold (\<lambda>x. map (g x)) xs rows = map (\<lambda>r. fold g xs r) rows"
  by (induction xs arbitrary: rows) (simp_all add: comp_def)

definition restored :: "uuid \<Rightarrow> (u32 \<times> string) list \<Rightarrow> part_row \<Rightarrow> part_row" where
  "restored owner remote r =
     fold (\<lambda>(number, etag) r. if is_part owner number r
             then r\<lparr>pr_status := PartStatus.Complete, pr_etag := Some etag, pr_last_error := None\<rparr>
             else r) remote
       (if pr_owner r = owner \<and> pr_status r = PartStatus.Complete
        then r\<lparr>pr_status := PartStatus.Pending, pr_etag := None\<rparr> else r)"

lemma restored_key [simp]:
  "pr_owner (restored owner remote r) = pr_owner r"
  "pr_part_number (restored owner remote r) = pr_part_number r"
  "pr_source_length (restored owner remote r) = pr_source_length r"
  "pr_source_offset (restored owner remote r) = pr_source_offset r"
proof -
  let ?g = "\<lambda>(number, etag) r. if is_part owner number r
             then r\<lparr>pr_status := PartStatus.Complete, pr_etag := Some etag, pr_last_error := None\<rparr> else r"
  have "pr_owner (fold ?g remote r) = pr_owner r \<and> pr_part_number (fold ?g remote r) = pr_part_number r
      \<and> pr_source_length (fold ?g remote r) = pr_source_length r
      \<and> pr_source_offset (fold ?g remote r) = pr_source_offset r" for r
    by (induction remote arbitrary: r) (auto split: prod.splits)
  then show "pr_owner (restored owner remote r) = pr_owner r"
    "pr_part_number (restored owner remote r) = pr_part_number r"
    "pr_source_length (restored owner remote r) = pr_source_length r"
    "pr_source_offset (restored owner remote r) = pr_source_offset r"
    by (simp_all add: restored_def)
qed

lemma restored_complete:
  "pr_status (restored owner remote r) = PartStatus.Complete \<longleftrightarrow>
     (if pr_owner r = owner then pr_part_number r \<in> fst ` set remote
      else pr_status r = PartStatus.Complete)"
proof -
  let ?g = "\<lambda>(number, etag) r. if is_part owner number r
             then r\<lparr>pr_status := PartStatus.Complete, pr_etag := Some etag, pr_last_error := None\<rparr> else r"
  have "pr_status (fold ?g remote r) = PartStatus.Complete \<longleftrightarrow>
      pr_status r = PartStatus.Complete \<or> pr_owner r = owner \<and> pr_part_number r \<in> fst ` set remote" for r
    by (induction remote arbitrary: r) (auto simp: is_part_def split: prod.splits)
  then show ?thesis by (auto simp: restored_def)
qed

text \<open>What a part table must provide; both tables do.\<close>

locale part_ledger =
  fixes pt :: part_table
  assumes rows_set: "pt_rows pt (pt_set pt rows t) = rows"
    and rows_events: "pt_rows pt (insert_events fresh k evs t) = pt_rows pt t"
begin

lemma update_parts_rows:
  "update_parts pt S k triggers fresh t = Inr (u, t') \<Longrightarrow>
     pt_rows pt t' = update_where S k (pt_rows pt t)"
  by (auto simp: update_parts_Inr rows_set rows_events)

lemma confirm_rows:
  "confirm_stmt pt owner number etag checksum len now fresh t = Inr (u, t') \<Longrightarrow>
     pt_rows pt t' = update_where (is_part owner number)
        (\<lambda>r. r\<lparr>pr_status := PartStatus.Complete, pr_etag := Some etag, pr_checksum := checksum,
               pr_transport_length := Some len, pr_attempt_count := pr_attempt_count r + 1,
               pr_last_attempt := Some now, pr_last_error := None\<rparr>) (pt_rows pt t)"
  by (auto simp: confirm_stmt_def split: if_splits dest: update_parts_rows)

lemma fail_rows:
  "fail_stmt pt owner number error now fresh t = Inr (u, t') \<Longrightarrow>
     pt_rows pt t' = update_where (is_part owner number)
        (\<lambda>r. r\<lparr>pr_status := PartStatus.Failed, pr_attempt_count := pr_attempt_count r + 1,
               pr_last_attempt := Some now, pr_last_error := Some error\<rparr>) (pt_rows pt t)"
  by (auto simp: fail_stmt_def dest: update_parts_rows)

lemma reconcile_rows:
  assumes "thenE (execute (reset_stmt pt owner))
             (thenE (for_each (\<lambda>r. execute (restore_stmt pt owner r)) remote) (ok x)) s = (Inr y, s')"
  shows "pt_rows pt (st_tables s') = map (restored owner remote) (pt_rows pt (st_tables s)) \<and> y = x"
proof -
  from assms obtain s1 where r: "execute (reset_stmt pt owner) s = (Inr (), s1)"
    and f: "for_each (\<lambda>r. execute (restore_stmt pt owner r)) remote s1 = (Inr (), s')" and y: "y = x"
    by (auto simp: comp_simps)
  have "pt_rows pt (st_tables s1) = map (\<lambda>r.
      if pr_owner r = owner \<and> pr_status r = PartStatus.Complete
        then r\<lparr>pr_status := PartStatus.Pending, pr_etag := None\<rparr> else r) (pt_rows pt (st_tables s))"
    using r by (auto simp: comp_simps reset_stmt_def update_where_def dest!: update_parts_rows)
  moreover have "pt_rows pt (st_tables s') = fold (\<lambda>p. map (\<lambda>r. case p of (number, etag) \<Rightarrow>
        if is_part owner number r
        then r\<lparr>pr_status := PartStatus.Complete, pr_etag := Some etag, pr_last_error := None\<rparr> else r))
      remote (pt_rows pt (st_tables s1))"
    by (rule for_each_view [OF _ f])
      (auto simp: comp_simps restore_stmt_def update_where_def dest!: update_parts_rows split: prod.splits)
  ultimately show ?thesis
    using y by (simp add: fold_map_rows comp_def restored_def case_prod_unfold)
qed

end

interpretation file_ledger: part_ledger file_parts
  by unfold_locales simp_all

interpretation object_ledger: part_ledger object_parts
  by unfold_locales simp_all

lemma has_transport_object_Inr:
  "has_transport_object i s = (Inr b, s') \<longleftrightarrow>
     st_fault s (st_tick s) = None \<and> b = has_object (st_tables s) i
     \<and> s' = s\<lparr>st_tick := Suc (st_tick s)\<rparr>"
  by (auto simp: has_transport_object_def comp_simps)

lemma pt_set_other [simp]:
  "tb_parts (pt_set object_parts rows t) = tb_parts t"
  "tb_object_parts (pt_set file_parts rows t) = tb_object_parts t"
  by simp_all

lemma completed_sum_fits:
  "refresh_stmt i t = Inr (u, t') \<Longrightarrow> file_by_id t i = Some f \<Longrightarrow>
     \<exists>f'. file_by_id t' i = Some f' \<and> unat (f_bytes_completed f') = completed_sum i (tb_parts t)
       \<and> tb_parts t' = tb_parts t"
proof -
  assume r: "refresh_stmt i t = Inr (u, t')" and f: "file_by_id t i = Some f"
  then have lt: "completed_sum i (tb_parts t) < 2 ^ 63" by (auto simp: refresh_stmt_def split: if_splits)
  have "f_id f = i" using f by (auto simp: file_by_id_def find_Some_iff)
  moreover have "unat (of_nat (completed_sum i (tb_parts t)) :: u64) = completed_sum i (tb_parts t)"
    using lt by (simp add: unat_of_nat take_bit_eq_mod)
  ultimately show ?thesis
    using r f lt by (auto simp: refresh_stmt_def file_by_id_def find_update_where split: if_splits)
qed

lemma refresh_same:
  "refresh_stmt i t = Inr (u, t') \<Longrightarrow> tb_objects t' = tb_objects t \<and> tb_parts t' = tb_parts t"
  by (auto simp: refresh_stmt_def split: if_splits)

lemma confirm_part_file:
  assumes "confirm_part i n etag checksum len s = (Inr (), s')" and "\<not> has_object (st_tables s) i"
    and "file_by_id (st_tables s) i = Some f"
  shows "\<exists>now f'. tb_parts (st_tables s') = update_where (is_part i n)
        (\<lambda>r. r\<lparr>pr_status := PartStatus.Complete, pr_etag := Some etag, pr_checksum := checksum,
               pr_transport_length := Some len, pr_attempt_count := pr_attempt_count r + 1,
               pr_last_attempt := Some now, pr_last_error := None\<rparr>) (tb_parts (st_tables s))
      \<and> file_by_id (st_tables s') i = Some f'
      \<and> unat (f_bytes_completed f') = completed_sum i (tb_parts (st_tables s'))"
proof -
  from assms(1,2) obtain t1 now fresh where
    c: "confirm_stmt file_parts i n etag checksum len now fresh (st_tables s) = Inr ((), t1)"
    and r: "refresh_stmt i t1 = Inr ((), st_tables s')"
    by (auto simp: confirm_part_def comp_simps has_transport_object_Inr refresh_file_progress_def)
  have "file_by_id t1 i = Some f"
    using c assms(3)
    by (auto simp: confirm_stmt_def update_parts_Inr file_by_id_def split: if_splits)
  from completed_sum_fits [OF r this] obtain f' where
    "file_by_id (st_tables s') i = Some f'"
    "unat (f_bytes_completed f') = completed_sum i (tb_parts t1)"
    "tb_parts (st_tables s') = tb_parts t1" by blast
  then show ?thesis using file_ledger.confirm_rows [OF c] by auto
qed

lemma confirm_part_object:
  assumes "confirm_part i n etag checksum len s = (Inr (), s')" and "has_object (st_tables s) i"
  shows "\<exists>now. tb_object_parts (st_tables s') = update_where (is_part i n)
        (\<lambda>r. r\<lparr>pr_status := PartStatus.Complete, pr_etag := Some etag, pr_checksum := checksum,
               pr_transport_length := Some len, pr_attempt_count := pr_attempt_count r + 1,
               pr_last_attempt := Some now, pr_last_error := None\<rparr>) (tb_object_parts (st_tables s))"
proof -
  from assms obtain now fresh where
    "confirm_stmt object_parts i n etag checksum len now fresh (st_tables s) = Inr ((), st_tables s')"
    by (auto simp: confirm_part_def comp_simps has_transport_object_Inr)
  from object_ledger.confirm_rows [OF this] show ?thesis by auto
qed

text \<open>Which table an id is kept in, and its rows there.\<close>

definition ledger_rows :: "tables \<Rightarrow> uuid \<Rightarrow> part_row list" where
  "ledger_rows t i = (if has_object t i then tb_object_parts t else tb_parts t)"

lemma has_object_cong: "tb_objects t' = tb_objects t \<Longrightarrow> has_object t' i = has_object t i"
  by (simp add: has_object_def)

lemma update_parts_objects:
  "pt \<in> {file_parts, object_parts} \<Longrightarrow> update_parts pt S k tr fresh t = Inr (u, t') \<Longrightarrow>
     tb_objects t' = tb_objects t \<and> map f_id (tb_files t') = map f_id (tb_files t)"
  by (elim insertE emptyE) (auto simp: update_parts_Inr)

lemma reconcile_stmts_objects:
  assumes "pt \<in> {file_parts, object_parts}"
  shows "tables_keep (\<lambda>t. tb_objects t = obs \<and> map f_id (tb_files t) = ids)
    (thenE (execute (reset_stmt pt i))
       (thenE (for_each (\<lambda>r. execute (restore_stmt pt i r)) remote) (ok x)))"
  using assms
  by (intro keeps_intros keeps_execute)
    (auto simp: reset_stmt_def restore_stmt_def simp del: insert_iff split: prod.splits
      dest!: update_parts_objects [OF assms])

lemma reconcile_remote_parts_rows:
  assumes "reconcile_remote_parts i remote s = (Inr (), s')"
  shows "ledger_rows (st_tables s') i = map (restored i remote) (ledger_rows (st_tables s) i)
    \<and> (has_object (st_tables s') i \<longleftrightarrow> has_object (st_tables s) i)
    \<and> (\<not> has_object (st_tables s) i \<longrightarrow> (\<forall>f. file_by_id (st_tables s) i = Some f \<longrightarrow>
         (\<exists>f'. file_by_id (st_tables s') i = Some f'
            \<and> unat (f_bytes_completed f') = completed_sum i (tb_parts (st_tables s')))))"
proof -
  let ?b = "has_object (st_tables s) i"
  let ?pt = "if ?b then object_parts else file_parts"
  have pt: "?pt \<in> {file_parts, object_parts}" by simp
  from assms obtain s1 b where a: "atomically (bindE (query (\<lambda>t. has_object t i)) (\<lambda>is_transport_object.
       let pt = (if is_transport_object then object_parts else file_parts) in
       thenE (execute (reset_stmt pt i))
         (thenE (for_each (\<lambda>r. execute (restore_stmt pt i r)) remote) (ok is_transport_object)))) s
       = (Inr b, s1)"
    and k: "(if b then ok () else refresh_file_progress i) s1 = (Inr (), s')"
    by (auto simp: reconcile_remote_parts_def bindE_Inr_iff)
  from atomically_Inr [OF a] obtain s3 s4 where
    run: "thenE (execute (reset_stmt ?pt i))
         (thenE (for_each (\<lambda>r. execute (restore_stmt ?pt i r)) remote) (ok ?b)) s3 = (Inr b, s4)"
    and s3: "st_tables s3 = st_tables s" and s4: "st_tables s1 = st_tables s4"
    by (force simp: bindE_Inr_iff query_Inr Let_def)
  have objs: "tb_objects (st_tables s1) = tb_objects (st_tables s)
      \<and> map f_id (tb_files (st_tables s1)) = map f_id (tb_files (st_tables s))"
    using keepsD [OF reconcile_stmts_objects [OF pt] _ run] s3 s4 by simp
  show ?thesis
  proof (cases ?b)
    case True
    then have "pt_rows object_parts (st_tables s4) = map (restored i remote) (tb_object_parts (st_tables s)) \<and> b"
      using object_ledger.reconcile_rows [of i remote True s3 b s4] run s3 by simp
    then have "st_tables s' = st_tables s1" "tb_object_parts (st_tables s1)
        = map (restored i remote) (tb_object_parts (st_tables s))"
      using k s4 by (simp_all add: ok_iff)
    then show ?thesis using True objs by (simp add: ledger_rows_def has_object_def)
  next
    case False
    then have "pt_rows file_parts (st_tables s4) = map (restored i remote) (tb_parts (st_tables s)) \<and> \<not> b"
      using file_ledger.reconcile_rows [of i remote False s3 b s4] run s3 by simp
    then have rows: "tb_parts (st_tables s1) = map (restored i remote) (tb_parts (st_tables s))"
      and r: "refresh_stmt i (st_tables s1) = Inr ((), st_tables s')"
      using k s4 by (auto simp: refresh_file_progress_def comp_simps)
    have same: "tb_objects (st_tables s') = tb_objects (st_tables s1)"
      "tb_parts (st_tables s') = tb_parts (st_tables s1)"
      using refresh_same [OF r] by simp_all
    have "\<exists>f1. file_by_id (st_tables s1) i = Some f1" if "file_by_id (st_tables s) i = Some f" for f
    proof -
      have "i \<in> set (map f_id (tb_files (st_tables s)))"
        using that by (auto simp: file_by_id_def find_Some_iff)
      then have "i \<in> f_id ` set (tb_files (st_tables s1))" using objs by (metis set_map)
      then show ?thesis using find_key_None [of f_id i "tb_files (st_tables s1)"]
        by (auto simp: file_by_id_def)
    qed
    then show ?thesis
      using False objs rows same completed_sum_fits [OF r]
      by (auto simp: ledger_rows_def has_object_def)
  qed
qed

section \<open>Plans and inventories are read back as they were written\<close>

lemma row_to_part_of: "row_to_part (part_row_of p) = Inr p"
  using unat_bound [of "p_attempt_count p"] by (simp add: row_to_part_def part_row_of_def)

lemma insert_parts_rows:
  assumes "pt \<in> {file_parts, object_parts}"
    and "for_each (insert_part pt) parts s = (Inr (), s')"
  shows "pt_rows pt (st_tables s') = pt_rows pt (st_tables s) @ map part_row_of parts"
proof -
  have "pt_rows pt (st_tables s') = fold (\<lambda>p rows. rows @ [part_row_of p]) parts (pt_rows pt (st_tables s))"
    by (rule for_each_view [OF _ assms(2)])
      (use assms(1) in \<open>auto simp: insert_part_def comp_simps split: if_splits\<close>)
  moreover have "fold (\<lambda>p rows. rows @ [part_row_of p]) parts rows = rows @ map part_row_of parts" for rows
    by (induction parts arbitrary: rows) simp_all
  ultimately show ?thesis by simp
qed

lemma plan_objects:
  assumes "pt \<in> {file_parts, object_parts}"
  shows "tables_keep (\<lambda>t. tb_objects t = obs) (thenE (delete_parts pt i) (for_each (insert_part pt) parts))"
  unfolding delete_parts_def insert_part_def using assms
  by (intro keeps_intros keeps_execute) (auto split: if_splits)

lemma replace_part_plan_rows:
  assumes "replace_part_plan i parts s = (Inr (), s')"
  shows "ledger_rows (st_tables s') i =
      filter (\<lambda>r. pr_owner r \<noteq> i) (ledger_rows (st_tables s) i) @ map part_row_of parts
    \<and> has_object (st_tables s') i = has_object (st_tables s) i"
proof -
  let ?b = "has_object (st_tables s) i"
  let ?pt = "if ?b then object_parts else file_parts"
  let ?body = "\<lambda>pt. thenE (delete_parts pt i) (for_each (insert_part pt) parts)"
  have pt: "?pt \<in> {file_parts, object_parts}" by simp
  from assms obtain s1 s2 where s1: "st_tables s1 = st_tables s" and s': "st_tables s' = st_tables s2"
    and run: "bindE (query (\<lambda>t. has_object t i)) (\<lambda>b. if b then ?body object_parts
       else thenE (delete_parts file_parts i) (thenE (for_each (insert_part file_parts) parts)
                 (execute (\<lambda>_ _ t. refresh_stmt i t)))) s1 = (Inr (), s2)"
    unfolding replace_part_plan_def by (auto dest: atomically_Inr)
  have "\<exists>s3 s4. st_tables s3 = st_tables s \<and> ?body ?pt s3 = (Inr (), s4)
      \<and> tb_objects (st_tables s2) = tb_objects (st_tables s4)
      \<and> pt_rows ?pt (st_tables s2) = pt_rows ?pt (st_tables s4)"
  proof (cases ?b)
    case True
    then have "?body object_parts (s1\<lparr>st_tick := Suc (st_tick s1)\<rparr>) = (Inr (), s2)"
      using run s1 by (auto simp: bindE_Inr_iff query_Inr)
    then show ?thesis
      using True s1 by (intro exI [of _ "s1\<lparr>st_tick := Suc (st_tick s1)\<rparr>"] exI [of _ s2]) simp
  next
    case False
    let ?s3 = "s1\<lparr>st_tick := Suc (st_tick s1)\<rparr>"
    have "thenE (delete_parts file_parts i) (thenE (for_each (insert_part file_parts) parts)
                 (execute (\<lambda>_ _ t. refresh_stmt i t))) ?s3 = (Inr (), s2)"
      using False run s1 by (auto simp: bindE_Inr_iff query_Inr)
    then obtain s4 where b: "?body file_parts ?s3 = (Inr (), s4)"
      and r: "execute (\<lambda>_ _ t. refresh_stmt i t) s4 = (Inr (), s2)"
      by (auto simp: thenE_Inr_iff)
    have "refresh_stmt i (st_tables s4) = Inr ((), st_tables s2)" using r by (auto simp: execute_Inr)
    with b show ?thesis
      using False s1 refresh_same by (intro exI [of _ ?s3] exI [of _ s4]) simp
  qed
  then obtain s3 s4 where s3: "st_tables s3 = st_tables s" and body: "?body ?pt s3 = (Inr (), s4)"
    and same: "tb_objects (st_tables s2) = tb_objects (st_tables s4)"
      "pt_rows ?pt (st_tables s2) = pt_rows ?pt (st_tables s4)" by blast
  from body obtain s5 where d: "delete_parts ?pt i s3 = (Inr (), s5)"
    and f: "for_each (insert_part ?pt) parts s5 = (Inr (), s4)" by (auto simp: thenE_Inr_iff)
  have "tb_objects (st_tables s4) = tb_objects (st_tables s)"
    using keepsD [OF plan_objects [OF pt] _ body] s3 by simp
  moreover have "pt_rows ?pt (st_tables s5) = filter (\<lambda>r. pr_owner r \<noteq> i) (pt_rows ?pt (st_tables s))"
    using d s3 by (auto simp: delete_parts_def comp_simps)
  ultimately show ?thesis
    using insert_parts_rows [OF pt f] same s'
    by (cases ?b) (simp_all add: ledger_rows_def has_object_def)
qed

lemma sort_key_map: "sort_key k (map f xs) = map f (sort_key (\<lambda>x. k (f x)) xs)"
proof (induction xs)
  case Nil
  then show ?case by simp
next
  case (Cons x xs)
  have "insort_key k (f x) (map f ys) = map f (insort_key (\<lambda>x. k (f x)) x ys)" for ys
    by (induction ys) simp_all
  then show ?case by (simp add: Cons)
qed

lemma parts_for_file_ok:
  assumes "st_fault s (st_tick s) = None" "st_fault s (Suc (st_tick s)) = None"
    and "parts_of (ledger_rows (st_tables s) i) i = Inr ps"
  shows "fst (parts_for_file i s) = Inr ps"
proof -
  have "parts_for_file i s = (Inr ps, s\<lparr>st_tick := Suc (Suc (st_tick s))\<rparr>)"
    using assms
    by (simp add: parts_for_file_def bindE_Inr_iff has_transport_object_Inr query_rows_Inr Let_def
        ledger_rows_def split: if_split_asm)
  then show ?thesis by simp
qed

lemma parts_of_plan:
  assumes "list_all (\<lambda>p. p_file_id p = i) parts"
  shows "parts_of (filter (\<lambda>r. pr_owner r \<noteq> i) rows @ map part_row_of parts) i
           = Inr (sort_key p_part_number parts)"
proof -
  have "filter (\<lambda>r. pr_owner r = i) (map part_row_of parts) = map part_row_of parts"
    using assms by (induction parts) (simp_all add: part_row_of_def)
  moreover have "sort_key pr_part_number (map part_row_of parts)
      = map part_row_of (sort_key p_part_number parts)"
    by (simp add: sort_key_map part_row_of_def)
  ultimately show ?thesis
    by (simp add: parts_of_def map_sum_list_Inr list_all2_conv_all_nth row_to_part_of)
qed

lemma insert_files_rows:
  assumes "for_each (insert_file tid) files s = (Inr (), s')"
  shows "tb_files (st_tables s') = tb_files (st_tables s) @ map (file_row_of tid) files
    \<and> tb_transfers (st_tables s') = tb_transfers (st_tables s)"
proof -
  have "tb_files (st_tables s') = fold (\<lambda>f rows. rows @ [file_row_of tid f]) files (tb_files (st_tables s))"
    by (rule for_each_view [OF _ assms]) (auto simp: insert_file_def comp_simps split: if_splits)
  moreover have "fold (\<lambda>f rows. rows @ [file_row_of tid f]) files rows = rows @ map (file_row_of tid) files" for rows
    by (induction files arbitrary: rows) simp_all
  moreover have "tb_transfers (st_tables s') = fold (\<lambda>_ rows. rows) files (tb_transfers (st_tables s))"
    by (rule for_each_view [OF _ assms]) (auto simp: insert_file_def comp_simps split: if_splits)
  moreover have "fold (\<lambda>_ rows. rows) files rows = rows" for rows :: "transfer_row list"
    by (induction files) simp_all
  ultimately show ?thesis by simp
qed

lemma replace_inventory_rows:
  assumes "replace_inventory tid files s = (Inr (), s')"
  shows "tb_files (st_tables s') =
      filter (\<lambda>r. f_transfer_id r \<noteq> tid) (tb_files (st_tables s)) @ map (file_row_of tid) files
    \<and> (\<exists>now. tb_transfers (st_tables s') = update_where (\<lambda>r. t_id r = tid)
         (\<lambda>r. r\<lparr>t_file_count := of_nat (length files), t_original_bytes := inventory_bytes files,
                t_updated_at := now\<rparr>) (tb_transfers (st_tables s)))"
proof -
  from assms obtain s1 s2 where s1: "st_tables s1 = st_tables s" and s': "st_tables s' = st_tables s2"
    and run: "thenE (execute (\<lambda>_ _ t. Inr ((), drop_files (\<lambda>r. f_transfer_id r = tid) t)))
       (thenE (for_each (insert_file tid) files)
       (execute (\<lambda>now _ t.
          if \<not> (fits_sql (of_nat (length files)) \<and> fits_sql (inventory_bytes files))
          then Inl ToSqlConversionFailure
          else Inr ((), t\<lparr>tb_transfers := update_where (\<lambda>r. t_id r = tid)
             (\<lambda>r. r\<lparr>t_file_count := of_nat (length files),
                    t_original_bytes := inventory_bytes files, t_updated_at := now\<rparr>)
             (tb_transfers t)\<rparr>)))) s1 = (Inr (), s2)"
    unfolding replace_inventory_def by (auto dest: atomically_Inr)
  from run obtain s3 s4 where
    d0: "execute (\<lambda>_ _ t. Inr ((), drop_files (\<lambda>r. f_transfer_id r = tid) t)) s1 = (Inr (), s3)"
    and f: "for_each (insert_file tid) files s3 = (Inr (), s4)"
    and u0: "execute (\<lambda>now _ t.
          if \<not> (fits_sql (of_nat (length files)) \<and> fits_sql (inventory_bytes files))
          then Inl ToSqlConversionFailure
          else Inr ((), t\<lparr>tb_transfers := update_where (\<lambda>r. t_id r = tid)
             (\<lambda>r. r\<lparr>t_file_count := of_nat (length files),
                    t_original_bytes := inventory_bytes files, t_updated_at := now\<rparr>)
             (tb_transfers t)\<rparr>)) s4 = (Inr (), s2)"
    by (simp add: thenE_Inr_iff del: execute_Inr) blast
  from d0 have d: "st_tables s3 = drop_files (\<lambda>r. f_transfer_id r = tid) (st_tables s1)"
    by (auto simp: execute_Inr)
  from u0 obtain now where
    u: "st_tables s2 = (st_tables s4)\<lparr>tb_transfers := update_where (\<lambda>r. t_id r = tid)
             (\<lambda>r. r\<lparr>t_file_count := of_nat (length files),
                    t_original_bytes := inventory_bytes files, t_updated_at := now\<rparr>)
             (tb_transfers (st_tables s4))\<rparr>"
    by (auto simp: execute_Inr split: if_split_asm)
  have "tb_files (st_tables s3) = filter (\<lambda>r. f_transfer_id r \<noteq> tid) (tb_files (st_tables s))"
    by (simp add: d s1 drop_files_def Let_def)
  then show ?thesis
    using insert_files_rows [OF f] u s' d s1 by auto
qed

lemma truncate_file_row: "FileRecord.truncate (file_row_of tid f) = f\<lparr>f_transfer_id := tid\<rparr>"
  by (simp add: file_row_of_def FileRecord.truncate_def FileRecord.extend_def)

lemma files_of_inventory:
  "map FileRecord.truncate (sort_key f_relative_path (filter (\<lambda>r. f_transfer_id r = tid)
      (filter (\<lambda>r. f_transfer_id r \<noteq> tid) rows @ map (file_row_of tid) files)))
    = sort_key f_relative_path (map (\<lambda>f. f\<lparr>f_transfer_id := tid\<rparr>) files)"
proof -
  have "filter (\<lambda>r. f_transfer_id r = tid) (map (file_row_of tid) files) = map (file_row_of tid) files"
    by (induction files) (simp_all add: file_row_of_def FileRecord.extend_def)
  moreover have "f_relative_path (file_row_of tid f) = f_relative_path f" for f
    by (simp add: file_row_of_def FileRecord.extend_def)
  ultimately show ?thesis by (simp add: sort_key_map truncate_file_row comp_def)
qed

section \<open>The outbox as a queue\<close>

definition unsynced_events :: "uuid \<Rightarrow> tables \<Rightarrow> event_row list" where
  "unsynced_events tid t = filter (unsynced tid) (tb_events t)"

lemma pending_is_prefix:
  assumes "outbox_ok (st_tables s)" and "pending_transfer_events tid limit s = (Inr evs, s')"
  shows "evs = map event_of_row (take (min limit 100) (unsynced_events tid (st_tables s)))
    \<and> st_tables s' = st_tables s"
proof -
  have "sorted (map ev_sequence (tb_events (st_tables s)))"
    using assms(1) by (intro strict_sorted_imp_sorted) (simp add: outbox_ok_def in_sequence_def)
  then have "sorted (map ev_sequence (unsynced_events tid (st_tables s)))"
    unfolding unsynced_events_def by (rule sorted_filter)
  then have "sort_key ev_sequence (unsynced_events tid (st_tables s)) = unsynced_events tid (st_tables s)"
    by (rule sort_key_id_if_sorted)
  then show ?thesis
    using assms(2) by (auto simp: pending_transfer_events_def query_Inr unsynced_events_def)
qed

lemma acknowledge_for_each:
  "for_each (acknowledge_one tid) ids s = (Inr (), s') \<Longrightarrow>
     unsynced_events tid (st_tables s') = filter (\<lambda>e. ev_id e \<notin> set ids) (unsynced_events tid (st_tables s))"
proof (induction ids arbitrary: s)
  case Nil
  then show ?case by (simp add: comp_simps)
next
  case (Cons i ids)
  from Cons.prems obtain s1 where a: "acknowledge_one tid i s = (Inr (), s1)"
    and r: "for_each (acknowledge_one tid) ids s1 = (Inr (), s')" by (auto simp: comp_simps)
  have "filter (unsynced tid) (update_where (\<lambda>r. ev_transfer_id r = tid \<and> ev_id r = i)
         (\<lambda>r. r\<lparr>ev_synced_at := Some now\<rparr>) rows)
      = filter (\<lambda>e. ev_id e \<noteq> i) (filter (unsynced tid) rows)" for now rows
    by (induction rows) (auto simp: update_where_def unsynced_def)
  then have "unsynced_events tid (st_tables s1) = filter (\<lambda>e. ev_id e \<noteq> i) (unsynced_events tid (st_tables s))"
    using a by (auto simp: acknowledge_one_def comp_simps unsynced_events_def)
  then show ?case using Cons.IH [OF r] by (simp add: conj_commute)
qed

lemma acknowledge_removes:
  assumes "acknowledge_transfer_events tid ids s = (Inr (), s')"
  shows "unsynced_events tid (st_tables s')
           = filter (\<lambda>e. ev_id e \<notin> set ids) (unsynced_events tid (st_tables s))"
proof -
  from assms obtain s1 s2 where "st_tables s1 = st_tables s" "st_tables s' = st_tables s2"
    "for_each (acknowledge_one tid) ids s1 = (Inr (), s2)"
    unfolding acknowledge_transfer_events_def by (auto dest: atomically_Inr)
  then show ?thesis using acknowledge_for_each by metis
qed

lemma filter_take_drop:
  "distinct (map k xs) \<Longrightarrow> filter (\<lambda>x. k x \<notin> k ` set (take n xs)) xs = drop n xs"
proof (induction xs arbitrary: n)
  case Nil
  then show ?case by simp
next
  case (Cons x xs)
  show ?case
  proof (cases n)
    case 0
    then show ?thesis by simp
  next
    case (Suc m)
    have "filter (\<lambda>y. k y \<noteq> k x \<and> k y \<notin> k ` set (take m xs)) xs
        = filter (\<lambda>y. k y \<notin> k ` set (take m xs)) xs"
      using Cons.prems by (intro filter_cong) (fastforce simp: image_iff)+
    then show ?thesis using Cons Suc by simp
  qed
qed

lemma unsynced_distinct: "outbox_ok t \<Longrightarrow> distinct (map ev_id (unsynced_events tid t))"
  by (simp add: outbox_ok_def constraint_defs unsynced_events_def distinct_map_filter)

section \<open>Paging\<close>

lemma mset_ordered_files:
  "mset (ordered_files t tid active) = mset (filter (\<lambda>f. f_transfer_id f = tid) (tb_files t))"
  by (simp add: ordered_files_def Let_def)

text \<open>No sum over the parts of one object reaches the range of SQLite's integers.\<close>

definition sums_fit :: "tables \<Rightarrow> bool" where
  "sums_fit t \<longleftrightarrow> list_all (\<lambda>r. confirmed_bytes t (o_id r) < 2 ^ 63) (tb_objects t)"

lemma member_object_in: "member_object t f = Some r \<Longrightarrow> r \<in> set (tb_objects t)"
  by (auto simp: member_object_def Option.bind_eq_Some_conv find_Some_iff)

lemma page_rows_fit:
  "sums_fit t \<Longrightarrow> page_rows t tid offset limit active
     = Inr (map (file_progress t) (take limit (drop offset (ordered_files t tid active))))"
  by (auto simp: page_rows_def Let_def list_ex_iff sums_fit_def list_all_iff
      dest: member_object_in split: option.splits)

definition page_limit :: "u64 \<Rightarrow> u64" where
  "page_limit limit = max 1 (min limit 100)"

lemma page_limit_bounds: "1 \<le> unat (page_limit limit)" "unat (page_limit limit) \<le> 100"
  by (simp_all add: page_limit_def unat_max unat_min)

lemma transfer_file_progress_page:
  assumes "st_fault s (st_tick s) = None" "st_fault s (Suc (st_tick s)) = None"
    and "sums_fit (st_tables s)" and "unat offset < 2 ^ 63"
  shows "fst (transfer_file_progress tid offset limit active s) = Inr
    \<lparr>fpp_files = map (file_progress (st_tables s))
        (take (unat (page_limit limit)) (drop (unat offset) (ordered_files (st_tables s) tid active))),
     fpp_total = of_nat (length (ordered_files (st_tables s) tid active)),
     fpp_offset = offset, fpp_limit = page_limit limit\<rparr>"
proof -
  have len: "length (ordered_files (st_tables s) tid active)
      = length (filter (\<lambda>f. f_transfer_id f = tid) (tb_files (st_tables s)))"
    using mset_ordered_files [of "st_tables s" tid active] by (metis size_mset)
  show ?thesis
    using assms
    by (simp add: transfer_file_progress_def Let_def page_limit_def bindE_def query_def query_rows_def
        execute_def page_rows_fit ok_def len)
qed

lemma concat_pages:
  "length xs \<le> n * k \<Longrightarrow> concat (map (\<lambda>i. take k (drop (i * k) xs)) [0..<n]) = xs"
proof (induction n arbitrary: xs)
  case 0
  then show ?case by simp
next
  case (Suc n)
  have "concat (map (\<lambda>i. take k (drop (i * k) xs)) [0..<Suc n])
      = take k xs @ concat (map (\<lambda>i. take k (drop (i * k) (drop k xs))) [0..<n])"
    by (simp add: upt_conv_Cons map_Suc_upt [symmetric] comp_def add.commute del: upt_Suc)
  also have "\<dots> = xs" using Suc.IH [of "drop k xs"] Suc.prems by simp
  finally show ?case .
qed

section \<open>Settings, sessions and the manifest\<close>

lemma find_upsert:
  "find (\<lambda>r. k r = i) (upsert k row rows) = (if k row = i then Some row else find (\<lambda>r. k r = i) rows)"
proof -
  have *: "find (\<lambda>r. k r = i) (update_where (\<lambda>r. k r = k row) (\<lambda>_. row) rows)
      = (if k row = i \<and> i \<in> k ` set rows then Some row else find (\<lambda>r. k r = i) rows)"
    by (induction rows) (auto simp: update_where_def)
  have "find P (rows @ [row]) = (case find P rows of None \<Rightarrow> if P row then Some row else None | Some x \<Rightarrow> Some x)" for P
    by (induction rows) auto
  then show ?thesis
    using * find_key_None [of k i rows] by (auto simp: upsert_def split: option.splits)
qed

lemma put_get_setting:
  assumes "put_setting k v s = (Inr (), s')" and "st_fault s' (st_tick s') = None"
  shows "fst (get_setting j s')
    = Inr (if j = k then Some v else map_option sg_value (find (\<lambda>r. sg_key r = j) (tb_settings (st_tables s))))"
proof -
  have "tb_settings (st_tables s') = upsert sg_key
      \<lparr>sg_key = k, sg_value = v, sg_updated_at = st_now s (st_tick s)\<rparr> (tb_settings (st_tables s))"
    using assms(1) by (auto simp: put_setting_def execute_Inr)
  then show ?thesis
    using assms(2) by (simp add: get_setting_def query_def execute_def find_upsert)
qed

lemma ensure_manifest_snapshot_Inr:
  assumes "ensure_manifest_snapshot tid candidate s = (Inr m, s')"
    and "transfer_by_id (st_tables s) tid = Some r"
  shows "m = (case tr_manifest_json r of None \<Rightarrow> candidate | Some x \<Rightarrow> x)
    \<and> (\<exists>r'. transfer_by_id (st_tables s') tid = Some r' \<and> tr_manifest_json r' = Some m)"
proof -
  from assms(1) obtain y where s': "st_tables s' = (st_tables s)\<lparr>tb_transfers :=
              update_where (\<lambda>r. t_id r = tid \<and> tr_manifest_json r = None)
                (\<lambda>r. r\<lparr>tr_manifest_json := Some candidate\<rparr>) (tb_transfers (st_tables s))\<rparr>"
    and y: "Option.bind (transfer_by_id (st_tables s') tid) tr_manifest_json = Some y" "m = y"
    by (auto simp: ensure_manifest_snapshot_def manifest_snapshot_def comp_simps split: option.splits)
  have "transfer_by_id (st_tables s') tid =
      Some (if tr_manifest_json r = None then r\<lparr>tr_manifest_json := Some candidate\<rparr> else r)"
    using assms(2) transfer_by_id_id [OF assms(2)]
    by (simp add: s' transfer_by_id_def find_update_where)
  then show ?thesis using y by (auto split: option.splits if_splits)
qed

section \<open>What an operation does to the ledger, whatever it returns\<close>

definition confirmed_row :: "datetime \<Rightarrow> string \<Rightarrow> string option \<Rightarrow> u64 \<Rightarrow> part_row \<Rightarrow> part_row" where
  "confirmed_row now etag checksum len r =
     r\<lparr>pr_status := PartStatus.Complete, pr_etag := Some etag, pr_checksum := checksum,
       pr_transport_length := Some len, pr_attempt_count := pr_attempt_count r + 1,
       pr_last_attempt := Some now, pr_last_error := None\<rparr>"

definition failed_row :: "datetime \<Rightarrow> string \<Rightarrow> part_row \<Rightarrow> part_row" where
  "failed_row now error r =
     r\<lparr>pr_status := PartStatus.Failed, pr_attempt_count := pr_attempt_count r + 1,
       pr_last_attempt := Some now, pr_last_error := Some error\<rparr>"

lemma confirm_stmt_ledger:
  assumes "confirm_stmt (if has_object t i then object_parts else file_parts) i n etag checksum len now fresh t
    = Inr (u, t')"
  shows "ledger_rows t' i = update_where (is_part i n) (confirmed_row now etag checksum len) (ledger_rows t i)
    \<and> has_object t' i = has_object t i"
proof -
  have "tb_objects t' = tb_objects t"
    using assms by (auto simp: confirm_stmt_def split: if_splits dest!: update_parts_objects [rotated])
  then show ?thesis
    using assms object_ledger.confirm_rows [of i n etag checksum len now fresh t u t']
      file_ledger.confirm_rows [of i n etag checksum len now fresh t u t']
    by (cases "has_object t i") (simp_all add: ledger_rows_def has_object_def confirmed_row_def [abs_def])
qed

lemma fail_stmt_ledger:
  assumes "fail_stmt (if has_object t i then object_parts else file_parts) i n error now fresh t
    = Inr (u, t')"
  shows "ledger_rows t' i = update_where (is_part i n) (failed_row now error) (ledger_rows t i)
    \<and> has_object t' i = has_object t i"
proof -
  have "tb_objects t' = tb_objects t"
    using assms by (auto simp: fail_stmt_def split: if_splits dest!: update_parts_objects [rotated])
  then show ?thesis
    using assms object_ledger.fail_rows [of i n error now fresh t u t']
      file_ledger.fail_rows [of i n error now fresh t u t']
    by (cases "has_object t i") (simp_all add: ledger_rows_def has_object_def failed_row_def [abs_def])
qed

lemma refresh_ledger:
  "refresh_stmt i t = Inr (u, t') \<Longrightarrow> ledger_rows t' j = (if has_object t j then tb_object_parts t' else tb_parts t)
     \<and> tb_object_parts t' = tb_object_parts t \<and> has_object t' j = has_object t j"
  by (auto simp: refresh_stmt_def ledger_rows_def has_object_def split: if_splits)

text \<open>A run either leaves the ledger of an id as it was, or changes its rows by \<open>F\<close>.\<close>

definition ledger_change ::
  "uuid \<Rightarrow> (part_row list \<Rightarrow> part_row list \<Rightarrow> bool) \<Rightarrow> tables \<Rightarrow> tables \<Rightarrow> bool" where
  "ledger_change i F t t' \<longleftrightarrow>
     has_object t' i = has_object t i \<and> F (ledger_rows t i) (ledger_rows t' i)"

lemma execute_cases:
  assumes "execute stmt s = (res, s')"
  obtains (failed) e where "res = Inl e" "st_tables s' = st_tables s"
  | (ran) x where "res = Inr x" "stmt (st_now s (st_tick s)) (st_fresh s (st_tick s)) (st_tables s)
      = Inr (x, st_tables s')"
  using assms by (cases res) (auto simp: comp_simps)

lemma confirm_part_ledger:
  assumes "confirm_part i n etag checksum len s = (res, s')"
  shows "ledger_change i (\<lambda>rows rows'.
      (\<exists>e. res = Inl e) \<and> rows' = rows
      \<or> (\<exists>now. rows' = update_where (is_part i n) (confirmed_row now etag checksum len) rows))
    (st_tables s) (st_tables s')"
proof (cases "st_fault s (st_tick s)")
  case (Some e)
  then have "res = Inl (Database e) \<and> st_tables s' = st_tables s"
    using assms by (auto simp: confirm_part_def has_transport_object_def query_def execute_def bindE_def)
  then show ?thesis by (simp add: ledger_change_def)
next
  case None
  let ?s1 = "s\<lparr>st_tick := Suc (st_tick s)\<rparr>"
  let ?b = "has_object (st_tables s) i"
  let ?c = "\<lambda>pt. execute (confirm_stmt pt i n etag checksum len)"
  have run: "(if ?b then ?c object_parts else thenE (?c file_parts) (refresh_file_progress i)) ?s1 = (res, s')"
    using assms None by (simp add: confirm_part_def has_transport_object_def query_def execute_def bindE_def)
  obtain res1 s2 where c: "?c (if ?b then object_parts else file_parts) ?s1 = (res1, s2)" by force
  then show ?thesis
  proof (cases rule: execute_cases)
    case (failed e)
    then have "res = Inl e \<and> st_tables s' = st_tables s"
      using run c by (cases ?b) (simp_all add: thenE_def bindE_def)
    then show ?thesis by (simp add: ledger_change_def)
  next
    case (ran x)
    define now where "now = st_now s (Suc (st_tick s))"
    have rows: "ledger_rows (st_tables s2) i
        = update_where (is_part i n) (confirmed_row now etag checksum len) (ledger_rows (st_tables s) i)"
      and obj: "has_object (st_tables s2) i = has_object (st_tables s) i"
      using confirm_stmt_ledger [of "st_tables s" i n etag checksum len now
          "st_fresh s (Suc (st_tick s))" x "st_tables s2"] ran by (simp_all add: now_def)
    show ?thesis
    proof (cases ?b)
      case True
      then show ?thesis using run c rows obj by (auto simp: ledger_change_def)
    next
      case False
      then have "refresh_file_progress i s2 = (res, s')"
        using run c ran(1) by (simp add: thenE_def bindE_def)
      then have "ledger_rows (st_tables s') i = ledger_rows (st_tables s2) i
          \<and> has_object (st_tables s') i = has_object (st_tables s2) i"
        unfolding refresh_file_progress_def
        by (cases rule: execute_cases) (use False obj in \<open>auto dest!: refresh_ledger [of _ _ _ _ i] simp: ledger_rows_def\<close>)
      then show ?thesis using rows obj by (auto simp: ledger_change_def)
    qed
  qed
qed

lemma record_part_failure_ledger:
  assumes "record_part_failure i n error s = (res, s')"
  shows "ledger_change i (\<lambda>rows rows'.
      (\<exists>e. res = Inl e) \<and> rows' = rows
      \<or> (\<exists>now. rows' = update_where (is_part i n) (failed_row now error) rows))
    (st_tables s) (st_tables s')"
proof (cases "st_fault s (st_tick s)")
  case (Some e)
  then have "res = Inl (Database e) \<and> st_tables s' = st_tables s"
    using assms by (auto simp: record_part_failure_def has_transport_object_def query_def execute_def bindE_def)
  then show ?thesis by (simp add: ledger_change_def)
next
  case None
  let ?s1 = "s\<lparr>st_tick := Suc (st_tick s)\<rparr>"
  let ?b = "has_object (st_tables s) i"
  have "execute (fail_stmt (if ?b then object_parts else file_parts) i n error) ?s1 = (res, s')"
    using assms None by (auto simp: record_part_failure_def has_transport_object_def query_def execute_def bindE_def)
  then show ?thesis
  proof (cases rule: execute_cases)
    case (ran x)
    then show ?thesis
      using fail_stmt_ledger [of "st_tables s" i n error "st_now s (Suc (st_tick s))"
          "st_fresh s (Suc (st_tick s))" x "st_tables s'"]
      by (auto simp: ledger_change_def)
  qed (simp add: ledger_change_def)
qed

lemma record_event_ledger:
  assumes "record_transfer_event tid kind d s = (res, s')"
  shows "ledger_change i (\<lambda>rows rows'. rows' = rows) (st_tables s) (st_tables s')"
  using assms unfolding record_transfer_event_def
  by (cases rule: execute_cases) (auto simp: ledger_change_def ledger_rows_def has_object_def)

lemma refresh_progress_ledger:
  assumes "refresh_file_progress i s = (res, s')" and "\<not> has_object (st_tables s) i"
  shows "ledger_rows (st_tables s') i = ledger_rows (st_tables s) i
    \<and> has_object (st_tables s') i = has_object (st_tables s) i"
  using assms(1) unfolding refresh_file_progress_def
  by (cases rule: execute_cases) (use assms(2) in \<open>auto dest!: refresh_ledger [of _ _ _ _ i] simp: ledger_rows_def\<close>)

lemma reconcile_remote_parts_ledger:
  assumes "reconcile_remote_parts i remote s = (res, s')"
  shows "ledger_change i (\<lambda>rows rows'.
      (\<exists>e. res = Inl e) \<and> rows' = rows \<or> rows' = map (restored i remote) rows)
    (st_tables s) (st_tables s')"
proof -
  let ?b = "has_object (st_tables s) i"
  let ?pt = "if ?b then object_parts else file_parts"
  have pt: "?pt \<in> {file_parts, object_parts}" by simp
  define body where "body = atomically (bindE (query (\<lambda>t. has_object t i)) (\<lambda>is_transport_object.
       let pt = (if is_transport_object then object_parts else file_parts) in
       thenE (execute (reset_stmt pt i))
         (thenE (for_each (\<lambda>r. execute (restore_stmt pt i r)) remote) (ok is_transport_object))))"
  have run: "bindE body (\<lambda>b. if b then ok () else refresh_file_progress i) s = (res, s')"
    using assms by (simp add: reconcile_remote_parts_def body_def)
  obtain res1 s1 where b: "body s = (res1, s1)" by force
  show ?thesis
  proof (cases res1)
    case (Inl e)
    then have "st_tables s1 = st_tables s" using b atomically_Inl unfolding body_def by blast
    then show ?thesis using run b Inl by (auto simp: bindE_def ledger_change_def)
  next
    case (Inr x)
    from atomically_Inr [OF b [unfolded body_def Inr]] obtain s3 s4 where
      stmts: "thenE (execute (reset_stmt ?pt i))
         (thenE (for_each (\<lambda>r. execute (restore_stmt ?pt i r)) remote) (ok ?b)) s3 = (Inr x, s4)"
      and s3: "st_tables s3 = st_tables s" and s4: "st_tables s1 = st_tables s4"
      by (force simp: bindE_Inr_iff query_Inr Let_def)
    have objs: "has_object (st_tables s1) i = ?b"
      using keepsD [OF reconcile_stmts_objects [OF pt] _ stmts] s3 s4 by (simp add: has_object_def)
    have rows: "ledger_rows (st_tables s1) i = map (restored i remote) (ledger_rows (st_tables s) i) \<and> x = ?b"
      using object_ledger.reconcile_rows [of i remote ?b s3 x s4]
        file_ledger.reconcile_rows [of i remote ?b s3 x s4] stmts s3 s4 objs
      by (cases ?b) (simp_all add: ledger_rows_def)
    have k: "(if x then ok () else refresh_file_progress i) s1 = (res, s')"
      using run b Inr by (simp add: bindE_def)
    show ?thesis
    proof (cases ?b)
      case True
      then show ?thesis using k rows objs by (simp add: ok_iff ledger_change_def)
    next
      case False
      then have "refresh_file_progress i s1 = (res, s')" using k rows by simp
      from refresh_progress_ledger [OF this] show ?thesis using rows objs False by (simp add: ledger_change_def)
    qed
  qed
qed

lemma replace_part_plan_ledger:
  assumes "replace_part_plan i parts s = (res, s')"
  shows "ledger_change i (\<lambda>rows rows'. (\<exists>e. res = Inl e) \<and> rows' = rows
      \<or> res = Inr () \<and> rows' = filter (\<lambda>r. pr_owner r \<noteq> i) rows @ map part_row_of parts)
    (st_tables s) (st_tables s')"
proof (cases res)
  case (Inl e)
  then have "st_tables s' = st_tables s"
    using assms unfolding replace_part_plan_def by (auto dest: atomically_Inl)
  then show ?thesis using Inl by (simp add: ledger_change_def)
next
  case (Inr u)
  then show ?thesis using replace_part_plan_rows [of i parts s s'] assms by (simp add: ledger_change_def)
qed

text \<open>Operations that read, and those that write outside the part tables.\<close>

abbreviation same_ledger :: "uuid \<Rightarrow> bool \<Rightarrow> part_row list \<Rightarrow> tables \<Rightarrow> bool" where
  "same_ledger i b rows t \<equiv> has_object t i = b \<and> ledger_rows t i = rows"

lemma same_ledger_keeps:
  "tables_keep (same_ledger i b rows) (upload_session j)"
  "tables_keep (same_ledger i b rows) (object_key j)"
  "tables_keep (same_ledger i b rows) (parts_for_file j)"
  "tables_keep (same_ledger i b rows) (set_upload_session j k u)"
  "tables_keep (same_ledger i b rows) (mark_file_uploaded j)"
  "tables_keep (same_ledger i b rows) (record_transfer_event tid kind d)"
proof -
  have obj: "tables_keep (same_ledger i b rows) (update_objects j g)" if "\<And>r. o_id (g r) = o_id r" for g
  proof -
    have "list_ex (\<lambda>r. o_id r = i) (update_where P g obs) = list_ex (\<lambda>r. o_id r = i) obs" for P obs
      using that by (induction obs) (simp_all add: update_where_def)
    then show ?thesis
      unfolding update_objects_def by (intro keeps_execute) (auto simp: ledger_rows_def has_object_def)
  qed
  have fil: "tables_keep (same_ledger i b rows) (update_files j g)" for g
    unfolding update_files_def by (intro keeps_execute) (auto simp: ledger_rows_def has_object_def)
  show "tables_keep (same_ledger i b rows) (upload_session j)"
    unfolding upload_session_def has_transport_object_def by (intro keeps_intros)
  show "tables_keep (same_ledger i b rows) (object_key j)"
    unfolding object_key_def has_transport_object_def by (intro keeps_intros)
  show "tables_keep (same_ledger i b rows) (parts_for_file j)"
    unfolding parts_for_file_def has_transport_object_def Let_def by (intro keeps_intros)
  show "tables_keep (same_ledger i b rows) (set_upload_session j k u)"
    unfolding set_upload_session_def has_transport_object_def by (auto intro!: keeps_intros obj fil)
  show "tables_keep (same_ledger i b rows) (mark_file_uploaded j)"
    unfolding mark_file_uploaded_def by (rule fil)
  show "tables_keep (same_ledger i b rows) (record_transfer_event tid kind d)"
    unfolding record_transfer_event_def
    by (rule keeps_execute) (auto simp: ledger_rows_def has_object_def)
qed

lemma parts_for_file_Inr:
  assumes "parts_for_file i s = (Inr ps, s')"
  shows "parts_of (ledger_rows (st_tables s) i) i = Inr ps"
  using assms
  by (auto simp: parts_for_file_def bindE_Inr_iff has_transport_object_Inr query_rows_Inr ledger_rows_def Let_def
      split: if_splits)

lemma row_to_part_Inr:
  "row_to_part r = Inr p \<Longrightarrow> p_file_id p = pr_owner r \<and> p_part_number p = pr_part_number r
     \<and> p_etag p = pr_etag r \<and> p_status p = pr_status r \<and> p_source_length p = pr_source_length r
     \<and> p_transport_length p = pr_transport_length r"
  by (auto simp: row_to_part_def split: if_splits)

lemma parts_of_Inr:
  assumes "parts_of rows i = Inr ps"
  shows "(\<forall>r \<in> set rows. pr_owner r = i \<longrightarrow> (\<exists>p \<in> set ps. row_to_part r = Inr p))
    \<and> (\<forall>p \<in> set ps. \<exists>r \<in> set rows. pr_owner r = i \<and> row_to_part r = Inr p)"
proof -
  from assms have a: "list_all2 (\<lambda>r p. row_to_part r = Inr p)
      (sort_key pr_part_number (filter (\<lambda>r. pr_owner r = i) rows)) ps"
    by (simp add: parts_of_def map_sum_list_Inr)
  then have "r \<in> set (sort_key pr_part_number (filter (\<lambda>r. pr_owner r = i) rows)) \<Longrightarrow>
      \<exists>p \<in> set ps. row_to_part r = Inr p" for r
    by (induction rule: list_all2_induct) auto
  moreover from a have "p \<in> set ps \<Longrightarrow>
      \<exists>r \<in> set (sort_key pr_part_number (filter (\<lambda>r. pr_owner r = i) rows)). row_to_part r = Inr p" for p
    by (induction rule: list_all2_induct) auto
  ultimately show ?thesis by fastforce
qed

section \<open>Replacing plans\<close>

text \<open>What a replacement is, over all tables: an error leaves them as they were.\<close>

definition replaces :: "(tables \<Rightarrow> tables \<Rightarrow> bool) \<Rightarrow> 'a db \<Rightarrow> store \<Rightarrow> bool" where
  "replaces R m s \<longleftrightarrow> (case m s of
     (Inl e, s') \<Rightarrow> st_tables s' = st_tables s | (Inr x, s') \<Rightarrow> R (st_tables s) (st_tables s'))"

definition replaced_inventory :: "uuid \<Rightarrow> FileRecord list \<Rightarrow> tables \<Rightarrow> tables \<Rightarrow> bool" where
  "replaced_inventory tid files t t' \<longleftrightarrow> (\<exists>now.
     let old = f_id ` {r \<in> set (tb_files t). f_transfer_id r = tid} in
     t' = t\<lparr>tb_files := filter (\<lambda>r. f_transfer_id r \<noteq> tid) (tb_files t) @ map (file_row_of tid) files,
       tb_parts := filter (\<lambda>p. pr_owner p \<notin> old) (tb_parts t),
       tb_members := filter (\<lambda>m. m_file_id m \<notin> old) (tb_members t),
       tb_transfers := map (\<lambda>r. if t_id r = tid
         then r\<lparr>t_file_count := of_nat (length files), t_original_bytes := inventory_bytes files, t_updated_at := now\<rparr>
         else r) (tb_transfers t)\<rparr>)"

definition replaced_plan ::
  "uuid \<Rightarrow> TransportObjectRecord list \<Rightarrow> TransportMemberRecord list \<Rightarrow> tables \<Rightarrow> tables \<Rightarrow> bool" where
  "replaced_plan tid objects members t t' \<longleftrightarrow>
     (let old = o_id ` {r \<in> set (tb_objects t). o_transfer_id r = tid} in
      t' = t\<lparr>tb_objects := filter (\<lambda>r. o_transfer_id r \<noteq> tid) (tb_objects t) @ map object_row_of objects,
        tb_object_parts := filter (\<lambda>p. pr_owner p \<notin> old) (tb_object_parts t),
        tb_members := filter (\<lambda>m. m_object_id m \<notin> old) (tb_members t) @ members\<rparr>)"

definition replaced_parts :: "uuid \<Rightarrow> PartRecord list \<Rightarrow> tables \<Rightarrow> tables \<Rightarrow> bool" where
  "replaced_parts i parts t t' \<longleftrightarrow>
     (if i \<in> o_id ` set (tb_objects t)
      then t' = t\<lparr>tb_object_parts := filter (\<lambda>r. pr_owner r \<noteq> i) (tb_object_parts t) @ map part_row_of parts\<rparr>
      else let bytes = \<Sum>p \<leftarrow> filter (\<lambda>p. p_file_id p = i \<and> p_status p = PartStatus.Complete) parts. unat (p_source_length p) in
        t' = t\<lparr>tb_parts := filter (\<lambda>r. pr_owner r \<noteq> i) (tb_parts t) @ map part_row_of parts,
          tb_files := map (\<lambda>r. if f_id r = i then r\<lparr>f_bytes_completed := of_nat bytes\<rparr> else r) (tb_files t)\<rparr>)"

lemma insert_files_tables:
  "for_each (insert_file tid) files s = (Inr (), s') \<Longrightarrow>
     st_tables s' = (st_tables s)\<lparr>tb_files := tb_files (st_tables s) @ map (file_row_of tid) files\<rparr>"
proof (induction files arbitrary: s)
  case (Cons f files)
  then obtain s1 where "insert_file tid f s = (Inr (), s1)" "for_each (insert_file tid) files s1 = (Inr (), s')"
    by (auto simp: comp_simps)
  moreover from this(1) have "st_tables s1 = (st_tables s)\<lparr>tb_files := tb_files (st_tables s) @ [file_row_of tid f]\<rparr>"
    by (auto simp: insert_file_def comp_simps split: if_splits)
  ultimately show ?case using Cons.IH by simp
qed (simp add: comp_simps)

lemma insert_objects_tables:
  "for_each insert_object objects s = (Inr (), s') \<Longrightarrow>
     st_tables s' = (st_tables s)\<lparr>tb_objects := tb_objects (st_tables s) @ map object_row_of objects\<rparr>"
proof (induction objects arbitrary: s)
  case (Cons ob objects)
  then obtain s1 where "insert_object ob s = (Inr (), s1)" "for_each insert_object objects s1 = (Inr (), s')"
    by (auto simp: comp_simps)
  moreover from this(1) have "st_tables s1 = (st_tables s)\<lparr>tb_objects := tb_objects (st_tables s) @ [object_row_of ob]\<rparr>"
    by (auto simp: insert_object_def comp_simps split: if_splits)
  ultimately show ?case using Cons.IH by simp
qed (simp add: comp_simps)

lemma insert_members_tables:
  "for_each insert_member members s = (Inr (), s') \<Longrightarrow>
     st_tables s' = (st_tables s)\<lparr>tb_members := tb_members (st_tables s) @ members\<rparr>"
proof (induction members arbitrary: s)
  case (Cons m members)
  then obtain s1 where "insert_member m s = (Inr (), s1)" "for_each insert_member members s1 = (Inr (), s')"
    by (auto simp: comp_simps)
  moreover from this(1) have "st_tables s1 = (st_tables s)\<lparr>tb_members := tb_members (st_tables s) @ [m]\<rparr>"
    by (auto simp: insert_member_def comp_simps split: if_splits)
  ultimately show ?case using Cons.IH by simp
qed (simp add: comp_simps)

lemma insert_parts_tables:
  assumes "pt \<in> {file_parts, object_parts}"
  shows "for_each (insert_part pt) parts s = (Inr (), s') \<Longrightarrow>
     st_tables s' = pt_set pt (pt_rows pt (st_tables s) @ map part_row_of parts) (st_tables s)"
proof (induction parts arbitrary: s)
  case Nil
  then show ?case using assms by (auto simp: comp_simps file_parts_def object_parts_def)
next
  case (Cons p parts)
  then obtain s1 where "insert_part pt p s = (Inr (), s1)" "for_each (insert_part pt) parts s1 = (Inr (), s')"
    by (auto simp: comp_simps)
  moreover from this(1) have "st_tables s1 = pt_set pt (pt_rows pt (st_tables s) @ [part_row_of p]) (st_tables s)"
    by (auto simp: insert_part_def comp_simps split: if_splits)
  ultimately show ?case using Cons.IH assms by (auto simp: file_parts_def object_parts_def)
qed

lemma atomically_replaces:
  assumes "\<And>s s' x. m s = (Inr x, s') \<Longrightarrow> R (st_tables s) (st_tables s')"
  shows "replaces R (atomically m) s"
proof (cases "atomically m s")
  case (Pair r s')
  show ?thesis
  proof (cases r)
    case (Inl e)
    then show ?thesis using Pair atomically_Inl by (simp add: replaces_def)
  next
    case (Inr x)
    then obtain s1 s2 where "st_tables s1 = st_tables s" "m s1 = (Inr x, s2)" "st_tables s' = st_tables s2"
      using Pair atomically_Inr [of m s x s'] by auto
    then have "R (st_tables s) (st_tables s')" using assms [of s1 x s2] by simp
    then show ?thesis using Pair Inr by (simp add: replaces_def)
  qed
qed

lemma inventory_replaced: "replaces (replaced_inventory tid files) (replace_inventory tid files) s"
  unfolding replace_inventory_def
proof (rule atomically_replaces)
  fix s s' and x :: unit
  assume "thenE (execute (\<lambda>_ _ t. Inr ((), drop_files (\<lambda>r. f_transfer_id r = tid) t)))
       (thenE (for_each (insert_file tid) files)
       (execute (\<lambda>now _ t.
          if \<not> (fits_sql (of_nat (length files)) \<and> fits_sql (inventory_bytes files))
          then Inl ToSqlConversionFailure
          else Inr ((), t\<lparr>tb_transfers := update_where (\<lambda>r. t_id r = tid)
             (\<lambda>r. r\<lparr>t_file_count := of_nat (length files),
                    t_original_bytes := inventory_bytes files, t_updated_at := now\<rparr>)
             (tb_transfers t)\<rparr>)))) s = (Inr x, s')"
  then obtain s1 s2 where dropped: "execute (\<lambda>_ _ t. Inr ((), drop_files (\<lambda>r. f_transfer_id r = tid) t)) s = (Inr (), s1)"
    and inserted: "for_each (insert_file tid) files s1 = (Inr (), s2)"
    and counted: "execute (\<lambda>now _ t.
          if \<not> (fits_sql (of_nat (length files)) \<and> fits_sql (inventory_bytes files))
          then Inl ToSqlConversionFailure
          else Inr ((), t\<lparr>tb_transfers := update_where (\<lambda>r. t_id r = tid)
             (\<lambda>r. r\<lparr>t_file_count := of_nat (length files),
                    t_original_bytes := inventory_bytes files, t_updated_at := now\<rparr>)
             (tb_transfers t)\<rparr>)) s2 = (Inr x, s')"
    by (simp add: thenE_Inr_iff del: execute_Inr) blast
  from dropped have "st_tables s1 = drop_files (\<lambda>r. f_transfer_id r = tid) (st_tables s)"
    by (auto simp: execute_Inr)
  moreover from counted obtain now where "st_tables s' = (st_tables s2)\<lparr>tb_transfers := update_where (\<lambda>r. t_id r = tid)
             (\<lambda>r. r\<lparr>t_file_count := of_nat (length files),
                    t_original_bytes := inventory_bytes files, t_updated_at := now\<rparr>)
             (tb_transfers (st_tables s2))\<rparr>"
    by (auto simp: execute_Inr split: if_split_asm)
  ultimately show "replaced_inventory tid files (st_tables s) (st_tables s')"
    unfolding replaced_inventory_def
    by (intro exI [of _ now]) (simp add: insert_files_tables [OF inserted] drop_files_def update_where_def Let_def conj_commute)
qed

lemma plan_replaced:
  "replaces (replaced_plan tid objects members) (replace_transport_plan tid objects members) s"
  unfolding replace_transport_plan_def
  by (rule atomically_replaces)
    (auto simp: comp_simps replaced_plan_def drop_objects_def Let_def image_def
      dest!: insert_objects_tables insert_members_tables)

lemma completed_of_plan:
  "completed_sum i (filter (\<lambda>r. pr_owner r \<noteq> i) rows @ map part_row_of parts)
     = (\<Sum>p \<leftarrow> filter (\<lambda>p. p_file_id p = i \<and> p_status p = PartStatus.Complete) parts. unat (p_source_length p))"
proof -
  have "filter (\<lambda>p. pr_owner p = i \<and> pr_status p = PartStatus.Complete) (filter (\<lambda>r. pr_owner r \<noteq> i) rows) = []"
    by (induction rows) auto
  then show ?thesis
    by (simp add: completed_sum_def complete_rows_def filter_map comp_def part_row_of_def)
qed

lemma parts_replaced: "replaces (replaced_parts i parts) (replace_part_plan i parts) s"
  unfolding replace_part_plan_def
proof (rule atomically_replaces)
  fix s s' and x :: unit
  assume run: "bindE (query (\<lambda>t. has_object t i)) (\<lambda>is_transport_object.
       if is_transport_object
       then thenE (delete_parts object_parts i) (for_each (insert_part object_parts) parts)
       else thenE (delete_parts file_parts i)
              (thenE (for_each (insert_part file_parts) parts)
                 (execute (\<lambda>_ _ t. refresh_stmt i t)))) s = (Inr x, s')"
  have ob: "has_object (st_tables s) i \<longleftrightarrow> i \<in> o_id ` set (tb_objects (st_tables s))"
    by (auto simp: has_object_def list_ex_iff)
  show "replaced_parts i parts (st_tables s) (st_tables s')"
  proof (cases "has_object (st_tables s) i")
    case True
    then show ?thesis
      using run insert_parts_tables [of object_parts parts]
      by (auto simp: comp_simps replaced_parts_def delete_parts_def object_parts_def ob)
  next
    case False
    then obtain s1 s2 where "delete_parts file_parts i (s\<lparr>st_tick := Suc (st_tick s)\<rparr>) = (Inr (), s1)"
      "for_each (insert_part file_parts) parts s1 = (Inr (), s2)" "refresh_stmt i (st_tables s2) = Inr ((), st_tables s')"
      using run by (auto simp: comp_simps)
    moreover from this(1) have "st_tables s1 = (st_tables s)\<lparr>tb_parts := filter (\<lambda>r. pr_owner r \<noteq> i) (tb_parts (st_tables s))\<rparr>"
      by (auto simp: delete_parts_def file_parts_def comp_simps)
    ultimately have "st_tables s2 = (st_tables s)\<lparr>tb_parts := filter (\<lambda>r. pr_owner r \<noteq> i) (tb_parts (st_tables s)) @ map part_row_of parts\<rparr>"
      "refresh_stmt i (st_tables s2) = Inr ((), st_tables s')"
      using insert_parts_tables [of file_parts parts s1 s2] by (simp_all add: file_parts_def)
    then show ?thesis
      using False by (auto simp: refresh_stmt_def replaced_parts_def ob [symmetric] update_where_def completed_of_plan Let_def
          split: if_splits)
  qed
qed

end
