(* ===== verification/StoreProperties.thy ===== *)
theory StoreProperties
  imports StoreBehaviour
begin

text \<open>
  What the local database of \<^verbatim>\<open>courier-core\<close> promises: the constraints every operation keeps, the life
  cycle of a transfer, the event outbox, the part ledger, and the round trips of what is stored.
  The instances run on \<open>quiet t\<close>, a database with tables \<open>t\<close> that never fails.
\<close>

section \<open>A concrete database\<close>

definition quiet :: "tables \<Rightarrow> store" where
  "quiet t = \<lparr>st_tables = t, st_tick = 0, st_now = (\<lambda>n. int n), st_fresh = (\<lambda>n k. of_nat (1000 + 10 * n + k)),
     st_fault = (\<lambda>_. None)\<rparr>"

definition first_transfer :: Transfer where
  "first_transfer = draft 0 4 ''/d'' None"

definition first_row :: transfer_row where
  "first_row = transfer_row_of first_transfer"

definition draft_tables :: tables where
  "draft_tables = insert_event 1000 (created_event first_row)
     (empty_tables\<lparr>tb_transfers := [first_row]\<rparr>)"

lemmas row_eval = first_row_def first_transfer_def draft_def transfer_row_of_def Transfer.defs

lemmas table_eval = row_eval draft_tables_def empty_tables_def insert_event_def created_event_def
  default_details_def

lemmas run_eval = comp_defs execute_def query_def query_rows_def checked_def quiet_def Let_def

lemma constraints_draft: "constraints draft_tables"
  by (simp add: constraints_def transfers_ok_def files_ok_def parts_ok_def objects_ok_def members_ok_def
      events_ok_def table_eval)

lemma created_draft:
  "create_transfer first_transfer (quiet empty_tables)
     = (Inr (), (quiet draft_tables)\<lparr>st_tick := 1\<rparr>)"
proof -
  have "insert_event 1000 (created_event first_row) (empty_tables\<lparr>tb_transfers := tb_transfers empty_tables @ [first_row]\<rparr>)
      = draft_tables" by (simp add: draft_tables_def empty_tables_def)
  then show ?thesis
    using constraints_draft
    by (simp add: create_transfer_def run_eval fits_sql_def flip: first_row_def)
      (simp add: first_transfer_def draft_def)
qed

lemma outbox_draft: "outbox_ok draft_tables"
  using reachable_outbox [OF reachable_step [OF reachable_init, of "quiet empty_tables" "CreateTransfer first_transfer"]]
    created_draft by (simp add: quiet_def)

section \<open>The life cycle of a transfer\<close>

text \<open>C7: A transfer's status moves only along the edges the code allows, and only by the operation that asks
  for it: after any operation, a transfer that is still there has the status it had, or the operation
  succeeded and was a transition of this transfer to its new status that \<^verbatim>\<open>can_transition_to\<close>
  allows, or a reconciliation with the Registry's word for its new status, from finalizing or from
  verifying. Only such a reconciliation takes it from finalizing to complete.\<close>

theorem status_moves_along_edges:
  assumes "constraints (st_tables s)" and "run_op oper s = (res, s')"
    and "transfer_by_id (st_tables s) tid = Some r" and "transfer_by_id (st_tables s') tid = Some r'"
  shows "(t_status r' = t_status r
      \<or> res = Inr () \<and> (oper = Transition tid (t_status r') \<and> can_transition_to (t_status r) (t_status r')
          \<or> oper = ReconcileRegistryStatus tid (t_status r') \<and> registry_edge (t_status r) (t_status r')))
    \<and> (t_status r = TransferStatus.Finalizing \<and> t_status r' = TransferStatus.Complete
          \<longrightarrow> oper = ReconcileRegistryStatus tid TransferStatus.Complete)"
  using status_move [OF assms] by (auto simp: can_transition_to_def)

lemma inventorying_draft:
  "\<exists>s'. run_op (Transition 4 TransferStatus.Inventorying) (quiet draft_tables) = (Inr (), s')
     \<and> transfer_by_id (st_tables s') 4 = Some (first_row\<lparr>t_status := TransferStatus.Inventorying, t_updated_at := 1\<rparr>)"
  by (simp add: transition_def get_transfer_def run_eval transfer_by_id_def table_eval can_transition_to_def
      update_transfers_def update_where_def transition_event_def constraints_def transfers_ok_def
      files_ok_def parts_ok_def objects_ok_def members_ok_def events_ok_def)

theorem status_moves_along_edges_witness:
  "can_transition_to TransferStatus.Draft TransferStatus.Inventorying"
proof -
  obtain s' where run: "run_op (Transition 4 TransferStatus.Inventorying) (quiet draft_tables) = (Inr (), s')"
    and r': "transfer_by_id (st_tables s') 4
      = Some (first_row\<lparr>t_status := TransferStatus.Inventorying, t_updated_at := 1\<rparr>)"
    using inventorying_draft by blast
  have "constraints (st_tables (quiet draft_tables))" by (simp add: quiet_def constraints_draft)
  moreover have "transfer_by_id (st_tables (quiet draft_tables)) 4 = Some first_row"
    by (simp add: quiet_def transfer_by_id_def table_eval)
  ultimately show ?thesis
    using status_moves_along_edges [OF _ run _ r', of first_row] by (simp add: row_eval)
qed

text \<open>C8: A transfer that was created as a draft has been through every status its present one requires,
  in order: whatever operations ran and however they ended, a complete transfer was inventoried,
  ready, uploading and finalizing before.\<close>

theorem status_history_has_the_spine:
  assumes "constraints (st_tables s)" and "status_of tid s = Some TransferStatus.Draft"
    and "list_all (\<lambda>s. status_of tid s \<noteq> None) (store_trace opers s)"
  shows "subseq (passed_through (the (status_of tid (last (store_trace opers s)))))
    (map (\<lambda>s. the (status_of tid s)) (store_trace opers s))"
  using status_chain_passes [of "map (\<lambda>s. the (status_of tid s)) (store_trace opers s)"]
    trace_statuses [OF assms(1,3)] assms(2)
  by (simp add: hd_map last_map)

theorem status_history_has_the_spine_witness:
  "subseq [TransferStatus.Draft, TransferStatus.Inventorying] (map (\<lambda>s. the (status_of 4 s))
     (store_trace [Transition 4 TransferStatus.Inventorying] (quiet draft_tables)))"
proof -
  obtain s' where run: "run_op (Transition 4 TransferStatus.Inventorying) (quiet draft_tables) = (Inr (), s')"
    and r': "transfer_by_id (st_tables s') 4
      = Some (first_row\<lparr>t_status := TransferStatus.Inventorying, t_updated_at := 1\<rparr>)"
    using inventorying_draft by blast
  have d: "status_of 4 (quiet draft_tables) = Some TransferStatus.Draft"
    by (simp add: status_of_def quiet_def transfer_by_id_def table_eval)
  have i: "status_of 4 s' = Some TransferStatus.Inventorying"
    using r' by (simp add: status_of_def)
  have "constraints (st_tables (quiet draft_tables))" by (simp add: quiet_def constraints_draft)
  from status_history_has_the_spine [OF this d, of "[Transition 4 TransferStatus.Inventorying]"]
  show ?thesis using run d i by (simp add: passed_through_def)
qed

text \<open>A manifest snapshot is written once: whatever operation runs, a transfer that has a snapshot and
  is still there afterwards has the same one.\<close>

theorem manifest_snapshot_is_immutable:
  assumes "constraints (st_tables s)" and "run_op oper s = (res, s')"
    and "transfer_by_id (st_tables s) tid = Some r" and "tr_manifest_json r = Some m"
    and "transfer_by_id (st_tables s') tid = Some r'"
  shows "tr_manifest_json r' = Some m"
  by (rule manifest_change [OF assms])

definition snapshot_tables :: tables where
  "snapshot_tables = draft_tables\<lparr>tb_transfers := [first_row\<lparr>tr_manifest_json := Some ''m''\<rparr>]\<rparr>"

lemma constraints_snapshot: "constraints snapshot_tables"
  by (simp add: constraints_def transfers_ok_def files_ok_def parts_ok_def objects_ok_def members_ok_def
      events_ok_def snapshot_tables_def table_eval)

theorem manifest_snapshot_is_immutable_witness:
  "\<exists>s'. run_op (EnsureManifestSnapshot 4 ''other'') (quiet snapshot_tables) = (Inr (), s')
     \<and> (\<exists>r. transfer_by_id (st_tables s') 4 = Some r \<and> tr_manifest_json r = Some ''m'')"
proof -
  let ?r = "first_row\<lparr>tr_manifest_json := Some ''m''\<rparr>"
  have "\<exists>s'. run_op (EnsureManifestSnapshot 4 ''other'') (quiet snapshot_tables) = (Inr (), s')
     \<and> transfer_by_id (st_tables s') 4 = Some ?r"
    by (simp add: ensure_manifest_snapshot_def manifest_snapshot_def run_eval update_where_def
        snapshot_tables_def table_eval transfer_by_id_def)
  then obtain s' where run: "run_op (EnsureManifestSnapshot 4 ''other'') (quiet snapshot_tables) = (Inr (), s')"
    and r': "transfer_by_id (st_tables s') 4 = Some ?r" by blast
  have "constraints (st_tables (quiet snapshot_tables))" by (simp add: quiet_def constraints_snapshot)
  moreover have "transfer_by_id (st_tables (quiet snapshot_tables)) 4 = Some ?r"
    by (simp add: quiet_def transfer_by_id_def snapshot_tables_def table_eval)
  ultimately show ?thesis
    using manifest_snapshot_is_immutable [OF _ run _ _ r', of ?r "''m''"] run r' by auto
qed

section \<open>The event outbox\<close>

text \<open>C9: The outbox tells the truth: in every database the program can reach from an empty one, replaying the state events
  of a transfer in sequence order, each change starting from the state before it, ends in the status
  its row holds, and the sequence numbers increase.\<close>

theorem outbox_replays_to_the_status:
  assumes "reachable_store s"
  shows "list_all (\<lambda>r. replay (t_id r) (map payload (tb_events (st_tables s))) = Some (t_status r))
      (tb_transfers (st_tables s))
    \<and> sorted_wrt (<) (map ev_sequence (tb_events (st_tables s)))"
  using reachable_outbox [OF assms] by (simp add: outbox_ok_def in_sequence_def list_all_iff)

theorem outbox_replays_to_the_status_witness:
  "replay 4 (map payload (tb_events draft_tables)) = Some TransferStatus.Draft"
proof -
  have "reachable_store (quiet empty_tables)" by (rule reachable_init) (simp add: quiet_def)
  then have "reachable_store ((quiet draft_tables)\<lparr>st_tick := 1\<rparr>)"
    by (rule reachable_step [where oper = "CreateTransfer first_transfer"]) (simp_all add: created_draft)
  from outbox_replays_to_the_status [OF this] show ?thesis by (simp add: quiet_def table_eval)
qed

text \<open>The outbox drains as a queue: a batch is the oldest unsynchronised events, at most a hundred, and
  acknowledging exactly its ids leaves exactly the events behind it, in order.\<close>

theorem outbox_drains_in_order:
  assumes "outbox_ok (st_tables s)" and "pending_transfer_events tid limit s = (Inr batch, s1)"
    and "acknowledge_transfer_events tid (map e_id batch) s1 = (Inr (), s2)"
  shows "batch = map event_of_row (take (min limit 100) (unsynced_events tid (st_tables s)))
    \<and> unsynced_events tid (st_tables s2) = drop (length batch) (unsynced_events tid (st_tables s))"
proof -
  let ?us = "unsynced_events tid (st_tables s)"
  have b: "batch = map event_of_row (take (min limit 100) ?us)" and t: "st_tables s1 = st_tables s"
    using pending_is_prefix [OF assms(1,2)] by simp_all
  have "set (map e_id batch) = ev_id ` set (take (min limit 100) ?us)"
    by (simp add: b event_of_row_def image_image)
  then have "unsynced_events tid (st_tables s2) = drop (min limit 100) ?us"
    using acknowledge_removes [OF assms(3)] filter_take_drop [OF unsynced_distinct [OF assms(1)]]
    by (simp add: t)
  then show ?thesis by (auto simp: b min_def)
qed

theorem outbox_drains_in_order_witness:
  "\<exists>s2. acknowledge_transfer_events 4 [1000] ((quiet draft_tables)\<lparr>st_tick := 1\<rparr>) = (Inr (), s2)
     \<and> unsynced_events 4 (st_tables s2) = []"
proof -
  let ?s = "quiet draft_tables"
  have p: "pending_transfer_events 4 5 ?s = (Inr (map event_of_row (tb_events draft_tables)), ?s\<lparr>st_tick := 1\<rparr>)"
    by (simp add: pending_transfer_events_def run_eval unsynced_def table_eval)
  have i: "map e_id (map event_of_row (tb_events draft_tables)) = [1000]"
    by (simp add: event_of_row_def table_eval)
  have "\<exists>s2. acknowledge_transfer_events 4 [1000] (?s\<lparr>st_tick := 1\<rparr>) = (Inr (), s2)"
    by (simp add: acknowledge_transfer_events_def acknowledge_one_def atomically_def run_eval)
  then obtain s2 where a: "acknowledge_transfer_events 4 [1000] (?s\<lparr>st_tick := 1\<rparr>) = (Inr (), s2)" by blast
  have o: "outbox_ok (st_tables ?s)" by (simp add: quiet_def outbox_draft)
  have "unsynced_events 4 (st_tables s2) = drop 1 (unsynced_events 4 (st_tables ?s))"
    using outbox_drains_in_order [OF o p a [folded i]] by (simp add: table_eval)
  then show ?thesis using a by (simp add: unsynced_events_def quiet_def table_eval)
qed

section \<open>The part ledger\<close>

definition first_file :: FileRecord where
  "first_file = \<lparr>f_id = 9, f_transfer_id = 4, f_relative_path = ''a'', f_absolute_path = ''/d/a'',
     f_size = 3, f_mtime_ns = 5, f_hash_algorithm = Sha256, f_sha256 = ''h'',
     f_status = FileStatus.Ready, f_bytes_completed = 0\<rparr>"

definition first_part :: PartRecord where
  "first_part = \<lparr>p_file_id = 9, p_part_number = 1, p_source_offset = 0, p_source_length = 3,
     p_transport_length = None, p_checksum = None, p_etag = None, p_attempt_count = 0,
     p_status = PartStatus.Pending, p_last_error = None\<rparr>"

definition file_tables :: tables where
  "file_tables = draft_tables\<lparr>tb_files := [file_row_of 4 first_file], tb_parts := [part_row_of first_part]\<rparr>"

lemmas file_eval = file_tables_def first_file_def file_row_of_def FileRecord.defs first_part_def
  part_row_of_def table_eval

lemmas check_eval = constraints_def transfers_ok_def files_ok_def parts_ok_def objects_ok_def
  members_ok_def events_ok_def

text \<open>After a successful reconciliation the ledger of a file holds as complete exactly the parts the
  remote store listed, each row keeping its number, offset and length.\<close>

theorem reconciled_ledger_is_the_remote_list:
  assumes "reconcile_remote_parts i remote s = (Inr (), s')"
  shows "list_all2 (\<lambda>r r'. pr_owner r' = pr_owner r \<and> pr_part_number r' = pr_part_number r
        \<and> pr_source_offset r' = pr_source_offset r \<and> pr_source_length r' = pr_source_length r
        \<and> (pr_status r' = PartStatus.Complete \<longleftrightarrow>
             (if pr_owner r = i then pr_part_number r \<in> fst ` set remote
              else pr_status r = PartStatus.Complete)))
      (ledger_rows (st_tables s) i) (ledger_rows (st_tables s') i)"
proof -
  have "ledger_rows (st_tables s') i = map (restored i remote) (ledger_rows (st_tables s) i)"
    using reconcile_remote_parts_rows [OF assms] by blast
  then show ?thesis by (simp add: list_all2_map2 list_all2_same restored_complete del: split_paired_All)
qed

lemma reconciled_file:
  "\<exists>s'. reconcile_remote_parts 9 [(1, ''e'')] (quiet file_tables) = (Inr (), s')
     \<and> map pr_status (ledger_rows (st_tables s') 9) = [PartStatus.Complete]"
  by (simp add: reconcile_remote_parts_def atomically_def run_eval has_object_def reset_stmt_def
      restore_stmt_def update_parts_def update_where_def is_part_def refresh_file_progress_def refresh_stmt_def
      confirmed_event_def file_transfer_def owner_event_def file_parts_def completed_sum_def complete_rows_def
      ledger_rows_def check_eval file_by_id_def file_eval)

theorem reconciled_ledger_is_the_remote_list_witness:
  "\<exists>s'. reconcile_remote_parts 9 [(1, ''e'')] (quiet file_tables) = (Inr (), s')
     \<and> list_all2 (\<lambda>r r'. pr_status r' = PartStatus.Complete \<longleftrightarrow> pr_part_number r = 1)
         (ledger_rows (st_tables (quiet file_tables)) 9) (ledger_rows (st_tables s') 9)"
proof -
  obtain s' where run: "reconcile_remote_parts 9 [(1, ''e'')] (quiet file_tables) = (Inr (), s')"
    using reconciled_file by blast
  have rows: "ledger_rows (st_tables (quiet file_tables)) 9 = [part_row_of first_part]"
    by (simp add: ledger_rows_def has_object_def quiet_def file_eval)
  from reconciled_ledger_is_the_remote_list [OF run] have
    "list_all2 (\<lambda>r r'. pr_status r' = PartStatus.Complete \<longleftrightarrow> pr_part_number r = 1)
       (ledger_rows (st_tables (quiet file_tables)) 9) (ledger_rows (st_tables s') 9)"
    unfolding rows by (auto simp: list_all2_Cons1 part_row_of_def first_part_def)
  then show ?thesis using run by blast
qed

text \<open>Confirming a part of a file records its ETag, checksum and length, counts the attempt and clears
  the error on that part and no other, and the file's completed bytes are then the sum of the
  lengths of its complete parts.\<close>

theorem confirmed_part_counts:
  assumes "confirm_part i n etag checksum len s = (Inr (), s')" and "\<not> has_object (st_tables s) i"
    and "file_by_id (st_tables s) i = Some f"
  shows "\<exists>now f'. tb_parts (st_tables s') = update_where (is_part i n)
        (\<lambda>r. r\<lparr>pr_status := PartStatus.Complete, pr_etag := Some etag, pr_checksum := checksum,
               pr_transport_length := Some len, pr_attempt_count := pr_attempt_count r + 1,
               pr_last_attempt := Some now, pr_last_error := None\<rparr>) (tb_parts (st_tables s))
      \<and> file_by_id (st_tables s') i = Some f'
      \<and> unat (f_bytes_completed f') = completed_sum i (tb_parts (st_tables s'))"
  by (rule confirm_part_file [OF assms])

theorem confirmed_part_counts_witness:
  "\<exists>s' f'. confirm_part 9 1 ''e'' None 3 (quiet file_tables) = (Inr (), s')
     \<and> file_by_id (st_tables s') 9 = Some f' \<and> unat (f_bytes_completed f') = completed_sum 9 (tb_parts (st_tables s'))"
proof -
  have "\<exists>s'. confirm_part 9 1 ''e'' None 3 (quiet file_tables) = (Inr (), s')"
    by (simp add: confirm_part_def has_transport_object_def run_eval has_object_def confirm_stmt_def
        update_parts_def update_where_def is_part_def refresh_file_progress_def refresh_stmt_def fits_sql_def
        confirmed_event_def failed_event_def file_transfer_def owner_event_def file_parts_def
        completed_sum_def complete_rows_def check_eval file_by_id_def file_eval)
  then obtain s' where run: "confirm_part 9 1 ''e'' None 3 (quiet file_tables) = (Inr (), s')" by blast
  have "\<not> has_object (st_tables (quiet file_tables)) 9"
    "file_by_id (st_tables (quiet file_tables)) 9 = Some (file_row_of 4 first_file)"
    by (simp_all add: has_object_def file_by_id_def quiet_def file_eval)
  from confirmed_part_counts [OF run this] show ?thesis using run by blast
qed

text \<open>A part plan reads back: after a successful \<^verbatim>\<open>replace_part_plan\<close>, and unless the database fails the
  read, \<^verbatim>\<open>parts_for_file\<close> returns the plan, ordered by part number.\<close>

theorem part_plan_round_trip:
  assumes "replace_part_plan i parts s = (Inr (), s')" and "list_all (\<lambda>p. p_file_id p = i) parts"
    and "st_fault s' (st_tick s') = None" and "st_fault s' (Suc (st_tick s')) = None"
  shows "fst (parts_for_file i s') = Inr (sort_key p_part_number parts)"
proof -
  have "ledger_rows (st_tables s') i =
      filter (\<lambda>r. pr_owner r \<noteq> i) (ledger_rows (st_tables s) i) @ map part_row_of parts"
    using replace_part_plan_rows [OF assms(1)] by blast
  then show ?thesis using parts_for_file_ok [OF assms(3,4)] parts_of_plan [OF assms(2)] by simp
qed

lemma planned_file:
  "\<exists>s'. replace_part_plan 9 [first_part] (quiet file_tables) = (Inr (), s') \<and> st_fault s' = (\<lambda>_. None)"
  by (simp add: replace_part_plan_def atomically_def run_eval has_object_def delete_parts_def insert_part_def
      refresh_stmt_def part_fits_def fits_sql_def file_parts_def completed_sum_def complete_rows_def check_eval
      file_by_id_def update_where_def file_eval)

theorem part_plan_round_trip_witness:
  "\<exists>s'. replace_part_plan 9 [first_part] (quiet file_tables) = (Inr (), s')
     \<and> fst (parts_for_file 9 s') = Inr [first_part]"
proof -
  obtain s' where run: "replace_part_plan 9 [first_part] (quiet file_tables) = (Inr (), s')"
    and f: "st_fault s' = (\<lambda>_. None)" using planned_file by blast
  have "list_all (\<lambda>p. p_file_id p = 9) [first_part]" by (simp add: first_part_def)
  from part_plan_round_trip [OF run this] show ?thesis using run f by simp
qed

section \<open>Inventories, pages and settings\<close>

text \<open>C6: A replacement does what its name says. A new inventory, a new transport plan and a new part plan each
  leave, when they succeed, exactly the rows of everything else followed by the new ones in order, with
  what hung on the old rows gone and the counters of the transfer or of the file set to the new rows,
  and no other table or row has changed; when they fail, at whatever statement, nothing has.\<close>

theorem replacements_are_exact:
  "replaces (replaced_inventory tid files) (replace_inventory tid files) s
    \<and> replaces (replaced_plan tid objects members) (replace_transport_plan tid objects members) s
    \<and> replaces (replaced_parts i parts) (replace_part_plan i parts) s"
  using inventory_replaced plan_replaced parts_replaced by blast

text \<open>Indexing a planned file again drops its parts.\<close>

theorem replacements_are_exact_witness:
  "\<exists>s'. replace_inventory 4 [first_file] (quiet file_tables) = (Inr (), s')
     \<and> tb_files (st_tables s') = [file_row_of 4 first_file] \<and> tb_parts (st_tables s') = []"
proof -
  have "\<exists>s'. replace_inventory 4 [first_file] (quiet file_tables) = (Inr (), s')"
    by (simp add: replace_inventory_def atomically_def insert_file_def run_eval drop_files_def fits_sql_def
        check_eval inventory_bytes_def saturating_add_def file_eval)
  then obtain s' where run: "replace_inventory 4 [first_file] (quiet file_tables) = (Inr (), s')" by blast
  have "replaced_inventory 4 [first_file] file_tables (st_tables s')"
    using replacements_are_exact [of 4 "[first_file]" "quiet file_tables"] run by (simp add: replaces_def quiet_def)
  then obtain now :: datetime where "tb_files (st_tables s') = filter (\<lambda>r. f_transfer_id r \<noteq> 4) (tb_files file_tables) @ [file_row_of 4 first_file]"
    and "tb_parts (st_tables s') = filter (\<lambda>p. pr_owner p \<notin> f_id ` {r \<in> set (tb_files file_tables). f_transfer_id r = 4}) (tb_parts file_tables)"
    by (auto simp: replaced_inventory_def Let_def)
  moreover have "{r \<in> set (tb_files file_tables). f_transfer_id r = 4} = {file_row_of 4 first_file}"
    by (auto simp: file_eval)
  ultimately have "tb_files (st_tables s') = [file_row_of 4 first_file]" "tb_parts (st_tables s') = []"
    by (simp_all add: file_eval)
  with run show ?thesis by blast
qed

text \<open>An inventory is replaced as a whole: after a success \<^verbatim>\<open>files_for_transfer\<close> returns the new files,
  ordered by path, and the transfer counts them; after a failure no table has changed.\<close>

theorem inventory_is_replaced_atomically:
  assumes "replace_inventory tid files s = (res, s')"
  shows "case res of
      Inl e \<Rightarrow> st_tables s' = st_tables s
    | Inr _ \<Rightarrow> fst (files_for_transfer tid (s'\<lparr>st_fault := \<lambda>_. None\<rparr>))
          = Inr (sort_key f_relative_path (map (\<lambda>f. f\<lparr>f_transfer_id := tid\<rparr>) files))
        \<and> list_all (\<lambda>r. t_id r = tid \<longrightarrow> t_file_count r = of_nat (length files)
            \<and> t_original_bytes r = inventory_bytes files) (tb_transfers (st_tables s'))"
proof (cases res)
  case (Inl e)
  then show ?thesis using assms by (auto simp: replace_inventory_def dest: atomically_Inl)
next
  case (Inr u)
  then have run: "replace_inventory tid files s = (Inr (), s')" using assms by simp
  obtain now where rows: "tb_files (st_tables s') =
      filter (\<lambda>r. f_transfer_id r \<noteq> tid) (tb_files (st_tables s)) @ map (file_row_of tid) files"
    and counts: "tb_transfers (st_tables s') = update_where (\<lambda>r. t_id r = tid)
         (\<lambda>r. r\<lparr>t_file_count := of_nat (length files), t_original_bytes := inventory_bytes files,
                t_updated_at := now\<rparr>) (tb_transfers (st_tables s))"
    using replace_inventory_rows [OF run] by (elim conjE exE)
  have "fst (files_for_transfer tid (s'\<lparr>st_fault := \<lambda>_. None\<rparr>))
      = Inr (map FileRecord.truncate (sort_key f_relative_path
          (filter (\<lambda>r. f_transfer_id r = tid) (tb_files (st_tables s')))))"
    by (simp add: files_for_transfer_def query_def execute_def)
  moreover have "list_all (\<lambda>r. t_id r = tid \<longrightarrow> t_file_count r = of_nat (length files)
      \<and> t_original_bytes r = inventory_bytes files) (tb_transfers (st_tables s'))"
    unfolding counts update_where_def list.pred_map by (simp add: list.pred_set)
  ultimately show ?thesis using Inr files_of_inventory by (simp only: rows sum.case)
qed

definition inventory_tables :: tables where
  "inventory_tables = draft_tables\<lparr>tb_files := [file_row_of 4 first_file]\<rparr>"

theorem inventory_is_replaced_atomically_witness:
  "\<exists>s'. replace_inventory 4 [first_file] (quiet draft_tables) = (Inr (), s')
     \<and> fst (files_for_transfer 4 (s'\<lparr>st_fault := \<lambda>_. None\<rparr>)) = Inr [first_file]"
proof -
  have "\<exists>s'. replace_inventory 4 [first_file] (quiet draft_tables) = (Inr (), s')"
    by (simp add: replace_inventory_def atomically_def insert_file_def run_eval drop_files_def fits_sql_def
        check_eval inventory_bytes_def saturating_add_def file_eval)
  then obtain s' where run: "replace_inventory 4 [first_file] (quiet draft_tables) = (Inr (), s')" by blast
  have "first_file\<lparr>f_transfer_id := 4\<rparr> = first_file" by (simp add: first_file_def)
  then show ?thesis using inventory_is_replaced_atomically [OF run] run by simp
qed

text \<open>Paging through the files of a transfer shows each file once: with a page size between one and a
  hundred, the pages at multiples of it, taken together, are the files of the transfer, the ones of
  the active object first, pending ones before uploaded ones, then by path; every page reports the
  same total.\<close>

theorem pages_cover_the_files:
  assumes "st_fault s = (\<lambda>_. None)" and "sums_fit (st_tables s)" and "1 \<le> k" and "k \<le> 100"
    and "length (ordered_files (st_tables s) tid active) \<le> n * k" and "n * k < 2 ^ 63"
  shows "\<exists>pages. map (\<lambda>i. fst (transfer_file_progress tid (of_nat (i * k)) (of_nat k) active s)) [0..<n]
        = map Inr pages
    \<and> concat (map fpp_files pages)
        = map (file_progress (st_tables s)) (ordered_files (st_tables s) tid active)
    \<and> mset (ordered_files (st_tables s) tid active)
        = mset (filter (\<lambda>f. f_transfer_id f = tid) (tb_files (st_tables s)))"
proof -
  let ?fs = "ordered_files (st_tables s) tid active"
  have k: "unat (page_limit (of_nat k)) = k"
    using assms(3,4) by (simp add: page_limit_def unat_max unat_min unat_of_nat take_bit_nat_eq_self)
  have off: "unat (of_nat (i * k) :: u64) = i * k" "i * k < 2 ^ 63" if "i < n" for i
  proof -
    have "i * k \<le> n * k" using that by simp
    then show "i * k < 2 ^ 63" using assms(6) by linarith
    then have "i * k < 2 ^ 64" by simp
    then show "unat (of_nat (i * k) :: u64) = i * k" by (simp add: unat_of_nat take_bit_nat_eq_self del: of_nat_mult)
  qed
  define page where "page i = \<lparr>fpp_files = map (file_progress (st_tables s)) (take k (drop (i * k) ?fs)),
     fpp_total = of_nat (length ?fs), fpp_offset = of_nat (i * k), fpp_limit = page_limit (of_nat k)\<rparr>" for i
  have "fst (transfer_file_progress tid (of_nat (i * k)) (of_nat k) active s) = Inr (page i)" if "i < n" for i
    using transfer_file_progress_page [of s "of_nat (i * k)" tid "of_nat k" active] assms(1,2) off [OF that]
    by (simp add: k page_def del: of_nat_mult)
  then have "map (\<lambda>i. fst (transfer_file_progress tid (of_nat (i * k)) (of_nat k) active s)) [0..<n]
      = map Inr (map page [0..<n])" by simp
  moreover have "concat (map fpp_files (map page [0..<n])) = map (file_progress (st_tables s)) ?fs"
    using arg_cong [OF concat_pages [OF assms(5)], of "map (file_progress (st_tables s))"]
    by (simp add: map_concat comp_def page_def)
  ultimately show ?thesis using mset_ordered_files by blast
qed

theorem pages_cover_the_files_witness:
  "\<exists>page. fst (transfer_file_progress 4 0 1 None (quiet inventory_tables)) = Inr page
     \<and> map fp_relative_path (fpp_files page) = [''a'']"
proof -
  have "ordered_files inventory_tables 4 None = [file_row_of 4 first_file]"
    by (simp add: ordered_files_def inventory_tables_def file_eval Let_def)
  moreover have "st_fault (quiet inventory_tables) = (\<lambda>_. None)" "sums_fit (st_tables (quiet inventory_tables))"
    "st_tables (quiet inventory_tables) = inventory_tables"
    by (simp_all add: quiet_def sums_fit_def inventory_tables_def file_eval)
  ultimately show ?thesis
    using pages_cover_the_files [of "quiet inventory_tables" 1 4 None 1]
    by (auto simp: file_progress_def Let_def file_row_of_def first_file_def FileRecord.defs)
qed

text \<open>A setting reads back, and writing one leaves the others: after a successful write, a read the
  database does not fail returns the new value under its key and the old values elsewhere.\<close>

theorem setting_round_trip:
  assumes "put_setting k v s = (Inr (), s')" and "st_fault s' (st_tick s') = None"
  shows "fst (get_setting j s')
    = Inr (if j = k then Some v else map_option sg_value (find (\<lambda>r. sg_key r = j) (tb_settings (st_tables s))))"
  by (rule put_get_setting [OF assms])

theorem setting_round_trip_witness:
  "\<exists>s'. put_setting ''k'' ''v'' (quiet empty_tables) = (Inr (), s') \<and> fst (get_setting ''k'' s') = Inr (Some ''v'')"
proof -
  have "\<exists>s'. put_setting ''k'' ''v'' (quiet empty_tables) = (Inr (), s') \<and> st_fault s' = (\<lambda>_. None)"
    by (simp add: put_setting_def run_eval upsert_def empty_tables_def)
  then show ?thesis using setting_round_trip by fastforce
qed

end
