(* ===== verification/Upload.thy ===== *)
theory Upload
  imports Planner Inventory StoreBehaviour
begin

text \<open>
  The upload engine of \<^verbatim>\<open>crates/courier-transfer\<close>: the data-plane contract (\<^verbatim>\<open>store.rs\<close>),
  reconciliation with the remote part list (\<^verbatim>\<open>reconcile.rs\<close>), and the executor that uploads the
  missing parts and completes the upload (\<^verbatim>\<open>executor.rs\<close>).

  A run's state is a \<open>world\<close>: the local database, an environment \<open>'w\<close> that the remote store, the
  source file system, the observer's pause flag and the random generator act on, and a trace. The
  trace holds the observer's notifications, the sleeps, and each request to the remote store
  with its answer; no definition reads it.
\<close>

section \<open>The data-plane contract\<close>

record UploadSession =
  us_object_key :: string
  us_upload_id :: string

record RemotePart =
  rp_part_number :: u32
  rp_etag :: string
  rp_size :: u64

datatype StoreError =
    Transient string
  | AuthorizationExpired
  | UploadNotFound
  | Permanent string
  | Paused

definition is_retryable :: "StoreError \<Rightarrow> bool" where
  "is_retryable self = (case self of Transient _ \<Rightarrow> True | AuthorizationExpired \<Rightarrow> True | _ \<Rightarrow> False)"

definition store_error_to_string :: "StoreError \<Rightarrow> string" where
  "store_error_to_string self =
     (case self of
        Transient m \<Rightarrow> ''transient object-store failure: '' @ m
      | AuthorizationExpired \<Rightarrow> ''upload authorization expired''
      | UploadNotFound \<Rightarrow> ''multipart upload no longer exists''
      | Permanent m \<Rightarrow> ''permanent object-store failure: '' @ m
      | Paused \<Rightarrow> ''upload paused'')"

record 'w multipart_store =
  ms_begin :: "string \<Rightarrow> 'w \<Rightarrow> (StoreError + UploadSession) \<times> 'w"
  ms_list_parts :: "UploadSession \<Rightarrow> 'w \<Rightarrow> (StoreError + RemotePart list) \<times> 'w"
  ms_upload_part :: "UploadSession \<Rightarrow> u32 \<Rightarrow> bytes \<Rightarrow> 'w \<Rightarrow> (StoreError + RemotePart) \<times> 'w"
  ms_complete :: "UploadSession \<Rightarrow> RemotePart list \<Rightarrow> 'w \<Rightarrow> (StoreError + unit) \<times> 'w"
  ms_object_exists :: "string \<Rightarrow> 'w \<Rightarrow> (StoreError + bool) \<times> 'w"
  ms_abort :: "UploadSession \<Rightarrow> 'w \<Rightarrow> (StoreError + unit) \<times> 'w"

text \<open>The rest of the environment: the observer's pause flag, the random draw of a delay, \<^verbatim>\<open>open\<close>.\<close>

record 'w runtime =
  rt_should_pause :: "'w \<Rightarrow> bool \<times> 'w"
  rt_draw :: "u64 \<Rightarrow> 'w \<Rightarrow> u64 \<times> 'w"
  rt_open :: "path \<Rightarrow> 'w \<Rightarrow> (io_error + unit) \<times> 'w"

record UploadProgress =
  up_parts_uploaded :: u32
  up_parts_already_present :: u32
  up_source_bytes_confirmed :: u64

datatype CompletionOutcome = Completed | AlreadyComplete

datatype upload_event =
    PartConfirmed u32 u64
  | Reconciled u64
  | PartPlanRevised nat nat u64
  | Slept duration
  | Began string "StoreError + UploadSession"
  | Listed UploadSession "StoreError + RemotePart list"
  | Uploaded UploadSession u32 bytes "StoreError + RemotePart"
  | Completing UploadSession "RemotePart list" "StoreError + unit"
  | Exists string "StoreError + bool"

record 'w world =
  w_db :: store
  w_env :: 'w
  w_trace :: "upload_event list"

type_synonym ('w, 'e, 'a) run = "('w world, 'e, 'a) comp"

definition on_db :: "'a db \<Rightarrow> ('w, CourierError, 'a) run" where
  "on_db m = (\<lambda>s. case m (w_db s) of (r, db') \<Rightarrow> (r, s\<lparr>w_db := db'\<rparr>))"

definition note_event :: "upload_event \<Rightarrow> ('w, 'e, unit) run" where
  "note_event ev = modifies (\<lambda>s. s\<lparr>w_trace := w_trace s @ [ev]\<rparr>)"

definition on_remote ::
  "('w \<Rightarrow> (StoreError + 'a) \<times> 'w) \<Rightarrow> (StoreError + 'a \<Rightarrow> upload_event) \<Rightarrow> ('w, StoreError, 'a) run" where
  "on_remote op event = (\<lambda>s. case op (w_env s) of
     (r, w') \<Rightarrow> (r, s\<lparr>w_env := w', w_trace := w_trace s @ [event r]\<rparr>))"

definition on_world :: "('w \<Rightarrow> 'a \<times> 'w) \<Rightarrow> ('w, 'e, 'a) run" where
  "on_world op = (\<lambda>s. case op (w_env s) of (x, w') \<Rightarrow> (Inr x, s\<lparr>w_env := w'\<rparr>))"

definition on_files :: "path \<Rightarrow> ('w \<Rightarrow> (io_error + 'a) \<times> 'w) \<Rightarrow> ('w, CourierError, 'a) run" where
  "on_files p op = (\<lambda>s. case op (w_env s) of
     (Inl e, w') \<Rightarrow> (Inl (Io p e), s\<lparr>w_env := w'\<rparr>) | (Inr x, w') \<Rightarrow> (Inr x, s\<lparr>w_env := w'\<rparr>))"

text \<open>An operation of the inventory module run in the world.\<close>

definition on_source_check :: "('w \<times> unit, CourierError, 'a) comp \<Rightarrow> ('w, CourierError, 'a) run" where
  "on_source_check m = (\<lambda>s. case m (w_env s, ()) of (r, (w', _)) \<Rightarrow> (r, s\<lparr>w_env := w'\<rparr>))"

definition begin_upload :: "'w multipart_store \<Rightarrow> string \<Rightarrow> ('w, StoreError, UploadSession) run" where
  "begin_upload st key = on_remote (ms_begin st key) (Began key)"

definition list_parts :: "'w multipart_store \<Rightarrow> UploadSession \<Rightarrow> ('w, StoreError, RemotePart list) run" where
  "list_parts st session = on_remote (ms_list_parts st session) (Listed session)"

definition upload_part ::
  "'w multipart_store \<Rightarrow> UploadSession \<Rightarrow> u32 \<Rightarrow> bytes \<Rightarrow> ('w, StoreError, RemotePart) run" where
  "upload_part st session number bs = on_remote (ms_upload_part st session number bs) (Uploaded session number bs)"

definition complete_upload ::
  "'w multipart_store \<Rightarrow> UploadSession \<Rightarrow> RemotePart list \<Rightarrow> ('w, StoreError, unit) run" where
  "complete_upload st session parts = on_remote (ms_complete st session parts) (Completing session parts)"

definition object_exists :: "'w multipart_store \<Rightarrow> string \<Rightarrow> ('w, StoreError, bool) run" where
  "object_exists st key = on_remote (ms_object_exists st key) (Exists key)"

definition sleep_delay :: "'w runtime \<Rightarrow> RetryPolicy \<Rightarrow> u32 \<Rightarrow> ('w, 'e, unit) run" where
  "sleep_delay rt retry attempt =
     bindE (on_world (rt_draw rt (of_nat (delay_ceiling retry attempt div 10 ^ 6)))) (\<lambda>drawn.
       note_event (Slept (delay (\<lambda>_. drawn) retry attempt)))"

section \<open>Errors\<close>

datatype ReconcileError =
    LocalReconcile CourierError
  | RemoteReconcile StoreError
  | UnexpectedRemotePart u32
  | RemotePartSizeMismatch u32 u64 u64

datatype UploadError =
    Local CourierError
  | Reconcile ReconcileError
  | Plan PlanError
  | Remote StoreError
  | RetriesExhausted u32 u32 StoreError
  | PartTooLarge u32 u64
  | InvalidRetryPolicy
  | IncompleteParts nat
  | MissingUploadSession
  | MissingEtag u32
  | UploadPaused

definition store_error_class :: "StoreError \<Rightarrow> TransferErrorClass" where
  "store_error_class error =
     (case error of
        Transient _ \<Rightarrow> TransferErrorClass.Transient
      | AuthorizationExpired \<Rightarrow> TransferErrorClass.AuthorizationExpired
      | UploadNotFound \<Rightarrow> TransferErrorClass.UploadNotFound
      | Permanent _ \<Rightarrow> TransferErrorClass.Permanent
      | Paused \<Rightarrow> TransferErrorClass.Paused)"

definition upload_error_class :: "UploadError \<Rightarrow> TransferErrorClass" where
  "upload_error_class error =
     (case error of
        Local (CourierError.SourceModified _) \<Rightarrow> TransferErrorClass.SourceChanged
      | Local _ \<Rightarrow> TransferErrorClass.Local
      | Remote e \<Rightarrow> store_error_class e
      | RetriesExhausted _ _ _ \<Rightarrow> TransferErrorClass.RetriesExhausted
      | UploadPaused \<Rightarrow> TransferErrorClass.Paused
      | Reconcile _ \<Rightarrow> TransferErrorClass.Reconciliation
      | _ \<Rightarrow> TransferErrorClass.InvalidPlan)"

abbreviation db_step :: "'a db \<Rightarrow> ('w, UploadError, 'a) run" where
  "db_step m \<equiv> map_errE Local (on_db m)"

definition object_event :: "FileRecord \<Rightarrow> TransferEventDetails" where
  "object_event file = default_details\<lparr>d_object_id := Some (f_id file)\<rparr>"

section \<open>Reconciliation\<close>

definition default_object_key :: "FileRecord \<Rightarrow> string" where
  "default_object_key file =
     ''incoming/'' @ uuid_simple (f_transfer_id file) @ ''/'' @ uuid_simple (f_id file) @ ''/payload''"

definition open_session :: "'w multipart_store \<Rightarrow> FileRecord \<Rightarrow> ('w, ReconcileError, UploadSession) run" where
  "open_session st file =
     bindE (map_errE LocalReconcile (on_db (upload_session (f_id file)))) (\<lambda>found.
     case found of
       Some (key, upload_id) \<Rightarrow> ok \<lparr>us_object_key = key, us_upload_id = upload_id\<rparr>
     | None \<Rightarrow>
         bindE (map_errE LocalReconcile (on_db (object_key (f_id file)))) (\<lambda>found_key.
         let key = (case found_key of None \<Rightarrow> default_object_key file | Some k \<Rightarrow> k) in
         bindE (map_errE RemoteReconcile (begin_upload st key)) (\<lambda>session.
         thenE (map_errE LocalReconcile (on_db (set_upload_session (f_id file)
                  (us_object_key session) (us_upload_id session)))) (ok session))))"

definition planned_sizes :: "PartRecord list \<Rightarrow> u32 \<Rightarrow> u64 option" where
  "planned_sizes parts = map_of (rev (map (\<lambda>p. (p_part_number p, p_source_length p)) parts))"

definition check_remote :: "(u32 \<Rightarrow> u64 option) \<Rightarrow> RemotePart list \<Rightarrow> ReconcileError option" where
  "check_remote planned remote =
     (case find (\<lambda>pr. planned (rp_part_number pr) = None) remote of
        Some pr \<Rightarrow> Some (UnexpectedRemotePart (rp_part_number pr))
      | None \<Rightarrow>
          (case find (\<lambda>pr. rp_size pr \<noteq> 0 \<and> Some (rp_size pr) \<noteq> planned (rp_part_number pr))
                  remote of
             Some pr \<Rightarrow> Some (RemotePartSizeMismatch (rp_part_number pr) (rp_size pr)
                                 (the (planned (rp_part_number pr))))
           | None \<Rightarrow> None))"

definition reconcile_file ::
  "'w multipart_store \<Rightarrow> FileRecord \<Rightarrow> ('w, ReconcileError, UploadSession \<times> RemotePart list) run" where
  "reconcile_file st file =
     bindE (open_session st file) (\<lambda>session.
     bindE (map_errE RemoteReconcile (list_parts st session)) (\<lambda>remote.
     bindE (map_errE LocalReconcile (on_db (parts_for_file (f_id file)))) (\<lambda>parts.
     case check_remote (planned_sizes parts) remote of
       Some e \<Rightarrow> fail e
     | None \<Rightarrow>
         thenE (map_errE LocalReconcile (on_db (reconcile_remote_parts (f_id file)
                  (map (\<lambda>pr. (rp_part_number pr, rp_etag pr)) remote))))
           (ok (session, remote)))))"

section \<open>The executor\<close>

text \<open>The attempts of \<^verbatim>\<open>for attempt in 0..retry.max_attempts\<close>.\<close>

definition attempts :: "RetryPolicy \<Rightarrow> u32 list" where
  "attempts retry = map of_nat [0..<unat (r_max_attempts retry)]"

fun reconcile_attempts ::
  "'w multipart_store \<Rightarrow> 'w runtime \<Rightarrow> FileRecord \<Rightarrow> RetryPolicy \<Rightarrow> u32 list
     \<Rightarrow> ('w, ReconcileError, (UploadSession \<times> RemotePart list) option) run" where
  "reconcile_attempts st rt file retry [] = ok None"
| "reconcile_attempts st rt file retry (attempt # rest) =
     bindE (tryE (reconcile_file st file)) (\<lambda>result.
     case result of
       Inr found \<Rightarrow> ok (Some found)
     | Inl (RemoteReconcile error) \<Rightarrow>
         if is_retryable error then
           thenE (map_errE LocalReconcile (on_db (record_transfer_event (f_transfer_id file)
                    ''object.reconciliation_retry''
                    ((object_event file)\<lparr>d_attempt := Some (attempt + 1),
                       d_error_class := Some (store_error_class error)\<rparr>))))
             (if attempt + 1 = r_max_attempts retry then fail (RemoteReconcile error)
              else thenE (sleep_delay rt retry attempt)
                     (reconcile_attempts st rt file retry rest))
         else fail (RemoteReconcile error)
     | Inl error \<Rightarrow> fail error)"

text \<open>\<open>None\<close> is the \<^verbatim>\<open>unreachable!\<close> after the loop.\<close>

definition reconcile_with_retry ::
  "'w multipart_store \<Rightarrow> 'w runtime \<Rightarrow> FileRecord \<Rightarrow> RetryPolicy
     \<Rightarrow> ('w, ReconcileError, (UploadSession \<times> RemotePart list) option) run" where
  "reconcile_with_retry st rt file retry = reconcile_attempts st rt file retry (attempts retry)"

definition source_shortened :: "CourierError \<Rightarrow> CourierError" where
  "source_shortened e =
     (case e of
        Io p (IoError UnexpectedEof m) \<Rightarrow>
          Io p (IoError UnexpectedEof ''source shortened during transfer'')
      | _ \<Rightarrow> e)"

definition part_failed_details :: "FileRecord \<Rightarrow> u32 \<Rightarrow> u32 \<Rightarrow> StoreError \<Rightarrow> TransferEventDetails" where
  "part_failed_details file number attempt error =
     (object_event file)\<lparr>d_part_number := Some number, d_attempt := Some (attempt + 1),
       d_error_class := Some (store_error_class error)\<rparr>"

text \<open>The attempts at one part: \<open>Some error\<close> is the last retryable error when none succeeded.\<close>

fun part_attempts ::
  "'w multipart_store \<Rightarrow> 'w runtime \<Rightarrow> FileRecord \<Rightarrow> RetryPolicy \<Rightarrow> UploadSession \<Rightarrow> PartRecord
     \<Rightarrow> bytes \<Rightarrow> StoreError option \<Rightarrow> u32 list \<Rightarrow> ('w, UploadError, StoreError option) run" where
  "part_attempts st rt file retry session pr bs last_error [] = ok last_error"
| "part_attempts st rt file retry session pr bs last_error (attempt # rest) =
     bindE (on_world (rt_should_pause rt)) (\<lambda>pause.
     if pause then fail UploadPaused
     else bindE (tryE (upload_part st session (p_part_number pr) bs)) (\<lambda>result.
       case result of
         Inr remote \<Rightarrow>
           thenE (db_step (confirm_part (f_id file) (p_part_number pr) (rp_etag remote) None
                    (rp_size remote)))
             (thenE (note_event (PartConfirmed (p_part_number pr) (p_source_length pr)))
                (ok None))
       | Inl error \<Rightarrow>
           thenE (db_step (record_part_failure (f_id file) (p_part_number pr)
                    (store_error_to_string error)))
           (thenE (db_step (record_transfer_event (f_transfer_id file) ''part.attempt_failed''
                    (part_failed_details file (p_part_number pr) attempt error)))
           (if \<not> is_retryable error then fail (Remote error)
            else if attempt + 1 < r_max_attempts retry
            then thenE (sleep_delay rt retry attempt)
                   (part_attempts st rt file retry session pr bs (Some error) rest)
            else part_attempts st rt file retry session pr bs (Some error) rest))))"

definition upload_one_part ::
  "'w fs_ops \<Rightarrow> 'w multipart_store \<Rightarrow> 'w runtime \<Rightarrow> FileRecord \<Rightarrow> RetryPolicy \<Rightarrow> UploadSession
     \<Rightarrow> PartRecord \<Rightarrow> ('w, UploadError, unit) run" where
  "upload_one_part fs st rt file retry session pr =
     bindE (on_world (rt_should_pause rt)) (\<lambda>pause.
     if pause then fail UploadPaused
     else thenE (map_errE Local (on_source_check (verify_source_unchanged fs file)))
       (bindE (map_errE (\<lambda>e. Local (source_shortened e)) (on_files (f_absolute_path file)
                (fs_read_exact_at fs (f_absolute_path file) (p_source_offset pr)
                   (unat (p_source_length pr))))) (\<lambda>bs.
        bindE (part_attempts st rt file retry session pr bs None (attempts retry)) (\<lambda>last_error.
        case last_error of
          None \<Rightarrow> ok ()
        | Some source \<Rightarrow>
            fail (RetriesExhausted (p_part_number pr) (r_max_attempts retry) source)))))"

fun upload_parts_loop ::
  "'w fs_ops \<Rightarrow> 'w multipart_store \<Rightarrow> 'w runtime \<Rightarrow> FileRecord \<Rightarrow> RetryPolicy \<Rightarrow> UploadSession
     \<Rightarrow> u32 \<Rightarrow> PartRecord list \<Rightarrow> ('w, UploadError, u32) run" where
  "upload_parts_loop fs st rt file retry session uploaded [] = ok uploaded"
| "upload_parts_loop fs st rt file retry session uploaded (pr # parts) =
     thenE (upload_one_part fs st rt file retry session pr)
       (upload_parts_loop fs st rt file retry session (uploaded + 1) parts)"

definition confirmed_source_bytes :: "PartRecord list \<Rightarrow> u64" where
  "confirmed_source_bytes parts = sum_list (map p_source_length (filter is_complete parts))"

text \<open>The plan after reconciliation: replanned when its unconfirmed tail is too coarse.\<close>

definition revise_plan :: "FileRecord \<Rightarrow> PartRecord list \<Rightarrow> ('w, UploadError, PartRecord list) run" where
  "revise_plan file parts =
     bindE (map_errE Plan (lift_res (replan_large_unconfirmed_parts (f_id file) (f_size file) parts)))
     (\<lambda>replan. case replan of
        None \<Rightarrow> ok parts
      | Some replanned \<Rightarrow>
          thenE (db_step (replace_part_plan (f_id file) replanned))
            (thenE (note_event (PartPlanRevised (length parts) (length replanned)
                      (target_part_size default_limits)))
               (ok replanned)))"

text \<open>Whether the object is already there, asked only when its key is known.\<close>

definition already_uploaded :: "'w multipart_store \<Rightarrow> FileRecord \<Rightarrow> ('w, UploadError, bool) run" where
  "already_uploaded st file =
     bindE (db_step (object_key (f_id file))) (\<lambda>key.
     case key of None \<Rightarrow> ok False | Some k \<Rightarrow> map_errE Remote (object_exists st k))"

definition upload_missing_parts_inner ::
  "'w fs_ops \<Rightarrow> 'w multipart_store \<Rightarrow> 'w runtime \<Rightarrow> FileRecord \<Rightarrow> RetryPolicy
     \<Rightarrow> ('w, UploadError, UploadProgress option) run" where
  "upload_missing_parts_inner fs st rt file retry =
     (if r_max_attempts retry = 0 then fail InvalidRetryPolicy
      else bindE (on_world (rt_should_pause rt)) (\<lambda>pause.
      if pause then fail UploadPaused
      else bindE (already_uploaded st file) (\<lambda>exists.
      if exists then
        thenE (db_step (mark_file_uploaded (f_id file)))
        (thenE (note_event (Reconciled (f_size file)))
        (bindE (db_step (parts_for_file (f_id file))) (\<lambda>parts.
          ok (Some \<lparr>up_parts_uploaded = 0, up_parts_already_present = of_nat (length parts),
                     up_source_bytes_confirmed = f_size file\<rparr>))))
      else
        bindE (map_errE Reconcile (reconcile_with_retry st rt file retry)) (\<lambda>reconciled.
        case reconciled of
          None \<Rightarrow> ok None
        | Some (session, existing) \<Rightarrow>
        bindE (db_step (parts_for_file (f_id file))) (\<lambda>planned.
        bindE (revise_plan file planned) (\<lambda>parts.
        thenE (note_event (Reconciled (confirmed_source_bytes parts)))
        (thenE (map_errE Local (on_files (f_absolute_path file) (rt_open rt (f_absolute_path file))))
        (bindE (upload_parts_loop fs st rt file retry session 0
                  (filter (\<lambda>pr. \<not> is_complete pr) parts)) (\<lambda>uploaded.
         bindE (db_step (parts_for_file (f_id file))) (\<lambda>confirmed.
         ok (Some \<lparr>up_parts_uploaded = uploaded, up_parts_already_present = of_nat (length existing),
                    up_source_bytes_confirmed = confirmed_source_bytes confirmed\<rparr>)))))))))))"

definition finish_event :: "FileRecord \<Rightarrow> string \<Rightarrow> TransferErrorClass option \<Rightarrow> ('w, UploadError, unit) run" where
  "finish_event file kind error_class =
     db_step (record_transfer_event (f_transfer_id file) kind
       ((object_event file)\<lparr>d_error_class := error_class\<rparr>))"

definition upload_missing_parts_observed ::
  "'w fs_ops \<Rightarrow> 'w multipart_store \<Rightarrow> 'w runtime \<Rightarrow> FileRecord \<Rightarrow> RetryPolicy
     \<Rightarrow> ('w, UploadError, UploadProgress option) run" where
  "upload_missing_parts_observed fs st rt file retry =
     thenE (db_step (record_transfer_event (f_transfer_id file) ''object.upload_started''
              (object_event file)))
     (bindE (tryE (upload_missing_parts_inner fs st rt file retry)) (\<lambda>result.
      thenE (case result of
          Inr _ \<Rightarrow> finish_event file ''object.upload_succeeded'' None
        | Inl UploadPaused \<Rightarrow>
            finish_event file ''object.upload_paused'' (Some TransferErrorClass.Paused)
        | Inl error \<Rightarrow>
            finish_event file ''object.upload_failed'' (Some (upload_error_class error)))
      (lift_res result)))"

definition never_pause :: "'w runtime \<Rightarrow> 'w runtime" where
  "never_pause rt = rt\<lparr>rt_should_pause := (\<lambda>w. (False, w))\<rparr>"

definition upload_missing_parts ::
  "'w fs_ops \<Rightarrow> 'w multipart_store \<Rightarrow> 'w runtime \<Rightarrow> FileRecord \<Rightarrow> RetryPolicy
     \<Rightarrow> ('w, UploadError, UploadProgress option) run" where
  "upload_missing_parts fs st rt file retry =
     upload_missing_parts_observed fs st (never_pause rt) file retry"

section \<open>Completion\<close>

definition completed_part :: "PartRecord \<Rightarrow> UploadError + RemotePart" where
  "completed_part pr =
     (case p_etag pr of
        None \<Rightarrow> Inl (MissingEtag (p_part_number pr))
      | Some etag \<Rightarrow> Inr \<lparr>rp_part_number = p_part_number pr, rp_etag = etag,
          rp_size = (case p_transport_length pr of None \<Rightarrow> p_source_length pr | Some n \<Rightarrow> n)\<rparr>)"

text \<open>The completion attempts: \<open>Inl error\<close> is the last error when none of them settled it.\<close>

fun complete_attempts ::
  "'w multipart_store \<Rightarrow> 'w runtime \<Rightarrow> FileRecord \<Rightarrow> RetryPolicy \<Rightarrow> UploadSession
     \<Rightarrow> RemotePart list \<Rightarrow> StoreError option \<Rightarrow> u32 list
     \<Rightarrow> ('w, UploadError, StoreError option + CompletionOutcome) run" where
  "complete_attempts st rt file retry session parts last_error [] = ok (Inl last_error)"
| "complete_attempts st rt file retry session parts last_error (attempt # rest) =
     bindE (tryE (complete_upload st session parts)) (\<lambda>result.
     case result of
       Inr _ \<Rightarrow> ok (Inr Completed)
     | Inl error \<Rightarrow>
         thenE (db_step (record_transfer_event (f_transfer_id file) ''object.completion_retry''
                  ((object_event file)\<lparr>d_attempt := Some (attempt + 1),
                     d_error_class := Some (store_error_class error)\<rparr>)))
         (bindE (map_errE Remote (object_exists st (us_object_key session))) (\<lambda>exists.
          if exists then ok (Inr AlreadyComplete)
          else if \<not> is_retryable error \<and> error \<noteq> UploadNotFound then fail (Remote error)
          else if error = UploadNotFound then fail (Remote error)
          else if attempt + 1 < r_max_attempts retry
          then thenE (sleep_delay rt retry attempt)
                 (complete_attempts st rt file retry session parts (Some error) rest)
          else complete_attempts st rt file retry session parts (Some error) rest)))"

text \<open>\<open>None\<close> is the \<^verbatim>\<open>expect\<close> on the last error.\<close>

definition complete_uploaded_file_inner ::
  "'w multipart_store \<Rightarrow> 'w runtime \<Rightarrow> FileRecord \<Rightarrow> RetryPolicy
     \<Rightarrow> ('w, UploadError, CompletionOutcome option) run" where
  "complete_uploaded_file_inner st rt file retry =
     (if r_max_attempts retry = 0 then fail InvalidRetryPolicy
      else bindE (db_step (upload_session (f_id file))) (\<lambda>found.
      case found of
        None \<Rightarrow> fail MissingUploadSession
      | Some (key, upload_id) \<Rightarrow>
        let session = \<lparr>us_object_key = key, us_upload_id = upload_id\<rparr> in
        bindE (map_errE Remote (object_exists st (us_object_key session))) (\<lambda>exists.
        if exists then ok (Some AlreadyComplete)
        else bindE (db_step (parts_for_file (f_id file))) (\<lambda>local.
          let incomplete = length (filter (\<lambda>pr. \<not> is_complete pr) local) in
          if incomplete > 0 then fail (IncompleteParts incomplete)
          else bindE (lift_res (map_sum_list completed_part local)) (\<lambda>parts.
            bindE (complete_attempts st rt file retry session parts None (attempts retry)) (\<lambda>result.
            case result of
              Inr outcome \<Rightarrow> ok (Some outcome)
            | Inl None \<Rightarrow> ok None
            | Inl (Some source) \<Rightarrow> fail (RetriesExhausted 0 (r_max_attempts retry) source)))))))"

definition complete_uploaded_file ::
  "'w multipart_store \<Rightarrow> 'w runtime \<Rightarrow> FileRecord \<Rightarrow> RetryPolicy
     \<Rightarrow> ('w, UploadError, CompletionOutcome option) run" where
  "complete_uploaded_file st rt file retry =
     bindE (tryE (complete_uploaded_file_inner st rt file retry)) (\<lambda>result.
     thenE (case result of
         Inr _ \<Rightarrow> finish_event file ''object.completed'' None
       | Inl error \<Rightarrow> finish_event file ''object.completion_failed'' (Some (upload_error_class error)))
     (lift_res result))"

end
