(* ===== verification/UploadBehaviour.thy ===== *)
theory UploadBehaviour
  imports Upload
begin

text \<open>
  What an upload guarantees: a successful run leaves every part of the ledger complete, no part is
  ever complete in the ledger that the remote store did not acknowledge, completion is requested
  only for a complete ledger and with its ETags, requests are bounded by the retry policy, and a
  pause stops the run before any request.
\<close>

section \<open>Runs in the world\<close>

lemma on_db_iff [comp_simps]:
  "on_db m s = (r, s') \<longleftrightarrow> (\<exists>db'. m (w_db s) = (r, db') \<and> s' = s\<lparr>w_db := db'\<rparr>)"
  by (auto simp: on_db_def split: prod.splits)

lemma note_event_iff [comp_simps]:
  "note_event ev s = (r, s') \<longleftrightarrow> r = Inr () \<and> s' = s\<lparr>w_trace := w_trace s @ [ev]\<rparr>"
  by (auto simp: note_event_def modifies_def)

lemma on_remote_iff [comp_simps]:
  "on_remote op event s = (r, s') \<longleftrightarrow>
     (\<exists>w'. op (w_env s) = (r, w') \<and> s' = s\<lparr>w_env := w', w_trace := w_trace s @ [event r]\<rparr>)"
  by (auto simp: on_remote_def split: prod.splits)

lemma on_world_iff [comp_simps]:
  "on_world op s = (r, s') \<longleftrightarrow> (\<exists>x w'. op (w_env s) = (x, w') \<and> r = Inr x \<and> s' = s\<lparr>w_env := w'\<rparr>)"
  by (auto simp: on_world_def split: prod.splits)


text \<open>Predicates of the database and the trace only: the environment is free.\<close>

definition db_trace :: "(tables \<Rightarrow> upload_event list \<Rightarrow> bool) \<Rightarrow> 'w world \<Rightarrow> bool" where
  "db_trace P s \<longleftrightarrow> P (st_tables (w_db s)) (w_trace s)"

definition stable :: "(tables \<Rightarrow> upload_event list \<Rightarrow> bool) \<Rightarrow> bool" where
  "stable P \<longleftrightarrow> (\<forall>t tr ev. P t tr \<longrightarrow> P t (tr @ [ev]))"

lemma keeps_note: "stable P \<Longrightarrow> keeps (db_trace P) (note_event ev)"
  by (rule keepsI) (auto simp: comp_simps db_trace_def stable_def)

lemma keeps_on_remote: "stable P \<Longrightarrow> keeps (db_trace P) (on_remote op event)"
  by (rule keepsI) (auto simp: comp_simps db_trace_def stable_def)

lemma keeps_on_world: "keeps (db_trace P) (on_world op)"
  by (rule keepsI) (auto simp: comp_simps db_trace_def)

lemma keeps_on_files: "keeps (db_trace P) (on_files p op)"
  by (rule keepsI) (auto simp: on_files_def db_trace_def split: prod.splits sum.splits)

lemma keeps_on_source_check: "keeps (db_trace P) (on_source_check m)"
  by (rule keepsI) (auto simp: on_source_check_def db_trace_def split: prod.splits)

lemma keeps_db: "(\<And>tr. tables_keep (\<lambda>t. P t tr) m) \<Longrightarrow> keeps (db_trace P) (on_db m)"
proof (rule keepsI)
  fix s r s' assume k: "\<And>tr. tables_keep (\<lambda>t. P t tr) m" and "db_trace P s" "on_db m s = (r, s')"
  then obtain db' where "m (w_db s) = (r, db')" "s' = s\<lparr>w_db := db'\<rparr>" "P (st_tables (w_db s)) (w_trace s)"
    by (auto simp: comp_simps db_trace_def)
  then show "db_trace P s'" using keepsD [OF k [of "w_trace s"]] by (simp add: db_trace_def)
qed

lemma keeps_sleep: "stable P \<Longrightarrow> keeps (db_trace P) (sleep_delay rt retry attempt)"
  unfolding sleep_delay_def by (intro keeps_intros keeps_on_world keeps_note)

section \<open>No part is complete that the store did not acknowledge\<close>

text \<open>A request's answer that vouches for part \<open>n\<close> with ETag \<open>etag\<close>.\<close>

fun vouches :: "u32 \<Rightarrow> string \<Rightarrow> upload_event \<Rightarrow> bool" where
  "vouches n etag (Uploaded session number bs (Inr remote)) \<longleftrightarrow> number = n \<and> rp_etag remote = etag"
| "vouches n etag (Listed session (Inr parts)) \<longleftrightarrow>
     (\<exists>p \<in> set parts. rp_part_number p = n \<and> rp_etag p = etag)"
| "vouches n etag _ \<longleftrightarrow> False"

definition acknowledged :: "uuid \<Rightarrow> tables \<Rightarrow> upload_event list \<Rightarrow> bool" where
  "acknowledged i t tr \<longleftrightarrow>
     (\<forall>r \<in> set (ledger_rows t i). pr_owner r = i \<and> pr_status r = PartStatus.Complete \<longrightarrow>
        (\<exists>etag. pr_etag r = Some etag \<and> list_ex (vouches (pr_part_number r) etag) tr))"

lemma stable_acknowledged: "stable (acknowledged i)"
  unfolding stable_def acknowledged_def by fastforce

lemma acknowledged_same_ledger:
  assumes "\<And>b rows. tables_keep (same_ledger i b rows) m"
  shows "tables_keep (\<lambda>t. acknowledged i t tr) m"
proof (rule keepsI)
  fix s r s' assume a: "acknowledged i (st_tables s) tr" and run: "m s = (r, s')"
  have "same_ledger i (has_object (st_tables s) i) (ledger_rows (st_tables s) i) (st_tables s')"
    by (rule keepsD [OF assms _ run]) simp
  then show "acknowledged i (st_tables s') tr" using a by (simp add: acknowledged_def)
qed

lemma acknowledged_fail: "tables_keep (\<lambda>t. acknowledged i t tr) (record_part_failure i n e)"
proof (rule keepsI)
  fix s r s' assume a: "acknowledged i (st_tables s) tr" and run: "record_part_failure i n e s = (r, s')"
  from record_part_failure_ledger [OF run] show "acknowledged i (st_tables s') tr"
    using a by (auto simp: ledger_change_def acknowledged_def failed_row_def dest!: set_update_where split: if_splits)
qed

lemma acknowledged_confirm:
  assumes "acknowledged i (st_tables s) tr" and "confirm_part i n etag c l s = (r, s')"
    and "list_ex (vouches n etag) tr"
  shows "acknowledged i (st_tables s') tr"
proof -
  from confirm_part_ledger [OF assms(2)] obtain now where
    "ledger_rows (st_tables s') i = ledger_rows (st_tables s) i \<or> ledger_rows (st_tables s') i
      = update_where (is_part i n) (confirmed_row now etag c l) (ledger_rows (st_tables s) i)"
    unfolding ledger_change_def by blast
  then show ?thesis
  proof
    assume rows: "ledger_rows (st_tables s') i
      = update_where (is_part i n) (confirmed_row now etag c l) (ledger_rows (st_tables s) i)"
    show ?thesis
      unfolding acknowledged_def rows
    proof (intro ballI impI)
      fix q assume "q \<in> set (update_where (is_part i n) (confirmed_row now etag c l) (ledger_rows (st_tables s) i))"
        and q: "pr_owner q = i \<and> pr_status q = PartStatus.Complete"
      then obtain r where r: "r \<in> set (ledger_rows (st_tables s) i)"
        "q = (if is_part i n r then confirmed_row now etag c l r else r)"
        by (auto dest: set_update_where)
      show "\<exists>etag. pr_etag q = Some etag \<and> list_ex (vouches (pr_part_number q) etag) tr"
      proof (cases "is_part i n r")
        case True
        then show ?thesis using assms(3) r(2) by (simp add: confirmed_row_def is_part_def)
      next
        case False
        then show ?thesis using assms(1) r q by (simp add: acknowledged_def)
      qed
    qed
  qed (use assms(1) in \<open>simp add: acknowledged_def\<close>)
qed

text \<open>After a reconciliation the complete rows are those the listing vouches for.\<close>

lemma restored_etag:
  assumes "pr_owner r = i" and "pr_status (restored i remote r) = PartStatus.Complete"
  shows "\<exists>etag. pr_etag (restored i remote r) = Some etag \<and> (pr_part_number r, etag) \<in> set remote"
proof -
  define g where "g = (\<lambda>(number, etag) r. if is_part i number r
             then r\<lparr>pr_status := PartStatus.Complete, pr_etag := Some etag, pr_last_error := None\<rparr> else r)"
  have key: "pr_owner (fold g remote r) = pr_owner r \<and> pr_part_number (fold g remote r) = pr_part_number r" for remote r
    by (induction remote arbitrary: r) (auto simp: g_def split: prod.splits)
  have "pr_owner r = i \<Longrightarrow> pr_status (fold g remote r) = PartStatus.Complete \<Longrightarrow>
      pr_status r = PartStatus.Complete \<and> pr_etag (fold g remote r) = pr_etag r
      \<or> (\<exists>etag. pr_etag (fold g remote r) = Some etag \<and> (pr_part_number r, etag) \<in> set remote)" for r
  proof (induction remote arbitrary: r rule: rev_induct)
    case Nil
    then show ?case by simp
  next
    case (snoc p remote)
    obtain number etag where p: "p = (number, etag)" by force
    show ?case
    proof (cases "is_part i number (fold g remote r)")
      case True
      then show ?thesis using key [of remote r] by (auto simp: p g_def is_part_def)
    next
      case False
      then have "fold g (remote @ [p]) r = fold g remote r" by (simp add: p g_def)
      then show ?thesis using snoc by auto
    qed
  qed
  note this [of "if pr_owner r = i \<and> pr_status r = PartStatus.Complete
      then r\<lparr>pr_status := PartStatus.Pending, pr_etag := None\<rparr> else r"]
  then show ?thesis using assms unfolding restored_def g_def [symmetric] by (simp split: if_split_asm)
qed

lemma acknowledged_reconcile:
  assumes a: "acknowledged i (st_tables s) tr"
    and run: "reconcile_remote_parts i (map (\<lambda>p. (rp_part_number p, rp_etag p)) remote) s = (r, s')"
    and listed: "Listed session (Inr remote) \<in> set tr"
  shows "acknowledged i (st_tables s') tr"
proof -
  let ?remote = "map (\<lambda>p. (rp_part_number p, rp_etag p)) remote"
  from reconcile_remote_parts_ledger [OF run]
  have "ledger_rows (st_tables s') i = ledger_rows (st_tables s) i
      \<or> ledger_rows (st_tables s') i = map (restored i ?remote) (ledger_rows (st_tables s) i)"
    by (auto simp: ledger_change_def)
  then show ?thesis
  proof
    assume "ledger_rows (st_tables s') i = ledger_rows (st_tables s) i"
    then show ?thesis using a by (simp add: acknowledged_def)
  next
    assume rows: "ledger_rows (st_tables s') i = map (restored i ?remote) (ledger_rows (st_tables s) i)"
    show ?thesis
      unfolding acknowledged_def rows
    proof (intro ballI impI)
      fix q assume "q \<in> set (map (restored i ?remote) (ledger_rows (st_tables s) i))"
        and q: "pr_owner q = i \<and> pr_status q = PartStatus.Complete"
      then obtain r where r: "q = restored i ?remote r" by auto
      then obtain etag where e: "pr_etag q = Some etag" "(pr_part_number r, etag) \<in> set ?remote"
        using restored_etag [of r i ?remote] q by auto
      then obtain p where "p \<in> set remote" "rp_part_number p = pr_part_number r" "rp_etag p = etag" by auto
      then have "vouches (pr_part_number q) etag (Listed session (Inr remote))" using r by auto
      then show "\<exists>etag. pr_etag q = Some etag \<and> list_ex (vouches (pr_part_number q) etag) tr"
        using e(1) listed unfolding list_ex_iff by blast
    qed
  qed
qed
lemma same_ledger_acknowledged:
  "tables_keep (\<lambda>t. acknowledged i t tr) (upload_session j)"
  "tables_keep (\<lambda>t. acknowledged i t tr) (object_key j)"
  "tables_keep (\<lambda>t. acknowledged i t tr) (parts_for_file j)"
  "tables_keep (\<lambda>t. acknowledged i t tr) (set_upload_session j k u)"
  "tables_keep (\<lambda>t. acknowledged i t tr) (mark_file_uploaded j)"
  "tables_keep (\<lambda>t. acknowledged i t tr) (record_transfer_event tid kind d)"
  by (rule acknowledged_same_ledger, rule same_ledger_keeps)+

abbreviation acked :: "FileRecord \<Rightarrow> 'w world \<Rightarrow> bool" where
  "acked file \<equiv> db_trace (acknowledged (f_id file))"

lemmas acked_steps = keeps_on_world keeps_on_files keeps_on_source_check
  keeps_note [OF stable_acknowledged] keeps_sleep [OF stable_acknowledged]
  keeps_on_remote [OF stable_acknowledged]
  keeps_db [where P = "acknowledged i" for i, OF same_ledger_acknowledged(1)]
  keeps_db [where P = "acknowledged i" for i, OF same_ledger_acknowledged(2)]
  keeps_db [where P = "acknowledged i" for i, OF same_ledger_acknowledged(3)]
  keeps_db [where P = "acknowledged i" for i, OF same_ledger_acknowledged(4)]
  keeps_db [where P = "acknowledged i" for i, OF same_ledger_acknowledged(5)]
  keeps_db [where P = "acknowledged i" for i, OF same_ledger_acknowledged(6)]
  keeps_db [where P = "acknowledged i" for i, OF acknowledged_fail]

lemma upload_part_acked:
  "hoare (acked file) (upload_part st session n bs)
     (\<lambda>remote s. acked file s \<and> list_ex (vouches n (rp_etag remote)) (w_trace s)) (\<lambda>_. acked file)"
proof -
  have "keeps (acked file) (upload_part st session n bs)"
    unfolding upload_part_def by (rule acked_steps)
  then show ?thesis
    by (intro hoareI) (auto simp: upload_part_def comp_simps dest: keepsD)
qed

lemma confirm_acked:
  "hoare (\<lambda>s. acked file s \<and> list_ex (vouches n etag) (w_trace s))
     (on_db (confirm_part (f_id file) n etag c l)) (\<lambda>_. acked file) (\<lambda>_. acked file)"
  by (rule hoareI) (auto simp: comp_simps db_trace_def dest: acknowledged_confirm)

lemma hoare_map_err_const:
  "hoare P m Q (\<lambda>_. E) \<Longrightarrow> hoare P (map_errE g m) Q (\<lambda>_. E)"
  by (rule hoare_map_err)

lemma hoare_of_keeps: "keeps I m \<Longrightarrow> hoare I m (\<lambda>_. I) (\<lambda>_. I)"
  by (simp add: hoare_keeps)

lemma keeps_of_hoare: "hoare I m (\<lambda>_. I) (\<lambda>_. I) \<Longrightarrow> keeps I m"
  by (simp add: hoare_keeps)

lemma part_attempts_acked: "keeps (acked file) (part_attempts st rt file retry session p bs le ats)"
proof (induction ats arbitrary: le)
  case Nil
  then show ?case by (simp add: keeps_ok)
next
  case (Cons attempt ats)
  have fail: "keeps (acked file) (thenE (db_step (record_part_failure (f_id file) (p_part_number p)
                    (store_error_to_string error)))
           (thenE (db_step (record_transfer_event (f_transfer_id file) ''part.attempt_failed''
                    (part_failed_details file (p_part_number p) attempt error)))
           (if \<not> is_retryable error then fail (Remote error)
            else if attempt + 1 < r_max_attempts retry
            then thenE (sleep_delay rt retry attempt)
                   (part_attempts st rt file retry session p bs (Some error) ats)
            else part_attempts st rt file retry session p bs (Some error) ats)))" for error
    using Cons.IH by (intro keeps_intros acked_steps) (auto intro!: keeps_intros acked_steps)
  have ok: "hoare (\<lambda>s. acked file s \<and> list_ex (vouches (p_part_number p) (rp_etag remote)) (w_trace s))
     (thenE (db_step (confirm_part (f_id file) (p_part_number p) (rp_etag remote) None (rp_size remote)))
        (thenE (note_event (PartConfirmed (p_part_number p) (p_source_length p))) (ok None)))
     (\<lambda>_. acked file) (\<lambda>_. acked file)" for remote
    by (intro hoare_then [OF hoare_map_err_const [OF confirm_acked]] hoare_of_keeps keeps_intros acked_steps)
  have "keeps (acked file) (bindE (tryE (upload_part st session (p_part_number p) bs)) (\<lambda>result.
       case result of
         Inr remote \<Rightarrow>
           thenE (db_step (confirm_part (f_id file) (p_part_number p) (rp_etag remote) None
                    (rp_size remote)))
             (thenE (note_event (PartConfirmed (p_part_number p) (p_source_length p)))
                (ok None))
       | Inl error \<Rightarrow>
           thenE (db_step (record_part_failure (f_id file) (p_part_number p)
                    (store_error_to_string error)))
           (thenE (db_step (record_transfer_event (f_transfer_id file) ''part.attempt_failed''
                    (part_failed_details file (p_part_number p) attempt error)))
           (if \<not> is_retryable error then fail (Remote error)
            else if attempt + 1 < r_max_attempts retry
            then thenE (sleep_delay rt retry attempt)
                   (part_attempts st rt file retry session p bs (Some error) ats)
            else part_attempts st rt file retry session p bs (Some error) ats))))"
  proof (rule keeps_of_hoare, rule hoare_bind [where R = "\<lambda>result s. acked file s \<and> (case result of
        Inr remote \<Rightarrow> list_ex (vouches (p_part_number p) (rp_etag remote)) (w_trace s) | Inl _ \<Rightarrow> True)"])
    show "hoare (acked file) (tryE (upload_part st session (p_part_number p) bs))
      (\<lambda>result s. acked file s \<and> (case result of
        Inr remote \<Rightarrow> list_ex (vouches (p_part_number p) (rp_etag remote)) (w_trace s) | Inl _ \<Rightarrow> True))
      (\<lambda>_. acked file)"
      by (rule hoare_try) (simp add: upload_part_acked)
  next
    fix result :: "StoreError + RemotePart"
    show "hoare (\<lambda>s. acked file s \<and> (case result of
        Inr remote \<Rightarrow> list_ex (vouches (p_part_number p) (rp_etag remote)) (w_trace s) | Inl _ \<Rightarrow> True))
      (case result of
         Inr remote \<Rightarrow>
           thenE (db_step (confirm_part (f_id file) (p_part_number p) (rp_etag remote) None
                    (rp_size remote)))
             (thenE (note_event (PartConfirmed (p_part_number p) (p_source_length p)))
                (ok None))
       | Inl error \<Rightarrow>
           thenE (db_step (record_part_failure (f_id file) (p_part_number p)
                    (store_error_to_string error)))
           (thenE (db_step (record_transfer_event (f_transfer_id file) ''part.attempt_failed''
                    (part_failed_details file (p_part_number p) attempt error)))
           (if \<not> is_retryable error then fail (Remote error)
            else if attempt + 1 < r_max_attempts retry
            then thenE (sleep_delay rt retry attempt)
                   (part_attempts st rt file retry session p bs (Some error) ats)
            else part_attempts st rt file retry session p bs (Some error) ats)))
      (\<lambda>_. acked file) (\<lambda>_. acked file)"
      using ok hoare_of_keeps [OF fail] by (cases result) simp_all
  qed
  then show ?case by (auto intro!: keeps_intros acked_steps)
qed

lemma upload_one_part_acked: "keeps (acked file) (upload_one_part fs st rt file retry session p)"
  unfolding upload_one_part_def
  by (intro keeps_intros acked_steps)
    (auto intro!: keeps_intros acked_steps part_attempts_acked split: option.split)

lemma upload_parts_loop_acked: "keeps (acked file) (upload_parts_loop fs st rt file retry session n ps)"
  by (induction ps arbitrary: n) (auto intro!: keeps_intros upload_one_part_acked)

lemma reconcile_file_acked: "keeps (acked file) (reconcile_file st file)"
proof -
  have open_ok: "keeps (acked file) (open_session st file)"
    unfolding open_session_def begin_upload_def Let_def
    by (intro keeps_intros acked_steps) (auto intro!: keeps_intros acked_steps split: option.split)
  have rec: "hoare (\<lambda>s. acked file s \<and> Listed session (Inr remote) \<in> set (w_trace s))
      (on_db (reconcile_remote_parts (f_id file) (map (\<lambda>p. (rp_part_number p, rp_etag p)) remote)))
      (\<lambda>_. acked file) (\<lambda>_. acked file)" for session remote
    by (rule hoareI) (auto simp: comp_simps db_trace_def dest: acknowledged_reconcile)
  have list: "hoare (acked file) (list_parts st session)
      (\<lambda>remote s. acked file s \<and> Listed session (Inr remote) \<in> set (w_trace s)) (\<lambda>_. acked file)" for session
  proof -
    have "keeps (acked file) (list_parts st session)" unfolding list_parts_def by (rule acked_steps)
    then show ?thesis by (intro hoareI) (auto simp: list_parts_def comp_simps dest: keepsD)
  qed
  have parts: "hoare (\<lambda>s. acked file s \<and> Listed session (Inr remote) \<in> set (w_trace s))
      (on_db (parts_for_file (f_id file)))
      (\<lambda>_ s. acked file s \<and> Listed session (Inr remote) \<in> set (w_trace s)) (\<lambda>_. acked file)" for session remote
  proof -
    have "keeps (acked file) (on_db (parts_for_file (f_id file)))" by (rule acked_steps)
    then show ?thesis by (intro hoareI) (auto simp: comp_simps dest: keepsD)
  qed
  show ?thesis
    unfolding reconcile_file_def
    by (intro keeps_of_hoare hoare_bind [OF hoare_of_keeps [OF open_ok]]
        hoare_bind [OF hoare_map_err_const [OF list]] hoare_bind [OF hoare_map_err_const [OF parts]])
      (auto intro!: hoare_fail hoare_then [OF hoare_map_err_const [OF rec]] hoare_ok split: option.split)
qed

lemma reconcile_attempts_acked: "keeps (acked file) (reconcile_attempts st rt file retry ats)"
proof (induction ats)
  case Nil
  then show ?case by (simp add: keeps_ok)
next
  case (Cons a ats)
  have "keeps (acked file) (case result of
       Inr found \<Rightarrow> ok (Some found)
     | Inl (RemoteReconcile error) \<Rightarrow>
         if is_retryable error then
           thenE (map_errE LocalReconcile (on_db (record_transfer_event (f_transfer_id file)
                    ''object.reconciliation_retry''
                    ((object_event file)\<lparr>d_attempt := Some (a + 1),
                       d_error_class := Some (store_error_class error)\<rparr>))))
             (if a + 1 = r_max_attempts retry then fail (RemoteReconcile error)
              else thenE (sleep_delay rt retry a)
                     (reconcile_attempts st rt file retry ats))
         else fail (RemoteReconcile error)
     | Inl error \<Rightarrow> fail error)" for result
    using Cons by (auto intro!: keeps_intros acked_steps split: sum.split ReconcileError.split)
  then show ?case by (auto intro!: keeps_intros reconcile_file_acked)
qed

definition parts_acknowledged :: "PartRecord list \<Rightarrow> upload_event list \<Rightarrow> bool" where
  "parts_acknowledged ps tr \<longleftrightarrow>
     (\<forall>p \<in> set ps. is_complete p \<longrightarrow>
        (\<exists>etag. p_etag p = Some etag \<and> list_ex (vouches (p_part_number p) etag) tr))"

lemma parts_for_file_acked:
  "hoare (acked file) (on_db (parts_for_file (f_id file)))
     (\<lambda>ps s. acked file s \<and> parts_acknowledged ps (w_trace s)) (\<lambda>_. acked file)"
proof -
  have k: "keeps (acked file) (on_db (parts_for_file (f_id file)))" by (rule acked_steps)
  have "parts_acknowledged ps (w_trace s)"
    if a: "acked file s" and run: "on_db (parts_for_file (f_id file)) s = (Inr ps, s')" for ps s s'
  proof -
    have "parts_of (ledger_rows (st_tables (w_db s)) (f_id file)) (f_id file) = Inr ps"
      using run parts_for_file_Inr by (auto simp: comp_simps)
    from parts_of_Inr [OF this] show ?thesis
      using a unfolding parts_acknowledged_def db_trace_def acknowledged_def is_complete_def
      by (metis row_to_part_Inr)
  qed
  note acked_parts = this
  show ?thesis
  proof (rule hoareI)
    fix s ps s' assume a: "acked file s" and run: "on_db (parts_for_file (f_id file)) s = (Inr ps, s')"
    have "w_trace s' = w_trace s" using run by (auto simp: comp_simps)
    then show "acked file s' \<and> parts_acknowledged ps (w_trace s')"
      using acked_parts [OF a run] keepsD [OF k a run] by simp
  qed (rule keepsD [OF k])
qed

lemma replan_complete_subset:
  assumes "replan_large_unconfirmed_parts f sz parts = Inr (Some new)" and "p \<in> set new" and "is_complete p"
  shows "p \<in> set parts"
proof -
  let ?k = "length (takeWhile is_complete parts)"
  have "p \<in> set (take ?k new) \<or> p \<in> set (drop ?k new)"
    using assms(2) by (metis append_take_drop_id set_append UnE)
  then show ?thesis
    using replan_prefix [OF assms(1)] assms(3) by (auto simp: is_complete_def dest: set_takeWhileD)
qed

lemma replace_plan_acked:
  assumes "replan_large_unconfirmed_parts (f_id file) sz parts = Inr (Some new)"
  shows "hoare (\<lambda>s. acked file s \<and> parts_acknowledged parts (w_trace s))
     (on_db (replace_part_plan (f_id file) new)) (\<lambda>_. acked file) (\<lambda>_. acked file)"
proof -
  have "acked file s'" if a: "acked file s" and p: "parts_acknowledged parts (w_trace s)"
    and run: "on_db (replace_part_plan (f_id file) new) s = (r, s')" for s r s'
  proof -
    obtain db' where db': "replace_part_plan (f_id file) new (w_db s) = (r, db')" "s' = s\<lparr>w_db := db'\<rparr>"
      using run by (auto simp: comp_simps)
    let ?rows = "ledger_rows (st_tables (w_db s)) (f_id file)"
    from replace_part_plan_ledger [OF db'(1)]
    have "ledger_rows (st_tables db') (f_id file) = ?rows
        \<or> ledger_rows (st_tables db') (f_id file) = filter (\<lambda>r. pr_owner r \<noteq> f_id file) ?rows @ map part_row_of new"
      by (auto simp: ledger_change_def)
    then show ?thesis
    proof
      assume "ledger_rows (st_tables db') (f_id file) = ?rows"
      then show ?thesis using a db'(2) by (simp add: db_trace_def acknowledged_def)
    next
      assume rows: "ledger_rows (st_tables db') (f_id file)
          = filter (\<lambda>r. pr_owner r \<noteq> f_id file) ?rows @ map part_row_of new"
      have "\<exists>etag. pr_etag (part_row_of q) = Some etag
            \<and> list_ex (vouches (pr_part_number (part_row_of q)) etag) (w_trace s)"
        if "q \<in> set new" "pr_status (part_row_of q) = PartStatus.Complete" for q
      proof -
        have "is_complete q" using that(2) by (simp add: part_row_of_def is_complete_def)
        with that(1) have "q \<in> set parts" "is_complete q" using replan_complete_subset [OF assms] by auto
        then show ?thesis using p by (auto simp: parts_acknowledged_def part_row_of_def)
      qed
      then show ?thesis using db'(2) by (auto simp: db_trace_def acknowledged_def rows)
    qed
  qed
  then show ?thesis by (intro hoareI) blast+
qed

lemma revise_plan_acked:
  "hoare (\<lambda>s. acked file s \<and> parts_acknowledged parts (w_trace s)) (revise_plan file parts)
     (\<lambda>_. acked file) (\<lambda>_. acked file)"
proof (cases "replan_large_unconfirmed_parts (f_id file) (f_size file) parts")
  case (Inl e)
  then show ?thesis by (auto simp: revise_plan_def hoare_def map_errE_def lift_res_def bindE_def)
next
  case (Inr r)
  show ?thesis
  proof (cases r)
    case None
    then show ?thesis using Inr
      by (auto simp: revise_plan_def hoare_def map_errE_def lift_res_def bindE_def ok_def)
  next
    case (Some new)
    then have eq: "revise_plan file parts = thenE (db_step (replace_part_plan (f_id file) new))
        (thenE (note_event (PartPlanRevised (length parts) (length new) (target_part_size default_limits)))
           (ok new))"
      using Inr by (auto simp: revise_plan_def map_errE_def lift_res_def bindE_def)
    have r: "replan_large_unconfirmed_parts (f_id file) (f_size file) parts = Inr (Some new)"
      using Inr Some by simp
    show ?thesis
      unfolding eq
      by (rule hoare_then [OF hoare_map_err_const [OF replace_plan_acked [OF r]] hoare_of_keeps])
        (intro keeps_intros acked_steps)
  qed
qed

lemma upload_missing_parts_inner_acked:
  "keeps (acked file) (upload_missing_parts_inner fs st rt file retry)"
proof -
  have loop: "keeps (acked file)
     (thenE (note_event (Reconciled (confirmed_source_bytes parts)))
        (thenE (map_errE Local (on_files (f_absolute_path file) (rt_open rt (f_absolute_path file))))
        (bindE (upload_parts_loop fs st rt file retry session 0
                  (filter (\<lambda>p. \<not> is_complete p) parts)) (\<lambda>uploaded.
         bindE (db_step (parts_for_file (f_id file))) (\<lambda>confirmed.
         ok (Some \<lparr>up_parts_uploaded = uploaded, up_parts_already_present = of_nat (length existing),
                    up_source_bytes_confirmed = confirmed_source_bytes confirmed\<rparr>))))))"
    for parts session and existing :: "RemotePart list"
    by (intro keeps_intros acked_steps upload_parts_loop_acked)
  have plan: "keeps (acked file) (bindE (db_step (parts_for_file (f_id file))) (\<lambda>planned.
      bindE (revise_plan file planned) k))" if "\<And>parts. keeps (acked file) (k parts)"
    for k :: "PartRecord list \<Rightarrow> ('a, UploadError, UploadProgress option) run"
    by (rule keeps_of_hoare, rule hoare_bind [OF hoare_map_err_const [OF parts_for_file_acked]],
        rule hoare_bind [OF revise_plan_acked], rule hoare_of_keeps, rule that)
  have exists: "keeps (acked file) (already_uploaded st file)"
    unfolding already_uploaded_def object_exists_def
    by (auto intro!: keeps_intros acked_steps split: option.split)
  have rec: "keeps (acked file) (reconcile_with_retry st rt file retry)"
    unfolding reconcile_with_retry_def by (rule reconcile_attempts_acked)
  show ?thesis
    unfolding upload_missing_parts_inner_def
    by (auto intro!: keeps_intros acked_steps exists rec plan loop split: option.split prod.split)
qed

section \<open>A successful upload leaves nothing incomplete\<close>

definition incomplete_within :: "uuid \<Rightarrow> u32 set \<Rightarrow> tables \<Rightarrow> bool" where
  "incomplete_within i N t \<longleftrightarrow>
     (\<forall>r \<in> set (ledger_rows t i). pr_owner r = i \<and> pr_status r \<noteq> PartStatus.Complete
        \<longrightarrow> pr_part_number r \<in> N)"

abbreviation pending_in :: "FileRecord \<Rightarrow> u32 set \<Rightarrow> 'w world \<Rightarrow> bool" where
  "pending_in file N \<equiv> db_trace (\<lambda>t _. incomplete_within (f_id file) N t)"

abbreviation anything :: "'e \<Rightarrow> 's \<Rightarrow> bool" where
  "anything \<equiv> \<lambda>_ _. True"

lemma stable_within: "stable (\<lambda>t _. incomplete_within i N t)"
  by (simp add: stable_def)

lemma within_mono: "incomplete_within i N t \<Longrightarrow> N \<subseteq> M \<Longrightarrow> incomplete_within i M t"
  by (auto simp: incomplete_within_def)

lemma within_same_ledger:
  assumes "\<And>b rows. tables_keep (same_ledger i b rows) m"
  shows "tables_keep (\<lambda>t. incomplete_within i N t) m"
proof (rule keepsI)
  fix s r s' assume a: "incomplete_within i N (st_tables s)" and run: "m s = (r, s')"
  have "same_ledger i (has_object (st_tables s) i) (ledger_rows (st_tables s) i) (st_tables s')"
    by (rule keepsD [OF assms _ run]) simp
  then show "incomplete_within i N (st_tables s')" using a by (simp add: incomplete_within_def)
qed

lemma same_ledger_within:
  "tables_keep (\<lambda>t. incomplete_within i N t) (parts_for_file j)"
  "tables_keep (\<lambda>t. incomplete_within i N t) (record_transfer_event tid kind d)"
  by (rule within_same_ledger, rule same_ledger_keeps)+

lemmas within_steps = keeps_on_world keeps_on_files keeps_on_source_check
  keeps_note [OF stable_within] keeps_sleep [OF stable_within] keeps_on_remote [OF stable_within]
  keeps_db [where P = "\<lambda>t _. incomplete_within i N t" for i N, OF same_ledger_within(1)]
  keeps_db [where P = "\<lambda>t _. incomplete_within i N t" for i N, OF same_ledger_within(2)]

lemma hoare_of_keeps': "keeps I m \<Longrightarrow> hoare I m (\<lambda>_. I) anything"
  by (intro hoareI) (auto dest: keepsD)

lemma within_fail:
  "n \<in> N \<Longrightarrow> tables_keep (\<lambda>t. incomplete_within i N t) (record_part_failure i n e)"
proof (rule keepsI)
  fix s r s' assume n: "n \<in> N" and a: "incomplete_within i N (st_tables s)"
    and run: "record_part_failure i n e s = (r, s')"
  from record_part_failure_ledger [OF run] obtain now where
    "ledger_rows (st_tables s') i = ledger_rows (st_tables s) i
     \<or> ledger_rows (st_tables s') i = update_where (is_part i n) (failed_row now e) (ledger_rows (st_tables s) i)"
    unfolding ledger_change_def by blast
  then show "incomplete_within i N (st_tables s')"
  proof
    assume rows: "ledger_rows (st_tables s') i
      = update_where (is_part i n) (failed_row now e) (ledger_rows (st_tables s) i)"
    show ?thesis
      unfolding incomplete_within_def rows
    proof (intro ballI impI)
      fix q assume "q \<in> set (update_where (is_part i n) (failed_row now e) (ledger_rows (st_tables s) i))"
        and q: "pr_owner q = i \<and> pr_status q \<noteq> PartStatus.Complete"
      then obtain r where r: "r \<in> set (ledger_rows (st_tables s) i)"
        "q = (if is_part i n r then failed_row now e r else r)" by (auto dest: set_update_where)
      show "pr_part_number q \<in> N"
      proof (cases "is_part i n r")
        case True
        then show ?thesis using r(2) n by (simp add: failed_row_def is_part_def)
      next
        case False
        then show ?thesis using r q a by (simp add: incomplete_within_def)
      qed
    qed
  qed (use a in \<open>simp add: incomplete_within_def\<close>)
qed

lemma within_confirm:
  "hoare (pending_in file N) (on_db (confirm_part (f_id file) n etag c l))
     (\<lambda>_. pending_in file (N - {n})) anything"
proof (rule hoareI)
  fix s u s' assume a: "pending_in file N s"
    and run: "on_db (confirm_part (f_id file) n etag c l) s = (Inr u, s')"
  then obtain db' where db': "confirm_part (f_id file) n etag c l (w_db s) = (Inr u, db')" "s' = s\<lparr>w_db := db'\<rparr>"
    by (auto simp: comp_simps)
  from confirm_part_ledger [OF db'(1)] obtain now where rows: "ledger_rows (st_tables db') (f_id file)
      = update_where (is_part (f_id file) n) (confirmed_row now etag c l)
          (ledger_rows (st_tables (w_db s)) (f_id file))"
    unfolding ledger_change_def by blast
  show "pending_in file (N - {n}) s'"
    unfolding db_trace_def incomplete_within_def
  proof (intro ballI impI)
    fix q assume "q \<in> set (ledger_rows (st_tables (w_db s')) (f_id file))"
      and q: "pr_owner q = f_id file \<and> pr_status q \<noteq> PartStatus.Complete"
    then obtain r where r: "r \<in> set (ledger_rows (st_tables (w_db s)) (f_id file))"
      "q = (if is_part (f_id file) n r then confirmed_row now etag c l r else r)"
      using db'(2) by (auto simp: rows dest: set_update_where)
    then have "\<not> is_part (f_id file) n r" using q by (auto simp: confirmed_row_def)
    then show "pr_part_number q \<in> N - {n}"
      using r q a by (auto simp: db_trace_def incomplete_within_def is_part_def)
  qed
qed simp

lemma part_attempts_done:
  assumes "p_part_number p \<in> N" and "le \<noteq> None \<or> ats \<noteq> []"
  shows "hoare (pending_in file N) (part_attempts st rt file retry session p bs le ats)
    (\<lambda>r s. r = None \<longrightarrow> pending_in file (N - {p_part_number p}) s) anything"
  using assms(2)
proof (induction ats arbitrary: le)
  case Nil
  then show ?case by (auto intro: hoare_ok)
next
  case (Cons a ats)
  let ?Q = "\<lambda>r s. r = None \<longrightarrow> pending_in file (N - {p_part_number p}) s"
  have rest: "hoare (pending_in file N) (part_attempts st rt file retry session p bs (Some error) ats) ?Q anything"
    for error by (rule Cons.IH) simp
  have failed: "hoare (pending_in file N) (thenE (db_step (record_part_failure (f_id file) (p_part_number p)
                    (store_error_to_string error)))
           (thenE (db_step (record_transfer_event (f_transfer_id file) ''part.attempt_failed''
                    (part_failed_details file (p_part_number p) a error)))
           (if \<not> is_retryable error then fail (Remote error)
            else if a + 1 < r_max_attempts retry
            then thenE (sleep_delay rt retry a)
                   (part_attempts st rt file retry session p bs (Some error) ats)
            else part_attempts st rt file retry session p bs (Some error) ats))) ?Q anything" for error
    by (intro hoare_then [OF hoare_of_keeps'] hoare_if hoare_fail keeps_intros within_steps rest
        keeps_db within_fail assms(1) TrueI)
  have succeeded: "hoare (pending_in file N)
     (thenE (db_step (confirm_part (f_id file) (p_part_number p) (rp_etag remote) None (rp_size remote)))
        (thenE (note_event (PartConfirmed (p_part_number p) (p_source_length p))) (ok None))) ?Q anything" for remote
    by (intro hoare_then [OF hoare_map_err_const [OF within_confirm]] hoare_then [OF hoare_of_keeps']
        within_steps hoare_ok) simp
  show ?case
    unfolding part_attempts.simps
  proof (intro hoare_bind [OF hoare_of_keeps'] keeps_on_world hoare_if hoare_fail TrueI)
    show "keeps (pending_in file N) (tryE (upload_part st session (p_part_number p) bs))"
      unfolding upload_part_def by (intro keeps_intros within_steps)
  next
    fix result :: "StoreError + RemotePart"
    show "hoare (pending_in file N) (case result of
         Inr remote \<Rightarrow>
           thenE (db_step (confirm_part (f_id file) (p_part_number p) (rp_etag remote) None
                    (rp_size remote)))
             (thenE (note_event (PartConfirmed (p_part_number p) (p_source_length p)))
                (ok None))
       | Inl error \<Rightarrow>
           thenE (db_step (record_part_failure (f_id file) (p_part_number p)
                    (store_error_to_string error)))
           (thenE (db_step (record_transfer_event (f_transfer_id file) ''part.attempt_failed''
                    (part_failed_details file (p_part_number p) a error)))
           (if \<not> is_retryable error then fail (Remote error)
            else if a + 1 < r_max_attempts retry
            then thenE (sleep_delay rt retry a)
                   (part_attempts st rt file retry session p bs (Some error) ats)
            else part_attempts st rt file retry session p bs (Some error) ats))) ?Q anything"
      using failed succeeded by (cases result) simp_all
  qed
qed

lemma attempts_ne: "r_max_attempts retry \<noteq> 0 \<Longrightarrow> attempts retry \<noteq> []"
  by (simp add: attempts_def unat_eq_0)

lemma upload_one_part_done:
  assumes "p_part_number p \<in> N" and "r_max_attempts retry \<noteq> 0"
  shows "hoare (pending_in file N) (upload_one_part fs st rt file retry session p)
    (\<lambda>_. pending_in file (N - {p_part_number p})) anything"
proof -
  have "hoare (\<lambda>s. le = None \<longrightarrow> pending_in file (N - {p_part_number p}) s)
      (case le of None \<Rightarrow> ok () | Some source \<Rightarrow>
         fail (RetriesExhausted (p_part_number p) (r_max_attempts retry) source))
      (\<lambda>_. pending_in file (N - {p_part_number p})) anything" for le
    by (cases le) (auto intro: hoare_ok hoare_fail)
  then show ?thesis
    unfolding upload_one_part_def
    by (intro hoare_bind [OF hoare_of_keeps'] hoare_then [OF hoare_of_keeps'] hoare_if hoare_fail TrueI
        keeps_intros within_steps hoare_bind [OF part_attempts_done] assms(1) disjI2 attempts_ne assms(2))
qed

lemma upload_parts_loop_done:
  assumes "r_max_attempts retry \<noteq> 0"
  shows "hoare (pending_in file (p_part_number ` set ps))
    (upload_parts_loop fs st rt file retry session n ps) (\<lambda>_. pending_in file {}) anything"
proof (induction ps arbitrary: n)
  case Nil
  then show ?case by (auto intro: hoare_ok)
next
  case (Cons p ps)
  have "hoare (pending_in file (p_part_number ` set (p # ps)))
     (upload_one_part fs st rt file retry session p) (\<lambda>_. pending_in file (p_part_number ` set ps)) anything"
    by (rule hoare_weaken [OF upload_one_part_done [OF _ assms, of p "p_part_number ` set (p # ps)"]])
      (auto simp: db_trace_def elim: within_mono)
  then show ?case by (simp add: hoare_then Cons)
qed

definition open_numbers :: "PartRecord list \<Rightarrow> u32 set" where
  "open_numbers ps = p_part_number ` set (filter (\<lambda>p. \<not> is_complete p) ps)"

lemma parts_for_file_open:
  "hoare (\<lambda>_. True) (on_db (parts_for_file (f_id file))) (\<lambda>ps. pending_in file (open_numbers ps)) anything"
proof (rule hoareI)
  fix s ps s' assume run: "on_db (parts_for_file (f_id file)) s = (Inr ps, s')"
  then obtain db' where db': "parts_for_file (f_id file) (w_db s) = (Inr ps, db')" "s' = s\<lparr>w_db := db'\<rparr>"
    by (auto simp: comp_simps)
  have "incomplete_within (f_id file) (open_numbers ps) (st_tables (w_db s))"
    unfolding incomplete_within_def
  proof (intro ballI impI)
    fix r assume r: "r \<in> set (ledger_rows (st_tables (w_db s)) (f_id file))"
      and o: "pr_owner r = f_id file \<and> pr_status r \<noteq> PartStatus.Complete"
    then obtain p where p: "p \<in> set ps" "row_to_part r = Inr p"
      using parts_of_Inr [OF parts_for_file_Inr [OF db'(1)]] by blast
    then show "pr_part_number r \<in> open_numbers ps"
      using o row_to_part_Inr [OF p(2)] unfolding open_numbers_def is_complete_def
      by (intro image_eqI [of _ _ p]) auto
  qed
  then show "pending_in file (open_numbers ps) s'"
    using keepsD [OF same_ledger_within(1) _ db'(1)] db'(2) by (auto simp: db_trace_def)
qed simp

lemma revise_plan_open:
  "hoare (pending_in file (open_numbers parts)) (revise_plan file parts)
     (\<lambda>parts'. pending_in file (open_numbers parts')) anything"
proof -
  have replaced: "hoare (\<lambda>_. True) (on_db (replace_part_plan (f_id file) new))
      (\<lambda>_. pending_in file (open_numbers new)) anything" for new
  proof (rule hoareI)
    fix s u s' assume "on_db (replace_part_plan (f_id file) new) s = (Inr u, s')"
    then obtain db' where db': "replace_part_plan (f_id file) new (w_db s) = (Inr u, db')" "s' = s\<lparr>w_db := db'\<rparr>"
      by (auto simp: comp_simps)
    from replace_part_plan_ledger [OF db'(1)]
    have rows: "ledger_rows (st_tables db') (f_id file) = filter (\<lambda>r. pr_owner r \<noteq> f_id file)
        (ledger_rows (st_tables (w_db s)) (f_id file)) @ map part_row_of new"
      by (auto simp: ledger_change_def)
    show "pending_in file (open_numbers new) s'"
      using db'(2) unfolding db_trace_def incomplete_within_def
      by (auto simp: rows open_numbers_def is_complete_def part_row_of_def)
  qed simp
  show ?thesis
    unfolding revise_plan_def
  proof (rule hoare_bind [where R = "\<lambda>_. pending_in file (open_numbers parts)"])
    show "hoare (pending_in file (open_numbers parts))
       (map_errE Plan (lift_res (replan_large_unconfirmed_parts (f_id file) (f_size file) parts)))
       (\<lambda>_. pending_in file (open_numbers parts)) anything"
      by (intro hoare_of_keeps' keeps_intros)
  next
    fix replan
    have "hoare (pending_in file (open_numbers parts)) (thenE (db_step (replace_part_plan (f_id file) new))
            (thenE (note_event (PartPlanRevised (length parts) (length new)
                      (target_part_size default_limits)))
               (ok new))) (\<lambda>parts'. pending_in file (open_numbers parts')) anything" for new
      by (intro hoare_then [OF hoare_pre [OF hoare_map_err_const [OF replaced]]]
          hoare_then [OF hoare_of_keeps'] within_steps hoare_ok) simp_all
    then show "hoare (pending_in file (open_numbers parts)) (case replan of
        None \<Rightarrow> ok parts
      | Some replanned \<Rightarrow>
          thenE (db_step (replace_part_plan (f_id file) replanned))
            (thenE (note_event (PartPlanRevised (length parts) (length replanned)
                      (target_part_size default_limits)))
               (ok replanned))) (\<lambda>parts'. pending_in file (open_numbers parts')) anything"
      by (cases replan) (auto intro: hoare_ok)
  qed
qed

text \<open>The retry loop of the reconciliation always settles.\<close>

lemma reconcile_attempts_settles:
  assumes "m = r_max_attempts retry" and "j < unat m"
  shows "hoare (\<lambda>_. True) (reconcile_attempts st rt file retry (map of_nat [j..<unat m]))
    (\<lambda>r _. r \<noteq> None) anything"
  using assms(2)
proof (induction "unat m - j" arbitrary: j)
  case 0
  then show ?case by simp
next
  case (Suc k)
  have ats: "map of_nat [j..<unat m] = of_nat j # map of_nat [Suc j..<unat m]"
    using Suc.prems by (simp add: upt_conv_Cons)
  have last: "(of_nat j :: u32) + 1 = r_max_attempts retry" if "\<not> Suc j < unat m"
  proof -
    have "unat m = Suc j" using that Suc.prems by simp
    moreover have "(of_nat (unat m) :: u32) = m" by simp
    ultimately have "m = of_nat (Suc j)" by simp
    then show ?thesis using assms(1) by (simp add: add.commute)
  qed
  have rest: "hoare (\<lambda>_. True) (reconcile_attempts st rt file retry (map of_nat [Suc j..<unat m]))
      (\<lambda>r _. r \<noteq> None) anything" if "Suc j < unat m"
    using Suc.hyps(1) [of "Suc j"] Suc.hyps(2) that by simp
  have body: "hoare (\<lambda>_. True) (case result of
       Inr found \<Rightarrow> ok (Some found)
     | Inl (RemoteReconcile error) \<Rightarrow>
         if is_retryable error then
           thenE (map_errE LocalReconcile (on_db (record_transfer_event (f_transfer_id file)
                    ''object.reconciliation_retry''
                    ((object_event file)\<lparr>d_attempt := Some (of_nat j + 1),
                       d_error_class := Some (store_error_class error)\<rparr>))))
             (if of_nat j + 1 = r_max_attempts retry then fail (RemoteReconcile error)
              else thenE (sleep_delay rt retry (of_nat j))
                     (reconcile_attempts st rt file retry (map of_nat [Suc j..<unat m])))
         else fail (RemoteReconcile error)
     | Inl error \<Rightarrow> fail error) (\<lambda>r _. r \<noteq> None) anything"
    for result :: "ReconcileError + (UploadSession \<times> RemotePart list)"
  proof (cases "Suc j < unat m")
    case True
    then show ?thesis using rest
      by (auto split: sum.split ReconcileError.split
          intro!: hoare_ok hoare_fail hoare_then [where R = "\<lambda>_. True"] intro: hoareI)
  next
    case False
    then show ?thesis using last
      by (auto split: sum.split ReconcileError.split
          intro!: hoare_ok hoare_fail hoare_then [where R = "\<lambda>_. True"] intro: hoareI)
  qed
  show ?case
    unfolding ats reconcile_attempts.simps
    by (rule hoare_bind [where R = "\<lambda>_ _. True"], (rule hoareI; rule TrueI), rule body)
qed

lemma reconcile_with_retry_settles:
  assumes "r_max_attempts retry \<noteq> 0"
  shows "hoare (\<lambda>_. True) (reconcile_with_retry st rt file retry) (\<lambda>r _. r \<noteq> None) anything"
  unfolding reconcile_with_retry_def attempts_def
  by (rule reconcile_attempts_settles) (use assms in \<open>simp_all add: unat_gt_0\<close>)

definition object_found :: "upload_event list \<Rightarrow> bool" where
  "object_found tr \<longleftrightarrow> (\<exists>key. Exists key (Inr True) \<in> set tr)"

lemma upload_missing_parts_inner_done:
  "hoare (\<lambda>_. True) (upload_missing_parts_inner fs st rt file retry)
     (\<lambda>r s. r \<noteq> None \<and> (pending_in file {} s \<or> object_found (w_trace s))) anything"
proof (cases "r_max_attempts retry = 0")
  case True
  then show ?thesis by (simp add: upload_missing_parts_inner_def hoare_fail)
next
  case False
  let ?Q = "\<lambda>r s. r \<noteq> None \<and> (pending_in file {} s \<or> object_found (w_trace s))"
  have stable: "stable (\<lambda>_ tr. object_found tr)" by (auto simp: stable_def object_found_def)
  have found: "hoare (\<lambda>_. True) (already_uploaded st file)
      (\<lambda>b s. b \<longrightarrow> object_found (w_trace s)) anything"
    by (rule hoareI) (fastforce simp: already_uploaded_def object_exists_def comp_simps object_found_def
        split: option.splits)+
  have present: "hoare (db_trace (\<lambda>_ tr. object_found tr))
      (thenE (db_step (mark_file_uploaded (f_id file)))
        (thenE (note_event (Reconciled (f_size file)))
        (bindE (db_step (parts_for_file (f_id file))) (\<lambda>parts.
          ok (Some \<lparr>up_parts_uploaded = 0, up_parts_already_present = of_nat (length parts),
                     up_source_bytes_confirmed = f_size file\<rparr>))))) ?Q anything"
    by (intro hoare_then [OF hoare_of_keeps'] hoare_bind [OF hoare_of_keeps'] keeps_intros keeps_db
        keeps_note stable hoare_ok keepsI) (auto simp: db_trace_def)
  have upload: "hoare (\<lambda>_. True)
     (bindE (db_step (parts_for_file (f_id file))) (\<lambda>planned.
        bindE (revise_plan file planned) (\<lambda>parts.
        thenE (note_event (Reconciled (confirmed_source_bytes parts)))
        (thenE (map_errE Local (on_files (f_absolute_path file) (rt_open rt (f_absolute_path file))))
        (bindE (upload_parts_loop fs st rt file retry session 0
                  (filter (\<lambda>pr. \<not> is_complete pr) parts)) (\<lambda>uploaded.
         bindE (db_step (parts_for_file (f_id file))) (\<lambda>confirmed.
         ok (Some \<lparr>up_parts_uploaded = uploaded, up_parts_already_present = of_nat (length existing),
                    up_source_bytes_confirmed = confirmed_source_bytes confirmed\<rparr>))))))))
     ?Q anything" for session and existing :: "RemotePart list"
  proof (rule hoare_bind [OF hoare_map_err_const [OF parts_for_file_open]],
      rule hoare_bind [OF revise_plan_open])
    fix parts
    have "hoare (pending_in file (open_numbers parts))
        (upload_parts_loop fs st rt file retry session 0 (filter (\<lambda>pr. \<not> is_complete pr) parts))
        (\<lambda>_. pending_in file {}) anything"
      unfolding open_numbers_def by (rule upload_parts_loop_done [OF False])
    moreover have "hoare (pending_in file {}) (bindE (db_step (parts_for_file (f_id file))) (\<lambda>confirmed.
         ok (Some \<lparr>up_parts_uploaded = uploaded, up_parts_already_present = of_nat (length existing),
                    up_source_bytes_confirmed = confirmed_source_bytes confirmed\<rparr>))) ?Q anything" for uploaded
      by (intro hoare_bind [OF hoare_of_keeps'] within_steps keeps_intros hoare_ok) simp
    ultimately have "hoare (pending_in file (open_numbers parts))
        (bindE (upload_parts_loop fs st rt file retry session 0 (filter (\<lambda>pr. \<not> is_complete pr) parts))
        (\<lambda>uploaded. bindE (db_step (parts_for_file (f_id file))) (\<lambda>confirmed.
         ok (Some \<lparr>up_parts_uploaded = uploaded, up_parts_already_present = of_nat (length existing),
                    up_source_bytes_confirmed = confirmed_source_bytes confirmed\<rparr>)))) ?Q anything"
      by (rule hoare_bind)
    then show "hoare (pending_in file (open_numbers parts))
        (thenE (note_event (Reconciled (confirmed_source_bytes parts)))
        (thenE (map_errE Local (on_files (f_absolute_path file) (rt_open rt (f_absolute_path file))))
        (bindE (upload_parts_loop fs st rt file retry session 0 (filter (\<lambda>pr. \<not> is_complete pr) parts))
        (\<lambda>uploaded. bindE (db_step (parts_for_file (f_id file))) (\<lambda>confirmed.
         ok (Some \<lparr>up_parts_uploaded = uploaded, up_parts_already_present = of_nat (length existing),
                    up_source_bytes_confirmed = confirmed_source_bytes confirmed\<rparr>)))))) ?Q anything"
      by (intro hoare_then [OF hoare_of_keeps'] within_steps keeps_intros)
  qed
  have reconciled: "hoare (\<lambda>_. reconciled \<noteq> None) (case reconciled of
          None \<Rightarrow> ok None
        | Some (session, existing) \<Rightarrow>
        bindE (db_step (parts_for_file (f_id file))) (\<lambda>planned.
        bindE (revise_plan file planned) (\<lambda>parts.
        thenE (note_event (Reconciled (confirmed_source_bytes parts)))
        (thenE (map_errE Local (on_files (f_absolute_path file) (rt_open rt (f_absolute_path file))))
        (bindE (upload_parts_loop fs st rt file retry session 0
                  (filter (\<lambda>pr. \<not> is_complete pr) parts)) (\<lambda>uploaded.
         bindE (db_step (parts_for_file (f_id file))) (\<lambda>confirmed.
         ok (Some \<lparr>up_parts_uploaded = uploaded, up_parts_already_present = of_nat (length existing),
                    up_source_bytes_confirmed = confirmed_source_bytes confirmed\<rparr>)))))))) ?Q anything"
    for reconciled :: "(UploadSession \<times> RemotePart list) option"
  proof (cases reconciled)
    case None
    then show ?thesis by (auto intro: hoare_ok)
  next
    case (Some p)
    then show ?thesis using upload by (cases p) simp
  qed
  show ?thesis
    unfolding upload_missing_parts_inner_def
    by (rule hoare_if, simp add: False)
      (intro hoare_bind [OF hoare_of_keeps' [OF keeps_on_world [where P = "\<lambda>_ _. True", unfolded db_trace_def]]]
        hoare_if hoare_fail TrueI hoare_bind [OF found]
        hoare_pre [OF present] hoare_pre [OF hoare_bind [OF hoare_map_err_const [OF
          reconcile_with_retry_settles [OF False]] reconciled]], simp_all add: db_trace_def)
qed

section \<open>Requests are bounded by the retry policy\<close>

text \<open>At most \<open>k\<close> requests of the class \<open>req\<close> since the trace was \<open>tr0\<close>, all of them \<open>good\<close>.\<close>

definition requests_within ::
  "upload_event list \<Rightarrow> (upload_event \<Rightarrow> bool) \<Rightarrow> (upload_event \<Rightarrow> bool) \<Rightarrow> nat
     \<Rightarrow> tables \<Rightarrow> upload_event list \<Rightarrow> bool" where
  "requests_within tr0 req good k t tr \<longleftrightarrow>
     (\<exists>new. tr = tr0 @ new \<and> length (filter req new) \<le> k \<and> (\<forall>ev \<in> set new. req ev \<longrightarrow> good ev))"

abbreviation within_requests ::
  "upload_event list \<Rightarrow> (upload_event \<Rightarrow> bool) \<Rightarrow> (upload_event \<Rightarrow> bool) \<Rightarrow> nat \<Rightarrow> 'w world \<Rightarrow> bool" where
  "within_requests tr0 req good k \<equiv> db_trace (requests_within tr0 req good k)"

lemma requests_mono: "requests_within tr0 req good k t tr \<Longrightarrow> k \<le> l \<Longrightarrow> requests_within tr0 req good l t tr"
  by (auto simp: requests_within_def)

lemma requests_other:
  "requests_within tr0 req good k t tr \<Longrightarrow> \<not> req ev \<Longrightarrow> requests_within tr0 req good k t' (tr @ [ev])"
  unfolding requests_within_def by (elim exE conjE, rule_tac x = "new @ [ev]" in exI) auto

lemma requests_one:
  "requests_within tr0 req good k t tr \<Longrightarrow> good ev \<Longrightarrow> requests_within tr0 req good (Suc k) t' (tr @ [ev])"
  unfolding requests_within_def by (elim exE conjE, rule_tac x = "new @ [ev]" in exI) auto

lemma keeps_requests_db: "keeps (within_requests tr0 req good k) (on_db m)"
  by (rule keepsI) (auto simp: comp_simps db_trace_def requests_within_def)

lemma keeps_requests_note: "\<not> req ev \<Longrightarrow> keeps (within_requests tr0 req good k) (note_event ev)"
  by (rule keepsI) (clarsimp simp: comp_simps db_trace_def, erule requests_other, simp)

lemma keeps_requests_sleep:
  "(\<And>d. \<not> req (Slept d)) \<Longrightarrow> keeps (within_requests tr0 req good k) (sleep_delay rt retry a)"
  unfolding sleep_delay_def by (intro keeps_intros keeps_on_world keeps_requests_note)

lemma keeps_requests_remote:
  "(\<And>r. \<not> req (event r)) \<Longrightarrow> keeps (within_requests tr0 req good k) (on_remote op event)"
  by (rule keepsI) (clarsimp simp: comp_simps db_trace_def, erule requests_other, simp)

lemma hoare_requests_remote:
  "(\<And>r. good (event r)) \<Longrightarrow>
     hoare (within_requests tr0 req good k) (on_remote op event)
       (\<lambda>_. within_requests tr0 req good (Suc k)) (\<lambda>_. within_requests tr0 req good (Suc k))"
  by (rule hoareI; clarsimp simp: comp_simps db_trace_def; erule requests_one; simp)

fun is_upload :: "upload_event \<Rightarrow> bool" where
  "is_upload (Uploaded session number bs result) = True"
| "is_upload _ = False"

fun is_completing :: "upload_event \<Rightarrow> bool" where
  "is_completing (Completing session parts result) = True"
| "is_completing _ = False"

lemma part_attempts_requests:
  fixes tr0 :: "upload_event list" and session :: UploadSession and p :: PartRecord and bs :: bytes
  defines "W \<equiv> within_requests tr0 is_upload (\<lambda>ev. \<exists>r. ev = Uploaded session (p_part_number p) bs r)"
  shows "hoare (W k) (part_attempts st rt file retry session p bs le ats)
    (\<lambda>_. W (k + length ats)) (\<lambda>_. W (k + length ats))"
proof (induction ats arbitrary: k le)
  case Nil
  then show ?case by (auto intro: hoare_ok)
next
  case (Cons a ats)
  have db: "keeps (W j) (db_step m)" for j and m :: "'b db"
    unfolding W_def by (intro keeps_intros keeps_requests_db)
  have sleep: "keeps (W j) (sleep_delay rt retry a)" for j
    unfolding W_def by (rule keeps_requests_sleep) simp
  have upload: "hoare (W k) (tryE (upload_part st session (p_part_number p) bs)) (\<lambda>_. W (Suc k)) E" for E
    unfolding W_def upload_part_def by (rule hoare_try, rule hoare_requests_remote) simp
  have rest: "hoare (W (Suc k)) (part_attempts st rt file retry session p bs (Some error) ats)
      (\<lambda>_. W (k + length (a # ats))) (\<lambda>_. W (k + length (a # ats)))" for error
    using Cons.IH [of "Suc k" "Some error"] by simp
  have up: "W (Suc k) s \<Longrightarrow> W (k + length (a # ats)) s" for s
    unfolding W_def db_trace_def by (erule requests_mono) simp
  have db': "hoare (W (Suc k)) (db_step m) (\<lambda>_. W (Suc k)) (\<lambda>_. W (k + length (a # ats)))" for m :: "'b db"
    by (rule hoare_weaken [OF hoare_of_keeps [OF db [of "Suc k"]]]) (simp_all only: up)
  have sleep': "hoare (W (Suc k)) (sleep_delay rt retry a) (\<lambda>_. W (Suc k)) (\<lambda>_. W (k + length (a # ats)))"
    by (rule hoare_weaken [OF hoare_of_keeps [OF sleep [of "Suc k"]]]) (simp_all only: up)
  have failed: "hoare (W (Suc k)) (thenE (db_step (record_part_failure (f_id file) (p_part_number p)
                    (store_error_to_string error)))
           (thenE (db_step (record_transfer_event (f_transfer_id file) ''part.attempt_failed''
                    (part_failed_details file (p_part_number p) a error)))
           (if \<not> is_retryable error then fail (Remote error)
            else if a + 1 < r_max_attempts retry
            then thenE (sleep_delay rt retry a)
                   (part_attempts st rt file retry session p bs (Some error) ats)
            else part_attempts st rt file retry session p bs (Some error) ats)))
      (\<lambda>_. W (k + length (a # ats))) (\<lambda>_. W (k + length (a # ats)))" for error
    by (intro hoare_then [OF db'] hoare_if hoare_fail up hoare_then [OF sleep'] rest)
  have succeeded: "hoare (W (Suc k))
     (thenE (db_step (confirm_part (f_id file) (p_part_number p) (rp_etag remote) None (rp_size remote)))
        (thenE (note_event (PartConfirmed (p_part_number p) (p_source_length p))) (ok None)))
      (\<lambda>_. W (k + length (a # ats))) (\<lambda>_. W (k + length (a # ats)))" for remote
  proof -
    have "keeps (W (Suc k))
      (thenE (db_step (confirm_part (f_id file) (p_part_number p) (rp_etag remote) None (rp_size remote)))
        (thenE (note_event (PartConfirmed (p_part_number p) (p_source_length p))) (ok None)))"
      by (intro keeps_intros db) (auto simp: W_def intro: keeps_requests_note)
    then show ?thesis by (rule hoare_weaken [OF hoare_of_keeps]) (simp_all only: up)
  qed
  have pause: "hoare (W k) (on_world (rt_should_pause rt)) (\<lambda>_. W k) (\<lambda>_. W (k + length (a # ats)))"
    by (rule hoareI) (auto simp: W_def comp_simps db_trace_def)
  have up0: "W k s \<Longrightarrow> W (k + length (a # ats)) s" for s
    unfolding W_def db_trace_def by (erule requests_mono) simp
  show ?case
    unfolding part_attempts.simps
  proof (rule hoare_bind [OF pause], rule hoare_if, rule hoare_fail, erule up0, rule hoare_bind [OF upload])
    fix result :: "StoreError + RemotePart"
    show "hoare (W (Suc k)) (case result of
         Inr remote \<Rightarrow>
           thenE (db_step (confirm_part (f_id file) (p_part_number p) (rp_etag remote) None
                    (rp_size remote)))
             (thenE (note_event (PartConfirmed (p_part_number p) (p_source_length p)))
                (ok None))
       | Inl error \<Rightarrow>
           thenE (db_step (record_part_failure (f_id file) (p_part_number p)
                    (store_error_to_string error)))
           (thenE (db_step (record_transfer_event (f_transfer_id file) ''part.attempt_failed''
                    (part_failed_details file (p_part_number p) a error)))
           (if \<not> is_retryable error then fail (Remote error)
            else if a + 1 < r_max_attempts retry
            then thenE (sleep_delay rt retry a)
                   (part_attempts st rt file retry session p bs (Some error) ats)
            else part_attempts st rt file retry session p bs (Some error) ats)))
      (\<lambda>_. W (k + length (a # ats))) (\<lambda>_. W (k + length (a # ats)))"
      using failed succeeded by (cases result) simp_all
  qed
qed

lemma length_attempts [simp]: "length (attempts retry) = unat (r_max_attempts retry)"
  by (simp add: attempts_def)

text \<open>One part: the bytes are those at the part's offset, read after the source was verified.\<close>

lemma upload_one_part_requests:
  assumes "upload_one_part fs st rt file retry session p s = (res, s')"
  shows "w_trace s' = w_trace s \<or> (\<exists>bs w0 w1 new.
      fs_read_exact_at fs (f_absolute_path file) (p_source_offset p) (unat (p_source_length p)) w0 = (Inr bs, w1)
      \<and> w_trace s' = w_trace s @ new \<and> length (filter is_upload new) \<le> unat (r_max_attempts retry)
      \<and> (\<forall>ev \<in> set new. is_upload ev \<longrightarrow> (\<exists>r. ev = Uploaded session (p_part_number p) bs r)))"
proof -
  let ?read = "fs_read_exact_at fs (f_absolute_path file) (p_source_offset p) (unat (p_source_length p))"
  let ?Q = "\<lambda>s1. w_trace s1 = w_trace s"
  let ?G = "\<lambda>s'. w_trace s' = w_trace s \<or> (\<exists>bs w0 w1 new. ?read w0 = (Inr bs, w1)
      \<and> w_trace s' = w_trace s @ new \<and> length (filter is_upload new) \<le> unat (r_max_attempts retry)
      \<and> (\<forall>ev \<in> set new. is_upload ev \<longrightarrow> (\<exists>r. ev = Uploaded session (p_part_number p) bs r)))"
  have same: "hoare ?Q m (\<lambda>_. ?Q) (\<lambda>_. ?G)" if "keeps ?Q m" for m :: "('a, UploadError, 'b) run"
    by (rule hoare_weaken [OF hoare_of_keeps [OF that]]) simp_all
  have world: "keeps ?Q (on_world op)" for op :: "'a \<Rightarrow> 'b \<times> 'a"
    by (rule keepsI) (auto simp: comp_simps)
  have check: "keeps ?Q (on_source_check m)" for m :: "('a \<times> unit, CourierError, 'b) comp"
    by (rule keepsI) (auto simp: on_source_check_def split: prod.splits)
  have read: "hoare ?Q (map_errE (\<lambda>e. Local (source_shortened e)) (on_files (f_absolute_path file) ?read))
      (\<lambda>bs s1. ?Q s1 \<and> (\<exists>w0 w1. ?read w0 = (Inr bs, w1))) (\<lambda>_. ?G)"
    by (rule hoareI) (auto simp: comp_simps on_files_def split: prod.splits sum.splits)
  have att: "hoare (\<lambda>s1. ?Q s1 \<and> (\<exists>w0 w1. ?read w0 = (Inr bs, w1)))
      (bindE (part_attempts st rt file retry session p bs None (attempts retry)) (\<lambda>last_error.
        case last_error of None \<Rightarrow> ok ()
        | Some source \<Rightarrow> fail (RetriesExhausted (p_part_number p) (r_max_attempts retry) source)))
      (\<lambda>_. ?G) (\<lambda>_. ?G)" for bs
  proof -
    let ?W = "\<lambda>k. within_requests (w_trace s) is_upload (\<lambda>ev. \<exists>r. ev = Uploaded session (p_part_number p) bs r) k"
    have fin: "?W (unat (r_max_attempts retry)) s1 \<Longrightarrow> \<exists>w0 w1. ?read w0 = (Inr bs, w1) \<Longrightarrow> ?G s1" for s1
      by (simp add: db_trace_def requests_within_def) blast
    have "hoare (?W 0) (part_attempts st rt file retry session p bs None (attempts retry))
        (\<lambda>_. ?W (unat (r_max_attempts retry))) (\<lambda>_. ?W (unat (r_max_attempts retry)))"
      using part_attempts_requests [of "w_trace s" session p bs 0 st rt "file" retry None "attempts retry"] by simp
    moreover have "hoare (?W (unat (r_max_attempts retry))) (case le of None \<Rightarrow> ok ()
        | Some source \<Rightarrow> fail (RetriesExhausted (p_part_number p) (r_max_attempts retry) source))
        (\<lambda>_. ?W (unat (r_max_attempts retry))) (\<lambda>_. ?W (unat (r_max_attempts retry)))" for le
      by (cases le) (auto intro: hoare_ok hoare_fail)
    ultimately have "hoare (?W 0) (bindE (part_attempts st rt file retry session p bs None (attempts retry)) (\<lambda>last_error.
        case last_error of None \<Rightarrow> ok ()
        | Some source \<Rightarrow> fail (RetriesExhausted (p_part_number p) (r_max_attempts retry) source)))
        (\<lambda>_. ?W (unat (r_max_attempts retry))) (\<lambda>_. ?W (unat (r_max_attempts retry)))"
      by (rule hoare_bind)
    note run = this
    have start: "?W 0 s1" if "?Q s1" for s1 using that by (simp add: db_trace_def requests_within_def)
    show ?thesis
    proof (rule hoareI)
      fix s1 x s2 assume a: "?Q s1 \<and> (\<exists>w0 w1. ?read w0 = (Inr bs, w1))" and r: "bindE (part_attempts st rt file retry session p bs None (attempts retry)) (\<lambda>last_error.
        case last_error of None \<Rightarrow> ok ()
        | Some source \<Rightarrow> fail (RetriesExhausted (p_part_number p) (r_max_attempts retry) source)) s1 = (Inr x, s2)"
      then show "?G s2" using fin [OF hoare_Inr [OF run start r]] by blast
    next
      fix s1 e s2 assume a: "?Q s1 \<and> (\<exists>w0 w1. ?read w0 = (Inr bs, w1))" and r: "bindE (part_attempts st rt file retry session p bs None (attempts retry)) (\<lambda>last_error.
        case last_error of None \<Rightarrow> ok ()
        | Some source \<Rightarrow> fail (RetriesExhausted (p_part_number p) (r_max_attempts retry) source)) s1 = (Inl e, s2)"
      then show "?G s2" using fin [OF hoare_Inl [OF run start r]] by blast
    qed
  qed
  have "hoare ?Q (upload_one_part fs st rt file retry session p) (\<lambda>_. ?G) (\<lambda>_. ?G)"
    unfolding upload_one_part_def
    by (rule hoare_bind [OF same [OF world]], rule hoare_if, rule hoare_fail, simp,
        rule hoare_then [OF same], rule keeps_map_errE [OF check], rule hoare_bind [OF read], rule att)
  then show ?thesis using assms by (cases res) (auto dest: hoare_Inr hoare_Inl)
qed

section \<open>A pause stops the run\<close>

lemma upload_paused:
  assumes "r_max_attempts retry \<noteq> 0" and "rt_should_pause rt (w_env s) = (True, w')"
  shows "upload_missing_parts_inner fs st rt file retry s = (Inl UploadPaused, s\<lparr>w_env := w'\<rparr>)"
  using assms by (simp add: upload_missing_parts_inner_def bindE_def on_world_def fail_def)

section \<open>Completion is requested only for a complete ledger\<close>

text \<open>What a completion may ask of the store, given the ledger rows it started from.\<close>

definition complete_request :: "part_row list \<Rightarrow> uuid \<Rightarrow> RemotePart list \<Rightarrow> bool" where
  "complete_request rows i parts \<longleftrightarrow>
     (\<exists>ps. parts_of rows i = Inr ps \<and> list_all is_complete ps
        \<and> map_sum_list completed_part ps = Inr parts)"

lemma complete_attempts_requests:
  fixes tr0 :: "upload_event list" and session :: UploadSession and parts :: "RemotePart list"
  defines "W \<equiv> within_requests tr0 is_completing (\<lambda>ev. \<exists>r. ev = Completing session parts r)"
  shows "hoare (W k) (complete_attempts st rt file retry session parts le ats)
    (\<lambda>_. W (k + length ats)) (\<lambda>_. W (k + length ats))"
proof (induction ats arbitrary: k le)
  case Nil
  then show ?case by (auto intro: hoare_ok)
next
  case (Cons a ats)
  let ?E = "\<lambda>_. W (k + length (a # ats))"
  have up: "W (Suc k) s \<Longrightarrow> W (k + length (a # ats)) s" for s
    unfolding W_def db_trace_def by (erule requests_mono) simp
  have step: "hoare (W (Suc k)) m (\<lambda>_. W (Suc k)) ?E" if "keeps (W (Suc k)) m" for m :: "('a, 'e, 'b) run"
    by (rule hoare_weaken [OF hoare_of_keeps [OF that]]) (simp_all only: up)
  have db: "keeps (W (Suc k)) (db_step m)" for m :: "'b db"
    unfolding W_def by (intro keeps_intros keeps_requests_db)
  have exists: "keeps (W (Suc k)) (map_errE Remote (object_exists st key))" for key
    unfolding W_def object_exists_def by (intro keeps_intros keeps_requests_remote) simp
  have sleep: "keeps (W (Suc k)) (sleep_delay rt retry a)"
    unfolding W_def by (rule keeps_requests_sleep) simp
  have rest: "hoare (W (Suc k)) (complete_attempts st rt file retry session parts (Some error) ats) ?E ?E" for error
    using Cons.IH [of "Suc k" "Some error"] by simp
  have request: "hoare (W k) (tryE (complete_upload st session parts)) (\<lambda>_. W (Suc k)) E" for E
    unfolding W_def complete_upload_def by (rule hoare_try, rule hoare_requests_remote) simp
  show ?case
    unfolding complete_attempts.simps
  proof (rule hoare_bind [OF request])
    fix result :: "StoreError + unit"
    have "hoare (W (Suc k)) (thenE (db_step (record_transfer_event (f_transfer_id file) ''object.completion_retry''
                  ((object_event file)\<lparr>d_attempt := Some (a + 1),
                     d_error_class := Some (store_error_class error)\<rparr>)))
         (bindE (map_errE Remote (object_exists st (us_object_key session))) (\<lambda>exists.
          if exists then ok (Inr AlreadyComplete)
          else if \<not> is_retryable error \<and> error \<noteq> UploadNotFound then fail (Remote error)
          else if error = UploadNotFound then fail (Remote error)
          else if a + 1 < r_max_attempts retry
          then thenE (sleep_delay rt retry a)
                 (complete_attempts st rt file retry session parts (Some error) ats)
          else complete_attempts st rt file retry session parts (Some error) ats))) ?E ?E" for error
      by (intro hoare_then [OF step [OF db]] hoare_bind [OF step [OF exists]] hoare_if hoare_ok hoare_fail
          up hoare_then [OF step [OF sleep]] rest)
    moreover have "hoare (W (Suc k)) (ok (Inr Completed)) ?E ?E" by (rule hoare_ok) (rule up)
    ultimately show "hoare (W (Suc k)) (case result of
       Inr _ \<Rightarrow> ok (Inr Completed)
     | Inl error \<Rightarrow>
         thenE (db_step (record_transfer_event (f_transfer_id file) ''object.completion_retry''
                  ((object_event file)\<lparr>d_attempt := Some (a + 1),
                     d_error_class := Some (store_error_class error)\<rparr>)))
         (bindE (map_errE Remote (object_exists st (us_object_key session))) (\<lambda>exists.
          if exists then ok (Inr AlreadyComplete)
          else if \<not> is_retryable error \<and> error \<noteq> UploadNotFound then fail (Remote error)
          else if error = UploadNotFound then fail (Remote error)
          else if a + 1 < r_max_attempts retry
          then thenE (sleep_delay rt retry a)
                 (complete_attempts st rt file retry session parts (Some error) ats)
          else complete_attempts st rt file retry session parts (Some error) ats))) ?E ?E"
      by (cases result) simp_all
  qed
qed

text \<open>What an outcome means: the store answered the request, or the object was seen.\<close>

definition object_completed :: "upload_event list \<Rightarrow> bool" where
  "object_completed tr \<longleftrightarrow> (\<exists>session parts. Completing session parts (Inr ()) \<in> set tr)"

definition outcome_witnessed :: "CompletionOutcome \<Rightarrow> upload_event list \<Rightarrow> bool" where
  "outcome_witnessed outcome tr \<longleftrightarrow>
     (case outcome of Completed \<Rightarrow> object_completed tr | AlreadyComplete \<Rightarrow> object_found tr)"

lemma complete_attempts_outcome:
  assumes "le \<noteq> None \<or> ats \<noteq> []"
  shows "hoare (\<lambda>_. True) (complete_attempts st rt file retry session parts le ats)
    (\<lambda>r s. case r of Inl e \<Rightarrow> e \<noteq> None | Inr outcome \<Rightarrow> outcome_witnessed outcome (w_trace s)) anything"
  using assms
proof (induction ats arbitrary: le)
  case Nil
  then show ?case by (auto intro: hoare_ok)
next
  case (Cons a ats)
  let ?Q = "\<lambda>r s. case r of Inl e \<Rightarrow> e \<noteq> None | Inr outcome \<Rightarrow> outcome_witnessed outcome (w_trace s)"
  have any: "hoare (\<lambda>_. True) m (\<lambda>_ _. True) anything" for m :: "('a, 'e, 'b) run"
    by (rule hoareI) simp_all
  have seen: "hoare (\<lambda>_. True) (map_errE Remote (object_exists st key))
      (\<lambda>b s. b \<longrightarrow> object_found (w_trace s)) anything" for key
    by (rule hoareI) (fastforce simp: object_exists_def comp_simps object_found_def)+
  have request: "hoare (\<lambda>_. True) (tryE (complete_upload st session parts))
      (\<lambda>r s. r = Inr () \<longrightarrow> object_completed (w_trace s)) anything"
    by (rule hoareI) (fastforce simp: complete_upload_def comp_simps object_completed_def)+
  have rest: "hoare (\<lambda>_. True) (complete_attempts st rt file retry session parts (Some error) ats) ?Q anything" for error
    by (rule Cons.IH) simp
  have tail: "hoare (\<lambda>s. b \<longrightarrow> object_found (w_trace s)) (if b then ok (Inr AlreadyComplete)
          else if \<not> is_retryable error \<and> error \<noteq> UploadNotFound then fail (Remote error)
          else if error = UploadNotFound then fail (Remote error)
          else if a + 1 < r_max_attempts retry
          then thenE (sleep_delay rt retry a)
                 (complete_attempts st rt file retry session parts (Some error) ats)
          else complete_attempts st rt file retry session parts (Some error) ats) ?Q anything" for b error
    by (intro hoare_if hoare_ok hoare_fail hoare_pre [OF hoare_then [OF any rest]] hoare_pre [OF rest])
      (simp_all add: outcome_witnessed_def)
  have failed: "hoare (\<lambda>_. True) (thenE (db_step (record_transfer_event (f_transfer_id file) ''object.completion_retry''
                  ((object_event file)\<lparr>d_attempt := Some (a + 1),
                     d_error_class := Some (store_error_class error)\<rparr>)))
         (bindE (map_errE Remote (object_exists st (us_object_key session))) (\<lambda>exists.
          if exists then ok (Inr AlreadyComplete)
          else if \<not> is_retryable error \<and> error \<noteq> UploadNotFound then fail (Remote error)
          else if error = UploadNotFound then fail (Remote error)
          else if a + 1 < r_max_attempts retry
          then thenE (sleep_delay rt retry a)
                 (complete_attempts st rt file retry session parts (Some error) ats)
          else complete_attempts st rt file retry session parts (Some error) ats))) ?Q anything" for error
    by (rule hoare_then [OF any], rule hoare_bind [OF seen], rule tail)
  show ?case
    unfolding complete_attempts.simps
  proof (rule hoare_bind [OF request])
    fix result :: "StoreError + unit"
    show "hoare (\<lambda>s. result = Inr () \<longrightarrow> object_completed (w_trace s)) (case result of
       Inr _ \<Rightarrow> ok (Inr Completed)
     | Inl error \<Rightarrow>
         thenE (db_step (record_transfer_event (f_transfer_id file) ''object.completion_retry''
                  ((object_event file)\<lparr>d_attempt := Some (a + 1),
                     d_error_class := Some (store_error_class error)\<rparr>)))
         (bindE (map_errE Remote (object_exists st (us_object_key session))) (\<lambda>exists.
          if exists then ok (Inr AlreadyComplete)
          else if \<not> is_retryable error \<and> error \<noteq> UploadNotFound then fail (Remote error)
          else if error = UploadNotFound then fail (Remote error)
          else if a + 1 < r_max_attempts retry
          then thenE (sleep_delay rt retry a)
                 (complete_attempts st rt file retry session parts (Some error) ats)
          else complete_attempts st rt file retry session parts (Some error) ats))) ?Q anything"
    proof (cases result)
      case (Inl error)
      then show ?thesis using hoare_pre [OF failed] by simp
    next
      case (Inr u)
      then show ?thesis by (auto intro!: hoare_ok simp: outcome_witnessed_def)
    qed
  qed
qed

lemma complete_inner_outcome:
  "hoare (\<lambda>_. True) (complete_uploaded_file_inner st rt file retry)
     (\<lambda>r s. \<exists>outcome. r = Some outcome \<and> outcome_witnessed outcome (w_trace s)) anything"
proof (cases "r_max_attempts retry = 0")
  case True
  then show ?thesis by (simp add: complete_uploaded_file_inner_def hoare_fail)
next
  case False
  let ?Q = "\<lambda>r s. \<exists>outcome. r = Some outcome \<and> outcome_witnessed outcome (w_trace s)"
  have any: "hoare (\<lambda>_. True) m (\<lambda>_ _. True) anything" for m :: "('a, 'e, 'b) run"
    by (rule hoareI) simp_all
  have seen: "hoare (\<lambda>_. True) (map_errE Remote (object_exists st key))
      (\<lambda>b s. b \<longrightarrow> object_found (w_trace s)) anything" for key
    by (rule hoareI) (fastforce simp: object_exists_def comp_simps object_found_def)+
  have result: "hoare (\<lambda>s. case r of Inl e \<Rightarrow> e \<noteq> None | Inr outcome \<Rightarrow> outcome_witnessed outcome (w_trace s))
      (case r of Inr outcome \<Rightarrow> ok (Some outcome) | Inl None \<Rightarrow> ok None
        | Inl (Some source) \<Rightarrow> fail (RetriesExhausted 0 (r_max_attempts retry) source)) ?Q anything"
    for r :: "StoreError option + CompletionOutcome"
    by (auto intro!: hoare_ok hoare_fail split: sum.split option.split)
  have body: "hoare (\<lambda>s. b \<longrightarrow> object_found (w_trace s)) (if b then ok (Some AlreadyComplete)
        else bindE (db_step (parts_for_file (f_id file))) (\<lambda>local.
          let incomplete = length (filter (\<lambda>pr. \<not> is_complete pr) local) in
          if incomplete > 0 then fail (IncompleteParts incomplete)
          else bindE (lift_res (map_sum_list completed_part local)) (\<lambda>parts.
            bindE (complete_attempts st rt file retry session parts None (attempts retry)) (\<lambda>result.
            case result of
              Inr outcome \<Rightarrow> ok (Some outcome)
            | Inl None \<Rightarrow> ok None
            | Inl (Some source) \<Rightarrow> fail (RetriesExhausted 0 (r_max_attempts retry) source))))) ?Q anything" for b session
    unfolding Let_def
    by (rule hoare_if, rule hoare_ok, simp add: outcome_witnessed_def, rule hoare_pre [OF hoare_bind [OF any]],
        rule hoare_if, rule hoare_fail, simp, rule hoare_bind [OF any],
        rule hoare_bind [OF complete_attempts_outcome result], use attempts_ne [OF False] in simp_all)
  have found: "hoare (\<lambda>_. True) (case f of
        None \<Rightarrow> fail MissingUploadSession
      | Some (key, upload_id) \<Rightarrow>
        let session = \<lparr>us_object_key = key, us_upload_id = upload_id\<rparr> in
        bindE (map_errE Remote (object_exists st (us_object_key session))) (\<lambda>exists.
        if exists then ok (Some AlreadyComplete)
        else bindE (db_step (parts_for_file (f_id file))) (\<lambda>local.
          let incomplete = length (filter (\<lambda>pr. \<not> is_complete pr) local) in
          if incomplete > 0 then fail (IncompleteParts incomplete)
          else bindE (lift_res (map_sum_list completed_part local)) (\<lambda>parts.
            bindE (complete_attempts st rt file retry session parts None (attempts retry)) (\<lambda>result.
            case result of
              Inr outcome \<Rightarrow> ok (Some outcome)
            | Inl None \<Rightarrow> ok None
            | Inl (Some source) \<Rightarrow> fail (RetriesExhausted 0 (r_max_attempts retry) source)))))) ?Q anything"
    for f :: "(string \<times> string) option"
  proof (cases f)
    case None
    then show ?thesis by (simp add: hoare_fail)
  next
    case (Some p)
    obtain key uid where p: "p = (key, uid)" by force
    show ?thesis
      unfolding Some p option.case prod.case Let_def [of "\<lparr>us_object_key = key, us_upload_id = uid\<rparr>"]
      by (rule hoare_bind [OF seen]) (rule body)
  qed
  show ?thesis
    unfolding complete_uploaded_file_inner_def
    by (rule hoare_if, simp add: False, rule hoare_bind [OF any], rule found)
qed

lemma requests_weaken:
  "requests_within tr0 req good k t tr \<Longrightarrow> (\<And>ev. good ev \<Longrightarrow> good' ev) \<Longrightarrow> requests_within tr0 req good' k t' tr"
  by (auto simp: requests_within_def)

lemma complete_inner_requests:
  assumes "complete_uploaded_file_inner st rt file retry s = (res, s')"
  shows "\<exists>new. w_trace s' = w_trace s @ new
    \<and> length (filter is_completing new) \<le> unat (r_max_attempts retry)
    \<and> (\<forall>ev \<in> set new. is_completing ev \<longrightarrow> (\<exists>session parts r. ev = Completing session parts r
         \<and> complete_request (ledger_rows (st_tables (w_db s)) (f_id file)) (f_id file) parts))"
proof -
  let ?rows = "ledger_rows (st_tables (w_db s)) (f_id file)"
  let ?good = "\<lambda>ev. \<exists>session parts r. ev = Completing session parts r \<and> complete_request ?rows (f_id file) parts"
  let ?W = "\<lambda>k. within_requests (w_trace s) is_completing ?good k"
  let ?P = "\<lambda>s1. ?W 0 s1 \<and> ledger_rows (st_tables (w_db s1)) (f_id file) = ?rows"
  let ?G = "\<lambda>s1. ?W (unat (r_max_attempts retry)) s1"
  have up: "?W 0 s1 \<Longrightarrow> ?G s1" for s1 unfolding db_trace_def by (erule requests_mono) simp
  have read: "hoare ?P (db_step m) (\<lambda>_. ?P) (\<lambda>_. ?G)"
    if k: "\<And>b rows. tables_keep (same_ledger (f_id file) b rows) m" for m :: "'b db"
  proof -
    have "keeps ?P (db_step m)"
    proof (rule keeps_map_errE, rule keepsI)
      fix s1 r s2 assume P: "?P s1" and run: "on_db m s1 = (r, s2)"
      then obtain db' where m: "m (w_db s1) = (r, db')" "s2 = s1\<lparr>w_db := db'\<rparr>" by (auto simp: comp_simps)
      have "ledger_rows (st_tables db') (f_id file) = ledger_rows (st_tables (w_db s1)) (f_id file)"
        using keepsD [OF k [of "has_object (st_tables (w_db s1)) (f_id file)"
              "ledger_rows (st_tables (w_db s1)) (f_id file)"] _ m(1)] by simp
      then show "?P s2" using P m(2) by (simp add: db_trace_def requests_within_def)
    qed
    then show ?thesis by (rule hoare_weaken [OF hoare_of_keeps]) (use up in auto)
  qed
  have exists: "hoare ?P (map_errE Remote (object_exists st key)) (\<lambda>_. ?P) (\<lambda>_. ?G)" for key
  proof -
    have "keeps ?P (map_errE Remote (object_exists st key))"
      unfolding object_exists_def
      by (rule keeps_map_errE, rule keepsI)
        (clarsimp simp: comp_simps db_trace_def, erule requests_other, simp)
    then show ?thesis by (rule hoare_weaken [OF hoare_of_keeps]) (use up in auto)
  qed
  have parts: "hoare ?P (db_step (parts_for_file (f_id file)))
      (\<lambda>local s1. ?P s1 \<and> parts_of ?rows (f_id file) = Inr local) (\<lambda>_. ?G)"
  proof -
    note k = read [OF same_ledger_keeps(3)]
    show ?thesis
    proof (rule hoareI)
      fix s1 local s2 assume P: "?P s1" and run: "db_step (parts_for_file (f_id file)) s1 = (Inr local, s2)"
      then have "parts_of ?rows (f_id file) = Inr local"
        using parts_for_file_Inr by (fastforce simp: comp_simps)
      then show "?P s2 \<and> parts_of ?rows (f_id file) = Inr local" using hoare_Inr [OF k P run] by blast
    qed (rule hoare_Inl [OF k])
  qed
  have attempt: "hoare (\<lambda>s1. ?P s1) (bindE (complete_attempts st rt file retry session parts None (attempts retry)) (\<lambda>result.
            case result of
              Inr outcome \<Rightarrow> ok (Some outcome)
            | Inl None \<Rightarrow> ok None
            | Inl (Some source) \<Rightarrow> fail (RetriesExhausted 0 (r_max_attempts retry) source))) (\<lambda>_. ?G) (\<lambda>_. ?G)"
    if req: "complete_request ?rows (f_id file) parts" for session parts
  proof -
    let ?V = "within_requests (w_trace s) is_completing (\<lambda>ev. \<exists>r. ev = Completing session parts r)"
    have V: "?V (unat (r_max_attempts retry)) s1 \<Longrightarrow> ?G s1" for s1
      unfolding db_trace_def by (erule requests_weaken) (use req in auto)
    have "hoare (?V 0) (complete_attempts st rt file retry session parts None (attempts retry))
        (\<lambda>_. ?V (unat (r_max_attempts retry))) (\<lambda>_. ?V (unat (r_max_attempts retry)))"
      using complete_attempts_requests [of "w_trace s" session parts 0 st rt "file" retry None "attempts retry"] by simp
    then have "hoare ?P (complete_attempts st rt file retry session parts None (attempts retry)) (\<lambda>_. ?G) (\<lambda>_. ?G)"
    proof (rule hoare_weaken)
      fix s1 assume "?P s1"
      then show "?V 0 s1" by (auto simp: db_trace_def requests_within_def filter_empty_conv)
    qed (rule V, assumption)+
    moreover have "hoare ?G (case r of
              Inr outcome \<Rightarrow> ok (Some outcome)
            | Inl None \<Rightarrow> ok None
            | Inl (Some source) \<Rightarrow> fail (RetriesExhausted 0 (r_max_attempts retry) source)) (\<lambda>_. ?G) (\<lambda>_. ?G)"
      for r :: "StoreError option + CompletionOutcome"
      by (auto intro!: hoare_ok hoare_fail split: sum.split option.split)
    ultimately show ?thesis by (rule hoare_bind)
  qed
  have body: "hoare ?P (if b then ok (Some AlreadyComplete)
        else bindE (db_step (parts_for_file (f_id file))) (\<lambda>local.
          let incomplete = length (filter (\<lambda>pr. \<not> is_complete pr) local) in
          if incomplete > 0 then fail (IncompleteParts incomplete)
          else bindE (lift_res (map_sum_list completed_part local)) (\<lambda>parts.
            bindE (complete_attempts st rt file retry session parts None (attempts retry)) (\<lambda>result.
            case result of
              Inr outcome \<Rightarrow> ok (Some outcome)
            | Inl None \<Rightarrow> ok None
            | Inl (Some source) \<Rightarrow> fail (RetriesExhausted 0 (r_max_attempts retry) source))))) (\<lambda>_. ?G) (\<lambda>_. ?G)"
    for b session
    unfolding Let_def
  proof (rule hoare_if, rule hoare_ok, simp only: up, rule hoare_bind [OF parts], rule hoare_if, rule hoare_fail,
      simp only: up, rule hoare_bind [where R = "\<lambda>parts s1. ?P s1 \<and> complete_request ?rows (f_id file) parts"])
    fix local assume c: "\<not> 0 < length (filter (\<lambda>pr. \<not> is_complete pr) local)"
    show "hoare (\<lambda>s1. ?P s1 \<and> parts_of ?rows (f_id file) = Inr local) (lift_res (map_sum_list completed_part local))
        (\<lambda>parts s1. ?P s1 \<and> complete_request ?rows (f_id file) parts) (\<lambda>_. ?G)"
      by (rule hoare_lift_res)
        (use c up in \<open>auto simp: complete_request_def filter_empty_conv list_all_iff\<close>)
  next
    fix parts
    show "hoare (\<lambda>s1. ?P s1 \<and> complete_request ?rows (f_id file) parts)
       (bindE (complete_attempts st rt file retry session parts None (attempts retry)) (\<lambda>result.
            case result of
              Inr outcome \<Rightarrow> ok (Some outcome)
            | Inl None \<Rightarrow> ok None
            | Inl (Some source) \<Rightarrow> fail (RetriesExhausted 0 (r_max_attempts retry) source))) (\<lambda>_. ?G) (\<lambda>_. ?G)"
      by (rule hoare_assume) (rule attempt)
  qed
  have start: "?P s" by (simp add: db_trace_def requests_within_def)
  have "hoare ?P (complete_uploaded_file_inner st rt file retry) (\<lambda>_. ?G) (\<lambda>_. ?G)"
    unfolding complete_uploaded_file_inner_def Let_def
  proof (rule hoare_if, rule hoare_fail, rule up, erule conjunct1,
      rule hoare_bind [OF read [OF same_ledger_keeps(1)]])
    fix f :: "(string \<times> string) option"
    show "hoare ?P (case f of
        None \<Rightarrow> fail MissingUploadSession
      | Some (key, upload_id) \<Rightarrow>
        bindE (map_errE Remote (object_exists st (us_object_key \<lparr>us_object_key = key, us_upload_id = upload_id\<rparr>))) (\<lambda>exists.
        if exists then ok (Some AlreadyComplete)
        else bindE (db_step (parts_for_file (f_id file))) (\<lambda>local.
          if 0 < length (filter (\<lambda>pr. \<not> is_complete pr) local)
          then fail (IncompleteParts (length (filter (\<lambda>pr. \<not> is_complete pr) local)))
          else bindE (lift_res (map_sum_list completed_part local)) (\<lambda>parts.
            bindE (complete_attempts st rt file retry \<lparr>us_object_key = key, us_upload_id = upload_id\<rparr> parts None (attempts retry)) (\<lambda>result.
            case result of
              Inr outcome \<Rightarrow> ok (Some outcome)
            | Inl None \<Rightarrow> ok None
            | Inl (Some source) \<Rightarrow> fail (RetriesExhausted 0 (r_max_attempts retry) source)))))) (\<lambda>_. ?G) (\<lambda>_. ?G)"
    proof (cases f)
      case None
      show ?thesis unfolding None option.case by (rule hoare_fail, rule up, erule conjunct1)
    next
      case (Some p)
      then show ?thesis
        using hoare_bind [OF exists body [unfolded Let_def]] by (cases p) (simp only: option.case prod.case)
    qed
  qed
  then have "?G s'" using assms start by (cases res) (auto dest: hoare_Inr hoare_Inl)
  then show ?thesis by (simp add: db_trace_def requests_within_def)
qed

end
