(* ===== verification/S3.thy ===== *)
theory S3
  imports Upload
begin

text \<open>
  The S3 adapter of the data-plane contract, \<^verbatim>\<open>crates/courier-transfer/src/s3.rs\<close>. The SDK client is
  a record of operations over the environment; what the adapter adds is the classification of SDK
  errors, the checks on a response, and the pagination of the part list. The pagination loop ends
  only when the service stops truncating, so it is a partial function: \<open>None\<close> is a loop that
  never ends.
\<close>

section \<open>The SDK client\<close>

text \<open>The variants of \<^verbatim>\<open>SdkError\<close>, with the service error code and the debug text.\<close>

datatype SdkError =
    ServiceError "string option" string
  | TimeoutError string
  | DispatchFailure string
  | ResponseError string
  | ConstructionFailure string

record sdk_part =
  sp_part_number :: "int option"
  sp_size :: "int option"
  sp_e_tag :: "string option"

record sdk_page =
  pg_parts :: "sdk_part list"
  pg_is_truncated :: "bool option"
  pg_next_part_number_marker :: "string option"

record 'w s3_client =
  cl_head_bucket :: "string \<Rightarrow> 'w \<Rightarrow> (SdkError + unit) \<times> 'w"
  cl_create_bucket :: "string \<Rightarrow> 'w \<Rightarrow> (SdkError + unit) \<times> 'w"
  cl_create_multipart_upload :: "string \<Rightarrow> string \<Rightarrow> 'w \<Rightarrow> (SdkError + string option) \<times> 'w"
  cl_list_parts :: "string \<Rightarrow> UploadSession \<Rightarrow> string option \<Rightarrow> 'w \<Rightarrow> (SdkError + sdk_page) \<times> 'w"
  cl_upload_part :: "string \<Rightarrow> UploadSession \<Rightarrow> 32 word \<Rightarrow> bytes \<Rightarrow> 'w \<Rightarrow> (SdkError + string option) \<times> 'w"
  cl_complete :: "string \<Rightarrow> UploadSession \<Rightarrow> (32 word \<times> string) list \<Rightarrow> 'w \<Rightarrow> (SdkError + unit) \<times> 'w"
  cl_head_object :: "string \<Rightarrow> string \<Rightarrow> 'w \<Rightarrow> (SdkError + unit) \<times> 'w"
  cl_abort :: "string \<Rightarrow> UploadSession \<Rightarrow> 'w \<Rightarrow> (SdkError + unit) \<times> 'w"

record S3StoreConfig =
  sc_bucket :: string
  sc_region :: string
  sc_endpoint_url :: "string option"
  sc_force_path_style :: bool

definition seaweedfs :: "string \<Rightarrow> string \<Rightarrow> S3StoreConfig" where
  "seaweedfs bucket endpoint_url =
     \<lparr>sc_bucket = bucket, sc_region = ''us-east-1'', sc_endpoint_url = Some endpoint_url,
      sc_force_path_style = True\<rparr>"

section \<open>Errors\<close>

definition service_code :: "SdkError \<Rightarrow> string option" where
  "service_code error = (case error of ServiceError code _ \<Rightarrow> code | _ \<Rightarrow> None)"

definition sdk_debug :: "SdkError \<Rightarrow> string" where
  "sdk_debug error =
     (case error of ServiceError _ d \<Rightarrow> d | TimeoutError d \<Rightarrow> d | DispatchFailure d \<Rightarrow> d
      | ResponseError d \<Rightarrow> d | ConstructionFailure d \<Rightarrow> d)"

definition map_sdk_error :: "SdkError \<Rightarrow> StoreError" where
  "map_sdk_error error =
     (case service_code error of
        Some code \<Rightarrow>
          (let text = ''S3 service error '' @ code @ '': '' @ sdk_debug error in
           if code = ''NoSuchUpload'' then UploadNotFound
           else if code = ''ExpiredToken'' \<or> code = ''RequestExpired'' then AuthorizationExpired
           else if code = ''EntityTooLarge'' \<or> code = ''RequestEntityTooLarge'' then Permanent text
           else Transient text)
      | None \<Rightarrow>
          (case error of
             TimeoutError d \<Rightarrow> Transient d
           | DispatchFailure d \<Rightarrow> Transient d
           | ResponseError d \<Rightarrow> Transient d
           | _ \<Rightarrow> Permanent (sdk_debug error)))"

definition sdk :: "('w \<Rightarrow> (SdkError + 'a) \<times> 'w) \<Rightarrow> 'w \<Rightarrow> (StoreError + 'a) \<times> 'w" where
  "sdk op = map_errE map_sdk_error op"

section \<open>Operations\<close>

definition ensure_bucket :: "'w s3_client \<Rightarrow> string \<Rightarrow> 'w \<Rightarrow> (StoreError + unit) \<times> 'w" where
  "ensure_bucket cl bucket =
     bindE (tryE (cl_head_bucket cl bucket)) (\<lambda>result.
     case result of Inr _ \<Rightarrow> ok () | Inl (_ :: SdkError) \<Rightarrow> sdk (cl_create_bucket cl bucket))"

definition s3_begin :: "'w s3_client \<Rightarrow> string \<Rightarrow> string \<Rightarrow> 'w \<Rightarrow> (StoreError + UploadSession) \<times> 'w" where
  "s3_begin cl bucket key =
     bindE (sdk (cl_create_multipart_upload cl bucket key)) (\<lambda>upload_id.
     case upload_id of
       None \<Rightarrow> fail (Permanent ''S3 omitted multipart upload ID'')
     | Some u \<Rightarrow> ok \<lparr>us_object_key = key, us_upload_id = u\<rparr>)"

definition remote_part :: "sdk_part \<Rightarrow> StoreError + RemotePart" where
  "remote_part p =
     (case sp_part_number p of
        None \<Rightarrow> Inl (Permanent ''S3 returned an invalid part number'')
      | Some number \<Rightarrow>
          if number < 0 then Inl (Permanent ''S3 returned an invalid part number'')
          else
            let sz = (case sp_size p of None \<Rightarrow> 0 | Some n \<Rightarrow> n) in
            if sz < 0 then Inl (Permanent ''S3 returned a negative part size'')
            else Inr \<lparr>rp_part_number = word_of_int number,
                      rp_etag = (case sp_e_tag p of None \<Rightarrow> '''' | Some e \<Rightarrow> e),
                      rp_size = word_of_int sz\<rparr>)"

partial_function (option) list_pages ::
  "'w s3_client \<Rightarrow> string \<Rightarrow> UploadSession \<Rightarrow> string option \<Rightarrow> RemotePart list \<Rightarrow> 'w
     \<Rightarrow> ((StoreError + RemotePart list) \<times> 'w) option" where
  "list_pages cl bucket session marker result w =
     (case sdk (cl_list_parts cl bucket session marker) w of
        (Inl e, w') \<Rightarrow> Some (Inl e, w')
      | (Inr output, w') \<Rightarrow>
          (case map_sum_list remote_part (pg_parts output) of
             Inl e \<Rightarrow> Some (Inl e, w')
           | Inr parts \<Rightarrow>
               if pg_is_truncated output \<noteq> Some True then Some (Inr (result @ parts), w')
               else (case pg_next_part_number_marker output of
                 None \<Rightarrow> Some (Inl (Permanent
                   ''S3 truncated ListParts without a continuation marker''), w')
               | Some m \<Rightarrow> list_pages cl bucket session (Some m) (result @ parts) w')))"

definition s3_list_parts ::
  "'w s3_client \<Rightarrow> string \<Rightarrow> UploadSession \<Rightarrow> 'w \<Rightarrow> ((StoreError + RemotePart list) \<times> 'w) option" where
  "s3_list_parts cl bucket session w = list_pages cl bucket session None [] w"

definition s3_upload_part ::
  "'w s3_client \<Rightarrow> string \<Rightarrow> UploadSession \<Rightarrow> u32 \<Rightarrow> bytes \<Rightarrow> 'w \<Rightarrow> (StoreError + RemotePart) \<times> 'w" where
  "s3_upload_part cl bucket session part_number bs =
     (let sz = of_nat (length bs) in
      bindE (sdk (cl_upload_part cl bucket session part_number bs)) (\<lambda>e_tag.
      case e_tag of
        None \<Rightarrow> fail (Permanent ''S3 omitted uploaded part ETag'')
      | Some etag \<Rightarrow> ok \<lparr>rp_part_number = part_number, rp_etag = etag, rp_size = sz\<rparr>))"

definition s3_complete ::
  "'w s3_client \<Rightarrow> string \<Rightarrow> UploadSession \<Rightarrow> RemotePart list \<Rightarrow> 'w \<Rightarrow> (StoreError + unit) \<times> 'w" where
  "s3_complete cl bucket session parts =
     sdk (cl_complete cl bucket session (map (\<lambda>p. (rp_part_number p, rp_etag p)) parts))"

definition s3_object_exists :: "'w s3_client \<Rightarrow> string \<Rightarrow> string \<Rightarrow> 'w \<Rightarrow> (StoreError + bool) \<times> 'w" where
  "s3_object_exists cl bucket key =
     bindE (tryE (cl_head_object cl bucket key)) (\<lambda>result.
     case result of
       Inr _ \<Rightarrow> ok True
     | Inl error \<Rightarrow>
         if service_code error = Some ''NotFound'' \<or> service_code error = Some ''NoSuchKey''
         then ok False else fail (map_sdk_error error))"

definition s3_abort :: "'w s3_client \<Rightarrow> string \<Rightarrow> UploadSession \<Rightarrow> 'w \<Rightarrow> (StoreError + unit) \<times> 'w" where
  "s3_abort cl bucket session = sdk (cl_abort cl bucket session)"

section \<open>Pagination\<close>

text \<open>
  \<open>serves cl bucket session marker w pages w'\<close>: asked from \<open>marker\<close> on, the service answers the
  pages in turn, each but the last truncated with a marker for the next.
\<close>

inductive serves ::
  "'w s3_client \<Rightarrow> string \<Rightarrow> UploadSession \<Rightarrow> string option \<Rightarrow> 'w \<Rightarrow> sdk_part list list \<Rightarrow> 'w \<Rightarrow> bool"
  for cl bucket session where
  serves_last: "cl_list_parts cl bucket session marker w = (Inr page, w')
    \<Longrightarrow> pg_is_truncated page \<noteq> Some True
    \<Longrightarrow> serves cl bucket session marker w [pg_parts page] w'"
| serves_more: "cl_list_parts cl bucket session marker w = (Inr page, w1)
    \<Longrightarrow> pg_is_truncated page = Some True \<Longrightarrow> pg_next_part_number_marker page = Some m
    \<Longrightarrow> serves cl bucket session (Some m) w1 pages w'
    \<Longrightarrow> serves cl bucket session marker w (pg_parts page # pages) w'"

lemma sdk_Inr: "op w = (Inr x, w') \<Longrightarrow> sdk op w = (Inr x, w')"
  by (simp add: sdk_def map_errE_def)

lemma map_sum_list_app:
  "map_sum_list f (xs @ ys) =
     (case map_sum_list f xs of Inl e \<Rightarrow> Inl e
      | Inr us \<Rightarrow> (case map_sum_list f ys of Inl e \<Rightarrow> Inl e | Inr vs \<Rightarrow> Inr (us @ vs)))"
  by (induction xs) (auto split: sum.splits)

lemma map_sum_list_append:
  "map_sum_list f (xs @ ys) = Inr zs \<longleftrightarrow>
     (\<exists>us vs. map_sum_list f xs = Inr us \<and> map_sum_list f ys = Inr vs \<and> zs = us @ vs)"
  by (auto simp: map_sum_list_app split: sum.splits)

lemma list_pages_serves:
  assumes "serves cl bucket session marker w pages w'"
    and "map_sum_list remote_part (concat pages) = Inr parts"
  shows "list_pages cl bucket session marker result w = Some (Inr (result @ parts), w')"
  using assms
proof (induction arbitrary: parts result rule: serves.induct)
  case (serves_last marker w page w')
  then show ?case by (simp add: list_pages.simps [of cl bucket session marker] sdk_Inr)
next
  case (serves_more marker w page w1 m pages w')
  from serves_more.prems obtain us vs where "map_sum_list remote_part (pg_parts page) = Inr us"
    "map_sum_list remote_part (concat pages) = Inr vs" "parts = us @ vs"
    by (auto simp: map_sum_list_append)
  then show ?case
    using serves_more by (simp add: list_pages.simps [of cl bucket session marker] sdk_Inr)
qed

text \<open>Conversely, a successful listing is the concatenation of pages the service served.\<close>

definition page_result ::
  "'w s3_client \<Rightarrow> string \<Rightarrow> UploadSession \<Rightarrow> string option \<Rightarrow> RemotePart list \<Rightarrow> 'w
     \<Rightarrow> (StoreError + RemotePart list) \<times> 'w \<Rightarrow> bool" where
  "page_result cl bucket session marker result w y \<longleftrightarrow>
     (\<forall>out. fst y = Inr out \<longrightarrow> (\<exists>pages parts. serves cl bucket session marker w pages (snd y)
       \<and> map_sum_list remote_part (concat pages) = Inr parts \<and> out = result @ parts))"

lemma list_pages_complete:
  assumes "list_pages cl bucket session marker result w = Some y"
  shows "page_result cl bucket session marker result w y"
  using assms
proof (rule list_pages.raw_induct [where P = page_result, rotated])
  fix f cl bucket session marker result w y
  assume hyp: "\<And>cl bucket session marker result w y. f cl bucket session marker result w = Some y
      \<Longrightarrow> page_result cl bucket session marker result w y"
    and run: "(case sdk (cl_list_parts cl bucket session marker) w of
        (Inl e, w') \<Rightarrow> Some (Inl e, w')
      | (Inr output, w') \<Rightarrow>
          (case map_sum_list remote_part (pg_parts output) of
             Inl e \<Rightarrow> Some (Inl e, w')
           | Inr parts \<Rightarrow>
               if pg_is_truncated output \<noteq> Some True then Some (Inr (result @ parts), w')
               else (case pg_next_part_number_marker output of
                 None \<Rightarrow> Some (Inl (Permanent
                   ''S3 truncated ListParts without a continuation marker''), w')
               | Some m \<Rightarrow> f cl bucket session (Some m) (result @ parts) w'))) = Some y"
  show "page_result cl bucket session marker result w y"
    unfolding page_result_def
  proof (intro allI impI)
    fix out assume out: "fst y = Inr out"
    obtain r w1 where call: "cl_list_parts cl bucket session marker w = (r, w1)" by force
    show "\<exists>pages parts. serves cl bucket session marker w pages (snd y)
       \<and> map_sum_list remote_part (concat pages) = Inr parts \<and> out = result @ parts"
    proof (cases r)
      case (Inl e)
      then show ?thesis using run out call by (auto simp: sdk_def map_errE_def)
    next
      case (Inr page)
      have served: "cl_list_parts cl bucket session marker w = (Inr page, w1)"
        using call Inr by simp
      then have answer: "sdk (cl_list_parts cl bucket session marker) w = (Inr page, w1)"
        by (simp add: sdk_def map_errE_def)
      show ?thesis
      proof (cases "map_sum_list remote_part (pg_parts page)")
        case (Inl e)
        then show ?thesis using run out answer by auto
      next
        case (Inr parts)
        show ?thesis
        proof (cases "pg_is_truncated page = Some True")
          case False
          then have "y = (Inr (result @ parts), w1)" using run answer Inr by simp
          then show ?thesis
            using serves_last [OF served False] Inr out
            by (intro exI [of _ "[pg_parts page]"]) simp
        next
          case True
          then obtain m where m: "pg_next_part_number_marker page = Some m"
            and rest: "f cl bucket session (Some m) (result @ parts) w1 = Some y"
            using run answer Inr out by (auto split: option.splits)
          from hyp [OF rest] out obtain pages parts' where
            "serves cl bucket session (Some m) w1 pages (snd y)"
            "map_sum_list remote_part (concat pages) = Inr parts'" "out = (result @ parts) @ parts'"
            unfolding page_result_def by blast
          then show ?thesis
            using serves_more [OF served True m] Inr
            by (intro exI [of _ "pg_parts page # pages"] exI [of _ "parts @ parts'"])
              (auto simp: map_sum_list_append)
        qed
      qed
    qed
  qed
qed

text \<open>The adapter answers the contract's request once the service ends its pages.\<close>

lemma map_sdk_error_retryable:
  "is_retryable (map_sdk_error error) \<longleftrightarrow>
     (case error of
        ServiceError (Some code) _ \<Rightarrow>
          code \<notin> {''NoSuchUpload'', ''EntityTooLarge'', ''RequestEntityTooLarge''}
      | TimeoutError _ \<Rightarrow> True | DispatchFailure _ \<Rightarrow> True | ResponseError _ \<Rightarrow> True | _ \<Rightarrow> False)"
  by (cases error) (auto simp: map_sdk_error_def service_code_def is_retryable_def Let_def split: option.splits)

end
