(* ===== verification/UploadProperties.thy ===== *)
theory UploadProperties
  imports UploadBehaviour StoreProperties S3
begin

text \<open>
  What the upload engine of \<^verbatim>\<open>courier-transfer\<close> promises: what a run may mark complete, what its success
  means, which requests it sends, how it pauses and completes, and what the S3 adapter lists. The
  instances run one file of three bytes against a store that accepts every part.
\<close>

section \<open>A concrete run\<close>

definition accepting :: "unit multipart_store" where
  "accepting = \<lparr>ms_begin = (\<lambda>key w. (Inr \<lparr>us_object_key = key, us_upload_id = ''u''\<rparr>, w)),
     ms_list_parts = (\<lambda>_ w. (Inr [], w)),
     ms_upload_part = (\<lambda>_ n bs w. (Inr \<lparr>rp_part_number = n, rp_etag = ''e'', rp_size = of_nat (length bs)\<rparr>, w)),
     ms_complete = (\<lambda>_ _ w. (Inr (), w)), ms_object_exists = (\<lambda>_ w. (Inr False, w)),
     ms_abort = (\<lambda>_ w. (Inr (), w))\<rparr>"

definition steady :: "unit runtime" where
  "steady = \<lparr>rt_should_pause = (\<lambda>w. (False, w)), rt_draw = (\<lambda>n w. (n, w)), rt_open = (\<lambda>_ w. (Inr (), w))\<rparr>"

definition source_files :: "unit fs_ops" where
  "source_files =
     \<lparr>fs_exists = (\<lambda>p w. (True, w)), fs_is_file = (\<lambda>p w. (True, w)), fs_walk = (\<lambda>p w. ([], w)),
      fs_metadata = (\<lambda>p w. (Inr \<lparr>md_len = 3, md_modified = Inr 5\<rparr>, w)),
      fs_reads = (\<lambda>p n w. (Inr [Inr [1, 2, 3], Inr []], w)),
      fs_read_exact_at = (\<lambda>p off n w. (Inr [1, 2, 3], w))\<rparr>"

definition one_attempt :: RetryPolicy where
  "one_attempt = \<lparr>r_base = 1, r_maximum = 1, r_max_attempts = 1\<rparr>"

definition start :: "unit world" where
  "start = \<lparr>w_db = (quiet file_tables)\<lparr>st_tick := 1\<rparr>, w_env = (), w_trace = []\<rparr>"

definition session :: UploadSession where
  "session = \<lparr>us_object_key = default_object_key first_file, us_upload_id = ''u''\<rparr>"

lemmas steps_eval = on_db_def on_remote_def on_world_def on_files_def on_source_check_def note_event_def
  begin_upload_def list_parts_def upload_part_def complete_upload_def object_exists_def accepting_def steady_def
  source_files_def one_attempt_def start_def

lemmas ledger_eval = has_transport_object_def has_object_def update_parts_def update_where_def is_part_def
  refresh_file_progress_def refresh_stmt_def fits_sql_def confirmed_event_def failed_event_def file_transfer_def
  owner_event_def file_parts_def completed_sum_def complete_rows_def check_eval file_by_id_def file_eval

lemmas send_eval = upload_one_part_def verify_source_unchanged_def on_env_io_def modified_ns_def attempts_def
  confirm_part_def confirm_stmt_def

lemmas inner_eval = upload_missing_parts_inner_def already_uploaded_def reconcile_with_retry_def reconcile_file_def
  open_session_def upload_session_def object_key_def set_upload_session_def update_files_def both_def
  parts_for_file_def parts_of_def row_to_part_def check_remote_def planned_sizes_def
  reconcile_remote_parts_def atomically_def reset_stmt_def revise_plan_def
  replan_large_unconfirmed_parts_def is_complete_def default_limits_def confirmed_source_bytes_def

lemma one_part_sent:
  "\<exists>s'. upload_one_part source_files accepting steady first_file one_attempt session first_part start
      = (Inr (), s') \<and> w_trace s' = [Uploaded session 1 [1, 2, 3]
           (Inr \<lparr>rp_part_number = 1, rp_etag = ''e'', rp_size = 3\<rparr>), PartConfirmed 1 3]"
  by (simp add: steps_eval run_eval send_eval ledger_eval)

lemma one_upload:
  "\<exists>s'. upload_missing_parts_inner source_files accepting steady first_file one_attempt start
      = (Inr (Some \<lparr>up_parts_uploaded = 1, up_parts_already_present = 0, up_source_bytes_confirmed = 3\<rparr>), s')
      \<and> map pr_status (tb_parts (st_tables (w_db s'))) = [PartStatus.Complete]"
  by (simp add: inner_eval steps_eval run_eval send_eval ledger_eval)

section \<open>Uploading\<close>

text \<open>C10: A part is complete in the ledger only when the remote store vouched for it: if every part that is
  complete when a run of the upload begins carries an ETag the store returned or listed for it, the
  same holds when the run ends, with or without an error.\<close>

theorem only_acknowledged_parts_complete:
  assumes "acknowledged (f_id file) (st_tables (w_db s)) (w_trace s)"
    and "upload_missing_parts_inner fs st rt file retry s = (res, s')"
  shows "acknowledged (f_id file) (st_tables (w_db s')) (w_trace s')"
  using keepsD [OF upload_missing_parts_inner_acked _ assms(2)] assms(1) by (simp add: db_trace_def)

theorem only_acknowledged_parts_complete_witness:
  "\<exists>s'. upload_missing_parts_inner source_files accepting steady first_file one_attempt start
      = (Inr (Some \<lparr>up_parts_uploaded = 1, up_parts_already_present = 0, up_source_bytes_confirmed = 3\<rparr>), s')
      \<and> acknowledged 9 (st_tables (w_db s')) (w_trace s')"
proof -
  have a: "acknowledged (f_id first_file) (st_tables (w_db start)) (w_trace start)"
    by (simp add: acknowledged_def start_def quiet_def ledger_rows_def has_object_def file_eval)
  have "f_id first_file = 9" by (simp add: first_file_def)
  then show ?thesis using one_upload only_acknowledged_parts_complete [OF a] by metis
qed

text \<open>C11: A successful upload is complete: when the run returns progress, no part of the file's ledger is
  incomplete, or the store answered that the object exists; the unreachable branches of the code
  are not taken.\<close>

theorem successful_upload_is_complete:
  assumes "upload_missing_parts_inner fs st rt file retry s = (Inr r, s')"
  shows "r \<noteq> None
    \<and> (incomplete_within (f_id file) {} (st_tables (w_db s')) \<or> object_found (w_trace s'))"
  using hoare_Inr [OF upload_missing_parts_inner_done _ assms] by (simp add: db_trace_def)

theorem successful_upload_is_complete_witness:
  "\<exists>r s'. upload_missing_parts_inner source_files accepting steady first_file one_attempt start = (Inr r, s')
      \<and> (incomplete_within 9 {} (st_tables (w_db s')) \<or> object_found (w_trace s'))"
proof -
  have "f_id first_file = 9" by (simp add: first_file_def)
  then show ?thesis using one_upload successful_upload_is_complete by metis
qed

text \<open>Sending one part asks the store at most as often as the retry policy allows, each time with the
  part's number in the session's upload and the very bytes the source delivered at the part's offset
  and length.\<close>

theorem part_requests_are_bounded:
  assumes "upload_one_part fs st rt file retry session p s = (res, s')"
  shows "w_trace s' = w_trace s \<or> (\<exists>bs w0 w1 new.
      fs_read_exact_at fs (f_absolute_path file) (p_source_offset p) (unat (p_source_length p)) w0 = (Inr bs, w1)
      \<and> w_trace s' = w_trace s @ new \<and> length (filter is_upload new) \<le> unat (r_max_attempts retry)
      \<and> (\<forall>ev \<in> set new. is_upload ev \<longrightarrow> (\<exists>r. ev = Uploaded session (p_part_number p) bs r)))"
  by (rule upload_one_part_requests [OF assms])

theorem part_requests_are_bounded_witness:
  "\<exists>s'. upload_one_part source_files accepting steady first_file one_attempt session first_part start = (Inr (), s')
     \<and> length (filter is_upload (w_trace s')) \<le> 1"
proof -
  obtain s' where run: "upload_one_part source_files accepting steady first_file one_attempt session first_part start
      = (Inr (), s')" using one_part_sent by blast
  have "w_trace start = []" "r_max_attempts one_attempt = 1" by (simp_all add: start_def one_attempt_def)
  then have "length (filter is_upload (w_trace s')) \<le> 1"
    using part_requests_are_bounded [OF run] by auto
  then show ?thesis using run by blast
qed

text \<open>A pause requested before the run stops it before it touches the database, the source or the
  store.\<close>

theorem pause_stops_before_any_effect:
  assumes "r_max_attempts retry \<noteq> 0" and "rt_should_pause rt (w_env s) = (True, w')"
  shows "upload_missing_parts_inner fs st rt file retry s = (Inl UploadPaused, s\<lparr>w_env := w'\<rparr>)"
  by (rule upload_paused [OF assms])

theorem pause_stops_before_any_effect_witness:
  "upload_missing_parts_inner source_files accepting (steady\<lparr>rt_should_pause := (\<lambda>w. (True, w))\<rparr>)
     first_file one_attempt start = (Inl UploadPaused, start)"
  using pause_stops_before_any_effect [of one_attempt "steady\<lparr>rt_should_pause := (\<lambda>w. (True, w))\<rparr>" start "()"
      source_files accepting first_file]
  by (simp add: one_attempt_def)

lemma record_event_last:
  assumes "record_transfer_event tid kind d s = (Inr u, s')"
  shows "\<exists>e evs. tb_events (st_tables s') = evs @ [e] \<and> ev_kind e = kind \<and> ev_transfer_id e = tid
    \<and> ev_details e = d"
  using assms by (auto simp: record_transfer_event_def execute_Inr insert_event_def)

text \<open>An observed upload that returns progress has recorded its success last in the outbox: the newest
  event is \<^verbatim>\<open>object.upload_succeeded\<close>, of the file's transfer and naming the object, without an error
  class.\<close>

theorem success_is_recorded_last:
  assumes "upload_missing_parts_observed fs st rt file retry s = (Inr p, s')"
  shows "\<exists>e evs. tb_events (st_tables (w_db s')) = evs @ [e] \<and> ev_kind e = ''object.upload_succeeded''
    \<and> ev_transfer_id e = f_transfer_id file \<and> ev_details e = (object_event file)\<lparr>d_error_class := None\<rparr>"
proof -
  obtain r s1 u where "finish_event file ''object.upload_succeeded'' None s1 = (Inr u, s')" "r = Inr p"
    using assms
    by (auto simp: upload_missing_parts_observed_def comp_simps split: sum.splits UploadError.splits)
  then obtain db' where "record_transfer_event (f_transfer_id file) ''object.upload_succeeded''
      ((object_event file)\<lparr>d_error_class := None\<rparr>) (w_db s1) = (Inr u, w_db s')"
    by (auto simp: finish_event_def comp_simps)
  from record_event_last [OF this] show ?thesis .
qed

lemma one_observed_upload:
  "\<exists>p s'. upload_missing_parts_observed source_files accepting steady first_file one_attempt start = (Inr p, s')"
  by (simp add: upload_missing_parts_observed_def finish_event_def record_transfer_event_def object_event_def
      inner_eval steps_eval run_eval send_eval ledger_eval)

theorem success_is_recorded_last_witness:
  "\<exists>p s' e evs. upload_missing_parts_observed source_files accepting steady first_file one_attempt start = (Inr p, s')
     \<and> tb_events (st_tables (w_db s')) = evs @ [e] \<and> ev_kind e = ''object.upload_succeeded''"
  using one_observed_upload success_is_recorded_last by metis

text \<open>C12: The completion request is made only for a ledger without an incomplete part, with exactly the
  numbers and ETags of that ledger in order, and at most as often as the retry policy allows.\<close>

theorem completion_requests_match_the_ledger:
  assumes "complete_uploaded_file_inner st rt file retry s = (res, s')"
  shows "\<exists>new. w_trace s' = w_trace s @ new
    \<and> length (filter is_completing new) \<le> unat (r_max_attempts retry)
    \<and> (\<forall>ev \<in> set new. is_completing ev \<longrightarrow> (\<exists>session parts r. ev = Completing session parts r
         \<and> complete_request (ledger_rows (st_tables (w_db s)) (f_id file)) (f_id file) parts))"
  by (rule complete_inner_requests [OF assms])

definition uploaded_tables :: tables where
  "uploaded_tables = file_tables\<lparr>tb_files := [(file_row_of 4 first_file)\<lparr>fr_object_key := Some ''k'', fr_upload_id := Some ''u''\<rparr>],
     tb_parts := [(part_row_of first_part)\<lparr>pr_status := PartStatus.Complete, pr_etag := Some ''e'', pr_transport_length := Some 3\<rparr>]\<rparr>"

lemma one_completion:
  "\<exists>s'. complete_uploaded_file_inner accepting steady first_file one_attempt (start\<lparr>w_db := quiet uploaded_tables\<rparr>)
      = (Inr (Some Completed), s') \<and> w_trace s' \<noteq> []"
  by (simp add: complete_uploaded_file_inner_def upload_session_def both_def parts_for_file_def parts_of_def
      row_to_part_def is_complete_def completed_part_def uploaded_tables_def attempts_def
      steps_eval run_eval ledger_eval)

theorem completion_requests_match_the_ledger_witness:
  "\<exists>new. length (filter is_completing new) \<le> 1
    \<and> (\<forall>ev \<in> set new. is_completing ev \<longrightarrow> (\<exists>session parts r. ev = Completing session parts r
         \<and> complete_request (ledger_rows uploaded_tables 9) 9 parts)) \<and> new \<noteq> []"
proof -
  let ?s = "start\<lparr>w_db := quiet uploaded_tables\<rparr>"
  obtain s' where run: "complete_uploaded_file_inner accepting steady first_file one_attempt ?s = (Inr (Some Completed), s')"
    and new: "w_trace s' \<noteq> []" using one_completion by blast
  have "w_trace ?s = []" "st_tables (w_db ?s) = uploaded_tables" "f_id first_file = 9" "unat (r_max_attempts one_attempt) = 1"
    by (simp_all add: start_def quiet_def first_file_def one_attempt_def)
  then show ?thesis using completion_requests_match_the_ledger [OF run] new by auto
qed

text \<open>C13: A completion is never reported on faith: \<^verbatim>\<open>Completed\<close> means the store accepted a completion request
  in this run, \<^verbatim>\<open>AlreadyComplete\<close> that it answered that the object exists.\<close>

theorem completion_is_witnessed:
  assumes "complete_uploaded_file_inner st rt file retry s = (Inr r, s')"
  shows "\<exists>outcome. r = Some outcome \<and> outcome_witnessed outcome (w_trace s')"
  using hoare_Inr [OF complete_inner_outcome _ assms] by simp

theorem completion_is_witnessed_witness:
  "\<exists>s'. complete_uploaded_file_inner accepting steady first_file one_attempt (start\<lparr>w_db := quiet uploaded_tables\<rparr>)
      = (Inr (Some Completed), s') \<and> outcome_witnessed Completed (w_trace s')"
  using one_completion completion_is_witnessed by (metis option.inject)

section \<open>Delays, errors and the S3 adapter\<close>

lemma unat_millis: "unat (of_nat (delay_ceiling self attempt div 10 ^ 6) :: u64) \<le> delay_ceiling self attempt div 10 ^ 6"
  by (simp add: unat_of_nat take_bit_nat_less_eq_self)

text \<open>A retry delay never exceeds the policy's maximum nor the base doubled once per attempt (the
  exponent stops at twenty), whatever the generator draws up to the limit it is given; attempts and
  exponents do not overflow.\<close>

theorem retry_delay_is_bounded:
  assumes "\<And>n. rng n \<le> n"
  shows "delay rng self attempt \<le> min (r_maximum self) (r_base self * 2 ^ unat (min attempt 20))"
proof -
  let ?m = "of_nat (delay_ceiling self attempt div 10 ^ 6) :: u64"
  have "unat (rng ?m) \<le> delay_ceiling self attempt div 10 ^ 6"
    using assms [of ?m] unat_millis [of self attempt] by (simp add: word_le_nat_alt)
  then have "delay rng self attempt \<le> delay_ceiling self attempt div 10 ^ 6 * 10 ^ 6"
    unfolding delay_def Let_def by (rule mult_le_mono1)
  also have "\<dots> \<le> delay_ceiling self attempt" by simp
  also have "\<dots> \<le> min (r_maximum self) (r_base self * 2 ^ unat (min attempt 20))"
    by (auto simp: delay_ceiling_def saturating_pow_u32_def min.coboundedI1 min.coboundedI2 min_le_iff_disj)
  finally show ?thesis .
qed

theorem retry_delay_is_bounded_witness: "delay (\<lambda>n. n) default_retry_policy 1 \<le> 1000000000"
  using retry_delay_is_bounded [of "\<lambda>n. n" default_retry_policy 1] by (simp add: default_retry_policy_def)

text \<open>C14: Listing the parts of an upload through S3 returns all of them: it succeeds exactly when the
  service answers a sequence of pages, each but the last truncated with a marker for the next, whose
  entries are valid, and then returns their concatenation in order; nothing is dropped between pages.\<close>

theorem s3_listing_is_complete:
  "s3_list_parts cl bucket session w = Some (Inr parts, w') \<longleftrightarrow>
     (\<exists>pages. serves cl bucket session None w pages w' \<and> map_sum_list remote_part (concat pages) = Inr parts)"
  using list_pages_complete [of cl bucket session None "[]" w "(Inr parts, w')"]
    list_pages_serves [of cl bucket session None w _ w' parts "[]"]
  by (auto simp: s3_list_parts_def page_result_def)

text \<open>An SDK error is worth a retry exactly when the service reports a code other than a lost upload or
  an oversized entity, or when the request timed out, could not be dispatched or got a broken
  response; an expired credential is retryable too, with a fresh authorization.\<close>

theorem sdk_errors_worth_a_retry:
  "is_retryable (map_sdk_error error) \<longleftrightarrow>
     (case error of
        ServiceError (Some code) _ \<Rightarrow>
          code \<notin> {''NoSuchUpload'', ''EntityTooLarge'', ''RequestEntityTooLarge''}
      | TimeoutError _ \<Rightarrow> True | DispatchFailure _ \<Rightarrow> True | ResponseError _ \<Rightarrow> True | _ \<Rightarrow> False)"
  by (rule map_sdk_error_retryable)

end
