(* ===== verification/Diagnostics.thy ===== *)
theory Diagnostics
  imports Upload
begin

text \<open>
  The diagnostics of \<^verbatim>\<open>crates/courier-registry/src/lib.rs\<close>: how a rejected response becomes an
  error message that can be persisted and shown, without credentials or signed URLs.

  Text is its UTF-8 bytes; Rust's \<^verbatim>\<open>char\<close> operations work on the characters \<open>utf8_chars\<close> cuts it
  into. The parameters are the reason phrase of a status (http crate) and the test that a body
  parses as JSON (serde_json).
\<close>

section \<open>Text\<close>

definition byte_of :: "char \<Rightarrow> nat" where
  "byte_of c = of_char c"

definition continuation :: "char \<Rightarrow> bool" where
  "continuation c \<longleftrightarrow> 128 \<le> byte_of c \<and> byte_of c < 192"

fun utf8_chars :: "string \<Rightarrow> string list" where
  "utf8_chars [] = []"
| "utf8_chars (c # cs) =
     (case utf8_chars cs of
        [] \<Rightarrow> [[c]]
      | w # ws \<Rightarrow> if continuation (hd w) then (c # w) # ws else [c] # w # ws)"

text \<open>The code points of \<^verbatim>\<open>char::is_whitespace\<close>, encoded.\<close>

definition whitespace :: "string \<Rightarrow> bool" where
  "whitespace w \<longleftrightarrow>
     (let bs = map byte_of w in
      bs \<in> {[9], [10], [11], [12], [13], [32], [0xC2, 0x85], [0xC2, 0xA0], [0xE1, 0x9A, 0x80],
            [0xE2, 0x80, 0xA8], [0xE2, 0x80, 0xA9], [0xE2, 0x80, 0xAF], [0xE2, 0x81, 0x9F],
            [0xE3, 0x80, 0x80]}
      \<or> length bs = 3 \<and> take 2 bs = [0xE2, 0x80] \<and> 0x80 \<le> last bs \<and> last bs \<le> 0x8A)"

fun words_of :: "string \<Rightarrow> string list \<Rightarrow> string list" where
  "words_of w [] = (if w = [] then [] else [w])"
| "words_of w (c # cs) =
     (if whitespace c then (if w = [] then words_of [] cs else w # words_of [] cs)
      else words_of (w @ c) cs)"

definition split_whitespace :: "string \<Rightarrow> string list" where
  "split_whitespace s = words_of [] (utf8_chars s)"

definition trim_start :: "string \<Rightarrow> string" where
  "trim_start s = concat (dropWhile whitespace (utf8_chars s))"

definition trim :: "string \<Rightarrow> string" where
  "trim s = concat (rev (dropWhile whitespace (rev (dropWhile whitespace (utf8_chars s)))))"

fun contains :: "string \<Rightarrow> string \<Rightarrow> bool" where
  "contains [] needle = (needle = [])"
| "contains (c # cs) needle = (take (length needle) (c # cs) = needle \<or> contains cs needle)"

definition starts_with :: "string \<Rightarrow> string \<Rightarrow> bool" where
  "starts_with s p \<longleftrightarrow> take (length p) s = p"

definition eq_ignore_ascii_case :: "string \<Rightarrow> string \<Rightarrow> bool" where
  "eq_ignore_ascii_case a b \<longleftrightarrow> to_ascii_lowercase a = to_ascii_lowercase b"

fun decimal :: "nat \<Rightarrow> string" where
  "decimal n = (if n < 10 then [char_of (48 + n)] else decimal (n div 10) @ [char_of (48 + n mod 10)])"

declare decimal.simps [simp del]

text \<open>
  \<^verbatim>\<open>String::from_utf8_lossy\<close>: the length of the longest valid prefix of a sequence, and whether it
  is complete; each maximal invalid run becomes U+FFFD.
\<close>

definition in_range :: "nat \<Rightarrow> nat \<Rightarrow> u8 \<Rightarrow> bool" where
  "in_range lo hi b \<longleftrightarrow> lo \<le> unat b \<and> unat b \<le> hi"

definition sequence_shape :: "u8 \<Rightarrow> (nat \<times> nat) list option" where
  "sequence_shape b =
     (let n = unat b; c = (0x80, 0xBF) in
      if n < 0x80 then Some []
      else if 0xC2 \<le> n \<and> n \<le> 0xDF then Some [c]
      else if n = 0xE0 then Some [(0xA0, 0xBF), c]
      else if n = 0xED then Some [(0x80, 0x9F), c]
      else if 0xE1 \<le> n \<and> n \<le> 0xEF then Some [c, c]
      else if n = 0xF0 then Some [(0x90, 0xBF), c, c]
      else if 0xF1 \<le> n \<and> n \<le> 0xF3 then Some [c, c, c]
      else if n = 0xF4 then Some [(0x80, 0x8F), c, c]
      else None)"

fun matched :: "(nat \<times> nat) list \<Rightarrow> bytes \<Rightarrow> nat" where
  "matched ((lo, hi) # rs) (b # bs) = (if in_range lo hi b then Suc (matched rs bs) else 0)"
| "matched _ _ = 0"

definition replacement :: string where
  "replacement = [CHR 0xEF, CHR 0xBF, CHR 0xBD]"

fun from_utf8_lossy :: "bytes \<Rightarrow> string" where
  "from_utf8_lossy [] = []"
| "from_utf8_lossy (b # bs) =
     (case sequence_shape b of
        None \<Rightarrow> replacement @ from_utf8_lossy bs
      | Some shape \<Rightarrow>
          let n = matched shape bs in
          (if n = length shape then map (char_of \<circ> unat) (b # take n bs) else replacement)
            @ from_utf8_lossy (drop n bs))"

section \<open>Headers and bodies\<close>

text \<open>A header map: names in lower case, each with its first value.\<close>

type_synonym headers = "(string \<times> string) list"

definition to_str :: "string \<Rightarrow> string option" where
  "to_str v = (if list_all (\<lambda>c. 32 \<le> byte_of c \<and> byte_of c < 127 \<or> byte_of c = 9) v then Some v else None)"

definition ellipsis :: string where
  "ellipsis = [CHR 0xE2, CHR 0x80, CHR 0xA6]"

definition truncate_diagnostic :: "string \<Rightarrow> nat \<Rightarrow> string" where
  "truncate_diagnostic v limit =
     (if length (utf8_chars v) \<le> limit then v
      else concat (take limit (utf8_chars v)) @ ellipsis)"

definition header_value :: "headers \<Rightarrow> string \<Rightarrow> string option" where
  "header_value headers name =
     (case map_of headers name of None \<Rightarrow> None
      | Some raw \<Rightarrow> (case to_str raw of None \<Rightarrow> None
          | Some text \<Rightarrow> let v = trim text in
              if v = [] then None else Some (truncate_diagnostic v 160)))"

definition signed_markers :: "string list" where
  "signed_markers =
     [''x-amz-signature'', ''x-amz-credential'', ''x-amz-security-token'', ''authorization:'']"

definition safe_response_preview :: "string \<Rightarrow> string option" where
  "safe_response_preview body =
     (let compact = join_with '' '' (split_whitespace body) in
      if compact = [] then None
      else let lower = to_ascii_lowercase compact in
        if list_ex (contains lower) signed_markers
        then Some ''omitted because the response contained signed-request material''
        else Some (truncate_diagnostic compact 480))"

definition is_cloudflare_challenge :: "string \<Rightarrow> bool" where
  "is_cloudflare_challenge body =
     (let body' = to_ascii_lowercase body in
      list_ex (contains body')
        [''cf-chl-'', ''/cdn-cgi/challenge-platform'', ''just a moment...'', ''captcha''])"

text \<open>The first 1,024 bytes the body stream delivers, up to its end or its first error.\<close>

fun body_prefix :: "bytes \<Rightarrow> ('e + bytes) list \<Rightarrow> bytes" where
  "body_prefix bs [] = bs"
| "body_prefix bs (item # items) =
     (if length bs < 1024 then
        case item of Inl _ \<Rightarrow> bs
        | Inr chunk \<Rightarrow> body_prefix (bs @ take (1024 - length bs) chunk) items
      else bs)"

definition response_body_preview :: "('e + bytes) list \<Rightarrow> string" where
  "response_body_preview stream = from_utf8_lossy (body_prefix [] stream)"

section \<open>Messages\<close>

definition named_headers :: "headers \<Rightarrow> string list \<Rightarrow> string list" where
  "named_headers headers names =
     concat (map (\<lambda>name. case header_value headers name of None \<Rightarrow> []
                         | Some v \<Rightarrow> [name @ '' '' @ v]) names)"

definition body_kind :: "(string \<Rightarrow> bool) \<Rightarrow> string \<Rightarrow> string" where
  "body_kind is_json body =
     (if body = [] then ''empty''
      else if starts_with (trim_start body) ''<'' then
        (if contains (to_ascii_lowercase body) ''cloudflare'' then ''HTML mentioning Cloudflare''
         else ''HTML'')
      else if is_json body then ''JSON'' else ''other'')"

definition registry_response_detail ::
  "(string \<Rightarrow> bool) \<Rightarrow> string \<Rightarrow> string \<Rightarrow> string \<Rightarrow> string option \<Rightarrow> string \<Rightarrow> headers \<Rightarrow> string \<Rightarrow> string" where
  "registry_response_detail is_json phase method status host path headers body =
     (let evidence = [''HTTP '' @ status, ''method '' @ method, ''path '' @ path]
            @ (case host of None \<Rightarrow> [] | Some h \<Rightarrow> [''destination '' @ h])
            @ named_headers headers [''cf-ray'', ''cf-error-type'', ''cf-error-origin'', ''server'',
                ''content-type'', ''x-request-id'']
            @ [''response type '' @ body_kind is_json body];
          detail = phase @ '' rejected ('' @ join_with ''; '' evidence @ '')''
      in if \<not> starts_with path ''/api/v1/auth/'' then
           (case safe_response_preview body of None \<Rightarrow> detail
            | Some preview \<Rightarrow> detail @ ''. Response preview: '' @ preview)
         else detail)"

definition object_store_response_detail ::
  "string \<Rightarrow> string option \<Rightarrow> headers \<Rightarrow> string \<Rightarrow> string \<times> bool \<times> bool" where
  "object_store_response_detail status destination headers body =
     (let cloudflare = header_value headers ''cf-ray'' \<noteq> None
            \<or> (case header_value headers ''server'' of None \<Rightarrow> False
               | Some v \<Rightarrow> eq_ignore_ascii_case v ''cloudflare'');
          provider = (if cloudflare then ''Cloudflare'' else ''object store'');
          cloudflare_challenge = cloudflare \<and> is_cloudflare_challenge body;
          evidence = [''HTTP '' @ status, ''provider '' @ provider]
            @ (if cloudflare_challenge
               then [''Cloudflare security verification challenge detected''] else [])
            @ (case destination of None \<Rightarrow> [] | Some d \<Rightarrow> [''destination '' @ d])
            @ named_headers headers [''cf-ray'', ''server'', ''content-type'', ''x-amz-request-id'',
                ''x-amz-id-2'', ''x-goog-request-id''];
          detail = ''Object-store request rejected ('' @ join_with ''; '' evidence @ '')'';
          detail = (case safe_response_preview body of None \<Rightarrow> detail
                    | Some preview \<Rightarrow> detail @ ''. Response preview: '' @ preview);
          detail = (if cloudflare_challenge then detail @ ''. Courier cannot complete a browser CAPTCHA or JavaScript challenge during a presigned object-store request; ask the Courier administrator to exempt the S3 upload hostname from Cloudflare challenges.'' else detail)
      in (detail, cloudflare, cloudflare_challenge))"

section \<open>What a message can contain\<close>

lemma concat_utf8_chars [simp]: "concat (utf8_chars s) = s"
proof (induction s)
  case Nil
  then show ?case by simp
next
  case (Cons c s)
  then show ?case by (cases "utf8_chars s") auto
qed

lemma contains_append: "contains s n \<Longrightarrow> contains (a @ s) n"
  by (induction a) auto

lemma contains_iff: "contains s n \<longleftrightarrow> (\<exists>a b. s = a @ n @ b)"
proof (induction s)
  case Nil
  then show ?case by auto
next
  case (Cons c s)
  show ?case
  proof
    assume "contains (c # s) n"
    then consider "take (length n) (c # s) = n" | "contains s n" by auto
    then show "\<exists>a b. c # s = a @ n @ b"
    proof cases
      case 1
      have "c # s = [] @ take (length n) (c # s) @ drop (length n) (c # s)"
        by (simp only: append_Nil append_take_drop_id)
      then show ?thesis unfolding 1 by blast
    next
      case 2
      then obtain a b where "s = a @ n @ b" using Cons.IH by auto
      then have "c # s = (c # a) @ n @ b" by simp
      then show ?thesis by blast
    qed
  next
    assume "\<exists>a b. c # s = a @ n @ b"
    then obtain a b where ab: "c # s = a @ n @ b" by blast
    then show "contains (c # s) n"
    proof (cases a)
      case Nil
      then have "take (length n) (c # s) = n" using ab by simp
      then show ?thesis by simp
    next
      case (Cons x xs)
      then show ?thesis using ab Cons.IH by auto
    qed
  qed
qed

lemma contains_prefix: "contains (take k s) n \<Longrightarrow> contains s n"
  unfolding contains_iff by (metis append.assoc append_take_drop_id)

lemma to_ascii_lowercase_append [simp]:
  "to_ascii_lowercase (a @ b) = to_ascii_lowercase a @ to_ascii_lowercase b"
  by (simp add: to_ascii_lowercase_def)

text \<open>A needle of ASCII text cannot reach into the ellipsis.\<close>

lemma contains_ellipsis:
  assumes "contains (s @ e) n" and "set n \<inter> set e = {}"
  shows "contains s n \<or> n = []"
proof -
  obtain a b where ab: "s @ e = a @ n @ b" using assms(1) by (auto simp: contains_iff)
  show ?thesis
  proof (cases "length a + length n \<le> length s")
    case True
    then have "take (length s) (a @ n @ b) = a @ n @ take (length s - length a - length n) b"
      by simp
    then show ?thesis using ab by (metis append_eq_conv_conj contains_iff)
  next
    case False
    show ?thesis
    proof (cases n rule: rev_cases)
      case Nil
      then show ?thesis by simp
    next
      case (snoc m x)
      have "(s @ e) ! (length a + length m) = x" using ab snoc by (simp add: nth_append)
      moreover have "length a + length m < length (s @ e)"
        using arg_cong [OF ab, of length] snoc by simp
      ultimately have "x \<in> set e" using False snoc
        by (auto simp: nth_append split: if_splits)
      then show ?thesis using assms(2) snoc by auto
    qed
  qed
qed

lemma concat_take_prefix: "\<exists>k. concat (take n ws) = take k (concat ws)"
proof (induction n arbitrary: ws)
  case 0
  then show ?case by (intro exI [of _ 0]) simp
next
  case (Suc n)
  then show ?case
  proof (cases ws)
    case Nil
    then show ?thesis by simp
  next
    case (Cons w us)
    from Suc.IH [of us] obtain k where "concat (take n us) = take k (concat us)" by blast
    then show ?thesis using Cons by (intro exI [of _ "length w + k"]) simp
  qed
qed

lemma truncate_contains:
  assumes "contains (to_ascii_lowercase (truncate_diagnostic v limit)) n"
    and "set n \<inter> set (to_ascii_lowercase ellipsis) = {}" and "n \<noteq> []"
  shows "contains (to_ascii_lowercase v) n"
proof -
  obtain k where "concat (take limit (utf8_chars v)) = take k v"
    using concat_take_prefix [of limit "utf8_chars v"] by auto
  then show ?thesis
    using assms contains_ellipsis [of "to_ascii_lowercase (take k v)" "to_ascii_lowercase ellipsis" n]
      contains_prefix [of k "to_ascii_lowercase v" n]
    by (auto simp: truncate_diagnostic_def to_ascii_lowercase_def take_map split: if_splits)
qed

lemma signed_markers_ascii:
  "n \<in> set signed_markers \<Longrightarrow> set n \<inter> set (to_ascii_lowercase ellipsis) = {} \<and> n \<noteq> []"
  by (auto simp: signed_markers_def to_ascii_lowercase_def ellipsis_def ascii_lower_def
      of_char_def)

lemma safe_response_preview_unsigned:
  assumes "safe_response_preview body = Some preview" and "n \<in> set signed_markers"
  shows "\<not> contains (to_ascii_lowercase preview) n"
proof
  assume c: "contains (to_ascii_lowercase preview) n"
  let ?compact = "join_with '' '' (split_whitespace body)"
  consider (omitted) "preview = ''omitted because the response contained signed-request material''"
    | (shown) "preview = truncate_diagnostic ?compact 480"
        "\<not> list_ex (contains (to_ascii_lowercase ?compact)) signed_markers"
    using assms(1) by (auto simp: safe_response_preview_def Let_def split: if_splits)
  then show False
  proof cases
    case omitted
    then show False using c assms(2)
      by (auto simp: signed_markers_def to_ascii_lowercase_def ascii_lower_def)
  next
    case shown
    then show False using c assms(2) truncate_contains signed_markers_ascii
      by (metis (no_types, lifting) list_ex_iff)
  qed
qed

lemma auth_detail_hides_body:
  assumes "starts_with path ''/api/v1/auth/''" and "body_kind js b = body_kind js b'"
  shows "registry_response_detail js phase method status host path headers b
    = registry_response_detail js phase method status host path headers b'"
  using assms by (simp add: registry_response_detail_def Let_def)

end
