(* ===== verification/RegistryClient.thy ===== *)
theory RegistryClient
  imports Diagnostics
begin

text \<open>
  The Registry client of \<^verbatim>\<open>crates/courier-registry/src/lib.rs\<close>: requests with one bearer token, the
  session refresh after an HTTP 401, the retries of upload requests, and the endpoints. The network,
  the JSON parser, the parsers of identifiers and times, and the phrases of the status codes are the
  record \<open>registry_env\<close>. The client's clones share one authentication state, which is part of the
  run's state beside the environment and a trace of requests, sleeps and diagnostics.
\<close>

section \<open>JSON and the decoders serde derives\<close>

datatype json = JNull | JBool bool | JNum int | JStr string | JArr "json list" | JObj "(string \<times> json) list"

text \<open>
  A derived struct reads an object, where a known field may appear once and unknown ones are
  ignored, or an array of exactly its fields. An absent field of an optional type is \<open>None\<close>.
\<close>

definition struct_fields :: "string list \<Rightarrow> json \<Rightarrow> json option list option" where
  "struct_fields names j =
     (case j of
        JObj kvs \<Rightarrow>
          if distinct (filter (\<lambda>k. k \<in> set names) (map fst kvs))
          then Some (map (map_of kvs) names) else None
      | JArr xs \<Rightarrow> if length xs = length names then Some (map Some xs) else None
      | _ \<Rightarrow> None)"

definition required :: "(json \<Rightarrow> 'a option) \<Rightarrow> json option \<Rightarrow> 'a option" where
  "required dec f = Option.bind f dec"

definition optional :: "(json \<Rightarrow> 'a option) \<Rightarrow> json option \<Rightarrow> 'a option option" where
  "optional dec f =
     (case f of None \<Rightarrow> Some None | Some JNull \<Rightarrow> Some None | Some j \<Rightarrow> map_option Some (dec j))"

definition dec_string :: "json \<Rightarrow> string option" where
  "dec_string j = (case j of JStr s \<Rightarrow> Some s | _ \<Rightarrow> None)"

definition dec_bool :: "json \<Rightarrow> bool option" where
  "dec_bool j = (case j of JBool b \<Rightarrow> Some b | _ \<Rightarrow> None)"

definition dec_word :: "json \<Rightarrow> 'a::len word option" where
  "dec_word j = (case j of JNum n \<Rightarrow>
     if 0 \<le> n \<and> n < 2 ^ LENGTH('a) then Some (word_of_int n) else None | _ \<Rightarrow> None)"

fun all_some :: "'a option list \<Rightarrow> 'a list option" where
  "all_some [] = Some []"
| "all_some (x # xs) = (case x of None \<Rightarrow> None | Some y \<Rightarrow> map_option ((#) y) (all_some xs))"

definition dec_list :: "(json \<Rightarrow> 'a option) \<Rightarrow> json \<Rightarrow> 'a list option" where
  "dec_list dec j = (case j of JArr xs \<Rightarrow> all_some (map dec xs) | _ \<Rightarrow> None)"

section \<open>Requests, responses, errors\<close>

record transport_error =
  te_timeout :: bool
  te_connect :: bool
  te_request :: bool
  te_body :: bool
  te_display :: string
  te_text :: string

text \<open>\<open>te_display\<close> is the whole message, \<open>te_text\<close> the message without the URL.\<close>

datatype http_body = NoBody | JsonBody json | RawBody string | StreamBody

record http_request =
  rq_method :: string
  rq_url :: string
  rq_headers :: headers
  rq_body :: http_body
  rq_timeout :: "nat option"

record http_response =
  hr_status :: u16
  hr_host :: "string option"
  hr_path :: string
  hr_headers :: headers
  hr_body :: "(transport_error + bytes) list"

datatype RegistryError =
    Transport transport_error
  | Io io_error
  | Rejected u16 string
  | State string
  | Serialization string
  | Paused

definition is_success :: "u16 \<Rightarrow> bool" where
  "is_success status \<longleftrightarrow> 200 \<le> status \<and> status < 300"

definition transport_category :: "transport_error \<Rightarrow> string" where
  "transport_category error =
     (if te_timeout error then ''timeout'' else if te_connect error then ''connection''
      else if te_body error then ''request body'' else if te_request error then ''request''
      else ''other'')"

definition retryable_transport :: "transport_error \<Rightarrow> bool" where
  "retryable_transport error \<longleftrightarrow>
     te_timeout error \<or> te_connect error \<or> te_request error \<or> te_body error"

definition upload_request_retryable :: "RegistryError \<Rightarrow> bool" where
  "upload_request_retryable error =
     (case error of
        Rejected status _ \<Rightarrow> retries_http_status status
      | Transport e \<Rightarrow> retryable_transport e
      | _ \<Rightarrow> False)"

definition map_transport :: "transport_error \<Rightarrow> StoreError" where
  "map_transport error =
     (if retryable_transport error then StoreError.Transient (te_text error)
      else StoreError.Permanent (te_text error))"

definition map_status :: "u16 \<Rightarrow> string \<Rightarrow> StoreError" where
  "map_status status detail =
     (if status = 401 \<or> status = 403 then StoreError.AuthorizationExpired
      else if status = 404 then StoreError.UploadNotFound
      else if retries_http_status status then StoreError.Transient detail
      else StoreError.Permanent detail)"

definition io_text :: "io_error \<Rightarrow> string" where
  "io_text e = (case e of IoError _ m \<Rightarrow> m)"

definition map_registry_error :: "RegistryError \<Rightarrow> StoreError" where
  "map_registry_error error =
     (case error of
        Transport e \<Rightarrow> map_transport e
      | Io e \<Rightarrow> StoreError.Permanent (io_text e)
      | Serialization m \<Rightarrow> StoreError.Permanent m
      | Rejected status detail \<Rightarrow> map_status status detail
      | State detail \<Rightarrow> StoreError.Permanent detail
      | Paused \<Rightarrow> StoreError.Permanent ''download paused'')"

section \<open>The client\<close>

datatype RegistryInvitationPurpose = Upload | Download

record RegistryProject =
  pj_id :: uuid
  pj_project_code :: string
  pj_name :: string
  pj_description :: "string option"
  pj_status :: string
  pj_created_at :: datetime

record RegistrySession =
  ss_access_token :: string
  ss_refresh_token :: string
  ss_expires_at :: datetime
  ss_refresh_expires_at :: datetime
  ss_projects :: "RegistryProject list"
  ss_purpose :: RegistryInvitationPurpose

record 'w registry_env =
  re_send :: "http_request \<Rightarrow> 'w \<Rightarrow> (transport_error + http_response) \<times> 'w"
  re_json :: "http_response \<Rightarrow> transport_error + json"
  re_is_json :: "string \<Rightarrow> bool"
  re_status_text :: "u16 \<Rightarrow> string"
  re_uuid :: "string \<Rightarrow> uuid option"
  re_time :: "string \<Rightarrow> datetime option"
  re_draw :: "u64 \<Rightarrow> 'w \<Rightarrow> u64 \<times> 'w"

text \<open>The session observer is a closure of the application, which persists the new session.\<close>

record 'w RegistryClient =
  rc_base_url :: string
  rc_observer :: "(RegistrySession \<Rightarrow> 'w \<Rightarrow> (string + unit) \<times> 'w) option"
  rc_env :: "'w registry_env"

record AuthState =
  as_access_token :: string
  as_refresh_token :: "string option"

datatype client_event =
    Sent http_request "transport_error + http_response"
  | SleptFor duration
  | Observed string string
  | Streamed http_request "(io_error + bytes) list" "transport_error + http_response"

text \<open>\<open>Streamed\<close> is a request whose body is a stream, with the items the stream yielded.\<close>

text \<open>\<open>cs_auth\<close> is \<open>None\<close> for an unauthenticated client, \<open>cs_poisoned\<close> the state of its mutex.\<close>

record 'w client_state =
  cs_auth :: "AuthState option"
  cs_poisoned :: bool
  cs_world :: 'w
  cs_trace :: "client_event list"

type_synonym ('w, 'a) client_run = "('w client_state, RegistryError, 'a) comp"

fun trim_end_slashes :: "string \<Rightarrow> string" where
  "trim_end_slashes s = (if s \<noteq> [] \<and> last s = CHR ''/'' then trim_end_slashes (butlast s) else s)"

declare trim_end_slashes.simps [simp del]

definition new_client ::
  "'w registry_env \<Rightarrow> string \<Rightarrow> (RegistrySession \<Rightarrow> 'w \<Rightarrow> (string + unit) \<times> 'w) option \<Rightarrow> 'w RegistryClient" where
  "new_client env base_url observer =
     \<lparr>rc_base_url = trim_end_slashes base_url, rc_observer = observer, rc_env = env\<rparr>"

definition new_state :: "AuthState option \<Rightarrow> 'w \<Rightarrow> 'w client_state" where
  "new_state auth w = \<lparr>cs_auth = auth, cs_poisoned = False, cs_world = w, cs_trace = []\<rparr>"

definition unauthenticated ::
  "'w registry_env \<Rightarrow> string \<Rightarrow> 'w \<Rightarrow> 'w RegistryClient \<times> 'w client_state" where
  "unauthenticated env base_url w = (new_client env base_url None, new_state None w)"

definition authenticated ::
  "'w registry_env \<Rightarrow> string \<Rightarrow> string \<Rightarrow> 'w \<Rightarrow> 'w RegistryClient \<times> 'w client_state" where
  "authenticated env base_url bearer w =
     (new_client env base_url None, new_state (Some \<lparr>as_access_token = bearer, as_refresh_token = None\<rparr>) w)"

definition renewable ::
  "'w registry_env \<Rightarrow> string \<Rightarrow> string \<Rightarrow> string \<Rightarrow> (RegistrySession \<Rightarrow> 'w \<Rightarrow> (string + unit) \<times> 'w) \<Rightarrow> 'w
     \<Rightarrow> 'w RegistryClient \<times> 'w client_state" where
  "renewable env base_url access_token refresh_token session_observer w =
     (new_client env base_url (Some session_observer),
      new_state (Some \<lparr>as_access_token = access_token, as_refresh_token = Some refresh_token\<rparr>) w)"

section \<open>Steps\<close>

definition trace_event :: "client_event \<Rightarrow> ('w client_state, 'e, unit) comp" where
  "trace_event ev = modifies (\<lambda>s. s\<lparr>cs_trace := cs_trace s @ [ev]\<rparr>)"

definition observe :: "string \<Rightarrow> string \<Rightarrow> ('w client_state, 'e, unit) comp" where
  "observe level message = trace_event (Observed level message)"

definition send_request :: "'w RegistryClient \<Rightarrow> http_request \<Rightarrow> ('w, transport_error + http_response) client_run" where
  "send_request self request = (\<lambda>s. case re_send (rc_env self) request (cs_world s) of
     (r, w') \<Rightarrow> (Inr r, s\<lparr>cs_world := w', cs_trace := cs_trace s @ [Sent request r]\<rparr>))"

definition lock_auth :: "('w, AuthState option) client_run" where
  "lock_auth = (\<lambda>s. case cs_auth s of
     None \<Rightarrow> (Inr None, s)
   | Some auth \<Rightarrow>
       if cs_poisoned s then (Inl (State ''Registry credentials are unavailable''), s)
       else (Inr (Some auth), s))"

definition store_auth :: "AuthState \<Rightarrow> ('w, unit) client_run" where
  "store_auth auth = modifies (\<lambda>s. s\<lparr>cs_auth := Some auth\<rparr>)"

definition decode_failed :: transport_error where
  "decode_failed = \<lparr>te_timeout = False, te_connect = False, te_request = False, te_body = False,
     te_display = ''error decoding response body'', te_text = ''error decoding response body''\<rparr>"

definition response_json :: "'w RegistryClient \<Rightarrow> (json \<Rightarrow> 'a option) \<Rightarrow> http_response \<Rightarrow> RegistryError + 'a" where
  "response_json self dec response =
     (case re_json (rc_env self) response of
        Inl e \<Rightarrow> Inl (Transport e)
      | Inr j \<Rightarrow> (case dec j of None \<Rightarrow> Inl (Transport decode_failed) | Some x \<Rightarrow> Inr x))"

text \<open>A header value admits visible bytes, spaces, tabs and bytes above 127.\<close>

definition valid_header :: "string \<Rightarrow> bool" where
  "valid_header v \<longleftrightarrow> list_all (\<lambda>c. 32 \<le> byte_of c \<and> byte_of c \<noteq> 127 \<or> byte_of c = 9) v"

definition replace_bearer_auth :: "http_request \<Rightarrow> string \<Rightarrow> RegistryError + http_request" where
  "replace_bearer_auth request token =
     (let v = ''Bearer '' @ token in
      if \<not> valid_header v then Inl (State ''Registry credentials are invalid'')
      else Inr (request\<lparr>rq_headers :=
             filter (\<lambda>(k, _). k \<noteq> ''authorization'') (rq_headers request) @ [(''authorization'', v)]\<rparr>))"

definition try_clone :: "http_request \<Rightarrow> http_request option" where
  "try_clone request = (if rq_body request = StreamBody then None else Some request)"

definition registry_rejection :: "'w RegistryClient \<Rightarrow> http_response \<Rightarrow> string \<Rightarrow> string \<Rightarrow> RegistryError" where
  "registry_rejection self response phase method =
     Rejected (hr_status response)
       (registry_response_detail (re_is_json (rc_env self)) phase method
          (re_status_text (rc_env self) (hr_status response)) (hr_host response) (hr_path response)
          (hr_headers response) (response_body_preview (hr_body response)))"

definition error_text :: "'w RegistryClient \<Rightarrow> RegistryError \<Rightarrow> string" where
  "error_text self error =
     (case error of
        Transport e \<Rightarrow> ''Registry request failed: '' @ te_display e
      | Io e \<Rightarrow> ''Registry download I/O failed: '' @ io_text e
      | Rejected status detail \<Rightarrow>
          ''Registry rejected the request ('' @ re_status_text (rc_env self) status @ ''): '' @ detail
      | State m \<Rightarrow> ''Registry response did not match local transfer state: '' @ m
      | Serialization m \<Rightarrow> ''manifest serialization failed: '' @ m
      | Paused \<Rightarrow> ''download paused'')"

definition authorized :: "'w RegistryClient \<Rightarrow> http_request \<Rightarrow> ('w, http_request) client_run" where
  "authorized self request =
     bindE lock_auth (\<lambda>auth.
     case auth of
       None \<Rightarrow> fail (State ''authenticated Registry session required'')
     | Some a \<Rightarrow> lift_res (replace_bearer_auth request (as_access_token a)))"

section \<open>Sessions\<close>

definition dec_uuid :: "'w RegistryClient \<Rightarrow> json \<Rightarrow> uuid option" where
  "dec_uuid self j = Option.bind (dec_string j) (re_uuid (rc_env self))"

definition dec_time :: "'w RegistryClient \<Rightarrow> json \<Rightarrow> datetime option" where
  "dec_time self j = Option.bind (dec_string j) (re_time (rc_env self))"

definition dec_purpose :: "json \<Rightarrow> RegistryInvitationPurpose option" where
  "dec_purpose j = (case dec_string j of
     Some s \<Rightarrow> if s = ''upload'' then Some Upload else if s = ''download'' then Some Download else None
   | None \<Rightarrow> None)"

definition dec_project :: "'w RegistryClient \<Rightarrow> json \<Rightarrow> RegistryProject option" where
  "dec_project self j =
     (case struct_fields [''id'', ''project_code'', ''name'', ''description'', ''status'', ''created_at''] j of
        Some [i, code, name, description, status, created] \<Rightarrow>
          Option.bind (required (dec_uuid self) i) (\<lambda>i.
          Option.bind (required dec_string code) (\<lambda>code.
          Option.bind (required dec_string name) (\<lambda>name.
          Option.bind (optional dec_string description) (\<lambda>description.
          Option.bind (required dec_string status) (\<lambda>status.
          Option.bind (required (dec_time self) created) (\<lambda>created.
            Some \<lparr>pj_id = i, pj_project_code = code, pj_name = name, pj_description = description,
                  pj_status = status, pj_created_at = created\<rparr>))))))
      | _ \<Rightarrow> None)"

definition dec_session :: "'w RegistryClient \<Rightarrow> json \<Rightarrow> RegistrySession option" where
  "dec_session self j =
     (case struct_fields [''access_token'', ''refresh_token'', ''expires_at'', ''refresh_expires_at'',
        ''projects'', ''purpose''] j of
        Some [access, refresh, expires, refresh_expires, projects, purpose] \<Rightarrow>
          Option.bind (required dec_string access) (\<lambda>access.
          Option.bind (required dec_string refresh) (\<lambda>refresh.
          Option.bind (required (dec_time self) expires) (\<lambda>expires.
          Option.bind (required (dec_time self) refresh_expires) (\<lambda>refresh_expires.
          Option.bind (required (dec_list (dec_project self)) projects) (\<lambda>projects.
          Option.bind (required dec_purpose purpose) (\<lambda>purpose.
            Some \<lparr>ss_access_token = access, ss_refresh_token = refresh, ss_expires_at = expires,
                  ss_refresh_expires_at = refresh_expires, ss_projects = projects, ss_purpose = purpose\<rparr>))))))
      | _ \<Rightarrow> None)"

definition request_to :: "'w RegistryClient \<Rightarrow> string \<Rightarrow> string \<Rightarrow> http_request" where
  "request_to self method path =
     \<lparr>rq_method = method, rq_url = rc_base_url self @ path, rq_headers = [], rq_body = NoBody, rq_timeout = None\<rparr>"

definition refresh_request :: "'w RegistryClient \<Rightarrow> string \<Rightarrow> http_request" where
  "refresh_request self refresh_token =
     (request_to self ''POST'' ''/api/v1/auth/sessions/refresh'')\<lparr>rq_body :=
        JsonBody (JObj [(''refresh_token'', JStr refresh_token)])\<rparr>"

definition refresh_session :: "'w RegistryClient \<Rightarrow> string \<Rightarrow> ('w, RegistrySession) client_run" where
  "refresh_session self refresh_token =
     bindE (send_request self (refresh_request self refresh_token)) (\<lambda>answer.
     case answer of
       Inl e \<Rightarrow> thenE (observe ''warning'' (''Registry session refresh POST transport failed (''
                  @ transport_category e @ '')'')) (fail (Transport e))
     | Inr response \<Rightarrow>
         if \<not> is_success (hr_status response) then
           let error = registry_rejection self response ''Registry session refresh'' ''POST''
           in thenE (observe ''warning'' (error_text self error)) (fail error)
         else thenE (observe ''info'' ''Registry session refresh succeeded'')
                (lift_res (response_json self (dec_session self) response)))"

section \<open>Sending\<close>

definition send_again :: "'w RegistryClient \<Rightarrow> http_request \<Rightarrow> string \<Rightarrow> ('w, http_response) client_run" where
  "send_again self retry token =
     bindE (lift_res (replace_bearer_auth retry token)) (\<lambda>again.
     bindE (send_request self again) (\<lambda>answer.
     case answer of
       Inl e \<Rightarrow> thenE (observe ''warning'' (''Registry '' @ rq_method retry
                  @ '' request after session refresh failed ('' @ transport_category e @ '')''))
                  (fail (Transport e))
     | Inr r \<Rightarrow> ok r))"

text \<open>The answer to an HTTP 401: refresh under the lock, let the observer persist, again once.\<close>

definition refresh_and_replay ::
  "'w RegistryClient \<Rightarrow> (RegistrySession \<Rightarrow> 'w \<Rightarrow> (string + unit) \<times> 'w) \<Rightarrow> http_request \<Rightarrow> http_response
     \<Rightarrow> ('w, http_response) client_run" where
  "refresh_and_replay self observer retry response =
     thenE (observe ''info'' (''Registry '' @ rq_method retry @ '' '' @ hr_path response
              @ '' returned HTTP 401; attempting session refresh''))
     (bindE lock_auth (\<lambda>auth.
      case Option.bind auth as_refresh_token of
        None \<Rightarrow> fail (State ''renewable Registry session required'')
      | Some refresh_token \<Rightarrow>
          bindE (refresh_session self refresh_token) (\<lambda>session.
          bindE (\<lambda>s. case observer session (cs_world s) of (r, w') \<Rightarrow> (Inr r, s\<lparr>cs_world := w'\<rparr>)) (\<lambda>persisted.
          case persisted of
            Inl m \<Rightarrow> fail (State m)
          | Inr _ \<Rightarrow>
              thenE lock_auth
              (thenE (store_auth \<lparr>as_access_token = ss_access_token session,
                                  as_refresh_token = Some (ss_refresh_token session)\<rparr>)
              (send_again self retry (ss_access_token session)))))))"

definition method_name :: "http_request \<Rightarrow> string" where
  "method_name request = (case try_clone request of Some r \<Rightarrow> rq_method r | None \<Rightarrow> ''unknown'')"

definition send_json :: "'w RegistryClient \<Rightarrow> (json \<Rightarrow> 'a option) \<Rightarrow> http_request \<Rightarrow> ('w, 'a) client_run" where
  "send_json self dec request =
     (let retry = try_clone request; method = method_name request in
      bindE (send_request self request) (\<lambda>answer.
      case answer of
        Inl e \<Rightarrow> thenE (observe ''warning'' (''Registry '' @ method @ '' request transport failed (''
                   @ transport_category e @ '')'')) (fail (Transport e))
      | Inr first \<Rightarrow>
          bindE (gets cs_auth) (\<lambda>auth.
          bindE (case (auth, rc_observer self, retry) of
                   (Some _, Some observer, Some r) \<Rightarrow>
                     if hr_status first = 401 then refresh_and_replay self observer r first else ok first
                 | _ \<Rightarrow> ok first) (\<lambda>response.
          if \<not> is_success (hr_status response) then
            let error = registry_rejection self response ''Registry request'' method
            in thenE (observe ''warning'' (error_text self error)) (fail error)
          else lift_res (response_json self dec response)))))"

definition client_sleep :: "'w RegistryClient \<Rightarrow> RetryPolicy \<Rightarrow> u32 \<Rightarrow> ('w, unit) client_run" where
  "client_sleep self policy attempt = (\<lambda>s.
     case re_draw (rc_env self) (of_nat (delay_ceiling policy attempt div 10 ^ 6)) (cs_world s) of
       (drawn, w') \<Rightarrow> (Inr (), s\<lparr>cs_world := w',
         cs_trace := cs_trace s @ [SleptFor (delay (\<lambda>_. drawn) policy attempt)]\<rparr>))"

text \<open>One attempt: the token is read again, since another request may have refreshed it.\<close>

definition current_bearer :: "http_request \<Rightarrow> ('w, http_request) client_run" where
  "current_bearer again =
     bindE lock_auth (\<lambda>auth. case auth of
       None \<Rightarrow> ok again | Some a \<Rightarrow> lift_res (replace_bearer_auth again (as_access_token a)))"

fun upload_json_attempts ::
  "'w RegistryClient \<Rightarrow> (json \<Rightarrow> 'a option) \<Rightarrow> http_request \<Rightarrow> RetryPolicy \<Rightarrow> u32 list
     \<Rightarrow> ('w, 'a option) client_run" where
  "upload_json_attempts self dec request policy [] = ok None"
| "upload_json_attempts self dec request policy (attempt # rest) =
     (case try_clone request of
        None \<Rightarrow> fail (State ''upload request cannot be safely replayed'')
      | Some clone \<Rightarrow>
          bindE (current_bearer clone) (\<lambda>again.
          bindE (tryE (send_json self dec again)) (\<lambda>result.
          case result of
            Inr v \<Rightarrow> ok (Some v)
          | Inl error \<Rightarrow>
              if upload_request_retryable error \<and> attempt + 1 < r_max_attempts policy then
                thenE (observe ''info'' (''Retrying Registry upload request after attempt ''
                         @ decimal (unat (attempt + 1)) @ '' of '' @ decimal (unat (r_max_attempts policy))))
                (thenE (client_sleep self policy attempt)
                   (upload_json_attempts self dec request policy rest))
              else fail error)))"

text \<open>\<open>None\<close> is the \<^verbatim>\<open>unreachable!\<close> after the loop.\<close>

definition send_upload_json ::
  "'w RegistryClient \<Rightarrow> (json \<Rightarrow> 'a option) \<Rightarrow> http_request \<Rightarrow> ('w, 'a option) client_run" where
  "send_upload_json self dec request =
     upload_json_attempts self dec request default_retry_policy (attempts default_retry_policy)"


end
