(* ===== verification/RegistryApi.thy ===== *)
theory RegistryApi
  imports RegistryClient StoreBehaviour
begin

text \<open>
  The endpoints of the Registry client, \<^verbatim>\<open>crates/courier-registry/src/lib.rs\<close>: the typed requests and
  replies, the manifest snapshot, and the synchronisation of the event outbox.

  \<open>api_text\<close> holds the renderings that are not the program's: times (chrono), the text of a JSON
  value (serde_json), the conversion of seconds and nanoseconds to a time, database errors, and the
  name of the operating system.
\<close>

record api_text =
  at_rfc3339 :: "datetime \<Rightarrow> string"
  at_timestamp_opt :: "int \<Rightarrow> nat \<Rightarrow> datetime option"
  at_json :: "json \<Rightarrow> string + string"
  at_sqlite :: "rusqlite_error \<Rightarrow> string"
  at_os :: string

definition courier_version :: string where
  "courier_version = ''0.4.0''"

definition courier_error_text :: "api_text \<Rightarrow> CourierError \<Rightarrow> string" where
  "courier_error_text tx error =
     (case error of
        CourierError.Configuration m \<Rightarrow> ''configuration error: '' @ m
      | CourierError.Database e \<Rightarrow> ''database error: '' @ at_sqlite tx e
      | CourierError.Io p e \<Rightarrow> ''I/O error for '' @ p @ '': '' @ io_text e
      | CourierError.InvalidTransition a b \<Rightarrow> ''invalid transfer state transition from '' @ a @ '' to '' @ b
      | CourierError.SourceModified p \<Rightarrow> ''source changed after inventory: '' @ p
      | CourierError.InvalidSource p \<Rightarrow> ''path is not a file or directory: '' @ p
      | CourierError.TransferNotFound t \<Rightarrow> ''transfer not found: '' @ t
      | CourierError.Serialization m \<Rightarrow> ''serialization error: '' @ m
      | CourierError.InvalidSystemTime \<Rightarrow> ''system clock is earlier than Unix epoch''
      | CourierError.InvalidRelativePath p \<Rightarrow> ''path cannot be represented relative to source root: '' @ p
      | CourierError.SourceTraversal p m \<Rightarrow> ''could not traverse source path '' @ p @ '': '' @ m)"

section \<open>Replies\<close>

record RegistryAuthorization =
  ra_projects :: "RegistryProject list"
  ra_purpose :: RegistryInvitationPurpose

record RegistryDownloadDataset =
  dd_transfer_id :: string
  dd_project_code :: string
  dd_source_name :: string
  dd_file_count :: u64
  dd_original_bytes :: u64
  dd_transport_bytes :: "u64 option"
  dd_verified_at :: datetime
  dd_hash_algorithm :: HashAlgorithm

record RegistryDownloadObject =
  do_object_id :: uuid
  do_kind :: string
  do_compression :: string
  do_encoding_version :: u8
  do_original_bytes :: u64
  do_transport_bytes :: "u64 option"
  do_url :: "string option"

record RegistryDownloadPlan =
  dp_dataset :: RegistryDownloadDataset
  dp_expires_in_seconds :: u64
  dp_manifest :: json
  dp_objects :: "RegistryDownloadObject list"

record RegistryTransfer =
  rt_public_id :: string
  rt_status :: string

record RegistryTransferStatus =
  ts_transfer_id :: string
  ts_status :: string
  ts_courier_version :: "string option"
  ts_manifest_sha256 :: "string option"
  ts_verification_attempt_count :: u32
  ts_verification_error :: "string option"

record RegistryFile =
  rf_id :: uuid
  rf_relative_path :: string
  rf_object_key :: string
  rf_status :: string

record RegistryObject =
  ro_id :: uuid
  ro_object_key :: string
  ro_status :: string

record ManifestReceipt =
  mr_transfer_id :: string
  mr_manifest_sha256 :: string
  mr_files :: "RegistryFile list"
  mr_transport_objects :: "RegistryObject list"

text \<open>serde reads the algorithm names exactly, \<^verbatim>\<open>FromStr\<close> is not used.\<close>

definition dec_hash_algorithm :: "json \<Rightarrow> HashAlgorithm option" where
  "dec_hash_algorithm j = (case dec_string j of
     None \<Rightarrow> None | Some s \<Rightarrow> find (\<lambda>a. hash_algorithm_fmt a = s) [Sha256, XxHash3, Blake3])"

definition dec_system_config :: "json \<Rightarrow> HashAlgorithm option" where
  "dec_system_config j = (case struct_fields [''hash_algorithm''] j of
     Some [a] \<Rightarrow> required dec_hash_algorithm a | _ \<Rightarrow> None)"

definition dec_authorization :: "'w RegistryClient \<Rightarrow> json \<Rightarrow> RegistryAuthorization option" where
  "dec_authorization self j = (case struct_fields [''projects'', ''purpose''] j of
     Some [ps, purpose] \<Rightarrow>
       Option.bind (required (dec_list (dec_project self)) ps) (\<lambda>ps.
       Option.bind (required dec_purpose purpose) (\<lambda>purpose.
         Some \<lparr>ra_projects = ps, ra_purpose = purpose\<rparr>))
   | _ \<Rightarrow> None)"

definition dec_dataset :: "'w RegistryClient \<Rightarrow> json \<Rightarrow> RegistryDownloadDataset option" where
  "dec_dataset self j =
     (case struct_fields [''transfer_id'', ''project_code'', ''source_name'', ''file_count'',
        ''original_bytes'', ''transport_bytes'', ''verified_at'', ''hash_algorithm''] j of
        Some [tid, code, name, files, bytes, transport, verified, alg] \<Rightarrow>
          Option.bind (required dec_string tid) (\<lambda>tid.
          Option.bind (required dec_string code) (\<lambda>code.
          Option.bind (required dec_string name) (\<lambda>name.
          Option.bind (required dec_word files) (\<lambda>files.
          Option.bind (required dec_word bytes) (\<lambda>bytes.
          Option.bind (optional dec_word transport) (\<lambda>transport.
          Option.bind (required (dec_time self) verified) (\<lambda>verified.
          Option.bind (required dec_hash_algorithm alg) (\<lambda>alg.
            Some \<lparr>dd_transfer_id = tid, dd_project_code = code, dd_source_name = name,
                  dd_file_count = files, dd_original_bytes = bytes, dd_transport_bytes = transport,
                  dd_verified_at = verified, dd_hash_algorithm = alg\<rparr>))))))))
      | _ \<Rightarrow> None)"

definition dec_download_object :: "'w RegistryClient \<Rightarrow> json \<Rightarrow> RegistryDownloadObject option" where
  "dec_download_object self j =
     (case struct_fields [''object_id'', ''kind'', ''compression'', ''encoding_version'',
        ''original_bytes'', ''transport_bytes'', ''url''] j of
        Some [oid, kind, compression, version, bytes, transport, url] \<Rightarrow>
          Option.bind (required (dec_uuid self) oid) (\<lambda>oid.
          Option.bind (required dec_string kind) (\<lambda>kind.
          Option.bind (required dec_string compression) (\<lambda>compression.
          Option.bind (required dec_word version) (\<lambda>version.
          Option.bind (required dec_word bytes) (\<lambda>bytes.
          Option.bind (optional dec_word transport) (\<lambda>transport.
          Option.bind (optional dec_string url) (\<lambda>url.
            Some \<lparr>do_object_id = oid, do_kind = kind, do_compression = compression,
                  do_encoding_version = version, do_original_bytes = bytes,
                  do_transport_bytes = transport, do_url = url\<rparr>)))))))
      | _ \<Rightarrow> None)"

definition dec_download_plan :: "'w RegistryClient \<Rightarrow> json \<Rightarrow> RegistryDownloadPlan option" where
  "dec_download_plan self j =
     (case struct_fields [''dataset'', ''expires_in_seconds'', ''manifest'', ''objects''] j of
        Some [dataset, expires, manifest, objects] \<Rightarrow>
          Option.bind (required (dec_dataset self) dataset) (\<lambda>dataset.
          Option.bind (required dec_word expires) (\<lambda>expires.
          Option.bind manifest (\<lambda>manifest.
          Option.bind (required (dec_list (dec_download_object self)) objects) (\<lambda>objects.
            Some \<lparr>dp_dataset = dataset, dp_expires_in_seconds = expires, dp_manifest = manifest,
                  dp_objects = objects\<rparr>))))
      | _ \<Rightarrow> None)"

text \<open>The alias \<^verbatim>\<open>transfer_id\<close> names the same field: one of the two, once.\<close>

definition dec_transfer :: "json \<Rightarrow> RegistryTransfer option" where
  "dec_transfer j =
     (let j = (case j of JObj kvs \<Rightarrow> JObj (map (\<lambda>(k, v). (if k = ''transfer_id'' then ''public_id'' else k, v)) kvs)
               | _ \<Rightarrow> j)
      in case struct_fields [''public_id'', ''status''] j of
           Some [i, status] \<Rightarrow>
             Option.bind (required dec_string i) (\<lambda>i.
             Option.bind (required dec_string status) (\<lambda>status.
               Some \<lparr>rt_public_id = i, rt_status = status\<rparr>))
         | _ \<Rightarrow> None)"

definition dec_transfer_status :: "json \<Rightarrow> RegistryTransferStatus option" where
  "dec_transfer_status j =
     (case struct_fields [''transfer_id'', ''status'', ''courier_version'', ''manifest_sha256'',
        ''verification_attempt_count'', ''verification_error''] j of
        Some [tid, status, version, sha, tries, error] \<Rightarrow>
          Option.bind (required dec_string tid) (\<lambda>tid.
          Option.bind (required dec_string status) (\<lambda>status.
          Option.bind (optional dec_string version) (\<lambda>version.
          Option.bind (optional dec_string sha) (\<lambda>sha.
          Option.bind (required dec_word tries) (\<lambda>tries.
          Option.bind (optional dec_string error) (\<lambda>error.
            Some \<lparr>ts_transfer_id = tid, ts_status = status, ts_courier_version = version,
                  ts_manifest_sha256 = sha, ts_verification_attempt_count = tries,
                  ts_verification_error = error\<rparr>))))))
      | _ \<Rightarrow> None)"

definition dec_registry_file :: "'w RegistryClient \<Rightarrow> json \<Rightarrow> RegistryFile option" where
  "dec_registry_file self j =
     (case struct_fields [''id'', ''relative_path'', ''object_key'', ''status''] j of
        Some [i, p, key, status] \<Rightarrow>
          Option.bind (required (dec_uuid self) i) (\<lambda>i.
          Option.bind (required dec_string p) (\<lambda>p.
          Option.bind (required dec_string key) (\<lambda>key.
          Option.bind (required dec_string status) (\<lambda>status.
            Some \<lparr>rf_id = i, rf_relative_path = p, rf_object_key = key, rf_status = status\<rparr>))))
      | _ \<Rightarrow> None)"

definition dec_registry_object :: "'w RegistryClient \<Rightarrow> json \<Rightarrow> RegistryObject option" where
  "dec_registry_object self j =
     (case struct_fields [''id'', ''object_key'', ''status''] j of
        Some [i, key, status] \<Rightarrow>
          Option.bind (required (dec_uuid self) i) (\<lambda>i.
          Option.bind (required dec_string key) (\<lambda>key.
          Option.bind (required dec_string status) (\<lambda>status.
            Some \<lparr>ro_id = i, ro_object_key = key, ro_status = status\<rparr>)))
      | _ \<Rightarrow> None)"

definition dec_receipt :: "'w RegistryClient \<Rightarrow> json \<Rightarrow> ManifestReceipt option" where
  "dec_receipt self j =
     (case struct_fields [''transfer_id'', ''manifest_sha256'', ''files'', ''transport_objects''] j of
        Some [tid, sha, files, objects] \<Rightarrow>
          Option.bind (required dec_string tid) (\<lambda>tid.
          Option.bind (required dec_string sha) (\<lambda>sha.
          Option.bind (required (dec_list (dec_registry_file self)) files) (\<lambda>files.
          Option.bind (required (dec_list (dec_registry_object self)) objects) (\<lambda>objects.
            Some \<lparr>mr_transfer_id = tid, mr_manifest_sha256 = sha, mr_files = files,
                  mr_transport_objects = objects\<rparr>))))
      | _ \<Rightarrow> None)"

section \<open>Endpoints\<close>

abbreviation authorized_json ::
  "'w RegistryClient \<Rightarrow> (json \<Rightarrow> 'a option) \<Rightarrow> http_request \<Rightarrow> ('w, 'a) client_run" where
  "authorized_json self dec request \<equiv> bindE (authorized self request) (send_json self dec)"

definition system_config :: "'w RegistryClient \<Rightarrow> ('w, HashAlgorithm) client_run" where
  "system_config self = send_json self dec_system_config (request_to self ''GET'' ''/api/v1/system/config'')"

definition session_authorization :: "'w RegistryClient \<Rightarrow> ('w, RegistryAuthorization) client_run" where
  "session_authorization self =
     authorized_json self (dec_authorization self) (request_to self ''GET'' ''/api/v1/auth/session'')"

definition downloadable_datasets :: "'w RegistryClient \<Rightarrow> ('w, RegistryDownloadDataset list) client_run" where
  "downloadable_datasets self =
     authorized_json self (dec_list (dec_dataset self)) (request_to self ''GET'' ''/api/v1/downloads'')"

definition download_plan :: "'w RegistryClient \<Rightarrow> string \<Rightarrow> ('w, RegistryDownloadPlan) client_run" where
  "download_plan self transfer_id =
     authorized_json self (dec_download_plan self) (request_to self ''POST'' (''/api/v1/downloads/'' @ transfer_id))"

definition authorize_download_object ::
  "'w RegistryClient \<Rightarrow> string \<Rightarrow> uuid \<Rightarrow> ('w, RegistryDownloadObject) client_run" where
  "authorize_download_object self transfer_id object_id =
     authorized_json self (dec_download_object self) (request_to self ''POST''
       (''/api/v1/downloads/'' @ transfer_id @ ''/objects/'' @ uuid_to_string object_id @ ''/authorize''))"

definition exchange_invitation ::
  "'w RegistryClient \<Rightarrow> string \<Rightarrow> string \<Rightarrow> ('w, RegistrySession) client_run" where
  "exchange_invitation self invitation_code client_identifier =
     send_json self (dec_session self)
       ((request_to self ''POST'' ''/api/v1/auth/invitations/exchange'')\<lparr>rq_body := JsonBody (JObj
          [(''invitation_code'', JStr invitation_code), (''client_identifier'', JStr client_identifier),
           (''courier_version'', JStr courier_version)])\<rparr>)"

definition transfer_create :: "Transfer \<Rightarrow> string \<Rightarrow> string \<Rightarrow> HashAlgorithm \<Rightarrow> json" where
  "transfer_create transfer project_code source_name hash_algorithm =
     JObj [(''project_code'', JStr project_code), (''source_name'', JStr source_name),
       (''file_count'', JNum (uint (t_file_count transfer))),
       (''original_bytes'', JNum (uint (t_original_bytes transfer))),
       (''manifest_version'', JNum (uint (t_manifest_version transfer))),
       (''courier_version'', JStr courier_version),
       (''idempotency_key'', JStr (uuid_to_string (t_id transfer))),
       (''hash_algorithm'', JStr (hash_algorithm_fmt hash_algorithm))]"

definition register_transfer ::
  "'w RegistryClient \<Rightarrow> Transfer \<Rightarrow> string \<Rightarrow> string \<Rightarrow> HashAlgorithm \<Rightarrow> ('w, RegistryTransfer option) client_run" where
  "register_transfer self transfer project_code source_name hash_algorithm =
     bindE (authorized self (request_to self ''POST'' ''/api/v1/transfers'')) (\<lambda>request.
       send_upload_json self dec_transfer (request\<lparr>rq_body :=
         JsonBody (transfer_create transfer project_code source_name hash_algorithm)\<rparr>))"

definition submit_manifest :: "'w RegistryClient \<Rightarrow> string \<Rightarrow> string \<Rightarrow> ('w, ManifestReceipt option) client_run" where
  "submit_manifest self server_transfer_id snapshot =
     bindE (authorized self (request_to self ''PUT''
         (''/api/v1/transfers/'' @ server_transfer_id @ ''/manifest''))) (\<lambda>request.
       send_upload_json self (dec_receipt self) (request\<lparr>
         rq_headers := rq_headers request @ [(''content-type'', ''application/json'')],
         rq_body := RawBody snapshot\<rparr>))"

definition finalize_transfer :: "'w RegistryClient \<Rightarrow> string \<Rightarrow> ('w, RegistryTransfer option) client_run" where
  "finalize_transfer self server_transfer_id =
     bindE (authorized self (request_to self ''POST''
         (''/api/v1/transfers/'' @ server_transfer_id @ ''/finalize''))) (send_upload_json self dec_transfer)"

definition transfer_status :: "'w RegistryClient \<Rightarrow> string \<Rightarrow> ('w, RegistryTransferStatus) client_run" where
  "transfer_status self server_transfer_id =
     authorized_json self dec_transfer_status
       (request_to self ''GET'' (''/api/v1/transfers/'' @ server_transfer_id))"

section \<open>The manifest snapshot\<close>

record ManifestTransportPlan =
  mp_objects :: "TransportObjectRecord list"
  mp_members :: "TransportMemberRecord list"

record ManifestSnapshotContext =
  mc_server_transfer_id :: string
  mc_project_code :: string
  mc_source_name :: string
  mc_courier_version :: string

definition manifest_file ::
  "api_text \<Rightarrow> (uuid \<Rightarrow> TransportMemberRecord option) \<Rightarrow> FileRecord \<Rightarrow> RegistryError + json" where
  "manifest_file tx member_by_file file =
     (case member_by_file (f_id file) of
        None \<Rightarrow> Inl (State (''transport plan omitted logical file '' @ uuid_to_string (f_id file)))
      | Some member \<Rightarrow>
          let seconds = sint (f_mtime_ns file) div 10 ^ 9;
              nanos = nat (sint (f_mtime_ns file) mod 10 ^ 9) in
          (case at_timestamp_opt tx seconds nanos of
             None \<Rightarrow> Inl (State ''invalid file modification time'')
           | Some mtime \<Rightarrow>
               (case portable_relative_path file of
                  None \<Rightarrow> Inl (State ''file path is not safely relative'')
                | Some p \<Rightarrow> Inr (JObj
                    [(''path'', JStr p), (''size'', JNum (uint (f_size file))),
                     (''mtime'', JStr (at_rfc3339 tx mtime)),
                     (''digest'', JObj
                        [(''algorithm'', JStr (hash_algorithm_fmt (f_hash_algorithm file))),
                         (''value'', JStr (f_sha256 file))]),
                     (''transport'', JObj
                        [(''object_id'', JStr (uuid_to_string (m_object_id member))),
                         (''member_index'', JNum (uint (m_member_index member)))])]))))"

definition manifest_object :: "TransportObjectRecord \<Rightarrow> json" where
  "manifest_object object = JObj
     [(''id'', JStr (uuid_to_string (o_id object))),
      (''kind'', JStr (transport_object_kind_fmt (o_kind object))),
      (''compression'', JStr (o_compression object)),
      (''encoding_version'', JNum (uint (o_encoding_version object))),
      (''original_bytes'', JNum (uint (o_original_bytes object)))]"

text \<open>A \<^verbatim>\<open>HashMap\<close> collected from pairs keeps the last value of a key.\<close>

definition member_map :: "TransportMemberRecord list \<Rightarrow> uuid \<Rightarrow> TransportMemberRecord option" where
  "member_map members = map_of (rev (map (\<lambda>m. (m_file_id m, m)) members))"

definition manifest_payload ::
  "api_text \<Rightarrow> Transfer \<Rightarrow> FileRecord list \<Rightarrow> ManifestTransportPlan \<Rightarrow> ManifestSnapshotContext
     \<Rightarrow> RegistryError + json" where
  "manifest_payload tx transfer files transport ctx =
     (case map_sum_list (manifest_file tx (member_map (mp_members transport))) files of
        Inl e \<Rightarrow> Inl e
      | Inr manifest_files \<Rightarrow> Inr (JObj
          [(''schema'', JStr ''icy-seas-transfer-manifest''), (''version'', JNum 3),
           (''transfer_id'', JStr (mc_server_transfer_id ctx)),
           (''project'', JStr (mc_project_code ctx)),
           (''created_at'', JStr (at_rfc3339 tx (t_created_at transfer))),
           (''courier'', JObj
              [(''version'', JStr (mc_courier_version ctx)), (''platform'', JStr (at_os tx)),
               (''transport_encoding_version'', JNum 2)]),
           (''source'', JObj [(''name'', JStr (mc_source_name ctx))]),
           (''summary'', JObj
              [(''file_count'', JNum (uint (t_file_count transfer))),
               (''original_bytes'', JNum (uint (t_original_bytes transfer)))]),
           (''transport_objects'', JArr (map manifest_object (mp_objects transport))),
           (''files'', JArr manifest_files)]))"

definition build_manifest_snapshot ::
  "api_text \<Rightarrow> Transfer \<Rightarrow> FileRecord list \<Rightarrow> ManifestTransportPlan \<Rightarrow> ManifestSnapshotContext
     \<Rightarrow> RegistryError + string" where
  "build_manifest_snapshot tx transfer files transport ctx =
     (case manifest_payload tx transfer files transport ctx of
        Inl e \<Rightarrow> Inl e
      | Inr manifest \<Rightarrow> (case at_json tx manifest of Inl m \<Rightarrow> Inl (Serialization m) | Inr s \<Rightarrow> Inr s))"

section \<open>The event outbox\<close>

definition error_class_text :: "TransferErrorClass \<Rightarrow> string" where
  "error_class_text c =
     (case c of TransferErrorClass.Transient \<Rightarrow> ''transient''
      | TransferErrorClass.AuthorizationExpired \<Rightarrow> ''authorization_expired''
      | TransferErrorClass.UploadNotFound \<Rightarrow> ''upload_not_found''
      | TransferErrorClass.Permanent \<Rightarrow> ''permanent'' | TransferErrorClass.Paused \<Rightarrow> ''paused''
      | TransferErrorClass.Local \<Rightarrow> ''local'' | TransferErrorClass.SourceChanged \<Rightarrow> ''source_changed''
      | TransferErrorClass.Reconciliation \<Rightarrow> ''reconciliation''
      | TransferErrorClass.InvalidPlan \<Rightarrow> ''invalid_plan''
      | TransferErrorClass.RetriesExhausted \<Rightarrow> ''retries_exhausted'')"

definition entry :: "string \<Rightarrow> ('a \<Rightarrow> json) \<Rightarrow> 'a option \<Rightarrow> (string \<times> json) list" where
  "entry key enc v = (case v of None \<Rightarrow> [] | Some x \<Rightarrow> [(key, enc x)])"

text \<open>A \<^verbatim>\<open>serde_json\<close> map is sorted by key.\<close>

definition details_json :: "TransferEventDetails \<Rightarrow> json" where
  "details_json d = JObj
     (entry ''attempt'' (JNum \<circ> uint) (d_attempt d)
      @ entry ''bytes'' (JNum \<circ> uint) (d_bytes d)
      @ entry ''error_class'' (JStr \<circ> error_class_text) (d_error_class d)
      @ entry ''from_state'' (JStr \<circ> transfer_status_fmt) (d_from_state d)
      @ entry ''object_id'' (JStr \<circ> uuid_to_string) (d_object_id d)
      @ entry ''part_number'' (JNum \<circ> uint) (d_part_number d)
      @ entry ''state'' (JStr \<circ> transfer_status_fmt) (d_state d))"

definition event_json :: "api_text \<Rightarrow> TransferEvent \<Rightarrow> json" where
  "event_json tx e = JObj
     [(''details'', details_json (e_details e)), (''id'', JStr (uuid_to_string (e_id e))),
      (''kind'', JStr (e_kind e)), (''occurred_at'', JStr (at_rfc3339 tx (e_occurred_at e)))]"

type_synonym ('w, 'a) sync_run = "(store \<times> 'w client_state, RegistryError, 'a) comp"

definition on_store :: "api_text \<Rightarrow> 'a db \<Rightarrow> ('w, 'a) sync_run" where
  "on_store tx m = (\<lambda>(d, c). case m d of
     (Inl e, d') \<Rightarrow> (Inl (State (courier_error_text tx e)), (d', c))
   | (Inr x, d') \<Rightarrow> (Inr x, (d', c)))"

definition on_client :: "('w, 'a) client_run \<Rightarrow> ('w, 'a) sync_run" where
  "on_client m = (\<lambda>(d, c). case m c of (r, c') \<Rightarrow> (r, (d, c')))"

definition dec_acknowledgement :: "'w RegistryClient \<Rightarrow> json \<Rightarrow> uuid list option" where
  "dec_acknowledgement self j = (case struct_fields [''acknowledged''] j of
     Some [a] \<Rightarrow> required (dec_list (dec_uuid self)) a | _ \<Rightarrow> None)"

definition sync_transfer_events ::
  "'w RegistryClient \<Rightarrow> api_text \<Rightarrow> uuid \<Rightarrow> string \<Rightarrow> ('w, nat) sync_run" where
  "sync_transfer_events self tx local_transfer_id server_transfer_id =
     bindE (on_store tx (pending_transfer_events local_transfer_id 100)) (\<lambda>events.
     if events = [] then ok 0
     else bindE (on_client (bindE (authorized self (request_to self ''POST''
            (''/api/v1/transfers/'' @ server_transfer_id @ ''/events''))) (\<lambda>request.
            send_json self (dec_acknowledgement self) (request\<lparr>rq_timeout := Some 10,
              rq_body := JsonBody (JObj [(''events'', JArr (map (event_json tx) events))])\<rparr>)))) (\<lambda>acknowledged.
       if acknowledged \<noteq> map e_id events
       then fail (State ''Registry event acknowledgement did not match the batch'')
       else thenE (on_store tx (acknowledge_transfer_events local_transfer_id acknowledged))
              (ok (length acknowledged))))"

end
