(* ===== verification/RegistryStore.thy ===== *)
theory RegistryStore
  imports RegistryApi
begin

text \<open>
  The Registry's data plane, \<^verbatim>\<open>RegistryMultipartStore\<close> of \<^verbatim>\<open>crates/courier-registry/src/lib.rs\<close>: the
  multipart contract of the upload engine over the Registry client and presigned PUT requests.

  A PUT streams its body. The network decides when it polls the body and when the 25 ms timer
  fires before its answer is there: this is the schedule of the request, an arbitrary finite list
  the environment chooses. What the body yielded is what the environment's answer depends on.
\<close>

section \<open>The store\<close>

datatype put_event = PollBody | Tick

record 'w object_net =
  on_schedule :: "http_request \<Rightarrow> 'w \<Rightarrow> put_event list \<times> 'w"
  on_answer :: "http_request \<Rightarrow> (io_error + bytes) list \<Rightarrow> 'w \<Rightarrow> (transport_error + http_response) \<times> 'w"

text \<open>A mutex another thread may have poisoned, and the pause flag, whose loads read the world.\<close>

datatype 'a mutex = Poisoned | Cell 'a

definition lock_cell :: "string \<Rightarrow> 'a mutex \<Rightarrow> ('s, StoreError, 'a) comp" where
  "lock_cell message m =
     (case m of Poisoned \<Rightarrow> fail (StoreError.Permanent message) | Cell x \<Rightarrow> ok x)"

type_synonym 'w pause_flag = "('w \<Rightarrow> bool \<times> 'w) option"

record RegistryObjectBinding =
  rb_server_object_id :: uuid
  rb_object_key :: string

record 'w RegistryMultipartStore =
  rm_client :: "'w RegistryClient"
  rm_server_transfer_id :: string
  rm_files :: "string \<Rightarrow> uuid option"
  rm_part_progress :: "(u64 \<Rightarrow> 'w \<Rightarrow> 'w) option mutex"
  rm_pause_flag :: "'w pause_flag mutex"
  rm_net :: "'w object_net"

definition new_store ::
  "'w object_net \<Rightarrow> 'w RegistryClient \<Rightarrow> string \<Rightarrow> RegistryObjectBinding list \<Rightarrow> 'w RegistryMultipartStore" where
  "new_store net client server_transfer_id bindings =
     \<lparr>rm_client = client, rm_server_transfer_id = server_transfer_id,
      rm_files = map_of (rev (map (\<lambda>b. (rb_object_key b, rb_server_object_id b)) bindings)),
      rm_part_progress = Cell None, rm_pause_flag = Cell None, rm_net = net\<rparr>"

definition set_part_progress_observer ::
  "(u64 \<Rightarrow> 'w \<Rightarrow> 'w) option \<Rightarrow> 'w RegistryMultipartStore \<Rightarrow> StoreError + 'w RegistryMultipartStore" where
  "set_part_progress_observer observer self =
     (if rm_part_progress self = Poisoned
      then Inl (StoreError.Permanent ''upload progress monitor is unavailable'')
      else Inr (self\<lparr>rm_part_progress := Cell observer\<rparr>))"

definition set_pause_flag ::
  "'w pause_flag \<Rightarrow> 'w RegistryMultipartStore \<Rightarrow> StoreError + 'w RegistryMultipartStore" where
  "set_pause_flag pause self =
     (if rm_pause_flag self = Poisoned
      then Inl (StoreError.Permanent ''upload pause control is unavailable'')
      else Inr (self\<lparr>rm_pause_flag := Cell pause\<rparr>))"

type_synonym ('w, 'a) store_run = "('w client_state, StoreError, 'a) comp"

definition file_id :: "'w RegistryMultipartStore \<Rightarrow> string \<Rightarrow> ('w, uuid) store_run" where
  "file_id self key =
     (case rm_files self key of
        Some i \<Rightarrow> ok i
      | None \<Rightarrow> fail (StoreError.Permanent ''object key is not bound to this Registry transfer''))"

definition object_url :: "'w RegistryMultipartStore \<Rightarrow> uuid \<Rightarrow> string" where
  "object_url self i =
     ''/api/v1/transfers/'' @ rm_server_transfer_id self @ ''/objects/'' @ uuid_to_string i"

definition endpoint :: "'w RegistryMultipartStore \<Rightarrow> uuid \<Rightarrow> string \<Rightarrow> string" where
  "endpoint self i rest = object_url self i @ ''/multipart'' @ rest"

definition registry_json ::
  "'w RegistryMultipartStore \<Rightarrow> (json \<Rightarrow> 'a option) \<Rightarrow> http_request \<Rightarrow> ('w, 'a) store_run" where
  "registry_json self dec request = map_errE map_registry_error (send_json (rm_client self) dec request)"

definition authorized_store ::
  "'w RegistryMultipartStore \<Rightarrow> (json \<Rightarrow> 'a option) \<Rightarrow> http_request \<Rightarrow> ('w, 'a) store_run" where
  "authorized_store self dec request =
     bindE (map_errE map_registry_error (authorized (rm_client self) request)) (registry_json self dec)"

section \<open>Decoders\<close>

definition dec_field :: "string \<Rightarrow> (json \<Rightarrow> 'a option) \<Rightarrow> json \<Rightarrow> 'a option" where
  "dec_field name dec j = (case struct_fields [name] j of Some [x] \<Rightarrow> required dec x | _ \<Rightarrow> None)"

definition dec_part :: "json \<Rightarrow> RemotePart option" where
  "dec_part j = (case struct_fields [''part_number'', ''etag'', ''size''] j of
     Some [number, etag, sz] \<Rightarrow>
       Option.bind (required dec_word number) (\<lambda>number.
       Option.bind (required dec_string etag) (\<lambda>etag.
       Option.bind (optional dec_word sz) (\<lambda>sz.
         Some \<lparr>rp_part_number = number, rp_etag = etag, rp_size = (case sz of None \<Rightarrow> 0 | Some n \<Rightarrow> n)\<rparr>)))
   | _ \<Rightarrow> None)"

section \<open>Operations\<close>

definition registry_begin :: "'w RegistryMultipartStore \<Rightarrow> string \<Rightarrow> ('w, UploadSession) store_run" where
  "registry_begin self key =
     bindE (file_id self key) (\<lambda>i.
     bindE (authorized_store self (dec_field ''upload_id'' dec_string)
              (request_to (rm_client self) ''POST'' (endpoint self i ''''))) (\<lambda>upload_id.
       ok \<lparr>us_object_key = key, us_upload_id = upload_id\<rparr>))"

definition registry_list_parts ::
  "'w RegistryMultipartStore \<Rightarrow> UploadSession \<Rightarrow> ('w, RemotePart list) store_run" where
  "registry_list_parts self session =
     bindE (file_id self (us_object_key session)) (\<lambda>i.
       authorized_store self (dec_field ''parts'' (dec_list dec_part))
         (request_to (rm_client self) ''GET'' (endpoint self i ''/parts'')))"

definition completion_payload :: "RemotePart list \<Rightarrow> json" where
  "completion_payload parts = JObj [(''parts'', JArr (map (\<lambda>p. JObj
     [(''part_number'', JNum (uint (rp_part_number p))), (''etag'', JStr (rp_etag p)),
      (''size'', JNum (uint (rp_size p)))]) parts))]"

definition registry_complete ::
  "'w RegistryMultipartStore \<Rightarrow> UploadSession \<Rightarrow> RemotePart list \<Rightarrow> ('w, unit) store_run" where
  "registry_complete self session parts =
     bindE (file_id self (us_object_key session)) (\<lambda>i.
     thenE (authorized_store self Some
              ((request_to (rm_client self) ''POST'' (endpoint self i ''/complete''))
                 \<lparr>rq_body := JsonBody (completion_payload parts)\<rparr>))
       (ok ()))"

definition registry_object_exists :: "'w RegistryMultipartStore \<Rightarrow> string \<Rightarrow> ('w, bool) store_run" where
  "registry_object_exists self key =
     bindE (file_id self key) (\<lambda>i.
       authorized_store self (dec_field ''exists'' dec_bool)
         (request_to (rm_client self) ''GET'' (object_url self i @ ''/object'')))"

definition registry_abort :: "'w RegistryMultipartStore \<Rightarrow> UploadSession \<Rightarrow> ('w, unit) store_run" where
  "registry_abort self session =
     fail (StoreError.Permanent ''Registry upload cancellation is not implemented'')"

section \<open>Streaming a part\<close>

definition map_object_store_response :: "'w RegistryClient \<Rightarrow> http_response \<Rightarrow> StoreError" where
  "map_object_store_response self response =
     (case object_store_response_detail (re_status_text (rc_env self) (hr_status response))
             (hr_host response) (hr_headers response) (response_body_preview (hr_body response)) of
        (detail, _, challenge) \<Rightarrow>
          if challenge then StoreError.Permanent detail else map_status (hr_status response) detail)"

definition flag_set :: "'w pause_flag \<Rightarrow> ('w client_state, 'e, bool) comp" where
  "flag_set pause = (case pause of
     None \<Rightarrow> ok False
   | Some load \<Rightarrow> (\<lambda>s. case load (cs_world s) of (b, w') \<Rightarrow> (Inr b, s\<lparr>cs_world := w'\<rparr>)))"

definition chunk_size :: nat where
  "chunk_size = 256 * 1024"

text \<open>The next item of the body stream at an offset: its end, an error while paused, or a chunk.\<close>

definition poll_body ::
  "'w pause_flag \<Rightarrow> (u64 \<Rightarrow> 'w \<Rightarrow> 'w) option \<Rightarrow> bytes \<Rightarrow> nat
     \<Rightarrow> ('w client_state, 'e, (io_error + bytes) option \<times> nat) comp" where
  "poll_body pause watch content offset =
     (if length content \<le> offset then ok (None, offset)
      else bindE (flag_set pause) (\<lambda>paused.
        if paused then ok (Some (Inl (IoError InterruptedIo ''upload paused'')), offset)
        else let end_of = min (offset + chunk_size) (length content);
                 chunk = take (end_of - offset) (drop offset content) in
          thenE (modifies (\<lambda>s. case watch of None \<Rightarrow> s
                   | Some observer \<Rightarrow> s\<lparr>cs_world := observer (of_nat end_of) (cs_world s)\<rparr>))
            (ok (Some (Inr chunk), end_of))))"

text \<open>The \<^verbatim>\<open>select!\<close> loop up to the answer, with the items yielded so far.\<close>

fun put_loop ::
  "'w pause_flag \<Rightarrow> (u64 \<Rightarrow> 'w \<Rightarrow> 'w) option \<Rightarrow> bytes \<Rightarrow> nat \<Rightarrow> (io_error + bytes) list \<Rightarrow> put_event list
     \<Rightarrow> ('w, (io_error + bytes) list) store_run" where
  "put_loop pause watch content offset items [] = ok items"
| "put_loop pause watch content offset items (Tick # events) =
     bindE (flag_set pause) (\<lambda>paused.
       if paused then fail StoreError.Paused
       else put_loop pause watch content offset items events)"
| "put_loop pause watch content offset items (PollBody # events) =
     bindE (poll_body pause watch content offset) (\<lambda>(item, offset').
       put_loop pause watch content offset'
         (case item of None \<Rightarrow> items | Some x \<Rightarrow> items @ [x]) events)"

definition put_request :: "string \<Rightarrow> bytes \<Rightarrow> http_request" where
  "put_request url bs =
     \<lparr>rq_method = ''PUT'', rq_url = url,
      rq_headers = [(''content-length'', decimal (unat (of_nat (length bs) :: u64)))],
      rq_body = StreamBody, rq_timeout = None\<rparr>"

text \<open>The request is sent, the schedule runs, and the answer closes it; a pause drops the request.\<close>

definition send_put ::
  "'w RegistryMultipartStore \<Rightarrow> 'w pause_flag \<Rightarrow> (u64 \<Rightarrow> 'w \<Rightarrow> 'w) option \<Rightarrow> http_request \<Rightarrow> bytes
     \<Rightarrow> ('w, transport_error + http_response) store_run" where
  "send_put self pause watch request content =
     bindE (\<lambda>s. case on_schedule (rm_net self) request (cs_world s) of
              (events, w') \<Rightarrow> (Inr events, s\<lparr>cs_world := w'\<rparr>)) (\<lambda>events.
     bindE (put_loop pause watch content 0 [] events) (\<lambda>items.
       (\<lambda>s. case on_answer (rm_net self) request items (cs_world s) of
          (r, w') \<Rightarrow> (Inr r, s\<lparr>cs_world := w', cs_trace := cs_trace s @ [Streamed request items r]\<rparr>))))"

definition registry_upload_part ::
  "'w RegistryMultipartStore \<Rightarrow> UploadSession \<Rightarrow> u32 \<Rightarrow> bytes \<Rightarrow> ('w, RemotePart) store_run" where
  "registry_upload_part self session part_number bs =
     bindE (file_id self (us_object_key session)) (\<lambda>i.
     bindE (authorized_store self (dec_field ''url'' dec_string)
              (request_to (rm_client self) ''POST''
                 (endpoint self i (''/parts/'' @ decimal (unat part_number) @ ''/authorize'')))) (\<lambda>url.
     bindE (lock_cell ''upload progress monitor is unavailable'' (rm_part_progress self)) (\<lambda>watch.
     bindE (lock_cell ''upload pause control is unavailable'' (rm_pause_flag self)) (\<lambda>pause.
     bindE (flag_set pause) (\<lambda>paused.
     if paused then fail StoreError.Paused
     else bindE (send_put self pause watch (put_request url bs) bs) (\<lambda>answer.
     bindE (flag_set pause) (\<lambda>paused.
     if paused then fail StoreError.Paused
     else case answer of
       Inl e \<Rightarrow>
         let error = map_transport e in
         thenE (observe ''warning'' (''Object-store part '' @ decimal (unat part_number)
                  @ '' PUT transport failed: '' @ store_error_to_string error)) (fail error)
     | Inr response \<Rightarrow>
         if \<not> is_success (hr_status response) then
           let error = map_object_store_response (rm_client self) response in
           thenE (observe ''warning'' (''Object-store part '' @ decimal (unat part_number)
                    @ '' PUT failed: '' @ store_error_to_string error)) (fail error)
         else (case Option.bind (map_of (hr_headers response) ''etag'') to_str of
             None \<Rightarrow> fail (StoreError.Permanent ''part upload response omitted ETag'')
           | Some etag \<Rightarrow> ok \<lparr>rp_part_number = part_number, rp_etag = etag,
               rp_size = of_nat (length bs)\<rparr>))))))))"

text \<open>The store the upload engine is given.\<close>

definition registry_store :: "'w RegistryMultipartStore \<Rightarrow> 'w client_state multipart_store" where
  "registry_store self =
     \<lparr>ms_begin = registry_begin self, ms_list_parts = registry_list_parts self,
      ms_upload_part = registry_upload_part self, ms_complete = registry_complete self,
      ms_object_exists = registry_object_exists self, ms_abort = registry_abort self\<rparr>"

end
