(* ===== verification/RegistryProperties.thy ===== *)
theory RegistryProperties
  imports RegistryStore StoreProperties
begin

text \<open>
  What the Registry client guarantees: the authorization of its requests, the refresh of its
  session, the bound on its retries, the outbox synchronisation, the manifest, and the streaming of
  a part. A claim about what a run sends is about the events it appends to the trace.
\<close>

section \<open>Steps that append to the trace\<close>

text \<open>An authenticated client that has only appended events of a kind.\<close>

definition appends :: "(client_event \<Rightarrow> bool) \<Rightarrow> client_event list \<Rightarrow> 'w client_state \<Rightarrow> bool" where
  "appends P tr s \<longleftrightarrow> cs_auth s \<noteq> None \<and> (\<exists>evs. cs_trace s = tr @ evs \<and> list_all P evs)"

lemma appends_refl: "cs_auth s \<noteq> None \<Longrightarrow> appends P (cs_trace s) s"
  by (simp add: appends_def)

lemma keeps_trace_event [keeps_intros]: "P ev \<Longrightarrow> keeps (appends P tr) (trace_event ev)"
  unfolding trace_event_def by (rule keeps_modifies) (auto simp: appends_def)

lemma keeps_observe: "(\<And>l m. P (Observed l m)) \<Longrightarrow> keeps (appends P tr) (observe level message)"
  unfolding observe_def by (rule keeps_trace_event)

lemma keeps_send_request:
  "(\<And>r. P (Sent request r)) \<Longrightarrow> keeps (appends P tr) (send_request self request)"
  by (rule keepsI) (auto simp: send_request_def appends_def split: prod.splits)

lemma keeps_lock_auth [keeps_intros]: "keeps (appends P tr) lock_auth"
  by (rule keepsI) (auto simp: lock_auth_def split: option.splits if_splits)

lemma keeps_store_auth [keeps_intros]: "keeps (appends P tr) (store_auth auth)"
  unfolding store_auth_def by (rule keeps_modifies) (simp add: appends_def)

lemma keeps_client_sleep:
  "(\<And>d. P (SleptFor d)) \<Longrightarrow> keeps (appends P tr) (client_sleep self policy attempt)"
  by (rule keepsI) (auto simp: client_sleep_def appends_def split: prod.splits)

lemma keeps_observer:
  "keeps (appends P tr) (\<lambda>s. case observer session (cs_world s) of (r, w') \<Rightarrow> (Inr r, s\<lparr>cs_world := w'\<rparr>))"
  by (rule keepsI) (auto simp: appends_def split: prod.splits)

declare keeps_branches [keeps_intros]

section \<open>One Authorization header\<close>

definition bearers :: "http_request \<Rightarrow> string list" where
  "bearers request = map snd (filter (\<lambda>(k, _). k = ''authorization'') (rq_headers request))"

lemma replace_bearer_Inr:
  "replace_bearer_auth request token = Inr r \<Longrightarrow>
     bearers r = [''Bearer '' @ token] \<and> rq_url r = rq_url request \<and> rq_method r = rq_method request
     \<and> rq_body r = rq_body request"
  by (auto simp: replace_bearer_auth_def bearers_def Let_def filter_empty_conv split: if_splits)

text \<open>A request carries one credential; only the session refresh carries none.\<close>

definition one_bearer :: "'w RegistryClient \<Rightarrow> client_event \<Rightarrow> bool" where
  "one_bearer self ev \<longleftrightarrow>
     (case ev of
        Sent r _ \<Rightarrow> length (bearers r) = 1 \<or> (\<exists>token. r = refresh_request self token)
      | _ \<Rightarrow> True)"

lemma one_bearer_simps [simp]:
  "one_bearer self (Observed l m)" "one_bearer self (SleptFor d)"
  "one_bearer self (Sent (refresh_request self token) a)"
  by (auto simp: one_bearer_def)

lemma refresh_session_bearer: "keeps (appends (one_bearer self) tr) (refresh_session self token)"
  unfolding refresh_session_def
  by (intro keeps_intros keeps_send_request keeps_observe) simp_all

lemma keeps_lift_bind:
  "(\<And>x. r = Inr x \<Longrightarrow> keeps I (f x)) \<Longrightarrow> keeps I (bindE (lift_res r) f)"
  by (cases r) (auto simp: keeps_def bindE_def lift_res_def)

lemma refresh_and_replay_bearer:
  "keeps (appends (one_bearer self) tr) (refresh_and_replay self observer retry response)"
  unfolding refresh_and_replay_def send_again_def
  by (intro keeps_intros keeps_send_request keeps_observe refresh_session_bearer keeps_observer keeps_lift_bind)
    (auto simp: one_bearer_def dest: replace_bearer_Inr)

lemma send_json_bearer:
  assumes "length (bearers request) = 1"
  shows "keeps (appends (one_bearer self) tr) (send_json self dec request)"
proof -
  have *: "\<And>x. try_clone request = Some x \<Longrightarrow> x = request"
    by (auto simp: try_clone_def split: if_splits)
  show ?thesis
    unfolding send_json_def
    by (intro keeps_intros keeps_send_request keeps_observe refresh_and_replay_bearer)
      (auto simp: one_bearer_def assms split: option.splits prod.splits
        intro!: keeps_intros refresh_and_replay_bearer)
qed

lemma current_bearer_one:
  "hoare (appends P tr) (current_bearer again)
     (\<lambda>r s. appends P tr s \<and> length (bearers r) = 1) (\<lambda>_. appends P tr)"
proof (rule hoareI)
  fix s :: "'a client_state" and r s'
  assume s: "appends P tr s" and run: "current_bearer again s = (Inr r, s')"
  then obtain a where "cs_auth s = Some a" by (auto simp: appends_def)
  then have "replace_bearer_auth again (as_access_token a) = Inr r" "s' = s"
    using run by (simp_all add: current_bearer_def comp_simps lock_auth_def split: if_splits)
  then show "appends P tr s' \<and> length (bearers r) = 1" using s replace_bearer_Inr by fastforce
next
  fix s :: "'a client_state" and e s'
  assume s: "appends P tr s" and run: "current_bearer again s = (Inl e, s')"
  then obtain a where "cs_auth s = Some a" by (auto simp: appends_def)
  then have "s' = s" using run
    by (simp add: current_bearer_def comp_simps lock_auth_def split: if_splits)
  then show "appends P tr s'" using s by simp
qed

lemma upload_json_attempts_bearer:
  "keeps (appends (one_bearer self) tr) (upload_json_attempts self dec request policy ats)"
proof (induction ats)
  case Nil
  then show ?case by (simp add: keeps_intros)
next
  case (Cons attempt rest)
  have step: "keeps (appends (one_bearer self) tr)
      (bindE (tryE (send_json self dec again)) (\<lambda>result.
          case result of
            Inr v \<Rightarrow> ok (Some v)
          | Inl error \<Rightarrow>
              if upload_request_retryable error \<and> attempt + 1 < r_max_attempts policy then
                thenE (observe ''info'' (''Retrying Registry upload request after attempt ''
                         @ decimal (unat (attempt + 1)) @ '' of '' @ decimal (unat (r_max_attempts policy))))
                (thenE (client_sleep self policy attempt)
                   (upload_json_attempts self dec request policy rest))
              else fail error))" if "length (bearers again) = 1" for again
    using that
    by (intro keeps_intros send_json_bearer keeps_observe keeps_client_sleep Cons.IH) simp_all
  show ?case
    unfolding upload_json_attempts.simps
  proof (rule keeps_option)
    show "keeps (appends (one_bearer self) tr) (fail e)" for e by (rule keeps_fail)
    show "keeps (appends (one_bearer self) tr) (bindE (current_bearer clone) (\<lambda>again.
        bindE (tryE (send_json self dec again)) (\<lambda>result.
          case result of
            Inr v \<Rightarrow> ok (Some v)
          | Inl error \<Rightarrow>
              if upload_request_retryable error \<and> attempt + 1 < r_max_attempts policy then
                thenE (observe ''info'' (''Retrying Registry upload request after attempt ''
                         @ decimal (unat (attempt + 1)) @ '' of '' @ decimal (unat (r_max_attempts policy))))
                (thenE (client_sleep self policy attempt)
                   (upload_json_attempts self dec request policy rest))
              else fail error)))" for clone
      unfolding hoare_keeps
      by (rule hoare_bind [OF current_bearer_one], rule hoare_assume)
        (rule hoare_keeps [THEN iffD1], erule step)
  qed
qed

section \<open>The refresh of a session\<close>

lemmas client_eval = comp_defs observe_def trace_event_def send_request_def lock_auth_def store_auth_def

lemma send_again_run:
  "send_again self retry token s = (r, s') \<Longrightarrow> cs_auth s' = cs_auth s \<and> set (cs_trace s) \<subseteq> set (cs_trace s')"
proof -
  assume run: "send_again self retry token s = (r, s')"
  show ?thesis
  proof (cases "replace_bearer_auth retry token")
    case (Inl e)
    then show ?thesis using run by (auto simp: send_again_def client_eval)
  next
    case (Inr again)
    obtain a w' where "re_send (rc_env self) again (cs_world s) = (a, w')" by force
    then show ?thesis using run Inr by (cases a) (auto simp: send_again_def client_eval)
  qed
qed

text \<open>The state after a refresh that succeeded up to the observer.\<close>

lemma refresh_session_run:
  "refresh_session self token s = (r, s') \<Longrightarrow>
     cs_auth s' = cs_auth s \<and> cs_poisoned s' = cs_poisoned s
     \<and> (\<exists>evs a. cs_trace s' = cs_trace s @ Sent (refresh_request self token) a # evs
          \<and> (\<forall>session. r = Inr session \<longrightarrow> (\<exists>response. a = Inr response
                 \<and> response_json self (dec_session self) response = Inr session)))"
proof -
  assume run: "refresh_session self token s = (r, s')"
  obtain a w' where "re_send (rc_env self) (refresh_request self token) (cs_world s) = (a, w')" by force
  then show ?thesis
    using run
    by (cases a) (auto simp: refresh_session_def client_eval Let_def split: if_splits)
qed

definition renewed ::
  "'w RegistryClient \<Rightarrow> (RegistrySession \<Rightarrow> 'w \<Rightarrow> (string + unit) \<times> 'w) \<Rightarrow> AuthState \<Rightarrow> 'w client_state \<Rightarrow> bool" where
  "renewed self observer old s \<longleftrightarrow>
     (\<exists>token response session w w'.
        as_refresh_token old = Some token
        \<and> Sent (refresh_request self token) (Inr response) \<in> set (cs_trace s)
        \<and> response_json self (dec_session self) response = Inr session
        \<and> observer session w = (Inr (), w')
        \<and> cs_auth s = Some \<lparr>as_access_token = ss_access_token session,
                            as_refresh_token = Some (ss_refresh_token session)\<rparr>)"

lemma renewed_mono:
  assumes "renewed self observer old s" and "cs_auth s' = cs_auth s" and "set (cs_trace s) \<subseteq> set (cs_trace s')"
  shows "renewed self observer old s'"
  using assms unfolding renewed_def by (metis subsetD)

lemma refresh_and_replay_tokens:
  assumes run: "refresh_and_replay self observer retry response s = (r, s')" and a: "cs_auth s = Some a"
  shows "cs_auth s' = Some a \<or> renewed self observer a s'"
proof -
  let ?s1 = "s\<lparr>cs_trace := cs_trace s @ [Observed ''info'' (''Registry '' @ rq_method retry @ '' '' @ hr_path response
              @ '' returned HTTP 401; attempting session refresh'')]\<rparr>"
  show ?thesis
  proof (cases "cs_poisoned s \<or> as_refresh_token a = None")
    case True
    then show ?thesis using run a
      by (cases "cs_poisoned s") (auto simp: refresh_and_replay_def client_eval)
  next
    case False
    then obtain token where token: "as_refresh_token a = Some token" and live: "\<not> cs_poisoned s" by auto
    obtain x s2 where refresh: "refresh_session self token ?s1 = (x, s2)" by force
    note facts = refresh_session_run [OF refresh]
    note eval = refresh_and_replay_def client_eval a live token refresh [simplified]
    show ?thesis
    proof (cases x)
      case (Inl e)
      then have "s' = s2" using run by (simp add: eval)
      then show ?thesis using facts a by simp
    next
      case (Inr session)
      then obtain reply where reply: "Sent (refresh_request self token) (Inr reply) \<in> set (cs_trace s2)"
        "response_json self (dec_session self) reply = Inr session" using facts by fastforce
      obtain p w' where obs: "observer session (cs_world s2) = (p, w')" by force
      have auth2: "cs_auth s2 = Some a" "cs_poisoned s2 = cs_poisoned s" using facts a by simp_all
      show ?thesis
      proof (cases p)
        case (Inl m)
        then have "cs_auth s' = cs_auth s2" using run Inr obs by (auto simp: eval)
        then show ?thesis using auth2 by simp
      next
        case (Inr u)
        let ?auth = "\<lparr>as_access_token = ss_access_token session, as_refresh_token = Some (ss_refresh_token session)\<rparr>"
        from Inr have "send_again self retry (ss_access_token session) (s2\<lparr>cs_world := w', cs_auth := Some ?auth\<rparr>) = (r, s')"
          using run \<open>x = Inr session\<close> obs auth2 by (simp add: eval)
        from send_again_run [OF this] have "cs_auth s' = Some ?auth \<and> set (cs_trace s2) \<subseteq> set (cs_trace s')" by simp
        then have "renewed self observer a s'"
          unfolding renewed_def using reply token obs Inr
          by (intro exI [of _ token] exI [of _ reply] exI [of _ session] exI [of _ "cs_world s2"] exI [of _ w'])
            auto
        then show ?thesis ..
      qed
    qed
  qed
qed

lemma send_json_tokens:
  assumes run: "send_json self dec request s = (r, s')" and a: "cs_auth s = Some a"
  shows "cs_auth s' = Some a \<or> (\<exists>observer. rc_observer self = Some observer \<and> renewed self observer a s')"
proof -
  obtain x w' where send: "re_send (rc_env self) request (cs_world s) = (x, w')" by force
  let ?s1 = "s\<lparr>cs_world := w', cs_trace := cs_trace s @ [Sent request x]\<rparr>"
  show ?thesis
  proof (cases x)
    case (Inl e)
    then show ?thesis using run send a by (auto simp: send_json_def client_eval Let_def)
  next
    case (Inr first)
    show ?thesis
    proof (cases "hr_status first = 401 \<and> rc_observer self \<noteq> None \<and> try_clone request \<noteq> None")
      case False
      then show ?thesis using run send a Inr
        by (auto simp: send_json_def client_eval Let_def split: option.splits if_splits)
    next
      case True
      then obtain observer retry where o: "rc_observer self = Some observer" "try_clone request = Some retry" by auto
      obtain y s2 where again: "refresh_and_replay self observer retry first ?s1 = (y, s2)" by force
      have "cs_auth ?s1 = Some a" using a by simp
      note tokens = refresh_and_replay_tokens [OF again this]
      have "cs_auth s' = cs_auth s2 \<and> set (cs_trace s2) \<subseteq> set (cs_trace s')"
        using run send a Inr True o again
        by (cases y) (auto simp: send_json_def client_eval Let_def split: if_splits)
      then show ?thesis using tokens o renewed_mono by metis
    qed
  qed
qed


section \<open>How often a request is sent\<close>

definition is_sent :: "client_event \<Rightarrow> bool" where
  "is_sent ev = (case ev of Sent _ _ \<Rightarrow> True | _ \<Rightarrow> False)"

definition is_sleep :: "client_event \<Rightarrow> bool" where
  "is_sleep ev = (case ev of SleptFor _ \<Rightarrow> True | _ \<Rightarrow> False)"

lemma event_kinds [simp]:
  "is_sent (Sent q a)" "\<not> is_sent (SleptFor d)" "\<not> is_sent (Observed l m)"
  "\<not> is_sleep (Sent q a)" "is_sleep (SleptFor d)" "\<not> is_sleep (Observed l m)"
  by (simp_all add: is_sent_def is_sleep_def)

text \<open>\<open>costs a b m\<close>: a run of \<open>m\<close> sends at most \<open>a\<close> requests and sleeps at most \<open>b\<close> times.\<close>

definition costs :: "nat \<Rightarrow> nat \<Rightarrow> ('w client_state, 'e, 'a) comp \<Rightarrow> bool" where
  "costs a b m \<longleftrightarrow> (\<forall>s r s'. m s = (r, s') \<longrightarrow> (\<exists>evs. cs_trace s' = cs_trace s @ evs
     \<and> length (filter is_sent evs) \<le> a \<and> length (filter is_sleep evs) \<le> b))"

named_theorems costs_intros

lemma costsI:
  "(\<And>s r s'. m s = (r, s') \<Longrightarrow> \<exists>evs. cs_trace s' = cs_trace s @ evs
     \<and> length (filter is_sent evs) \<le> a \<and> length (filter is_sleep evs) \<le> b) \<Longrightarrow> costs a b m"
  by (auto simp: costs_def)

lemma costsD:
  assumes "costs a b m" and "m s = (r, s')"
  obtains evs where "cs_trace s' = cs_trace s @ evs" "length (filter is_sent evs) \<le> a"
    "length (filter is_sleep evs) \<le> b"
  using assms unfolding costs_def by blast

lemma costs_weaken: "costs a b m \<Longrightarrow> a \<le> c \<Longrightarrow> b \<le> d \<Longrightarrow> costs c d m"
  unfolding costs_def by (meson le_trans)

lemma costs_bindE [costs_intros]:
  assumes "costs a b m" and "\<And>x. costs c d (f x)"
  shows "costs (a + c) (b + d) (bindE m f)"
proof (rule costsI)
  fix s r s' assume run: "bindE m f s = (r, s')"
  obtain x t where m: "m s = (x, t)" by force
  from costsD [OF assms(1) m] obtain evs where evs: "cs_trace t = cs_trace s @ evs"
    "length (filter is_sent evs) \<le> a" "length (filter is_sleep evs) \<le> b" .
  show "\<exists>evs. cs_trace s' = cs_trace s @ evs \<and> length (filter is_sent evs) \<le> a + c
      \<and> length (filter is_sleep evs) \<le> b + d"
  proof (cases x)
    case (Inl e)
    then show ?thesis using run m evs by (auto simp: bindE_def)
  next
    case (Inr y)
    then have "f y t = (r, s')" using run m by (simp add: bindE_def)
    from costsD [OF assms(2) this] obtain evs' where evs': "cs_trace s' = cs_trace t @ evs'"
      "length (filter is_sent evs') \<le> c" "length (filter is_sleep evs') \<le> d" .
    then show ?thesis using evs by (intro exI [of _ "evs @ evs'"]) simp
  qed
qed

lemma costs_thenE [costs_intros]: "costs a b m \<Longrightarrow> costs c d k \<Longrightarrow> costs (a + c) (b + d) (thenE m k)"
  unfolding thenE_def by (rule costs_bindE)

lemma costs_pure [costs_intros]:
  "costs 0 0 (ok x)" "costs 0 0 (fail e)" "costs 0 0 (gets g)" "costs 0 0 (lift_res r)"
  "costs 0 0 lock_auth" "costs 0 0 (store_auth auth)" "costs 0 0 (observe level message)"
  "costs 0 0 (\<lambda>s. case h session (cs_world s) of (r, w') \<Rightarrow> (Inr r, s\<lparr>cs_world := w'\<rparr>))"
  "costs 1 0 (send_request self request)" "costs 0 1 (client_sleep self policy attempt)"
  by (auto intro!: costsI simp: client_eval client_sleep_def split: option.splits if_splits prod.splits)

lemma costs_branch [costs_intros]:
  "costs a b m \<Longrightarrow> costs c d k \<Longrightarrow> costs (max a c) (max b d) (if p then m else k)"
  "costs a b m \<Longrightarrow> (\<And>y. costs c d (g y)) \<Longrightarrow> costs (max a c) (max b d) (case x of None \<Rightarrow> m | Some y \<Rightarrow> g y)"
  "(\<And>e. costs a b (f e)) \<Longrightarrow> (\<And>y. costs c d (h y)) \<Longrightarrow>
     costs (max a c) (max b d) (case z of Inl e \<Rightarrow> f e | Inr y \<Rightarrow> h y)"
proof -
  assume m: "costs a b m" and k: "costs c d k"
  show "costs (max a c) (max b d) (if p then m else k)"
    using costs_weaken [OF m, of "max a c" "max b d"] costs_weaken [OF k, of "max a c" "max b d"] by simp
next
  assume m: "costs a b m" and g: "\<And>y. costs c d (g y)"
  show "costs (max a c) (max b d) (case x of None \<Rightarrow> m | Some y \<Rightarrow> g y)"
    using costs_weaken [OF m, of "max a c" "max b d"] costs_weaken [OF g, of "max a c" "max b d"]
    by (cases x) simp_all
next
  assume f: "\<And>e. costs a b (f e)" and h: "\<And>y. costs c d (h y)"
  show "costs (max a c) (max b d) (case z of Inl e \<Rightarrow> f e | Inr y \<Rightarrow> h y)"
    using costs_weaken [OF f, of "max a c" "max b d"] costs_weaken [OF h, of "max a c" "max b d"]
    by (cases z) simp_all
qed

lemma refresh_costs [costs_intros]: "costs 1 0 (refresh_session self token)"
  unfolding refresh_session_def Let_def
  by (rule costs_weaken, (rule costs_intros)+) simp_all

lemma replay_costs [costs_intros]: "costs 2 0 (refresh_and_replay self observer retry response)"
  unfolding refresh_and_replay_def send_again_def
  by (rule costs_weaken, (rule costs_intros)+) simp_all

lemma send_json_costs [costs_intros]: "costs 3 0 (send_json self dec request)"
  unfolding send_json_def Let_def prod.case
  by (rule costs_weaken, (rule costs_intros)+) simp_all

lemma current_bearer_costs [costs_intros]: "costs 0 0 (current_bearer request)"
  unfolding current_bearer_def
  by (rule costs_weaken, (rule costs_intros)+) simp_all

text \<open>The attempts from the \<open>k\<close>-th on: a retryable error is returned only by the last of them.\<close>

lemma current_bearer_error: "current_bearer clone s = (Inl e, s') \<Longrightarrow> \<not> upload_request_retryable e"
  by (auto simp: current_bearer_def client_eval replace_bearer_auth_def upload_request_retryable_def Let_def
      split: option.splits if_splits)

lemma client_sleep_run:
  "\<exists>d w'. client_sleep self policy attempt s
     = (Inr (), s\<lparr>cs_world := w', cs_trace := cs_trace s @ [SleptFor d]\<rparr>)"
  by (auto simp: client_sleep_def split: prod.split)

definition settled ::
  "nat \<Rightarrow> 'w client_state \<Rightarrow> (RegistryError + 'a option) \<times> 'w client_state \<Rightarrow> bool" where
  "settled n s out \<longleftrightarrow>
     fst out \<noteq> Inr None
     \<and> (\<exists>evs. cs_trace (snd out) = cs_trace s @ evs \<and> length (filter is_sent evs) \<le> 3 * n
          \<and> length (filter is_sleep evs) \<le> n - 1
          \<and> (\<forall>e. fst out = Inl e \<longrightarrow> upload_request_retryable e \<longrightarrow> length (filter is_sleep evs) = n - 1))"

lemma settled_extend:
  assumes "settled n s1 out" and "cs_trace s1 = cs_trace s @ evs" and "0 < n"
    and "length (filter is_sent evs) \<le> 3" and "length (filter is_sleep evs) = 1"
  shows "settled (Suc n) s out"
proof -
  from assms(1) obtain evs' where "cs_trace (snd out) = cs_trace s1 @ evs'"
    "length (filter is_sent evs') \<le> 3 * n" "length (filter is_sleep evs') \<le> n - 1"
    "\<forall>e. fst out = Inl e \<longrightarrow> upload_request_retryable e \<longrightarrow> length (filter is_sleep evs') = n - 1"
    and "fst out \<noteq> Inr None" by (auto simp: settled_def)
  then show ?thesis
    unfolding settled_def using assms(2-5) by (intro conjI exI [of _ "evs @ evs'"]) auto
qed

lemma upload_json_attempts_settle:
  assumes "k < n" and "n = unat (r_max_attempts policy)"
  shows "settled (n - k) s (upload_json_attempts self dec request policy (map of_nat [k..<n]) s)"
  using assms(1)
proof (induction "n - k" arbitrary: k s)
  case 0
  then show ?case by simp
next
  case (Suc m)
  have ats: "map of_nat [k..<n] = (of_nat k :: u32) # map of_nat [Suc k..<n]"
    using Suc.prems by (simp add: upt_conv_Cons)
  have "n < 2 ^ 32" using unat_bound [of "r_max_attempts policy"] assms(2) by simp
  then have k: "(of_nat k :: u32) + 1 < r_max_attempts policy \<longleftrightarrow> Suc k < n"
    using Suc.prems assms(2) by (simp add: word_less_nat_alt unat_word_ariths unat_of_nat)
  show ?case
  proof (cases "try_clone request")
    case None
    then show ?thesis by (simp add: ats settled_def client_eval upload_request_retryable_def)
  next
    case (Some clone)
    obtain x s1 where x: "current_bearer clone s = (x, s1)" by force
    from costsD [OF current_bearer_costs x] obtain evs1 where e1: "cs_trace s1 = cs_trace s @ evs1"
      "length (filter is_sent evs1) \<le> 0" "length (filter is_sleep evs1) \<le> 0" .
    show ?thesis
    proof (cases x)
      case (Inl e)
      then show ?thesis using x e1 Some current_bearer_error
        by (auto simp: ats settled_def bindE_def)
    next
      case (Inr again)
      obtain y s2 where y: "send_json self dec again s1 = (y, s2)" by force
      from costsD [OF send_json_costs y] obtain evs2 where e2: "cs_trace s2 = cs_trace s1 @ evs2"
        "length (filter is_sent evs2) \<le> 3" "length (filter is_sleep evs2) \<le> 0" .
      have run: "upload_json_attempts self dec request policy (map of_nat [k..<n]) s =
          (case y of Inr v \<Rightarrow> (Inr (Some v), s2)
           | Inl error \<Rightarrow>
              (if upload_request_retryable error \<and> Suc k < n
               then thenE (observe ''info'' (''Retrying Registry upload request after attempt ''
                         @ decimal (unat (of_nat k + 1 :: u32)) @ '' of '' @ decimal (unat (r_max_attempts policy))))
                     (thenE (client_sleep self policy (of_nat k))
                       (upload_json_attempts self dec request policy (map of_nat [Suc k..<n]))) s2
               else (Inl error, s2)))"
        using Some x Inr y k by (simp add: ats comp_defs split: sum.split)
      show ?thesis
      proof (cases "\<exists>error. y = Inl error \<and> upload_request_retryable error \<and> Suc k < n")
        case False
        then show ?thesis using run e1 e2 Suc.prems
          by (auto simp: settled_def intro!: exI [of _ "evs1 @ evs2"] split: sum.splits)
      next
        case True
        then obtain error where error: "y = Inl error" "upload_request_retryable error" "Suc k < n" by blast
        let ?msg = "Observed ''info'' (''Retrying Registry upload request after attempt ''
           @ decimal (unat (of_nat k + 1 :: u32)) @ '' of '' @ decimal (unat (r_max_attempts policy)))"
        let ?s3 = "s2\<lparr>cs_trace := cs_trace s2 @ [?msg]\<rparr>"
        obtain d w' where d: "client_sleep self policy (of_nat k) ?s3 =
            (Inr (), ?s3\<lparr>cs_world := w', cs_trace := cs_trace ?s3 @ [SleptFor d]\<rparr>)" (is "_ = (_, ?s4)")
          using client_sleep_run [of self policy "of_nat k" ?s3] by blast
        have rest: "upload_json_attempts self dec request policy (map of_nat [k..<n]) s =
            upload_json_attempts self dec request policy (map of_nat [Suc k..<n]) ?s4"
          using run error d by (simp add: thenE_def bindE_def observe_def trace_event_def modifies_def)
        have "settled (n - Suc k) ?s4 (upload_json_attempts self dec request policy (map of_nat [Suc k..<n]) ?s4)"
          using Suc.hyps error by (intro Suc.hyps(1)) auto
        then show ?thesis
          unfolding rest using e1 e2 error settled_extend [of "n - Suc k" ?s4 _ s "evs1 @ evs2 @ [?msg, SleptFor d]"]
          by (simp add: Suc_diff_Suc)
      qed
    qed
  qed
qed


text \<open>C15: A request of the upload phase (register, submit the manifest, finalize) is bounded: it never ends
  without an answer or an error, sends at most 24 HTTP requests and sleeps at most 7 times, and it
  returns a retryable error only after all its eight attempts.\<close>

theorem upload_requests_are_bounded:
  assumes "send_upload_json self dec request s = (r, s')"
  shows "r \<noteq> Inr None \<and> (\<exists>evs. cs_trace s' = cs_trace s @ evs
     \<and> length (filter is_sent evs) \<le> 24 \<and> length (filter is_sleep evs) \<le> 7
     \<and> (\<forall>e. r = Inl e \<longrightarrow> upload_request_retryable e \<longrightarrow> length (filter is_sleep evs) = 7))"
proof -
  have "settled (8 - 0) s (upload_json_attempts self dec request default_retry_policy (map of_nat [0..<8]) s)"
    by (rule upload_json_attempts_settle) (simp_all add: default_retry_policy_def)
  moreover have "attempts default_retry_policy = map of_nat [0..<8]"
    by (simp add: attempts_def default_retry_policy_def)
  ultimately show ?thesis using assms by (auto simp: send_upload_json_def settled_def)
qed


section \<open>A client whose session has expired\<close>

text \<open>A server that answers 401 to the first request, renews the session, and accepts the rest.\<close>

definition plain_response :: "u16 \<Rightarrow> string \<Rightarrow> http_response" where
  "plain_response status path =
     \<lparr>hr_status = status, hr_host = None, hr_path = path, hr_headers = [], hr_body = []\<rparr>"

definition session_json :: json where
  "session_json = JObj [(''access_token'', JStr ''a2''), (''refresh_token'', JStr ''r2''),
     (''expires_at'', JStr ''t''), (''refresh_expires_at'', JStr ''t''), (''projects'', JArr []),
     (''purpose'', JStr ''upload'')]"

definition expiring_env :: "nat registry_env" where
  "expiring_env =
     \<lparr>re_send = (\<lambda>q w. (Inr (plain_response (if w = 0 then 401 else 200) (rq_url q)), Suc w)),
      re_json = (\<lambda>r. Inr (if hr_path r = ''/api/v1/auth/sessions/refresh'' then session_json
                          else JObj [(''public_id'', JStr ''p''), (''status'', JStr ''s'')])),
      re_is_json = (\<lambda>_. False), re_status_text = (\<lambda>_. ''''), re_uuid = (\<lambda>_. None),
      re_time = (\<lambda>_. Some 0), re_draw = (\<lambda>n w. (0, w))\<rparr>"

definition expiring_client :: "nat RegistryClient" where
  "expiring_client = \<lparr>rc_base_url = '''', rc_observer = Some (\<lambda>_ w. (Inr (), w)), rc_env = expiring_env\<rparr>"

definition old_auth :: AuthState where
  "old_auth = \<lparr>as_access_token = ''a1'', as_refresh_token = Some ''r1''\<rparr>"

definition signed_in :: "nat client_state" where
  "signed_in = new_state (Some old_auth) 0"

lemmas client_run_eval = client_eval expiring_client_def expiring_env_def signed_in_def new_state_def
  old_auth_def plain_response_def session_json_def send_json_def refresh_and_replay_def send_again_def
  refresh_session_def refresh_request_def request_to_def response_json_def is_success_def
  replace_bearer_auth_def valid_header_def byte_of_def try_clone_def method_name_def
  dec_session_def dec_purpose_def dec_time_def dec_list_def dec_string_def struct_fields_def required_def
  Let_def

definition bearing :: http_request where
  "bearing = (request_to expiring_client ''POST'' ''/x'')\<lparr>rq_headers := [(''authorization'', ''Bearer a1'')]\<rparr>"

lemma expired_run:
  "\<exists>s'. send_json expiring_client dec_transfer bearing signed_in = (Inr \<lparr>rt_public_id = ''p'', rt_status = ''s''\<rparr>, s')
     \<and> cs_auth s' = Some \<lparr>as_access_token = ''a2'', as_refresh_token = Some ''r2''\<rparr>"
  by (simp add: client_run_eval bearing_def dec_transfer_def)


text \<open>C16: Every request of the upload phase carries exactly one Authorization header, also when it is sent
  again after a failure or with a refreshed token; the only request without one is the refresh of
  the session, which authenticates by its body.\<close>

theorem requests_carry_one_bearer:
  assumes "send_upload_json self dec request s = (r, s')" and "cs_auth s \<noteq> None"
  shows "\<exists>evs. cs_trace s' = cs_trace s @ evs \<and> list_all (one_bearer self) evs"
  using keepsD [OF upload_json_attempts_bearer appends_refl [OF assms(2)] assms(1) [unfolded send_upload_json_def]]
  by (simp add: appends_def)

theorem requests_carry_one_bearer_witness:
  "\<exists>s'. send_upload_json expiring_client dec_transfer bearing signed_in
       = (Inr (Some \<lparr>rt_public_id = ''p'', rt_status = ''s''\<rparr>), s')
     \<and> length (cs_trace s') = 5 \<and> list_all (one_bearer expiring_client) (cs_trace s')"
proof -
  have "attempts default_retry_policy = 0 # map of_nat [1..<8]"
    by (simp add: attempts_def default_retry_policy_def upt_rec)
  then have "\<exists>s'. send_upload_json expiring_client dec_transfer bearing signed_in
       = (Inr (Some \<lparr>rt_public_id = ''p'', rt_status = ''s''\<rparr>), s') \<and> length (cs_trace s') = 5"
    by (simp add: send_upload_json_def current_bearer_def client_run_eval bearing_def dec_transfer_def)
  then obtain s' where s': "send_upload_json expiring_client dec_transfer bearing signed_in
       = (Inr (Some \<lparr>rt_public_id = ''p'', rt_status = ''s''\<rparr>), s')" "length (cs_trace s') = 5" by blast
  have "cs_auth signed_in \<noteq> None" by (simp add: signed_in_def new_state_def)
  from requests_carry_one_bearer [OF s'(1) this] show ?thesis
    using s' by (simp add: signed_in_def new_state_def)
qed

theorem upload_requests_are_bounded_witness:
  "\<exists>r s'. send_upload_json expiring_client dec_transfer bearing signed_in = (r, s')
     \<and> r \<noteq> Inr None \<and> length (filter is_sent (cs_trace s')) \<le> 24"
proof -
  obtain r s' where run: "send_upload_json expiring_client dec_transfer bearing signed_in = (r, s')" by force
  from upload_requests_are_bounded [OF run] show ?thesis
    using run by (auto simp: signed_in_def new_state_def)
qed

text \<open>C17: The stored tokens change only by a session refresh that the application's observer has accepted:
  the client sent the refresh token it held, the reply decoded to a session, the observer took that
  session without an error, and the new tokens are that session's.\<close>

theorem tokens_change_only_when_persisted:
  assumes "send_json self dec request s = (r, s')" and "cs_auth s = Some old" and "cs_trace s = []"
    and "cs_auth s' \<noteq> Some old"
  shows "\<exists>observer token response session w w'.
     rc_observer self = Some observer \<and> as_refresh_token old = Some token
     \<and> Sent (refresh_request self token) (Inr response) \<in> set (cs_trace s')
     \<and> response_json self (dec_session self) response = Inr session
     \<and> observer session w = (Inr (), w')
     \<and> cs_auth s' = Some \<lparr>as_access_token = ss_access_token session,
                          as_refresh_token = Some (ss_refresh_token session)\<rparr>"
  using send_json_tokens [OF assms(1,2)] assms(4) unfolding renewed_def by blast

theorem tokens_change_only_when_persisted_witness:
  "\<exists>s' session w w'. send_json expiring_client dec_transfer bearing signed_in
       = (Inr \<lparr>rt_public_id = ''p'', rt_status = ''s''\<rparr>, s')
     \<and> the (rc_observer expiring_client) session w = (Inr (), w')
     \<and> cs_auth s' = Some \<lparr>as_access_token = ss_access_token session,
                          as_refresh_token = Some (ss_refresh_token session)\<rparr>"
proof -
  obtain s' where s': "send_json expiring_client dec_transfer bearing signed_in
      = (Inr \<lparr>rt_public_id = ''p'', rt_status = ''s''\<rparr>, s')"
    "cs_auth s' = Some \<lparr>as_access_token = ''a2'', as_refresh_token = Some ''r2''\<rparr>"
    using expired_run by blast
  have "cs_auth signed_in = Some old_auth" "cs_trace signed_in = []" "cs_auth s' \<noteq> Some old_auth"
    using s'(2) by (simp_all add: signed_in_def new_state_def old_auth_def)
  from tokens_change_only_when_persisted [OF s'(1) this] show ?thesis using s'(1) by (metis option.sel)
qed


section \<open>The outbox synchronisation\<close>

lemma sync_client_part:
  assumes "bindE (authorized self q) (\<lambda>request. send_json self dec (f request)) c = (x, c1)"
    and "cs_trace c = []" and "\<And>request. rq_body (f request) = body"
  shows "(\<exists>request a evs. cs_trace c1 = Sent request a # evs \<and> rq_body request = body) \<or> (\<exists>e. x = Inl e)"
proof -
  obtain y c2 where y: "authorized self q c = (y, c2)" by force
  show ?thesis
  proof (cases y)
    case (Inl e)
    then show ?thesis using assms(1) y by (auto simp: bindE_def)
  next
    case (Inr request)
    have t: "cs_trace c2 = []"
      using assms(2) y by (auto simp: authorized_def client_eval split: option.splits if_splits)
    obtain a w' where send: "re_send (rc_env self) (f request) (cs_world c2) = (a, w')" by force
    let ?c3 = "c2\<lparr>cs_world := w', cs_trace := [Sent (f request) a]\<rparr>"
    have "\<exists>k. send_json self dec (f request) = bindE (send_request self (f request)) k
        \<and> (\<forall>z. costs 2 0 (k z))"
      unfolding send_json_def Let_def prod.case
      by (intro exI conjI allI, rule refl, rule costs_weaken, (rule costs_intros)+) simp_all
    then obtain k where k: "send_json self dec (f request) = bindE (send_request self (f request)) k"
      "\<And>z. costs 2 0 (k z)" by blast
    have "k a ?c3 = (x, c1)" using assms(1) y Inr send t k(1)
      by (simp add: bindE_def send_request_def)
    from costsD [OF k(2) this] obtain evs where "cs_trace c1 = Sent (f request) a # evs" by auto
    then show ?thesis using assms(3) [of request] by blast
  qed
qed

text \<open>C18: Synchronising the outbox sends the oldest unsynchronised events, at most a hundred, and removes from
  the outbox exactly as many events as it reports, the oldest ones; when it fails, for whatever
  reason, the outbox is as it was, so the next run sends the same events again.\<close>

theorem sync_drains_what_it_sent:
  assumes "outbox_ok (st_tables d)" and "cs_trace c = []"
    and "sync_transfer_events self tx tid server (d, c) = (r, (d', c'))"
  shows "case r of
      Inl _ \<Rightarrow> unsynced_events tid (st_tables d') = unsynced_events tid (st_tables d)
    | Inr n \<Rightarrow>
        n = min 100 (length (unsynced_events tid (st_tables d)))
        \<and> unsynced_events tid (st_tables d') = drop n (unsynced_events tid (st_tables d))
        \<and> (0 < n \<longrightarrow> (\<exists>request a evs. cs_trace c' = Sent request a # evs
             \<and> rq_body request = JsonBody (JObj [(''events'', JArr (map (event_json tx \<circ> event_of_row)
                  (take n (unsynced_events tid (st_tables d)))))])))"
proof -
  let ?us = "unsynced_events tid (st_tables d)"
  let ?post = "\<lambda>events. bindE (authorized self (request_to self ''POST''
            (''/api/v1/transfers/'' @ server @ ''/events''))) (\<lambda>request.
            send_json self (dec_acknowledgement self) (request\<lparr>rq_timeout := Some 10,
              rq_body := JsonBody (JObj [(''events'', JArr (map (event_json tx) events))])\<rparr>))"
  obtain p d1 where p: "pending_transfer_events tid 100 d = (p, d1)" by force
  show ?thesis
  proof (cases p)
    case (Inl e)
    then have "st_tables d1 = st_tables d" using p by (auto simp: pending_transfer_events_def query_Inl)
    then show ?thesis using assms(3) p Inl
      by (auto simp: sync_transfer_events_def on_store_def bindE_def)
  next
    case (Inr events)
    have ev: "events = map event_of_row (take 100 ?us)" and t1: "st_tables d1 = st_tables d"
      using pending_is_prefix [OF assms(1) p [unfolded Inr]] by simp_all
    show ?thesis
    proof (cases "events = []")
      case True
      then have "?us = []" using ev by simp
      then show ?thesis using assms(3) p Inr True t1
        by (auto simp: sync_transfer_events_def on_store_def bindE_def ok_def)
    next
      case False
      obtain x c1 where x: "?post events c = (x, c1)" by force
      show ?thesis
      proof (cases "\<exists>ids. x = Inr ids \<and> ids = map e_id events")
        case nosend: False
        then have "(\<exists>e. r = Inl e) \<and> d' = d1"
          using assms(3) p Inr False x
          by (cases x) (auto simp: sync_transfer_events_def on_store_def on_client_def bindE_def [of "\<lambda>(d, c). _ d c"]
              bindE_def [of "on_client _"] fail_def split: if_splits)
        then show ?thesis using t1 by auto
      next
        case True
        then have x': "x = Inr (map e_id events)" by blast
        obtain y d2 where y: "acknowledge_transfer_events tid (map e_id events) d1 = (y, d2)" by force
        show ?thesis
        proof (cases y)
          case (Inl e)
          then have "(\<exists>e. r = Inl e) \<and> d' = d2"
            using assms(3) p Inr False x x' y
            by (auto simp: sync_transfer_events_def on_store_def on_client_def bindE_def thenE_def)
          moreover have "st_tables d2 = st_tables d1"
            using y Inl atomically_Inl unfolding acknowledge_transfer_events_def by blast
          ultimately show ?thesis using t1 by auto
        next
          case (Inr u)
          then have r: "r = Inr (length events)" "d' = d2" "c' = c1"
            using assms(3) p \<open>p = Inr events\<close> False x x' y
            by (auto simp: sync_transfer_events_def on_store_def on_client_def bindE_def thenE_def ok_def)
          let ?n = "min 100 (length ?us)"
          have n: "length events = ?n" "take 100 ?us = take ?n ?us" using ev by (simp_all add: min_def)
          have body: "JsonBody (JObj [(''events'', JArr (map (event_json tx) events))])
              = JsonBody (JObj [(''events'', JArr (map (event_json tx \<circ> event_of_row) (take ?n ?us)))])"
            using ev n(2) by simp
          from sync_client_part [OF x assms(2)] obtain request a evs where
            "cs_trace c1 = Sent request a # evs"
            "rq_body request = JsonBody (JObj [(''events'', JArr (map (event_json tx) events))])"
            using x' by fastforce
          moreover have "unsynced_events tid (st_tables d2) = drop ?n ?us"
            using acknowledge_removes [of tid "map e_id events" d1 d2] y Inr filter_take_drop [OF unsynced_distinct [OF assms(1)], of ?n tid]
            by (simp add: t1 ev n(2) event_of_row_def image_image)
          ultimately show ?thesis using r n(1) body by simp
        qed
      qed
    qed
  qed
qed

section \<open>A Registry that acknowledges\<close>

definition ack_env :: "unit registry_env" where
  "ack_env = \<lparr>re_send = (\<lambda>q w. (Inr (plain_response 200 (rq_url q)), w)),
     re_json = (\<lambda>r. Inr (JObj [(''acknowledged'', JArr [JStr ''1000''])])),
     re_is_json = (\<lambda>_. False), re_status_text = (\<lambda>_. ''''), re_uuid = (\<lambda>_. Some 1000),
     re_time = (\<lambda>_. Some 0), re_draw = (\<lambda>n w. (0, w))\<rparr>"

definition plain_text :: api_text where
  "plain_text = \<lparr>at_rfc3339 = (\<lambda>_. ''t''), at_timestamp_opt = (\<lambda>s n. Some s), at_json = (\<lambda>j. Inr ''{}''),
     at_sqlite = (\<lambda>_. ''''), at_os = ''linux''\<rparr>"

definition ack_client :: "unit RegistryClient" where
  "ack_client = \<lparr>rc_base_url = '''', rc_observer = None, rc_env = ack_env\<rparr>"

theorem sync_drains_what_it_sent_witness:
  "\<exists>d' c'. sync_transfer_events ack_client plain_text 4 ''s''
       (quiet draft_tables, new_state (Some old_auth) ()) = (Inr 1, (d', c'))
     \<and> unsynced_events 4 (st_tables d') = []"
proof -
  let ?d = "quiet draft_tables" and ?c = "new_state (Some old_auth) ()"
  have "\<exists>d' c'. sync_transfer_events ack_client plain_text 4 ''s'' (?d, ?c) = (Inr 1, (d', c'))"
    by (simp add: sync_transfer_events_def on_store_def on_client_def authorized_def client_run_eval
        ack_client_def ack_env_def dec_acknowledgement_def dec_uuid_def pending_transfer_events_def
        acknowledge_transfer_events_def acknowledge_one_def atomically_def run_eval unsynced_def table_eval
        event_of_row_def)
  then obtain d' c' where run: "sync_transfer_events ack_client plain_text 4 ''s'' (?d, ?c) = (Inr 1, (d', c'))"
    by blast
  have "outbox_ok (st_tables ?d)" by (simp add: quiet_def outbox_draft)
  moreover have "cs_trace ?c = []" by (simp add: new_state_def)
  ultimately have "unsynced_events 4 (st_tables d') = drop 1 (unsynced_events 4 (st_tables ?d))"
    using sync_drains_what_it_sent [OF _ _ run] by simp
  then show ?thesis using run by (simp add: unsynced_events_def quiet_def table_eval)
qed

section \<open>Streaming a part\<close>

definition yielded :: "(io_error + bytes) list \<Rightarrow> bytes" where
  "yielded items = concat (map (\<lambda>x. case x of Inl _ \<Rightarrow> [] | Inr chunk \<Rightarrow> chunk) items)"

lemma yielded_snoc [simp]:
  "yielded (items @ [Inl e]) = yielded items" "yielded (items @ [Inr c]) = yielded items @ c"
  by (simp_all add: yielded_def)

definition small_chunk :: "io_error + bytes \<Rightarrow> bool" where
  "small_chunk x = (case x of Inl _ \<Rightarrow> True | Inr chunk \<Rightarrow> 0 < length chunk \<and> length chunk \<le> 262144)"

lemma small_chunk_simps [simp]:
  "small_chunk (Inl e)" "small_chunk (Inr c) \<longleftrightarrow> 0 < length c \<and> length c \<le> 262144"
  by (simp_all add: small_chunk_def)

lemma flag_set_run: "\<exists>b w'. flag_set pause s = (Inr b, s\<lparr>cs_world := w'\<rparr>)"
proof (cases pause)
  case None
  then have "flag_set pause s = (Inr False, s\<lparr>cs_world := cs_world s\<rparr>)" by (simp add: flag_set_def ok_def)
  then show ?thesis by blast
next
  case (Some load)
  then show ?thesis by (auto simp: flag_set_def split: prod.split)
qed

lemma flag_set_trace: "flag_set pause s = (r, s') \<Longrightarrow> cs_trace s' = cs_trace s"
  by (cases pause) (auto simp: flag_set_def ok_def split: prod.splits)

lemma chunk_at:
  assumes "offset < length content" and "e = min (offset + chunk_size) (length content)"
  shows "take offset content @ take (e - offset) (drop offset content) = take e content"
    and "0 < length (take (e - offset) (drop offset content))"
    and "length (take (e - offset) (drop offset content)) \<le> 262144"
proof -
  have "offset \<le> e" using assms by (simp add: min_def chunk_size_def)
  then show "take offset content @ take (e - offset) (drop offset content) = take e content"
    by (metis add_diff_inverse_nat not_less take_add)
qed (use assms in \<open>auto simp: min_def chunk_size_def\<close>)

lemma put_loop_prefix:
  assumes "put_loop pause observer content offset items events s = (Inr items', s')"
    and "offset \<le> length content" and "yielded items = take offset content" and "list_all small_chunk items"
  shows "cs_trace s' = cs_trace s \<and> list_all small_chunk items'
    \<and> (\<exists>k \<le> length content. yielded items' = take k content)"
  using assms
proof (induction events arbitrary: offset items s)
  case Nil
  then show ?case by (auto simp: ok_def)
next
  case (Cons ev events)
  obtain b w' where flag: "flag_set pause s = (Inr b :: StoreError + bool, s\<lparr>cs_world := w'\<rparr>)"
    using flag_set_run [of pause s] by auto
  show ?case
  proof (cases ev)
    case Tick
    then have "put_loop pause observer content offset items events (s\<lparr>cs_world := w'\<rparr>) = (Inr items', s')"
      using Cons.prems(1) flag by (simp add: bindE_def fail_def split: if_splits)
    from Cons.IH [OF this Cons.prems(2-4)] show ?thesis by simp
  next
    case PollBody
    show ?thesis
    proof (cases "length content \<le> offset")
      case True
      then have "put_loop pause observer content offset items events s = (Inr items', s')"
        using Cons.prems(1) PollBody by (simp add: poll_body_def bindE_def ok_def)
      from Cons.IH [OF this Cons.prems(2-4)] show ?thesis .
    next
      case False
      let ?e = "min (offset + chunk_size) (length content)"
      let ?chunk = "take (?e - offset) (drop offset content)"
      show ?thesis
      proof (cases b)
        case True
        then have "put_loop pause observer content offset (items @ [Inl (IoError InterruptedIo ''upload paused'')])
            events (s\<lparr>cs_world := w'\<rparr>) = (Inr items', s')"
          using Cons.prems(1) PollBody False flag by (simp add: poll_body_def bindE_def ok_def)
        from Cons.IH [OF this Cons.prems(2)] show ?thesis using Cons.prems(3,4) by simp
      next
        case running: False
        obtain s1 where s1: "modifies (\<lambda>s. case observer of None \<Rightarrow> s
             | Some f \<Rightarrow> s\<lparr>cs_world := f (of_nat ?e) (cs_world s)\<rparr>) (s\<lparr>cs_world := w'\<rparr>) = (Inr (), s1)"
          and t: "cs_trace s1 = cs_trace s"
          by (cases observer) (auto simp: modifies_def)
        then have s1': "modifies (\<lambda>s. case observer of None \<Rightarrow> s
             | Some f \<Rightarrow> s\<lparr>cs_world := f (of_nat ?e) (cs_world s)\<rparr>) (s\<lparr>cs_world := w'\<rparr>)
             = (Inr () :: StoreError + unit, s1)"
          by (simp add: modifies_def)
        have "put_loop pause observer content ?e (items @ [Inr ?chunk]) events s1 = (Inr items', s')"
          using Cons.prems(1) PollBody False flag running s1'
          by (simp add: poll_body_def bindE_def thenE_def ok_def Let_def)
        from Cons.IH [OF this] show ?thesis
          using Cons.prems(3,4) chunk_at [of offset content ?e] False t by simp
      qed
    qed
  qed
qed

text \<open>What the code relies on of HTTP: a server answers a PUT with success only when it has received as
  many bytes as the request declares.\<close>

definition complete_bodies :: "'w object_net \<Rightarrow> bool" where
  "complete_bodies net \<longleftrightarrow>
     (\<forall>url bs items w response w'. length bs < 2 ^ 64 \<longrightarrow>
        on_answer net (put_request url bs) items w = (Inr response, w') \<longrightarrow>
        is_success (hr_status response) \<longrightarrow> length bs \<le> length (yielded items))"

lemma send_put_run:
  assumes "send_put self pause observer request content s = (Inr answer, s')"
  shows "\<exists>items w w'. cs_trace s' = cs_trace s @ [Streamed request items answer]
    \<and> on_answer (rm_net self) request items w = (answer, w')
    \<and> list_all small_chunk items \<and> (\<exists>k \<le> length content. yielded items = take k content)"
proof -
  obtain events w1 where sch: "on_schedule (rm_net self) request (cs_world s) = (events, w1)" by force
  obtain x s2 where loop: "put_loop pause observer content 0 [] events (s\<lparr>cs_world := w1\<rparr>) = (x, s2)" by force
  show ?thesis
  proof (cases x)
    case (Inl e)
    then show ?thesis using assms sch loop by (simp add: send_put_def bindE_def)
  next
    case (Inr items)
    obtain r w2 where ans: "on_answer (rm_net self) request items (cs_world s2) = (r, w2)" by force
    have "answer = r \<and> s' = s2\<lparr>cs_world := w2, cs_trace := cs_trace s2 @ [Streamed request items r]\<rparr>"
      using assms sch loop Inr ans by (auto simp: send_put_def bindE_def)
    moreover from put_loop_prefix [OF loop [unfolded Inr]] have
      "cs_trace s2 = cs_trace s" "list_all small_chunk items"
      "\<exists>k \<le> length content. yielded items = take k content" by (simp_all add: yielded_def)
    ultimately show ?thesis using ans by auto
  qed
qed

text \<open>C19: A part the Registry store reports as uploaded was streamed whole: the bytes its request yielded, in
  chunks of at most 256 KiB, are exactly the part's bytes, the object store answered with success,
  and the reported ETag is the one of that answer, the size that of the part.\<close>

theorem uploaded_part_was_streamed:
  assumes "complete_bodies (rm_net self)" and small: "length bs < 2 ^ 64"
    and "registry_upload_part self session number bs s = (Inr uploaded, s')"
  shows "rp_part_number uploaded = number \<and> rp_size uploaded = of_nat (length bs)
    \<and> (\<exists>url items response. Streamed (put_request url bs) items (Inr response) \<in> set (cs_trace s')
         \<and> is_success (hr_status response)
         \<and> map_of (hr_headers response) ''etag'' = Some (rp_etag uploaded)
         \<and> yielded items = bs \<and> list_all small_chunk items)"
proof -
  from assms(3) obtain i s1 url s2 pause observer s3 answer s4 s5 where
    put: "send_put self pause observer (put_request url bs) bs s3 = (Inr answer, s4)"
    and last: "(case answer of
       Inl e \<Rightarrow>
         let error = map_transport e in
         thenE (observe ''warning'' (''Object-store part '' @ decimal (unat number)
                  @ '' PUT transport failed: '' @ store_error_to_string error)) (fail error)
     | Inr response \<Rightarrow>
         if \<not> is_success (hr_status response) then
           let error = map_object_store_response (rm_client self) response in
           thenE (observe ''warning'' (''Object-store part '' @ decimal (unat number)
                    @ '' PUT failed: '' @ store_error_to_string error)) (fail error)
         else (case Option.bind (map_of (hr_headers response) ''etag'') to_str of
             None \<Rightarrow> fail (StoreError.Permanent ''part upload response omitted ETag'')
           | Some etag \<Rightarrow> ok \<lparr>rp_part_number = number, rp_etag = etag,
               rp_size = of_nat (length bs)\<rparr>)) s5 = (Inr uploaded, s')"
    and flag: "flag_set pause s4 = (Inr False :: StoreError + bool, s5)"
    unfolding registry_upload_part_def bindE_Inr_iff by (auto simp: comp_simps split: if_splits)
  have t5: "cs_trace s5 = cs_trace s4" using flag by (rule flag_set_trace)
  from last obtain response where answer: "answer = Inr response" "is_success (hr_status response)"
    "Option.bind (map_of (hr_headers response) ''etag'') to_str = Some (rp_etag uploaded)"
    "rp_part_number uploaded = number" "rp_size uploaded = of_nat (length bs)" "s' = s5"
    by (auto simp: Let_def comp_simps split: sum.splits if_splits option.splits)
  from send_put_run [OF put] answer(1) obtain items w w' k where
    items: "cs_trace s4 = cs_trace s3 @ [Streamed (put_request url bs) items (Inr response)]"
    "on_answer (rm_net self) (put_request url bs) items w = (Inr response, w')"
    "list_all small_chunk items" "k \<le> length bs" "yielded items = take k bs" by blast
  then have "yielded items = bs"
    using assms(1) small answer(2) unfolding complete_bodies_def by fastforce
  moreover have "map_of (hr_headers response) ''etag'' = Some (rp_etag uploaded)"
    using answer(3) by (auto simp: bind_eq_Some_conv to_str_def split: if_splits)
  ultimately show ?thesis using items answer t5
    by (intro conjI exI [of _ url] exI [of _ items] exI [of _ response]) simp_all
qed

lemma decimal_ne [simp]: "decimal n \<noteq> []"
  by (subst decimal.simps) simp

lemma decimal_ne' [simp]: "[] \<noteq> decimal n"
  using decimal_ne [of n] by metis

lemma digit_inj: "a < 10 \<Longrightarrow> b < 10 \<Longrightarrow> (char_of (48 + a) :: char) = char_of (48 + b) \<Longrightarrow> a = (b :: nat)"
  by (drule arg_cong [where f = "of_char :: char \<Rightarrow> nat"]) (simp add: of_char_of take_bit_eq_mod)

lemma decimal_inj: "decimal m = decimal n \<Longrightarrow> m = n"
proof (induction m arbitrary: n rule: decimal.induct)
  case (1 m)
  show ?case
  proof (cases "m < 10")
    case True
    then have m: "decimal m = [char_of (48 + m)]" by (subst decimal.simps) simp
    have "n < 10"
    proof (rule ccontr)
      assume "\<not> n < 10"
      then have "decimal n = decimal (n div 10) @ [char_of (48 + n mod 10)]" by (subst decimal.simps) simp
      then show False using 1(2) m by simp
    qed
    then have "decimal n = [char_of (48 + n)]" by (subst decimal.simps) simp
    then show ?thesis using 1(2) m digit_inj [OF True \<open>n < 10\<close>] by simp
  next
    case False
    then have m: "decimal m = decimal (m div 10) @ [char_of (48 + m mod 10)]" by (subst decimal.simps) simp
    have "\<not> n < 10"
    proof
      assume "n < 10"
      then have "decimal n = [char_of (48 + n)]" by (subst decimal.simps) simp
      then show False using 1(2) m by simp
    qed
    then have n: "decimal n = decimal (n div 10) @ [char_of (48 + n mod 10)]" by (subst decimal.simps) simp
    have "decimal (m div 10) = decimal (n div 10)" and d: "(char_of (48 + m mod 10) :: char) = char_of (48 + n mod 10)"
      using 1(2) m n by simp_all
    from 1(1) [OF False this(1)] have "m div 10 = n div 10" .
    moreover have "m mod 10 = n mod 10" using d by (intro digit_inj) simp_all
    ultimately show ?thesis by (metis div_mult_mod_eq)
  qed
qed

text \<open>An object store that takes a part in two polls.\<close>

definition strict_net :: "unit object_net" where
  "strict_net = \<lparr>on_schedule = (\<lambda>q w. ([PollBody, Tick, PollBody], w)),
     on_answer = (\<lambda>q items w.
       (if rq_headers q = [(''content-length'', decimal (length (yielded items)))]
        then Inr \<lparr>hr_status = 200, hr_host = None, hr_path = '''', hr_headers = [(''etag'', ''e1'')], hr_body = []\<rparr>
        else Inl decode_failed, w))\<rparr>"

lemma strict_net_complete: "complete_bodies strict_net"
  by (auto simp: complete_bodies_def strict_net_def put_request_def unat_of_nat dest!: decimal_inj split: if_splits)

definition url_env :: "unit registry_env" where
  "url_env = ack_env\<lparr>re_json := (\<lambda>r. Inr (JObj [(''url'', JStr ''https://o/p'')]))\<rparr>"

definition part_store :: "unit RegistryMultipartStore" where
  "part_store = \<lparr>rm_client = ack_client\<lparr>rc_env := url_env\<rparr>, rm_server_transfer_id = ''s'',
     rm_files = [''k'' \<mapsto> 7], rm_part_progress = Cell None, rm_pause_flag = Cell (Some (\<lambda>w. (False, w))),
     rm_net = strict_net\<rparr>"

theorem uploaded_part_was_streamed_witness:
  "\<exists>s'. registry_upload_part part_store \<lparr>us_object_key = ''k'', us_upload_id = ''u''\<rparr> 1 [1, 2, 3]
       (new_state (Some old_auth) ())
       = (Inr \<lparr>rp_part_number = 1, rp_etag = ''e1'', rp_size = 3\<rparr>, s')
     \<and> (\<exists>url items response. Streamed (put_request url [1, 2, 3]) items (Inr response) \<in> set (cs_trace s')
          \<and> yielded items = [1, 2, 3])"
proof -
  have three: "decimal 3 = decimal (Suc (Suc (Suc 0)))" by (simp add: numeral_3_eq_3)
  have "\<exists>s'. registry_upload_part part_store \<lparr>us_object_key = ''k'', us_upload_id = ''u''\<rparr> 1 [1, 2, 3]
      (new_state (Some old_auth) ()) = (Inr \<lparr>rp_part_number = 1, rp_etag = ''e1'', rp_size = 3\<rparr>, s')"
    by (simp add: registry_upload_part_def part_store_def file_id_def authorized_store_def registry_json_def
        authorized_def client_run_eval ack_client_def ack_env_def url_env_def dec_field_def lock_cell_def
        flag_set_def send_put_def strict_net_def poll_body_def chunk_size_def put_request_def yielded_def
        to_str_def endpoint_def object_url_def three)
  then obtain s' where run: "registry_upload_part part_store \<lparr>us_object_key = ''k'', us_upload_id = ''u''\<rparr> 1 [1, 2, 3]
      (new_state (Some old_auth) ()) = (Inr \<lparr>rp_part_number = 1, rp_etag = ''e1'', rp_size = 3\<rparr>, s')" by blast
  have "complete_bodies (rm_net part_store)" by (simp add: part_store_def strict_net_complete)
  from uploaded_part_was_streamed [OF this _ run] show ?thesis using run by auto
qed

section \<open>Diagnostics\<close>

text \<open>C20: Messages that are kept hide credentials: a preview of a response body never contains the marks of a
  signed request, and the message for a rejected authentication request depends on its body only through
  one of five words: empty, HTML, HTML mentioning Cloudflare, JSON or other. For two bodies of the
  same kind it is the same message.\<close>

theorem diagnostics_hide_credentials:
  assumes "starts_with path ''/api/v1/auth/''" and "body_kind js b = body_kind js b'"
    and "safe_response_preview body = Some preview" and "marker \<in> set signed_markers"
  shows "registry_response_detail js phase method status host path headers b
      = registry_response_detail js phase method status host path headers b'
    \<and> body_kind js b \<in> {''empty'', ''HTML'', ''HTML mentioning Cloudflare'', ''JSON'', ''other''}
    \<and> \<not> contains (to_ascii_lowercase preview) marker"
  using auth_detail_hides_body [OF assms(1,2)] safe_response_preview_unsigned [OF assms(3,4)]
  by (simp add: body_kind_def)

theorem diagnostics_hide_credentials_witness:
  "registry_response_detail (\<lambda>_. False) ''p'' ''POST'' ''401'' None ''/api/v1/auth/x'' [] ''secret a''
      = registry_response_detail (\<lambda>_. False) ''p'' ''POST'' ''401'' None ''/api/v1/auth/x'' [] ''secret b''
    \<and> safe_response_preview ''<X-Amz-Signature>'' \<noteq> Some ''<X-Amz-Signature>''"
proof -
  have p: "starts_with ''/api/v1/auth/x'' ''/api/v1/auth/''" by (simp add: starts_with_def)
  have k: "body_kind (\<lambda>_. False) ''secret a'' = body_kind (\<lambda>_. False) ''secret b''"
    by (simp add: body_kind_def trim_start_def whitespace_def byte_of_def continuation_def starts_with_def)
  have s: "\<not> safe_response_preview ''<X-Amz-Signature>'' = Some ''<X-Amz-Signature>''"
  proof
    assume "safe_response_preview ''<X-Amz-Signature>'' = Some ''<X-Amz-Signature>''"
    from diagnostics_hide_credentials [OF p k this, of "''x-amz-signature''"]
    have "\<not> contains (to_ascii_lowercase ''<X-Amz-Signature>'') ''x-amz-signature''"
      by (simp add: signed_markers_def)
    then show False by (simp add: to_ascii_lowercase_def ascii_lower_def char_of_def bit_simps)
  qed
  have "safe_response_preview ''ok'' = Some ''ok''"
    by (simp add: safe_response_preview_def split_whitespace_def whitespace_def byte_of_def continuation_def
        signed_markers_def to_ascii_lowercase_def ascii_lower_def truncate_diagnostic_def)
  from diagnostics_hide_credentials [OF p k this, of "''authorization:''"] show ?thesis
    using s by (simp add: signed_markers_def)
qed

end
