(* ===== verification/Disk.thy ===== *)
theory Disk
  imports Inventory
begin

text \<open>
  The local file system the retrieval side writes: what it uses of \<^verbatim>\<open>std::fs\<close>, \<^verbatim>\<open>tokio::fs\<close>
  and \<^verbatim>\<open>filetime\<close>. A disk maps a location, the components of a path without \<^verbatim>\<open>.\<close>, to a
  directory or a regular file with its bytes and modification time; symbolic links are not
  modelled and \<^verbatim>\<open>..\<close> is not resolved. Every operation counts, and may be failed by the device at
  any of its turns: \<open>dk_fault n\<close> is the error of the \<open>n\<close>-th operation and how many bytes a failing
  write still wrote.
\<close>

section \<open>Nodes\<close>

type_synonym location = "Component list"
type_synonym nanos = int

datatype node = Directory | RegularFile bytes nanos

record disk =
  dk_nodes :: "location \<Rightarrow> node option"
  dk_fault :: "nat \<Rightarrow> (io_error \<times> nat) option"
  dk_tick :: nat
  dk_clock :: "nat \<Rightarrow> nanos"

type_synonym 'a io = "(disk, io_error, 'a) comp"

definition loc :: "path \<Rightarrow> location" where
  "loc p = filter (\<lambda>c. c \<noteq> CurDir) (components p)"

definition node_at :: "disk \<Rightarrow> location \<Rightarrow> node option" where
  "node_at d k = (if k = [] \<or> k = [RootDir] then Some Directory else dk_nodes d k)"

definition set_node :: "location \<Rightarrow> node option \<Rightarrow> disk \<Rightarrow> disk" where
  "set_node k n d = d\<lparr>dk_nodes := (dk_nodes d)(k := n)\<rparr>"

definition file_bytes :: "disk \<Rightarrow> path \<Rightarrow> bytes option" where
  "file_bytes d p = (case node_at d (loc p) of Some (RegularFile bs _) \<Rightarrow> Some bs | _ \<Rightarrow> None)"

definition now :: "disk \<Rightarrow> nanos" where
  "now d = dk_clock d (dk_tick d)"

definition not_found :: io_error where
  "not_found = IoError NotFound ''No such file or directory''"

definition other_io :: "string \<Rightarrow> io_error" where
  "other_io message = IoError OtherIo message"

definition turn :: "disk \<Rightarrow> disk" where
  "turn d = d\<lparr>dk_tick := Suc (dk_tick d)\<rparr>"

definition disk_op :: "(disk \<Rightarrow> (io_error + 'a) \<times> disk) \<Rightarrow> 'a io" where
  "disk_op op = (\<lambda>d. case dk_fault d (dk_tick d) of
     Some (e, _) \<Rightarrow> (Inl e, turn d) | None \<Rightarrow> op (turn d))"

section \<open>Operations\<close>

definition path_exists :: "path \<Rightarrow> disk \<Rightarrow> bool" where
  "path_exists p d = (node_at d (loc p) \<noteq> None)"

definition path_is_dir :: "path \<Rightarrow> disk \<Rightarrow> bool" where
  "path_is_dir p d = (node_at d (loc p) = Some Directory)"

definition metadata_len :: "path \<Rightarrow> u64 io" where
  "metadata_len p = disk_op (\<lambda>d. case node_at d (loc p) of
     None \<Rightarrow> (Inl not_found, d)
   | Some Directory \<Rightarrow> (Inr 4096, d)
   | Some (RegularFile bs _) \<Rightarrow> (Inr (of_nat (length bs)), d))"

definition remove_file :: "path \<Rightarrow> unit io" where
  "remove_file p = disk_op (\<lambda>d. case node_at d (loc p) of
     None \<Rightarrow> (Inl not_found, d)
   | Some Directory \<Rightarrow> (Inl (other_io ''Is a directory''), d)
   | Some (RegularFile _ _) \<Rightarrow> (Inr (), set_node (loc p) None d))"

definition remove_tree :: "location \<Rightarrow> disk \<Rightarrow> disk" where
  "remove_tree k d = d\<lparr>dk_nodes := (\<lambda>l. if take (length k) l = k then None else dk_nodes d l)\<rparr>"

text \<open>A failing removal of a tree may have removed none of it; the callers ignore its result.\<close>

definition remove_dir_all :: "path \<Rightarrow> unit io" where
  "remove_dir_all p = disk_op (\<lambda>d.
     case node_at d (loc p) of
       None \<Rightarrow> (Inl not_found, d)
     | Some Directory \<Rightarrow> (Inr (), remove_tree (loc p) d)
     | Some (RegularFile _ _) \<Rightarrow> (Inl (other_io ''Not a directory''), d))"

definition empty_dir :: "disk \<Rightarrow> location \<Rightarrow> bool" where
  "empty_dir d k \<longleftrightarrow> (\<forall>l. take (length k) l = k \<and> l \<noteq> k \<longrightarrow> dk_nodes d l = None)"

definition remove_dir :: "path \<Rightarrow> unit io" where
  "remove_dir p = disk_op (\<lambda>d. case node_at d (loc p) of
     None \<Rightarrow> (Inl not_found, d)
   | Some Directory \<Rightarrow>
       if empty_dir d (loc p) \<and> loc p \<noteq> [] \<and> loc p \<noteq> [RootDir] then (Inr (), set_node (loc p) None d)
       else (Inl (other_io ''Directory not empty''), d)
   | Some (RegularFile _ _) \<Rightarrow> (Inl (other_io ''Not a directory''), d))"

definition parent_is_dir :: "disk \<Rightarrow> location \<Rightarrow> bool" where
  "parent_is_dir d k \<longleftrightarrow> k \<noteq> [] \<and> node_at d (butlast k) = Some Directory"

definition create_dir :: "path \<Rightarrow> unit io" where
  "create_dir p = disk_op (\<lambda>d.
     if node_at d (loc p) \<noteq> None then (Inl (other_io ''File exists''), d)
     else if \<not> parent_is_dir d (loc p) then (Inl not_found, d)
     else (Inr (), set_node (loc p) (Some Directory) d))"

fun make_dirs :: "location list \<Rightarrow> unit io" where
  "make_dirs [] = ok ()"
| "make_dirs (k # ks) =
     thenE (disk_op (\<lambda>d. case node_at d k of
              None \<Rightarrow> (Inr (), set_node k (Some Directory) d)
            | Some Directory \<Rightarrow> (Inr (), d)
            | Some (RegularFile _ _) \<Rightarrow> (Inl (other_io ''Not a directory''), d)))
       (make_dirs ks)"

definition create_dir_all :: "path \<Rightarrow> unit io" where
  "create_dir_all p = make_dirs (map (\<lambda>n. take (Suc n) (loc p)) [0..<length (loc p)])"

text \<open>\<^verbatim>\<open>OpenOptions\<close> with \<^verbatim>\<open>create(true).write(true)\<close>: append keeps the content, else truncate.\<close>

definition open_output :: "bool \<Rightarrow> path \<Rightarrow> unit io" where
  "open_output appending p = disk_op (\<lambda>d. case node_at d (loc p) of
     Some Directory \<Rightarrow> (Inl (other_io ''Is a directory''), d)
   | Some (RegularFile bs t) \<Rightarrow>
       if appending then (Inr (), d) else (Inr (), set_node (loc p) (Some (RegularFile [] (now d))) d)
   | None \<Rightarrow>
       if parent_is_dir d (loc p)
       then (Inr (), set_node (loc p) (Some (RegularFile [] (now d))) d) else (Inl not_found, d))"

definition append_bytes :: "path \<Rightarrow> bytes \<Rightarrow> disk \<Rightarrow> disk" where
  "append_bytes p bs d = (case node_at d (loc p) of
     Some (RegularFile content t) \<Rightarrow> set_node (loc p) (Some (RegularFile (content @ bs) (now d))) d
   | _ \<Rightarrow> d)"

text \<open>\<^verbatim>\<open>write_all\<close> at the end of the open file.\<close>

definition write_all :: "path \<Rightarrow> bytes \<Rightarrow> unit io" where
  "write_all p bs = (\<lambda>d. case dk_fault d (dk_tick d) of
     Some (e, n) \<Rightarrow> (Inl e, turn (append_bytes p (take n bs) d))
   | None \<Rightarrow> (Inr (), turn (append_bytes p bs d)))"

definition sync_file :: "path \<Rightarrow> unit io" where
  "sync_file p = disk_op (\<lambda>d. (Inr (), d))"

definition set_file_mtime :: "path \<Rightarrow> nanos \<Rightarrow> unit io" where
  "set_file_mtime p t = disk_op (\<lambda>d. case node_at d (loc p) of
     None \<Rightarrow> (Inl not_found, d)
   | Some Directory \<Rightarrow> (Inr (), d)
   | Some (RegularFile bs _) \<Rightarrow> (Inr (), set_node (loc p) (Some (RegularFile bs t)) d))"

definition read_file :: "path \<Rightarrow> bytes io" where
  "read_file p = disk_op (\<lambda>d. case node_at d (loc p) of
     Some (RegularFile bs _) \<Rightarrow> (Inr bs, d)
   | Some Directory \<Rightarrow> (Inl (other_io ''Is a directory''), d)
   | None \<Rightarrow> (Inl not_found, d))"

definition copy_file :: "path \<Rightarrow> path \<Rightarrow> u64 io" where
  "copy_file src dst = bindE (read_file src) (\<lambda>bs. thenE (open_output False dst)
     (thenE (write_all dst bs) (ok (of_nat (length bs)))))"

definition move_tree :: "location \<Rightarrow> location \<Rightarrow> disk \<Rightarrow> disk" where
  "move_tree src dst d = d\<lparr>dk_nodes := (\<lambda>l.
     if take (length dst) l = dst then dk_nodes d (src @ drop (length dst) l)
     else if take (length src) l = src then None else dk_nodes d l)\<rparr>"

text \<open>\<^verbatim>\<open>rename\<close>: a file replaces a file, a directory only an empty directory.\<close>

definition can_replace :: "disk \<Rightarrow> node \<Rightarrow> location \<Rightarrow> bool" where
  "can_replace d n dst \<longleftrightarrow>
     (case (n, node_at d dst) of
        (_, None) \<Rightarrow> parent_is_dir d dst
      | (RegularFile _ _, Some (RegularFile _ _)) \<Rightarrow> True
      | (Directory, Some Directory) \<Rightarrow> dst \<noteq> [] \<and> dst \<noteq> [RootDir] \<and> empty_dir d dst
      | _ \<Rightarrow> False)"

definition rename :: "path \<Rightarrow> path \<Rightarrow> unit io" where
  "rename src dst = disk_op (\<lambda>d. case node_at d (loc src) of
     None \<Rightarrow> (Inl not_found, d)
   | Some n \<Rightarrow>
       if loc src = loc dst then (Inr (), d)
       else if take (length (loc src)) (loc dst) = loc src \<or> \<not> can_replace d n (loc dst)
       then (Inl (other_io ''Directory not empty''), d)
       else (Inr (), case n of
          RegularFile _ _ \<Rightarrow> set_node (loc src) None (set_node (loc dst) (Some n) d)
        | Directory \<Rightarrow> move_tree (loc src) (loc dst) d))"

section \<open>The inventory's view of the disk\<close>

text \<open>A buffered read delivers the file's bytes in buffer-sized chunks, then the empty read.\<close>

fun chunks_of :: "nat \<Rightarrow> bytes \<Rightarrow> bytes list" where
  "chunks_of n [] = []"
| "chunks_of n (b # bs) =
     (b # take (n - 1) bs) # chunks_of n (drop (n - 1) bs)"

definition disk_reads :: "path \<Rightarrow> nat \<Rightarrow> read_result list io" where
  "disk_reads p buffer_size =
     bindE (read_file p) (\<lambda>bs. ok (map Inr (chunks_of buffer_size bs) @ [Inr []]))"

definition disk_metadata :: "path \<Rightarrow> metadata io" where
  "disk_metadata p = bindE (metadata_len p) (\<lambda>len. gets (\<lambda>d.
     \<lparr>md_len = len, md_modified = Inr (case node_at d (loc p) of Some (RegularFile _ t) \<Rightarrow> t | _ \<Rightarrow> 0)\<rparr>))"

definition disk_read_exact_at :: "path \<Rightarrow> u64 \<Rightarrow> nat \<Rightarrow> bytes io" where
  "disk_read_exact_at p offset n = bindE (read_file p) (\<lambda>bs.
     if unat offset + n \<le> length bs then ok (take n (drop (unat offset) bs))
     else fail (IoError UnexpectedEof ''failed to fill whole buffer''))"

text \<open>The walker is not used on this side; it yields nothing.\<close>

definition disk_fs :: "disk fs_ops" where
  "disk_fs =
     \<lparr>fs_exists = (\<lambda>p d. (path_exists p d, d)),
      fs_is_file = (\<lambda>p d. (file_bytes d p \<noteq> None, d)),
      fs_walk = (\<lambda>p d. ([], d)),
      fs_metadata = disk_metadata, fs_reads = disk_reads, fs_read_exact_at = disk_read_exact_at\<rparr>"

section \<open>Lemmas\<close>

lemma turn_nodes [simp]: "dk_nodes (turn d) = dk_nodes d" "node_at (turn d) k = node_at d k"
  by (simp_all add: turn_def node_at_def)

lemma disk_op_Inr [comp_simps]:
  "disk_op op d = (Inr x, d') \<longleftrightarrow> dk_fault d (dk_tick d) = None \<and> op (turn d) = (Inr x, d')"
  by (auto simp: disk_op_def split: option.splits)

lemma disk_op_Inl [comp_simps]:
  "disk_op op d = (Inl e, d') \<longleftrightarrow>
     (\<exists>n. dk_fault d (dk_tick d) = Some (e, n) \<and> d' = turn d)
     \<or> dk_fault d (dk_tick d) = None \<and> op (turn d) = (Inl e, d')"
  by (auto simp: disk_op_def split: option.splits)

text \<open>
  The frame of the operations: \<open>only S d d'\<close> when the nodes outside \<open>S\<close> are the same.
\<close>

definition only :: "location set \<Rightarrow> disk \<Rightarrow> disk \<Rightarrow> bool" where
  "only S d d' \<longleftrightarrow> (\<forall>k. k \<notin> S \<longrightarrow> dk_nodes d' k = dk_nodes d k)"

lemma only_refl [simp, intro]: "only S d d"
  by (simp add: only_def)

lemma only_turn [simp]: "only S d (turn d') = only S d d'" "only S (turn d) d' = only S d d'"
  by (simp_all add: only_def)

lemma only_trans: "only S d d' \<Longrightarrow> only S d' d'' \<Longrightarrow> only S d d''"
  by (simp add: only_def)

lemma only_mono: "only S d d' \<Longrightarrow> S \<subseteq> T \<Longrightarrow> only T d d'"
  by (auto simp: only_def)

lemma only_set_node [intro]: "k \<in> S \<Longrightarrow> only S d d' \<Longrightarrow> only S d (set_node k n d')"
  by (auto simp: only_def set_node_def)

lemma only_append_bytes [intro]: "loc p \<in> S \<Longrightarrow> only S d d' \<Longrightarrow> only S d (append_bytes p bs d')"
  by (auto simp: append_bytes_def split: option.splits node.splits)

lemma file_bytes_cong: "node_at d' (loc p) = node_at d (loc p) \<Longrightarrow> file_bytes d' p = file_bytes d p"
  by (simp add: file_bytes_def)

lemma file_bytes_only: "only S d d' \<Longrightarrow> loc p \<notin> S \<Longrightarrow> file_bytes d' p = file_bytes d p"
  by (rule file_bytes_cong) (simp add: only_def node_at_def)

lemma file_bytes_turn [simp]: "file_bytes (turn d) p = file_bytes d p"
  by (rule file_bytes_cong) simp

lemma file_bytes_Some:
  "file_bytes d p = Some bs \<longleftrightarrow>
     loc p \<noteq> [] \<and> loc p \<noteq> [RootDir] \<and> (\<exists>t. dk_nodes d (loc p) = Some (RegularFile bs t))"
  by (auto simp: file_bytes_def node_at_def split: option.splits node.splits)

lemma file_bytes_append_bytes:
  "file_bytes d p = Some bs \<Longrightarrow> file_bytes (append_bytes p cs d) p = Some (bs @ cs)"
  by (auto simp: file_bytes_Some append_bytes_def node_at_def set_node_def)

end
