(* ===== verification/Download.thy ===== *)
theory Download
  imports RegistryStore Disk
begin

text \<open>
  The resumable download of one object, \<^verbatim>\<open>RegistryClient::download_object_resumable\<close> of
  \<^verbatim>\<open>crates/courier-registry/src/lib.rs\<close>, over the local disk and the network. A run's state is the
  disk and the client's state. The environment answers a GET with the number of 100 ms timers that
  fire before the answer, the answer, and the timers before each item of the body stream.
\<close>

section \<open>The run\<close>

type_synonym ('w, 'a) fetch_run = "(disk \<times> 'w client_state, RegistryError, 'a) comp"

record 'w download_net =
  dn_get :: "http_request \<Rightarrow> 'w \<Rightarrow> (nat \<times> (transport_error + http_response) \<times> nat list) \<times> 'w"

definition on_disk :: "'a io \<Rightarrow> ('w, 'a) fetch_run" where
  "on_disk m = (\<lambda>(d, c). case m d of
     (Inl e, d') \<Rightarrow> (Inl (Io e), (d', c)) | (Inr x, d') \<Rightarrow> (Inr x, (d', c)))"

definition with_client :: "('w client_state, 'e, 'a) comp \<Rightarrow> (disk \<times> 'w client_state, 'e, 'a) comp" where
  "with_client m = (\<lambda>(d, c). case m c of (r, c') \<Rightarrow> (r, (d, c')))"

definition pause_load :: "('w \<Rightarrow> bool \<times> 'w) \<Rightarrow> ('w, bool) fetch_run" where
  "pause_load load = with_client (flag_set (Some load))"

definition report :: "(u64 \<Rightarrow> 'w \<Rightarrow> 'w) \<Rightarrow> u64 \<Rightarrow> ('w, unit) fetch_run" where
  "report observer n = with_client (modifies (\<lambda>s. s\<lparr>cs_world := observer n (cs_world s)\<rparr>))"

section \<open>The partial file's name\<close>

definition file_stem :: "string \<Rightarrow> string" where
  "file_stem w =
     (let before = rev (drop 1 (dropWhile (\<lambda>c. c \<noteq> CHR ''.'') (rev w)))
      in if CHR ''.'' \<notin> set w \<or> before = [] then w else before)"

definition with_extension :: "path \<Rightarrow> string \<Rightarrow> path" where
  "with_extension p extension =
     (case rev (components p) of
        Normal w # dirs \<Rightarrow> render (rev dirs @ [Normal (file_stem w @ ''.'' @ extension)])
      | _ \<Rightarrow> p)"

section \<open>The body\<close>

text \<open>The body's items, each after its timers (\<open>None\<close>), then the timers before the end.\<close>

fun weave :: "nat list \<Rightarrow> 'a list \<Rightarrow> 'a option list" where
  "weave ns [] = (case ns of [] \<Rightarrow> [] | n # _ \<Rightarrow> replicate n None)"
| "weave ns (x # xs) =
     (case ns of [] \<Rightarrow> [Some x] | n # _ \<Rightarrow> replicate n None @ [Some x]) @ weave (tl ns) xs"

definition stop_paused :: "path \<Rightarrow> ('w, 'a) fetch_run" where
  "stop_paused partial_path =
     thenE (on_disk (sync_file partial_path)) (thenE (on_disk (sync_file partial_path)) (fail RegistryError.Paused))"

fun receive ::
  "('w \<Rightarrow> bool \<times> 'w) \<Rightarrow> (u64 \<Rightarrow> 'w \<Rightarrow> 'w) \<Rightarrow> path \<Rightarrow> u64 \<Rightarrow> (transport_error + bytes) option list
     \<Rightarrow> ('w, u64) fetch_run" where
  "receive pause observer partial_path received [] = ok received"
| "receive pause observer partial_path received (None # events) =
     bindE (pause_load pause) (\<lambda>paused.
       if paused then stop_paused partial_path
       else receive pause observer partial_path received events)"
| "receive pause observer partial_path received (Some (Inl e) # events) = fail (Transport e)"
| "receive pause observer partial_path received (Some (Inr chunk) # events) =
     bindE (pause_load pause) (\<lambda>paused.
       if paused then stop_paused partial_path
       else
         let received' = saturating_add received (of_nat (length chunk)) in
         thenE (on_disk (write_all partial_path chunk))
           (thenE (report observer received')
              (receive pause observer partial_path received' events)))"

section \<open>The request\<close>

definition range_header :: "u64 \<Rightarrow> string" where
  "range_header offset = ''bytes='' @ decimal (unat offset) @ ''-''"

definition get_request :: "string \<Rightarrow> u64 \<Rightarrow> http_request" where
  "get_request url offset =
     \<lparr>rq_method = ''GET'', rq_url = url,
      rq_headers = (if offset > 0 then [(''range'', range_header offset)] else []),
      rq_body = NoBody, rq_timeout = None\<rparr>"

fun wait_answer :: "('w \<Rightarrow> bool \<times> 'w) \<Rightarrow> nat \<Rightarrow> ('w, unit) fetch_run" where
  "wait_answer pause 0 = ok ()"
| "wait_answer pause (Suc n) =
     bindE (pause_load pause) (\<lambda>paused.
       if paused then fail RegistryError.Paused else wait_answer pause n)"

definition send_get ::
  "'w download_net \<Rightarrow> ('w \<Rightarrow> bool \<times> 'w) \<Rightarrow> http_request \<Rightarrow> ('w, http_response \<times> nat list) fetch_run" where
  "send_get net pause request =
     bindE (with_client (\<lambda>s. case dn_get net request (cs_world s) of
              (answer, w') \<Rightarrow> (Inr answer, s\<lparr>cs_world := w'\<rparr>))) (\<lambda>(timers, answer, body_timers).
     thenE (wait_answer pause timers)
     (thenE (with_client (trace_event (Sent request answer)))
     (case answer of
        Inl e \<Rightarrow> fail (Transport e)
      | Inr response \<Rightarrow> ok (response, body_timers))))"

text \<open>How the answer continues the partial file: \<open>(offset, append)\<close>.\<close>

definition resume_mode :: "u64 \<Rightarrow> http_response \<Rightarrow> RegistryError + (u64 \<times> bool)" where
  "resume_mode offset response =
     (if offset > 0 \<and> hr_status response = 206 then
        let content_range = (case Option.bind (map_of (hr_headers response) ''content-range'') to_str of
                               None \<Rightarrow> '''' | Some v \<Rightarrow> v) in
        if \<not> starts_with content_range (''bytes '' @ decimal (unat offset) @ ''-'')
        then Inl (State (''object storage returned an invalid Content-Range for resume at byte ''
                   @ decimal (unat offset)))
        else Inr (offset, True)
      else if offset > 0 \<and> hr_status response = 200 then Inr (0, False)
      else if hr_status response = 206 \<and> offset = 0
      then Inl (State ''object storage returned a partial response without a resume offset'')
      else Inr (offset, False))"

definition store_body ::
  "('w \<Rightarrow> bool \<times> 'w) \<Rightarrow> (u64 \<Rightarrow> 'w \<Rightarrow> 'w) \<Rightarrow> path \<Rightarrow> u64 \<Rightarrow> bool \<Rightarrow> (transport_error + bytes) option list
     \<Rightarrow> ('w, u64) fetch_run" where
  "store_body pause observer partial_path offset appending events =
     thenE (on_disk (open_output appending partial_path))
     (thenE (if appending then on_disk (sync_file partial_path) else ok ())
     (thenE (report observer offset)
     (bindE (receive pause observer partial_path offset events) (\<lambda>received.
      thenE (on_disk (sync_file partial_path)) (thenE (on_disk (sync_file partial_path)) (ok received))))))"

definition fetch_rest ::
  "'w RegistryClient \<Rightarrow> 'w download_net \<Rightarrow> string \<Rightarrow> path \<Rightarrow> path \<Rightarrow> u64 option \<Rightarrow> ('w \<Rightarrow> bool \<times> 'w)
     \<Rightarrow> (u64 \<Rightarrow> 'w \<Rightarrow> 'w) \<Rightarrow> u64 \<Rightarrow> ('w, u64) fetch_run" where
  "fetch_rest self net url destination partial_path expected_bytes pause observer offset =
     bindE (send_get net pause (get_request url offset)) (\<lambda>(response, body_timers).
     if \<not> is_success (hr_status response) then
       fail (State (store_error_to_string (map_object_store_response self response)))
     else bindE (lift_res (resume_mode offset response)) (\<lambda>(offset, appending).
       bindE (store_body pause observer partial_path offset appending
                (weave body_timers (hr_body response))) (\<lambda>received.
       if (case expected_bytes of None \<Rightarrow> False | Some expected \<Rightarrow> expected \<noteq> received) then
         fail (State (''downloaded object has '' @ decimal (unat received) @ '' bytes; expected ''
                 @ decimal (unat (case expected_bytes of None \<Rightarrow> 0 | Some n \<Rightarrow> n))))
       else thenE (on_disk (rename partial_path destination)) (ok received))))"

definition resume_partial ::
  "'w RegistryClient \<Rightarrow> 'w download_net \<Rightarrow> string \<Rightarrow> path \<Rightarrow> path \<Rightarrow> u64 option \<Rightarrow> ('w \<Rightarrow> bool \<times> 'w)
     \<Rightarrow> (u64 \<Rightarrow> 'w \<Rightarrow> 'w) \<Rightarrow> ('w, u64) fetch_run" where
  "resume_partial self net url destination partial_path expected_bytes pause observer =
     bindE (on_disk (tryE (metadata_len partial_path))) (\<lambda>found.
     let offset = (case found of Inl _ \<Rightarrow> 0 | Inr n \<Rightarrow> n) in
     bindE (if (case expected_bytes of None \<Rightarrow> False | Some expected \<Rightarrow> offset > expected)
            then thenE (on_disk (remove_file partial_path)) (ok 0) else ok offset) (\<lambda>offset.
     bindE (pause_load pause) (\<lambda>paused.
     if paused then fail RegistryError.Paused
     else if expected_bytes = Some offset \<and> offset > 0 then
       thenE (on_disk (rename partial_path destination)) (thenE (report observer offset) (ok offset))
     else fetch_rest self net url destination partial_path expected_bytes pause observer offset)))"

definition download_object_resumable ::
  "'w RegistryClient \<Rightarrow> 'w download_net \<Rightarrow> string \<Rightarrow> path \<Rightarrow> u64 option \<Rightarrow> ('w \<Rightarrow> bool \<times> 'w)
     \<Rightarrow> (u64 \<Rightarrow> 'w \<Rightarrow> 'w) \<Rightarrow> ('w, u64) fetch_run" where
  "download_object_resumable self net url destination expected_bytes pause observer =
     (let partial_path = with_extension destination ''part'' in
      bindE (on_disk (tryE (metadata_len destination))) (\<lambda>found.
      case found of
        Inr sz \<Rightarrow>
          if (case expected_bytes of None \<Rightarrow> True | Some expected \<Rightarrow> expected = sz)
          then thenE (report observer sz) (ok sz)
          else thenE (on_disk (remove_file destination))
                 (resume_partial self net url destination partial_path expected_bytes pause observer)
      | Inl (_ :: io_error) \<Rightarrow>
          resume_partial self net url destination partial_path expected_bytes pause observer))"

end
