(* ===== verification/Retrieve.thy ===== *)
theory Retrieve
  imports Download Pack
begin

text \<open>
  The retrieve command, \<^verbatim>\<open>apps/courier-cli/src/retrieve.rs\<close>: a verified dataset is downloaded into
  a cache beside the destination, restored into a partial directory and checked file by file against
  the manifest, and moved to the destination by one rename. \<open>safe_path\<close> is in \<open>Paths\<close>.

  \<open>retrieve_env\<close> holds what is not the program's: the hashers, the Zstandard decoder, the JSON of
  pack headers, the split of a time into seconds and nanoseconds, the Unicode lower case of a
  path, the text of an error, and the URL parser.
\<close>

section \<open>The manifest\<close>

record Digest =
  dg_algorithm :: HashAlgorithm
  dg_value :: string

record Transport =
  tp_object_id :: uuid
  tp_member_index :: u32

record ManifestFile =
  mf_path :: string
  mf_size :: u64
  mf_mtime :: datetime
  mf_digest :: Digest
  mf_transport :: Transport

definition dec_digest :: "json \<Rightarrow> Digest option" where
  "dec_digest j = (case struct_fields [''algorithm'', ''value''] j of
     Some [a, v] \<Rightarrow>
       Option.bind (required dec_hash_algorithm a) (\<lambda>a.
       Option.bind (required dec_string v) (\<lambda>v. Some \<lparr>dg_algorithm = a, dg_value = v\<rparr>))
   | _ \<Rightarrow> None)"

definition dec_transport :: "'w RegistryClient \<Rightarrow> json \<Rightarrow> Transport option" where
  "dec_transport self j = (case struct_fields [''object_id'', ''member_index''] j of
     Some [i, n] \<Rightarrow>
       Option.bind (required (dec_uuid self) i) (\<lambda>i.
       Option.bind (required dec_word n) (\<lambda>n. Some \<lparr>tp_object_id = i, tp_member_index = n\<rparr>))
   | _ \<Rightarrow> None)"

definition dec_manifest_file :: "'w RegistryClient \<Rightarrow> json \<Rightarrow> ManifestFile option" where
  "dec_manifest_file self j =
     (case struct_fields [''path'', ''size'', ''mtime'', ''digest'', ''transport''] j of
        Some [p, sz, mtime, digest, transport] \<Rightarrow>
          Option.bind (required dec_string p) (\<lambda>p.
          Option.bind (required dec_word sz) (\<lambda>sz.
          Option.bind (required (dec_time self) mtime) (\<lambda>mtime.
          Option.bind (required dec_digest digest) (\<lambda>digest.
          Option.bind (required (dec_transport self) transport) (\<lambda>transport.
            Some \<lparr>mf_path = p, mf_size = sz, mf_mtime = mtime, mf_digest = digest,
                  mf_transport = transport\<rparr>)))))
      | _ \<Rightarrow> None)"

definition dec_manifest :: "'w RegistryClient \<Rightarrow> json \<Rightarrow> ManifestFile list option" where
  "dec_manifest self j = (case struct_fields [''files''] j of
     Some [fs] \<Rightarrow> required (dec_list (dec_manifest_file self)) fs | _ \<Rightarrow> None)"

section \<open>Errors and the environment\<close>

datatype RetrieveError =
    Message string
  | IoFailed io_error
  | RegistryFailed RegistryError
  | PackFailed PackError
  | CourierFailed CourierError
  | ManifestInvalid

record parsed_url =
  ur_scheme :: string
  ur_host :: "string option"
  ur_username :: string
  ur_password :: "string option"
  ur_query :: "string option"
  ur_fragment :: "string option"

record 'h retrieve_env =
  rx_hash :: "'h hash_lib"
  rx_zstd :: "bytes \<Rightarrow> io_error + stream"
  rx_header :: header_json
  rx_nanos :: "datetime \<Rightarrow> nanos"
  rx_lowercase :: "string \<Rightarrow> string"
  rx_text :: "RetrieveError \<Rightarrow> string"
  rx_parse_url :: "string \<Rightarrow> parsed_url option"

definition ensure :: "bool \<Rightarrow> string \<Rightarrow> ('s, RetrieveError, unit) comp" where
  "ensure b message = (if b then ok () else fail (Message message))"

definition manifest_path :: "path \<Rightarrow> string \<Rightarrow> ('s, RetrieveError, path) comp" where
  "manifest_path root v =
     (case safe_path root v of
        None \<Rightarrow> fail (Message (''unsafe manifest path: '' @ v)) | Some p \<Rightarrow> ok p)"

section \<open>Restoring one object\<close>

type_synonym 'a local_run = "(disk, RetrieveError, 'a) comp"

definition local_digest :: "'h retrieve_env \<Rightarrow> path \<Rightarrow> HashAlgorithm \<Rightarrow> string local_run" where
  "local_digest env p alg = (\<lambda>d.
     case digest_file disk_fs (rx_hash env) p alg (d, [] :: unit list) of
       (Inl e, (d', _)) \<Rightarrow> (Inl (CourierFailed e), d') | (Inr v, (d', _)) \<Rightarrow> (Inr v, d'))"

definition verify :: "'h retrieve_env \<Rightarrow> path \<Rightarrow> ManifestFile \<Rightarrow> unit local_run" where
  "verify env p file =
     bindE (map_errE IoFailed (metadata_len p)) (\<lambda>len.
     thenE (ensure (len = mf_size file) (''size mismatch: '' @ mf_path file))
     (bindE (local_digest env p (dg_algorithm (mf_digest file))) (\<lambda>value.
      thenE (ensure (value = dg_value (mf_digest file)) (''digest mismatch: '' @ mf_path file))
        (map_errE IoFailed (set_file_mtime p (rx_nanos env (mf_mtime file)))))))"

definition restore_file :: "'h retrieve_env \<Rightarrow> path \<Rightarrow> path \<Rightarrow> ManifestFile list \<Rightarrow> unit local_run" where
  "restore_file env cache partial expected =
     (case expected of
        [file] \<Rightarrow>
          thenE (ensure (tp_member_index (mf_transport file) = 0) ''invalid standalone object membership'')
          (bindE (manifest_path partial (mf_path file)) (\<lambda>output.
           case path_parent output of
             None \<Rightarrow> fail (Message ''missing file parent'')
           | Some parent \<Rightarrow>
               thenE (map_errE IoFailed (create_dir_all parent))
                 (thenE (map_errE IoFailed (copy_file cache output)) (verify env output file))))
      | _ \<Rightarrow> fail (Message ''invalid standalone object membership''))"

text \<open>\<^verbatim>\<open>io::copy\<close> of a member's reader: its bytes, then the reader's error if it has one.\<close>

definition copy_stream :: "stream \<Rightarrow> path \<Rightarrow> (disk, PackError, nat) comp" where
  "copy_stream content output =
     thenE (map_errE PackIo (write_all output (fst content)))
       (case snd content of Some e \<Rightarrow> fail (PackIo e) | None \<Rightarrow> ok (length (fst content)))"

definition nth_opt :: "'a list \<Rightarrow> nat \<Rightarrow> 'a option" where
  "nth_opt xs n = (if n < length xs then Some (xs ! n) else None)"

definition header_matches :: "PackMemberHeader \<Rightarrow> ManifestFile \<Rightarrow> nat \<Rightarrow> bool" where
  "header_matches header file seen \<longleftrightarrow>
     h_path header = mf_path file \<and> h_size header = mf_size file
     \<and> h_digest_algorithm header = dg_algorithm (mf_digest file)
     \<and> h_digest header = dg_value (mf_digest file)
     \<and> unat (tp_member_index (mf_transport file)) = seen"

definition restore_member ::
  "'h retrieve_env \<Rightarrow> path \<Rightarrow> ManifestFile list \<Rightarrow> nat \<Rightarrow> PackMemberHeader \<Rightarrow> stream
     \<Rightarrow> (disk, PackError, nat) comp" where
  "restore_member env partial expected seen header content =
     (case nth_opt expected seen of
        None \<Rightarrow> fail (pack_invalid_data ''pack has extra members'')
      | Some file \<Rightarrow>
          if \<not> header_matches header file seen
          then fail (pack_invalid_data ''pack member does not match the manifest'')
          else
            bindE (map_errE (\<lambda>e. pack_invalid_data (rx_text env e))
                     (manifest_path partial (mf_path file))) (\<lambda>output.
            case path_parent output of
              None \<Rightarrow> fail (pack_invalid_data ''missing file parent'')
            | Some parent \<Rightarrow>
                thenE (map_errE PackIo (create_dir_all parent))
                (thenE (map_errE PackIo (open_output False output))
                (bindE (copy_stream content output) (\<lambda>copied.
                 if of_nat copied \<noteq> mf_size file
                 then fail (pack_invalid_data ''pack member size mismatch'')
                 else thenE (map_errE (\<lambda>e. pack_invalid_data (rx_text env e)) (verify env output file))
                        (ok copied))))))"

definition member_step ::
  "'h retrieve_env \<Rightarrow> path \<Rightarrow> ManifestFile list \<Rightarrow> (disk \<times> nat) member_fn" where
  "member_step env partial expected c header content =
     (case restore_member env partial expected (snd c) header content (fst c) of
        (Inl e, d') \<Rightarrow> (Inl e, (d', snd c))
      | (Inr n, d') \<Rightarrow> (Inr n, (d', Suc (snd c))))"

text \<open>The open cache file is not written while the members are.\<close>

definition restore_pack :: "'h retrieve_env \<Rightarrow> path \<Rightarrow> path \<Rightarrow> ManifestFile list \<Rightarrow> unit local_run" where
  "restore_pack env cache partial expected =
     bindE (map_errE IoFailed (read_file cache)) (\<lambda>source.
     bindE (\<lambda>d. case decode_pack (rx_zstd env) (rx_header env) (member_step env partial expected) source (d, 0) of
              (Inl e, (d', _)) \<Rightarrow> (Inl (PackFailed e), d') | (Inr _, (d', seen)) \<Rightarrow> (Inr seen, d')) (\<lambda>seen.
       ensure (seen = length expected) ''pack omitted manifest members''))"

definition restore_object ::
  "'h retrieve_env \<Rightarrow> string \<Rightarrow> path \<Rightarrow> path \<Rightarrow> ManifestFile list \<Rightarrow> unit local_run" where
  "restore_object env object_kind cache partial expected =
     (if object_kind = ''file'' then restore_file env cache partial expected
      else if object_kind = ''pack'' then restore_pack env cache partial expected
      else fail (Message (''unsupported transport object kind: '' @ object_kind)))"

section \<open>Restoring the dataset\<close>

text \<open>The \<^verbatim>\<open>HashMap\<close> of the files of each object; its order is never used.\<close>

type_synonym groups = "(uuid \<times> ManifestFile list) list"

fun push_file :: "ManifestFile \<Rightarrow> groups \<Rightarrow> groups" where
  "push_file file [] = [(tp_object_id (mf_transport file), [file])]"
| "push_file file ((i, fs) # gs) =
     (if i = tp_object_id (mf_transport file) then (i, fs @ [file]) # gs
      else (i, fs) # push_file file gs)"

fun group_files ::
  "'h retrieve_env \<Rightarrow> path \<Rightarrow> ManifestFile list \<Rightarrow> string list \<Rightarrow> groups \<Rightarrow> ('s, RetrieveError, groups) comp" where
  "group_files env partial [] paths by_object = ok by_object"
| "group_files env partial (file # files) paths by_object =
     thenE (manifest_path partial (mf_path file))
     (thenE (ensure (rx_lowercase env (mf_path file) \<notin> set paths) (''duplicate manifest path: '' @ mf_path file))
       (group_files env partial files (rx_lowercase env (mf_path file) # paths) (push_file file by_object)))"

type_synonym ('w, 'a) retrieve_run = "(disk \<times> 'w client_state, RetrieveError, 'a) comp"

definition on_local :: "'a local_run \<Rightarrow> ('w, 'a) retrieve_run" where
  "on_local m = (\<lambda>(d, c). case m d of (r, d') \<Rightarrow> (r, (d', c)))"

abbreviation on_registry :: "('w client_state, RegistryError, 'a) comp \<Rightarrow> ('w, 'a) retrieve_run" where
  "on_registry m \<equiv> map_errE RegistryFailed (with_client m)"

definition never :: "'w \<Rightarrow> bool \<times> 'w" where
  "never w = (False, w)"

definition fetch_object ::
  "'h retrieve_env \<Rightarrow> 'w download_net \<Rightarrow> 'w RegistryClient \<Rightarrow> RegistryDownloadPlan \<Rightarrow> path
     \<Rightarrow> RegistryDownloadObject \<Rightarrow> ('w, unit) retrieve_run" where
  "fetch_object env net client plan cache_path object =
     bindE (on_registry (authorize_download_object client (dd_transfer_id (dp_dataset plan))
              (do_object_id object))) (\<lambda>authorized.
     case do_url authorized of
       None \<Rightarrow> fail (Message ''Registry omitted authorized object URL'')
     | Some url \<Rightarrow>
         bindE (map_errE RegistryFailed (download_object_resumable client net url cache_path
                  (do_transport_bytes object) never (\<lambda>_ w. w))) (\<lambda>received.
           ensure (case do_transport_bytes object of None \<Rightarrow> True | Some expected \<Rightarrow> received = expected)
             ''downloaded object has unexpected size''))"

fun retrieve_objects ::
  "'h retrieve_env \<Rightarrow> 'w download_net \<Rightarrow> 'w RegistryClient \<Rightarrow> RegistryDownloadPlan \<Rightarrow> path \<Rightarrow> path
     \<Rightarrow> RegistryDownloadObject list \<Rightarrow> groups \<Rightarrow> ('w, groups) retrieve_run" where
  "retrieve_objects env net client plan partial cache [] by_object = ok by_object"
| "retrieve_objects env net client plan partial cache (object # objects) by_object =
     (case map_of by_object (do_object_id object) of
        None \<Rightarrow> fail (Message (''manifest does not reference object '' @ uuid_to_string (do_object_id object)))
      | Some files \<Rightarrow>
          let cache_path = path_join cache (uuid_to_string (do_object_id object)) in
          thenE (fetch_object env net client plan cache_path object)
          (thenE (on_local (restore_object env (do_kind object) cache_path partial files))
          (thenE (on_local (map_errE IoFailed (remove_file cache_path)))
             (retrieve_objects env net client plan partial cache objects
                (filter (\<lambda>(i, _). i \<noteq> do_object_id object) by_object)))))"

definition sort_members :: "groups \<Rightarrow> groups" where
  "sort_members = map (\<lambda>(i, fs). (i, sort_key (\<lambda>f. tp_member_index (mf_transport f)) fs))"

definition restore ::
  "'h retrieve_env \<Rightarrow> 'w download_net \<Rightarrow> 'w RegistryClient \<Rightarrow> RegistryDownloadPlan \<Rightarrow> path \<Rightarrow> path
     \<Rightarrow> ('w, unit) retrieve_run" where
  "restore env net client plan partial cache =
     (case dec_manifest client (dp_manifest plan) of
        None \<Rightarrow> fail ManifestInvalid
      | Some files \<Rightarrow>
          thenE (ensure (of_nat (length files) = dd_file_count (dp_dataset plan))
                   ''manifest file count differs from verified dataset'')
          (bindE (group_files env partial files [] []) (\<lambda>by_object.
           bindE (retrieve_objects env net client plan partial cache (dp_objects plan)
                    (sort_members by_object)) (\<lambda>left.
             ensure (left = []) ''download plan omitted manifest objects''))))"

section \<open>The command\<close>

definition url_acceptable :: "parsed_url \<Rightarrow> bool" where
  "url_acceptable url \<longleftrightarrow>
     ur_scheme url = ''https''
     \<or> ur_scheme url = ''http''
       \<and> (case ur_host url of None \<Rightarrow> False
          | Some h \<Rightarrow> h = ''localhost'' \<or> h = ''127.0.0.1'' \<or> h = ''[::1]'')"

definition check_url :: "parsed_url option \<Rightarrow> ('s, RetrieveError, unit) comp" where
  "check_url parsed =
     (case parsed of
        None \<Rightarrow> fail (Message ''invalid Registry URL'')
      | Some url \<Rightarrow>
          thenE (ensure (url_acceptable url) ''Registry URL must use HTTPS except on loopback'')
            (ensure (ur_username url = [] \<and> ur_password url = None \<and> ur_query url = None
                       \<and> ur_fragment url = None)
               ''Registry URL must not contain credentials, a query, or a fragment''))"

definition destination_parent :: "path \<Rightarrow> path" where
  "destination_parent destination =
     (case path_parent destination of None \<Rightarrow> ''.'' | Some p \<Rightarrow> if p = [] then ''.'' else p)"

text \<open>The place of the result: the parent and the name, checked against the disk.\<close>

definition check_destination :: "path \<Rightarrow> (path \<times> string) local_run" where
  "check_destination destination =
     bindE (gets (path_exists destination)) (\<lambda>exists.
     thenE (ensure (\<not> exists) (''destination already exists: '' @ destination))
     (let parent = destination_parent destination in
      bindE (gets (path_is_dir parent)) (\<lambda>is_dir.
      thenE (ensure is_dir (''destination parent does not exist: '' @ parent))
      (case path_file_name destination of
         None \<Rightarrow> fail (Message ''destination must name a new directory'')
       | Some name \<Rightarrow> ok (parent, name)))))"

definition sibling :: "path \<Rightarrow> string \<Rightarrow> string \<Rightarrow> uuid \<Rightarrow> path" where
  "sibling parent name purpose i =
     path_join parent (''.'' @ name @ ''.courier-'' @ purpose @ ''-'' @ uuid_to_string i)"

text \<open>The anonymous client's invitation becomes a renewable session.\<close>

definition open_download_session ::
  "'w registry_env \<Rightarrow> string \<Rightarrow> string \<Rightarrow> ('w, 'w RegistryClient) retrieve_run" where
  "open_download_session renv registry invitation =
     (let observer = Some (\<lambda>_ w. (Inr (), w)) in
      bindE (on_registry (exchange_invitation (new_client renv registry None) (trim invitation)
               ''courier-cli-retrieve'')) (\<lambda>session.
      thenE (ensure (ss_purpose session = Download)
               ''the invitation does not grant read-only download access'')
      (thenE (on_registry (store_auth \<lparr>as_access_token = ss_access_token session,
                 as_refresh_token = Some (ss_refresh_token session)\<rparr>))
         (ok (new_client renv registry observer)))))"

text \<open>The work in the partial and cache directories, and the cleanup on every way out.\<close>

definition restore_to ::
  "'h retrieve_env \<Rightarrow> 'w download_net \<Rightarrow> 'w RegistryClient \<Rightarrow> RegistryDownloadPlan \<Rightarrow> path \<Rightarrow> path \<Rightarrow> path
     \<Rightarrow> ('w, unit) retrieve_run" where
  "restore_to env net client plan partial cache destination =
     thenE (on_local (map_errE IoFailed (create_dir partial)))
     (thenE (on_local (map_errE IoFailed (create_dir cache)))
     (bindE (tryE (restore env net client plan partial cache)) (\<lambda>result.
      thenE (on_local (tryE (remove_dir_all cache)))
      (case result of
         Inl error \<Rightarrow> thenE (on_local (tryE (remove_dir_all partial))) (fail error)
       | Inr _ \<Rightarrow>
           bindE (on_local (tryE (rename partial destination))) (\<lambda>renamed.
           case renamed of
             Inl error \<Rightarrow> thenE (on_local (tryE (remove_dir_all partial))) (fail (IoFailed error))
           | Inr _ \<Rightarrow> ok ())))))"

text \<open>The value is what the command prints: the transfer and the number of files.\<close>

definition retrieve_run ::
  "'h retrieve_env \<Rightarrow> 'w registry_env \<Rightarrow> 'w download_net \<Rightarrow> string option \<Rightarrow> uuid \<Rightarrow> uuid
     \<Rightarrow> string \<Rightarrow> string \<Rightarrow> path \<Rightarrow> ('w, string \<times> u64) retrieve_run" where
  "retrieve_run env renv net invitation partial_id cache_id registry transfer destination =
     thenE (check_url (rx_parse_url env registry))
     (bindE (on_local (check_destination destination)) (\<lambda>(parent, name).
      case invitation of
        None \<Rightarrow> fail (Message ''set COURIER_DOWNLOAD_INVITATION to a read-only download invitation'')
      | Some code \<Rightarrow>
          bindE (open_download_session renv registry code) (\<lambda>client.
          bindE (on_registry (download_plan client transfer)) (\<lambda>plan.
          thenE (ensure (dd_transfer_id (dp_dataset plan) = transfer) ''Registry returned a different transfer'')
          (thenE (restore_to env net client plan (sibling parent name ''partial'' partial_id)
                    (sibling parent name ''cache'' cache_id) destination)
             (ok (dd_transfer_id (dp_dataset plan), dd_file_count (dp_dataset plan))))))))"

end
