(* ===== verification/DownloadBehaviour.thy ===== *)
theory DownloadBehaviour
  imports Download
begin

text \<open>
  The resumable download against an object store that serves one object: whatever the network, the
  disk and the pause flag do, the partial file stays a prefix of the object, and the destination
  appears only as the whole object. The proof is a chain of total triples over the steps.
\<close>

section \<open>The store and the disk\<close>

text \<open>The bytes a body delivers before its first error; a body without an error delivers all.\<close>

fun body_bytes :: "(transport_error + bytes) list \<Rightarrow> bytes" where
  "body_bytes [] = []"
| "body_bytes (Inl e # items) = []"
| "body_bytes (Inr chunk # items) = chunk @ body_bytes items"

definition delivers :: "(transport_error + bytes) list \<Rightarrow> bytes \<Rightarrow> bool" where
  "delivers items obj \<longleftrightarrow>
     (\<exists>k. body_bytes items = take k obj) \<and> (list_all (\<lambda>x. \<not> isl x) items \<longrightarrow> body_bytes items = obj)"

text \<open>
  What the code relies on of the store: a success is a full answer (200) or a partial one (206) that
  names its range.
\<close>

definition serves_object :: "'w download_net \<Rightarrow> string \<Rightarrow> bytes \<Rightarrow> bool" where
  "serves_object net url obj \<longleftrightarrow>
     (\<forall>offset w timers response body_timers w'.
        dn_get net (get_request url offset) w = ((timers, Inr response, body_timers), w') \<longrightarrow>
        is_success (hr_status response) \<longrightarrow>
        (hr_status response = 200 \<and> delivers (hr_body response) obj)
        \<or> (hr_status response = 206
           \<and> (\<forall>m v. map_of (hr_headers response) ''content-range'' = Some v \<longrightarrow>
                starts_with v (''bytes '' @ decimal m @ ''-'') \<longrightarrow>
                m \<le> length obj \<and> delivers (hr_body response) (drop m obj))))"

definition gone :: "disk \<Rightarrow> path \<Rightarrow> path \<Rightarrow> disk \<Rightarrow> bool" where
  "gone d0 dest partial d \<longleftrightarrow> only {loc dest, loc partial} d0 d \<and> node_at d (loc dest) = None"

definition at_prefix :: "disk \<Rightarrow> path \<Rightarrow> path \<Rightarrow> bytes \<Rightarrow> disk \<Rightarrow> bool" where
  "at_prefix d0 dest partial obj d \<longleftrightarrow> gone d0 dest partial d
     \<and> (node_at d (loc partial) = None \<or> (\<exists>k. file_bytes d partial = Some (take k obj)))"

definition at_off :: "disk \<Rightarrow> path \<Rightarrow> path \<Rightarrow> bytes \<Rightarrow> nat \<Rightarrow> disk \<Rightarrow> bool" where
  "at_off d0 dest partial obj k d \<longleftrightarrow> gone d0 dest partial d \<and> k \<le> length obj
     \<and> file_bytes d partial = Some (take k obj)"

definition fetched :: "disk \<Rightarrow> path \<Rightarrow> path \<Rightarrow> bytes \<Rightarrow> disk \<Rightarrow> bool" where
  "fetched d0 dest partial obj d \<longleftrightarrow> only {loc dest, loc partial} d0 d
     \<and> file_bytes d dest = Some obj \<and> node_at d (loc partial) = None"

lemma gone_turn [simp]: "gone d0 dest partial (turn d) = gone d0 dest partial d"
  by (simp add: gone_def)

lemma at_turn [simp]:
  "at_prefix d0 dest partial obj (turn d) = at_prefix d0 dest partial obj d"
  "at_off d0 dest partial obj k (turn d) = at_off d0 dest partial obj k d"
  by (simp_all add: at_prefix_def at_off_def)

lemma at_off_prefix: "at_off d0 dest partial obj k d \<Longrightarrow> at_prefix d0 dest partial obj d"
  by (auto simp: at_off_def at_prefix_def)

lemma at_off_node:
  "at_off d0 dest partial obj k d \<Longrightarrow>
     \<exists>t. node_at d (loc partial) = Some (RegularFile (take k obj) t) \<and> loc partial \<noteq> [] \<and> loc partial \<noteq> [RootDir]"
  by (auto simp: at_off_def file_bytes_Some node_at_def)

section \<open>Disk steps\<close>

lemma hoare_disk_op:
  assumes "\<And>d. P d = P (turn d)" and "\<And>d e. P d \<Longrightarrow> E e d"
    and "\<And>d. P d \<Longrightarrow> case op d of (Inl e, d') \<Rightarrow> E e d' | (Inr x, d') \<Rightarrow> Q x d'"
  shows "hoare P (disk_op op) Q E"
proof -
  have "case disk_op op d of (Inl e, d') \<Rightarrow> E e d' | (Inr x, d') \<Rightarrow> Q x d'" if "P d" for d
    using that assms(1) [of d] assms(2) [of "turn d"] assms(3) [of "turn d"]
    by (simp add: disk_op_def split: option.split prod.split)
  then show ?thesis by (simp add: hoare_def)
qed

lemma sync_at_off:
  "hoare (at_off d0 dest partial obj k) (sync_file p) (\<lambda>_. at_off d0 dest partial obj k)
     (\<lambda>_. at_prefix d0 dest partial obj)"
  unfolding sync_file_def by (rule hoare_disk_op) (auto dest: at_off_prefix)

lemma append_at_off:
  assumes "at_off d0 dest partial obj k d" and "take (length bs) (drop k obj) = bs" and "loc dest \<noteq> loc partial"
  shows "at_off d0 dest partial obj (k + length bs) (append_bytes partial bs d)"
proof -
  from at_off_node [OF assms(1)] obtain t where
    n: "node_at d (loc partial) = Some (RegularFile (take k obj) t)" by blast
  have "only {loc dest, loc partial} d0 (append_bytes partial bs d)"
    using assms(1) by (intro only_append_bytes) (simp_all add: at_off_def gone_def)
  moreover have "node_at (append_bytes partial bs d) (loc dest) = node_at d (loc dest)"
    using n assms(3) by (simp add: append_bytes_def set_node_def node_at_def)
  moreover have "file_bytes (append_bytes partial bs d) partial = Some (take k obj @ bs)"
    using assms(1) by (intro file_bytes_append_bytes) (simp add: at_off_def)
  moreover have "take k obj @ bs = take (k + length bs) obj" using assms(2) by (metis take_add)
  moreover have "k + length bs \<le> length obj"
  proof -
    have "length (take (length bs) (drop k obj)) = length bs" using assms(2) by simp
    then have "length bs \<le> length obj - k" by simp
    then show ?thesis using assms(1) unfolding at_off_def by linarith
  qed
  ultimately show ?thesis using assms(1) by (simp add: at_off_def gone_def)
qed

lemma write_at_off:
  assumes "take (length chunk) (drop k obj) = chunk" and "loc dest \<noteq> loc partial"
  shows "hoare (at_off d0 dest partial obj k) (write_all partial chunk)
     (\<lambda>_. at_off d0 dest partial obj (k + length chunk)) (\<lambda>_. at_prefix d0 dest partial obj)"
proof -
  have "at_off d0 dest partial obj (k + length (take n chunk)) (append_bytes partial (take n chunk) d)"
    if "at_off d0 dest partial obj k d" for n d
  proof (rule append_at_off [OF that _ assms(2)])
    have "take (length (take n chunk)) (drop k obj) = take n (take (length chunk) (drop k obj))"
      by (simp add: min.commute)
    then show "take (length (take n chunk)) (drop k obj) = take n chunk" using assms(1) by simp
  qed
  note partly = at_off_prefix [OF this] and whole = append_at_off [OF _ assms]
  show ?thesis
  proof (rule hoareI)
    fix d x d' assume "at_off d0 dest partial obj k d" "write_all partial chunk d = (Inr x, d')"
    then show "at_off d0 dest partial obj (k + length chunk) d'"
      using whole by (simp add: write_all_def split: option.splits prod.splits) auto
  next
    fix d e d' assume "at_off d0 dest partial obj k d" "write_all partial chunk d = (Inl e, d')"
    then show "at_prefix d0 dest partial obj d'"
      using partly by (simp add: write_all_def split: option.splits prod.splits) auto
  qed
qed

lemma set_node_gone:
  assumes "gone d0 dest partial d" and "loc dest \<noteq> loc partial"
  shows "gone d0 dest partial (set_node (loc partial) n d)"
  using assms by (auto simp: gone_def node_at_def set_node_def only_def)

lemma open_truncated:
  assumes "loc dest \<noteq> loc partial"
  shows "hoare (at_prefix d0 dest partial obj) (open_output False partial) (\<lambda>_. at_off d0 dest partial obj 0)
     (\<lambda>_. at_prefix d0 dest partial obj)"
  unfolding open_output_def
proof (rule hoare_disk_op)
  fix d assume pre: "at_prefix d0 dest partial obj d"
  let ?new = "\<lambda>d. set_node (loc partial) (Some (RegularFile [] (now d))) d"
  have new: "at_off d0 dest partial obj 0 (?new d)" if "loc partial \<noteq> []" "loc partial \<noteq> [RootDir]"
    using pre set_node_gone [OF _ assms] that
    by (simp add: at_prefix_def at_off_def file_bytes_Some) (simp add: set_node_def)
  show "case (case node_at d (loc partial) of
     Some Directory \<Rightarrow> (Inl (other_io ''Is a directory''), d)
   | Some (RegularFile bs t) \<Rightarrow> if False then (Inr (), d) else (Inr (), ?new d)
   | None \<Rightarrow> if parent_is_dir d (loc partial) then (Inr (), ?new d) else (Inl not_found, d)) of
     (Inl e, d') \<Rightarrow> at_prefix d0 dest partial obj d' | (Inr x, d') \<Rightarrow> at_off d0 dest partial obj 0 d'"
    using pre new
    by (auto simp: at_prefix_def file_bytes_Some node_at_def split: option.splits node.splits if_splits)
qed auto

lemma open_appending:
  "hoare (at_off d0 dest partial obj k) (open_output True partial) (\<lambda>_. at_off d0 dest partial obj k)
     (\<lambda>_. at_prefix d0 dest partial obj)"
  unfolding open_output_def
proof (rule hoare_disk_op)
  fix d assume pre: "at_off d0 dest partial obj k d"
  then obtain t where "node_at d (loc partial) = Some (RegularFile (take k obj) t)"
    using at_off_node by blast
  then show "case (case node_at d (loc partial) of
     Some Directory \<Rightarrow> (Inl (other_io ''Is a directory''), d)
   | Some (RegularFile bs t) \<Rightarrow>
       if True then (Inr (), d) else (Inr (), set_node (loc partial) (Some (RegularFile [] (now d))) d)
   | None \<Rightarrow>
       if parent_is_dir d (loc partial)
       then (Inr (), set_node (loc partial) (Some (RegularFile [] (now d))) d) else (Inl not_found, d)) of
     (Inl e, d') \<Rightarrow> at_prefix d0 dest partial obj d' | (Inr x, d') \<Rightarrow> at_off d0 dest partial obj k d'"
    using pre by simp
qed (auto dest: at_off_prefix)

lemma rename_at_off:
  assumes "loc dest \<noteq> loc partial"
  shows "hoare (at_off d0 dest partial obj (length obj)) (rename partial dest) (\<lambda>_. fetched d0 dest partial obj)
     (\<lambda>_. at_prefix d0 dest partial obj)"
  unfolding rename_def
proof (rule hoare_disk_op)
  fix d assume pre: "at_off d0 dest partial obj (length obj) d"
  from at_off_node [OF pre] obtain t where n: "node_at d (loc partial) = Some (RegularFile obj t)"
    and r: "loc partial \<noteq> []" "loc partial \<noteq> [RootDir]" by auto
  have dest: "loc dest \<noteq> []" "loc dest \<noteq> [RootDir]" "only {loc dest, loc partial} d0 d"
    using pre by (auto simp: at_off_def gone_def node_at_def split: if_splits)
  have "fetched d0 dest partial obj
      (set_node (loc partial) None (set_node (loc dest) (Some (RegularFile obj t)) d))"
    using dest r assms
    by (auto simp: fetched_def file_bytes_Some node_at_def set_node_def only_def)
  then show "case (case node_at d (loc partial) of
     None \<Rightarrow> (Inl not_found, d)
   | Some n \<Rightarrow>
       if loc partial = loc dest then (Inr (), d)
       else if take (length (loc partial)) (loc dest) = loc partial \<or> \<not> can_replace d n (loc dest)
       then (Inl (other_io ''Directory not empty''), d)
       else (Inr (), case n of
          RegularFile _ _ \<Rightarrow> set_node (loc partial) None (set_node (loc dest) (Some n) d)
        | Directory \<Rightarrow> move_tree (loc partial) (loc dest) d)) of
     (Inl e, d') \<Rightarrow> at_prefix d0 dest partial obj d' | (Inr x, d') \<Rightarrow> fetched d0 dest partial obj d'"
    using n assms at_off_prefix [OF pre] by auto
qed (auto dest: at_off_prefix)

section \<open>Steps of a run\<close>

lemma hoare_client:
  "hoare (\<lambda>s. P (fst s)) (with_client m) (\<lambda>_ s. P (fst s)) (\<lambda>_ s. P (fst s))"
  by (auto simp: hoare_def with_client_def split: prod.split sum.split)

lemma hoare_pause: "hoare (\<lambda>s. P (fst s)) (pause_load load) (\<lambda>_ s. P (fst s)) (\<lambda>_ s. P (fst s))"
  unfolding pause_load_def by (rule hoare_client)

lemma hoare_report: "hoare (\<lambda>s. P (fst s)) (report observer n) (\<lambda>_ s. P (fst s)) (\<lambda>_ s. P (fst s))"
  unfolding report_def by (rule hoare_client)

lemma hoare_on_disk:
  "hoare P m Q (\<lambda>_. E) \<Longrightarrow> hoare (\<lambda>s. P (fst s)) (on_disk m) (\<lambda>x s. Q x (fst s)) (\<lambda>_ s. E (fst s))"
  by (force simp: hoare_def on_disk_def split: prod.splits sum.splits)

lemma hoare_error:
  "hoare P m Q E' \<Longrightarrow> (\<And>e s. E' e s \<Longrightarrow> E e s) \<Longrightarrow> hoare P m Q E"
  by (rule hoare_weaken [of P m Q E'])

lemma stop_paused_prefix:
  "hoare (\<lambda>s. at_off d0 dest partial obj k (fst s)) (stop_paused p) Q (\<lambda>_ s. at_prefix d0 dest partial obj (fst s))"
  unfolding stop_paused_def
  by (rule hoare_then [OF hoare_on_disk [OF sync_at_off] hoare_then [OF hoare_on_disk [OF sync_at_off]]])
    (auto intro: hoare_fail at_off_prefix)

definition items_of :: "'a option list \<Rightarrow> 'a list" where
  "items_of events = concat (map (\<lambda>e. case e of None \<Rightarrow> [] | Some x \<Rightarrow> [x]) events)"

lemma items_of_simps [simp]:
  "items_of [] = []" "items_of (None # es) = items_of es" "items_of (Some x # es) = x # items_of es"
  "items_of (es @ fs) = items_of es @ items_of fs" "items_of (replicate n None) = []"
  by (simp_all add: items_of_def)

lemma items_of_weave [simp]: "items_of (weave ns xs) = xs"
  by (induction ns xs rule: weave.induct) (auto split: list.splits)

lemma delivers_chunk:
  assumes "delivers (Inr chunk # items) obj"
  shows "take (length chunk) obj = chunk" and "delivers items (drop (length chunk) obj)"
proof -
  from assms obtain j where j: "chunk @ body_bytes items = take j obj" by (auto simp: delivers_def)
  then have "take (length chunk) (take j obj) = chunk" by (metis append_eq_conv_conj)
  moreover have "length chunk \<le> j \<or> length obj \<le> j"
    using arg_cong [OF j, of length] by auto
  ultimately show c: "take (length chunk) obj = chunk" by (auto simp: min_def split: if_splits)
  have "body_bytes items = drop (length chunk) (take j obj)" using j by (metis append_eq_conv_conj)
  then have "body_bytes items = take (j - length chunk) (drop (length chunk) obj)" by (simp add: drop_take)
  moreover have "body_bytes items = drop (length chunk) obj" if "list_all (\<lambda>x. \<not> isl x) items"
    using that assms by (simp add: delivers_def) (metis append_eq_conv_conj)
  ultimately show "delivers items (drop (length chunk) obj)" unfolding delivers_def by blast
qed

lemma receive_prefix:
  assumes "loc dest \<noteq> loc partial" and "length obj < 2 ^ 64" and "k \<le> length obj"
    and "delivers (items_of events) (drop k obj)"
  shows "hoare (\<lambda>s. at_off d0 dest partial obj k (fst s)) (receive pause observer partial (of_nat k) events)
     (\<lambda>n s. at_off d0 dest partial obj (length obj) (fst s) \<and> n = of_nat (length obj))
     (\<lambda>_ s. at_prefix d0 dest partial obj (fst s))"
  using assms(3,4)
proof (induction events arbitrary: k)
  case Nil
  then have "k = length obj" by (auto simp: delivers_def)
  then show ?case by (auto intro: hoare_ok)
next
  case (Cons ev events)
  let ?P = "\<lambda>k s. at_off d0 dest partial obj k (fst s)"
  have pause: "hoare (?P k) (pause_load pause) (\<lambda>_. ?P k) (\<lambda>_ s. at_prefix d0 dest partial obj (fst s))"
    by (rule hoare_error [OF hoare_pause]) (rule at_off_prefix)
  consider "ev = None" | e where "ev = Some (Inl e)" | chunk where "ev = Some (Inr chunk)"
    by (metis option.exhaust sum.exhaust)
  then show ?case
  proof cases
    case 1
    then show ?thesis using Cons
      by (auto intro!: hoare_bind [OF pause] hoare_if stop_paused_prefix)
  next
    case 2
    then show ?thesis by (auto intro: hoare_fail at_off_prefix)
  next
    case 3
    then have "delivers (Inr chunk # items_of events) (drop k obj)" using Cons.prems by simp
    note chunk = delivers_chunk [OF this]
    have len: "k + length chunk \<le> length obj"
      using arg_cong [OF chunk(1), of length] Cons.prems(1) by (auto simp: min_def split: if_splits)
    have sum: "saturating_add (of_nat k) (of_nat (length chunk)) = (of_nat (k + length chunk) :: u64)"
      using len assms(2) by (simp add: saturating_add_def unat_of_nat)
    have rest: "hoare (?P (k + length chunk)) (receive pause observer partial (of_nat (k + length chunk)) events)
       (\<lambda>n s. at_off d0 dest partial obj (length obj) (fst s) \<and> n = of_nat (length obj))
       (\<lambda>_ s. at_prefix d0 dest partial obj (fst s))"
      using chunk(2) len by (intro Cons.IH) (simp_all add: add.commute)
    have told: "hoare (?P j) (report observer n) (\<lambda>_. ?P j) (\<lambda>_ s. at_prefix d0 dest partial obj (fst s))" for j n
      by (rule hoare_error [OF hoare_report]) (rule at_off_prefix)
    show ?thesis
      unfolding 3 receive.simps Let_def sum
      by (intro hoare_bind [OF pause] hoare_if stop_paused_prefix
          hoare_then [OF hoare_on_disk [OF write_at_off [OF chunk(1) assms(1)]]] hoare_then [OF told] rest)
  qed
qed

section \<open>The download\<close>

lemma store_body_prefix:
  assumes "loc dest \<noteq> loc partial" and "length obj < 2 ^ 64" and "k \<le> length obj"
    and "delivers items (drop k obj)" and "\<not> appending \<Longrightarrow> k = 0"
  shows "hoare (\<lambda>s. if appending then at_off d0 dest partial obj k (fst s) else at_prefix d0 dest partial obj (fst s))
     (store_body pause observer partial (of_nat k) appending (weave timers items))
     (\<lambda>n s. at_off d0 dest partial obj (length obj) (fst s) \<and> n = of_nat (length obj))
     (\<lambda>_ s. at_prefix d0 dest partial obj (fst s))"
proof -
  let ?E = "\<lambda>_ s. at_prefix d0 dest partial obj (fst s)"
  let ?P = "\<lambda>j s. at_off d0 dest partial obj j (fst s)"
  have opened: "hoare (\<lambda>s. if appending then ?P k s else ?E () s) (on_disk (open_output appending partial))
      (\<lambda>_. ?P k) ?E"
    using hoare_on_disk [OF open_appending, of d0 dest partial obj k]
      hoare_on_disk [OF open_truncated [OF assms(1)], of d0 obj] assms(5)
    by (cases appending) simp_all
  have seek: "hoare (?P k) (if appending then on_disk (sync_file partial) else ok ()) (\<lambda>_. ?P k) ?E"
    by (auto intro: hoare_on_disk [OF sync_at_off] hoare_ok)
  have told: "hoare (?P k) (report observer (of_nat k)) (\<lambda>_. ?P k) ?E"
    by (rule hoare_error [OF hoare_report]) (rule at_off_prefix)
  have body: "hoare (?P k) (receive pause observer partial (of_nat k) (weave timers items))
      (\<lambda>n s. ?P (length obj) s \<and> n = of_nat (length obj)) ?E"
    using assms by (intro receive_prefix) simp_all
  have close: "hoare (\<lambda>s. ?P (length obj) s \<and> n = of_nat (length obj))
      (thenE (on_disk (sync_file partial)) (thenE (on_disk (sync_file partial)) (ok n)))
      (\<lambda>n s. ?P (length obj) s \<and> n = of_nat (length obj)) ?E" for n
    by (intro hoare_assume hoare_then [OF hoare_on_disk [OF sync_at_off]] hoare_ok) simp
  show ?thesis
    unfolding store_body_def
    by (rule hoare_then [OF opened hoare_then [OF seek hoare_then [OF told hoare_bind [OF body close]]]])
qed

lemma wait_answer_keeps:
  "hoare (\<lambda>s. P (fst s)) (wait_answer pause n) (\<lambda>_ s. P (fst s)) (\<lambda>_ s. P (fst s))"
  by (induction n) (auto intro!: hoare_ok hoare_fail hoare_bind [OF hoare_pause])

text \<open>The answer of a request comes from the network.\<close>

lemma send_get_answer:
  "hoare (\<lambda>s. P (fst s)) (send_get net pause request)
     (\<lambda>(response, body_timers) s. P (fst s)
        \<and> (\<exists>w timers w'. dn_get net request w = ((timers, Inr response, body_timers), w')))
     (\<lambda>_ s. P (fst s))"
proof -
  let ?got = "\<lambda>x s. P (fst s) \<and> (\<exists>w w'. dn_get net request w = (x, w'))"
  have ask: "hoare (\<lambda>s. P (fst s)) (with_client (\<lambda>s. case dn_get net request (cs_world s) of
              (answer, w') \<Rightarrow> (Inr answer, s\<lparr>cs_world := w'\<rparr>))) ?got (\<lambda>_ s. P (fst s))"
    by (auto simp: hoare_def with_client_def split: prod.split)
  have tail: "hoare (?got (timers, answer, body_timers))
      (thenE (wait_answer pause timers)
        (thenE (with_client (trace_event (Sent request answer)))
          (case answer of Inl e \<Rightarrow> fail (Transport e) | Inr response \<Rightarrow> ok (response, body_timers))))
      (\<lambda>(response, body_timers) s. P (fst s)
        \<and> (\<exists>w timers w'. dn_get net request w = ((timers, Inr response, body_timers), w')))
      (\<lambda>_ s. P (fst s))" for timers answer body_timers
    by (rule hoare_assume, rule hoare_then [OF wait_answer_keeps], rule hoare_then [OF hoare_client])
      (auto split: sum.split intro!: hoare_ok hoare_fail)
  show ?thesis
    unfolding send_get_def by (rule hoare_bind [OF ask]) (auto intro: tail split: prod.split)
qed

lemma bind_lift: "bindE (lift_res (Inr x)) f = f x"
  by (simp add: bindE_def lift_res_def)

lemma bind_ok: "bindE (ok x) f = f x"
  by (simp add: bindE_def ok_def)

lemma resume_mode_Inr:
  assumes "resume_mode offset response = Inr (offset', appending)"
  shows "appending \<and> offset' = offset \<and> 0 < offset \<and> hr_status response = 206
      \<and> (\<exists>v. map_of (hr_headers response) ''content-range'' = Some v
           \<and> starts_with v (''bytes '' @ decimal (unat offset) @ ''-''))
    \<or> \<not> appending \<and> hr_status response \<noteq> 206 \<and> (hr_status response = 200 \<longrightarrow> offset' = 0)"
proof (cases "offset > 0 \<and> hr_status response = 206")
  case True
  let ?h = "map_of (hr_headers response) ''content-range''"
  let ?range = "case Option.bind ?h to_str of None \<Rightarrow> '''' | Some v \<Rightarrow> v"
  have "starts_with ?range (''bytes '' @ decimal (unat offset) @ ''-'')" and "offset' = offset" and appending
    using assms True by (auto simp: resume_mode_def Let_def split: if_splits)
  moreover from this(1) have "?h = Some ?range"
    by (cases ?h) (auto simp: starts_with_def to_str_def split: if_splits)
  ultimately show ?thesis using True by metis
next
  case False
  then show ?thesis using assms
    by (auto simp: resume_mode_def word_gt_0 split: if_splits)
qed

lemma fetch_rest_prefix:
  assumes "loc dest \<noteq> loc partial" and "length obj < 2 ^ 64" and "serves_object net url obj"
    and "expected = None \<or> expected = Some (of_nat (length obj))"
  shows "hoare (\<lambda>s. if offset = 0 then at_prefix d0 dest partial obj (fst s)
                    else at_off d0 dest partial obj (unat offset) (fst s))
     (fetch_rest self net url dest partial expected pause observer offset)
     (\<lambda>n s. fetched d0 dest partial obj (fst s) \<and> n = of_nat (length obj))
     (\<lambda>_ s. at_prefix d0 dest partial obj (fst s))"
proof -
  let ?E = "\<lambda>_ s. at_prefix d0 dest partial obj (fst s)"
  let ?pre = "\<lambda>s. if offset = 0 then at_prefix d0 dest partial obj (fst s)
                  else at_off d0 dest partial obj (unat offset) (fst s)"
  have weak: "?pre s \<Longrightarrow> at_prefix d0 dest partial obj (fst s)" for s
    using at_off_prefix by (auto split: if_splits)
  have finish: "hoare (\<lambda>s. at_off d0 dest partial obj (length obj) (fst s) \<and> n = of_nat (length obj))
      (if (case expected of None \<Rightarrow> False | Some expected \<Rightarrow> expected \<noteq> n) then
         fail (State (''downloaded object has '' @ decimal (unat n) @ '' bytes; expected ''
                 @ decimal (unat (case expected of None \<Rightarrow> 0 | Some n \<Rightarrow> n))))
       else thenE (on_disk (rename partial dest)) (ok n))
      (\<lambda>n s. fetched d0 dest partial obj (fst s) \<and> n = of_nat (length obj)) ?E" for n
    using assms(4)
    by (intro hoare_assume) (auto intro!: hoare_then [OF hoare_on_disk [OF rename_at_off [OF assms(1)]]] hoare_ok)
  have body: "hoare ?pre
      (bindE (lift_res (resume_mode offset response)) (\<lambda>(offset, appending).
         bindE (store_body pause observer partial offset appending (weave body_timers (hr_body response))) (\<lambda>n.
           if (case expected of None \<Rightarrow> False | Some expected \<Rightarrow> expected \<noteq> n) then
             fail (State (''downloaded object has '' @ decimal (unat n) @ '' bytes; expected ''
                     @ decimal (unat (case expected of None \<Rightarrow> 0 | Some n \<Rightarrow> n))))
           else thenE (on_disk (rename partial dest)) (ok n))))
      (\<lambda>n s. fetched d0 dest partial obj (fst s) \<and> n = of_nat (length obj)) ?E"
    if success: "is_success (hr_status response)"
      and answer: "dn_get net (get_request url offset) w = ((timers, Inr response, body_timers), w')"
    for response body_timers w timers w'
  proof (cases "resume_mode offset response")
    case (Inl e)
    have "hoare ?pre (lift_res (Inl e)) (\<lambda>_ _. False) ?E" by (rule hoare_lift_res) (auto dest: weak)
    then show ?thesis unfolding Inl by (rule hoare_bind) (simp add: hoare_def)
  next
    case (Inr mode)
    obtain offset' appending where mode: "mode = (offset', appending)" by force
    have "unat offset' \<le> length obj \<and> delivers (hr_body response) (drop (unat offset') obj)
        \<and> (\<not> appending \<longrightarrow> offset' = 0) \<and> (appending \<longrightarrow> offset' = offset \<and> 0 < offset)"
    proof -
      from assms(3) success answer consider (full) "hr_status response = 200" "delivers (hr_body response) obj"
        | (range) "hr_status response = 206" "\<And>m v. map_of (hr_headers response) ''content-range'' = Some v \<Longrightarrow>
            starts_with v (''bytes '' @ decimal m @ ''-'') \<Longrightarrow>
            m \<le> length obj \<and> delivers (hr_body response) (drop m obj)"
        unfolding serves_object_def by blast
      then show ?thesis
        using resume_mode_Inr [OF Inr [unfolded mode]] by cases auto
    qed
    then have facts: "unat offset' \<le> length obj" "delivers (hr_body response) (drop (unat offset') obj)"
      "\<not> appending \<Longrightarrow> unat offset' = 0" "appending \<Longrightarrow> offset' = offset \<and> 0 < offset" by auto
    have "hoare ?pre (store_body pause observer partial offset' appending (weave body_timers (hr_body response)))
      (\<lambda>n s. at_off d0 dest partial obj (length obj) (fst s) \<and> n = of_nat (length obj)) ?E"
      using facts weak
      by (intro hoare_pre [OF store_body_prefix [OF assms(1,2) facts(1-3), simplified]])
        (auto simp: word_gt_0 split: if_splits)
    then show ?thesis
      unfolding Inr mode bind_lift prod.case by (rule hoare_bind [OF _ finish])
  qed
  let ?P = "\<lambda>d. if offset = 0 then at_prefix d0 dest partial obj d
                else at_off d0 dest partial obj (unat offset) d"
  have sent: "hoare ?pre (send_get net pause (get_request url offset))
     (\<lambda>(response, body_timers) s. ?pre s
        \<and> (\<exists>w timers w'. dn_get net (get_request url offset) w = ((timers, Inr response, body_timers), w')))
     ?E"
    by (rule hoare_error [OF send_get_answer [of ?P]]) (rule weak)
  show ?thesis
    unfolding fetch_rest_def
  proof (rule hoare_bind [OF sent], clarify, rule hoare_assume, clarify)
    fix response body_timers w timers w'
    assume answer: "dn_get net (get_request url offset) w = ((timers, Inr response, body_timers), w')"
    show "hoare ?pre
       (if \<not> is_success (hr_status response) then
          fail (State (store_error_to_string (map_object_store_response self response)))
        else bindE (lift_res (resume_mode offset response)) (\<lambda>(offset, appending).
          bindE (store_body pause observer partial offset appending (weave body_timers (hr_body response))) (\<lambda>n.
            if (case expected of None \<Rightarrow> False | Some expected \<Rightarrow> expected \<noteq> n) then
              fail (State (''downloaded object has '' @ decimal (unat n) @ '' bytes; expected ''
                      @ decimal (unat (case expected of None \<Rightarrow> 0 | Some n \<Rightarrow> n))))
            else thenE (on_disk (rename partial dest)) (ok n))))
       (\<lambda>n s. fetched d0 dest partial obj (fst s) \<and> n = of_nat (length obj)) ?E"
      by (rule hoare_if) (use body [OF _ answer] weak in \<open>auto intro: hoare_fail\<close>)
  qed
qed

text \<open>How much of the partial file is there.\<close>

lemma metadata_partial:
  assumes "length obj < 2 ^ 64"
  shows "hoare (at_prefix d0 dest partial obj) (tryE (metadata_len partial))
     (\<lambda>found d. let offset = (case found of Inl _ \<Rightarrow> 0 | Inr n \<Rightarrow> n) in
        (if offset = 0 then at_prefix d0 dest partial obj d
          else at_off d0 dest partial obj (unat offset) d) \<and> unat offset \<le> length obj)
     E"
proof (rule hoareI)
  fix d found d' assume pre: "at_prefix d0 dest partial obj d"
    and run: "tryE (metadata_len partial) d = (Inr found, d')"
  have at: "at_off d0 dest partial obj k d" if "file_bytes d partial = Some (take k obj)" "k \<le> length obj" for k
    using pre that by (simp add: at_prefix_def at_off_def)
  from pre consider (none) "node_at d (loc partial) = None"
    | (some) k t where "k \<le> length obj" "node_at d (loc partial) = Some (RegularFile (take k obj) t)"
        "file_bytes d partial = Some (take k obj)"
    by (auto simp: at_prefix_def file_bytes_Some node_at_def) (metis linear take_all)
  then show "let offset = (case found of Inl _ \<Rightarrow> 0 | Inr n \<Rightarrow> n) in
        (if offset = 0 then at_prefix d0 dest partial obj d'
          else at_off d0 dest partial obj (unat offset) d') \<and> unat offset \<le> length obj"
  proof cases
    case none
    then show ?thesis using run pre
      by (auto simp: tryE_def metadata_len_def disk_op_def split: option.splits)
  next
    case some
    have u: "unat (of_nat k :: u64) = k" using some(1) assms by (simp add: unat_of_nat)
    then show ?thesis using run pre some at [OF some(3,1)]
      by (auto simp: tryE_def metadata_len_def disk_op_def Let_def min_def split: option.splits)
  qed
qed (simp add: tryE_iff)

lemma resume_partial_prefix:
  assumes "loc dest \<noteq> loc partial" and "length obj < 2 ^ 64" and "serves_object net url obj"
    and "expected = None \<or> expected = Some (of_nat (length obj))"
  shows "hoare (\<lambda>s. at_prefix d0 dest partial obj (fst s))
     (resume_partial self net url dest partial expected pause observer)
     (\<lambda>n s. fetched d0 dest partial obj (fst s) \<and> n = of_nat (length obj))
     (\<lambda>_ s. at_prefix d0 dest partial obj (fst s))"
proof -
  let ?E = "\<lambda>_ s. at_prefix d0 dest partial obj (fst s)"
  let ?P = "\<lambda>offset s. if offset = (0 :: u64) then at_prefix d0 dest partial obj (fst s)
          else at_off d0 dest partial obj (unat offset) (fst s)"
  have found: "hoare (\<lambda>s. at_prefix d0 dest partial obj (fst s)) (on_disk (tryE (metadata_len partial)))
      (\<lambda>found s. ?P (case found of Inl _ \<Rightarrow> 0 | Inr n \<Rightarrow> n) s
         \<and> unat (case found of Inl _ \<Rightarrow> (0::u64) | Inr n \<Rightarrow> n) \<le> length obj) ?E"
    using hoare_on_disk [OF metadata_partial [OF assms(2)], of d0 dest partial "at_prefix d0 dest partial obj"]
    unfolding Let_def .
  have weak: "?P offset s \<Longrightarrow> at_prefix d0 dest partial obj (fst s)" for offset s
    using at_off_prefix by (auto split: if_splits)
  have pause: "hoare (?P offset) (pause_load pause) (\<lambda>_. ?P offset) ?E" for offset
    by (rule hoare_error [OF hoare_pause [of "\<lambda>d. if offset = 0 then at_prefix d0 dest partial obj d
          else at_off d0 dest partial obj (unat offset) d"]]) (rule weak)
  have rest: "hoare (?P offset)
      (bindE (pause_load pause) (\<lambda>paused.
         if paused then fail RegistryError.Paused
         else if expected = Some offset \<and> offset > 0 then
           thenE (on_disk (rename partial dest)) (thenE (report observer offset) (ok offset))
         else fetch_rest self net url dest partial expected pause observer offset))
      (\<lambda>n s. fetched d0 dest partial obj (fst s) \<and> n = of_nat (length obj)) ?E" for offset
  proof (rule hoare_bind [OF pause], intro hoare_if)
    show "hoare (?P offset) (fail RegistryError.Paused)
        (\<lambda>n s. fetched d0 dest partial obj (fst s) \<and> n = of_nat (length obj)) ?E"
      by (rule hoare_fail) (rule weak)
    show "hoare (?P offset) (fetch_rest self net url dest partial expected pause observer offset)
        (\<lambda>n s. fetched d0 dest partial obj (fst s) \<and> n = of_nat (length obj)) ?E"
      by (rule fetch_rest_prefix [OF assms])
  next
    assume whole: "expected = Some offset \<and> offset > 0"
    then have u: "unat offset = length obj" "offset = of_nat (length obj)" "offset \<noteq> 0"
      using assms(2,4) by (auto simp: unat_of_nat)
    have told: "hoare (\<lambda>s. fetched d0 dest partial obj (fst s)) (report observer offset)
        (\<lambda>_ s. fetched d0 dest partial obj (fst s)) ?E"
      by (auto simp: hoare_def report_def with_client_def modifies_def)
    have "hoare (\<lambda>s. at_off d0 dest partial obj (length obj) (fst s))
        (thenE (on_disk (rename partial dest)) (thenE (report observer offset) (ok offset)))
        (\<lambda>n s. fetched d0 dest partial obj (fst s) \<and> n = of_nat (length obj)) ?E"
      by (rule hoare_then [OF hoare_on_disk [OF rename_at_off [OF assms(1)]] hoare_then [OF told]])
        (rule hoare_ok, simp add: u(2))
    then show "hoare (?P offset)
        (thenE (on_disk (rename partial dest)) (thenE (report observer offset) (ok offset)))
        (\<lambda>n s. fetched d0 dest partial obj (fst s) \<and> n = of_nat (length obj)) ?E"
      using u by simp
  qed
  show ?thesis
    unfolding resume_partial_def Let_def
  proof (rule hoare_bind [OF found], rule hoare_assume)
    fix found :: "io_error + u64"
    let ?o = "case found of Inl _ \<Rightarrow> 0 | Inr n \<Rightarrow> n"
    assume le: "unat ?o \<le> length obj"
    have small: "\<not> (case expected of None \<Rightarrow> False | Some e \<Rightarrow> ?o > e)"
      using le assms(2,4) by (auto simp: word_less_nat_alt unat_of_nat)
    show "hoare (?P ?o)
       (bindE (if (case expected of None \<Rightarrow> False | Some e \<Rightarrow> ?o > e)
               then thenE (on_disk (remove_file partial)) (ok 0) else ok ?o) (\<lambda>offset.
          bindE (pause_load pause) (\<lambda>paused.
            if paused then fail RegistryError.Paused
            else if expected = Some offset \<and> offset > 0 then
              thenE (on_disk (rename partial dest)) (thenE (report observer offset) (ok offset))
            else fetch_rest self net url dest partial expected pause observer offset)))
       (\<lambda>n s. fetched d0 dest partial obj (fst s) \<and> n = of_nat (length obj)) ?E"
      unfolding if_not_P [OF small] bind_ok by (rule rest)
  qed
qed

lemma download_prefix:
  assumes "loc dest \<noteq> loc (with_extension dest ''part'')" and "length obj < 2 ^ 64"
    and "serves_object net url obj" and "expected = None \<or> expected = Some (of_nat (length obj))"
  shows "hoare (\<lambda>s. at_prefix d0 dest (with_extension dest ''part'') obj (fst s))
     (download_object_resumable self net url dest expected pause observer)
     (\<lambda>n s. fetched d0 dest (with_extension dest ''part'') obj (fst s) \<and> n = of_nat (length obj))
     (\<lambda>_ s. at_prefix d0 dest (with_extension dest ''part'') obj (fst s))"
proof -
  let ?pre = "\<lambda>s. at_prefix d0 dest (with_extension dest ''part'') obj (fst s)"
  have absent: "hoare ?pre (on_disk (tryE (metadata_len dest)))
      (\<lambda>found s. ?pre s \<and> (\<exists>e. found = Inl e)) (\<lambda>_ s. at_prefix d0 dest (with_extension dest ''part'') obj (fst s))"
  proof (rule hoare_on_disk, rule hoareI)
    fix d x d' assume "at_prefix d0 dest (with_extension dest ''part'') obj d"
      "tryE (metadata_len dest) d = (Inr x, d')"
    then show "at_prefix d0 dest (with_extension dest ''part'') obj d' \<and> (\<exists>e. x = Inl e)"
      by (auto simp: tryE_def metadata_len_def disk_op_def at_prefix_def gone_def split: option.splits)
  qed (simp add: tryE_iff)
  show ?thesis
    unfolding download_object_resumable_def Let_def
    by (rule hoare_bind [OF absent], rule hoare_assume) (use resume_partial_prefix [OF assms] in auto)
qed

end
