(* ===== verification/DiskFrames.thy ===== *)
theory DiskFrames
  imports DownloadBehaviour
begin

text \<open>
  What the retrieve command needs to know of paths and disks: the locations of parents, children and
  safe paths, and the frame of every disk operation, that is the nodes it may change and the regular
  files it may touch.
\<close>

section \<open>Locations\<close>

definition canonical_component :: "Component \<Rightarrow> bool" where
  "canonical_component c = (case c of ParentDir \<Rightarrow> True | Normal w \<Rightarrow> plain_name w | _ \<Rightarrow> False)"

definition canonical :: "Component list \<Rightarrow> bool" where
  "canonical cs \<longleftrightarrow> (case cs of [] \<Rightarrow> True
     | c # rest \<Rightarrow> (c = RootDir \<or> c = CurDir \<or> canonical_component c) \<and> list_all canonical_component rest)"

lemma canonical_body: "CHR ''/'' \<notin> set w \<Longrightarrow> list_all canonical_component (body_component w)"
  by (auto simp: canonical_component_def plain_name_def)

lemma canonical_bodies:
  "(\<And>w. w \<in> set ws \<Longrightarrow> CHR ''/'' \<notin> set w) \<Longrightarrow> list_all canonical_component (concat (map body_component ws))"
  by (induction ws) (auto simp del: body_component.simps intro: canonical_body)

lemma canonical_components: "canonical (components p)"
proof -
  have "list_all canonical_component (concat (map body_component (split_on (CHR ''/'') p)))"
    by (rule canonical_bodies) (rule split_on_parts)
  then show ?thesis
    by (auto simp: components_def canonical_def Let_def simp del: body_component.simps split: list.split)
qed

lemma canonical_butlast: "canonical cs \<Longrightarrow> canonical (butlast cs)"
  by (cases cs) (auto simp: canonical_def list_all_iff dest: in_set_butlastD)

lemma canonical_snoc: "canonical cs \<Longrightarrow> plain_name w \<Longrightarrow> canonical (cs @ [Normal w])"
  by (cases cs) (auto simp: canonical_def canonical_component_def)

lemma canonical_text:
  "canonical_component c \<Longrightarrow> component_text c \<noteq> '''' \<and> component_text c \<noteq> ''.''
     \<and> CHR ''/'' \<notin> set (component_text c) \<and> body_component (component_text c) = [c]"
  by (cases c) (auto simp: canonical_component_def plain_name_def)

lemma canonical_texts:
  "list_all canonical_component cs \<Longrightarrow>
     concat (map body_component (map component_text cs)) = cs
     \<and> (\<forall>w \<in> set (map component_text cs). CHR ''/'' \<notin> set w)"
  by (induction cs) (auto simp: canonical_text simp del: body_component.simps)

lemma hd_join: "w \<noteq> [] \<Longrightarrow> join_with sep (w # ws) \<noteq> [] \<and> hd (join_with sep (w # ws)) = hd w"
  by (cases ws) auto

lemma components_render:
  assumes "canonical cs"
  shows "components (render cs) = cs"
proof (cases cs)
  case Nil
  then show ?thesis by (simp add: render_def components_def is_absolute_def)
next
  case (Cons c rest)
  then have rest: "list_all canonical_component rest" using assms by (simp add: canonical_def)
  note texts = canonical_texts [OF rest]
  let ?ws = "map component_text cs"
  have split: "split_on (CHR ''/'') (join_with ''/'' ?ws) = ?ws"
    using Cons texts assms
    by (intro split_on_join) (auto simp: canonical_def dest: canonical_text)
  consider "c = RootDir" "rest = []" | "c = RootDir" "rest \<noteq> []" | "c = CurDir" | "canonical_component c"
    using assms Cons by (auto simp: canonical_def)
  then show ?thesis
  proof cases
    case 1
    then show ?thesis using Cons by (simp add: render_def components_def is_absolute_def)
  next
    case 2
    then have "is_absolute (join_with ''/'' ?ws)"
      using Cons by (cases rest) (simp_all add: is_absolute_def)
    then show ?thesis using 2 Cons texts split
      by (simp add: render_def components_def Let_def)
  next
    case 3
    then have "\<not> is_absolute (join_with ''/'' ?ws)"
      using Cons by (cases rest) (simp_all add: is_absolute_def)
    then show ?thesis using 3 Cons texts split
      by (simp add: render_def components_def Let_def)
  next
    case 4
    note c = canonical_text [OF 4]
    then have "hd (component_text c) \<noteq> CHR ''/''" by (cases "component_text c") auto
    then have "\<not> is_absolute (join_with ''/'' ?ws)"
      using Cons c hd_join [of "component_text c" "''/''" "map component_text rest"]
      by (simp add: is_absolute_def)
    moreover have "c \<noteq> RootDir" using 4 by (auto simp: canonical_component_def)
    ultimately show ?thesis using Cons c texts split
      by (simp add: render_def components_def Let_def del: body_component.simps)
  qed
qed

lemma loc_render: "canonical cs \<Longrightarrow> loc (render cs) = filter (\<lambda>c. c \<noteq> CurDir) cs"
  by (simp add: loc_def components_render)

lemma plain_single: "plain_name w \<Longrightarrow> components w = [Normal w] \<and> \<not> is_absolute w \<and> split_on (CHR ''/'') w = [w]"
  using components_join_plain [of "[w]"] by simp

lemma loc_join_name: "plain_name w \<Longrightarrow> loc (path_join p w) = loc p @ [Normal w]"
  using components_path_join [of w p] plain_single [of w] by (simp add: loc_def plain_name_def)

lemma loc_safe_path: "safe_path root v = Some p \<Longrightarrow> loc p = loc root @ map Normal (split_on (CHR ''/'') v)"
  using safe_path_Some(3) [of root v p] by (simp add: loc_def comp_def)

lemma path_parent_Some:
  assumes "path_parent p = Some q"
  shows "components p \<noteq> [] \<and> components q = butlast (components p) \<and> last (components p) \<noteq> RootDir"
proof -
  from assms obtain c rest where c: "rev (components p) = c # rest" "c \<noteq> RootDir" "q = render (rev rest)"
    by (auto simp: path_parent_def split: list.splits Component.splits)
  then have p: "components p = rev rest @ [c]" by (metis rev.simps(2) rev_swap)
  then have "canonical (rev rest)" using canonical_butlast [OF canonical_components [of p]] by simp
  then show ?thesis using c p by (simp add: components_render)
qed

lemma split_nonempty: "split_on c v \<noteq> []"
  by simp

lemma loc_parent_safe:
  assumes "safe_path root v = Some p" and "path_parent p = Some q"
  shows "loc q = butlast (loc p)"
proof -
  have "components p = components root @ map Normal (split_on (CHR ''/'') v)"
    by (rule safe_path_Some(3) [OF assms(1)])
  moreover have "components q = butlast (components p)" using path_parent_Some [OF assms(2)] by simp
  ultimately have q: "components q = components root @ map Normal (butlast (split_on (CHR ''/'') v))"
    by (simp add: butlast_append map_butlast)
  have "filter (\<lambda>c. c \<noteq> CurDir) (map Normal ws) = map Normal ws" for ws by (induction ws) auto
  then show ?thesis unfolding loc_safe_path [OF assms(1)]
    by (simp add: loc_def q butlast_append map_butlast [symmetric])
qed

lemma with_extension_name:
  assumes "plain_name w" and "CHR ''.'' \<notin> set w" and "plain_name (w @ ''.'' @ ext)"
  shows "loc (with_extension (path_join p w) ext) = loc p @ [Normal (w @ ''.'' @ ext)]"
proof -
  have comps: "components (path_join p w) = components p @ [Normal w]"
    using components_path_join [of w p] plain_single [OF assms(1)] assms(1) by (simp add: plain_name_def)
  then have "with_extension (path_join p w) ext = render (components p @ [Normal (w @ ''.'' @ ext)])"
    using assms(2) by (simp add: with_extension_def file_stem_def)
  then show ?thesis
    using loc_render [OF canonical_snoc [OF canonical_components assms(3)]] by (simp add: loc_def)
qed

section \<open>Names made of identifiers\<close>

lemma hex_fixed_set: "c \<in> set (hex_fixed k n) \<Longrightarrow> \<exists>m < 16. c = hex_digit m"
proof (induction k arbitrary: n)
  case (Suc k)
  have "n mod 16 < 16" by simp
  moreover have "c \<in> set (hex_fixed k (n div 16)) \<or> c = hex_digit (n mod 16)" using Suc.prems by auto
  ultimately show ?case using Suc.IH by blast
qed simp

lemma hex_digit_plain: "m < 16 \<Longrightarrow> hex_digit m \<noteq> CHR ''.'' \<and> hex_digit m \<noteq> CHR ''/''"
proof -
  assume m: "m < 16"
  have "of_char (hex_digit m) = (if m < 10 then 48 + m else 87 + m)"
    using m by (simp add: hex_digit_def of_char_of take_bit_eq_mod)
  moreover have "of_char (CHR ''.'') = (46 :: nat)" "of_char (CHR ''/'') = (47 :: nat)" by simp_all
  moreover have "(if m < 10 then 48 + m else 87 + m) \<notin> {46, 47}" using m by auto
  ultimately show ?thesis by (metis insert_iff)
qed

lemma uuid_chars: "CHR ''.'' \<notin> set (uuid_to_string u) \<and> CHR ''/'' \<notin> set (uuid_to_string u) \<and> CHR ''-'' \<in> set (uuid_to_string u)"
proof -
  have "CHR ''.'' \<notin> set (uuid_simple u)" "CHR ''/'' \<notin> set (uuid_simple u)"
    using hex_fixed_set [of _ 32 "unat u"] hex_digit_plain unfolding uuid_simple_def by metis+
  then show ?thesis by (auto simp: uuid_to_string_def Let_def dest: in_set_takeD in_set_dropD)
qed

lemma uuid_suffix_plain: "CHR ''/'' \<notin> set w \<Longrightarrow> plain_name (uuid_to_string u @ w)"
proof -
  assume w: "CHR ''/'' \<notin> set w"
  have "uuid_to_string u @ w \<noteq> v" if "CHR ''-'' \<notin> set v" for v using uuid_chars [of u] that by auto
  from this [of "''''"] this [of "''.''"] this [of "''..''"] show ?thesis
    using uuid_chars [of u] w by (simp add: plain_name_def)
qed

lemma uuid_plain: "plain_name (uuid_to_string u)" and uuid_part_plain: "plain_name (uuid_to_string u @ ''.part'')"
  using uuid_suffix_plain [of "''''" u] uuid_suffix_plain [of "''.part''" u] by simp_all

lemma hex_digit_value: "m < 16 \<Longrightarrow> (of_char (hex_digit m) :: nat) = (if m < 10 then 48 + m else 87 + m)"
  by (simp add: hex_digit_def of_char_of take_bit_eq_mod)

lemma uuid_to_string_inj: "uuid_to_string u = uuid_to_string v \<Longrightarrow> u = v"
proof -
  assume eq: "uuid_to_string u = uuid_to_string v"
  have digits: "filter (\<lambda>c. c \<noteq> CHR ''-'') h = h" if "h = uuid_simple w" for h and w :: uuid
  proof -
    have "hex_digit m \<noteq> CHR ''-''" if "m < 16" for m
    proof
      assume "hex_digit m = CHR ''-''"
      then have "of_char (hex_digit m) = (45 :: nat)" by simp
      then show False using hex_digit_value [OF that] by (simp split: if_splits)
    qed
    then show ?thesis
      using hex_fixed_set [of _ 32 "unat w"] unfolding that uuid_simple_def filter_id_conv by metis
  qed
  have "filter (\<lambda>c. c \<noteq> CHR ''-'') (uuid_to_string w) = uuid_simple w" for w
  proof -
    let ?h = "uuid_simple w" and ?p = "\<lambda>c. c \<noteq> CHR ''-''"
    have cut: "take 8 ?h @ take 4 (drop 8 ?h) @ take 4 (drop 12 ?h) @ take 4 (drop 16 ?h) @ drop 20 ?h = ?h"
      using append_take_drop_id [of 4 "drop 16 ?h"] append_take_drop_id [of 4 "drop 12 ?h"]
        append_take_drop_id [of 4 "drop 8 ?h"] by simp
    have "filter ?p (uuid_to_string w) = filter ?p (take 8 ?h @ take 4 (drop 8 ?h) @ take 4 (drop 12 ?h)
        @ take 4 (drop 16 ?h) @ drop 20 ?h)"
      by (simp add: uuid_to_string_def Let_def)
    then show ?thesis unfolding cut using digits by simp
  qed
  then have "uuid_simple u = uuid_simple v" using eq by metis
  then show ?thesis by (rule uuid_simple_inj)
qed

section \<open>Frames\<close>

declare keeps_branches [keeps_intros]

text \<open>
  The frame of a run from \<open>d0\<close>: nothing outside \<open>S\<close> changes, and a regular file outside \<open>W\<close> stays.
\<close>

definition stays :: "location set \<Rightarrow> location set \<Rightarrow> disk \<Rightarrow> disk \<Rightarrow> bool" where
  "stays S W d0 d \<longleftrightarrow> only S d0 d
     \<and> (\<forall>k bs t. k \<notin> W \<longrightarrow> dk_nodes d0 k = Some (RegularFile bs t) \<longrightarrow> dk_nodes d k = Some (RegularFile bs t))"

definition tree :: "location \<Rightarrow> location set" where
  "tree r = {k. take (length r) k = r}"

definition below :: "location \<Rightarrow> location set" where
  "below r = tree r - {r}"

definition closed :: "location set \<Rightarrow> bool" where
  "closed S \<longleftrightarrow> (\<forall>k \<in> S. tree k \<subseteq> S)"

lemma in_tree: "k \<in> tree r \<longleftrightarrow> (\<exists>l. k = r @ l)"
proof
  assume "k \<in> tree r"
  then have "k = r @ drop (length r) k" using append_take_drop_id [of "length r" k] by (simp add: tree_def)
  then show "\<exists>l. k = r @ l" by blast
qed (auto simp: tree_def)

lemma in_below: "k \<in> below r \<longleftrightarrow> (\<exists>l. l \<noteq> [] \<and> k = r @ l)"
  by (auto simp: below_def in_tree)

lemma closed_below [simp]: "closed (below r)"
  by (fastforce simp: closed_def in_below in_tree)

lemma closed_tree [simp]: "closed (tree r)"
  by (fastforce simp: closed_def in_tree)

lemma closed_Un [simp]: "closed S \<Longrightarrow> closed T \<Longrightarrow> closed (S \<union> T)"
  by (auto simp: closed_def)

lemma stays_refl [simp]: "stays S W d d"
  by (simp add: stays_def)

lemma stays_turn [simp]: "stays S W d0 (turn d) = stays S W d0 d"
  by (simp add: stays_def)

lemma stays_trans: "stays S W d d' \<Longrightarrow> stays S W d' d'' \<Longrightarrow> stays S W d d''"
  by (auto simp: stays_def intro: only_trans)

lemma stays_mono: "stays S W d d' \<Longrightarrow> S \<subseteq> S' \<Longrightarrow> W \<subseteq> W' \<Longrightarrow> stays S' W' d d'"
  unfolding stays_def using only_mono by blast

lemma stays_set_node:
  "stays S W d0 d \<Longrightarrow> k \<in> S \<Longrightarrow> k \<in> W \<Longrightarrow> stays S W d0 (set_node k n d)"
  by (auto simp: stays_def set_node_def only_def)

lemma stays_new:
  "stays S W d0 d \<Longrightarrow> k \<in> S \<Longrightarrow> node_at d k = None \<Longrightarrow> stays S W d0 (set_node k n d)"
  by (auto simp: stays_def set_node_def only_def node_at_def split: if_splits)

lemma stays_append: "stays S W d0 d \<Longrightarrow> loc p \<in> S \<Longrightarrow> loc p \<in> W \<Longrightarrow> stays S W d0 (append_bytes p bs d)"
  by (auto simp: append_bytes_def intro: stays_set_node split: option.split node.split)

lemma stays_remove_tree: "stays S W d0 d \<Longrightarrow> tree k \<subseteq> S \<Longrightarrow> tree k \<subseteq> W \<Longrightarrow> stays S W d0 (remove_tree k d)"
  unfolding stays_def only_def remove_tree_def tree_def by auto

lemma stays_move_tree:
  "stays S W d0 d \<Longrightarrow> tree src \<union> tree dst \<subseteq> S \<Longrightarrow> tree src \<union> tree dst \<subseteq> W \<Longrightarrow> stays S W d0 (move_tree src dst d)"
  unfolding stays_def only_def move_tree_def tree_def by auto

lemma keeps_disk_op:
  assumes "\<And>d. I (turn d) = I d" and "\<And>d r d'. I d \<Longrightarrow> op d = (r, d') \<Longrightarrow> I d'"
  shows "keeps I (disk_op op)"
  unfolding keeps_def disk_op_def using assms by (auto split: option.splits prod.splits)

lemma keeps_looks [keeps_intros]:
  "keeps (stays S W d0) (metadata_len p)" "keeps (stays S W d0) (read_file p)" "keeps (stays S W d0) (sync_file p)"
  unfolding metadata_len_def read_file_def sync_file_def
  by (rule keeps_disk_op; auto split: option.splits node.splits)+

lemma keeps_file_ops [keeps_intros]:
  assumes "loc p \<in> S" and "loc p \<in> W"
  shows "keeps (stays S W d0) (remove_file p)" "keeps (stays S W d0) (open_output appending p)"
    "keeps (stays S W d0) (set_file_mtime p t)"
  unfolding remove_file_def open_output_def set_file_mtime_def
  by (rule keeps_disk_op; use assms in \<open>auto intro: stays_set_node split: option.splits node.splits if_splits\<close>)+

lemma keeps_write_all [keeps_intros]:
  assumes "loc p \<in> S" and "loc p \<in> W"
  shows "keeps (stays S W d0) (write_all p bs)"
  unfolding keeps_def write_all_def using assms by (auto intro: stays_append split: option.splits)

lemma keeps_copy_file [keeps_intros]:
  "loc dst \<in> S \<Longrightarrow> loc dst \<in> W \<Longrightarrow> keeps (stays S W d0) (copy_file src dst)"
  unfolding copy_file_def by (intro keeps_intros)

lemma keeps_create_dir [keeps_intros]: "loc p \<in> S \<Longrightarrow> keeps (stays S W d0) (create_dir p)"
  unfolding create_dir_def by (rule keeps_disk_op) (auto intro: stays_new split: if_splits)

lemma keeps_remove_dir_all [keeps_intros]:
  "tree (loc p) \<subseteq> S \<Longrightarrow> tree (loc p) \<subseteq> W \<Longrightarrow> keeps (stays S W d0) (remove_dir_all p)"
  unfolding remove_dir_all_def
  by (rule keeps_disk_op) (auto intro: stays_remove_tree split: option.splits node.splits)

lemma tree_self [simp]: "k \<in> tree k"
  by (simp add: in_tree)

lemma keeps_rename [keeps_intros]:
  assumes "tree (loc src) \<union> tree (loc dst) \<subseteq> S" and "tree (loc src) \<union> tree (loc dst) \<subseteq> W"
  shows "keeps (stays S W d0) (rename src dst)"
proof -
  have "loc src \<in> S" "loc src \<in> W" "loc dst \<in> S" "loc dst \<in> W"
    using assms tree_self by blast+
  then show ?thesis unfolding rename_def
    by (intro keeps_disk_op)
      (auto intro!: stays_set_node stays_move_tree [OF _ assms] split: option.splits node.splits if_splits)
qed

lemma keeps_make_dirs:
  assumes "\<And>k. k \<in> set ks \<Longrightarrow> k \<in> S \<or> node_at d0 k = Some Directory"
  shows "keeps (stays S W d0) (make_dirs ks)"
  using assms
proof (induction ks)
  case (Cons k ks)
  have "keeps (stays S W d0) (disk_op (\<lambda>d. case node_at d k of
              None \<Rightarrow> (Inr (), set_node k (Some Directory) d)
            | Some Directory \<Rightarrow> (Inr (), d)
            | Some (RegularFile _ _) \<Rightarrow> (Inl (other_io ''Not a directory''), d)))"
  proof (rule keeps_disk_op)
    fix d r d' assume d: "stays S W d0 d" and run: "(case node_at d k of
              None \<Rightarrow> (Inr (), set_node k (Some Directory) d)
            | Some Directory \<Rightarrow> (Inr (), d)
            | Some (RegularFile _ _) \<Rightarrow> (Inl (other_io ''Not a directory''), d)) = (r, d')"
    have "k \<in> S" if "node_at d k = None"
    proof (rule ccontr)
      assume "k \<notin> S"
      moreover from this have "node_at d0 k = Some Directory" using Cons.prems [of k] by simp
      ultimately show False using d that by (auto simp: stays_def only_def node_at_def split: if_splits)
    qed
    then show "stays S W d0 d'" using run d by (auto intro: stays_new split: option.splits node.splits)
  qed simp
  then show ?case using Cons by (auto intro: keeps_thenE)
qed (auto intro: keeps_intros)

definition rooted :: "location \<Rightarrow> disk \<Rightarrow> bool" where
  "rooted r d \<longleftrightarrow> (\<forall>n \<le> length r. node_at d (take n r) = Some Directory)"

lemma keeps_create_dir_all:
  assumes "rooted r d0" and "loc p = r @ l" and "below r \<subseteq> S"
  shows "keeps (stays S W d0) (create_dir_all p)"
  unfolding create_dir_all_def
proof (rule keeps_make_dirs)
  fix k assume "k \<in> set (map (\<lambda>n. take (Suc n) (loc p)) [0..<length (loc p)])"
  then obtain n where n: "n < length (loc p)" "k = take (Suc n) (r @ l)" using assms(2) by auto
  show "k \<in> S \<or> node_at d0 k = Some Directory"
  proof (cases "Suc n \<le> length r")
    case True
    then show ?thesis using n assms(1) by (simp add: rooted_def)
  next
    case False
    then have "k = r @ take (Suc n - length r) l" "take (Suc n - length r) l \<noteq> []"
      using n assms(2) by auto
    then show ?thesis using assms(3) in_below by blast
  qed
qed

lemma rooted_only: "rooted r d \<Longrightarrow> only S d d' \<Longrightarrow> (\<And>n. n \<le> length r \<Longrightarrow> take n r \<notin> S) \<Longrightarrow> rooted r d'"
  by (auto simp: rooted_def only_def node_at_def)

end
