(* ===== verification/RetrieveBehaviour.thy ===== *)
theory RetrieveBehaviour
  imports Retrieve DiskFrames
begin

text \<open>
  The retrieve command on the disk: the frame of the download and of each restore, what a restored
  file is, the members of a pack, the groups of the manifest, and the run as a whole.
\<close>

section \<open>The names in the cache\<close>

lemma cache_names:
  "loc (path_join cache (uuid_to_string i)) = loc cache @ [Normal (uuid_to_string i)]"
  "loc (with_extension (path_join cache (uuid_to_string i)) ''part'')
     = loc cache @ [Normal (uuid_to_string i @ ''.part'')]"
  using loc_join_name [OF uuid_plain] with_extension_name [OF uuid_plain _ , of i "''part''" cache]
    uuid_chars [of i] uuid_part_plain [of i] by simp_all

section \<open>The download\<close>

lemma keeps_pair [keeps_intros]: "(\<And>a b. x = (a, b) \<Longrightarrow> keeps I (m a b)) \<Longrightarrow> keeps I (case x of (a, b) \<Rightarrow> m a b)"
  by (cases x) simp

lemma keeps_on_disk [keeps_intros]: "keeps I m \<Longrightarrow> keeps (\<lambda>s. I (fst s)) (on_disk m)"
  by (auto simp: keeps_def on_disk_def split: prod.splits sum.splits)

lemma keeps_with_client [keeps_intros]: "keeps (\<lambda>s. I (fst s)) (with_client m)"
  by (auto simp: keeps_def with_client_def split: prod.splits)

lemma keeps_pause [keeps_intros]: "keeps (\<lambda>s. I (fst s)) (pause_load load)"
  unfolding pause_load_def by (rule keeps_with_client)

lemma keeps_report [keeps_intros]: "keeps (\<lambda>s. I (fst s)) (report observer n)"
  unfolding report_def by (rule keeps_with_client)

lemma keeps_stop [keeps_intros]: "keeps (\<lambda>s. stays S W d0 (fst s)) (stop_paused p)"
  unfolding stop_paused_def by (intro keeps_intros)

lemma keeps_receive:
  assumes "loc p \<in> S" and "loc p \<in> W"
  shows "keeps (\<lambda>s. stays S W d0 (fst s)) (receive pause observer p received events)"
proof (induction events arbitrary: received)
  case Nil
  show ?case by (simp add: keeps_ok)
next
  case (Cons e events)
  consider "e = None" | x where "e = Some (Inl x)" | chunk where "e = Some (Inr chunk)"
    by (metis option.exhaust sum.exhaust)
  then show ?case
    by cases (use Cons assms in \<open>auto simp: Let_def intro!: keeps_intros\<close>)
qed

lemma keeps_wait [keeps_intros]: "keeps (\<lambda>s. I (fst s)) (wait_answer pause n)"
  by (induction n) (auto intro!: keeps_intros)

lemma keeps_send_get [keeps_intros]: "keeps (\<lambda>s. I (fst s)) (send_get net pause request)"
  unfolding send_get_def by (intro keeps_intros)

lemma keeps_fetch_rest:
  assumes "tree (loc dest) \<union> tree (loc p) \<subseteq> S" and "tree (loc dest) \<union> tree (loc p) \<subseteq> W"
  shows "keeps (\<lambda>s. stays S W d0 (fst s)) (fetch_rest self net url dest p expected pause observer offset)"
proof -
  have p: "loc p \<in> S" "loc p \<in> W" and t: "tree (loc p) \<union> tree (loc dest) \<subseteq> S" "tree (loc p) \<union> tree (loc dest) \<subseteq> W"
    using assms tree_self by blast+
  show ?thesis unfolding fetch_rest_def store_body_def
    by (intro keeps_intros keeps_receive p t)
qed

lemma keeps_download:
  assumes "tree (loc dest) \<union> tree (loc (with_extension dest ''part'')) \<subseteq> S"
    and "tree (loc dest) \<union> tree (loc (with_extension dest ''part'')) \<subseteq> W"
  shows "keeps (\<lambda>s. stays S W d0 (fst s)) (download_object_resumable self net url dest expected pause observer)"
proof -
  let ?p = "with_extension dest ''part''"
  have p: "loc ?p \<in> S" "loc ?p \<in> W" "loc dest \<in> S" "loc dest \<in> W"
    and t: "tree (loc ?p) \<union> tree (loc dest) \<subseteq> S" "tree (loc ?p) \<union> tree (loc dest) \<subseteq> W"
    using assms tree_self by blast+
  show ?thesis unfolding download_object_resumable_def resume_partial_def Let_def
    by (intro keeps_intros keeps_fetch_rest p t assms)
qed

section \<open>What a restored file is\<close>

definition restored :: "'h retrieve_env \<Rightarrow> path \<Rightarrow> disk \<Rightarrow> ManifestFile \<Rightarrow> bool" where
  "restored env root d file \<longleftrightarrow>
     (\<exists>p bs. safe_path root (mf_path file) = Some p \<and> file_bytes d p = Some bs
        \<and> of_nat (length bs) = mf_size file
        \<and> digest_of (rx_hash env) (dg_algorithm (mf_digest file)) bs = dg_value (mf_digest file))"

definition outputs :: "path \<Rightarrow> ManifestFile set \<Rightarrow> location set" where
  "outputs root F = {loc p |p f. f \<in> F \<and> safe_path root (mf_path f) = Some p}"

lemma outputs_mono: "F \<subseteq> G \<Longrightarrow> outputs root F \<subseteq> outputs root G"
  by (auto simp: outputs_def)

lemma output_in: "f \<in> F \<Longrightarrow> safe_path root (mf_path f) = Some p \<Longrightarrow> loc p \<in> outputs root F"
  by (auto simp: outputs_def)

lemma output_below: "safe_path root v = Some p \<Longrightarrow> loc p \<in> below (loc root)"
  using loc_safe_path in_below by fastforce

lemma file_bytes_stays:
  "stays S W d d' \<Longrightarrow> loc p \<notin> W \<Longrightarrow> file_bytes d p = Some bs \<Longrightarrow> file_bytes d' p = Some bs"
  by (auto simp: file_bytes_Some stays_def)

lemma restored_stays:
  assumes "restored env root d f" and "stays S W d d'" and "outputs root {f} \<inter> W = {}"
  shows "restored env root d' f"
  using assms file_bytes_stays [OF assms(2)] unfolding restored_def outputs_def by fastforce

lemma delivered_chunks: "delivered (map Inr (chunks_of n bs) @ [Inr []]) = Some bs"
  by (induction n bs rule: chunks_of.induct) auto

lemma disk_reads_run:
  "disk_reads p n d = (r, d') \<Longrightarrow> (\<forall>k. dk_nodes d' k = dk_nodes d k)
     \<and> (case r of Inl _ \<Rightarrow> True
        | Inr rs \<Rightarrow> \<exists>bs. file_bytes d p = Some bs \<and> rs = map Inr (chunks_of n bs) @ [Inr []])"
  by (auto simp: disk_reads_def read_file_def bindE_def ok_def disk_op_def file_bytes_def
      split: option.splits node.splits prod.splits)

lemma local_digest_Inr:
  assumes "streaming (rx_hash env)" and "local_digest env p alg d = (Inr v, d')"
  shows "(\<forall>k. dk_nodes d' k = dk_nodes d k)
     \<and> (\<exists>bs. file_bytes d p = Some bs \<and> v = digest_of (rx_hash env) alg bs)"
proof -
  obtain r d1 where reads: "disk_reads p (1024 * 1024) d = (r, d1)" by force
  have "?thesis" if "r = Inr rs" for rs
  proof -
    from disk_reads_run [OF reads] that obtain bs where
      bs: "file_bytes d p = Some bs" "delivered rs = Some bs" and d1: "\<forall>k. dk_nodes d1 k = dk_nodes d k"
      using delivered_chunks by auto
    have "fs_reads disk_fs p (1024 * 1024) d = (Inr rs, d1)" using reads that by (simp add: disk_fs_def)
    from hash_file_digest [OF assms(1) this bs(2)] obtain t where
      "digest_file disk_fs (rx_hash env) p alg (d, [] :: unit list) = (Inr (digest_of (rx_hash env) alg bs), (d1, t))"
      unfolding digest_file_def by blast
    then show ?thesis using assms(2) bs(1) d1 by (auto simp: local_digest_def)
  qed
  moreover have "r \<noteq> Inl e" for e
    using assms(2) reads
    by (auto simp: local_digest_def digest_file_def hash_file_def disk_fs_def on_env_io_def bindE_def)
  ultimately show ?thesis by (cases r) auto
qed

lemma keeps_local_digest [keeps_intros]: "keeps (stays S W d0) (local_digest env p alg)"
proof (rule keepsI)
  fix d r d' assume d: "stays S W d0 d" and run: "local_digest env p alg d = (r, d')"
  obtain rs d1 where reads: "disk_reads p (1024 * 1024) d = (rs, d1)" by force
  have "d' = d1"
    using run reads by (auto simp: local_digest_def digest_file_def hash_file_def disk_fs_def on_env_io_def
        bindE_def emit_def thenE_def fail_def ok_def Let_def split: sum.splits prod.splits)
  then show "stays S W d0 d'" using disk_reads_run [OF reads] d by (auto simp: stays_def only_def)
qed

lemma verify_bytes:
  assumes "streaming (rx_hash env)" and "verify env p file d = (Inr (), d')"
  shows "\<exists>bs. file_bytes d' p = Some bs \<and> of_nat (length bs) = mf_size file
     \<and> digest_of (rx_hash env) (dg_algorithm (mf_digest file)) bs = dg_value (mf_digest file)"
proof -
  from assms(2) obtain len d1 v d2 where
    len: "metadata_len p d = (Inr len, d1)" "len = mf_size file"
    and v: "local_digest env p (dg_algorithm (mf_digest file)) d1 = (Inr v, d2)" "v = dg_value (mf_digest file)"
    and mtime: "set_file_mtime p (rx_nanos env (mf_mtime file)) d2 = (Inr (), d')"
    by (auto simp: verify_def ensure_def comp_simps split: if_splits)
  from local_digest_Inr [OF assms(1) v(1)] obtain bs where
    bs: "file_bytes d1 p = Some bs" "v = digest_of (rx_hash env) (dg_algorithm (mf_digest file)) bs"
    and d2: "\<forall>k. dk_nodes d2 k = dk_nodes d1 k" by blast
  have "len = of_nat (length bs)"
    using len bs(1) by (auto simp: metadata_len_def comp_simps file_bytes_def split: option.splits node.splits)
  moreover have "file_bytes d2 p = Some bs" using bs(1) d2 by (simp add: file_bytes_Some)
  then have "file_bytes d' p = Some bs"
    using mtime by (auto simp: set_file_mtime_def comp_simps file_bytes_def node_at_def set_node_def
        split: option.splits node.splits if_splits)
  ultimately show ?thesis using bs(2) v(2) len(2) by auto
qed

lemma verify_run:
  assumes "streaming (rx_hash env)" and "safe_path root (mf_path file) = Some p"
    and "verify env p file d = (Inr (), d')"
  shows "restored env root d' file"
  using verify_bytes [OF assms(1,3)] assms(2) unfolding restored_def by blast

section \<open>Restoring one object\<close>

definition workspace :: "path \<Rightarrow> location set \<Rightarrow> bool" where
  "workspace root S \<longleftrightarrow> below (loc root) \<subseteq> S \<and> (\<forall>n \<le> length (loc root). take n (loc root) \<notin> S)"

lemma workspace_rooted: "workspace root S \<Longrightarrow> rooted (loc root) d \<Longrightarrow> stays S W d d' \<Longrightarrow> rooted (loc root) d'"
  unfolding workspace_def stays_def using rooted_only by blast

lemma outputs_in: "workspace root S \<Longrightarrow> safe_path root v = Some p \<Longrightarrow> loc p \<in> S"
  using output_below unfolding workspace_def by blast

lemma outputs_apart: "mf_path f \<noteq> mf_path g \<Longrightarrow> outputs root {f} \<inter> outputs root {g} = {}"
proof -
  have inj: "v = w" if "loc p = loc q" "safe_path root v = Some p" "safe_path root w = Some q" for v w p q
  proof -
    have "inj (map Normal)" by (intro inj_mapI injI) simp
    then have "split_on (CHR ''/'') v = split_on (CHR ''/'') w"
      using that loc_safe_path [OF that(2)] loc_safe_path [OF that(3)] by (simp add: inj_eq)
    then show ?thesis by (metis join_split)
  qed
  assume "mf_path f \<noteq> mf_path g"
  then show ?thesis using inj by (auto simp: outputs_def)
qed

lemma parent_under: "safe_path root v = Some p \<Longrightarrow> path_parent p = Some q \<Longrightarrow> \<exists>l. loc q = loc root @ l"
  using loc_parent_safe [of root v p q] loc_safe_path [of root v p]
  by (auto simp: butlast_append split: if_splits)

lemma keeps_verify [keeps_intros]:
  "loc p \<in> S \<Longrightarrow> loc p \<in> W \<Longrightarrow> keeps (stays S W d0) (verify env p file)"
  unfolding verify_def ensure_def by (intro keeps_intros)

lemma keeps_manifest_path:
  "(\<And>p. safe_path root v = Some p \<Longrightarrow> keeps I (k p)) \<Longrightarrow> keeps I (bindE (manifest_path root v) k)"
  unfolding manifest_path_def keeps_def by (auto simp: bindE_def ok_def fail_def split: option.splits)

lemma keeps_manifest_path':
  "(\<And>p. safe_path root v = Some p \<Longrightarrow> keeps I (k p)) \<Longrightarrow> keeps I (bindE (map_errE g (manifest_path root v)) k)"
  unfolding manifest_path_def keeps_def by (auto simp: bindE_def map_errE_def ok_def fail_def split: option.splits)

lemma keeps_restore_file:
  assumes "workspace root S" and "rooted (loc root) d0" and "outputs root (set expected) \<subseteq> W"
  shows "keeps (stays S W d0) (restore_file env cache root expected)"
proof -
  have "keeps (stays S W d0) (case path_parent p of
             None \<Rightarrow> fail (Message ''missing file parent'')
           | Some parent \<Rightarrow>
               thenE (map_errE IoFailed (create_dir_all parent))
                 (thenE (map_errE IoFailed (copy_file cache p)) (verify env p f)))"
    if e: "expected = [f]" and sp: "safe_path root (mf_path f) = Some p" for f p
  proof -
    have p: "loc p \<in> S" "loc p \<in> W"
      using outputs_in [OF assms(1) sp] output_in [OF _ sp, of "set expected"] e assms(3) by auto
    have "keeps (stays S W d0) (create_dir_all q)" if q: "path_parent p = Some q" for q
    proof -
      obtain l where "loc q = loc root @ l" using parent_under [OF sp q] by blast
      from keeps_create_dir_all [OF assms(2) this] show ?thesis using assms(1) by (simp add: workspace_def)
    qed
    then show ?thesis by (intro keeps_intros p)
  qed
  note step = this
  have "keeps (stays S W d0) (restore_file env cache root [f])" if "expected = [f]" for f
    unfolding restore_file_def ensure_def list.case
    by (rule keeps_thenE, intro keeps_intros, rule keeps_manifest_path, rule step [OF that])
  then show ?thesis
    by (cases expected rule: remdups_adj.cases) (simp_all add: restore_file_def keeps_fail)
qed

lemma restore_file_run:
  assumes "streaming (rx_hash env)" and "restore_file env cache root expected d = (Inr (), d')"
  shows "\<forall>f \<in> set expected. restored env root d' f"
  using assms(2) verify_run [OF assms(1)]
  by (auto simp: restore_file_def comp_simps manifest_path_def split: list.splits option.splits)

lemma keeps_copy_stream [keeps_intros]:
  "loc p \<in> S \<Longrightarrow> loc p \<in> W \<Longrightarrow> keeps (stays S W d0) (copy_stream content p)"
  unfolding copy_stream_def by (intro keeps_intros)

lemma keeps_restore_member:
  assumes "workspace root S" and "rooted (loc root) d0"
    and "\<And>f. nth_opt expected seen = Some f \<Longrightarrow> outputs root {f} \<subseteq> W"
  shows "keeps (stays S W d0) (restore_member env root expected seen header content)"
proof -
  have "keeps (stays S W d0) (create_dir_all q)" and "loc p \<in> S" and "nth_opt expected seen = Some f \<Longrightarrow> loc p \<in> W"
    if p: "safe_path root (mf_path f) = Some p" and q: "path_parent p = Some q" for f p q
  proof -
    obtain l where "loc q = loc root @ l" using parent_under [OF p q] by blast
    from keeps_create_dir_all [OF assms(2) this] show "keeps (stays S W d0) (create_dir_all q)"
      using assms(1) by (simp add: workspace_def)
    show "loc p \<in> S" by (rule outputs_in [OF assms(1) p])
    show "loc p \<in> W" if "nth_opt expected seen = Some f"
      using output_in [OF _ p, of "{f}"] assms(3) [OF that] by auto
  qed
  then show ?thesis unfolding restore_member_def
    by (intro keeps_intros keeps_manifest_path') (simp_all)
qed

lemma restore_member_run:
  assumes "streaming (rx_hash env)" and "restore_member env root expected seen header content d = (Inr n, d')"
  shows "seen < length expected \<and> restored env root d' (expected ! seen)"
  using assms(2) verify_run [OF assms(1)]
  by (auto simp: restore_member_def nth_opt_def comp_simps manifest_path_def split: option.splits if_splits)

lemma decode_loop_rule:
  assumes "\<And>c h content. Q c \<Longrightarrow> case member c h content of (Inl e, c') \<Rightarrow> E c' | (Inr n, c') \<Rightarrow> Q c'"
    and "\<And>c. Q c \<Longrightarrow> E c" and "Q c"
  shows "case decode_loop js member c st of (Inl e, c') \<Rightarrow> E c' | (Inr _, c') \<Rightarrow> Q c'"
  using assms(3)
proof (induction "length (fst st)" arbitrary: c st rule: less_induct)
  case less
  show ?case
  proof (cases "read_header js st")
    case (Inr found)
    show ?thesis
    proof (cases found)
      case (Some hs)
      obtain h st1 where hs: "hs = (h, st1)" by (metis surj_pair)
      then have head: "read_header js st = Inr (Some (h, st1))" using Inr Some by simp
      let ?n = "unat (h_size h)"
      obtain r c' where run: "member c h (take_view ?n st1) = (r, c')" by force
      have step: "case (r, c') of (Inl e, c') \<Rightarrow> E c' | (Inr n, c') \<Rightarrow> Q c'"
        using assms(1) [OF less.prems, of h "take_view ?n st1"] run by simp
      have "length (fst (drop ?n (fst st1), snd st1)) < length (fst st)"
        using read_header_shorter [OF head] by simp
      note rest = less.hyps [OF this]
      show ?thesis
      proof (cases r)
        case (Inl e)
        then show ?thesis using step run head by (simp add: decode_loop.simps [of js member c st] Let_def)
      next
        case (Inr n)
        then have "Q c'" using step by simp
        then show ?thesis using run head Inr rest [of c'] assms(2)
          by (auto simp: decode_loop.simps [of js member c st] Let_def split: sum.split)
      qed
    qed (use Inr less.prems in \<open>simp add: decode_loop.simps [of js member c st]\<close>)
  qed (use less.prems assms(2) in \<open>simp add: decode_loop.simps [of js member c st]\<close>)
qed

lemma decode_pack_rule:
  assumes "\<And>c h content. Q c \<Longrightarrow> case member c h content of (Inl e, c') \<Rightarrow> E c' | (Inr n, c') \<Rightarrow> Q c'"
    and "\<And>c. Q c \<Longrightarrow> E c" and "Q c"
  shows "case decode_pack zstd js member source c of (Inl e, c') \<Rightarrow> E c' | (Inr _, c') \<Rightarrow> Q c'"
  using decode_loop_rule [where Q = Q and E = E and member = member, OF assms] assms(2) [OF assms(3)]
  unfolding decode_pack_def by (auto split: sum.split prod.split if_split)

text \<open>
  The members of a pack, for either program: each step may change the place of its own file only,
  and leaves that file good; files of other places stay good.
\<close>

lemma members_rule:
  fixes place :: "'f \<Rightarrow> location set" and mem :: "nat \<Rightarrow> PackMemberHeader \<Rightarrow> stream \<Rightarrow> (disk, PackError, nat) comp"
  assumes root: "\<And>d d'. R d \<Longrightarrow> stays S (\<Union>f \<in> set expected. place f) d d' \<Longrightarrow> R d'"
    and good: "\<And>d d' W f. good d f \<Longrightarrow> stays S W d d' \<Longrightarrow> place f \<inter> W = {} \<Longrightarrow> good d' f"
    and apart: "\<And>i j. i < j \<Longrightarrow> j < length expected \<Longrightarrow> place (expected ! i) \<inter> place (expected ! j) = {}"
    and member: "\<And>seen header content d r d'. R d \<Longrightarrow> mem seen header content d = (r, d') \<Longrightarrow>
      (if seen < length expected then stays S (place (expected ! seen)) d d' \<and> ((\<exists>k. r = Inr k) \<longrightarrow> good d' (expected ! seen))
       else stays S {} d d' \<and> \<not> (\<exists>k. r = Inr k))"
    and step: "\<And>c header content. step c header content = (case mem (snd c) header content (fst c) of
      (Inl e, d') \<Rightarrow> (Inl e, (d', snd c)) | (Inr n, d') \<Rightarrow> (Inr n, (d', Suc (snd c))))"
    and "R d" and run: "decode_pack zstd js step source (d, 0) = (r, (d', seen))"
  shows "stays S (\<Union>f \<in> set expected. place f) d d'
     \<and> ((\<exists>k. r = Inr k) \<longrightarrow> seen \<le> length expected \<and> (\<forall>f \<in> set (take seen expected). good d' f))"
proof -
  let ?W = "\<Union>f \<in> set expected. place f"
  let ?Q = "\<lambda>(x, n). stays S ?W d x \<and> n \<le> length expected \<and> (\<forall>f \<in> set (take n expected). good x f)"
  let ?E = "\<lambda>c. stays S ?W d (fst c)"
  have "case step c header content of (Inl e, c') \<Rightarrow> ?E c' | (Inr n, c') \<Rightarrow> ?Q c'" if Q: "?Q c" for c header content
  proof -
    obtain x n where c: "c = (x, n)" by force
    obtain v y where one: "mem n header content x = (v, y)" by force
    have x: "stays S ?W d x" "n \<le> length expected" and before: "\<forall>f \<in> set (take n expected). good x f"
      using Q by (simp_all add: c)
    note here = member [OF root [OF \<open>R d\<close> x(1)] one]
    show ?thesis
    proof (cases "n < length expected")
      case True
      then have f: "stays S (place (expected ! n)) x y" and g: "(\<exists>k. v = Inr k) \<longrightarrow> good y (expected ! n)"
        using here by simp_all
      have "stays S ?W x y" by (rule stays_mono [OF f subset_refl]) (use nth_mem [OF True] in blast)
      then have y: "stays S ?W d y" by (rule stays_trans [OF x(1)])
      have "good y f" if "f \<in> set (take n expected)" for f
      proof (rule good [OF _ f])
        from that obtain i where "i < n" "f = expected ! i" by (auto simp: in_set_conv_nth)
        then show "place f \<inter> place (expected ! n) = {}" using apart True by simp
      qed (use before that in blast)
      then show ?thesis using y g True by (cases v) (auto simp: step c one take_Suc_conv_app_nth)
    next
      case False
      then have "stays S ?W x y" "\<not> (\<exists>k. v = Inr k)" using here stays_mono [of S "{}" x y S ?W] by auto
      then show ?thesis using stays_trans [OF x(1)] by (cases v) (auto simp: step c one)
    qed
  qed
  from decode_pack_rule [where Q = ?Q and E = ?E and member = step, OF this, of "(d, 0)" zstd js source]
  have "case r of Inl e \<Rightarrow> ?E (d', seen) | Inr x \<Rightarrow> ?Q (d', seen)"
    unfolding run by (cases r) auto
  then show ?thesis by (cases r) auto
qed

lemma outputs_Union: "outputs root (set fs) = (\<Union>f \<in> set fs. outputs root {f})"
  by (auto simp: outputs_def)

lemma restore_pack_done:
  assumes hash: "streaming (rx_hash env)" and work: "workspace root S" "rooted (loc root) d"
    and paths: "distinct (map mf_path expected)" and run: "restore_pack env cache root expected d = (r, d')"
  shows "stays S (outputs root (set expected)) d d'
     \<and> (r = Inr () \<longrightarrow> (\<forall>f \<in> set expected. restored env root d' f))"
proof -
  let ?W = "outputs root (set expected)" and ?step = "member_step env root expected"
  obtain source d1 where src: "read_file cache d = (source, d1)" by force
  have d1: "stays S ?W d d1" using keepsD [OF keeps_looks(2) stays_refl src] .
  show ?thesis
  proof (cases source)
    case (Inr bytes)
    obtain r1 d2 seen where decode:
      "decode_pack (rx_zstd env) (rx_header env) ?step bytes (d1, 0) = (r1, (d2, seen))"
      by (metis prod.exhaust)
    have "stays S (\<Union>f \<in> set expected. outputs root {f}) d1 d2
       \<and> ((\<exists>k. r1 = Inr k) \<longrightarrow> seen \<le> length expected \<and> (\<forall>f \<in> set (take seen expected). restored env root d2 f))"
    proof (rule members_rule [where R = "rooted (loc root)" and mem = "restore_member env root expected", OF _ _ _ _ _ _ decode])
      show "rooted (loc root) d1" by (rule workspace_rooted [OF work d1])
      show "rooted (loc root) y" if "rooted (loc root) x" "stays S W x y" for x y W
        by (rule workspace_rooted [OF work(1) that])
      show "outputs root {expected ! i} \<inter> outputs root {expected ! j} = {}" if "i < j" "j < length expected" for i j
        using that paths by (intro outputs_apart) (simp add: distinct_conv_nth)
      fix n header content x v y assume x: "rooted (loc root) x" and one: "restore_member env root expected n header content x = (v, y)"
      have frame: "stays S (\<Union>f \<in> set_option (nth_opt expected n). outputs root {f}) x y"
        by (rule keepsD [OF keeps_restore_member [OF work(1) x] stays_refl one]) auto
      have "(\<exists>k. v = Inr k) \<Longrightarrow> n < length expected \<and> restored env root y (expected ! n)"
        using restore_member_run [OF hash] one by (cases v) auto
      then show "if n < length expected then stays S (outputs root {expected ! n}) x y
            \<and> ((\<exists>k. v = Inr k) \<longrightarrow> restored env root y (expected ! n)) else stays S {} x y \<and> \<not> (\<exists>k. v = Inr k)"
        using frame by (auto simp: nth_opt_def)
    qed (auto intro: restored_stays simp: member_step_def)
    then have "stays S ?W d d2" "(\<exists>k. r1 = Inr k) \<longrightarrow> seen \<le> length expected \<and> (\<forall>f \<in> set (take seen expected). restored env root d2 f)"
      using stays_trans [OF d1] by (simp_all add: outputs_Union [of root expected])
    then show ?thesis using run src Inr decode
      by (auto simp: restore_pack_def bindE_def map_errE_def ensure_def ok_def fail_def split: sum.splits if_splits)
  qed (use run src d1 in \<open>auto simp: restore_pack_def bindE_def map_errE_def\<close>)
qed

lemma restore_object_done:
  assumes "streaming (rx_hash env)" "workspace root S" "rooted (loc root) d" "distinct (map mf_path expected)"
    and "restore_object env kind cache root expected d = (r, d')"
  shows "stays S (outputs root (set expected)) d d'
     \<and> (r = Inr () \<longrightarrow> (\<forall>f \<in> set expected. restored env root d' f))"
proof -
  have "restore_file env cache root expected d = (r, d') \<Longrightarrow> ?thesis"
    using keepsD [OF keeps_restore_file [OF assms(2,3) subset_refl] stays_refl, where r = r and s' = d']
      restore_file_run [OF assms(1)] by blast
  moreover have "restore_pack env cache root expected d = (r, d') \<Longrightarrow> ?thesis"
    by (rule restore_pack_done [OF assms(1-4)])
  ultimately show ?thesis using assms(5) by (auto simp: restore_object_def fail_def split: if_splits)
qed

section \<open>The groups of the manifest\<close>

definition grouped :: "groups \<Rightarrow> ManifestFile list" where
  "grouped gs = concat (map snd gs)"

lemma grouped_simps [simp]: "grouped [] = []" "grouped (g # gs) = snd g @ grouped gs"
  by (simp_all add: grouped_def)

definition groups_ok :: "groups \<Rightarrow> bool" where
  "groups_ok gs \<longleftrightarrow> distinct (map fst gs) \<and> distinct (map mf_path (grouped gs))"

lemma push_file_fst: "set (map fst (push_file f gs)) = insert (tp_object_id (mf_transport f)) (set (map fst gs))"
  by (induction f gs rule: push_file.induct) auto

lemma push_file_distinct: "distinct (map fst gs) \<Longrightarrow> distinct (map fst (push_file f gs))"
proof (induction f gs rule: push_file.induct)
  case (2 f i fs gs)
  then show ?case using push_file_fst [of f gs] by auto
qed simp

lemma push_file_set: "set (grouped (push_file f gs)) = insert f (set (grouped gs))"
  by (induction f gs rule: push_file.induct) auto

lemma push_file_paths:
  "distinct (map mf_path (grouped gs)) \<Longrightarrow> mf_path f \<notin> mf_path ` set (grouped gs) \<Longrightarrow>
     distinct (map mf_path (grouped (push_file f gs)))"
proof (induction f gs rule: push_file.induct)
  case (2 f i fs gs)
  then show ?case using push_file_set [of f gs] by auto
qed simp

lemma group_files_Inr:
  assumes "group_files env root files paths gs s = (Inr gs', s')" and "groups_ok gs"
    and "\<forall>f \<in> set (grouped gs). rx_lowercase env (mf_path f) \<in> set paths"
  shows "s' = s \<and> groups_ok gs' \<and> set (grouped gs') = set (grouped gs) \<union> set files"
  using assms
proof (induction files arbitrary: paths gs)
  case (Cons f files)
  have new: "rx_lowercase env (mf_path f) \<notin> set paths"
    and rest: "group_files env root files (rx_lowercase env (mf_path f) # paths) (push_file f gs) s = (Inr gs', s')"
    using Cons.prems(1)
    by (auto simp: manifest_path_def ensure_def comp_simps split: option.splits if_splits)
  have "groups_ok (push_file f gs)"
    using Cons.prems(2,3) new push_file_distinct push_file_paths [of gs f] by (force simp: groups_ok_def)
  from Cons.IH [OF rest this] show ?case using Cons.prems(3) by (auto simp: push_file_set)
qed (auto simp: ok_def)

lemma group_files_state: "group_files env root files paths gs s = (r, s') \<Longrightarrow> s' = s"
  by (induction files arbitrary: paths gs)
    (auto simp: ok_def fail_def manifest_path_def ensure_def thenE_def bindE_def split: option.splits if_splits sum.splits)

lemma sort_members_grouped: "mset (grouped (sort_members gs)) = mset (grouped gs)"
  by (induction gs) (auto simp: sort_members_def grouped_def)

lemma sort_members_ok: "groups_ok gs \<Longrightarrow> groups_ok (sort_members gs)"
proof -
  assume ok: "groups_ok gs"
  have "map fst (sort_members gs) = map fst gs" by (auto simp: sort_members_def)
  moreover have "mset (map mf_path (grouped (sort_members gs))) = mset (map mf_path (grouped gs))"
    by (simp add: sort_members_grouped)
  ultimately show ?thesis using ok mset_eq_imp_distinct_iff unfolding groups_ok_def by metis
qed

lemma groups_ok_rest: "groups_ok gs \<Longrightarrow> groups_ok (filter (\<lambda>(i, _). i \<noteq> k) gs)"
proof (induction gs)
  case (Cons g gs)
  have "set (grouped (filter (\<lambda>(i, _). i \<noteq> k) gs)) \<subseteq> set (grouped gs)" by (auto simp: grouped_def)
  then show ?case using Cons by (cases g) (auto simp: groups_ok_def)
qed simp

lemma groups_split:
  assumes "groups_ok gs" and "map_of gs k = Some files"
  shows "set (grouped gs) = set files \<union> set (grouped (filter (\<lambda>(i, _). i \<noteq> k) gs))"
    and "distinct (map mf_path files)"
    and "mf_path ` set files \<inter> mf_path ` set (grouped (filter (\<lambda>(i, _). i \<noteq> k) gs)) = {}"
proof -
  from assms(2) obtain as bs where gs: "gs = as @ (k, files) # bs"
    by (meson map_of_SomeD split_list)
  have same: "k \<notin> fst ` set xs \<Longrightarrow> filter (\<lambda>(i, _). i \<noteq> k) xs = xs" for xs :: groups by (induction xs) auto
  have rest: "filter (\<lambda>(i, _). i \<noteq> k) gs = as @ bs"
    using assms(1) same [of as] same [of bs] by (auto simp: gs groups_ok_def)
  show "set (grouped gs) = set files \<union> set (grouped (filter (\<lambda>(i, _). i \<noteq> k) gs))"
    unfolding rest by (auto simp: gs grouped_def)
  show "distinct (map mf_path files)" using assms(1) by (auto simp: groups_ok_def gs grouped_def)
  show "mf_path ` set files \<inter> mf_path ` set (grouped (filter (\<lambda>(i, _). i \<noteq> k) gs)) = {}"
    unfolding rest using assms(1) by (simp add: groups_ok_def gs grouped_def) blast
qed

section \<open>The objects\<close>

lemma keeps_map_err_client [keeps_intros]: "keeps (\<lambda>s. I (fst s)) (on_registry m)"
  by (intro keeps_intros)

lemma keeps_fetch_object:
  assumes "below (loc cache) \<subseteq> S" and "below (loc cache) \<subseteq> W"
  shows "keeps (\<lambda>s. stays S W d0 (fst s)) (fetch_object env net client plan (path_join cache (uuid_to_string i)) object)"
proof -
  let ?p = "path_join cache (uuid_to_string i)"
  have "tree (loc ?p) \<union> tree (loc (with_extension ?p ''part'')) \<subseteq> below (loc cache)"
    by (auto simp: cache_names in_tree in_below)
  then have t: "tree (loc ?p) \<union> tree (loc (with_extension ?p ''part'')) \<subseteq> S"
    "tree (loc ?p) \<union> tree (loc (with_extension ?p ''part'')) \<subseteq> W" using assms by blast+
  show ?thesis unfolding fetch_object_def ensure_def
    by (intro keeps_intros keeps_download t)
qed

lemma on_local_iff: "on_local m (d, c) = (r, (d', c')) \<longleftrightarrow> m d = (r, d') \<and> c' = c"
  by (auto simp: on_local_def split: prod.splits)

definition confined :: "path \<Rightarrow> path \<Rightarrow> bool" where
  "confined root cache \<longleftrightarrow> below (loc root) \<inter> below (loc cache) = {}
     \<and> workspace root (below (loc root) \<union> below (loc cache))"

abbreviation area :: "path \<Rightarrow> path \<Rightarrow> location set" where
  "area root cache \<equiv> below (loc root) \<union> below (loc cache)"

lemma outputs_area: "outputs root F \<subseteq> below (loc root)"
  using output_below by (auto simp: outputs_def)

lemma retrieve_objects_done:
  assumes hash: "streaming (rx_hash env)" and work: "confined root cache"
    and "rooted (loc root) d" and "groups_ok gs"
    and "retrieve_objects env net client plan root cache objects gs (d, c) = (r, (d', c'))"
  shows "stays (area root cache) (outputs root (set (grouped gs)) \<union> below (loc cache)) d d'
     \<and> (\<forall>left. r = Inr left \<longrightarrow> (\<forall>f \<in> set (grouped gs). f \<in> set (grouped left) \<or> restored env root d' f))"
  using assms(3-5)
proof (induction objects arbitrary: gs d c)
  case Nil
  then show ?case by (auto simp: ok_def)
next
  case (Cons object objects)
  let ?i = "do_object_id object" and ?S = "area root cache" and ?C = "below (loc cache)"
  let ?p = "path_join cache (uuid_to_string ?i)"
  have ws: "workspace root ?S" using work by (simp add: confined_def)
  show ?case
  proof (cases "map_of gs ?i")
    case None
    then show ?thesis using Cons.prems by (auto simp: fail_def)
  next
    case (Some files)
    let ?gs = "filter (\<lambda>(i, _). i \<noteq> ?i) gs"
    let ?W = "outputs root (set (grouped gs)) \<union> ?C"
    note split = groups_split [OF Cons.prems(2) Some]
    obtain r1 d1 c1 where fetch: "fetch_object env net client plan ?p object (d, c) = (r1, (d1, c1))"
      by (metis prod.exhaust)
    have f1: "stays ?S ?C d d1"
      using keepsD [OF keeps_fetch_object [of cache ?S ?C d] _ fetch] by simp
    obtain r2 d2 where restore: "restore_object env (do_kind object) ?p root files d1 = (r2, d2)" by force
    from restore_object_done [OF hash ws workspace_rooted [OF ws Cons.prems(1) f1] split(2) restore]
    have f2: "stays ?S (outputs root (set files)) d1 d2"
      and whole: "r2 = Inr () \<longrightarrow> (\<forall>f \<in> set files. restored env root d2 f)" by auto
    obtain r3 d3 where remove: "map_errE IoFailed (remove_file ?p) d2 = (r3, d3)" by force
    have p: "loc ?p \<in> ?C" by (simp add: cache_names in_below)
    have f3: "stays ?S ?C d2 d3"
      by (rule keepsD [OF keeps_map_errE [OF keeps_file_ops(1)] stays_refl remove]) (use p in auto)
    have sub: "outputs root (set files) \<subseteq> ?W" using split(1) outputs_mono [of "set files" "set (grouped gs)"] by blast
    have g1: "stays ?S ?W d d1" and g2: "stays ?S ?W d d2" and g3: "stays ?S ?W d d3"
      using stays_mono [OF f1, of ?S ?W] stays_mono [OF f2, of ?S ?W] stays_mono [OF f3, of ?S ?W] sub
      by (blast intro: stays_trans)+
    have run: "(case r1 of Inl e \<Rightarrow> (Inl e, (d1, c1)) | Inr _ \<Rightarrow> (case r2 of Inl e \<Rightarrow> (Inl e, (d2, c1))
        | Inr _ \<Rightarrow> (case r3 of Inl e \<Rightarrow> (Inl e, (d3, c1)) | Inr _ \<Rightarrow>
            retrieve_objects env net client plan root cache objects ?gs (d3, c1)))) = (r, (d', c'))"
      using Cons.prems(3) fetch restore remove
      by (simp add: Some Let_def thenE_def bindE_def on_local_def split: sum.splits)
    show ?thesis
    proof (cases "(\<exists>x. r1 = Inr x) \<and> (\<exists>x. r2 = Inr x) \<and> (\<exists>x. r3 = Inr x)")
      case True
      then have rest: "retrieve_objects env net client plan root cache objects ?gs (d3, c1) = (r, (d', c'))"
        using run by auto
      have "rooted (loc root) d3" by (rule workspace_rooted [OF ws Cons.prems(1) g3])
      from Cons.IH [OF this groups_ok_rest [OF Cons.prems(2)] rest]
      have f4: "stays ?S (outputs root (set (grouped ?gs)) \<union> ?C) d3 d'"
        and left: "\<forall>left. r = Inr left \<longrightarrow> (\<forall>f \<in> set (grouped ?gs). f \<in> set (grouped left) \<or> restored env root d' f)"
        by auto
      have "restored env root d' f" if f: "f \<in> set files" for f
      proof -
        have cache: "outputs root {f} \<inter> ?C = {}"
          using outputs_area [of root "{f}"] work by (auto simp: confined_def)
        have "outputs root {f} \<inter> outputs root {g} = {}" if "g \<in> set (grouped ?gs)" for g
          using split(3) f that by (intro outputs_apart) blast
        then have "outputs root {f} \<inter> (outputs root (set (grouped ?gs)) \<union> ?C) = {}"
          using cache by (fastforce simp: outputs_def)
        moreover have "restored env root d3 f"
          using whole True f by (intro restored_stays [OF _ f3 cache]) auto
        ultimately show ?thesis using restored_stays [OF _ f4] by blast
      qed
      moreover have "stays ?S ?W d d'"
        using g3 stays_mono [OF f4, of ?S ?W] split(1) outputs_mono [of "set (grouped ?gs)" "set (grouped gs)"]
        by (blast intro: stays_trans)
      ultimately show ?thesis using left split(1) by blast
    next
      case False
      then show ?thesis using run g1 g2 g3 by (auto split: sum.splits)
    qed
  qed
qed

section \<open>The dataset\<close>

lemma restore_done:
  assumes hash: "streaming (rx_hash env)" and work: "confined root cache" and "rooted (loc root) d"
    and run: "restore env net client plan root cache (d, c) = (r, (d', c'))"
  shows "stays (area root cache) (area root cache) d d'
     \<and> (r = Inr () \<longrightarrow> (\<exists>files. dec_manifest client (dp_manifest plan) = Some files
          \<and> of_nat (length files) = dd_file_count (dp_dataset plan)
          \<and> (\<forall>f \<in> set files. restored env root d' f)))"
proof (cases "\<exists>files gs. dec_manifest client (dp_manifest plan) = Some files
    \<and> of_nat (length files) = dd_file_count (dp_dataset plan)
    \<and> group_files env root files [] [] (d, c) = (Inr gs, (d, c))")
  case True
  then obtain files gs where files: "dec_manifest client (dp_manifest plan) = Some files"
    "of_nat (length files) = dd_file_count (dp_dataset plan)"
    and group: "group_files env root files [] [] (d, c) = (Inr gs, (d, c))" by blast
  have gs: "groups_ok gs" "set (grouped gs) = set files"
    using group_files_Inr [OF group] by (simp_all add: groups_ok_def)
  have sorted: "set (grouped (sort_members gs)) = set files"
    using sort_members_grouped [of gs] gs(2) by (metis set_mset_mset)
  obtain r1 d1 c1 where objects: "retrieve_objects env net client plan root cache (dp_objects plan)
      (sort_members gs) (d, c) = (r1, (d1, c1))" by (metis prod.exhaust)
  have result: "(d', c') = (d1, c1) \<and> (r = Inr () \<longrightarrow> r1 = Inr [])"
    using run files group objects
    by (auto simp: restore_def ensure_def thenE_def bindE_def ok_def fail_def split: sum.splits if_splits)
  from retrieve_objects_done [OF hash work assms(3) sort_members_ok [OF gs(1)] objects]
  have "stays (area root cache) (outputs root (set files) \<union> below (loc cache)) d d1"
    and left: "r1 = Inr [] \<Longrightarrow> \<forall>f \<in> set files. restored env root d1 f"
    unfolding sorted by auto
  then have "stays (area root cache) (area root cache) d d1"
    using outputs_area [of root "set files"] by (blast intro: stays_mono)
  then show ?thesis using result left files by auto
next
  case False
  have "(d', c') = (d, c) \<and> r \<noteq> Inr ()"
    using run False group_files_state [of env root _ "[]" "[]" "(d, c)"]
    by (auto simp: restore_def ensure_def thenE_def bindE_def ok_def fail_def
        split: sum.splits if_splits option.splits prod.splits)
  then show ?thesis by auto
qed

section \<open>The directories of a run\<close>

definition tree_ok :: "disk \<Rightarrow> bool" where
  "tree_ok d \<longleftrightarrow> (\<forall>k n. node_at d k \<noteq> None \<longrightarrow> n < length k \<longrightarrow> node_at d (take n k) = Some Directory)"

text \<open>The places of a run: the parent with the result, the partial and the cache directory in it.\<close>

definition places :: "path \<Rightarrow> path \<Rightarrow> path \<Rightarrow> bool" where
  "places partial cache destination \<longleftrightarrow> (\<exists>r a b x. loc partial = r @ [Normal a] \<and> loc cache = r @ [Normal b]
     \<and> loc destination = r @ [Normal x] \<and> distinct [a, b, x])"

lemma take_snoc_ne: "n \<le> length (r @ [x]) \<Longrightarrow> take n (r @ [x]) \<noteq> r @ [y] @ l \<or> (x = y \<and> l = [])"
  by (auto simp: take_Cons' split: if_splits dest: arg_cong [of _ _ length])

lemma confined_siblings: "places partial cache destination \<Longrightarrow> confined partial cache"
proof -
  assume "places partial cache destination"
  then obtain r a b where l: "loc partial = r @ [Normal a]" "loc cache = r @ [Normal b]" "a \<noteq> b"
    by (auto simp: places_def)
  have "take n (loc partial) \<notin> below (loc partial) \<union> below (loc cache)" if "n \<le> length (loc partial)" for n
    using take_snoc_ne [of n r "Normal a"] that l by (fastforce simp: in_below)
  then show ?thesis using l by (auto simp: confined_def workspace_def in_below)
qed

lemma create_dir_run:
  assumes "create_dir p d = (r, d')"
  shows "only {loc p} d d' \<and> (r = Inr () \<longrightarrow> loc p \<noteq> [] \<and> node_at d (butlast (loc p)) = Some Directory
     \<and> dk_nodes d' = (dk_nodes d)(loc p := Some Directory))"
  using assms by (auto simp: create_dir_def disk_op_def parent_is_dir_def set_node_def only_def
      split: option.splits if_splits)

lemma remove_dir_all_run: "remove_dir_all p d = (r, d') \<Longrightarrow> stays (tree (loc p)) (tree (loc p)) d d'"
  by (rule keepsD [OF keeps_remove_dir_all stays_refl]) auto

lemma rename_dir_run:
  assumes "rename src dst d = (r, d')" and "node_at d (loc src) = Some Directory" and "loc src \<noteq> loc dst"
  shows "dk_nodes d' = (case r of Inl _ \<Rightarrow> dk_nodes d | Inr _ \<Rightarrow> dk_nodes (move_tree (loc src) (loc dst) d))"
  using assms by (auto simp: rename_def disk_op_def move_tree_def split: option.splits if_splits)

lemma restored_moved:
  assumes "restored env src d f" and "dk_nodes d' = dk_nodes (move_tree (loc src) (loc dst) d)"
  shows "restored env dst d' f"
proof -
  from assms(1) obtain p bs where p: "safe_path src (mf_path f) = Some p" "file_bytes d p = Some bs"
    "of_nat (length bs) = mf_size f"
    "digest_of (rx_hash env) (dg_algorithm (mf_digest f)) bs = dg_value (mf_digest f)"
    by (auto simp: restored_def)
  obtain q where q: "safe_path dst (mf_path f) = Some q" using p(1) by (auto simp: safe_path_def split: if_splits)
  let ?l = "map Normal (split_on (CHR ''/'') (mf_path f))"
  have locs: "loc p = loc src @ ?l" "loc q = loc dst @ ?l" "?l \<noteq> []" "?l \<noteq> [RootDir]"
    using loc_safe_path [OF p(1)] loc_safe_path [OF q] by (auto simp: map_eq_Cons_conv)
  then have "dk_nodes d' (loc q) = dk_nodes d (loc p)" using assms(2) by (simp add: move_tree_def)
  then have "file_bytes d' q = Some bs"
    using p(2) locs by (auto simp: file_bytes_Some append_eq_Cons_conv)
  then show ?thesis using q p(3,4) unfolding restored_def by blast
qed

lemma rooted_new:
  assumes "tree_ok d" and "dk_nodes d' = (dk_nodes d)(k := Some Directory)"
    and "k \<noteq> []" and "node_at d (butlast k) = Some Directory"
  shows "rooted k d'"
  unfolding rooted_def
proof (intro allI impI)
  fix n assume n: "n \<le> length k"
  show "node_at d' (take n k) = Some Directory"
  proof (cases "n < length k - 1")
    case True
    then have "node_at d (take n (butlast k)) = Some Directory"
      using assms(1,4) by (simp add: tree_ok_def)
    moreover have "take n (butlast k) = take n k" using True by (simp add: take_butlast)
    ultimately show ?thesis using assms(2) by (auto simp: node_at_def)
  next
    case False
    then have "n = length k - 1 \<or> n = length k" using n by linarith
    then have "take n k = butlast k \<or> take n k = k" by (auto simp: butlast_conv_take)
    moreover have "butlast k \<noteq> k" using assms(3) by (cases k rule: rev_cases) auto
    then have "node_at d' (butlast k) = Some Directory" "node_at d' k = Some Directory"
      using assms(2,4) by (auto simp: node_at_def split: if_splits)
    ultimately show ?thesis by auto
  qed
qed


lemma places_apart:
  assumes "places partial cache destination"
  shows "take n (loc partial) \<noteq> loc cache" "tree (loc partial) \<inter> tree (loc cache) = {}"
    "tree (loc destination) \<inter> (tree (loc partial) \<union> tree (loc cache)) = {}" "loc partial \<noteq> loc destination"
proof -
  obtain r a b x where l: "loc partial = r @ [Normal a]" "loc cache = r @ [Normal b]"
    "loc destination = r @ [Normal x]" "distinct [a, b, x]" using assms by (auto simp: places_def)
  show "take n (loc partial) \<noteq> loc cache"
  proof
    assume eq: "take n (loc partial) = loc cache"
    then have "length (take n (loc partial)) = Suc (length r)" using l(2) by simp
    then have "length (loc partial) \<le> n" using l(1) by (simp add: min_def split: if_splits)
    then show False using eq l by simp
  qed
  show "tree (loc partial) \<inter> tree (loc cache) = {}"
    "tree (loc destination) \<inter> (tree (loc partial) \<union> tree (loc cache)) = {}" "loc partial \<noteq> loc destination"
    using l by (auto simp: in_tree)
qed

definition work_area :: "path \<Rightarrow> path \<Rightarrow> location set" where
  "work_area partial cache = tree (loc partial) \<union> tree (loc cache)"

lemma area_work: "stays (area partial cache) (area partial cache) d d' \<Longrightarrow> only (work_area partial cache) d d'"
  unfolding stays_def work_area_def below_def by (blast intro: only_mono)

lemma only_work [intro]:
  "only {loc partial} d d' \<Longrightarrow> only (work_area partial cache) d d'"
  "only {loc cache} d d' \<Longrightarrow> only (work_area partial cache) d d'"
  "stays (tree (loc partial)) W d d' \<Longrightarrow> only (work_area partial cache) d d'"
  "stays (tree (loc cache)) W d d' \<Longrightarrow> only (work_area partial cache) d d'"
  unfolding stays_def work_area_def by (auto elim!: only_mono)

lemma try_local_iff: "on_local (tryE m) (d, c) = (r, s') \<longleftrightarrow> (\<exists>x d'. m d = (x, d') \<and> r = Inr x \<and> s' = (d', c))"
  by (auto simp: on_local_def tryE_def split: prod.splits)

lemma discard_partial:
  "thenE (on_local (tryE (remove_dir_all partial))) (fail e) (d, c) = (r, (d', c')) \<Longrightarrow>
     r = Inl e \<and> only (work_area partial cache) d d'"
  using only_work(3) [OF remove_dir_all_run]
  by (auto simp: thenE_def bindE_def fail_def try_local_iff on_local_def tryE_def split: prod.splits)

lemma restore_to_done:
  assumes hash: "streaming (rx_hash env)" and tree: "tree_ok d"
    and places: "places partial cache destination" and free: "node_at d (loc destination) = None"
    and run: "restore_to env net client plan partial cache destination (d, c) = (r, (d', c'))"
  shows "case r of Inl _ \<Rightarrow> only (work_area partial cache) d d'
     | Inr _ \<Rightarrow> only (work_area partial cache \<union> tree (loc destination)) d d'
         \<and> (\<exists>files. dec_manifest client (dp_manifest plan) = Some files
              \<and> of_nat (length files) = dd_file_count (dp_dataset plan)
              \<and> (\<forall>f \<in> set files. restored env destination d' f))"
proof -
  note apart = places_apart [OF places]
  let ?A = "work_area partial cache"
  obtain r1 d1 where r1: "create_dir partial d = (r1, d1)" by force
  obtain r2 d2 where r2: "create_dir cache d1 = (r2, d2)" by force
  obtain r3 d3 c3 where r3: "restore env net client plan partial cache (d2, c) = (r3, (d3, c3))"
    by (metis prod.exhaust)
  obtain r4 d4 where r4: "remove_dir_all cache d3 = (r4, d4)" by force
  obtain r5 d5 where r5: "rename partial destination d4 = (r5, d5)" by force
  note n1 = create_dir_run [OF r1] and n2 = create_dir_run [OF r2]
  have o1: "only ?A d d1" and o2: "only ?A d1 d2" using n1 n2 by auto
  have cont: "(case r1 of Inl e \<Rightarrow> (Inl (IoFailed e), (d1, c)) | Inr _ \<Rightarrow> case r2 of Inl e \<Rightarrow> (Inl (IoFailed e), (d2, c))
      | Inr _ \<Rightarrow> (case r3 of Inl e \<Rightarrow> thenE (on_local (tryE (remove_dir_all partial))) (fail e) (d4, c3)
         | Inr _ \<Rightarrow> (case r5 of Inl e \<Rightarrow> thenE (on_local (tryE (remove_dir_all partial))) (fail (IoFailed e)) (d5, c3)
            | Inr _ \<Rightarrow> (Inr (), (d5, c3))))) = (r, (d', c'))"
    using run r1 r2 r3 r4 r5
    by (simp add: restore_to_def thenE_def bindE_def on_local_def map_errE_def tryE_def ok_def split: sum.splits)
  show ?thesis
  proof (cases "r1 = Inr () \<and> r2 = Inr ()")
    case False
    then show ?thesis using cont o1 o2 by (cases r1; cases r2) (auto intro: only_trans)
  next
    case True
    then have new: "loc partial \<noteq> []" "node_at d (butlast (loc partial)) = Some Directory"
      "dk_nodes d1 = (dk_nodes d)(loc partial := Some Directory)" using n1 by auto
    have "rooted (loc partial) d2"
      by (rule rooted_only [OF rooted_new [OF tree new(3,1,2)], of "{loc cache}"]) (use n2 apart(1) in auto)
    note done3 = restore_done [OF hash confined_siblings [OF places] this r3]
    have o3: "only ?A d2 d3" using done3 area_work by blast
    have o4: "only ?A d3 d4" using remove_dir_all_run [OF r4] by auto
    have o: "only ?A d d4" using o1 o2 o3 o4 by (blast intro: only_trans)
    show ?thesis
    proof (cases r3)
      case (Inl e)
      then have "thenE (on_local (tryE (remove_dir_all partial))) (fail e) (d4, c3) = (r, (d', c'))"
        using cont True by simp
      from discard_partial [OF this, of cache] show ?thesis using o by (auto intro: only_trans)
    next
      case (Inr u)
      have "rooted (loc partial) d3"
        using done3 \<open>rooted (loc partial) d2\<close> confined_siblings [OF places] workspace_rooted
        unfolding confined_def by blast
      then have "node_at d3 (take (length (loc partial)) (loc partial)) = Some Directory"
        unfolding rooted_def by blast
      then have "node_at d3 (loc partial) = Some Directory" by simp
      moreover have "loc partial \<notin> tree (loc cache)" using apart(2) tree_self by blast
      ultimately have "node_at d4 (loc partial) = Some Directory"
        using remove_dir_all_run [OF r4] by (auto simp: stays_def only_def node_at_def)
      note moved = rename_dir_run [OF r5 this apart(4)]
      show ?thesis
      proof (cases r5)
        case (Inl e)
        then have "only ?A d4 d5" using moved by (simp add: only_def)
        then have "only ?A d d5" using o by (blast intro: only_trans)
        moreover have "thenE (on_local (tryE (remove_dir_all partial))) (fail (IoFailed e)) (d5, c3) = (r, (d', c'))"
          using cont True \<open>r3 = Inr u\<close> Inl by simp
        from discard_partial [OF this, of cache] have "r = Inl (IoFailed e) \<and> only ?A d5 d'" .
        ultimately show ?thesis by (auto intro: only_trans)
      next
        case (Inr v)
        then have d': "r = Inr ()" "d' = d5" using cont True \<open>r3 = Inr u\<close> by auto
        have nodes: "dk_nodes d5 = dk_nodes (move_tree (loc partial) (loc destination) d4)" using moved Inr by simp
        have "restored env partial d4 f" if "restored env partial d3 f" for f
          by (rule restored_stays [OF that remove_dir_all_run [OF r4]])
            (use outputs_area [of partial "{f}"] apart(2) in \<open>auto simp: below_def\<close>)
        then have "restored env destination d5 f" if "restored env partial d3 f" for f
          using restored_moved [OF _ nodes] that by blast
        moreover have "only (?A \<union> tree (loc destination)) d d5"
          using o nodes by (auto simp: only_def move_tree_def work_area_def tree_def)
        ultimately show ?thesis using d' done3 \<open>r3 = Inr u\<close> by auto
      qed
    qed
  qed
qed

section \<open>The run\<close>

lemma sibling_name: "plain_name (''.'' @ name @ ''.courier-'' @ purpose @ ''-'' @ uuid_to_string i)"
  if "plain_name name" and "CHR ''/'' \<notin> set purpose"
  using that uuid_chars [of i] by (auto simp: plain_name_def)

lemma loc_sibling:
  "plain_name name \<Longrightarrow> CHR ''/'' \<notin> set purpose \<Longrightarrow>
     loc (sibling parent name purpose i)
       = loc parent @ [Normal (''.'' @ name @ ''.courier-'' @ purpose @ ''-'' @ uuid_to_string i)]"
  unfolding sibling_def by (rule loc_join_name [OF sibling_name])

lemma destination_parent_loc:
  assumes "path_file_name p = Some name"
  shows "plain_name name" and "loc p = loc (destination_parent p) @ [Normal name]"
proof -
  have last: "components p \<noteq> [] \<and> last (components p) = Normal name"
    using assms by (auto simp: path_file_name_def last_rev hd_rev split: list.splits Component.splits)
  then obtain cs where cs: "components p = cs @ [Normal name]" by (metis append_butlast_last_id)
  then show "plain_name name" using normal_in_components [of name p] by simp
  have "canonical cs" using canonical_butlast [OF canonical_components [of p]] cs by simp
  moreover have "path_parent p = Some (render cs)" using cs by (simp add: path_parent_def)
  moreover have "loc ''.'' = []" by (simp add: loc_def components_def is_absolute_def)
  moreover have "render cs = [] \<Longrightarrow> loc (render cs) = []" by (simp add: loc_def components_def is_absolute_def)
  ultimately show "loc p = loc (destination_parent p) @ [Normal name]"
    using cs loc_render [of cs] by (auto simp: destination_parent_def loc_def)
qed

lemma siblings_placed:
  assumes "path_file_name destination = Some name"
  shows "places (sibling (destination_parent destination) name ''partial'' i)
     (sibling (destination_parent destination) name ''cache'' j) destination"
proof -
  have "length (''.'' @ name @ ''.courier-'' @ q) \<noteq> length name" for q by simp
  then have "''.'' @ name @ ''.courier-'' @ q \<noteq> name" for q by metis
  then show ?thesis
    using destination_parent_loc [OF assms] loc_sibling [of name "''partial''" "destination_parent destination" i]
      loc_sibling [of name "''cache''" "destination_parent destination" j]
    by (auto simp: places_def)
qed

lemma check_destination_Inr:
  "check_destination destination d = (Inr (parent, name), d') \<Longrightarrow>
     d' = d \<and> node_at d (loc destination) = None \<and> parent = destination_parent destination
     \<and> path_file_name destination = Some name"
  by (auto simp: check_destination_def Let_def ensure_def path_exists_def comp_simps split: if_splits option.splits)

lemma check_destination_state: "check_destination destination d = (r, d') \<Longrightarrow> d' = d"
  by (auto simp: check_destination_def Let_def ensure_def bindE_def thenE_def gets_def ok_def fail_def
      split: if_splits option.splits)

lemma check_url_state: "check_url u s = (r, s') \<Longrightarrow> s' = s"
  by (auto simp: check_url_def ensure_def bindE_def thenE_def ok_def fail_def split: if_splits option.splits)

lemma open_session_disk: "open_download_session renv registry code (d, c) = (r, (d', c')) \<Longrightarrow> d' = d"
proof -
  define same where "same = (\<lambda>x. x = d)"
  have "keeps (\<lambda>s. same (fst s)) (open_download_session renv registry code)"
    unfolding open_download_session_def Let_def ensure_def by (intro keeps_intros)
  then show "open_download_session renv registry code (d, c) = (r, (d', c')) \<Longrightarrow> d' = d"
    using keepsD [of "\<lambda>s. same (fst s)" _ "(d, c)" r "(d', c')"] by (simp add: same_def)
qed

lemma registry_disk: "on_registry m (d, c) = (r, (d', c')) \<Longrightarrow> d' = d"
  by (auto simp: map_errE_def with_client_def split: prod.splits sum.splits)

lemma registry_Inr: "on_registry m (d, c) = (Inr x, (d', c')) \<longleftrightarrow> d' = d \<and> m c = (Inr x, c')"
  by (auto simp: map_errE_def with_client_def split: prod.splits sum.splits)


definition run_area :: "path \<Rightarrow> uuid \<Rightarrow> uuid \<Rightarrow> location set" where
  "run_area destination partial_id cache_id = (case path_file_name destination of None \<Rightarrow> {}
     | Some name \<Rightarrow> work_area (sibling (destination_parent destination) name ''partial'' partial_id)
         (sibling (destination_parent destination) name ''cache'' cache_id))"

lemma run_area_apart: "tree (loc destination) \<inter> run_area destination i j = {}"
proof (cases "path_file_name destination")
  case (Some name)
  from places_apart(3) [OF siblings_placed [OF Some, of i j]] show ?thesis
    by (simp add: run_area_def Some work_area_def)
qed (simp add: run_area_def)

text \<open>The plan a run obtained: from the session its invitation opened, for its transfer.\<close>

definition obtained_plan ::
  "'w registry_env \<Rightarrow> string \<Rightarrow> string option \<Rightarrow> string \<Rightarrow> disk \<times> 'w client_state \<Rightarrow> 'w RegistryClient
     \<Rightarrow> RegistryDownloadPlan \<Rightarrow> bool" where
  "obtained_plan renv registry invitation transfer s client plan \<longleftrightarrow>
     (\<exists>code c c'. invitation = Some code
        \<and> open_download_session renv registry code s = (Inr client, (fst s, c))
        \<and> download_plan client transfer c = (Inr plan, c') \<and> dd_transfer_id (dp_dataset plan) = transfer)"

definition retrieved :: "'h retrieve_env \<Rightarrow> 'w RegistryClient \<Rightarrow> path \<Rightarrow> RegistryDownloadPlan \<Rightarrow> disk \<Rightarrow> bool" where
  "retrieved env client destination plan d \<longleftrightarrow>
     (\<exists>files. dec_manifest client (dp_manifest plan) = Some files
        \<and> of_nat (length files) = dd_file_count (dp_dataset plan)
        \<and> (\<forall>f \<in> set files. restored env destination d f))"

lemma comp_steps:
  shows bindE_Inr_step: "m s = (Inr x, t) \<Longrightarrow> bindE m f s = f x t"
    and bindE_Inl_step: "m s = (Inl e, t) \<Longrightarrow> bindE m f s = (Inl e, t)"
    and thenE_Inr_step: "m s = (Inr x, t) \<Longrightarrow> thenE m k s = k t"
    and thenE_Inl_step: "m s = (Inl e, t) \<Longrightarrow> thenE m k s = (Inl e, t)"
  by (simp_all add: bindE_def thenE_def)

lemma retrieve_run_done:
  fixes c :: "'w client_state"
  assumes hash: "streaming (rx_hash env)" and tree: "tree_ok d"
    and run: "retrieve_run env renv net invitation i j registry transfer destination (d, c) = (r, (d', c'))"
  shows "case r of Inl _ \<Rightarrow> only (run_area destination i j) d d'
     | Inr (t, n) \<Rightarrow> node_at d (loc destination) = None
         \<and> only (run_area destination i j \<union> tree (loc destination)) d d'
         \<and> (\<exists>client plan. obtained_plan renv registry invitation transfer (d, c) client plan
              \<and> retrieved env client destination plan d' \<and> t = transfer \<and> n = dd_file_count (dp_dataset plan))"
proof -
  let ?url = "check_url (rx_parse_url env registry)" and ?dest = "on_local (check_destination destination)"
  obtain r0 where url: "check_url (rx_parse_url env registry) (d, c) = (r0, (d, c))"
    using check_url_state by (metis prod.exhaust)
  obtain r1 where dest: "check_destination destination d = (r1, d)"
    using check_destination_state by (metis prod.exhaust)
  show ?thesis
  proof (cases "\<exists>u pn code. r0 = Inr u \<and> r1 = Inr pn \<and> invitation = Some code")
    case False
    then consider e where "r0 = Inl e" | e where "r0 = Inr ()" "r1 = Inl e"
      | q where "r0 = Inr ()" "r1 = Inr q" "invitation = None"
      by (cases r0; cases r1; cases invitation) auto
    then have "(\<exists>e. r = Inl e) \<and> d' = d"
    proof cases
      case 1
      from run [unfolded retrieve_run_def thenE_Inl_step [where m = ?url, OF url [unfolded 1]]] show ?thesis by auto
    next
      case 2
      then have "on_local (check_destination destination) (d, c) = (Inl e, (d, c))" by (simp add: on_local_def dest)
      from run [unfolded retrieve_run_def thenE_Inr_step [where m = ?url, OF url [unfolded 2(1)]]
          bindE_Inl_step [where m = ?dest, OF this]]
      show ?thesis by auto
    next
      case 3
      then have "on_local (check_destination destination) (d, c) = (Inr q, (d, c))" by (simp add: on_local_def dest)
      from run [unfolded retrieve_run_def thenE_Inr_step [where m = ?url, OF url [unfolded 3(1)]]
          bindE_Inr_step [where m = ?dest, OF this] 3(3) option.case]
      show ?thesis by (auto simp: fail_def split: prod.splits)
    qed
    then show ?thesis by auto
  next
    case True
    then obtain parent name code where ok: "r0 = Inr ()" "r1 = Inr (parent, name)" "invitation = Some code"
      by (metis prod.exhaust old.unit.exhaust)
    from check_destination_Inr [OF dest [unfolded ok]] have free: "node_at d (loc destination) = None"
      and parent: "parent = destination_parent destination" and name: "path_file_name destination = Some name" by auto
    let ?partial = "sibling parent name ''partial'' i" and ?cache = "sibling parent name ''cache'' j"
    have area: "run_area destination i j = work_area ?partial ?cache" by (simp add: run_area_def name parent)
    obtain r2 d2 c2 where opened: "open_download_session renv registry code (d, c) = (r2, (d2, c2))"
      by (metis prod.exhaust)
    then have session: "open_download_session renv registry code (d, c) = (r2, (d, c2))"
      using open_session_disk [OF opened] by simp
    have dest': "on_local (check_destination destination) (d, c) = (Inr (parent, name), (d, c))"
      by (simp add: on_local_def dest ok)
    note head = run [unfolded retrieve_run_def thenE_Inr_step [where m = ?url, OF url [unfolded ok]] bindE_Inr_step [where m = ?dest, OF dest']
        prod.case ok option.case]
    show ?thesis
    proof (cases r2)
      case (Inl e)
      then have "r = Inl e \<and> d' = d"
        using head [unfolded bindE_Inl_step [where m = "open_download_session renv registry code", OF session [unfolded Inl]]] by simp
      then show ?thesis by simp
    next
      case (Inr client)
      note head = head [unfolded bindE_Inr_step [where m = "open_download_session renv registry code", OF session [unfolded Inr]]]
      obtain r3 c3 where plan: "download_plan client transfer c2 = (r3, c3)" by force
      define p where "p = projr r3"
      then have p: "\<And>x. r3 = Inr x \<Longrightarrow> p = x" by simp
      obtain r4 d4 c4 where restore: "restore_to env net client p ?partial ?cache destination (d, c3) = (r4, (d4, c4))"
        by (metis prod.exhaust)
      have cont: "(case r3 of Inl e \<Rightarrow> (Inl (RegistryFailed e), (d, c3)) | Inr _ \<Rightarrow>
          if dd_transfer_id (dp_dataset p) \<noteq> transfer
          then (Inl (Message ''Registry returned a different transfer''), (d, c3))
          else (case r4 of Inl e \<Rightarrow> (Inl e, (d4, c4))
            | Inr _ \<Rightarrow> (Inr (transfer, dd_file_count (dp_dataset p)), (d4, c4)))) = (r, (d', c'))"
      proof (cases r3)
        case (Inl e)
        then have "on_registry (download_plan client transfer) (d, c2) = (Inl (RegistryFailed e), (d, c3))"
          using plan by (simp add: map_errE_def with_client_def)
        from head [unfolded bindE_Inl_step [where m = "on_registry (download_plan client transfer)", OF this]] show ?thesis using Inl by simp
      next
        case (Inr q)
        then have "on_registry (download_plan client transfer) (d, c2) = (Inr p, (d, c3))"
          using plan p by (simp add: map_errE_def with_client_def)
        from head [unfolded bindE_Inr_step [where m = "on_registry (download_plan client transfer)", OF this]] show ?thesis using Inr restore
          by (cases "dd_transfer_id (dp_dataset p) = transfer"; cases r4)
            (simp_all add: thenE_def bindE_def ensure_def ok_def fail_def)
      qed
      have "places ?partial ?cache destination" using siblings_placed [OF name] by (simp add: parent)
      note result = restore_to_done [OF hash tree this free restore]
      show ?thesis
      proof (cases "(\<exists>x. r3 = Inr x) \<and> dd_transfer_id (dp_dataset p) = transfer \<and> (\<exists>x. r4 = Inr x)")
        case True
        then obtain x where r: "r3 = Inr p" "dd_transfer_id (dp_dataset p) = transfer" "r4 = Inr x" using p by blast
        then have "r = Inr (transfer, dd_file_count (dp_dataset p))" "d' = d4" using cont by auto
        moreover have "retrieved env client destination p d4" using result r unfolding retrieved_def by auto
        moreover have "obtained_plan renv registry invitation transfer (d, c) client p"
          using ok(3) session Inr plan r unfolding obtained_plan_def by auto
        moreover have "only (work_area ?partial ?cache \<union> tree (loc destination)) d d4" using result r by simp
        ultimately show ?thesis using free unfolding area by auto
      next
        case False
        have "\<exists>e. r4 = Inl e" if "\<nexists>x. r4 = Inr x" using that by (cases r4) auto
        then have "(\<exists>e. r = Inl e) \<and> (d' = d \<or> d' = d4 \<and> (\<exists>e. r4 = Inl e))"
          using False cont by (cases r3) (auto split: if_splits)
        then show ?thesis using result unfolding area by auto
      qed
    qed
  qed
qed

end
