(* ===== verification/RetrieveProperties.thy ===== *)
theory RetrieveProperties
  imports RetrieveBehaviour RegistryProperties PlanProperties StoreProperties
begin

text \<open>
  The properties of the download side: a download that resumes, a retrieval that fails, a retrieval
  that succeeds, and the manifest the upload side writes as the retrieval reads it.
\<close>

section \<open>Resumable downloads\<close>

text \<open>C21: A download may be cut off at any point, by the network, the disk or a pause: the destination does
  not exist then and the partial file, if there is one, is a prefix of the object; and from any such
  state a download that succeeds leaves the whole object at the destination and no partial file.\<close>

theorem interrupted_download_resumes:
  fixes destination :: path
  defines "partial \<equiv> with_extension destination ''part''"
  assumes "loc destination \<noteq> loc partial" and "length obj < 2 ^ 64" and "serves_object net url obj"
    and "expected = None \<or> expected = Some (of_nat (length obj))"
    and "node_at d (loc destination) = None"
    and "node_at d (loc partial) = None \<or> (\<exists>k. file_bytes d partial = Some (take k obj))"
    and run: "download_object_resumable self net url destination expected pause observer (d, c) = (r, (d', c'))"
  shows "case r of
      Inl _ \<Rightarrow> node_at d' (loc destination) = None
        \<and> (node_at d' (loc partial) = None \<or> (\<exists>k. file_bytes d' partial = Some (take k obj)))
    | Inr n \<Rightarrow> n = of_nat (length obj) \<and> file_bytes d' destination = Some obj \<and> node_at d' (loc partial) = None"
proof -
  note step = download_prefix [OF assms(2) [unfolded partial_def] assms(3-5), of d self pause observer]
  have pre: "at_prefix d destination (with_extension destination ''part'') obj (fst (d, c))"
    using assms(6,7) by (simp add: at_prefix_def gone_def partial_def)
  show ?thesis
  proof (cases r)
    case (Inl e)
    from hoare_Inl [OF step pre run [unfolded Inl]] show ?thesis
      using Inl by (auto simp: at_prefix_def gone_def partial_def)
  next
    case (Inr n)
    from hoare_Inr [OF step pre run [unfolded Inr]] show ?thesis
      using Inr by (auto simp: fetched_def partial_def)
  qed
qed

text \<open>An object of three bytes whose first byte is on the disk, and a store that honours the range.\<close>

definition cut_disk :: disk where
  "cut_disk = \<lparr>dk_nodes = [[Normal ''o.part''] \<mapsto> RegularFile [7] 0], dk_fault = (\<lambda>_. None), dk_tick = 0,
     dk_clock = (\<lambda>_. 0)\<rparr>"

definition rest_net :: "nat download_net" where
  "rest_net = \<lparr>dn_get = (\<lambda>q w. ((0, Inr \<lparr>hr_status = 206, hr_host = None, hr_path = '''',
     hr_headers = [(''content-range'', ''bytes 1-'')], hr_body = [Inr [8, 9]]\<rparr>, []), w))\<rparr>"

lemma decimal_1: "decimal 1 = ''1''" and decimal_Suc_0: "decimal (Suc 0) = ''1''"
  by code_simp+

lemma decimal_one: "starts_with ''bytes 1-'' (''bytes '' @ decimal m @ ''-'') \<Longrightarrow> m = 1"
proof -
  assume "starts_with ''bytes 1-'' (''bytes '' @ decimal m @ ''-'')"
  then have "take (length (decimal m) + 1) ''1-'' = decimal m @ ''-''" by (simp add: starts_with_def)
  moreover have "decimal m \<noteq> ''''" by (rule decimal_ne)
  ultimately have "decimal m = ''1''"
    by (cases "decimal m" rule: list.exhaust; cases "tl (decimal m)") (auto simp: take_Cons' split: if_splits)
  also have "\<dots> = decimal 1" by (simp only: decimal_1)
  finally show "m = 1" by (rule decimal_inj)
qed

lemmas disk_eval = comp_defs on_disk_def with_client_def disk_op_def turn_def node_at_def set_node_def
  loc_def components_def is_absolute_def Let_def metadata_len_def rename_def open_output_def write_all_def
  append_bytes_def sync_file_def remove_file_def parent_is_dir_def can_replace_def

lemmas path_names = with_extension_def file_stem_def render_def

lemma cut_run:
  "\<exists>d' c'. download_object_resumable expiring_client rest_net '''' ''o'' (Some 3) never (\<lambda>_ w. w)
     (cut_disk, signed_in) = (Inr 3, (d', c'))"
  by (simp add: download_object_resumable_def resume_partial_def fetch_rest_def send_get_def store_body_def
      path_names disk_eval cut_disk_def rest_net_def pause_load_def flag_set_def never_def report_def
      resume_mode_def to_str_def starts_with_def decimal_1 decimal_Suc_0 is_success_def trace_event_def saturating_add_def
      byte_of_def)

lemma rest_serves: "serves_object rest_net url [7, 8, 9]"
proof -
  have "delivers [Inr [8, 9]] [8, 9]" by (auto simp: delivers_def intro: exI [of _ 2])
  then have "m \<le> length [7, 8, 9 :: u8] \<and> delivers [Inr [8, 9]] (drop m [7, 8, 9])"
    if "starts_with ''bytes 1-'' (''bytes '' @ decimal m @ ''-'')" for m
    using decimal_one [OF that] by simp
  then show ?thesis by (simp add: serves_object_def rest_net_def)
qed

theorem interrupted_download_resumes_witness:
  "\<exists>d' c'. download_object_resumable expiring_client rest_net '''' ''o'' (Some 3) never (\<lambda>_ w. w)
     (cut_disk, signed_in) = (Inr 3, (d', c')) \<and> file_bytes d' ''o'' = Some [7, 8, 9]"
proof -
  obtain d' c' where run: "download_object_resumable expiring_client rest_net '''' ''o'' (Some 3) never (\<lambda>_ w. w)
     (cut_disk, signed_in) = (Inr 3, (d', c'))" using cut_run by blast
  have l: "loc ''o'' = [Normal ''o'']" "loc (with_extension ''o'' ''part'') = [Normal ''o.part'']"
    by (simp_all add: path_names loc_def components_def is_absolute_def Let_def)
  have absent: "node_at cut_disk (loc ''o'') = None" by (simp add: l node_at_def cut_disk_def)
  have "file_bytes cut_disk (with_extension ''o'' ''part'') = Some (take 1 [7, 8, 9])"
    by (simp add: l file_bytes_Some cut_disk_def)
  then have cut: "node_at cut_disk (loc (with_extension ''o'' ''part'')) = None
      \<or> (\<exists>k. file_bytes cut_disk (with_extension ''o'' ''part'') = Some (take k [7, 8, 9]))" by blast
  have "loc ''o'' \<noteq> loc (with_extension ''o'' ''part'')" by (simp add: l)
  from interrupted_download_resumes [OF this _ rest_serves _ absent cut run]
  show ?thesis using run by simp
qed

section \<open>A dataset of one file\<close>

definition three_bytes :: string where
  "three_bytes = [char_of (7 :: nat), char_of (8 :: nat), char_of (9 :: nat)]"

definition dataset_json :: json where
  "dataset_json = JObj [(''transfer_id'', JStr ''t''), (''project_code'', JStr ''p''), (''source_name'', JStr ''s''),
     (''file_count'', JNum 1), (''original_bytes'', JNum 3), (''verified_at'', JStr ''''),
     (''hash_algorithm'', JStr ''sha256'')]"

definition object_json :: json where
  "object_json = JObj [(''object_id'', JStr ''1''), (''kind'', JStr ''file''), (''compression'', JStr ''none''),
     (''encoding_version'', JNum 1), (''original_bytes'', JNum 3), (''transport_bytes'', JNum 3),
     (''url'', JStr ''u'')]"

definition one_manifest :: "string \<Rightarrow> json" where
  "one_manifest digest = JObj [(''files'', JArr [JObj [(''path'', JStr ''a''), (''size'', JNum 3), (''mtime'', JStr ''''),
     (''digest'', JObj [(''algorithm'', JStr ''sha256''), (''value'', JStr digest)]),
     (''transport'', JObj [(''object_id'', JStr ''1''), (''member_index'', JNum 0)])]])]"

definition plan_json :: "string \<Rightarrow> json" where
  "plan_json digest = JObj [(''dataset'', dataset_json), (''expires_in_seconds'', JNum 60),
     (''manifest'', one_manifest digest), (''objects'', JArr [object_json])]"

definition library_session :: json where
  "library_session = JObj [(''access_token'', JStr ''a''), (''refresh_token'', JStr ''r''),
     (''expires_at'', JStr ''''), (''refresh_expires_at'', JStr ''''), (''projects'', JArr []),
     (''purpose'', JStr ''download'')]"

definition library_env :: "string \<Rightarrow> unit registry_env" where
  "library_env digest =
     \<lparr>re_send = (\<lambda>q w. (Inr (plain_response 200 (rq_url q)), w)),
      re_json = (\<lambda>r. Inr (if hr_path r = ''/api/v1/auth/invitations/exchange'' then library_session
                          else if hr_path r = ''/api/v1/downloads/t'' then plan_json digest else object_json)),
      re_is_json = (\<lambda>_. False), re_status_text = (\<lambda>_. ''''), re_uuid = (\<lambda>_. Some 1),
      re_time = (\<lambda>_. Some 0), re_draw = (\<lambda>n w. (0, w))\<rparr>"

definition library_net :: "unit download_net" where
  "library_net = \<lparr>dn_get = (\<lambda>q w. ((0, Inr \<lparr>hr_status = 200, hr_host = None, hr_path = '''', hr_headers = [],
     hr_body = [Inr [7, 8, 9]]\<rparr>, []), w))\<rparr>"

definition plain_url :: parsed_url where
  "plain_url = \<lparr>ur_scheme = ''https'', ur_host = Some ''h'', ur_username = '''', ur_password = None,
     ur_query = None, ur_fragment = None\<rparr>"

definition library_tools :: "bytes retrieve_env" where
  "library_tools = \<lparr>rx_hash = byte_hash, rx_zstd = (\<lambda>_. Inl (other_io '''')), rx_header = \<lparr>hj_to_vec = (\<lambda>_. Inl ''''),
     hj_from_slice = (\<lambda>_. Inl '''')\<rparr>, rx_nanos = (\<lambda>_. 0), rx_lowercase = (\<lambda>p. p), rx_text = (\<lambda>_. ''''),
     rx_parse_url = (\<lambda>_. Some plain_url)\<rparr>"

definition empty_disk :: disk where
  "empty_disk = \<lparr>dk_nodes = (\<lambda>_. None), dk_fault = (\<lambda>_. None), dk_tick = 0, dk_clock = (\<lambda>_. 0)\<rparr>"

definition fresh_state :: "unit client_state" where
  "fresh_state = new_state None ()"

definition library_client :: "string \<Rightarrow> unit RegistryClient" where
  "library_client digest = \<lparr>rc_base_url = '''', rc_observer = Some (\<lambda>_ w. (Inr (), w)), rc_env = library_env digest\<rparr>"

lemmas library_eval = client_eval library_env_def plain_response_def library_session_def send_json_def
  request_to_def response_json_def is_success_def replace_bearer_auth_def valid_header_def byte_of_def
  try_clone_def method_name_def dec_session_def dec_purpose_def dec_time_def dec_list_def dec_string_def
  struct_fields_def required_def optional_def Let_def new_client_def new_state_def fresh_state_def

lemma library_session_run:
  "\<exists>c. open_download_session (library_env digest) '''' ''code'' (d, fresh_state) = (Inr (library_client digest), (d, c))
     \<and> cs_auth c = Some \<lparr>as_access_token = ''a'', as_refresh_token = Some ''r''\<rparr> \<and> \<not> cs_poisoned c"
  by (simp add: open_download_session_def exchange_invitation_def with_client_def ensure_def library_client_def
      library_eval trim_end_slashes.simps)

definition library_object :: RegistryDownloadObject where
  "library_object = \<lparr>do_object_id = 1, do_kind = ''file'', do_compression = ''none'', do_encoding_version = 1,
     do_original_bytes = 3, do_transport_bytes = Some 3, do_url = Some ''u''\<rparr>"

definition library_plan :: "string \<Rightarrow> RegistryDownloadPlan" where
  "library_plan digest =
     \<lparr>dp_dataset = \<lparr>dd_transfer_id = ''t'', dd_project_code = ''p'', dd_source_name = ''s'', dd_file_count = 1,
        dd_original_bytes = 3, dd_transport_bytes = None, dd_verified_at = 0, dd_hash_algorithm = Sha256\<rparr>,
      dp_expires_in_seconds = 60, dp_manifest = one_manifest digest,
      dp_objects = [library_object]\<rparr>"

lemma library_parts [simp]:
  "dp_manifest (library_plan g) = one_manifest g" "dp_objects (library_plan g) = [library_object]"
  "dd_file_count (dp_dataset (library_plan g)) = 1" "dd_transfer_id (dp_dataset (library_plan g)) = ''t''"
  "do_object_id library_object = 1" "do_kind library_object = ''file''" "do_url library_object = Some ''u''"
  "do_transport_bytes library_object = Some 3" "rx_lowercase library_tools = (\<lambda>p. p)"
  by (simp_all add: library_plan_def library_object_def library_tools_def)

lemma library_plan_run:
  assumes "cs_auth c = Some \<lparr>as_access_token = ''a'', as_refresh_token = Some ''r''\<rparr>" and "\<not> cs_poisoned c"
  shows "\<exists>c'. download_plan (library_client digest) ''t'' c = (Inr (library_plan digest), c')
     \<and> cs_auth c' = cs_auth c \<and> \<not> cs_poisoned c'"
  using assms
  by (simp add: download_plan_def authorized_def library_client_def library_eval dec_download_plan_def
      dec_dataset_def dec_download_object_def dec_uuid_def dec_word_def dec_hash_algorithm_def hash_algorithm_fmt_def
      plan_json_def dataset_json_def object_json_def library_plan_def library_object_def)

lemma library_authorize_run:
  assumes "cs_auth c = Some \<lparr>as_access_token = ''a'', as_refresh_token = Some ''r''\<rparr>" and "\<not> cs_poisoned c"
  shows "\<exists>c'. authorize_download_object (library_client digest) ''t'' i c
       = (Inr (library_object), c') \<and> cs_auth c' = cs_auth c \<and> \<not> cs_poisoned c'"
  using assms
  by (simp add: authorize_download_object_def authorized_def library_client_def library_eval
      dec_download_object_def dec_uuid_def dec_word_def object_json_def library_plan_def library_object_def)

lemmas disk_steps = comp_defs on_disk_def with_client_def disk_op_def turn_def node_at_def set_node_def
  metadata_len_def open_output_def write_all_def append_bytes_def sync_file_def remove_file_def parent_is_dir_def

lemma library_fetch_run:
  assumes "loc p = [Normal C, Normal U]" and "loc (with_extension p ''part'') = [Normal C, Normal V]" and "U \<noteq> V"
    and "dk_fault d = (\<lambda>_. None)" and "dk_nodes d [Normal C] = Some Directory"
    and "dk_nodes d [Normal C, Normal U] = None" and "dk_nodes d [Normal C, Normal V] = None"
  shows "\<exists>d' c' t. download_object_resumable (library_client g) library_net ''u'' p (Some 3) never (\<lambda>_ w. w) (d, c)
     = (Inr 3, (d', c')) \<and> dk_fault d' = (\<lambda>_. None) \<and> cs_auth c' = cs_auth c \<and> cs_poisoned c' = cs_poisoned c
     \<and> dk_nodes d' = (dk_nodes d)([Normal C, Normal V] := None, [Normal C, Normal U] \<mapsto> RegularFile [7, 8, 9] t)"
  using assms
  by (simp add: download_object_resumable_def resume_partial_def fetch_rest_def send_get_def store_body_def Let_def
      disk_steps rename_def can_replace_def library_net_def pause_load_def flag_set_def never_def report_def resume_mode_def
      is_success_def trace_event_def saturating_add_def fun_upd_twist)
    (rule exI, rule refl)

lemma copied_run:
  assumes "loc p = [Normal C, Normal U]" and "loc q = [Normal P, Normal ''a'']" and "C \<noteq> P"
    and "path_parent q = Some r" and "loc r = [Normal P]" and "safe_path root ''a'' = Some q"
    and "dk_fault d = (\<lambda>_. None)" and "dk_nodes d [Normal C, Normal U] = Some (RegularFile [7, 8, 9] t)"
    and "dk_nodes d [Normal P] = Some Directory" and "dk_nodes d [Normal P, Normal ''a''] = None"
  shows "\<exists>d'. restore_object library_tools ''file'' p root
       [\<lparr>mf_path = ''a'', mf_size = 3, mf_mtime = 0, mf_digest = \<lparr>dg_algorithm = Sha256, dg_value = three_bytes\<rparr>,
         mf_transport = \<lparr>tp_object_id = 1, tp_member_index = 0\<rparr>\<rparr>] d = (Inr (), d')
     \<and> dk_fault d' = (\<lambda>_. None)
     \<and> dk_nodes d' = (dk_nodes d)([Normal P, Normal ''a''] \<mapsto> RegularFile [7, 8, 9] 0)"
  using assms
  by (simp add: restore_object_def restore_file_def ensure_def manifest_path_def create_dir_all_def copy_file_def
      verify_def local_digest_def digest_file_def hash_file_def on_env_io_def disk_fs_def disk_reads_def read_file_def
      set_file_mtime_def emit_def library_tools_def byte_hash_def three_bytes_def Let_def disk_steps upt_rec)

lemma library_names:
  "\<exists>U. loc (path_join cache (uuid_to_string 1)) = loc cache @ [Normal U]
     \<and> loc (with_extension (path_join cache (uuid_to_string 1)) ''part'') = loc cache @ [Normal (U @ ''.part'')]"
  using cache_names [of cache 1] by blast

lemma output_names:
  assumes "loc root = [Normal P]"
  shows "safe_path root ''a'' = Some (path_join root ''a'')" and "loc (path_join root ''a'') = [Normal P, Normal ''a'']"
    and "\<exists>r. path_parent (path_join root ''a'') = Some r \<and> loc r = [Normal P]"
proof -
  have plain: "plain_name ''a''" by (simp add: plain_name_def)
  show safe: "safe_path root ''a'' = Some (path_join root ''a'')"
    by (simp add: safe_path_def components_def is_absolute_def Let_def)
  show l: "loc (path_join root ''a'') = [Normal P, Normal ''a'']" using loc_join_name [OF plain] assms by simp
  have comps: "components (path_join root ''a'') = components root @ [Normal ''a'']"
    using safe_path_Some(3) [OF safe] by simp
  then obtain r where r: "path_parent (path_join root ''a'') = Some r" by (simp add: path_parent_def)
  then have "loc r = [Normal P]" using loc_parent_safe [OF safe r] l by simp
  then show "\<exists>r. path_parent (path_join root ''a'') = Some r \<and> loc r = [Normal P]" using r by blast
qed

lemma library_manifest_run:
  "dec_manifest (library_client g) (one_manifest g) = Some [\<lparr>mf_path = ''a'', mf_size = 3, mf_mtime = 0,
     mf_digest = \<lparr>dg_algorithm = Sha256, dg_value = g\<rparr>, mf_transport = \<lparr>tp_object_id = 1, tp_member_index = 0\<rparr>\<rparr>]"
  by (simp add: dec_manifest_def one_manifest_def dec_manifest_file_def dec_digest_def dec_transport_def dec_word_def
      dec_uuid_def dec_hash_algorithm_def hash_algorithm_fmt_def library_client_def library_eval)

lemma library_restore_run:
  assumes root: "loc root = [Normal P]" and cache: "loc cache = [Normal C]" and ne: "distinct [P, C, ''o'']"
    and auth: "cs_auth c = Some \<lparr>as_access_token = ''a'', as_refresh_token = Some ''r''\<rparr>" "\<not> cs_poisoned c"
  shows "\<exists>d' c'. restore_to library_tools library_net (library_client three_bytes) (library_plan three_bytes) root cache
     ''o'' (empty_disk, c) = (Inr (), (d', c'))"
proof -
  let ?p = "path_join cache (uuid_to_string 1)"
  obtain U where U: "loc ?p = [Normal C, Normal U]" "loc (with_extension ?p ''part'') = [Normal C, Normal (U @ ''.part'')]"
    using library_names [of cache] cache by auto
  note out = output_names [OF root]
  obtain r where r: "path_parent (path_join root ''a'') = Some r" "loc r = [Normal P]" using out(3) by blast
  have o: "loc ''o'' = [Normal ''o'']" by (simp add: loc_def components_def is_absolute_def Let_def)
  define d2 where "d2 = \<lparr>dk_nodes = [[Normal P] \<mapsto> Directory, [Normal C] \<mapsto> Directory], dk_fault = (\<lambda>_. None),
     dk_tick = 2, dk_clock = (\<lambda>_. 0)\<rparr>"
  obtain c1 where c1: "authorize_download_object (library_client three_bytes) ''t'' 1 c
      = (Inr library_object, c1)" "cs_auth c1 = cs_auth c" "\<not> cs_poisoned c1"
    using library_authorize_run [OF auth] by blast
  obtain d3 c3 t where d3: "download_object_resumable (library_client three_bytes) library_net ''u'' ?p (Some 3) never
      (\<lambda>_ w. w) (d2, c1) = (Inr 3, (d3, c3))" "dk_fault d3 = (\<lambda>_. None)"
    "dk_nodes d3 = (dk_nodes d2)([Normal C, Normal (U @ ''.part'')] := None, [Normal C, Normal U] \<mapsto> RegularFile [7, 8, 9] t)"
    using library_fetch_run [OF U, of d2 three_bytes c1] ne by (auto simp: d2_def)
  obtain d4 where d4: "restore_object library_tools ''file'' ?p root
       [\<lparr>mf_path = ''a'', mf_size = 3, mf_mtime = 0, mf_digest = \<lparr>dg_algorithm = Sha256, dg_value = three_bytes\<rparr>,
         mf_transport = \<lparr>tp_object_id = 1, tp_member_index = 0\<rparr>\<rparr>] d3 = (Inr (), d4)"
     "dk_fault d4 = (\<lambda>_. None)" "dk_nodes d4 = (dk_nodes d3)([Normal P, Normal ''a''] \<mapsto> RegularFile [7, 8, 9] 0)"
    using copied_run [OF U(1) out(2) _ r out(1) d3(2)] ne d3(3) by (auto simp: d2_def)
  have fetched: "fetch_object library_tools library_net (library_client three_bytes) (library_plan three_bytes) ?p
      library_object (d2, c) = (Inr (), (d3, c3))"
    using c1 d3 by (simp add: fetch_object_def with_client_def comp_defs ensure_def)
  have objects: "\<exists>d5. restore library_tools library_net (library_client three_bytes) (library_plan three_bytes) root cache
      (d2, c) = (Inr (), (d5, c3)) \<and> dk_fault d5 = (\<lambda>_. None) \<and> dk_nodes d5 = (dk_nodes d4)([Normal C, Normal U] := None)"
    using fetched d4 d3(3) U ne out(1) library_manifest_run [of three_bytes]
    by (simp add: restore_def Let_def sort_members_def manifest_path_def ensure_def
        comp_defs on_local_def remove_file_def disk_op_def node_at_def turn_def set_node_def)
  then obtain d5 where d5: "restore library_tools library_net (library_client three_bytes) (library_plan three_bytes)
      root cache (d2, c) = (Inr (), (d5, c3))" "dk_fault d5 = (\<lambda>_. None)"
    "dk_nodes d5 = (dk_nodes d4)([Normal C, Normal U] := None)" by blast
  have d0: "create_dir root empty_disk = (Inr (), d2\<lparr>dk_tick := 1, dk_nodes := [[Normal P] \<mapsto> Directory]\<rparr>)"
    using root by (simp add: create_dir_def empty_disk_def disk_op_def turn_def node_at_def parent_is_dir_def set_node_def d2_def)
  have "C \<noteq> P" using ne by auto
  then have d1: "create_dir cache (d2\<lparr>dk_tick := 1, dk_nodes := [[Normal P] \<mapsto> Directory]\<rparr>) = (Inr (), d2)"
    using cache by (simp add: create_dir_def disk_op_def turn_def node_at_def parent_is_dir_def set_node_def d2_def)
  obtain e where e: "create_dir root empty_disk = (Inr (), e)" "create_dir cache e = (Inr (), d2)" using d0 d1 by blast
  have n2: "dk_nodes d2 = [[Normal P] \<mapsto> Directory, [Normal C] \<mapsto> Directory]" by (simp add: d2_def)
  have ne': "''o'' \<noteq> P" "''o'' \<noteq> C" using ne by auto
  show ?thesis using ne ne' root cache o
    by (simp add: restore_to_def comp_defs on_local_def e d5 remove_dir_all_def disk_op_def turn_def node_at_def
        d4(3) d3(3) n2 remove_tree_def rename_def can_replace_def parent_is_dir_def)
qed

section \<open>Retrieval\<close>

text \<open>C22: A retrieval that fails, wherever it fails, changes nothing outside its own partial and cache
  directories: the destination, and everything under it, is as it was.\<close>

theorem failed_retrieve_keeps_the_destination:
  assumes "streaming (rx_hash env)" and "tree_ok d"
    and "retrieve_run env renv net invitation partial_id cache_id registry transfer destination (d, c)
       = (Inl e, (d', c'))"
  shows "only (run_area destination partial_id cache_id) d d'
    \<and> (\<forall>k \<in> tree (loc destination). dk_nodes d' k = dk_nodes d k)"
  using retrieve_run_done [OF assms] run_area_apart [of destination partial_id cache_id]
  by (auto simp: only_def)

text \<open>C23: A retrieval that succeeds made its destination, which did not exist before, and every file of the
  manifest it was served is there, at its safe path, with the size and the digest the manifest
  gives; nothing else changed outside the run's own partial and cache directories.\<close>

theorem retrieved_files_match_the_manifest:
  fixes c :: "'w client_state"
  assumes "streaming (rx_hash env)" and "tree_ok d"
    and "retrieve_run env renv net invitation partial_id cache_id registry transfer destination (d, c)
       = (Inr (t, n), (d', c'))"
  shows "node_at d (loc destination) = None
    \<and> only (run_area destination partial_id cache_id \<union> tree (loc destination)) d d'
    \<and> t = transfer
    \<and> (\<exists>client plan files. obtained_plan renv registry invitation transfer (d, c) client plan
         \<and> dec_manifest client (dp_manifest plan) = Some files \<and> n = of_nat (length files)
         \<and> (\<forall>f \<in> set files. \<exists>p bs. safe_path destination (mf_path f) = Some p \<and> file_bytes d' p = Some bs
              \<and> of_nat (length bs) = mf_size f
              \<and> digest_of (rx_hash env) (dg_algorithm (mf_digest f)) bs = dg_value (mf_digest f)))"
proof -
  from retrieve_run_done [OF assms] obtain client plan where
    run: "node_at d (loc destination) = None"
      "only (run_area destination partial_id cache_id \<union> tree (loc destination)) d d'"
    and plan: "obtained_plan renv registry invitation transfer (d, c) client plan"
      "t = transfer" "n = dd_file_count (dp_dataset plan)"
    and got: "retrieved env client destination plan d'" by auto
  from got obtain files where "dec_manifest client (dp_manifest plan) = Some files"
    "n = of_nat (length files)" "\<forall>f \<in> set files. restored env destination d' f"
    unfolding retrieved_def plan(3) [symmetric] by metis
  then show ?thesis using run plan unfolding restored_def by blast
qed

text \<open>The library run, with the right digest and with a wrong one.\<close>

lemma empty_disk_tree: "tree_ok empty_disk"
  unfolding tree_ok_def
proof (intro allI impI)
  fix k :: location and n
  assume "node_at empty_disk k \<noteq> None" "n < length k"
  then have "k = [RootDir] \<and> n = 0" by (auto simp: node_at_def empty_disk_def split: if_splits)
  then show "node_at empty_disk (take n k) = Some Directory" by (simp add: node_at_def)
qed

lemma library_streaming: "streaming (rx_hash library_tools)"
  by (simp add: library_tools_def byte_hash_streaming)

lemma library_head:
  assumes "obtained_plan (library_env g) '''' (Some ''code'') ''t'' (empty_disk, fresh_state) client plan"
  shows "client = library_client g \<and> plan = library_plan g"
proof -
  obtain c1 where c1: "open_download_session (library_env g) '''' ''code'' (empty_disk, fresh_state)
      = (Inr (library_client g), (empty_disk, c1))"
    "cs_auth c1 = Some \<lparr>as_access_token = ''a'', as_refresh_token = Some ''r''\<rparr>" "\<not> cs_poisoned c1"
    using library_session_run [of g empty_disk] by blast
  obtain c2 where c2: "download_plan (library_client g) ''t'' c1 = (Inr (library_plan g), c2)"
    using library_plan_run [OF c1(2,3)] by blast
  from assms obtain c c' where
    "open_download_session (library_env g) '''' ''code'' (empty_disk, fresh_state) = (Inr client, (empty_disk, c))"
    "download_plan client ''t'' c = (Inr plan, c')" by (auto simp: obtained_plan_def)
  then show ?thesis using c1(1) c2 by simp
qed

lemma library_run:
  "\<exists>d' c'. retrieve_run library_tools (library_env three_bytes) library_net (Some ''code'') 1 2 '''' ''t'' ''o''
     (empty_disk, fresh_state) = (Inr (''t'', 1), (d', c'))"
proof -
  have check: "check_destination ''o'' empty_disk = (Inr (''.'', ''o''), empty_disk)"
    by (simp add: check_destination_def comp_defs path_exists_def path_is_dir_def ensure_def destination_parent_def
        path_parent_def path_file_name_def node_at_def empty_disk_def loc_def components_def is_absolute_def Let_def render_def)
  obtain c1 where c1: "open_download_session (library_env three_bytes) '''' ''code'' (empty_disk, fresh_state)
      = (Inr (library_client three_bytes), (empty_disk, c1))"
    "cs_auth c1 = Some \<lparr>as_access_token = ''a'', as_refresh_token = Some ''r''\<rparr>" "\<not> cs_poisoned c1"
    using library_session_run [of three_bytes empty_disk] by blast
  obtain c2 where c2: "download_plan (library_client three_bytes) ''t'' c1 = (Inr (library_plan three_bytes), c2)"
    "cs_auth c2 = cs_auth c1" "\<not> cs_poisoned c2"
    using library_plan_run [OF c1(2,3)] by blast
  have "plain_name ''o''" by (simp add: plain_name_def)
  moreover have "loc ''.'' = []" by (simp add: loc_def components_def is_absolute_def)
  ultimately have "loc (sibling ''.'' ''o'' ''partial'' 1) = [Normal (''.'' @ ''o'' @ ''.courier-'' @ ''partial'' @ ''-'' @ uuid_to_string 1)]"
    "loc (sibling ''.'' ''o'' ''cache'' 2) = [Normal (''.'' @ ''o'' @ ''.courier-'' @ ''cache'' @ ''-'' @ uuid_to_string 2)]"
    using loc_sibling [of "''o''" "''partial''" "''.''" 1] loc_sibling [of "''o''" "''cache''" "''.''" 2] by simp_all
  from library_restore_run [OF this _ c2(2) [unfolded c1(2)] c2(3)] obtain d3 c3 where
    "restore_to library_tools library_net (library_client three_bytes) (library_plan three_bytes)
       (sibling ''.'' ''o'' ''partial'' 1) (sibling ''.'' ''o'' ''cache'' 2) ''o'' (empty_disk, c2) = (Inr (), (d3, c3))"
    by auto
  moreover have "check_url (rx_parse_url library_tools '''') (empty_disk, fresh_state) = (Inr (), (empty_disk, fresh_state))"
    by (simp add: check_url_def library_tools_def plain_url_def url_acceptable_def ensure_def comp_defs)
  ultimately show ?thesis using check c1(1) c2(1)
    by (simp add: retrieve_run_def comp_defs on_local_def with_client_def ensure_def)
qed

theorem retrieved_files_match_the_manifest_witness:
  "\<exists>d' c' p. retrieve_run library_tools (library_env three_bytes) library_net (Some ''code'') 1 2 '''' ''t'' ''o''
     (empty_disk, fresh_state) = (Inr (''t'', 1), (d', c'))
   \<and> safe_path ''o'' ''a'' = Some p \<and> (\<exists>bs. file_bytes d' p = Some bs \<and> of_nat (length bs) = (3 :: u64))"
proof -
  obtain d' c' where run: "retrieve_run library_tools (library_env three_bytes) library_net (Some ''code'') 1 2 '''' ''t'' ''o''
     (empty_disk, fresh_state) = (Inr (''t'', 1), (d', c'))" using library_run by blast
  from retrieved_files_match_the_manifest [OF library_streaming empty_disk_tree run]
  obtain client plan files where
    plan: "obtained_plan (library_env three_bytes) '''' (Some ''code'') ''t'' (empty_disk, fresh_state) client plan"
      "dec_manifest client (dp_manifest plan) = Some files"
    and got: "\<forall>f \<in> set files. \<exists>p bs. safe_path ''o'' (mf_path f) = Some p \<and> file_bytes d' p = Some bs
              \<and> of_nat (length bs) = mf_size f" by blast
  have "client = library_client three_bytes" "plan = library_plan three_bytes"
    using library_head [OF plan(1)] by auto
  then show ?thesis using run plan(2) got library_manifest_run [of three_bytes] by auto
qed

theorem failed_retrieve_keeps_the_destination_witness:
  "\<exists>e d' c'. retrieve_run library_tools (library_env ''x'') library_net (Some ''code'') 1 2 '''' ''t'' ''o''
     (empty_disk, fresh_state) = (Inl e, (d', c')) \<and> node_at d' (loc ''o'') = None"
proof -
  obtain r d' c' where run: "retrieve_run library_tools (library_env ''x'') library_net (Some ''code'') 1 2 '''' ''t'' ''o''
     (empty_disk, fresh_state) = (r, (d', c'))" by (metis prod.exhaust)
  show ?thesis
  proof (cases r)
    case (Inr tn)
    from retrieve_run_done [OF library_streaming empty_disk_tree run] Inr obtain client plan where
      plan: "obtained_plan (library_env ''x'') '''' (Some ''code'') ''t'' (empty_disk, fresh_state) client plan"
      and got: "retrieved library_tools client ''o'' plan d'" by (cases tn) auto
    have "client = library_client ''x''" "plan = library_plan ''x''" using library_head [OF plan] by auto
    with got obtain bs :: bytes where "of_nat (length bs) = (3 :: u64)" "digest_of byte_hash Sha256 bs = ''x''"
      using library_manifest_run [of "''x''"] by (auto simp: retrieved_def restored_def library_tools_def)
    then have False by (auto simp: digest_of_def byte_hash_def length_Suc_conv)
    then show ?thesis ..
  next
    case (Inl e)
    from failed_retrieve_keeps_the_destination [OF library_streaming empty_disk_tree run [unfolded Inl]]
    have "dk_nodes d' (loc ''o'') = dk_nodes empty_disk (loc ''o'')" by (simp add: in_tree)
    moreover have "loc ''o'' = [Normal ''o'']" by (simp add: loc_def components_def is_absolute_def Let_def)
    ultimately show ?thesis using run Inl by (auto simp: node_at_def empty_disk_def)
  qed
qed

section \<open>The manifest\<close>

definition read_as :: "api_text \<Rightarrow> TransportMemberRecord list \<Rightarrow> FileRecord \<Rightarrow> ManifestFile \<Rightarrow> bool" where
  "read_as tx members f m \<longleftrightarrow> portable_relative_path f = Some (mf_path m) \<and> mf_size m = f_size f
     \<and> mf_digest m = \<lparr>dg_algorithm = f_hash_algorithm f, dg_value = f_sha256 f\<rparr>
     \<and> at_timestamp_opt tx (sint (f_mtime_ns f) div 10 ^ 9) (nat (sint (f_mtime_ns f) mod 10 ^ 9)) = Some (mf_mtime m)
     \<and> (\<exists>member. member_map members (f_id f) = Some member
          \<and> mf_transport m = \<lparr>tp_object_id = m_object_id member, tp_member_index = m_member_index member\<rparr>)"

lemma dec_word_uint: "dec_word (JNum (uint (w :: 'a::len word))) = Some w"
  by (simp add: dec_word_def)

lemma dec_hash_algorithm_fmt: "dec_hash_algorithm (JStr (hash_algorithm_fmt a)) = Some a"
  by (cases a) (simp_all add: dec_hash_algorithm_def dec_string_def hash_algorithm_fmt_def)

lemma manifest_file_read:
  assumes "manifest_file tx (member_map members) f = Inr j"
    and "\<forall>m \<in> set members. re_uuid (rc_env self) (uuid_to_string (m_object_id m)) = Some (m_object_id m)"
    and "\<forall>s n t. at_timestamp_opt tx s n = Some t \<longrightarrow> re_time (rc_env self) (at_rfc3339 tx t) = Some t"
  shows "\<exists>m. dec_manifest_file self j = Some m \<and> read_as tx members f m"
proof -
  from assms(1) obtain member mtime p where
    f: "member_map members (f_id f) = Some member" "portable_relative_path f = Some p"
      "at_timestamp_opt tx (sint (f_mtime_ns f) div 10 ^ 9) (nat (sint (f_mtime_ns f) mod 10 ^ 9)) = Some mtime"
    and j: "j = JObj
      [(''path'', JStr p), (''size'', JNum (uint (f_size f))), (''mtime'', JStr (at_rfc3339 tx mtime)),
       (''digest'', JObj [(''algorithm'', JStr (hash_algorithm_fmt (f_hash_algorithm f))), (''value'', JStr (f_sha256 f))]),
       (''transport'', JObj [(''object_id'', JStr (uuid_to_string (m_object_id member))),
          (''member_index'', JNum (uint (m_member_index member)))])]"
    by (auto simp: manifest_file_def Let_def split: option.splits)
  have "member \<in> set members"
    using f(1) by (auto simp: member_map_def dest: map_of_SomeD)
  then have id: "re_uuid (rc_env self) (uuid_to_string (m_object_id member)) = Some (m_object_id member)"
    using assms(2) by blast
  have time: "re_time (rc_env self) (at_rfc3339 tx mtime) = Some mtime" using assms(3) f(3) by blast
  have "dec_manifest_file self j = Some \<lparr>mf_path = p, mf_size = f_size f, mf_mtime = mtime,
      mf_digest = \<lparr>dg_algorithm = f_hash_algorithm f, dg_value = f_sha256 f\<rparr>,
      mf_transport = \<lparr>tp_object_id = m_object_id member, tp_member_index = m_member_index member\<rparr>\<rparr>"
    by (simp add: j dec_manifest_file_def dec_digest_def dec_transport_def struct_fields_def required_def
        dec_word_uint dec_hash_algorithm_fmt dec_uuid_def dec_time_def dec_string_def id time)
  then show ?thesis using f by (simp add: read_as_def)
qed

lemma all_some_all2: "list_all2 (\<lambda>x y. f x = Some y) xs ys \<Longrightarrow> all_some (map f xs) = Some ys"
  by (induction rule: list_all2_induct) simp_all

lemma manifest_files_read:
  assumes "list_all2 (\<lambda>f j. manifest_file tx (member_map members) f = Inr j) files js"
    and "\<forall>m \<in> set members. re_uuid (rc_env self) (uuid_to_string (m_object_id m)) = Some (m_object_id m)"
    and "\<forall>s n t. at_timestamp_opt tx s n = Some t \<longrightarrow> re_time (rc_env self) (at_rfc3339 tx t) = Some t"
  shows "\<exists>ms. all_some (map (dec_manifest_file self) js) = Some ms \<and> list_all2 (read_as tx members) files ms"
  using assms(1)
proof (induction rule: list_all2_induct)
  case (Cons f files j js)
  then show ?case using manifest_file_read [OF Cons.hyps(1) assms(2,3)] by auto
qed simp

text \<open>C24: What the upload side writes into a manifest is what the retrieval reads from it: the manifest of
  any inventory and transport plan decodes, file by file and in order, to the portable relative
  path, the size, the digest, the modification time and the pack membership of the inventoried file.\<close>

theorem manifest_round_trip:
  assumes "manifest_payload tx transfer files transport ctx = Inr j"
    and "\<forall>m \<in> set (mp_members transport). re_uuid (rc_env self) (uuid_to_string (m_object_id m)) = Some (m_object_id m)"
    and "\<forall>s n t. at_timestamp_opt tx s n = Some t \<longrightarrow> re_time (rc_env self) (at_rfc3339 tx t) = Some t"
  shows "\<exists>read. dec_manifest self j = Some read \<and> list_all2 (\<lambda>f m.
       portable_relative_path f = Some (mf_path m) \<and> mf_size m = f_size f
       \<and> mf_digest m = \<lparr>dg_algorithm = f_hash_algorithm f, dg_value = f_sha256 f\<rparr>
       \<and> at_timestamp_opt tx (sint (f_mtime_ns f) div 10 ^ 9) (nat (sint (f_mtime_ns f) mod 10 ^ 9)) = Some (mf_mtime m)
       \<and> (\<exists>member. member_map (mp_members transport) (f_id f) = Some member
            \<and> mf_transport m = \<lparr>tp_object_id = m_object_id member, tp_member_index = m_member_index member\<rparr>)) files read"
proof -
  from assms(1) obtain js where js: "map_sum_list (manifest_file tx (member_map (mp_members transport))) files = Inr js"
    and j: "dec_manifest self j = all_some (map (dec_manifest_file self) js)"
    by (auto simp: manifest_payload_def dec_manifest_def struct_fields_def required_def dec_list_def split: sum.splits)
  from manifest_files_read [OF js [unfolded map_sum_list_Inr] assms(2,3)] show ?thesis
    unfolding j read_as_def .
qed

definition plain_text :: api_text where
  "plain_text = \<lparr>at_rfc3339 = (\<lambda>_. ''''), at_timestamp_opt = (\<lambda>_ _. Some 0), at_json = (\<lambda>_. Inr ''''),
     at_sqlite = (\<lambda>_. ''''), at_os = ''''\<rparr>"

definition listed_plan :: ManifestTransportPlan where
  "listed_plan = \<lparr>mp_objects = [], mp_members = [\<lparr>m_object_id = 1, m_file_id = f_id first_file, m_member_index = 0\<rparr>]\<rparr>"

theorem manifest_round_trip_witness:
  "\<forall>g. \<exists>j m. manifest_payload plain_text (draft 0 1 [] None) [first_file] listed_plan
       \<lparr>mc_server_transfer_id = '''', mc_project_code = '''', mc_source_name = '''', mc_courier_version = ''''\<rparr> = Inr j
     \<and> dec_manifest (library_client g) j = Some [m] \<and> mf_path m = ''a'' \<and> mf_size m = 3"
proof
  fix g :: string
  let ?ctx = "\<lparr>mc_server_transfer_id = '''', mc_project_code = '''', mc_source_name = '''', mc_courier_version = ''''\<rparr>"
  have "portable_relative_path first_file = Some ''a''"
    by (simp add: portable_relative_path_def first_file_def portable_path_def components_def is_absolute_def Let_def)
  then obtain j where j: "manifest_payload plain_text (draft 0 1 [] None) [first_file] listed_plan ?ctx = Inr j"
    by (simp add: manifest_payload_def manifest_file_def listed_plan_def member_map_def plain_text_def first_file_def)
  have "\<forall>m \<in> set (mp_members listed_plan). re_uuid (rc_env (library_client g)) (uuid_to_string (m_object_id m)) = Some (m_object_id m)"
    "\<forall>s n t. at_timestamp_opt plain_text s n = Some t \<longrightarrow> re_time (rc_env (library_client g)) (at_rfc3339 plain_text t) = Some t"
    by (simp_all add: listed_plan_def plain_text_def library_client_def library_env_def)
  from manifest_round_trip [OF j this] obtain m where "dec_manifest (library_client g) j = Some [m]"
    "portable_relative_path first_file = Some (mf_path m)" "mf_size m = f_size first_file"
    by (auto simp: list_all2_Cons1)
  then show "\<exists>j m. manifest_payload plain_text (draft 0 1 [] None) [first_file] listed_plan ?ctx = Inr j
     \<and> dec_manifest (library_client g) j = Some [m] \<and> mf_path m = ''a'' \<and> mf_size m = 3"
    using j \<open>portable_relative_path first_file = Some ''a''\<close> by (auto simp: first_file_def)
qed

end
