(* ===== verification/Cli.thy ===== *)
theory Cli
  imports UploadBehaviour S3
begin

text \<open>
  The command line, \<^verbatim>\<open>apps/courier-cli/src/main.rs\<close>: a source becomes a ready transfer, a ready
  transfer is sent to an S3-compatible store, and the status commands. The retrieve command is in
  \<open>Retrieve\<close>. What a command prints is its value.

  \<open>cli_env\<close> holds the process environment, the clock and identifiers of a new transfer, the file
  system, the hashers, and the connection to the store of a configuration.
\<close>

section \<open>The environment\<close>

datatype CliError =
    CliCourier CourierError
  | CliPlan PlanError
  | CliUpload UploadError
  | CliStore StoreError
  | CliIo string io_error
  | CliMessage string

record ('w, 'h) cli_env =
  cx_var :: "string \<Rightarrow> string option"
  cx_now :: datetime
  cx_transfer_id :: uuid
  cx_file_id :: "nat \<Rightarrow> uuid"
  cx_canonicalize :: "path \<Rightarrow> 'w \<Rightarrow> (io_error + path) \<times> 'w"
  cx_fs :: "'w fs_ops"
  cx_hash :: "'h hash_lib"
  cx_runtime :: "'w runtime"
  cx_ensure_bucket :: "S3StoreConfig \<Rightarrow> 'w \<Rightarrow> (StoreError + unit) \<times> 'w"
  cx_connect :: "S3StoreConfig \<Rightarrow> 'w multipart_store"

abbreviation cli_db :: "'a db \<Rightarrow> ('w, CliError, 'a) run" where
  "cli_db m \<equiv> map_errE CliCourier (on_db m)"

definition cli_env_op :: "('e \<Rightarrow> CliError) \<Rightarrow> ('w \<Rightarrow> ('e + 'a) \<times> 'w) \<Rightarrow> ('w, CliError, 'a) run" where
  "cli_env_op wrap op = map_errE wrap (\<lambda>s. case op (w_env s) of (r, w') \<Rightarrow> (r, s\<lparr>w_env := w'\<rparr>))"

section \<open>Upload: a source becomes a ready transfer\<close>

fun plan_files :: "FileRecord list \<Rightarrow> ('w, CliError, unit) run" where
  "plan_files [] = ok ()"
| "plan_files (file # files) =
     bindE (map_errE CliPlan (lift_res (plan_parts (f_id file) (f_size file) default_limits))) (\<lambda>parts.
       thenE (cli_db (replace_part_plan (f_id file) parts)) (plan_files files))"

text \<open>\<open>None\<close> is the \<^verbatim>\<open>expect\<close> on the created transfer.\<close>

definition upload_command ::
  "('w, 'h) cli_env \<Rightarrow> HashAlgorithm \<Rightarrow> path \<Rightarrow> string option \<Rightarrow> ('w, CliError, Transfer option) run" where
  "upload_command env hash_algorithm source project =
     bindE (cli_env_op (CliIo (''resolve source '' @ source)) (cx_canonicalize env source)) (\<lambda>source.
     let transfer = draft (cx_now env) (cx_transfer_id env) source project; tid = t_id transfer in
     thenE (cli_db (create_transfer transfer))
     (thenE (cli_db (transition tid TransferStatus.Inventorying))
     (bindE (tryE (cli_env_op CliCourier (inventory_transfer (cx_fs env) (cx_hash env) (cx_file_id env) tid source
               (default_inventory_options\<lparr>io_hash_algorithm := hash_algorithm\<rparr>)))) (\<lambda>inventory.
      case inventory of
        Inr files \<Rightarrow>
          thenE (cli_db (replace_inventory tid files))
          (thenE (plan_files files)
          (thenE (cli_db (transition tid TransferStatus.Ready))
             (cli_db (get_transfer tid))))
      | Inl error \<Rightarrow>
          thenE (cli_db (transition tid TransferStatus.Failed)) (fail error)))))"

section \<open>Send: a ready transfer is uploaded\<close>

definition required_transfer :: "uuid \<Rightarrow> ('w, CliError, Transfer) run" where
  "required_transfer i =
     bindE (cli_db (get_transfer i)) (\<lambda>found. case found of
       None \<Rightarrow> fail (CliMessage (''transfer not found: '' @ uuid_to_string i)) | Some t \<Rightarrow> ok t)"

definition s3_config :: "(string \<Rightarrow> string option) \<Rightarrow> S3StoreConfig" where
  "s3_config var =
     (let config = seaweedfs (case var ''COURIER_S3_BUCKET'' of None \<Rightarrow> ''icy-seas-incoming'' | Some b \<Rightarrow> b)
            (case var ''COURIER_S3_ENDPOINT'' of None \<Rightarrow> ''http://127.0.0.1:8333'' | Some e \<Rightarrow> e)
      in case var ''COURIER_S3_REGION'' of None \<Rightarrow> config | Some region \<Rightarrow> config\<lparr>sc_region := region\<rparr>)"

text \<open>\<open>None\<close> is a panic of the upload engine, which nothing catches.\<close>

definition send_file ::
  "('w, 'h) cli_env \<Rightarrow> 'w multipart_store \<Rightarrow> FileRecord \<Rightarrow> ('w, CliError, unit option) run" where
  "send_file env remote file =
     bindE (map_errE CliUpload (upload_missing_parts (cx_fs env) remote (cx_runtime env) file
              default_retry_policy)) (\<lambda>uploaded.
     case uploaded of
       None \<Rightarrow> ok None
     | Some _ \<Rightarrow>
         bindE (map_errE CliUpload (complete_uploaded_file remote (cx_runtime env) file
                  default_retry_policy)) (\<lambda>completed.
         case completed of
           None \<Rightarrow> ok None
         | Some _ \<Rightarrow> thenE (cli_db (mark_file_uploaded (f_id file))) (ok (Some ()))))"

fun send_files ::
  "('w, 'h) cli_env \<Rightarrow> 'w multipart_store \<Rightarrow> FileRecord list \<Rightarrow> ('w, CliError, unit option) run" where
  "send_files env remote [] = ok (Some ())"
| "send_files env remote (file # files) =
     (if f_status file = FileStatus.Uploaded then send_files env remote files
      else bindE (send_file env remote file) (\<lambda>sent.
        case sent of None \<Rightarrow> ok None | Some _ \<Rightarrow> send_files env remote files))"

definition start_sending :: "uuid \<Rightarrow> Transfer \<Rightarrow> ('w, CliError, unit) run" where
  "start_sending i transfer =
     (if t_status transfer \<in> {TransferStatus.Ready, TransferStatus.Paused, TransferStatus.Interrupted}
      then cli_db (transition i TransferStatus.Uploading)
      else if t_status transfer = TransferStatus.Uploading then ok ()
      else fail (CliMessage (''transfer '' @ uuid_to_string i @ '' cannot upload from state ''
                   @ transfer_status_fmt (t_status transfer))))"

definition send_transfer :: "('w, 'h) cli_env \<Rightarrow> uuid \<Rightarrow> ('w, CliError, unit option) run" where
  "send_transfer env i =
     bindE (required_transfer i) (\<lambda>transfer.
     thenE (start_sending i transfer)
     (let config = s3_config (cx_var env) in
      bindE (tryE (thenE (cli_env_op CliStore (cx_ensure_bucket env config))
                     (bindE (cli_db (files_for_transfer i)) (send_files env (cx_connect env config)))))
      (\<lambda>result.
      case result of
        Inr None \<Rightarrow> ok None
      | Inr (Some _) \<Rightarrow> thenE (cli_db (transition i TransferStatus.Finalizing)) (ok (Some ()))
      | Inl error \<Rightarrow> thenE (cli_db (transition i TransferStatus.Interrupted)) (fail error))))"

section \<open>The other commands\<close>

definition change :: "uuid \<Rightarrow> TransferStatus \<Rightarrow> ('w, CliError, Transfer) run" where
  "change i status = thenE (cli_db (transition i status)) (required_transfer i)"

datatype command =
    UploadSource path "string option"
  | Transfers
  | Status
  | Send uuid
  | Inspect uuid
  | Pause uuid
  | Resume uuid
  | Retry uuid
  | Cancel uuid

text \<open>The transfers a command prints; \<open>None\<close> is a panic.\<close>

definition run_command ::
  "('w, 'h) cli_env \<Rightarrow> HashAlgorithm \<Rightarrow> command \<Rightarrow> ('w, CliError, Transfer list option) run" where
  "run_command env hash_algorithm c =
     (let one = (\<lambda>m. bindE m (\<lambda>t. ok (Some [t]))) in
      case c of
        UploadSource source project \<Rightarrow>
          bindE (upload_command env hash_algorithm source project) (\<lambda>r. ok (map_option (\<lambda>t. [t]) r))
      | Transfers \<Rightarrow> bindE (cli_db list_transfers) (\<lambda>ts. ok (Some ts))
      | Status \<Rightarrow> bindE (cli_db incomplete_transfers) (\<lambda>ts. ok (Some ts))
      | Send i \<Rightarrow> bindE (send_transfer env i) (\<lambda>sent.
          case sent of None \<Rightarrow> ok None | Some _ \<Rightarrow> one (required_transfer i))
      | Inspect i \<Rightarrow> one (required_transfer i)
      | Pause i \<Rightarrow> one (change i TransferStatus.Paused)
      | Resume i \<Rightarrow> one (change i TransferStatus.Uploading)
      | Retry i \<Rightarrow> one (change i TransferStatus.Uploading)
      | Cancel i \<Rightarrow> one (change i TransferStatus.Cancelled))"

definition default_db_path :: "(string \<Rightarrow> string option) \<Rightarrow> path option" where
  "default_db_path var =
     (let base = (case var ''XDG_STATE_HOME'' of Some p \<Rightarrow> Some p
                  | None \<Rightarrow> (case var ''LOCALAPPDATA'' of Some p \<Rightarrow> Some p
                    | None \<Rightarrow> map_option (\<lambda>home. path_join home ''.local/state'') (var ''HOME'')))
      in map_option (\<lambda>b. path_join b ''icy-seas-courier/courier.db'') base)"

text \<open>
  The database of \<^verbatim>\<open>main\<close>: \<^verbatim>\<open>unwrap_or(default_db_path()?)\<close> evaluates the default, and fails
  with it, also when \<^verbatim>\<open>--state-db\<close> is given.
\<close>

definition state_db_path :: "(string \<Rightarrow> string option) \<Rightarrow> path option \<Rightarrow> CliError + path" where
  "state_db_path var state_db =
     (case default_db_path var of
        None \<Rightarrow> Inl (CliMessage ''could not determine state directory; pass --state-db'')
      | Some d \<Rightarrow> Inr (case state_db of None \<Rightarrow> d | Some p \<Rightarrow> p))"

lemma state_db_needs_a_default:
  assumes "var ''XDG_STATE_HOME'' = None" and "var ''LOCALAPPDATA'' = None" and "var ''HOME'' = None"
  shows "state_db_path var (Some p) = Inl (CliMessage ''could not determine state directory; pass --state-db'')"
  using assms by (simp add: state_db_path_def default_db_path_def)

end
