(* ===== verification/Transport.thy ===== *)
theory Transport
  imports DiskFrames Pack PartLedger
begin

text \<open>
  The desktop application's transport plan,
  \<^verbatim>\<open>apps/courier-desktop/src-tauri/src/lib.rs\<close>: encoding packs into the bounded cache under
  Courier's data directory, or measuring them when the cache is full; the plan of transport objects,
  their members and upload sources; and the cache's maintenance.

  The user's source files are read through \<open>fs_ops\<close> over an environment \<open>'w\<close>; Courier's own
  directory is a \<open>disk\<close>. Zstandard is the parameter \<open>zstd_codec\<close>: a machine that consumes the plain
  bytes and hands compressed chunks to the writer under it, so the capped writer of the cache and
  the counting writer of a measurement are the source's.
\<close>

section \<open>The encoder over a writer\<close>

record 'c zstd_codec =
  zc_idle :: 'c
  zc_new :: "32 word \<Rightarrow> io_error + 'c"
  zc_checksum :: "'c \<Rightarrow> io_error + 'c"
  zc_write :: "bytes \<Rightarrow> 'c \<Rightarrow> io_error + (bytes list \<times> 'c)"
  zc_finish :: "'c \<Rightarrow> io_error + (bytes list \<times> 'c)"

type_synonym 's writer = "bytes \<Rightarrow> ('s, io_error, unit) comp"

definition codec_setup :: "(io_error + 'c) \<Rightarrow> ('c \<times> 's, io_error, unit) comp" where
  "codec_setup r = (\<lambda>(c, s). case r of Inl e \<Rightarrow> (Inl e, (c, s)) | Inr c' \<Rightarrow> (Inr (), (c', s)))"

definition codec_step :: "'s writer \<Rightarrow> ('c \<Rightarrow> io_error + (bytes list \<times> 'c))
    \<Rightarrow> ('c \<times> 's, io_error, unit) comp" where
  "codec_step put step = (\<lambda>(c, s). case step c of
     Inl e \<Rightarrow> (Inl e, (c, s))
   | Inr (chunks, c') \<Rightarrow> (case for_each put chunks s of (r, s') \<Rightarrow> (r, (c', s'))))"

definition over_writer :: "'c zstd_codec \<Rightarrow> 's writer \<Rightarrow> ('s \<Rightarrow> bytes) \<Rightarrow> ('c \<times> 's) zstd_encoder" where
  "over_writer codec put view =
     \<lparr>ze_new = (\<lambda>level. codec_setup (zc_new codec level)),
      ze_include_checksum = (\<lambda>z. codec_setup (zc_checksum codec (fst z)) z),
      ze_write_all = (\<lambda>bs. codec_step put (zc_write codec bs)),
      ze_finish = codec_step put (zc_finish codec),
      ze_output = (\<lambda>z. view (snd z))\<rparr>"

section \<open>Writers\<close>

definition buffer_length :: "bytes \<Rightarrow> u64" where
  "buffer_length buffer = of_nat (min (length buffer) u64_max)"

text \<open>\<^verbatim>\<open>CappedWriter\<close> over the open temporary file: the disk and the count \<^verbatim>\<open>written\<close>.\<close>

definition capped_write :: "path \<Rightarrow> u64 \<Rightarrow> (disk \<times> u64) writer" where
  "capped_write temporary limit buffer = (\<lambda>(d, written).
     if saturating_add written (buffer_length buffer) > limit
     then (Inl (IoError StorageFull ''Courier pack cache budget exceeded''), (d, written))
     else case write_all temporary buffer d of
       (Inl e, d') \<Rightarrow> (Inl e, (d', written))
     | (Inr _, d') \<Rightarrow> (Inr (), (d', saturating_add written (of_nat (length buffer)))))"

text \<open>\<^verbatim>\<open>CountingWriter\<close> over a sink.\<close>

definition counting_write :: "u64 writer" where
  "counting_write buffer = (\<lambda>written. (Inr (), written + of_nat (length buffer)))"

section \<open>Errors and the world of a preparation\<close>

text \<open>The source's error strings, before they are formatted.\<close>

datatype staging_error =
    Displayed io_error
  | PackFailed PackError
  | AtPath string path io_error
  | BeforeEpoch
  | OutOfRange
  | Failure string

record CacheBoundary =
  cb_capacity :: u64
  cb_remaining :: u64
  cb_already_full :: bool

text \<open>The third component is what the cache-limit callback was told.\<close>

record 'w pack_world =
  pw_sources :: 'w
  pw_disk :: disk
  pw_limits :: "(FileRecord list \<times> CacheBoundary) list"

type_synonym ('w, 'a) staging = "('w pack_world, staging_error, 'a) comp"

definition on_cache :: "'a io \<Rightarrow> ('w pack_world, io_error, 'a) comp" where
  "on_cache op = (\<lambda>s. case op (pw_disk s) of (r, d) \<Rightarrow> (r, s\<lparr>pw_disk := d\<rparr>))"

definition displayed :: "('s, io_error, 'a) comp \<Rightarrow> ('s, staging_error, 'a) comp" where
  "displayed = map_errE Displayed"

definition pack_cache_budget :: "PackOptions \<Rightarrow> u64" where
  "pack_cache_budget options = saturating_mul (po_target_pack_size options) 10"

section \<open>Staging one pack\<close>

definition cached_modified_ns :: "path \<Rightarrow> (disk, staging_error, i64) comp" where
  "cached_modified_ns p =
     bindE (displayed (disk_metadata p)) (\<lambda>md.
     case md_modified md of
       Inl e \<Rightarrow> fail (Displayed e)
     | Inr t \<Rightarrow>
         if t < 0 then fail BeforeEpoch
         else let ns = t div 1000000000 * 1000000000 + t mod 1000000000
              in if ns < 2 ^ 63 then ok (word_of_int ns) else fail OutOfRange)"

definition cache_budget_exceeded :: "PackError \<Rightarrow> bool" where
  "cache_budget_exceeded error = (case error of PackIo (IoError StorageFull _) \<Rightarrow> True | _ \<Rightarrow> False)"

definition encode_into ::
  "'w fs_ops \<Rightarrow> 'c zstd_codec \<Rightarrow> header_json \<Rightarrow> FileRecord list \<Rightarrow> 32 word \<Rightarrow> path \<Rightarrow> u64
     \<Rightarrow> ('w pack_world, PackError, u64) comp" where
  "encode_into fs codec js members level temporary limit = (\<lambda>s.
     case encode_pack fs (over_writer codec (capped_write temporary limit) (\<lambda>_. [])) js members level
            (pw_sources s, (zc_idle codec, (pw_disk s, 0))) of
       (r, (w, (_, (d, _)))) \<Rightarrow> (r, s\<lparr>pw_sources := w, pw_disk := d\<rparr>))"

definition measure_pack_transport_bytes ::
  "'w fs_ops \<Rightarrow> 'c zstd_codec \<Rightarrow> header_json \<Rightarrow> FileRecord list \<Rightarrow> PackOptions
     \<Rightarrow> ('w, u64) staging" where
  "measure_pack_transport_bytes fs codec js members options = (\<lambda>s.
     case encode_pack fs (over_writer codec counting_write (\<lambda>_. [])) js members
            (po_zstd_level options) (pw_sources s, (zc_idle codec, 0)) of
       (Inl e, (w, _)) \<Rightarrow> (Inl (PackFailed e), s\<lparr>pw_sources := w\<rparr>)
     | (Inr _, (w, (_, written))) \<Rightarrow> (Inr written, s\<lparr>pw_sources := w\<rparr>))"

text \<open>Opened for reading and writing, not created and not truncated, then synced.\<close>

definition open_existing :: "path \<Rightarrow> unit io" where
  "open_existing p = disk_op (\<lambda>d. case node_at d (loc p) of
     None \<Rightarrow> (Inl not_found, d)
   | Some Directory \<Rightarrow> (Inl (other_io ''Is a directory''), d)
   | Some (RegularFile _ _) \<Rightarrow> (Inr (), d))"

definition sync_staged_pack :: "path \<Rightarrow> (disk, staging_error, unit) comp" where
  "sync_staged_pack p =
     map_errE (AtPath ''Could not finalize staged transport pack'' p)
       (thenE (open_existing p) (sync_file p))"

definition finalize_staged :: "path \<Rightarrow> path \<Rightarrow> (disk, staging_error, u64) comp" where
  "finalize_staged temporary destination =
     thenE (sync_staged_pack temporary)
     (bindE (displayed (metadata_len temporary)) (\<lambda>transport_bytes.
      thenE (map_errE (AtPath ''Could not publish staged transport pack'' temporary)
               (rename temporary destination))
        (ok transport_bytes)))"

definition on_cache_staged :: "(disk, staging_error, 'a) comp \<Rightarrow> ('w, 'a) staging" where
  "on_cache_staged op = (\<lambda>s. case op (pw_disk s) of (r, d) \<Rightarrow> (r, s\<lparr>pw_disk := d\<rparr>))"

definition discard :: "path \<Rightarrow> ('w, unit) staging" where
  "discard p = thenE (tryE (on_cache (remove_file p))) (ok ())"

definition stage_or_measure_pack ::
  "'w fs_ops \<Rightarrow> 'c zstd_codec \<Rightarrow> header_json \<Rightarrow> FileRecord list \<Rightarrow> path \<Rightarrow> path \<Rightarrow> PackOptions
     \<Rightarrow> u64 \<Rightarrow> ('w pack_world \<Rightarrow> 'w pack_world) \<Rightarrow> ('w, u64 \<times> bool) staging" where
  "stage_or_measure_pack fs codec js members temporary destination options cache_limit on_cache_limit =
     (if cache_limit = 0 then
        thenE (modifies on_cache_limit)
          (bindE (measure_pack_transport_bytes fs codec js members options) (\<lambda>n. ok (n, False)))
      else
        thenE (displayed (on_cache (open_output False temporary)))
        (bindE (tryE (encode_into fs codec js members (po_zstd_level options) temporary cache_limit))
         (\<lambda>result. case result of
            Inr _ \<Rightarrow>
              bindE (tryE (on_cache_staged (finalize_staged temporary destination))) (\<lambda>finalized.
              case finalized of
                Inr transport_bytes \<Rightarrow> ok (transport_bytes, True)
              | Inl error \<Rightarrow> thenE (discard temporary) (fail error))
          | Inl error \<Rightarrow>
              if cache_budget_exceeded error then
                thenE (discard temporary)
                (thenE (modifies on_cache_limit)
                   (bindE (measure_pack_transport_bytes fs codec js members options)
                      (\<lambda>n. ok (n, False))))
              else thenE (discard temporary) (fail (PackFailed error)))))"

section \<open>The transport plan\<close>

record PreparedTransportPlan =
  pl_objects :: "TransportObjectRecord list"
  pl_members :: "TransportMemberRecord list"
  pl_upload_sources :: "FileRecord list"

definition staged_path :: "path \<Rightarrow> uuid \<Rightarrow> path" where
  "staged_path pack_directory object_id =
     path_join pack_directory (uuid_to_string object_id @ ''.iscpack.zst'')"

definition temporary_path :: "path \<Rightarrow> uuid \<Rightarrow> path" where
  "temporary_path pack_directory object_id =
     path_join pack_directory (uuid_to_string object_id @ ''.tmp'')"

definition report_limit :: "FileRecord list \<Rightarrow> u64 \<Rightarrow> u64 \<Rightarrow> 'w pack_world \<Rightarrow> 'w pack_world" where
  "report_limit pack cache_budget remaining s =
     s\<lparr>pw_limits := pw_limits s @ [(pack, \<lparr>cb_capacity = cache_budget, cb_remaining = remaining,
                                            cb_already_full = (remaining = 0)\<rparr>)]\<rparr>"

definition pack_object :: "uuid \<Rightarrow> uuid \<Rightarrow> u64 \<Rightarrow> u64 \<Rightarrow> path \<Rightarrow> TransportObjectRecord" where
  "pack_object object_id transfer_id original_bytes transport_bytes destination =
     \<lparr>o_id = object_id, o_transfer_id = transfer_id, o_kind = TransportObjectKind.Pack,
      o_compression = ''zstd'', o_encoding_version = 2, o_original_bytes = original_bytes,
      o_transport_bytes = Some transport_bytes, o_cache_path = Some destination\<rparr>"

definition pack_source :: "uuid \<Rightarrow> uuid \<Rightarrow> path \<Rightarrow> u64 \<Rightarrow> i64 \<Rightarrow> FileRecord" where
  "pack_source object_id transfer_id destination n mtime =
     \<lparr>f_id = object_id, f_transfer_id = transfer_id,
      f_relative_path = ''Courier pack '' @ uuid_to_string object_id, f_absolute_path = destination,
      f_size = n, f_mtime_ns = mtime, f_hash_algorithm = HashAlgorithm.Sha256, f_sha256 = '''',
      f_status = FileStatus.Ready, f_bytes_completed = 0\<rparr>"

definition file_object :: "uuid \<Rightarrow> FileRecord \<Rightarrow> TransportObjectRecord" where
  "file_object transfer_id file =
     \<lparr>o_id = f_id file, o_transfer_id = transfer_id, o_kind = TransportObjectKind.File,
      o_compression = ''none'', o_encoding_version = 1, o_original_bytes = f_size file,
      o_transport_bytes = Some (f_size file), o_cache_path = None\<rparr>"

definition pack_members :: "uuid \<Rightarrow> FileRecord list \<Rightarrow> TransportMemberRecord list" where
  "pack_members object_id pack =
     map (\<lambda>(member_index, file). \<lparr>m_object_id = object_id, m_file_id = f_id file,
                                  m_member_index = of_nat member_index\<rparr>) (enumerate 0 pack)"

definition add_object :: "PreparedTransportPlan \<Rightarrow> TransportObjectRecord \<Rightarrow> TransportMemberRecord list
    \<Rightarrow> FileRecord \<Rightarrow> PreparedTransportPlan" where
  "add_object plan object members source =
     \<lparr>pl_objects = pl_objects plan @ [object], pl_members = pl_members plan @ members,
      pl_upload_sources = pl_upload_sources plan @ [source]\<rparr>"

definition source_mtime :: "bool \<Rightarrow> path \<Rightarrow> ('w, i64) staging" where
  "source_mtime cached destination =
     (if cached then on_cache_staged (cached_modified_ns destination) else ok 0)"

text \<open>
  One turn of each loop; \<open>fresh n\<close> is the identifier drawn for the \<open>n\<close>-th object. The state of the
  loops is the plan so far and \<^verbatim>\<open>cached_bytes\<close>.
\<close>

definition prepare_pack ::
  "'w fs_ops \<Rightarrow> 'c zstd_codec \<Rightarrow> header_json \<Rightarrow> (nat \<Rightarrow> uuid) \<Rightarrow> uuid \<Rightarrow> path \<Rightarrow> PackOptions \<Rightarrow> u64
     \<Rightarrow> FileRecord list \<Rightarrow> PreparedTransportPlan \<times> u64 \<Rightarrow> ('w, PreparedTransportPlan \<times> u64) staging" where
  "prepare_pack fs codec js fresh transfer_id pack_directory options cache_budget pack = (\<lambda>(plan, cached_bytes).
     let object_id = fresh (length (pl_objects plan));
         destination = staged_path pack_directory object_id;
         temporary = temporary_path pack_directory object_id;
         remaining_cache = saturating_sub cache_budget cached_bytes in
     bindE (stage_or_measure_pack fs codec js pack temporary destination options remaining_cache
              (report_limit pack cache_budget remaining_cache)) (\<lambda>(transport_bytes, cached).
     let cached_bytes' = (if cached then saturating_add cached_bytes transport_bytes else cached_bytes);
         original_bytes = fold (\<lambda>file total. saturating_add total (f_size file)) pack 0 in
     bindE (source_mtime cached destination) (\<lambda>mtime.
     ok (add_object plan (pack_object object_id transfer_id original_bytes transport_bytes destination)
           (pack_members object_id pack)
           (pack_source object_id transfer_id destination transport_bytes mtime),
         cached_bytes'))))"

definition prepare_standalone ::
  "'w fs_ops \<Rightarrow> 'c zstd_codec \<Rightarrow> header_json \<Rightarrow> (nat \<Rightarrow> uuid) \<Rightarrow> uuid \<Rightarrow> path \<Rightarrow> PackOptions \<Rightarrow> u64
     \<Rightarrow> FileRecord \<Rightarrow> PreparedTransportPlan \<times> u64 \<Rightarrow> ('w, PreparedTransportPlan \<times> u64) staging" where
  "prepare_standalone fs codec js fresh transfer_id pack_directory options cache_budget file = (\<lambda>(plan, cached_bytes).
     let object_id = fresh (length (pl_objects plan));
         destination = staged_path pack_directory object_id;
         temporary = temporary_path pack_directory object_id;
         remaining_cache = saturating_sub cache_budget cached_bytes in
     bindE (stage_or_measure_pack fs codec js [file] temporary destination options remaining_cache
              (report_limit [file] cache_budget remaining_cache)) (\<lambda>(compressed_size, cached).
     if compressed_size < f_size file \<and> compressed_size \<le> cache_budget then
       let cached_bytes' = (if cached then saturating_add cached_bytes compressed_size else cached_bytes) in
       bindE (source_mtime cached destination) (\<lambda>mtime.
       ok (add_object plan (pack_object object_id transfer_id (f_size file) compressed_size destination)
             (pack_members object_id [file])
             (pack_source object_id transfer_id destination compressed_size mtime),
           cached_bytes'))
     else
       thenE (if cached then discard destination else ok ())
         (ok (add_object plan (file_object transfer_id file) (pack_members (f_id file) [file]) file,
              if cached then saturating_sub cached_bytes compressed_size else cached_bytes))))"

fun fold_each :: "('a \<Rightarrow> 'b \<Rightarrow> ('s, 'e, 'b) comp) \<Rightarrow> 'a list \<Rightarrow> 'b \<Rightarrow> ('s, 'e, 'b) comp" where
  "fold_each f [] b = ok b"
| "fold_each f (x # xs) b = bindE (f x b) (fold_each f xs)"

definition prepare_transport_plan_with_observer ::
  "'w fs_ops \<Rightarrow> 'c zstd_codec \<Rightarrow> header_json \<Rightarrow> (nat \<Rightarrow> uuid) \<Rightarrow> uuid \<Rightarrow> FileRecord list \<Rightarrow> path
     \<Rightarrow> PackOptions \<Rightarrow> u64 \<Rightarrow> ('w, PreparedTransportPlan) staging" where
  "prepare_transport_plan_with_observer fs codec js fresh transfer_id files cache_root options cache_budget =
     bindE (map_errE PackFailed (lift_res (plan_packs files options))) (\<lambda>plan.
     let pack_directory = path_join (path_join cache_root ''packs'') (uuid_to_string transfer_id) in
     thenE (if pp_packs plan \<noteq> [] \<or> pp_standalone plan \<noteq> []
            then displayed (on_cache (create_dir_all pack_directory)) else ok ())
     (bindE (fold_each (prepare_pack fs codec js fresh transfer_id pack_directory options cache_budget)
               (pp_packs plan) (\<lparr>pl_objects = [], pl_members = [], pl_upload_sources = []\<rparr>, 0)) (\<lambda>packed.
      bindE (fold_each (prepare_standalone fs codec js fresh transfer_id pack_directory options cache_budget)
               (pp_standalone plan) packed) (\<lambda>(prepared, cached_bytes).
      ok prepared))))"

section \<open>The cache while uploading\<close>

text \<open>\<^verbatim>\<open>PackOptions\<close> is passed through; \<open>files_by_id\<close> is the source's hash map.\<close>

definition member_files ::
  "TransportObjectRecord \<Rightarrow> (uuid \<Rightarrow> FileRecord option) \<Rightarrow> TransportMemberRecord list
     \<Rightarrow> staging_error + FileRecord list" where
  "member_files object files_by_id members =
     map_sum_list (\<lambda>member. case files_by_id (m_file_id member) of
         None \<Rightarrow> Inl (Failure (''Transport object '' @ uuid_to_string (o_id object) @ '' references a missing file''))
       | Some file \<Rightarrow> Inr file) members"

definition rebuild_pack ::
  "'w fs_ops \<Rightarrow> 'c zstd_codec \<Rightarrow> header_json \<Rightarrow> TransportObjectRecord \<Rightarrow> TransportMemberRecord list
     \<Rightarrow> (uuid \<Rightarrow> FileRecord option) \<Rightarrow> PackOptions \<Rightarrow> u64 \<Rightarrow> path \<Rightarrow> ('w, unit) staging" where
  "rebuild_pack fs codec js object object_members files_by_id options cache_budget p =
     (case path_parent p of
        None \<Rightarrow> fail (Failure (''Transport pack '' @ uuid_to_string (o_id object) @ '' has no cache directory''))
      | Some parent \<Rightarrow>
          thenE (displayed (on_cache (create_dir_all parent)))
          (bindE (lift_res (member_files object files_by_id object_members)) (\<lambda>members.
           bindE (stage_or_measure_pack fs codec js members (temporary_path parent (o_id object)) p options
                    cache_budget id) (\<lambda>(transport_bytes, cached).
           if \<not> cached \<or> o_transport_bytes object \<noteq> Some transport_bytes
           then thenE (discard p)
                  (fail (Failure (''Transport pack '' @ uuid_to_string (o_id object)
                                  @ '' could not be reproduced; create a new transfer'')))
           else ok ()))))"

definition pack_upload_source ::
  "'w fs_ops \<Rightarrow> 'c zstd_codec \<Rightarrow> header_json \<Rightarrow> TransportObjectRecord \<Rightarrow> TransportMemberRecord list
     \<Rightarrow> (uuid \<Rightarrow> FileRecord option) \<Rightarrow> PackOptions \<Rightarrow> u64 \<Rightarrow> ('w, FileRecord) staging" where
  "pack_upload_source fs codec js object object_members files_by_id options cache_budget =
     (case o_cache_path object of
        None \<Rightarrow> fail (Failure (''Transport pack '' @ uuid_to_string (o_id object) @ '' has no local cache path''))
      | Some p \<Rightarrow>
          bindE (gets (\<lambda>s. path_exists p (pw_disk s))) (\<lambda>exists.
          thenE (if exists then ok ()
                 else rebuild_pack fs codec js object object_members files_by_id options cache_budget p)
          (bindE (map_errE (AtPath ''Could not open cached transport pack'' p) (on_cache (metadata_len p))) (\<lambda>size.
           if o_transport_bytes object \<noteq> Some size
           then fail (Failure (''Cached transport pack '' @ p @ '' changed; create a new transfer''))
           else bindE (on_cache_staged (cached_modified_ns p)) (\<lambda>mtime_ns.
             ok (pack_source (o_id object) (o_transfer_id object) p size mtime_ns))))))"

definition remove_cached_packs_except :: "TransportObjectRecord list \<Rightarrow> uuid \<Rightarrow> ('w, unit) staging" where
  "remove_cached_packs_except objects keep =
     for_each (\<lambda>object.
       if o_id object = keep \<or> o_kind object \<noteq> TransportObjectKind.Pack then ok ()
       else case o_cache_path object of None \<Rightarrow> ok () | Some p \<Rightarrow> discard p) objects"

section \<open>Emptying the cache\<close>

text \<open>A removal that fails is reported on standard error and skipped.\<close>

definition ignore_io :: "unit io \<Rightarrow> disk \<Rightarrow> disk" where
  "ignore_io op d = snd (op d)"

fun sorted_dedup :: "path list \<Rightarrow> path list" where
  "sorted_dedup (x # y # xs) =
     (if components x = components y then sorted_dedup (x # xs) else x # sorted_dedup (y # xs))"
| "sorted_dedup xs = xs"

definition remove_pack_cache :: "uuid \<Rightarrow> store \<times> disk \<Rightarrow> store \<times> disk" where
  "remove_pack_cache transfer_id = (\<lambda>(store, d). case transport_objects transfer_id store of
     (Inl _, store') \<Rightarrow> (store', d)
   | (Inr objects, store') \<Rightarrow>
       let paths = List.map_filter o_cache_path objects;
           directories = sorted_dedup (sort_key components (List.map_filter path_parent paths));
           d1 = fold (\<lambda>p. ignore_io (remove_file p)) paths d
       in (store', fold (\<lambda>p. ignore_io (remove_dir p)) directories d1))"

definition remove_transfer_pack_directory ::
  "path \<Rightarrow> uuid \<Rightarrow> (disk, staging_error, unit) comp" where
  "remove_transfer_pack_directory database transfer_id =
     (case path_parent database of
        None \<Rightarrow> fail (Failure ''Courier data directory is unavailable'')
      | Some cache_root \<Rightarrow>
          let directory = path_join (path_join cache_root ''packs'') (uuid_to_string transfer_id) in
          bindE (tryE (remove_dir_all directory)) (\<lambda>r. case r of
            Inr _ \<Rightarrow> ok ()
          | Inl (IoError NotFound _) \<Rightarrow> ok ()
          | Inl error \<Rightarrow> fail (AtPath ''Could not remove Courier pack cache'' directory error)))"

text \<open>
  \<^verbatim>\<open>fs::read_dir\<close> is the parameter \<open>read_dir\<close>: the names found, or an error at an entry. Only
  temporary files of the packs' directories that are an hour old are removed.
\<close>

definition extension :: "path \<Rightarrow> string option" where
  "extension p = (case path_file_name p of None \<Rightarrow> None
     | Some w \<Rightarrow> (case split_on (CHR ''.'') w of [_] \<Rightarrow> None | ['''', _] \<Rightarrow> None | ws \<Rightarrow> Some (last ws)))"

type_synonym dir_listing = "path \<Rightarrow> (disk, io_error, (io_error + path) list) comp"

definition STAGED_PACK_STALE_AFTER :: nanos where
  "STAGED_PACK_STALE_AFTER = 3600 * 1000000000"

definition cleanup_entry :: "nanos \<Rightarrow> u64 \<Rightarrow> io_error + path \<Rightarrow> (disk, staging_error, u64) comp" where
  "cleanup_entry at removed item = (case item of
     Inl e \<Rightarrow> fail (Displayed e)
   | Inr p \<Rightarrow>
       bindE (gets (\<lambda>d. file_bytes d p \<noteq> None)) (\<lambda>is_file.
       if \<not> is_file \<or> extension p \<noteq> Some ''tmp'' then ok removed
       else bindE (displayed (disk_metadata p)) (\<lambda>md. case md_modified md of
         Inl e \<Rightarrow> fail (Displayed e)
       | Inr modified \<Rightarrow>
           if modified \<le> at \<and> at - modified \<ge> STAGED_PACK_STALE_AFTER
           then thenE (map_errE (AtPath ''Could not remove stale staged transport pack'' p) (remove_file p))
                  (ok (removed + 1))
           else ok removed)))"

fun cleanup_entries :: "nanos \<Rightarrow> (io_error + path) list \<Rightarrow> u64 \<Rightarrow> (disk, staging_error, u64) comp" where
  "cleanup_entries at [] removed = ok removed"
| "cleanup_entries at (item # items) removed =
     bindE (cleanup_entry at removed item) (\<lambda>removed'. cleanup_entries at items removed')"

fun cleanup_directories :: "dir_listing \<Rightarrow> nanos \<Rightarrow> (io_error + path) list \<Rightarrow> u64 \<Rightarrow> (disk, staging_error, u64) comp" where
  "cleanup_directories read_dir at [] removed = ok removed"
| "cleanup_directories read_dir at (Inl e # items) removed = fail (Displayed e)"
| "cleanup_directories read_dir at (Inr directory # items) removed =
     bindE (gets (path_is_dir directory)) (\<lambda>is_dir.
     if \<not> is_dir then cleanup_directories read_dir at items removed
     else bindE (displayed (read_dir directory)) (\<lambda>entries.
       bindE (cleanup_entries at entries removed) (cleanup_directories read_dir at items)))"

definition cleanup_stale_staged_packs :: "dir_listing \<Rightarrow> path \<Rightarrow> nanos \<Rightarrow> (disk, staging_error, u64) comp" where
  "cleanup_stale_staged_packs read_dir cache_root at =
     (let packs = path_join cache_root ''packs'' in
      bindE (tryE (read_dir packs)) (\<lambda>r. case r of
        Inr entries \<Rightarrow> cleanup_directories read_dir at entries 0
      | Inl (IoError NotFound _) \<Rightarrow> ok 0
      | Inl error \<Rightarrow> fail (AtPath ''Could not inspect Courier's pack cache'' packs error)))"

end
