(* ===== verification/TransportBehaviour.thy ===== *)
theory TransportBehaviour
  imports Transport
begin

text \<open>
  What staging does: the encoder over two writers that accept the same chunks does the same run
  (\<open>writer_simulation\<close>), so a pack staged through the capped writer holds the bytes an
  in-memory writer would get, and as many as the measurement counts; the frame of a staging; and the
  shape of the prepared plan.
\<close>

section \<open>The same run over two writers\<close>

locale writer_simulation =
  fixes codec :: "'c zstd_codec" and putA :: "'s writer" and putB :: "'t writer"
    and viewA :: "'s \<Rightarrow> bytes" and viewB :: "'t \<Rightarrow> bytes" and R :: "'s \<Rightarrow> 't \<Rightarrow> bool"
  assumes put: "R a b \<Longrightarrow> putA bs a = (Inr (), a') \<Longrightarrow> \<exists>b'. putB bs b = (Inr (), b') \<and> R a' b'"
begin

definition linked :: "'c \<times> 's \<Rightarrow> 'c \<times> 't \<Rightarrow> bool" where
  "linked y z \<longleftrightarrow> fst y = fst z \<and> R (snd y) (snd z)"

definition follows :: "('c \<times> 's, io_error, unit) comp \<Rightarrow> ('c \<times> 't, io_error, unit) comp \<Rightarrow> bool" where
  "follows opA opB \<longleftrightarrow>
     (\<forall>y z y'. linked y z \<longrightarrow> opA y = (Inr (), y') \<longrightarrow> (\<exists>z'. opB z = (Inr (), z') \<and> linked y' z'))"

definition paired :: "('w \<times> 'c \<times> 's, PackError, 'a) comp \<Rightarrow> ('w \<times> 'c \<times> 't, PackError, 'a) comp \<Rightarrow> bool" where
  "paired m k \<longleftrightarrow>
     (\<forall>w y z x w' y'. linked y z \<longrightarrow> m (w, y) = (Inr x, (w', y')) \<longrightarrow>
        (\<exists>z'. k (w, z) = (Inr x, (w', z')) \<and> linked y' z'))"

lemma puts: "R a b \<Longrightarrow> for_each putA chunks a = (Inr (), a') \<Longrightarrow> \<exists>b'. for_each putB chunks b = (Inr (), b') \<and> R a' b'"
proof (induction chunks arbitrary: a b)
  case Nil
  then show ?case by (simp add: comp_simps)
next
  case (Cons bs chunks)
  then obtain a1 where a1: "putA bs a = (Inr (), a1)" "for_each putA chunks a1 = (Inr (), a')"
    by (auto simp: comp_simps)
  from put [OF Cons.prems(1) a1(1)] obtain b1 where b1: "putB bs b = (Inr (), b1)" "R a1 b1" by blast
  with Cons.IH [OF b1(2) a1(2)] show ?case by (auto simp: comp_simps)
qed

lemma follows_step: "follows (codec_step putA step) (codec_step putB step)"
proof (unfold follows_def, intro allI impI)
  fix y z y' assume l: "linked y z" and run: "codec_step putA step y = (Inr (), y')"
  from run obtain chunks c' where s: "step (fst y) = Inr (chunks, c')" "fst y' = c'"
    and p: "for_each putA chunks (snd y) = (Inr (), snd y')"
    by (cases y) (auto simp: codec_step_def split: sum.splits prod.splits)
  from l have R: "R (snd y) (snd z)" and c: "fst z = fst y" by (simp_all add: linked_def)
  from puts [OF R p] obtain b' where "for_each putB chunks (snd z) = (Inr (), b')" "R (snd y') b'" by blast
  then show "\<exists>z'. codec_step putB step z = (Inr (), z') \<and> linked y' z'"
    using s c by (intro exI [of _ "(c', b')"]; cases z) (simp add: codec_step_def linked_def)
qed

lemma follows_setup: "follows (\<lambda>y. codec_setup (f (fst y)) y) (\<lambda>z. codec_setup (f (fst z)) z)"
  unfolding follows_def codec_setup_def linked_def by (auto split: sum.splits)

abbreviation "encA \<equiv> over_writer codec putA viewA"
abbreviation "encB \<equiv> over_writer codec putB viewB"

lemma follows_ops:
  "follows (ze_new encA level) (ze_new encB level)"
  "follows (ze_include_checksum encA) (ze_include_checksum encB)"
  "follows (ze_write_all encA bs) (ze_write_all encB bs)"
  "follows (ze_finish encA) (ze_finish encB)"
  using follows_step follows_setup [of "\<lambda>_. zc_new codec level"] follows_setup [of "zc_checksum codec"]
  by (simp_all add: over_writer_def)

lemma paired_on_sink: "follows opA opB \<Longrightarrow> paired (on_sink opA) (on_sink opB)"
  unfolding paired_def follows_def by (fastforce simp: on_sink_Inr)

lemma paired_on_source: "paired (on_source op) (on_source op)"
  unfolding paired_def by (auto simp: on_source_Inr)

lemma paired_ok: "paired (ok x) (ok x)"
  unfolding paired_def by (auto simp: comp_simps)

lemma paired_fail: "paired (fail e) (fail e)"
  unfolding paired_def by (auto simp: comp_simps)

lemma paired_lift_res: "paired (lift_res x) (lift_res x)" "paired (map_errE g (lift_res y)) (map_errE g (lift_res y))"
  unfolding paired_def by (auto simp: comp_simps)

lemma paired_bindE: "paired m k \<Longrightarrow> (\<And>x. paired (f x) (h x)) \<Longrightarrow> paired (bindE m f) (bindE k h)"
  unfolding paired_def bindE_Inr_iff by (metis prod.collapse)

lemma paired_thenE: "paired m k \<Longrightarrow> paired f h \<Longrightarrow> paired (thenE m f) (thenE k h)"
  unfolding thenE_def by (rule paired_bindE)

lemma paired_if: "(b \<Longrightarrow> paired m k) \<Longrightarrow> (\<not> b \<Longrightarrow> paired f h) \<Longrightarrow> paired (if b then m else f) (if b then k else h)"
  by simp

lemma paired_copy_take: "paired (copy_take encA rs limit copied) (copy_take encB rs limit copied)"
  by (induction rs arbitrary: limit copied)
    (auto simp: Let_def split: sum.split intro!: paired_ok paired_fail paired_thenE paired_on_sink follows_ops)

lemma paired_verify: "paired (map_errE g (verify_source_unchanged fs m)) (map_errE g (verify_source_unchanged fs m))"
  unfolding paired_def by (auto simp: comp_simps)

lemmas paired_intros = paired_ok paired_fail paired_lift_res paired_bindE paired_thenE paired_if
  paired_on_sink paired_on_source paired_copy_take follows_ops paired_verify

lemma paired_encode_member: "paired (encode_member fs encA js m n) (encode_member fs encB js m n)"
  unfolding encode_member_def Let_def
  by (intro paired_intros)

lemma paired_encode_members: "paired (encode_members fs encA js ms n) (encode_members fs encB js ms n)"
  by (induction ms arbitrary: n) (auto intro: paired_ok paired_bindE paired_encode_member)

lemma paired_encode_pack: "paired (encode_pack fs encA js ms level) (encode_pack fs encB js ms level)"
  unfolding encode_pack_def Let_def by (intro paired_intros paired_encode_members)

theorem encode_pack_follows:
  assumes "encode_pack fs encA js ms level (w, (c, a)) = (Inr n, (w', (c', a')))" and "R a b"
  shows "\<exists>b'. encode_pack fs encB js ms level (w, (c, b)) = (Inr n, (w', (c', b'))) \<and> R a' b'"
proof -
  have "linked (c, a) (c, b)" using assms(2) by (simp add: linked_def)
  from paired_encode_pack [of fs js ms level, unfolded paired_def, rule_format, OF this assms(1)]
  obtain z' where "encode_pack fs encB js ms level (w, (c, b)) = (Inr n, (w', z'))"
    "linked (c', a') z'" by blast
  then show ?thesis by (cases z') (auto simp: linked_def)
qed

end

section \<open>The capped writer against an in-memory and a counting one\<close>

definition vec_write :: "bytes writer" where
  "vec_write buffer = (\<lambda>content. (Inr (), content @ buffer))"

definition vec_encoder :: "'c zstd_codec \<Rightarrow> ('c \<times> bytes) zstd_encoder" where
  "vec_encoder codec = over_writer codec vec_write id"

lemma write_all_appends:
  "file_bytes d p = Some content \<Longrightarrow> write_all p bs d = (Inr (), d') \<Longrightarrow> file_bytes d' p = Some (content @ bs)"
  by (auto simp: write_all_def file_bytes_append_bytes split: option.splits)

lemma capped_write_Inr:
  "capped_write p limit bs (d, n) = (Inr (), (d', n')) \<longleftrightarrow>
     saturating_add n (buffer_length bs) \<le> limit \<and> write_all p bs d = (Inr (), d')
     \<and> n' = saturating_add n (of_nat (length bs))"
  by (auto simp: capped_write_def not_less split: prod.splits sum.splits)

text \<open>What the capped writer has put on the disk, and the account it keeps of it.\<close>

definition written_to :: "path \<Rightarrow> u64 \<Rightarrow> disk \<times> u64 \<Rightarrow> bytes \<Rightarrow> bool" where
  "written_to p limit s content \<longleftrightarrow>
     file_bytes (fst s) p = Some content
     \<and> (limit \<noteq> - 1 \<longrightarrow> unat (snd s) = length content \<and> length content \<le> unat limit)"

lemma below_max: "limit \<noteq> - 1 \<Longrightarrow> unat (limit :: u64) < u64_max"
proof -
  assume "limit \<noteq> - 1"
  then have "unat limit \<noteq> unat (- 1 :: u64)" by (metis unsigned_word_eqI)
  then show ?thesis using unat_bound [of limit] by (simp add: unat_max_word)
qed

lemma capped_appends:
  assumes "written_to p limit s content" and "capped_write p limit bs s = (Inr (), s')"
  shows "written_to p limit s' (content @ bs)"
proof -
  obtain d n d' n' where s: "s = (d, n)" "s' = (d', n')" by (cases s; cases s')
  have w: "saturating_add n (buffer_length bs) \<le> limit" "write_all p bs d = (Inr (), d')"
    "n' = saturating_add n (of_nat (length bs))"
    using assms(2) unfolding s capped_write_Inr by auto
  have "unat n' = length (content @ bs) \<and> length (content @ bs) \<le> unat limit" if l: "limit \<noteq> - 1"
  proof -
    have "unat limit < u64_max" using l by (rule below_max)
    moreover have "min (unat n + unat (buffer_length bs)) u64_max \<le> unat limit"
      using w(1) by (simp add: word_le_nat_alt unat_saturating_add)
    ultimately have "unat n + unat (buffer_length bs) \<le> unat limit" by simp
    moreover have "unat (buffer_length bs) = min (length bs) u64_max"
      by (simp add: buffer_length_def unat_of_nat take_bit_eq_mod)
    ultimately have le: "unat n + length bs \<le> unat limit" using \<open>unat limit < u64_max\<close> by simp
    then have "unat (of_nat (length bs) :: u64) = length bs"
      using \<open>unat limit < u64_max\<close> by (simp add: unat_of_nat take_bit_eq_mod)
    then show ?thesis
      using le assms(1) l \<open>unat limit < u64_max\<close>
      by (simp add: w(3) unat_saturating_add s written_to_def)
  qed
  then show ?thesis
    using assms(1) write_all_appends [OF _ w(2)] by (simp add: written_to_def s)
qed

interpretation staged: writer_simulation codec "capped_write p limit" vec_write "\<lambda>_. []" id "written_to p limit"
  for codec p limit
  by unfold_locales (auto simp: vec_write_def dest: capped_appends)

interpretation measured: writer_simulation codec vec_write counting_write id "\<lambda>_. []" "\<lambda>content n. n = of_nat (length content)"
  for codec
  by unfold_locales (auto simp: vec_write_def counting_write_def)

section \<open>What an encoder's writer keeps, errors included\<close>

lemma keeps_codec_step: "(\<And>bs. keeps I (put bs)) \<Longrightarrow> keeps (\<lambda>z. I (snd z)) (codec_step put step)"
proof (rule keepsI)
  fix z r z' assume put: "\<And>bs. keeps I (put bs)" and I: "I (snd z)" and run: "codec_step put step z = (r, z')"
  have each: "keeps I (for_each put chunks)" for chunks by (rule keeps_for_each) (rule put)
  from run show "I (snd z')"
    using I keepsD [OF each I] by (cases z) (auto simp: codec_step_def split: sum.splits prod.splits)
qed

lemma keeps_encoder:
  fixes codec :: "'c zstd_codec"
  assumes "\<And>bs. keeps I (put bs)"
  shows "keeps (\<lambda>z. I (snd z)) (ze_new (over_writer codec put view) level)"
    "keeps (\<lambda>z. I (snd z)) (ze_include_checksum (over_writer codec put view))"
    "keeps (\<lambda>z. I (snd z)) (ze_write_all (over_writer codec put view) bs)"
    "keeps (\<lambda>z. I (snd z)) (ze_finish (over_writer codec put view))"
proof -
  have start: "keeps (\<lambda>z. I (snd z)) (\<lambda>z. codec_setup (f (fst z)) z)" for f :: "'c \<Rightarrow> io_error + 'c"
    by (rule keepsI) (auto simp: codec_setup_def split: sum.splits prod.splits)
  have "keeps (\<lambda>z. I (snd z)) (codec_step put step)" for step :: "'c \<Rightarrow> io_error + (bytes list \<times> 'c)"
    by (rule keeps_codec_step) (rule assms)
  then show "keeps (\<lambda>z. I (snd z)) (ze_new (over_writer codec put view) level)"
    "keeps (\<lambda>z. I (snd z)) (ze_include_checksum (over_writer codec put view))"
    "keeps (\<lambda>z. I (snd z)) (ze_write_all (over_writer codec put view) bs)"
    "keeps (\<lambda>z. I (snd z)) (ze_finish (over_writer codec put view))"
    using start [of "zc_checksum codec"] start [of "\<lambda>_. zc_new codec level"]
    by (simp_all add: over_writer_def)
qed

lemma keeps_on_sink: "keeps J op \<Longrightarrow> keeps (\<lambda>s. J (snd s)) (on_sink op)"
  unfolding keeps_def on_sink_def by (fastforce split: prod.splits sum.splits)

lemma keeps_on_source: "keeps (\<lambda>s. J (snd s)) (on_source op)"
  unfolding keeps_def on_source_def by (auto split: prod.splits sum.splits)

lemma keeps_verify_source: "keeps (\<lambda>s. J (snd s)) (verify_source_unchanged fs m)"
  unfolding verify_source_unchanged_def on_env_io_def
  by (rule keepsI) (auto simp: bindE_def fail_def ok_def lift_res_def split: prod.splits sum.splits if_splits)

lemma keeps_encode_pack:
  assumes ops: "\<And>level. keeps J (ze_new enc level)" "keeps J (ze_include_checksum enc)"
    "\<And>bs. keeps J (ze_write_all enc bs)" "keeps J (ze_finish enc)"
  shows "keeps (\<lambda>s. J (snd s)) (encode_pack fs enc js members level)"
proof -
  have copy: "keeps (\<lambda>s. J (snd s)) (copy_take enc rs limit copied)" for rs limit copied
    by (induction rs arbitrary: limit copied)
      (auto simp: Let_def split: sum.split intro!: keeps_intros keeps_on_sink ops)
  have "keeps (\<lambda>s. J (snd s)) (encode_member fs enc js m n)" for m n
    unfolding encode_member_def Let_def
    by (intro keeps_intros keeps_if keeps_on_sink keeps_on_source keeps_verify_source copy ops)
  then have "keeps (\<lambda>s. J (snd s)) (encode_members fs enc js members n)" for n
    by (induction members arbitrary: n) (auto intro: keeps_intros)
  then show ?thesis
    unfolding encode_pack_def Let_def by (intro keeps_intros keeps_on_sink ops)
qed

section \<open>Staging one pack\<close>

lemma keeps_staging_ops [keeps_intros]:
  "loc p \<in> S \<Longrightarrow> loc p \<in> W \<Longrightarrow> keeps (stays S W d0) (open_existing p)"
  unfolding open_existing_def by (rule keeps_disk_op) (auto split: option.splits node.splits)

lemma keeps_capped_write: 
  "loc p \<in> S \<Longrightarrow> loc p \<in> W \<Longrightarrow> keeps (\<lambda>s. stays S W d0 (fst s)) (capped_write p limit bs)"
proof (rule keepsI)
  fix s r s' assume p: "loc p \<in> S" "loc p \<in> W" and s: "stays S W d0 (fst s)"
    and run: "capped_write p limit bs s = (r, s')"
  obtain r1 d1 where w: "write_all p bs (fst s) = (r1, d1)" by force
  then have "stays S W d0 d1" using keepsD [OF keeps_write_all [OF p] s] by blast
  then show "stays S W d0 (fst s')"
    using run w s by (cases s; cases r1) (auto simp: capped_write_def split: if_splits)
qed

text \<open>An encoding into the temporary file, whatever its outcome, touches that file alone.\<close>

lemma encode_into_frame:
  assumes "encode_into fs codec js members level p limit s = (r, s')"
  shows "stays {loc p} {loc p} (pw_disk s) (pw_disk s') \<and> pw_limits s' = pw_limits s"
proof -
  let ?I = "\<lambda>z. stays {loc p} {loc p} (pw_disk s) (fst (snd z))"
  obtain r0 w c d n where run: "encode_pack fs (over_writer codec (capped_write p limit) (\<lambda>_. [])) js members level
            (pw_sources s, (zc_idle codec, (pw_disk s, 0))) = (r0, (w, (c, (d, n))))"
    by (metis prod.collapse)
  have "keeps (\<lambda>t. ?I (snd t))
      (encode_pack fs (over_writer codec (capped_write p limit) (\<lambda>_. [])) js members level)"
    by (intro keeps_encode_pack keeps_encoder [where I = "\<lambda>t. stays {loc p} {loc p} (pw_disk s) (fst t)"]
        keeps_capped_write) auto
  from keepsD [OF this _ run] have "stays {loc p} {loc p} (pw_disk s) d" by simp
  then show ?thesis using assms run by (auto simp: encode_into_def)
qed

text \<open>
  A successful one leaves there what an in-memory writer would have got from the same sources, and
  within the limit.
\<close>

lemma encode_into_Inr:
  assumes "encode_into fs codec js members level p limit s = (Inr n, s')"
    and "file_bytes (pw_disk s) p = Some []"
  shows "\<exists>c content. encode_pack fs (vec_encoder codec) js members level
             (pw_sources s, (zc_idle codec, [])) = (Inr n, (pw_sources s', (c, content)))
     \<and> file_bytes (pw_disk s') p = Some content \<and> (limit \<noteq> - 1 \<longrightarrow> length content \<le> unat limit)"
proof -
  obtain w c d m where run: "encode_pack fs (over_writer codec (capped_write p limit) (\<lambda>_. [])) js members level
            (pw_sources s, (zc_idle codec, (pw_disk s, 0))) = (Inr n, (w, (c, (d, m))))"
    and s': "s' = s\<lparr>pw_sources := w, pw_disk := d\<rparr>"
    using assms(1) by (auto simp: encode_into_def split: prod.splits)
  have "written_to p limit (pw_disk s, 0) []" using assms(2) by (simp add: written_to_def)
  from staged.encode_pack_follows [OF run this] obtain content where
    "encode_pack fs (vec_encoder codec) js members level (pw_sources s, (zc_idle codec, [])) = (Inr n, (w, (c, content)))"
    "written_to p limit (d, m) content" unfolding vec_encoder_def by blast
  then show ?thesis by (auto simp: s' written_to_def)
qed

lemma measure_Inr:
  assumes "encode_pack fs (vec_encoder codec) js members (po_zstd_level options)
             (pw_sources s, (zc_idle codec, [])) = (Inr n, (w', (c, content)))"
  shows "measure_pack_transport_bytes fs codec js members options s
           = (Inr (of_nat (length content)), s\<lparr>pw_sources := w'\<rparr>)"
  using measured.encode_pack_follows [OF assms [unfolded vec_encoder_def], of 0]
  by (auto simp: measure_pack_transport_bytes_def)

lemma measure_frame:
  "measure_pack_transport_bytes fs codec js members options s = (r, s') \<Longrightarrow>
     pw_disk s' = pw_disk s \<and> pw_limits s' = pw_limits s"
  by (auto simp: measure_pack_transport_bytes_def split: prod.splits sum.splits)

lemma open_truncates:
  "open_output False p d = (Inr (), d') \<Longrightarrow> loc p \<noteq> [] \<Longrightarrow> loc p \<noteq> [RootDir] \<Longrightarrow> file_bytes d' p = Some []"
  by (auto simp: open_output_def comp_simps file_bytes_def node_at_def set_node_def
      split: option.splits node.splits if_splits)

lemma on_cache_iff [comp_simps]:
  "on_cache op s = (r, s') \<longleftrightarrow> op (pw_disk s) = (r, pw_disk s') \<and> pw_sources s' = pw_sources s
     \<and> pw_limits s' = pw_limits s \<and> pack_world.more s' = pack_world.more s"
  by (cases s; cases s') (auto simp: on_cache_def split: prod.splits)

lemma on_cache_staged_iff [comp_simps]:
  "on_cache_staged op s = (r, s') \<longleftrightarrow> op (pw_disk s) = (r, pw_disk s') \<and> pw_sources s' = pw_sources s
     \<and> pw_limits s' = pw_limits s \<and> pack_world.more s' = pack_world.more s"
  by (cases s; cases s') (auto simp: on_cache_staged_def split: prod.splits)

lemma rename_file_Inr:
  assumes "rename src dst d = (Inr (), d')" and "file_bytes d src = Some bs" and "loc src \<noteq> loc dst"
    and "loc dst \<noteq> []" and "loc dst \<noteq> [RootDir]"
  shows "file_bytes d' dst = Some bs \<and> file_bytes d' src = None \<and> only {loc src, loc dst} d d'"
proof -
  from assms(2) obtain t where t: "node_at d (loc src) = Some (RegularFile bs t)"
    by (auto simp: file_bytes_Some node_at_def)
  with assms(1,3) have "d' = set_node (loc src) None (set_node (loc dst) (Some (RegularFile bs t)) (turn d))"
    by (auto simp: rename_def comp_simps split: if_splits)
  then show ?thesis using assms(2-5)
    by (auto simp: file_bytes_Some file_bytes_def node_at_def set_node_def only_def)
qed

lemma rename_Inl: "rename src dst d = (Inl e, d') \<Longrightarrow> dk_nodes d' = dk_nodes d"
  by (auto simp: rename_def comp_simps split: option.splits if_splits)

lemma looks_at_nodes:
  "keeps (\<lambda>d. dk_nodes d = N) (open_existing p)" "keeps (\<lambda>d. dk_nodes d = N) (sync_file p)"
  "keeps (\<lambda>d. dk_nodes d = N) (metadata_len p)"
  unfolding open_existing_def sync_file_def metadata_len_def
  by (rule keeps_disk_op; auto split: option.splits node.splits)+

lemma finalize_Inr:
  assumes "finalize_staged p q d = (Inr n, d')" and "file_bytes d p = Some bs" and "loc p \<noteq> loc q"
    and "loc q \<noteq> []" and "loc q \<noteq> [RootDir]"
  shows "n = of_nat (length bs) \<and> file_bytes d' q = Some bs \<and> file_bytes d' p = None \<and> only {loc p, loc q} d d'"
proof -
  from assms(1) obtain d1 d2 where sync: "thenE (open_existing p) (sync_file p) d = (Inr (), d1)"
    and m: "metadata_len p d1 = (Inr n, d2)" and r: "rename p q d2 = (Inr (), d')"
    by (auto simp: finalize_staged_def sync_staged_pack_def displayed_def comp_simps)
  have "dk_nodes d1 = dk_nodes d"
    using keepsD [OF keeps_thenE [OF looks_at_nodes(1,2)] refl sync] .
  moreover have "dk_nodes d2 = dk_nodes d1" using keepsD [OF looks_at_nodes(3) refl m] .
  ultimately have "file_bytes d1 p = file_bytes d p" "file_bytes d2 p = file_bytes d p"
    and only: "only S d2 e = only S d e" for S e
    by (auto intro: file_bytes_cong simp: node_at_def only_def)
  then have same: "file_bytes d1 p = Some bs" "file_bytes d2 p = Some bs" using assms(2) by simp_all
  have "n = of_nat (length bs)" using m same(1)
    by (auto simp: metadata_len_def comp_simps file_bytes_Some node_at_def split: option.splits node.splits)
  then show ?thesis using rename_file_Inr [OF r same(2) assms(3-5)] only by simp
qed


lemma finalize_Inl: "finalize_staged p q d = (Inl e, d') \<Longrightarrow> dk_nodes d' = dk_nodes d"
  unfolding finalize_staged_def sync_staged_pack_def displayed_def
  by (auto simp: comp_simps dest!: rename_Inl keepsD [OF looks_at_nodes(1), rotated]
      keepsD [OF looks_at_nodes(2), rotated] keepsD [OF looks_at_nodes(3), rotated])

text \<open>How a staging can have ended: the measurement alone, a published pack, or neither.\<close>

lemma stage_cases:
  fixes fs :: "'w fs_ops"
  assumes "stage_or_measure_pack fs codec js members p q options limit f s = (r, s')"
  obtains
    (measured) "limit = 0"
      "bindE (measure_pack_transport_bytes fs codec js members options) (\<lambda>n. ok (n, False)) (f s) = (r, s')"
  | (unopened) e where "limit \<noteq> 0" "open_output False p (pw_disk s) = (Inl e, pw_disk s')" "r = Inl (Displayed e)"
  | (published) d1 k s2 n d3 where "limit \<noteq> 0" "open_output False p (pw_disk s) = (Inr (), d1)"
      "encode_into fs codec js members (po_zstd_level options) p limit (s\<lparr>pw_disk := d1\<rparr>) = (Inr k, s2)"
      "finalize_staged p q (pw_disk s2) = (Inr n, d3)" "s' = s2\<lparr>pw_disk := d3\<rparr>" "r = Inr (n, True)"
  | (unpublished) d1 k s2 e d3 where "limit \<noteq> 0" "open_output False p (pw_disk s) = (Inr (), d1)"
      "encode_into fs codec js members (po_zstd_level options) p limit (s\<lparr>pw_disk := d1\<rparr>) = (Inr k, s2)"
      "finalize_staged p q (pw_disk s2) = (Inl e, d3)"
      "discard p (s2\<lparr>pw_disk := d3\<rparr>) = (Inr (), s')" "r = Inl e"
  | (full) d1 e s2 s3 where "limit \<noteq> 0" "open_output False p (pw_disk s) = (Inr (), d1)"
      "encode_into fs codec js members (po_zstd_level options) p limit (s\<lparr>pw_disk := d1\<rparr>) = (Inl e, s2)"
      "cache_budget_exceeded e" "discard p s2 = (Inr (), s3)"
      "bindE (measure_pack_transport_bytes fs codec js members options) (\<lambda>n. ok (n, False)) (f s3) = (r, s')"
  | (broken) d1 e s2 where "limit \<noteq> 0" "open_output False p (pw_disk s) = (Inr (), d1)"
      "encode_into fs codec js members (po_zstd_level options) p limit (s\<lparr>pw_disk := d1\<rparr>) = (Inl e, s2)"
      "\<not> cache_budget_exceeded e" "discard p s2 = (Inr (), s')" "r = Inl (PackFailed e)"
proof -
  obtain r1 d1 where o: "open_output False p (pw_disk s) = (r1, d1)" by force
  obtain r2 s2 where e: "encode_into fs codec js members (po_zstd_level options) p limit (s\<lparr>pw_disk := d1\<rparr>) = (r2, s2)"
    by force
  obtain r3 d3 where f: "finalize_staged p q (pw_disk s2) = (r3, d3)" by force
  have d: "\<exists>t'. discard p t = (Inr (), t')" for t :: "'w pack_world"
    by (cases "remove_file p (pw_disk t)") (simp add: discard_def comp_defs on_cache_def)
  obtain s3 where s3: "discard p s2 = (Inr (), s3)" using d by blast
  obtain s4 where s4: "discard p (s2\<lparr>pw_disk := d3\<rparr>) = (Inr (), s4)" using d by blast
  note run = assms [unfolded stage_or_measure_pack_def]
  show thesis
  proof (cases "limit = 0")
    case True
    then show ?thesis using run by (intro measured) (simp_all add: thenE_def bindE_def modifies_def)
  next
    case z: False
    show ?thesis
    proof (cases r1)
      case (Inl err)
      then show ?thesis using z run o
        by (intro unopened [of err]) (auto simp: thenE_def bindE_def displayed_def map_errE_def on_cache_def)
    next
      case (Inr u)
      have first: "thenE (displayed (on_cache (open_output False p))) m s = m (s\<lparr>pw_disk := d1\<rparr>)"
        for m :: "('w, u64 \<times> bool) staging"
        by (simp add: thenE_def bindE_def displayed_def map_errE_def on_cache_def o Inr)
      have step: "bindE (tryE (encode_into fs codec js members (po_zstd_level options) p limit)) g
          (s\<lparr>pw_disk := d1\<rparr>) = g r2 s2" for g :: "PackError + u64 \<Rightarrow> ('w, u64 \<times> bool) staging"
        by (simp add: bindE_def tryE_def e)
      have run': "(case r2 of
            Inr _ \<Rightarrow> bindE (tryE (on_cache_staged (finalize_staged p q))) (\<lambda>finalized.
              case finalized of Inr n \<Rightarrow> ok (n, True) | Inl error \<Rightarrow> thenE (discard p) (fail error))
          | Inl error \<Rightarrow> if cache_budget_exceeded error then
                thenE (discard p) (thenE (modifies f)
                   (bindE (measure_pack_transport_bytes fs codec js members options) (\<lambda>n. ok (n, False))))
              else thenE (discard p) (fail (PackFailed error))) s2 = (r, s')"
        using run z by (simp add: first step)
      show ?thesis
      proof (cases r2)
        case err: (Inl err)
        show ?thesis
        proof (cases "cache_budget_exceeded err")
          case True
          then show ?thesis using z o Inr e err s3 run'
            by (intro full [of d1 err s2 s3]) (auto simp: thenE_def bindE_def modifies_def)
        next
          case False
          then show ?thesis using z o Inr e err s3 run'
            by (intro broken [of d1 err s2]) (auto simp: thenE_def bindE_def fail_def)
        qed
      next
        case k: (Inr k)
        show ?thesis
        proof (cases r3)
          case (Inl err)
          then show ?thesis using z o \<open>r1 = Inr u\<close> e k f s4 run'
            by (intro unpublished [of d1 k s2 err d3])
              (auto simp: thenE_def bindE_def fail_def tryE_def on_cache_staged_def)
        next
          case (Inr n)
          then show ?thesis using z o \<open>r1 = Inr u\<close> e k f run'
            by (intro published [of d1 k s2 n d3]) (auto simp: bindE_def ok_def tryE_def on_cache_staged_def)
        qed
      qed
    qed
  qed
qed

lemma discard_only: "discard p s = (r, s') \<Longrightarrow>
    stays {loc p} {loc p} (pw_disk s) (pw_disk s') \<and> pw_sources s' = pw_sources s \<and> pw_limits s' = pw_limits s"
  by (cases r) (auto simp: discard_def comp_simps dest: keepsD [OF keeps_file_ops(1) stays_refl, rotated -1])

lemma open_only: "open_output b p d = (r, d') \<Longrightarrow> stays {loc p} {loc p} d d'"
  by (rule keepsD [OF keeps_file_ops(2) stays_refl]) auto

lemma stays_same_nodes: "dk_nodes d' = dk_nodes d \<Longrightarrow> stays S W d0 d \<Longrightarrow> stays S W d0 d'"
  by (simp add: stays_def only_def)

definition quiet_callback :: "('w pack_world \<Rightarrow> 'w pack_world) \<Rightarrow> bool" where
  "quiet_callback f \<longleftrightarrow> (\<forall>s. pw_disk (f s) = pw_disk s \<and> pw_sources (f s) = pw_sources s)"

lemma quiet_report [simp]: "quiet_callback (report_limit pack budget remaining)"
  by (simp add: quiet_callback_def report_limit_def)

lemma stays_limits:
  assumes "bindE (measure_pack_transport_bytes fs codec js members options) (\<lambda>n. ok (n, False)) s = (r, s')"
  shows "pw_disk s' = pw_disk s \<and> (\<forall>n. r \<noteq> Inr (n, True))"
  using assms by (cases r) (auto simp: comp_simps dest: measure_frame)

lemma stage_unpublished:
  assumes "stage_or_measure_pack fs codec js members p q options limit f s = (r, s')" and "quiet_callback f"
    and "\<And>n. r \<noteq> Inr (n, True)"
  shows "stays {loc p} {loc p} (pw_disk s) (pw_disk s')"
  using assms(1)
proof (cases rule: stage_cases)
  case measured
  then show ?thesis using stays_limits [OF measured(2)] assms(2) by (simp add: quiet_callback_def)
next
  case (unopened e)
  then show ?thesis by (blast dest: open_only)
next
  case (published d1 k s2 n d3)
  then show ?thesis using assms(3) by simp
next
  case (unpublished d1 k s2 e d3)
  have "stays {loc p} {loc p} (pw_disk s) (pw_disk s2)"
    using stays_trans [OF open_only [OF unpublished(2)]] encode_into_frame [OF unpublished(3)] by simp
  from stays_same_nodes [OF finalize_Inl [OF unpublished(4)] this] show ?thesis
    using discard_only [OF unpublished(5)] by (auto intro: stays_trans)
next
  case (full d1 e s2 s3)
  have "stays {loc p} {loc p} (pw_disk s) (pw_disk s2)"
    using stays_trans [OF open_only [OF full(2)]] encode_into_frame [OF full(3)] by simp
  then show ?thesis using discard_only [OF full(5)] stays_limits [OF full(6)] assms(2)
    by (auto intro: stays_trans simp: quiet_callback_def)
next
  case (broken d1 e s2)
  have "stays {loc p} {loc p} (pw_disk s) (pw_disk s2)"
    using stays_trans [OF open_only [OF broken(2)]] encode_into_frame [OF broken(3)] by simp
  then show ?thesis using discard_only [OF broken(5)] by (auto intro: stays_trans)
qed

lemma stage_cached:
  assumes "stage_or_measure_pack fs codec js members p q options limit f s = (Inr (n, True), s')"
    and "loc p \<noteq> [RootDir]" "loc p \<noteq> []" "loc q \<noteq> []" "loc q \<noteq> [RootDir]" "loc p \<noteq> loc q"
  shows "\<exists>k c content. encode_pack fs (vec_encoder codec) js members (po_zstd_level options)
             (pw_sources s, (zc_idle codec, [])) = (Inr k, (pw_sources s', (c, content)))
     \<and> file_bytes (pw_disk s') q = Some content \<and> n = of_nat (length content)
     \<and> (limit \<noteq> - 1 \<longrightarrow> length content \<le> unat limit) \<and> file_bytes (pw_disk s') p = None
     \<and> limit \<noteq> 0 \<and> pw_limits s' = pw_limits s \<and> only {loc p, loc q} (pw_disk s) (pw_disk s')"
  using assms(1)
proof (cases rule: stage_cases)
  case measured
  then show ?thesis using stays_limits [OF measured(2)] by simp
next
  case (published d1 k s2 n d3)
  have empty: "file_bytes (pw_disk (s\<lparr>pw_disk := d1\<rparr>)) p = Some []"
    using open_truncates [OF published(2) assms(3,2)] by simp
  from encode_into_Inr [OF published(3) empty] obtain c content where
    c: "encode_pack fs (vec_encoder codec) js members (po_zstd_level options) (pw_sources s, (zc_idle codec, []))
          = (Inr k, (pw_sources s2, (c, content)))" "file_bytes (pw_disk s2) p = Some content"
       "limit \<noteq> - 1 \<longrightarrow> length content \<le> unat limit" by auto
  have "stays {loc p} {loc p} (pw_disk s) (pw_disk s2)"
    using stays_trans [OF open_only [OF published(2)]] encode_into_frame [OF published(3)] by simp
  then have "only {loc p} (pw_disk s) (pw_disk s2)" by (simp add: stays_def)
  then have "only {loc p, loc q} (pw_disk s) (pw_disk s2)" by (rule only_mono) auto
  with finalize_Inr [OF published(4) c(2) assms(6,4,5)]
  have "only {loc p, loc q} (pw_disk s) (pw_disk s')" using published(5) by (simp add: only_trans)
  moreover have "pw_limits s2 = pw_limits s" using encode_into_frame [OF published(3)] by simp
  ultimately show ?thesis
    using finalize_Inr [OF published(4) c(2) assms(6,4,5)] c published(1,5,6)
    by (intro exI [of _ k] exI [of _ c] exI [of _ content]) simp
next
  case (full d1 e s2 s3)
  then show ?thesis using stays_limits [OF full(6)] by simp
qed auto

text \<open>So the size recorded is the one the measurement of the same sources would have given.\<close>

section \<open>The prepared plan\<close>

lemma fold_each_run:
  assumes "fold_each f xs b s = (Inr b', s')" and "P [] b s"
    and step: "\<And>ys x zs b s b' s'. xs = ys @ x # zs \<Longrightarrow> P ys b s \<Longrightarrow> f x b s = (Inr b', s') \<Longrightarrow> P (ys @ [x]) b' s'"
  shows "P xs b' s'"
proof -
  have "fold_each f zs b s = (Inr b', s') \<Longrightarrow> xs = ys @ zs \<Longrightarrow> P ys b s \<Longrightarrow> P xs b' s'" for ys zs b s
  proof (induction zs arbitrary: ys b s)
    case Nil
    then show ?case by (simp add: comp_simps)
  next
    case (Cons z zs)
    from Cons.prems(1) obtain b1 s1 where "f z b s = (Inr b1, s1)" "fold_each f zs b1 s1 = (Inr b', s')"
      by (auto simp: comp_simps)
    with Cons step [of ys z zs b s b1 s1] show ?case by auto
  qed
  from this [OF assms(1) _ assms(2)] show ?thesis by simp
qed

lemma unat_fold_sizes:
  "unat (fold (\<lambda>file total. saturating_add total (f_size file)) pack n) = min (unat n + pack_bytes pack) u64_max"
proof (induction pack arbitrary: n)
  case Nil
  then show ?case using unat_bound [of n] by simp
next
  case (Cons f pack)
  then show ?case by (simp add: unat_saturating_add)
qed

text \<open>What an object and its upload source say of the files \<open>batch\<close> they carry.\<close>

definition carries :: "uuid \<Rightarrow> FileRecord list \<Rightarrow> TransportObjectRecord \<times> FileRecord \<Rightarrow> bool" where
  "carries transfer_id batch = (\<lambda>(object, source).
     batch \<noteq> [] \<and> o_transfer_id object = transfer_id \<and> f_id source = o_id object
     \<and> o_transport_bytes object = Some (f_size source)
     \<and> unat (o_original_bytes object) = min (pack_bytes batch) u64_max
     \<and> (case o_kind object of
          TransportObjectKind.File \<Rightarrow> batch = [source] \<and> o_cache_path object = None
        | TransportObjectKind.Pack \<Rightarrow> o_cache_path object = Some (f_absolute_path source)))"

definition planned :: "uuid \<Rightarrow> FileRecord list list \<Rightarrow> PreparedTransportPlan \<Rightarrow> bool" where
  "planned transfer_id batches plan \<longleftrightarrow>
     list_all2 (carries transfer_id) batches (zip (pl_objects plan) (pl_upload_sources plan))
     \<and> length (pl_objects plan) = length (pl_upload_sources plan)
     \<and> pl_members plan = concat (map2 (\<lambda>object batch. pack_members (o_id object) batch) (pl_objects plan) batches)"

lemma planned_empty [simp]: "planned tid [] \<lparr>pl_objects = [], pl_members = [], pl_upload_sources = []\<rparr>"
  by (simp add: planned_def)

lemma planned_add:
  assumes "planned tid batches plan" and "carries tid batch (object, source)"
  shows "planned tid (batches @ [batch]) (add_object plan object (pack_members (o_id object) batch) source)"
proof -
  have len: "length batches = length (pl_objects plan)"
    using assms(1) list_all2_lengthD unfolding planned_def by fastforce
  then show ?thesis
    using assms by (auto simp: planned_def add_object_def intro!: list_all2_appendI)
qed

lemma prepare_pack_Inr:
  assumes "prepare_pack fs codec js fresh tid dir options budget pack (plan, cached) s = (Inr (plan', cached'), s')"
  obtains n stored mtime s1 where
    "stage_or_measure_pack fs codec js pack (temporary_path dir (fresh (length (pl_objects plan))))
       (staged_path dir (fresh (length (pl_objects plan)))) options (saturating_sub budget cached)
       (report_limit pack budget (saturating_sub budget cached)) s = (Inr (n, stored), s1)"
    "source_mtime stored (staged_path dir (fresh (length (pl_objects plan)))) s1 = (Inr mtime, s')"
    "plan' = add_object plan (pack_object (fresh (length (pl_objects plan))) tid
        (fold (\<lambda>file total. saturating_add total (f_size file)) pack 0) n (staged_path dir (fresh (length (pl_objects plan)))))
       (pack_members (fresh (length (pl_objects plan))) pack)
       (pack_source (fresh (length (pl_objects plan))) tid (staged_path dir (fresh (length (pl_objects plan)))) n mtime)"
    "cached' = (if stored then saturating_add cached n else cached)"
  using assms unfolding prepare_pack_def Let_def split_beta prod.case by (auto simp: comp_simps)

lemma prepare_pack_planned:
  assumes "prepare_pack fs codec js fresh tid dir options budget pack (plan, cached) s = (Inr (plan', cached'), s')"
    and "planned tid batches plan" and "pack \<noteq> []"
  shows "planned tid (batches @ [pack]) plan'"
  using assms(1)
proof (rule prepare_pack_Inr)
  fix n mtime assume "plan' = add_object plan (pack_object (fresh (length (pl_objects plan))) tid
        (fold (\<lambda>file total. saturating_add total (f_size file)) pack 0) n (staged_path dir (fresh (length (pl_objects plan)))))
       (pack_members (fresh (length (pl_objects plan))) pack)
       (pack_source (fresh (length (pl_objects plan))) tid (staged_path dir (fresh (length (pl_objects plan)))) n mtime)"
  with planned_add [OF assms(2), of pack "pack_object (fresh (length (pl_objects plan))) tid
        (fold (\<lambda>file total. saturating_add total (f_size file)) pack 0) n (staged_path dir (fresh (length (pl_objects plan))))"
        "pack_source (fresh (length (pl_objects plan))) tid (staged_path dir (fresh (length (pl_objects plan)))) n mtime"]
  show ?thesis using assms(3) by (simp add: carries_def pack_object_def pack_source_def unat_fold_sizes)
qed

lemma prepare_standalone_planned:
  assumes "prepare_standalone fs codec js fresh tid dir options budget file (plan, cached) s = (Inr (plan', cached'), s')"
    and "planned tid batches plan"
  shows "planned tid (batches @ [[file]]) plan'"
proof -
  let ?i = "fresh (length (pl_objects plan))"
  have "min (unat (f_size file)) u64_max = unat (f_size file)" using unat_bound [of "f_size file"] by simp
  then have "carries tid [file] (pack_object ?i tid (f_size file) n (staged_path dir ?i),
      pack_source ?i tid (staged_path dir ?i) n mtime)" "carries tid [file] (file_object tid file, file)" for n mtime
    by (simp_all add: carries_def pack_object_def pack_source_def file_object_def)
  note added = planned_add [OF assms(2) this(1)] planned_add [OF assms(2) this(2)]
  have "(\<exists>n mtime. plan' = add_object plan (pack_object ?i tid (f_size file) n (staged_path dir ?i)) (pack_members ?i [file])
         (pack_source ?i tid (staged_path dir ?i) n mtime))
    \<or> plan' = add_object plan (file_object tid file) (pack_members (f_id file) [file]) file"
    using assms(1) unfolding prepare_standalone_def Let_def split_beta prod.case
    by (auto simp: comp_simps split: if_splits)
  then show ?thesis using added by (auto simp: pack_object_def file_object_def)
qed

lemma prepared_is_planned:
  assumes "prepare_transport_plan_with_observer fs codec js fresh tid files root options budget s = (Inr plan, s')"
  shows "\<exists>packs. plan_packs files options = Inr packs
     \<and> planned tid (pp_packs packs @ map (\<lambda>f. [f]) (pp_standalone packs)) plan"
proof -
  let ?dir = "path_join (path_join root ''packs'') (uuid_to_string tid)"
  from assms obtain packs s1 packed s2 n where p: "plan_packs files options = Inr packs"
    and f: "fold_each (prepare_pack fs codec js fresh tid ?dir options budget) (pp_packs packs)
              (\<lparr>pl_objects = [], pl_members = [], pl_upload_sources = []\<rparr>, 0) s1 = (Inr packed, s2)"
    and g: "fold_each (prepare_standalone fs codec js fresh tid ?dir options budget) (pp_standalone packs) packed s2
              = (Inr (plan, n), s')"
    unfolding prepare_transport_plan_with_observer_def Let_def split_beta by (auto simp: comp_simps)
  have ne: "\<forall>pack \<in> set (pp_packs packs). pack \<noteq> []"
    using p pack_loop_bounded [of 0 "[]" "po_target_pack_size options"]
    by (auto simp: plan_packs_Inr list_all_iff bounded_pack_def)
  have "planned tid (pp_packs packs) (fst packed)"
    by (rule fold_each_run [OF f, where P = "\<lambda>ys b s. planned tid ys (fst b)"])
      (use ne in \<open>auto intro!: prepare_pack_planned\<close>)
  then have "planned tid (pp_packs packs @ map (\<lambda>f. [f]) (pp_standalone packs)) (fst (plan, n))"
    by (intro fold_each_run [OF g, where P = "\<lambda>ys b s. planned tid (pp_packs packs @ map (\<lambda>f. [f]) ys) (fst b)"])
      (auto simp flip: append_assoc intro!: prepare_standalone_planned)
  then show ?thesis using p by simp
qed

text \<open>
  With pairwise distinct files, the member the manifest finds for a file is the one of its batch: the
  object that carries the batch, at the file's position.
\<close>

lemma pack_members_ids: "map m_file_id (pack_members i batch) = map f_id batch"
  by (intro nth_equalityI) (simp_all add: pack_members_def nth_enumerate_eq)

lemma planned_member_ids:
  assumes "planned tid batches plan"
  shows "map m_file_id (pl_members plan) = map f_id (concat batches)"
proof -
  have len: "length batches = length (pl_objects plan)"
    using assms list_all2_lengthD unfolding planned_def by fastforce
  have "map m_file_id (concat (map2 (\<lambda>object batch. pack_members (o_id object) batch) objects batches))
      = map f_id (concat batches)" if "length batches = length objects" for objects batches
    using that by (induction objects batches rule: list_induct2') (simp_all add: pack_members_ids)
  from this [OF len] assms show ?thesis by (simp add: planned_def)
qed

lemma member_map_Some:
  assumes "distinct (map m_file_id members)" and "m \<in> set members"
  shows "member_map members (m_file_id m) = Some m"
proof -
  have "distinct (map fst (rev (map (\<lambda>m. (m_file_id m, m)) members)))"
    using assms(1) by (simp add: rev_map [symmetric] comp_def)
  then show ?thesis using assms(2) by (simp add: member_map_def map_of_is_SomeI)
qed

lemma planned_member:
  assumes "planned tid batches plan" and "distinct (map f_id (concat batches))"
    and "i < length batches" and "j < length (batches ! i)"
  shows "member_map (pl_members plan) (f_id (batches ! i ! j))
    = Some \<lparr>m_object_id = o_id (pl_objects plan ! i), m_file_id = f_id (batches ! i ! j), m_member_index = of_nat j\<rparr>"
proof -
  let ?m = "\<lparr>m_object_id = o_id (pl_objects plan ! i), m_file_id = f_id (batches ! i ! j), m_member_index = of_nat j\<rparr>"
  have len: "length batches = length (pl_objects plan)"
    using assms(1) list_all2_lengthD unfolding planned_def by fastforce
  have "pack_members (o_id (pl_objects plan ! i)) (batches ! i) ! j = ?m"
    using assms(4) by (simp add: pack_members_def nth_enumerate_eq)
  then have m: "?m \<in> set (pack_members (o_id (pl_objects plan ! i)) (batches ! i))"
    using assms(4) by (metis length_map nth_mem pack_members_ids)
  have "pack_members (o_id (pl_objects plan ! i)) (batches ! i)
      \<in> set (map2 (\<lambda>object batch. pack_members (o_id object) batch) (pl_objects plan) batches)"
    using assms(3) len by (auto simp: set_zip)
  with m have "?m \<in> set (concat (map2 (\<lambda>object batch. pack_members (o_id object) batch) (pl_objects plan) batches))"
    unfolding set_concat by (intro UN_I)
  then have "?m \<in> set (pl_members plan)" using assms(1) by (simp only: planned_def)
  then show ?thesis
    using member_map_Some [of "pl_members plan" ?m] assms(2) planned_member_ids [OF assms(1)] by simp
qed

section \<open>The cache budget\<close>

definition cached_total :: "disk \<Rightarrow> TransportObjectRecord list \<Rightarrow> nat" where
  "cached_total d objects = sum_list (map (\<lambda>object.
     case o_cache_path object of None \<Rightarrow> 0
     | Some p \<Rightarrow> (case file_bytes d p of Some bs \<Rightarrow> length bs | None \<Rightarrow> 0)) objects)"

lemma pack_locations:
  "loc (staged_path dir i) = loc dir @ [Normal (uuid_to_string i @ ''.iscpack.zst'')]"
  "loc (temporary_path dir i) = loc dir @ [Normal (uuid_to_string i @ ''.tmp'')]"
  using loc_join_name [OF uuid_suffix_plain [of "''.iscpack.zst''" i], of dir]
    loc_join_name [OF uuid_suffix_plain [of "''.tmp''" i], of dir]
  by (simp_all add: staged_path_def temporary_path_def)

lemma uuid_length: "length (uuid_to_string u) = 36"
proof -
  have "length (hex_fixed k n) = k" for k n by (induction k arbitrary: n) auto
  then have "length (uuid_simple u) = 32" unfolding uuid_simple_def by blast
  then show ?thesis by (simp add: uuid_to_string_def Let_def)
qed

lemma pack_locations_distinct [simp]:
  "loc (staged_path dir i) = loc (staged_path dir j) \<longleftrightarrow> i = j"
  "loc (temporary_path dir i) \<noteq> loc (staged_path dir j)"
  "loc (staged_path dir j) \<noteq> loc (temporary_path dir i)"
  "loc (staged_path dir i) \<noteq> []" "loc (staged_path dir i) \<noteq> [RootDir]"
  "loc (temporary_path dir i) \<noteq> []" "loc (temporary_path dir i) \<noteq> [RootDir]"
proof -
  have "uuid_to_string i @ ''.tmp'' \<noteq> uuid_to_string j @ ''.iscpack.zst''"
    using uuid_length [of i] uuid_length [of j] by (auto dest: arg_cong [of _ _ length])
  then show "loc (temporary_path dir i) \<noteq> loc (staged_path dir j)" "loc (staged_path dir j) \<noteq> loc (temporary_path dir i)"
    by (auto simp: pack_locations)
  show "loc (staged_path dir i) = loc (staged_path dir j) \<longleftrightarrow> i = j"
    using uuid_to_string_inj by (auto simp: pack_locations)
qed (simp_all add: pack_locations)

lemma keeps_nodes_mtime: "keeps (\<lambda>d. dk_nodes d = N) (cached_modified_ns p)"
  unfolding cached_modified_ns_def disk_metadata_def displayed_def Let_def
  by (intro keeps_intros looks_at_nodes keeps_sum keeps_if)

lemma source_mtime_nodes: "source_mtime stored q s = (r, s') \<Longrightarrow> dk_nodes (pw_disk s') = dk_nodes (pw_disk s)"
  using keepsD [OF keeps_nodes_mtime refl, of q "pw_disk s"]
  by (auto simp: source_mtime_def comp_simps split: if_splits)

lemma length_word_limit: "length content \<le> unat (limit :: u64) \<Longrightarrow> unat (of_nat (length content) :: u64) = length content"
  using unat_bound [of limit] by (simp add: unat_of_nat take_bit_eq_mod)

lemma stage_report:
  assumes run: "stage_or_measure_pack fs codec js members (temporary_path dir i) (staged_path dir i) options limit
             (report_limit members budget left) s = (Inr (n, stored), s')" and "limit \<noteq> - 1"
  shows "only {loc (temporary_path dir i), loc (staged_path dir i)} (pw_disk s) (pw_disk s')"
    and "stored \<Longrightarrow> \<exists>content. file_bytes (pw_disk s') (staged_path dir i) = Some content
         \<and> length content \<le> unat limit \<and> unat n = length content"
    and "\<not> stored \<Longrightarrow> only {loc (temporary_path dir i)} (pw_disk s) (pw_disk s')"
proof -
  show un: "only {loc (temporary_path dir i)} (pw_disk s) (pw_disk s')" if "\<not> stored"
    using stage_unpublished [OF run] that by (simp add: stays_def)
  show "\<exists>content. file_bytes (pw_disk s') (staged_path dir i) = Some content
         \<and> length content \<le> unat limit \<and> unat n = length content" if stored
    using stage_cached [OF run [unfolded that [THEN eqTrueI]]] assms(2) length_word_limit by fastforce
  show "only {loc (temporary_path dir i), loc (staged_path dir i)} (pw_disk s) (pw_disk s')"
  proof (cases stored)
    case True
    then show ?thesis using stage_cached [OF run [unfolded True [THEN eqTrueI]]] by auto
  next
    case False
    then show ?thesis by (intro only_mono [OF un]) auto
  qed
qed

lemma cached_total_only:
  assumes "only S d d'" and "\<And>object p. object \<in> set objects \<Longrightarrow> o_cache_path object = Some p \<Longrightarrow> loc p \<notin> S"
  shows "cached_total d' objects = cached_total d objects"
  unfolding cached_total_def using assms file_bytes_only [OF assms(1)]
  by (intro arg_cong [of _ _ sum_list] map_cong) (auto split: option.splits)

lemma cached_total_append [simp]: "cached_total d (xs @ ys) = cached_total d xs + cached_total d ys"
  by (simp add: cached_total_def)

text \<open>
  The loop over the packs of small files: \<^verbatim>\<open>cached_bytes\<close> is exactly what lies in the cache, and
  never more than the budget.
\<close>

definition accounted :: "path \<Rightarrow> (nat \<Rightarrow> uuid) \<Rightarrow> nat \<Rightarrow> u64 \<Rightarrow> PreparedTransportPlan \<times> u64 \<Rightarrow> disk \<Rightarrow> bool" where
  "accounted dir fresh N budget pl d \<longleftrightarrow>
     cached_total d (pl_objects (fst pl)) = unat (snd pl) \<and> snd pl \<le> budget
     \<and> (\<forall>object \<in> set (pl_objects (fst pl)). \<exists>i < length (pl_objects (fst pl)).
          o_cache_path object = Some (staged_path dir (fresh i)))
     \<and> (\<forall>i \<ge> length (pl_objects (fst pl)). i < N \<longrightarrow> file_bytes d (staged_path dir (fresh i)) = None)"

lemma prepare_pack_accounted:
  assumes run: "prepare_pack fs codec js fresh tid dir options budget pack (plan, cached) s = (Inr (plan', cached'), s')"
    and acc: "accounted dir fresh N budget (plan, cached) (pw_disk s)" and inj: "inj_on fresh {..<N}"
    and left: "length (pl_objects plan) < N" and cap: "budget \<noteq> - 1"
  shows "accounted dir fresh N budget (plan', cached') (pw_disk s') \<and> length (pl_objects plan') = Suc (length (pl_objects plan))"
  using run
proof (rule prepare_pack_Inr)
  let ?k = "length (pl_objects plan)"
  let ?q = "staged_path dir (fresh ?k)" and ?p = "temporary_path dir (fresh ?k)"
  fix n stored mtime s1
  assume st: "stage_or_measure_pack fs codec js pack ?p ?q options (saturating_sub budget cached)
       (report_limit pack budget (saturating_sub budget cached)) s = (Inr (n, stored), s1)"
    and mt: "source_mtime stored ?q s1 = (Inr mtime, s')"
    and plan': "plan' = add_object plan (pack_object (fresh ?k) tid
        (fold (\<lambda>file total. saturating_add total (f_size file)) pack 0) n ?q)
       (pack_members (fresh ?k) pack) (pack_source (fresh ?k) tid ?q n mtime)"
    and cached': "cached' = (if stored then saturating_add cached n else cached)"
  have remaining: "unat (saturating_sub budget cached) = unat budget - unat cached" "unat cached \<le> unat budget"
    using acc by (simp_all add: unat_saturating_sub accounted_def word_le_nat_alt)
  have "unat budget < u64_max" using cap by (rule below_max)
  then have "saturating_sub budget cached \<noteq> - 1" using remaining by (auto simp: unat_max_word dest: arg_cong [of _ _ unat])
  note staged = stage_report [OF st this]
  have nodes: "file_bytes (pw_disk s') x = file_bytes (pw_disk s1) x" for x
    using source_mtime_nodes [OF mt] by (simp add: file_bytes_def node_at_def)
  have fresh: "fresh i = fresh ?k \<longleftrightarrow> i = ?k" if "i < N" for i
    using inj_on_eq_iff [OF inj, of i ?k] that left by simp
  have old: "cached_total (pw_disk s1) (pl_objects plan) = cached_total (pw_disk s) (pl_objects plan)"
    using acc left fresh by (intro cached_total_only [OF staged(1)]) (fastforce simp: accounted_def)
  have new: "file_bytes (pw_disk s1) (staged_path dir (fresh i)) = file_bytes (pw_disk s) (staged_path dir (fresh i))"
    if "i \<noteq> ?k" "i < N" for i
    using that fresh by (intro file_bytes_only [OF staged(1)]) simp
  have this_one: "cached_total (pw_disk s1) [pack_object (fresh ?k) tid
        (fold (\<lambda>file total. saturating_add total (f_size file)) pack 0) n ?q] = (if stored then unat n else 0)"
    using staged(2) acc left file_bytes_only [OF staged(3), of ?q]
    by (auto simp: cached_total_def pack_object_def accounted_def)
  have "unat cached' = unat cached + (if stored then unat n else 0)" "unat cached' \<le> unat budget"
    using staged(2) remaining \<open>unat budget < u64_max\<close> by (auto simp: cached' unat_saturating_add)
  moreover have "cached_total (pw_disk s') objects = cached_total (pw_disk s1) objects" for objects
    by (simp add: cached_total_def nodes cong: option.case_cong)
  ultimately have "cached_total (pw_disk s') (pl_objects plan') = unat cached'" "cached' \<le> budget"
    using acc old this_one by (simp_all add: accounted_def plan' add_object_def word_le_nat_alt)
  moreover have "\<exists>i < length (pl_objects plan'). o_cache_path object = Some (staged_path dir (fresh i))"
    if "object \<in> set (pl_objects plan')" for object
    using that acc by (auto simp: plan' add_object_def accounted_def pack_object_def less_Suc_eq)
  moreover have "file_bytes (pw_disk s') (staged_path dir (fresh i)) = None" if "i \<ge> length (pl_objects plan')" "i < N" for i
    using that acc new [of i] nodes by (simp add: plan' add_object_def accounted_def)
  moreover have "length (pl_objects plan') = Suc ?k" by (simp add: plan' add_object_def)
  ultimately show ?thesis by (simp add: accounted_def)
qed

section \<open>A staging that succeeds\<close>

text \<open>The forward direction: an in-memory writer with the same limit, a directory and no faults.\<close>

definition bounded_write :: "u64 \<Rightarrow> bytes writer" where
  "bounded_write limit buffer = (\<lambda>content.
     if length (content @ buffer) \<le> unat limit then (Inr (), content @ buffer)
     else (Inl (IoError StorageFull ''Courier pack cache budget exceeded''), content))"

definition calm :: "disk \<Rightarrow> bool" where
  "calm d \<longleftrightarrow> dk_fault d = (\<lambda>_. None) \<and> dk_clock d = (\<lambda>_. 0)"

lemma calm_steps [simp]: "calm (turn d) = calm d" "calm (set_node k n d) = calm d"
  by (simp_all add: calm_def turn_def set_node_def)

lemma calm_fault [simp]: "calm d \<Longrightarrow> dk_fault d n = None" "calm d \<Longrightarrow> now d = 0"
  by (simp_all add: calm_def now_def)

definition holds :: "location \<Rightarrow> (location \<Rightarrow> node option) \<Rightarrow> bytes \<Rightarrow> disk \<times> u64 \<Rightarrow> bool" where
  "holds k others content s \<longleftrightarrow>
     k \<noteq> [] \<and> k \<noteq> [RootDir] \<and> calm (fst s) \<and> unat (snd s) = length content
     \<and> dk_nodes (fst s) = others(k \<mapsto> RegularFile content 0)"

interpretation fits: writer_simulation codec "bounded_write limit" "capped_write p limit" id "\<lambda>_. []" "holds (loc p) others"
  for codec p limit others
proof
  fix content s bs content'
  assume h: "holds (loc p) others content s" and w: "bounded_write limit bs content = (Inr (), content')"
  obtain d n where s: "s = (d, n)" by (cases s)
  from w have le: "length content + length bs \<le> unat limit" and c': "content' = content @ bs"
    by (auto simp: bounded_write_def split: if_splits)
  then have m: "unat (of_nat (length bs) :: u64) = length bs" "buffer_length bs = of_nat (length bs)"
    using unat_bound [of limit] by (auto simp: unat_of_nat take_bit_eq_mod buffer_length_def min_def)
  then have n: "unat (saturating_add n (of_nat (length bs))) = length content'"
    using le h c' unat_bound [of limit] by (simp add: unat_saturating_add s holds_def)
  from h have "node_at d (loc p) = Some (RegularFile content 0)" "calm d"
    by (simp_all add: s holds_def node_at_def)
  then have "append_bytes p bs d = set_node (loc p) (Some (RegularFile content' 0)) d" "dk_fault d (dk_tick d) = None"
    by (simp_all add: append_bytes_def c')
  then have "\<exists>d'. write_all p bs d = (Inr (), d') \<and> calm d' \<and> dk_nodes d' = others(loc p \<mapsto> RegularFile content' 0)"
    using h by (simp add: write_all_def s holds_def set_node_def calm_def turn_def)
  then obtain d' where d': "write_all p bs d = (Inr (), d')" "calm d'" "dk_nodes d' = others(loc p \<mapsto> RegularFile content' 0)"
    by blast
  then show "\<exists>s'. capped_write p limit bs s = (Inr (), s') \<and> holds (loc p) others content' s'"
    using n m le c' h by (intro exI [of _ "(d', saturating_add n (of_nat (length bs)))"])
      (simp add: s capped_write_Inr holds_def word_le_nat_alt)
qed

lemma finalize_forward:
  assumes "calm d" and "dk_nodes d (loc p) = Some (RegularFile bs 0)" and "node_at d (loc q) = None"
    and "parent_is_dir d (loc q)" and "loc p \<noteq> []" "loc p \<noteq> [RootDir]"
    and "loc p \<noteq> loc q" "length (loc p) = length (loc q)"
  shows "\<exists>d'. finalize_staged p q d = (Inr (of_nat (length bs)), d') \<and> calm d'
    \<and> dk_nodes d' = (dk_nodes d)(loc q \<mapsto> RegularFile bs 0, loc p := None)"
proof -
  have p: "node_at d (loc p) = Some (RegularFile bs 0)" using assms(2,5,6) by (simp add: node_at_def)
  have sync: "sync_staged_pack p d = (Inr (), turn (turn d))"
    using p assms(1) by (simp add: sync_staged_pack_def open_existing_def sync_file_def disk_op_def comp_defs)
  have len: "metadata_len p (turn (turn d)) = (Inr (of_nat (length bs)), turn (turn (turn d)))"
    using p assms(1) by (simp add: metadata_len_def disk_op_def)
  let ?d = "turn (turn (turn (turn d)))"
  have "\<not> take (length (loc p)) (loc q) = loc p" using assms(7,8) by simp
  moreover have "can_replace ?d (RegularFile bs 0) (loc q)"
    using assms(3,4) by (simp add: can_replace_def parent_is_dir_def)
  ultimately have "rename p q (turn (turn (turn d)))
      = (Inr (), set_node (loc p) None (set_node (loc q) (Some (RegularFile bs 0)) ?d))"
    using p assms(1,7) by (simp add: rename_def disk_op_def)
  then show ?thesis using sync len assms(1)
    by (simp add: finalize_staged_def displayed_def comp_defs set_node_def calm_def turn_def)
qed

lemma stage_forward:
  assumes calm: "calm (pw_disk s)" and dir: "node_at (pw_disk s) (loc dir) = Some Directory"
    and free: "dk_nodes (pw_disk s) (loc (temporary_path dir i)) = None" "dk_nodes (pw_disk s) (loc (staged_path dir i)) = None"
    and enc: "encode_pack fs (over_writer codec (bounded_write limit) id) js members (po_zstd_level options)
        (pw_sources s, (zc_idle codec, [])) = (Inr k, (w', (c, content)))" and "limit \<noteq> 0"
  shows "\<exists>d'. stage_or_measure_pack fs codec js members (temporary_path dir i) (staged_path dir i) options limit f s
      = (Inr (of_nat (length content), True), s\<lparr>pw_sources := w', pw_disk := d'\<rparr>)
    \<and> calm d' \<and> dk_nodes d' = (dk_nodes (pw_disk s))(loc (staged_path dir i) \<mapsto> RegularFile content 0)"
proof -
  let ?p = "temporary_path dir i" and ?q = "staged_path dir i"
  let ?N = "dk_nodes (pw_disk s)"
  let ?d1 = "set_node (loc ?p) (Some (RegularFile [] 0)) (turn (pw_disk s))"
  have "butlast (loc ?p) = loc dir" "butlast (loc ?q) = loc dir" by (simp_all add: pack_locations)
  then have parents: "parent_is_dir (pw_disk s) (loc ?p)" and q: "parent_is_dir d (loc ?q) = (node_at d (loc dir) = Some Directory)" for d
    using dir by (simp_all add: parent_is_dir_def)
  have "node_at (pw_disk s) (loc ?p) = None" using free(1) by (simp add: node_at_def)
  then have opened: "open_output False ?p (pw_disk s) = (Inr (), ?d1)"
    using calm parents by (simp add: open_output_def disk_op_def parent_is_dir_def)
  have "holds (loc ?p) ?N [] (?d1, 0)" using calm by (simp add: holds_def) (simp add: set_node_def)
  from fits.encode_pack_follows [OF enc this] obtain b where
    b: "encode_pack fs (over_writer codec (capped_write ?p limit) (\<lambda>_. [])) js members (po_zstd_level options)
        (pw_sources s, (zc_idle codec, (?d1, 0))) = (Inr k, (w', (c, b)))" "holds (loc ?p) ?N content b"
    by blast
  obtain d2 m where "b = (d2, m)" by (cases b)
  with b have
    run: "encode_pack fs (over_writer codec (capped_write ?p limit) (\<lambda>_. [])) js members (po_zstd_level options)
        (pw_sources s, (zc_idle codec, (?d1, 0))) = (Inr k, (w', (c, (d2, m))))"
    and d2: "calm d2" "dk_nodes d2 = ?N(loc ?p \<mapsto> RegularFile content 0)"
    by (simp_all add: holds_def)
  have "loc dir \<noteq> loc ?p" by (simp add: pack_locations)
  then have "node_at d2 (loc dir) = Some Directory" "node_at d2 (loc ?q) = None"
    using dir free(2) d2(2) by (auto simp: node_at_def split: if_splits)
  moreover from this(1) have "parent_is_dir d2 (loc ?q)" by (simp only: q)
  moreover have "length (loc ?p) = length (loc ?q)" by (simp add: pack_locations)
  moreover have "dk_nodes d2 (loc ?p) = Some (RegularFile content 0)" by (simp add: d2(2))
  ultimately obtain d3 where d3: "finalize_staged ?p ?q d2 = (Inr (of_nat (length content)), d3)" "calm d3"
    "dk_nodes d3 = (dk_nodes d2)(loc ?q \<mapsto> RegularFile content 0, loc ?p := None)"
    using finalize_forward [of d2 ?p content ?q] d2(1) by auto
  have "dk_nodes d3 = ?N(loc ?q \<mapsto> RegularFile content 0)"
    using free(1) by (auto simp: d3(3) d2(2))
  then show ?thesis
    using \<open>limit \<noteq> 0\<close> opened run d3
    by (intro exI [of _ d3]) (simp add: stage_or_measure_pack_def displayed_def comp_defs on_cache_def
        on_cache_staged_def encode_into_def)
qed

lemma source_mtime_forward:
  assumes "calm (pw_disk s)" and "dk_nodes (pw_disk s) (loc q) = Some (RegularFile bs 0)" "loc q \<noteq> []" "loc q \<noteq> [RootDir]"
  shows "\<exists>d'. source_mtime True q s = (Inr 0, s\<lparr>pw_disk := d'\<rparr>) \<and> calm d' \<and> dk_nodes d' = dk_nodes (pw_disk s)"
proof -
  have "node_at (pw_disk s) (loc q) = Some (RegularFile bs 0)" using assms(2-4) by (simp add: node_at_def)
  then have "cached_modified_ns q (pw_disk s) = (Inr 0, turn (pw_disk s))"
    using assms(1) by (simp add: cached_modified_ns_def displayed_def disk_metadata_def metadata_len_def disk_op_def comp_defs)
  then show ?thesis using assms(1)
    by (intro exI [of _ "turn (pw_disk s)"]) (simp add: source_mtime_def on_cache_staged_def)
qed

text \<open>What the three turns of the loops do when the pack of \<open>batch\<close> fits what the account leaves.\<close>

definition ready_for :: "path \<Rightarrow> uuid \<Rightarrow> 'w pack_world \<Rightarrow> bool" where
  "ready_for dir i s \<longleftrightarrow> calm (pw_disk s) \<and> node_at (pw_disk s) (loc dir) = Some Directory
     \<and> dk_nodes (pw_disk s) (loc (temporary_path dir i)) = None \<and> dk_nodes (pw_disk s) (loc (staged_path dir i)) = None"

definition fits_as :: "'w fs_ops \<Rightarrow> 'c zstd_codec \<Rightarrow> header_json \<Rightarrow> PackOptions \<Rightarrow> u64 \<Rightarrow> FileRecord list
    \<Rightarrow> 'w \<Rightarrow> bytes \<Rightarrow> bool" where
  "fits_as fs codec js options limit batch w content \<longleftrightarrow> limit \<noteq> 0 \<and>
     (\<exists>k c. encode_pack fs (over_writer codec (bounded_write limit) id) js batch (po_zstd_level options)
        (w, (zc_idle codec, [])) = (Inr k, (w, (c, content))))"

lemma stage_ready:
  assumes "ready_for dir i s" and "fits_as fs codec js options limit batch (pw_sources s) content"
  shows "\<exists>d'. stage_or_measure_pack fs codec js batch (temporary_path dir i) (staged_path dir i) options limit f s
      = (Inr (of_nat (length content), True), s\<lparr>pw_disk := d'\<rparr>)
    \<and> calm d' \<and> dk_nodes d' = (dk_nodes (pw_disk s))(loc (staged_path dir i) \<mapsto> RegularFile content 0)"
proof -
  from assms(2) obtain k c where "encode_pack fs (over_writer codec (bounded_write limit) id) js batch (po_zstd_level options)
        (pw_sources s, (zc_idle codec, [])) = (Inr k, (pw_sources s, (c, content)))" "limit \<noteq> 0"
    by (auto simp: fits_as_def)
  from stage_forward [of s dir i, OF _ _ _ _ this] assms(1) show ?thesis by (simp add: ready_for_def)
qed

lemma prepare_pack_forward:
  assumes "ready_for dir (fresh (length (pl_objects plan))) s"
    and "fits_as fs codec js options (saturating_sub budget cached) batch (pw_sources s) content"
  shows "\<exists>d'. prepare_pack fs codec js fresh tid dir options budget batch (plan, cached) s
      = (Inr (add_object plan (pack_object (fresh (length (pl_objects plan))) tid
            (fold (\<lambda>file total. saturating_add total (f_size file)) batch 0) (of_nat (length content))
            (staged_path dir (fresh (length (pl_objects plan)))))
          (pack_members (fresh (length (pl_objects plan))) batch)
          (pack_source (fresh (length (pl_objects plan))) tid (staged_path dir (fresh (length (pl_objects plan)))) (of_nat (length content)) 0),
          saturating_add cached (of_nat (length content))), s\<lparr>pw_disk := d'\<rparr>)
    \<and> calm d' \<and> dk_nodes d' = (dk_nodes (pw_disk s))(loc (staged_path dir (fresh (length (pl_objects plan)))) \<mapsto> RegularFile content 0)"
proof -
  let ?i = "fresh (length (pl_objects plan))"
  from stage_ready [OF assms, of "report_limit batch budget (saturating_sub budget cached)"] obtain d1 where
    d1: "stage_or_measure_pack fs codec js batch (temporary_path dir ?i) (staged_path dir ?i) options (saturating_sub budget cached)
       (report_limit batch budget (saturating_sub budget cached)) s = (Inr (of_nat (length content), True), s\<lparr>pw_disk := d1\<rparr>)"
    "calm d1" "dk_nodes d1 = (dk_nodes (pw_disk s))(loc (staged_path dir ?i) \<mapsto> RegularFile content 0)" by blast
  from source_mtime_forward [of "s\<lparr>pw_disk := d1\<rparr>" "staged_path dir ?i" content] d1(2,3) obtain d2 where
    "source_mtime True (staged_path dir ?i) (s\<lparr>pw_disk := d1\<rparr>) = (Inr 0, s\<lparr>pw_disk := d2\<rparr>)" "calm d2" "dk_nodes d2 = dk_nodes d1"
    by auto
  with d1 show ?thesis
    by (intro exI [of _ d2]) (simp add: prepare_pack_def Let_def bindE_def ok_def)
qed

lemma prepare_standalone_kept:
  assumes "ready_for dir (fresh (length (pl_objects plan))) s"
    and "fits_as fs codec js options (saturating_sub budget cached) [file] (pw_sources s) content"
    and "of_nat (length content) < f_size file" and "of_nat (length content) \<le> budget"
  shows "\<exists>d' source. prepare_standalone fs codec js fresh tid dir options budget file (plan, cached) s
      = (Inr (add_object plan (pack_object (fresh (length (pl_objects plan))) tid (f_size file) (of_nat (length content))
            (staged_path dir (fresh (length (pl_objects plan)))))
          (pack_members (fresh (length (pl_objects plan))) [file]) source,
          saturating_add cached (of_nat (length content))), s\<lparr>pw_disk := d'\<rparr>)
    \<and> calm d' \<and> dk_nodes d' = (dk_nodes (pw_disk s))(loc (staged_path dir (fresh (length (pl_objects plan)))) \<mapsto> RegularFile content 0)"
proof -
  let ?i = "fresh (length (pl_objects plan))"
  from stage_ready [OF assms(1,2), of "report_limit [file] budget (saturating_sub budget cached)"] obtain d1 where
    d1: "stage_or_measure_pack fs codec js [file] (temporary_path dir ?i) (staged_path dir ?i) options (saturating_sub budget cached)
       (report_limit [file] budget (saturating_sub budget cached)) s = (Inr (of_nat (length content), True), s\<lparr>pw_disk := d1\<rparr>)"
    "calm d1" "dk_nodes d1 = (dk_nodes (pw_disk s))(loc (staged_path dir ?i) \<mapsto> RegularFile content 0)" by blast
  from source_mtime_forward [of "s\<lparr>pw_disk := d1\<rparr>" "staged_path dir ?i" content] d1(2,3) obtain d2 where
    "source_mtime True (staged_path dir ?i) (s\<lparr>pw_disk := d1\<rparr>) = (Inr 0, s\<lparr>pw_disk := d2\<rparr>)" "calm d2" "dk_nodes d2 = dk_nodes d1"
    by auto
  with d1 assms(3,4) show ?thesis
    by (intro exI [of _ d2] exI [of _ "pack_source ?i tid (staged_path dir ?i) (of_nat (length content)) 0"])
      (simp add: prepare_standalone_def Let_def bindE_def ok_def)
qed

lemma prepare_standalone_dropped:
  assumes "ready_for dir (fresh (length (pl_objects plan))) s"
    and "fits_as fs codec js options (saturating_sub budget cached) [file] (pw_sources s) content"
    and "f_size file \<le> of_nat (length content)"
  shows "\<exists>d'. prepare_standalone fs codec js fresh tid dir options budget file (plan, cached) s
      = (Inr (add_object plan (file_object tid file) (pack_members (f_id file) [file]) file,
          saturating_sub cached (of_nat (length content))), s\<lparr>pw_disk := d'\<rparr>)
    \<and> calm d' \<and> dk_nodes d' = dk_nodes (pw_disk s)"
proof -
  let ?i = "fresh (length (pl_objects plan))"
  let ?q = "staged_path dir ?i"
  from stage_ready [OF assms(1,2), of "report_limit [file] budget (saturating_sub budget cached)"] obtain d1 where
    d1: "stage_or_measure_pack fs codec js [file] (temporary_path dir ?i) ?q options (saturating_sub budget cached)
       (report_limit [file] budget (saturating_sub budget cached)) s = (Inr (of_nat (length content), True), s\<lparr>pw_disk := d1\<rparr>)"
    "calm d1" "dk_nodes d1 = (dk_nodes (pw_disk s))(loc ?q \<mapsto> RegularFile content 0)" by blast
  let ?d = "set_node (loc ?q) None (turn d1)"
  have "node_at d1 (loc ?q) = Some (RegularFile content 0)" using d1(3) by (simp add: node_at_def)
  then have "remove_file ?q d1 = (Inr (), ?d)" using d1(2) by (simp add: remove_file_def disk_op_def)
  then have "discard ?q (s\<lparr>pw_disk := d1\<rparr>) = (Inr (), s\<lparr>pw_disk := ?d\<rparr>)"
    by (simp add: discard_def comp_defs on_cache_def)
  moreover have "dk_nodes ?d = dk_nodes (pw_disk s)"
    using assms(1) by (auto simp: set_node_def d1(3) ready_for_def)
  ultimately show ?thesis using d1(1,2) assms(3)
    by (intro exI [of _ ?d]) (simp add: prepare_standalone_def Let_def bindE_def thenE_def ok_def leD)
qed

lemma keeps_absent_create_dir_all: "keeps (\<lambda>d. file_bytes d p = None) (create_dir_all q)"
proof -
  have "keeps (\<lambda>d. file_bytes d p = None) (disk_op (\<lambda>d. case node_at d k of
              None \<Rightarrow> (Inr (), set_node k (Some Directory) d)
            | Some Directory \<Rightarrow> (Inr (), d)
            | Some (RegularFile _ _) \<Rightarrow> (Inl (other_io ''Not a directory''), d)))" for k
    by (rule keeps_disk_op)
      (auto simp: file_bytes_def node_at_def set_node_def split: option.splits node.splits if_splits)
  then have "keeps (\<lambda>d. file_bytes d p = None) (make_dirs ks)" for ks
    by (induction ks) (auto intro: keeps_intros)
  then show ?thesis by (simp add: create_dir_all_def)
qed

end
