(* ===== verification/TransportProperties.thy ===== *)
theory TransportProperties
  imports TransportBehaviour PlanProperties RegistryApi
begin

text \<open>
  The properties of the transport plan and its cache: what a staged pack is, that measuring and
  staging agree, that the plan carries every file once, the cache budget and its hole, the source
  of an upload, and the clean-up at start.
\<close>

section \<open>An example codec\<close>

definition plain_codec :: "unit zstd_codec" where
  "plain_codec = \<lparr>zc_idle = (), zc_new = (\<lambda>_. Inr ()), zc_checksum = (\<lambda>c. Inr c),
     zc_write = (\<lambda>bs c. Inr ([bs], c)), zc_finish = (\<lambda>c. Inr ([], c))\<rparr>"

lemma plain_vec_chunks:
  "write_chunks (vec_encoder plain_codec) chunks z = Some ((), snd z @ concat chunks)"
  by (induction chunks arbitrary: z)
    (auto simp: vec_encoder_def over_writer_def plain_codec_def codec_step_def vec_write_def comp_defs)

lemma plain_codec_faithful: "zstd_faithful (vec_encoder plain_codec) plain_unzstd"
  by (auto simp: zstd_faithful_def plain_vec_chunks)
    (auto simp: vec_encoder_def over_writer_def plain_codec_def codec_step_def codec_setup_def
      comp_defs plain_unzstd_def split: prod.splits)

abbreviation one_source :: "unit fs_ops" where
  "one_source \<equiv> one_file ''/d/a'' [1, 2, 3] [Inr [1, 2, 3], Inr []]"

lemmas codec_eval = encode_pack_def encode_member_def comp_defs on_sink_def on_source_def
  one_json_def one_header_def one_file_def one_record_def verify_source_unchanged_def on_env_io_def
  modified_ns_def member_path_def portable_path_def components_def is_absolute_def member_header_def
  member_frame_def saturating_add_def MAGIC_def Let_def over_writer_def codec_step_def
  codec_setup_def

lemma one_pack_bounded:
  "encode_pack one_source (over_writer plain_codec (bounded_write 100) id) one_json [one_record] 3
     ((), ((), [])) = (Inr 28, ((), ((), one_pack)))"
  by (simp add: codec_eval plain_codec_def bounded_write_def one_pack_def)

definition cache_disk :: disk where
  "cache_disk = \<lparr>dk_nodes = [[Normal ''c''] \<mapsto> Directory], dk_fault = (\<lambda>_. None), dk_tick = 0, dk_clock = (\<lambda>_. 0)\<rparr>"

definition cache_world :: "unit pack_world" where
  "cache_world = \<lparr>pw_sources = (), pw_disk = cache_disk, pw_limits = []\<rparr>"

lemma one_staged:
  "\<exists>s'. stage_or_measure_pack one_source plain_codec one_json [one_record] (temporary_path ''c'' i)
     (staged_path ''c'' i) default_pack_options 100 id cache_world = (Inr (28, True), s')"
proof -
  have c: "loc ''c'' = [Normal ''c'']" using plain_single [of "''c''"] by (simp add: loc_def plain_name_def)
  have "length one_pack = 28" by (simp add: one_pack_def MAGIC_def member_frame_def)
  moreover have "calm cache_disk" "node_at cache_disk [Normal ''c''] = Some Directory"
    by (simp_all add: calm_def cache_disk_def node_at_def)
  moreover have "dk_nodes cache_disk (loc (temporary_path ''c'' i)) = None" "dk_nodes cache_disk (loc (staged_path ''c'' i)) = None"
    by (simp_all add: pack_locations c cache_disk_def)
  moreover have "encode_pack one_source (over_writer plain_codec (bounded_write 100) id) one_json [one_record]
      (po_zstd_level default_pack_options) (pw_sources cache_world, (zc_idle plain_codec, []))
      = (Inr 28, ((), ((), one_pack)))"
    using one_pack_bounded by (simp add: cache_world_def default_pack_options_def)
  moreover have "pw_disk cache_world = cache_disk" by (simp add: cache_world_def)
  ultimately show ?thesis
    using stage_forward [of cache_world "''c''" i one_source plain_codec 100 one_json "[one_record]" default_pack_options 28 "()" "()" one_pack id] c
    by auto
qed

section \<open>A staged pack\<close>

text \<open>C25: A pack that \<^verbatim>\<open>stage_or_measure_pack\<close> reports as cached lies complete under its final name: no
  longer than the cache limit, of exactly the size it reports, and decoding it yields one member per
  file with the file's path, size, digest and bytes. The temporary file is gone and nothing else on
  the disk has changed.\<close>

theorem staged_pack_is_complete:
  assumes "stage_or_measure_pack fs codec js members (temporary_path dir i) (staged_path dir i) options limit f s
      = (Inr (n, True), s')"
    and "limit \<noteq> - 1" and "json_faithful js" and "zstd_faithful (vec_encoder codec) dec"
  shows "\<exists>bs ms. file_bytes (pw_disk s') (staged_path dir i) = Some bs \<and> unat n = length bs \<and> length bs \<le> unat limit
    \<and> decode_pack dec js collect bs [] = (Inr (), ms) \<and> list_all2 (packed_as fs) members ms
    \<and> file_bytes (pw_disk s') (temporary_path dir i) = None
    \<and> only {loc (temporary_path dir i), loc (staged_path dir i)} (pw_disk s) (pw_disk s')"
proof -
  from stage_cached [OF assms(1)] assms(2) obtain k c bs where
    enc: "encode_pack fs (vec_encoder codec) js members (po_zstd_level options)
             (pw_sources s, (zc_idle codec, [])) = (Inr k, (pw_sources s', (c, bs)))"
    and bs: "file_bytes (pw_disk s') (staged_path dir i) = Some bs" "n = of_nat (length bs)" "length bs \<le> unat limit"
      "file_bytes (pw_disk s') (temporary_path dir i) = None"
      "only {loc (temporary_path dir i), loc (staged_path dir i)} (pw_disk s) (pw_disk s')" by auto
  have out: "ze_output (vec_encoder codec) z = snd z" for z by (simp add: vec_encoder_def over_writer_def)
  have "ze_output (vec_encoder codec) (zc_idle codec, []) = []" by (simp add: out)
  from encode_pack_Inr [OF assms(3,4) this enc] decode_pack_framed obtain ms where
    "decode_pack dec js collect bs [] = (Inr (), ms)" "list_all2 (packed_as fs) members ms"
    unfolding out by fastforce
  with bs length_word_limit [OF bs(3)] show ?thesis by metis
qed

theorem staged_pack_is_complete_witness:
  "\<exists>s' bs ms. stage_or_measure_pack one_source plain_codec one_json [one_record] (temporary_path ''c'' 6)
     (staged_path ''c'' 6) default_pack_options 100 id cache_world = (Inr (28, True), s')
   \<and> file_bytes (pw_disk s') (staged_path ''c'' 6) = Some bs \<and> length bs = 28
   \<and> decode_pack plain_unzstd one_json collect bs [] = (Inr (), ms)"
proof -
  from one_staged [of 6] obtain s' where s': "stage_or_measure_pack one_source plain_codec one_json [one_record]
     (temporary_path ''c'' 6) (staged_path ''c'' 6) default_pack_options 100 id cache_world = (Inr (28, True), s')" by blast
  from staged_pack_is_complete [OF s' _ one_json_faithful plain_codec_faithful] s' show ?thesis by force
qed

text \<open>C26: Measuring is staging without the file: where a pack was cached, \<open>measure_pack_transport_bytes\<close>
  from the same sources reports the same size, so a pack that did not fit the cache is planned with
  the size it will have when it is built again for its upload.\<close>

theorem measuring_agrees_with_staging:
  assumes "stage_or_measure_pack fs codec js members (temporary_path dir i) (staged_path dir i) options limit f s
      = (Inr (n, True), s')"
  shows "measure_pack_transport_bytes fs codec js members options (t\<lparr>pw_sources := pw_sources s\<rparr>)
      = (Inr n, t\<lparr>pw_sources := pw_sources s'\<rparr>)"
proof -
  from stage_cached [OF assms] obtain k c bs where
    enc: "encode_pack fs (vec_encoder codec) js members (po_zstd_level options)
             (pw_sources (t\<lparr>pw_sources := pw_sources s\<rparr>), (zc_idle codec, [])) = (Inr k, (pw_sources s', (c, bs)))"
      "n = of_nat (length bs)" by auto
  from measure_Inr [OF enc(1)] enc(2) show ?thesis by simp
qed

theorem measuring_agrees_with_staging_witness:
  "fst (measure_pack_transport_bytes one_source plain_codec one_json [one_record] default_pack_options cache_world) = Inr 28"
proof -
  from one_staged [of 6] obtain s' where s': "stage_or_measure_pack one_source plain_codec one_json [one_record]
     (temporary_path ''c'' 6) (staged_path ''c'' 6) default_pack_options 100 id cache_world = (Inr (28, True), s')" by blast
  have same: "cache_world\<lparr>pw_sources := x\<rparr> = cache_world" for x by (simp add: cache_world_def)
  from measuring_agrees_with_staging [OF s', of cache_world] show ?thesis unfolding same by simp
qed

section \<open>The plan\<close>

lemma packs_cover:
  assumes "plan_packs files options = Inr packs"
  shows "mset (concat (pp_packs packs @ map (\<lambda>f. [f]) (pp_standalone packs))) = mset files"
proof -
  have "mset (filter (\<lambda>f. f_size f \<le> m) fs) + mset (filter (\<lambda>f. m < f_size f) fs) = mset fs" for m fs
    by (induction fs) (auto simp: not_le)
  then show ?thesis
    using assms by (auto simp: plan_packs_Inr pack_loop_concat simp flip: mset_filter)
qed

text \<open>C27: A prepared plan carries every file exactly once. Its objects come with one upload source
  each, of the same identifier and size; the batches of files they carry partition the transfer's
  files, none is empty, and a batch of several files stays within the target pack size. The
  members list, for every object, its batch in order, so with distinct files the lookup the
  manifest makes finds the object that carries the file and the file's place in it.\<close>

theorem plan_carries_every_file_once:
  assumes "prepare_transport_plan_with_observer fs codec js fresh tid files root options budget s = (Inr plan, s')"
  shows "\<exists>batches. mset (concat batches) = mset files \<and> planned tid batches plan
    \<and> list_all (bounded_pack (po_target_pack_size options)) batches
    \<and> (distinct (map f_id files) \<longrightarrow> (\<forall>i < length batches. \<forall>j < length (batches ! i).
         member_map (pl_members plan) (f_id (batches ! i ! j))
           = Some \<lparr>m_object_id = o_id (pl_objects plan ! i), m_file_id = f_id (batches ! i ! j), m_member_index = of_nat j\<rparr>))"
proof -
  from prepared_is_planned [OF assms] obtain packs where p: "plan_packs files options = Inr packs"
    and planned: "planned tid (pp_packs packs @ map (\<lambda>f. [f]) (pp_standalone packs)) plan" by blast
  let ?b = "pp_packs packs @ map (\<lambda>f. [f]) (pp_standalone packs)"
  have files: "mset (concat ?b) = mset files" using packs_cover [OF p] .
  have bounded: "list_all (bounded_pack (po_target_pack_size options)) ?b"
    using p pack_loop_bounded [of 0 "[]" "po_target_pack_size options"]
    by (auto simp: plan_packs_Inr list_all_iff bounded_pack_def)
  have "distinct (map f_id (concat ?b))" if "distinct (map f_id files)"
    using that files by (metis mset_map mset_eq_imp_distinct_iff)
  with planned_member [OF planned] files bounded planned show ?thesis by blast
qed

definition pack_dir :: path where
  "pack_dir = path_join (path_join ''c'' ''packs'') (uuid_to_string 4)"

lemma pack_dir_created:
  "\<exists>d'. create_dir_all pack_dir cache_disk = (Inr (), d') \<and> calm d' \<and> node_at d' (loc pack_dir) = Some Directory
     \<and> (\<forall>w. dk_nodes d' (loc pack_dir @ [w]) = None)"
proof -
  have c: "loc ''c'' = [Normal ''c'']" using plain_single [of "''c''"] by (simp add: loc_def plain_name_def)
  have packs: "loc (path_join ''c'' ''packs'') = [Normal ''c'', Normal ''packs'']"
    using loc_join_name [of "''packs''" "''c''"] c by (simp add: plain_name_def)
  have l: "loc pack_dir = [Normal ''c'', Normal ''packs'', Normal (uuid_to_string 4)]"
    using loc_join_name [OF uuid_plain] packs by (simp add: pack_dir_def)
  have "[0..<3] = [0, 1, 2 :: nat]" by (simp add: upt_conv_Cons)
  then show ?thesis
    unfolding create_dir_all_def l
    by (simp add: comp_defs disk_op_def cache_disk_def turn_def node_at_def set_node_def calm_def numeral_3_eq_3 numeral_2_eq_2)
qed

lemma one_planned: "plan_packs [one_record] default_pack_options = Inr \<lparr>pp_packs = [[one_record]], pp_standalone = []\<rparr>"
  by (simp add: plan_packs_def default_pack_options_def one_record_def Let_def saturating_add_def)

lemma one_prepared:
  "\<exists>plan s'. prepare_transport_plan_with_observer one_source plain_codec one_json (\<lambda>n. of_nat n + 6) 4 [one_record] ''c''
     default_pack_options 100 cache_world = (Inr plan, s') \<and> map o_id (pl_objects plan) = [6]
   \<and> cached_total (pw_disk s') (pl_objects plan) = 28"
proof -
  let ?fresh = "\<lambda>n :: nat. of_nat n + 6 :: uuid"
  let ?none = "\<lparr>pl_objects = [], pl_members = [], pl_upload_sources = []\<rparr>"
  obtain d1 where d1: "create_dir_all pack_dir cache_disk = (Inr (), d1)" "calm d1" "node_at d1 (loc pack_dir) = Some Directory"
    "\<forall>w. dk_nodes d1 (loc pack_dir @ [w]) = None" using pack_dir_created by blast
  let ?s1 = "cache_world\<lparr>pw_disk := d1\<rparr>"
  have ready: "ready_for pack_dir (?fresh (length (pl_objects ?none))) ?s1"
    using d1 by (simp add: ready_for_def pack_locations)
  have "fits_as one_source plain_codec one_json default_pack_options (saturating_sub 100 0) [one_record] (pw_sources ?s1) one_pack"
    using one_pack_bounded by (simp add: fits_as_def saturating_sub_def cache_world_def default_pack_options_def)
  from prepare_pack_forward [where fresh = ?fresh and plan = ?none and tid = 4, OF ready this] obtain plan s' where
    run: "prepare_pack one_source plain_codec one_json ?fresh 4 pack_dir default_pack_options 100 [one_record] (?none, 0) ?s1
      = (Inr (plan, saturating_add 0 (of_nat (length one_pack))), s')"
    and plan: "map o_id (pl_objects plan) = [6]" "map o_cache_path (pl_objects plan) = [Some (staged_path pack_dir 6)]"
    and s': "dk_nodes (pw_disk s') = (dk_nodes d1)(loc (staged_path pack_dir 6) \<mapsto> RegularFile one_pack 0)"
    by (auto simp: add_object_def pack_object_def)
  have "prepare_transport_plan_with_observer one_source plain_codec one_json ?fresh 4 [one_record] ''c''
     default_pack_options 100 cache_world = (Inr plan, s')"
    using run d1(1) one_planned
    by (simp add: prepare_transport_plan_with_observer_def Let_def pack_dir_def comp_defs displayed_def on_cache_def cache_world_def)
  moreover have "cached_total (pw_disk s') (pl_objects plan) = 28"
    using plan s' by (cases "pl_objects plan")
      (auto simp: cached_total_def file_bytes_def node_at_def one_pack_def MAGIC_def member_frame_def)
  ultimately show ?thesis using plan by (intro exI [of _ plan] exI [of _ s'] conjI)
qed

theorem plan_carries_every_file_once_witness:
  "\<exists>plan s' batches. prepare_transport_plan_with_observer one_source plain_codec one_json (\<lambda>n. of_nat n + 6) 4 [one_record] ''c''
     default_pack_options 100 cache_world = (Inr plan, s') \<and> mset (concat batches) = {#one_record#} \<and> planned 4 batches plan"
proof -
  from one_prepared obtain plan s' where run: "prepare_transport_plan_with_observer one_source plain_codec one_json
     (\<lambda>n. of_nat n + 6) 4 [one_record] ''c'' default_pack_options 100 cache_world = (Inr plan, s')" by blast
  from plan_carries_every_file_once [OF this] obtain batches where
    "mset (concat batches) = mset [one_record]" "planned 4 batches plan" by blast
  with run show ?thesis by auto
qed

section \<open>The cache budget\<close>

lemma length_concat_nonempty: "\<forall>xs \<in> set xss. xs \<noteq> [] \<Longrightarrow> length xss \<le> length (concat xss)"
proof (induction xss)
  case (Cons xs xss)
  then show ?case by (cases xs) auto
qed simp

text \<open>The packs of small files never outgrow the cache: after a preparation in which no file
  exceeds the member limit, all the packs that were staged together take at most the cache budget,
  however often the budget stopped one of them.\<close>

theorem packs_stay_within_the_budget:
  fixes fs :: "'w fs_ops"
  assumes "prepare_transport_plan_with_observer fs codec js fresh tid files root options budget s = (Inr plan, s')"
    and "\<forall>file \<in> set files. f_size file \<le> po_maximum_member_size options"
    and "inj_on fresh {..<length files}" and "budget \<noteq> - 1"
    and "\<forall>i. file_bytes (pw_disk s) (staged_path (path_join (path_join root ''packs'') (uuid_to_string tid)) (fresh i)) = None"
  shows "cached_total (pw_disk s') (pl_objects plan) \<le> unat budget"
proof -
  let ?dir = "path_join (path_join root ''packs'') (uuid_to_string tid)"
  let ?none = "\<lparr>pl_objects = [], pl_members = [], pl_upload_sources = []\<rparr>"
  from assms(1) obtain packs s1 packed s2 n where p: "plan_packs files options = Inr packs"
    and dirs: "(if pp_packs packs \<noteq> [] \<or> pp_standalone packs \<noteq> []
            then displayed (on_cache (create_dir_all ?dir)) else ok ()) s = (Inr (), s1)"
    and f: "fold_each (prepare_pack fs codec js fresh tid ?dir options budget) (pp_packs packs) (?none, 0) s1 = (Inr packed, s2)"
    and g: "fold_each (prepare_standalone fs codec js fresh tid ?dir options budget) (pp_standalone packs) packed s2
              = (Inr (plan, n), s')"
    unfolding prepare_transport_plan_with_observer_def Let_def split_beta by (auto simp: comp_simps)
  have "pp_standalone packs = []" using p assms(2) by (auto simp: plan_packs_Inr filter_empty_conv not_less)
  with g have packed: "packed = (plan, n)" "s' = s2" by (auto simp: comp_simps)
  have "file_bytes (pw_disk s1) (staged_path ?dir (fresh i)) = None" for i
    using dirs assms(5) keepsD [OF keeps_absent_create_dir_all, of "pw_disk s"]
    by (auto simp: displayed_def comp_simps split: if_splits)
  then have start: "accounted ?dir fresh (length (pp_packs packs)) budget (?none, 0) (pw_disk s1)"
    by (simp add: accounted_def cached_total_def)
  have "length (pp_packs packs) \<le> length (concat (pp_packs packs))"
    using pack_loop_bounded [of 0 "[]" "po_target_pack_size options"] p
    by (intro length_concat_nonempty) (auto simp: plan_packs_Inr list_all_iff bounded_pack_def)
  also have "\<dots> \<le> length files" using p by (auto simp: plan_packs_Inr pack_loop_concat)
  finally have inj: "inj_on fresh {..<length (pp_packs packs)}"
    by (intro inj_on_subset [OF assms(3)]) auto
  define P where "P = (\<lambda>(ys :: FileRecord list list) b (s :: 'w pack_world). accounted ?dir fresh (length (pp_packs packs)) budget b (pw_disk s)
      \<and> length (pl_objects (fst b)) = length ys)"
  have step: "P (ys @ [x]) b' t'" if "pp_packs packs = ys @ x # zs" "P ys b t"
    "prepare_pack fs codec js fresh tid ?dir options budget x b t = (Inr b', t')" for ys x zs b t b' t'
  proof -
    obtain pl c pl' c' where b: "b = (pl, c)" "b' = (pl', c')" by (cases b; cases b')
    show ?thesis
      using prepare_pack_accounted [OF that(3) [unfolded b] _ inj _ assms(4)] that(1,2) by (simp add: b P_def)
  qed
  have "P (pp_packs packs) packed s2"
  proof (rule fold_each_run [OF f])
    show "P [] (?none, 0) s1" using start by (simp add: P_def)
  qed (rule step)
  then have "accounted ?dir fresh (length (pp_packs packs)) budget packed (pw_disk s2)
      \<and> length (pl_objects (fst packed)) = length (pp_packs packs)"
    by (simp add: P_def)
  then show ?thesis by (simp add: packed accounted_def word_le_nat_alt)
qed

theorem packs_stay_within_the_budget_witness:
  "\<exists>plan s'. prepare_transport_plan_with_observer one_source plain_codec one_json (\<lambda>n. of_nat n + 6) 4 [one_record] ''c''
     default_pack_options 100 cache_world = (Inr plan, s')
   \<and> cached_total (pw_disk s') (pl_objects plan) = 28 \<and> cached_total (pw_disk s') (pl_objects plan) \<le> 100"
proof -
  from one_prepared obtain plan s' where run: "prepare_transport_plan_with_observer one_source plain_codec one_json
     (\<lambda>n. of_nat n + 6) 4 [one_record] ''c'' default_pack_options 100 cache_world = (Inr plan, s')"
    "cached_total (pw_disk s') (pl_objects plan) = 28" by blast
  have "file_bytes (pw_disk cache_world) (staged_path pack_dir i) = None" for i
    using pack_locations(1) [of pack_dir i] loc_join_name [OF uuid_plain, of "path_join ''c'' ''packs''" 4]
    by (auto simp: cache_world_def cache_disk_def file_bytes_def node_at_def pack_dir_def split: if_splits)
  from packs_stay_within_the_budget [OF run(1)] this run show ?thesis
    by (force simp: one_record_def default_pack_options_def pack_dir_def)
qed

section \<open>The hole in the budget\<close>

text \<open>
  A standalone file that does not compress is staged, found not worth keeping and removed again; its
  size is then taken off \<^verbatim>\<open>cached_bytes\<close>, to which it was never added. What is left of the account is
  too small by that much, and the next file may overdraw the cache: with a budget of 12 bytes the
  three files below leave two packs of 6 and 8 bytes in it.
\<close>

definition sized_file :: "string \<Rightarrow> u64 \<Rightarrow> FileRecord" where
  "sized_file name n = one_record\<lparr>f_relative_path := name, f_absolute_path := name, f_size := n\<rparr>"

definition three_sources :: "unit fs_ops" where
  "three_sources =
     (let n = (\<lambda>p. if p = ''a'' then 7 else if p = ''b'' then 2 else 9) in
      \<lparr>fs_exists = (\<lambda>p w. (True, w)), fs_is_file = (\<lambda>p w. (True, w)), fs_walk = (\<lambda>p w. ([], w)),
       fs_metadata = (\<lambda>p w. (Inr \<lparr>md_len = of_nat (n p), md_modified = Inr 5\<rparr>, w)),
       fs_reads = (\<lambda>p k w. (Inr [Inr (replicate (n p) 1), Inr []], w)),
       fs_read_exact_at = (\<lambda>p off k w. (Inr [], w))\<rparr>)"

definition letter_json :: header_json where
  "letter_json = \<lparr>hj_to_vec = (\<lambda>h. Inr [of_char (hd (h_path h))]), hj_from_slice = (\<lambda>bs. Inl '''')\<rparr>"

text \<open>Compresses the first file to 6 bytes, the second to 5, more than its 2, and the third to 8.\<close>

definition letter_codec :: "nat zstd_codec" where
  "letter_codec = \<lparr>zc_idle = 0, zc_new = (\<lambda>_. Inr 0), zc_checksum = (\<lambda>c. Inr c),
     zc_write = (\<lambda>bs c. Inr ([], if bs = [of_char CHR ''a''] then 6 else if bs = [of_char CHR ''b''] then 5
       else if bs = [of_char CHR ''c''] then 8 else c)),
     zc_finish = (\<lambda>c. Inr ([replicate c 0], c))\<rparr>"

definition big_file_options :: PackOptions where
  "big_file_options = \<lparr>po_maximum_member_size = 1, po_target_pack_size = 64, po_zstd_level = 3\<rparr>"

lemmas letter_eval = encode_pack_def encode_member_def comp_defs on_sink_def on_source_def
  letter_json_def three_sources_def one_record_def sized_file_def verify_source_unchanged_def on_env_io_def
  modified_ns_def member_path_def portable_path_def components_def is_absolute_def member_header_def
  MAGIC_def Let_def over_writer_def codec_step_def codec_setup_def letter_codec_def bounded_write_def

lemma not_one_byte: "le_bytes 8 n \<noteq> [x]" "le_bytes 4 n \<noteq> [x]" "k \<noteq> 1 \<Longrightarrow> replicate k (y :: u8) \<noteq> [x]"
  using le_bytes_length [of 8 n] le_bytes_length [of 4 n] length_replicate [of k y]
  by (metis One_nat_def length_Cons list.size(3) numeral_eq_one_iff semiring_norm(83) semiring_norm(85))+

lemma letter_sizes:
  "fits_as three_sources letter_codec letter_json big_file_options 12 [sized_file ''a'' 7] () (replicate 6 0)"
  "fits_as three_sources letter_codec letter_json big_file_options 6 [sized_file ''b'' 2] () (replicate 5 0)"
  "fits_as three_sources letter_codec letter_json big_file_options 11 [sized_file ''c'' 9] () (replicate 8 0)"
  unfolding fits_as_def
  by (simp_all add: letter_eval big_file_options_def u32_to_le_bytes_def u64_to_le_bytes_def not_one_byte)

lemma three_planned:
  "plan_packs [sized_file ''a'' 7, sized_file ''b'' 2, sized_file ''c'' 9] big_file_options
     = Inr \<lparr>pp_packs = [], pp_standalone = [sized_file ''a'' 7, sized_file ''b'' 2, sized_file ''c'' 9]\<rparr>"
  by (simp add: plan_packs_def big_file_options_def sized_file_def one_record_def Let_def components_def
      is_absolute_def less_Component_def less_eq_Component_def word_le_nat_alt)

text \<open>Every identifier outside \<open>used\<close> is free in the directory.\<close>

definition free_dir :: "path \<Rightarrow> uuid set \<Rightarrow> disk \<Rightarrow> bool" where
  "free_dir dir used d \<longleftrightarrow> calm d \<and> node_at d (loc dir) = Some Directory
     \<and> (\<forall>i. i \<notin> used \<longrightarrow> dk_nodes d (loc (temporary_path dir i)) = None \<and> dk_nodes d (loc (staged_path dir i)) = None)"

lemma free_dir_ready: "free_dir dir used (pw_disk s) \<Longrightarrow> i \<notin> used \<Longrightarrow> ready_for dir i s"
  by (simp add: free_dir_def ready_for_def)

lemma free_dir_staged:
  assumes "free_dir dir used d" and "calm d'" and "dk_nodes d' = (dk_nodes d)(loc (staged_path dir i) \<mapsto> n)"
  shows "free_dir dir (insert i used) d'"
proof -
  have "loc dir \<noteq> loc (staged_path dir i)" by (simp add: pack_locations)
  then show ?thesis using assms by (auto simp: free_dir_def node_at_def split: if_splits)
qed

lemma free_dir_same: "free_dir dir used d \<Longrightarrow> calm d' \<Longrightarrow> dk_nodes d' = dk_nodes d \<Longrightarrow> free_dir dir used d'"
  by (auto simp: free_dir_def node_at_def)

theorem incompressible_file_overdraws_the_cache:
  "\<exists>plan s'. prepare_transport_plan_with_observer three_sources letter_codec letter_json (\<lambda>n. of_nat n + 6) 4
       [sized_file ''a'' 7, sized_file ''b'' 2, sized_file ''c'' 9] ''c'' big_file_options 12 cache_world = (Inr plan, s')
     \<and> cached_total (pw_disk s') (pl_objects plan) = 14"
proof -
  let ?fresh = "\<lambda>n :: nat. of_nat n + 6 :: uuid"
  let ?none = "\<lparr>pl_objects = [], pl_members = [], pl_upload_sources = []\<rparr>"
  let ?prep = "prepare_standalone three_sources letter_codec letter_json ?fresh 4 pack_dir big_file_options 12"
  obtain d0 where d0: "create_dir_all pack_dir cache_disk = (Inr (), d0)" "calm d0" "node_at d0 (loc pack_dir) = Some Directory"
    "\<forall>w. dk_nodes d0 (loc pack_dir @ [w]) = None" using pack_dir_created by blast
  let ?s = "\<lambda>d. cache_world\<lparr>pw_disk := d\<rparr>"
  have src: "pw_sources (?s d) = ()" for d by simp
  have sub: "saturating_sub 12 0 = (12 :: u64)" "saturating_sub 12 6 = (6 :: u64)" "saturating_sub 12 1 = (11 :: u64)"
    "saturating_add 0 6 = (6 :: u64)" "saturating_sub 6 5 = (1 :: u64)" "saturating_add 1 8 = (9 :: u64)"
    by (simp_all add: saturating_sub_def saturating_add_def)
  let ?p = "\<lambda>i. staged_path pack_dir i"
  have f0: "free_dir pack_dir {} (pw_disk (?s d0))" using d0 by (simp add: free_dir_def pack_locations)
  have "ready_for pack_dir (?fresh (length (pl_objects ?none))) (?s d0)" by (rule free_dir_ready [OF f0]) simp
  from prepare_standalone_kept [where fresh = ?fresh and plan = ?none and tid = 4 and cached = 0 and budget = 12, OF this,
      of three_sources letter_codec letter_json big_file_options "sized_file ''a'' 7" "replicate 6 0"] letter_sizes(1)
  obtain plan1 d1 where r1: "?prep (sized_file ''a'' 7) (?none, 0) (?s d0) = (Inr (plan1, 6), ?s d1)"
    and p1: "map o_cache_path (pl_objects plan1) = [Some (?p 6)]" and c1: "calm d1"
    and d1: "dk_nodes d1 = (dk_nodes d0)(loc (?p 6) \<mapsto> RegularFile (replicate 6 0) 0)"
    by (auto simp: sub add_object_def pack_object_def sized_file_def)
  have k1: "length (pl_objects plan1) = 1" using arg_cong [OF p1, of length] by simp
  have f1: "free_dir pack_dir {6} (pw_disk (?s d1))" using free_dir_staged [OF f0, of d1] c1 d1 by simp
  have "ready_for pack_dir (?fresh (length (pl_objects plan1))) (?s d1)"
    by (rule free_dir_ready [OF f1]) (simp add: k1)
  from prepare_standalone_dropped [where fresh = ?fresh and plan = plan1 and tid = 4 and cached = 6 and budget = 12, OF this,
      of three_sources letter_codec letter_json big_file_options "sized_file ''b'' 2" "replicate 5 0"] letter_sizes(2)
  obtain plan2 d2 where r2: "?prep (sized_file ''b'' 2) (plan1, 6) (?s d1) = (Inr (plan2, 1), ?s d2)"
    and p2: "map o_cache_path (pl_objects plan2) = [Some (?p 6), None]" and c2: "calm d2" and d2: "dk_nodes d2 = dk_nodes d1"
    by (auto simp: sub p1 add_object_def file_object_def sized_file_def)
  have k2: "length (pl_objects plan2) = 2" using arg_cong [OF p2, of length] by simp
  have f2: "free_dir pack_dir {6} (pw_disk (?s d2))" using free_dir_same [OF f1, of d2] c2 d2 by simp
  have "ready_for pack_dir (?fresh (length (pl_objects plan2))) (?s d2)"
    by (rule free_dir_ready [OF f2]) (simp add: k2)
  from prepare_standalone_kept [where fresh = ?fresh and plan = plan2 and tid = 4 and cached = 1 and budget = 12, OF this,
      of three_sources letter_codec letter_json big_file_options "sized_file ''c'' 9" "replicate 8 0"] letter_sizes(3)
  obtain plan3 d3 where r3: "?prep (sized_file ''c'' 9) (plan2, 1) (?s d2) = (Inr (plan3, 9), ?s d3)"
    and p3: "map o_cache_path (pl_objects plan3) = [Some (?p 6), None, Some (?p 8)]"
    and d3: "dk_nodes d3 = (dk_nodes d2)(loc (?p 8) \<mapsto> RegularFile (replicate 8 0) 0)"
    by (auto simp: sub p2 k2 add_object_def pack_object_def sized_file_def)
  have "prepare_transport_plan_with_observer three_sources letter_codec letter_json ?fresh 4
       [sized_file ''a'' 7, sized_file ''b'' 2, sized_file ''c'' 9] ''c'' big_file_options 12 cache_world = (Inr plan3, ?s d3)"
    using r1 r2 r3 d0(1) three_planned
    by (simp add: prepare_transport_plan_with_observer_def Let_def pack_dir_def comp_defs displayed_def on_cache_def cache_world_def)
  moreover have "file_bytes d3 (?p 6) = Some (replicate 6 0)" "file_bytes d3 (?p 8) = Some (replicate 8 0)"
    by (simp_all add: file_bytes_def node_at_def d1 d2 d3)
  then have "cached_total d3 (pl_objects plan3) = 14"
    using p3 by (auto simp: cached_total_def map_eq_Cons_conv)
  ultimately show ?thesis by (intro exI [of _ plan3] exI [of _ "?s d3"]) simp
qed

section \<open>The source of an upload\<close>

lemma loc_parent_staged:
  assumes "path_parent (staged_path dir i) = Some parent"
  shows "loc (temporary_path parent j) = loc dir @ [Normal (uuid_to_string j @ ''.tmp'')]"
proof -
  have plain: "plain_name (uuid_to_string i @ ''.iscpack.zst'')" by (rule uuid_suffix_plain) simp
  have "components parent = butlast (components (staged_path dir i))" using path_parent_Some [OF assms] by simp
  moreover have "components (staged_path dir i) = components dir @ [Normal (uuid_to_string i @ ''.iscpack.zst'')]"
    using components_path_join [of _ dir] plain_single [OF plain] plain by (simp add: staged_path_def plain_name_def)
  ultimately have "loc parent = loc dir" by (simp add: loc_def)
  then show ?thesis by (simp add: pack_locations)
qed

text \<open>C28: What \<^verbatim>\<open>pack_upload_source\<close> hands to the upload engine is the object that was planned: its identifier,
  the cached pack, and exactly the transport size the plan and the manifest recorded, so the part plan
  made from it still fits. A pack that had left the cache is built again, and then decodes to
  one member for each file of the object, in order.\<close>

theorem upload_source_is_the_planned_pack:
  assumes run: "pack_upload_source fs codec js object members files_by_id options budget s = (Inr source, s')"
    and path: "o_cache_path object = Some (staged_path dir (o_id object))"
    and "json_faithful js" and "zstd_faithful (vec_encoder codec) dec"
  shows "f_id source = o_id object \<and> f_absolute_path source = staged_path dir (o_id object)
    \<and> o_transport_bytes object = Some (f_size source)
    \<and> (path_exists (staged_path dir (o_id object)) (pw_disk s)
       \<or> (\<exists>files bs ms. member_files object files_by_id members = Inr files
            \<and> file_bytes (pw_disk s') (staged_path dir (o_id object)) = Some bs \<and> f_size source = of_nat (length bs)
            \<and> decode_pack dec js collect bs [] = (Inr (), ms) \<and> list_all2 (packed_as fs) files ms))"
proof -
  let ?i = "o_id object"
  let ?p = "staged_path dir ?i"
  have gets: "bindE (gets f) k t = k (f t) t" for f :: "'a pack_world \<Rightarrow> bool" and k t
    by (simp add: bindE_def gets_def)
  from run [unfolded pack_upload_source_def path option.case gets thenE_Inr_iff] obtain u s1 where mid: "(if path_exists ?p (pw_disk s) then ok ()
        else rebuild_pack fs codec js object members files_by_id options budget ?p) s = (Inr u, s1)"
    and rest: "bindE (map_errE (AtPath ''Could not open cached transport pack'' ?p) (on_cache (metadata_len ?p))) (\<lambda>size.
           if o_transport_bytes object \<noteq> Some size
           then fail (Failure (''Cached transport pack '' @ ?p @ '' changed; create a new transfer''))
           else bindE (on_cache_staged (cached_modified_ns ?p)) (\<lambda>mtime_ns.
             ok (pack_source ?i (o_transfer_id object) ?p size mtime_ns))) s1 = (Inr source, s')"
    by blast
  obtain r2 d2 where len: "metadata_len ?p (pw_disk s1) = (r2, d2)" by force
  obtain r3 d3 where mt: "cached_modified_ns ?p d2 = (r3, d3)" by force
  from rest len mt have "\<exists>size mtime. r2 = Inr size \<and> r3 = Inr mtime \<and> o_transport_bytes object = Some size
      \<and> source = pack_source ?i (o_transfer_id object) ?p size mtime \<and> pw_disk s' = d3"
    by (cases r2; cases r3) (auto simp: bindE_def map_errE_def on_cache_def on_cache_staged_def fail_def ok_def split: if_splits)
  then obtain size mtime where src: "source = pack_source ?i (o_transfer_id object) ?p size mtime"
    "o_transport_bytes object = Some size" "pw_disk s' = d3" by blast
  have "dk_nodes d2 = dk_nodes (pw_disk s1)" by (rule keepsD [OF looks_at_nodes(3) refl len])
  moreover have "dk_nodes d3 = dk_nodes d2" by (rule keepsD [OF keeps_nodes_mtime refl mt])
  ultimately have same: "file_bytes (pw_disk s') q = file_bytes (pw_disk s1) q" for q
    by (intro file_bytes_cong) (simp add: node_at_def src(3))
  have "\<exists>files bs ms. member_files object files_by_id members = Inr files
            \<and> file_bytes (pw_disk s1) ?p = Some bs \<and> size = of_nat (length bs)
            \<and> decode_pack dec js collect bs [] = (Inr (), ms) \<and> list_all2 (packed_as fs) files ms"
    if "\<not> path_exists ?p (pw_disk s)"
  proof -
    from mid that have "rebuild_pack fs codec js object members files_by_id options budget ?p s = (Inr (), s1)" by simp
    then obtain parent s3 files n where parent: "path_parent ?p = Some parent" and files: "member_files object files_by_id members = Inr files"
      and st: "stage_or_measure_pack fs codec js files (temporary_path parent ?i) ?p options budget id s3 = (Inr (n, True), s1)"
      and n: "o_transport_bytes object = Some n"
      unfolding rebuild_pack_def by (auto simp: comp_simps split: option.splits if_splits)
    have "loc (temporary_path parent ?i) = loc (temporary_path dir ?i)"
      using loc_parent_staged [OF parent] by (simp add: pack_locations)
    then have "loc (temporary_path parent ?i) \<noteq> loc ?p" "loc (temporary_path parent ?i) \<noteq> []"
      "loc (temporary_path parent ?i) \<noteq> [RootDir]" by simp_all
    with stage_cached [OF st] obtain k c bs where
      enc: "encode_pack fs (vec_encoder codec) js files (po_zstd_level options)
             (pw_sources s3, (zc_idle codec, [])) = (Inr k, (pw_sources s1, (c, bs)))"
      and bs: "file_bytes (pw_disk s1) ?p = Some bs" "n = of_nat (length bs)" by auto
    have out: "ze_output (vec_encoder codec) z = snd z" for z by (simp add: vec_encoder_def over_writer_def)
    have "ze_output (vec_encoder codec) (zc_idle codec, []) = []" by (simp add: out)
    from encode_pack_Inr [OF assms(3,4) this enc] decode_pack_framed obtain ms where
      "decode_pack dec js collect bs [] = (Inr (), ms)" "list_all2 (packed_as fs) files ms"
      unfolding out by fastforce
    with files bs n src(2) show ?thesis by auto
  qed
  then show ?thesis using src same by (auto simp: pack_source_def)
qed

definition stocked_disk :: disk where
  "stocked_disk = \<lparr>dk_nodes = [[Normal ''c''] \<mapsto> Directory, loc (staged_path ''c'' 6) \<mapsto> RegularFile one_pack 0],
     dk_fault = (\<lambda>_. None), dk_tick = 0, dk_clock = (\<lambda>_. 0)\<rparr>"

theorem upload_source_is_the_planned_pack_witness:
  "\<exists>source s'. pack_upload_source one_source plain_codec one_json (pack_object 6 4 3 28 (staged_path ''c'' 6))
       (pack_members 6 [one_record]) (\<lambda>i. if i = 9 then Some one_record else None) default_pack_options 100
       (cache_world\<lparr>pw_disk := stocked_disk\<rparr>) = (Inr source, s')
   \<and> f_id source = 6 \<and> f_size source = 28"
proof -
  let ?p = "staged_path ''c'' 6"
  let ?object = "pack_object 6 4 3 28 ?p"
  have node: "node_at stocked_disk (loc ?p) = Some (RegularFile one_pack 0)" by (simp add: node_at_def stocked_disk_def)
  have calm: "calm stocked_disk" by (simp add: calm_def stocked_disk_def)
  have "length one_pack = 28" by (simp add: one_pack_def MAGIC_def member_frame_def)
  then have "metadata_len ?p stocked_disk = (Inr 28, turn stocked_disk)"
    "cached_modified_ns ?p (turn stocked_disk) = (Inr 0, turn (turn stocked_disk))"
    using node calm by (simp_all add: metadata_len_def disk_op_def cached_modified_ns_def displayed_def disk_metadata_def comp_defs)
  then obtain source s' where run: "pack_upload_source one_source plain_codec one_json ?object
       (pack_members 6 [one_record]) (\<lambda>i. if i = 9 then Some one_record else None) default_pack_options 100
       (cache_world\<lparr>pw_disk := stocked_disk\<rparr>) = (Inr source, s')"
    using node by (simp add: pack_upload_source_def pack_object_def path_exists_def comp_defs on_cache_def on_cache_staged_def)
  have "o_cache_path ?object = Some (staged_path ''c'' (o_id ?object))" by (simp add: pack_object_def)
  from upload_source_is_the_planned_pack [OF run this one_json_faithful plain_codec_faithful] run
  show ?thesis by (auto simp: pack_object_def)
qed

section \<open>The clean-up at start\<close>

lemma disk_metadata_run:
  assumes "disk_metadata p e = (r, e')"
  shows "dk_nodes e' = dk_nodes e
    \<and> (\<forall>md bs t. r = Inr md \<and> node_at e (loc p) = Some (RegularFile bs t) \<longrightarrow> md_modified md = Inr t)"
  using assms by (cases r)
    (auto simp: disk_metadata_def metadata_len_def comp_simps split: option.splits node.splits)

lemma cleanup_entry_nodes:
  assumes "cleanup_entry at n item e = (r, e')"
  shows "dk_nodes e' = dk_nodes e
    \<or> (\<exists>p bs t. extension p = Some ''tmp'' \<and> dk_nodes e (loc p) = Some (RegularFile bs t)
         \<and> t + STAGED_PACK_STALE_AFTER \<le> at \<and> dk_nodes e' = (dk_nodes e)(loc p := None))"
proof (cases "\<exists>p. item = Inr p \<and> file_bytes e p \<noteq> None \<and> extension p = Some ''tmp''")
  case False
  then show ?thesis using assms
    by (cases item) (auto simp: cleanup_entry_def bindE_def gets_def fail_def ok_def)
next
  case True
  then obtain p where p: "item = Inr p" "file_bytes e p \<noteq> None" "extension p = Some ''tmp''" by blast
  then obtain bs t where k: "dk_nodes e (loc p) = Some (RegularFile bs t)" "loc p \<noteq> []" "loc p \<noteq> [RootDir]"
    by (auto simp: file_bytes_Some)
  then have n: "node_at e (loc p) = Some (RegularFile bs t)" by (simp add: node_at_def)
  obtain r1 e1 where m: "disk_metadata p e = (r1, e1)" by force
  note meta = disk_metadata_run [OF m]
  show ?thesis
  proof (cases "(\<exists>md. r1 = Inr md) \<and> t \<le> at \<and> at - t \<ge> STAGED_PACK_STALE_AFTER")
    case False
    then have "dk_nodes e' = dk_nodes e1" using assms p m meta n
      by (cases r1) (auto simp: cleanup_entry_def bindE_def gets_def fail_def ok_def displayed_def map_errE_def)
    then show ?thesis using meta by simp
  next
    case True
    then obtain md where md: "r1 = Inr md" "md_modified md = Inr t" using meta n by auto
    obtain r2 e2 where rm: "remove_file p e1 = (r2, e2)" by force
    have "e' = e2" using assms p m md True rm
      by (cases r2) (auto simp: cleanup_entry_def comp_defs displayed_def)
    moreover have "node_at e1 (loc p) = Some (RegularFile bs t)" by (simp add: node_at_def k meta)
    then have "dk_nodes e2 = dk_nodes e1 \<or> dk_nodes e2 = (dk_nodes e1)(loc p := None)"
      using rm by (auto simp: remove_file_def disk_op_def set_node_def split: option.splits)
    ultimately show ?thesis using meta k p(3) True by (metis diff_le_eq add.commute le_diff_eq)
  qed
qed

text \<open>The invariant of the clean-up from the disk \<open>d\<close>: each node is what it was, or stale and gone.\<close>

definition cleaned :: "nanos \<Rightarrow> disk \<Rightarrow> disk \<Rightarrow> bool" where
  "cleaned at d e \<longleftrightarrow> (\<forall>k. dk_nodes e k = dk_nodes d k
    \<or> (dk_nodes e k = None \<and> (\<exists>p bs t. k = loc p \<and> extension p = Some ''tmp''
         \<and> dk_nodes d k = Some (RegularFile bs t) \<and> t + STAGED_PACK_STALE_AFTER \<le> at)))"

lemma cleaned_same: "cleaned at d e \<Longrightarrow> dk_nodes e' = dk_nodes e \<Longrightarrow> cleaned at d e'"
  by (simp add: cleaned_def)

lemma keeps_cleanup_entry: "keeps (cleaned at d) (cleanup_entry at n item)"
proof (rule keepsI)
  fix e r e' assume c: "cleaned at d e" and run: "cleanup_entry at n item e = (r, e')"
  from cleanup_entry_nodes [OF run] show "cleaned at d e'"
  proof
    assume "dk_nodes e' = dk_nodes e"
    with c show ?thesis by (rule cleaned_same)
  next
    assume "\<exists>p bs t. extension p = Some ''tmp'' \<and> dk_nodes e (loc p) = Some (RegularFile bs t)
         \<and> t + STAGED_PACK_STALE_AFTER \<le> at \<and> dk_nodes e' = (dk_nodes e)(loc p := None)"
    then obtain p bs t where p: "extension p = Some ''tmp''" "dk_nodes e (loc p) = Some (RegularFile bs t)"
      "t + STAGED_PACK_STALE_AFTER \<le> at" "dk_nodes e' = (dk_nodes e)(loc p := None)" by blast
    from c p(2) have "dk_nodes d (loc p) = Some (RegularFile bs t)"
      unfolding cleaned_def by (metis option.distinct(1))
    then show ?thesis using c p unfolding cleaned_def by (metis fun_upd_apply)
  qed
qed

text \<open>The clean-up of the cache at start removes nothing but stale temporary files: whatever happens on
  the way, every node of the disk is afterwards what it was, or it was a regular file with the
  extension \<^verbatim>\<open>tmp\<close>, last written an hour or more before the clean-up, and is gone. Finished packs are
  never touched.\<close>

theorem cleanup_removes_only_stale_temporaries:
  assumes "cleanup_stale_staged_packs read_dir root at d = (r, d')"
    and "\<forall>p d r d'. read_dir p d = (r, d') \<longrightarrow> dk_nodes d' = dk_nodes d"
  shows "dk_nodes d' k = dk_nodes d k
    \<or> (dk_nodes d' k = None \<and> (\<exists>p bs t. k = loc p \<and> extension p = Some ''tmp''
         \<and> dk_nodes d k = Some (RegularFile bs t) \<and> t + STAGED_PACK_STALE_AFTER \<le> at))"
proof -
  have "\<And>e r e'. cleaned at d e \<Longrightarrow> read_dir p e = (r, e') \<Longrightarrow> cleaned at d e'" for p
    using assms(2) by (blast intro: cleaned_same)
  then have listing: "keeps (cleaned at d) (read_dir p)" for p by (rule keepsI)
  have files: "keeps (cleaned at d) (cleanup_entries at items n)" for items n
    by (induction items arbitrary: n) (auto intro!: keeps_intros keeps_cleanup_entry)
  have dirs: "keeps (cleaned at d) (cleanup_directories read_dir at items n)" for items n
  proof (induction items arbitrary: n)
    case (Cons item items)
    then show ?case
      by (cases item) (auto simp: displayed_def intro!: keeps_intros keeps_if listing files)
  qed (simp add: keeps_ok)
  have "keeps (cleaned at d) (cleanup_stale_staged_packs read_dir root at)"
    unfolding cleanup_stale_staged_packs_def Let_def
  proof (intro keeps_bindE keeps_tryE listing)
    fix r :: "io_error + (io_error + path) list"
    let ?k = "case r of Inr entries \<Rightarrow> cleanup_directories read_dir at entries 0 | Inl (IoError NotFound _) \<Rightarrow> ok 0
      | Inl error \<Rightarrow> fail (AtPath ''Could not inspect Courier's pack cache'' (path_join root ''packs'') error)"
    show "keeps (cleaned at d) ?k"
    proof (cases r)
      case (Inl e)
      obtain kind m where "e = IoError kind m" by (cases e)
      then show ?thesis using Inl by (cases kind) (simp_all add: keeps_ok keeps_fail)
    qed (simp add: dirs)
  qed
  from keepsD [OF this, of d r d'] assms(1) have "cleaned at d d'" by (simp add: cleaned_def)
  then show ?thesis by (simp add: cleaned_def)
qed

definition young_disk :: disk where
  "young_disk = \<lparr>dk_nodes = [[Normal ''packs''] \<mapsto> Directory, [Normal ''packs'', Normal ''t''] \<mapsto> Directory,
       [Normal ''packs'', Normal ''t'', Normal ''a.tmp''] \<mapsto> RegularFile [1] 5],
     dk_fault = (\<lambda>_. None), dk_tick = 0, dk_clock = (\<lambda>_. 0)\<rparr>"

definition young_listing :: dir_listing where
  "young_listing p = (if p = ''packs'' then ok [Inr ''packs/t''] else ok [Inr ''packs/t/a.tmp''])"

theorem cleanup_removes_only_stale_temporaries_witness:
  "\<exists>r d'. cleanup_stale_staged_packs young_listing '''' STAGED_PACK_STALE_AFTER young_disk = (r, d')
     \<and> dk_nodes d' [Normal ''packs'', Normal ''t'', Normal ''a.tmp''] = Some (RegularFile [1] 5)"
proof -
  obtain r d' where run: "cleanup_stale_staged_packs young_listing '''' STAGED_PACK_STALE_AFTER young_disk = (r, d')" by force
  have "\<forall>p d r d'. young_listing p d = (r, d') \<longrightarrow> dk_nodes d' = dk_nodes d"
    by (simp add: young_listing_def ok_def)
  from cleanup_removes_only_stale_temporaries [OF run this, of "[Normal ''packs'', Normal ''t'', Normal ''a.tmp'']"] run
  show ?thesis by (auto simp: young_disk_def)
qed

end
