(* ===== verification/DesktopRestore.thy ===== *)
theory DesktopRestore
  imports Retrieve
begin

text \<open>
  The desktop application's retrieval of a dataset, the second half of
  \<^verbatim>\<open>apps/courier-desktop/src-tauri/src/lib.rs\<close> up to the upload observer: unlike the command line it
  keeps its partial directory, so that a paused or interrupted retrieval resumes; its cache lies
  inside the partial directory.

  The environment is that of the retrieve command; \<open>pretty\<close> is serde_json's pretty printer and
  \<open>pause\<close> the load of the pause flag. Errors are those of the retrieve command before they are
  formatted. Progress events and diagnostics are not modelled.
\<close>

section \<open>Paths and names\<close>

definition safe_relative_path :: "path \<Rightarrow> string \<Rightarrow> path option" where
  "safe_relative_path root v =
     (if v = [] \<or> CHR 0x5C \<in> set v then None
      else if \<not> list_all is_normal (components v) then None
      else Some (path_join root v))"

definition relative_path :: "path \<Rightarrow> string \<Rightarrow> ('s, RetrieveError, path) comp" where
  "relative_path root v =
     (case safe_relative_path root v of
        None \<Rightarrow> fail (Message (''Manifest contains an unsafe path: '' @ v)) | Some p \<Rightarrow> ok p)"

definition safe_dataset_name :: "string \<Rightarrow> string \<Rightarrow> string" where
  "safe_dataset_name source_name transfer_id =
     (case path_file_name source_name of
        Some name \<Rightarrow> if length (components source_name) = 1 \<and> name \<noteq> '''' then name else transfer_id
      | None \<Rightarrow> transfer_id)"

fun validate_files :: "'h retrieve_env \<Rightarrow> ManifestFile list \<Rightarrow> string list \<Rightarrow> ('s, RetrieveError, unit) comp" where
  "validate_files env [] paths = ok ()"
| "validate_files env (file # files) paths =
     thenE (relative_path ''.'' (mf_path file))
     (thenE (ensure (rx_lowercase env (mf_path file) \<notin> set paths)
               (''Manifest contains a duplicate or case-colliding path: '' @ mf_path file))
        (validate_files env files (rx_lowercase env (mf_path file) # paths)))"

definition validate_download_manifest :: "'h retrieve_env \<Rightarrow> ManifestFile list \<Rightarrow> ('s, RetrieveError, unit) comp" where
  "validate_download_manifest env files = validate_files env files []"

section \<open>Restoring one object\<close>

definition verify_restored_file :: "'h retrieve_env \<Rightarrow> path \<Rightarrow> ManifestFile \<Rightarrow> unit local_run" where
  "verify_restored_file env p file =
     bindE (map_errE IoFailed (metadata_len p)) (\<lambda>len.
     thenE (ensure (len = mf_size file) (''Restored size mismatch for '' @ mf_path file))
     (bindE (local_digest env p (dg_algorithm (mf_digest file))) (\<lambda>actual.
      thenE (ensure (actual = dg_value (mf_digest file)) (''Restored digest mismatch for '' @ mf_path file))
        (map_errE IoFailed (set_file_mtime p (rx_nanos env (mf_mtime file)))))))"

definition restored_file_matches :: "'h retrieve_env \<Rightarrow> path \<Rightarrow> ManifestFile \<Rightarrow> bool local_run" where
  "restored_file_matches env root file =
     (case safe_relative_path root (mf_path file) of
        None \<Rightarrow> ok False
      | Some p \<Rightarrow>
          bindE (gets (\<lambda>d. file_bytes d p \<noteq> None)) (\<lambda>is_file.
          if \<not> is_file then ok False
          else bindE (tryE (verify_restored_file env p file)) (\<lambda>r.
            ok (case r of Inl (_ :: RetrieveError) \<Rightarrow> False | Inr _ \<Rightarrow> True))))"

fun all_match :: "'h retrieve_env \<Rightarrow> path \<Rightarrow> ManifestFile list \<Rightarrow> bool local_run" where
  "all_match env root [] = ok True"
| "all_match env root (file # files) =
     bindE (restored_file_matches env root file) (\<lambda>matches.
       if matches then all_match env root files else ok False)"

definition make_parent :: "path \<Rightarrow> unit io" where
  "make_parent p = (case path_parent p of None \<Rightarrow> ok () | Some parent \<Rightarrow> create_dir_all parent)"

definition restore_standalone :: "'h retrieve_env \<Rightarrow> path \<Rightarrow> path \<Rightarrow> uuid \<Rightarrow> ManifestFile list \<Rightarrow> unit local_run" where
  "restore_standalone env cache_path partial object_id expected_files =
     (let invalid = fail (Message (''Standalone object '' @ uuid_to_string object_id @ '' has invalid membership'')) in
      case expected_files of
        [file] \<Rightarrow>
          if tp_member_index (mf_transport file) \<noteq> 0 then invalid
          else bindE (relative_path partial (mf_path file)) (\<lambda>destination.
            thenE (map_errE IoFailed (make_parent destination))
            (thenE (map_errE IoFailed (copy_file cache_path destination))
               (verify_restored_file env destination file)))
      | _ \<Rightarrow> invalid)"

definition desktop_member ::
  "'h retrieve_env \<Rightarrow> path \<Rightarrow> ManifestFile list \<Rightarrow> nat \<Rightarrow> PackMemberHeader \<Rightarrow> stream
     \<Rightarrow> (disk, PackError, nat) comp" where
  "desktop_member env partial expected_files seen header content =
     (case nth_opt expected_files seen of
        None \<Rightarrow> fail (pack_invalid_data ''pack has extra members'')
      | Some file \<Rightarrow>
          if \<not> header_matches header file seen
          then fail (pack_invalid_data ''pack member does not match the immutable manifest'')
          else
            bindE (map_errE (\<lambda>e. pack_invalid_data (rx_text env e))
                     (relative_path partial (mf_path file))) (\<lambda>destination.
            thenE (map_errE PackIo (make_parent destination))
            (thenE (map_errE PackIo (open_output False destination))
            (bindE (copy_stream content destination) (\<lambda>copied.
             if of_nat copied \<noteq> mf_size file
             then fail (pack_invalid_data ''pack member size mismatch'')
             else thenE (map_errE (\<lambda>e. pack_invalid_data (rx_text env e))
                           (verify_restored_file env destination file))
                    (ok copied))))))"

definition desktop_member_step ::
  "'h retrieve_env \<Rightarrow> path \<Rightarrow> ManifestFile list \<Rightarrow> (disk \<times> nat) member_fn" where
  "desktop_member_step env partial expected_files c header content =
     (case desktop_member env partial expected_files (snd c) header content (fst c) of
        (Inl e, d') \<Rightarrow> (Inl e, (d', snd c))
      | (Inr n, d') \<Rightarrow> (Inr n, (d', Suc (snd c))))"

definition restore_packed :: "'h retrieve_env \<Rightarrow> path \<Rightarrow> path \<Rightarrow> uuid \<Rightarrow> ManifestFile list \<Rightarrow> unit local_run" where
  "restore_packed env cache_path partial object_id expected_files =
     bindE (map_errE IoFailed (read_file cache_path)) (\<lambda>source.
     bindE (\<lambda>d. case decode_pack (rx_zstd env) (rx_header env)
                     (desktop_member_step env partial expected_files) source (d, 0) of
              (Inl e, (d', _)) \<Rightarrow> (Inl (PackFailed e), d') | (Inr _, (d', seen)) \<Rightarrow> (Inr seen, d')) (\<lambda>seen.
       ensure (seen = length expected_files)
         (''Pack '' @ uuid_to_string object_id @ '' omitted manifest members'')))"

definition restore_kind ::
  "'h retrieve_env \<Rightarrow> string \<Rightarrow> path \<Rightarrow> path \<Rightarrow> uuid \<Rightarrow> ManifestFile list \<Rightarrow> unit local_run" where
  "restore_kind env object_kind cache_path partial object_id expected_files =
     (if object_kind = ''file'' then restore_standalone env cache_path partial object_id expected_files
      else if object_kind = ''pack'' then restore_packed env cache_path partial object_id expected_files
      else fail (Message (''Unsupported Courier transport object kind: '' @ object_kind)))"

section \<open>The objects of a plan\<close>

definition obtain_object ::
  "'h retrieve_env \<Rightarrow> 'w download_net \<Rightarrow> 'w RegistryClient \<Rightarrow> RegistryDownloadPlan \<Rightarrow> ('w \<Rightarrow> bool \<times> 'w)
     \<Rightarrow> path \<Rightarrow> RegistryDownloadObject \<Rightarrow> ('w, u64) retrieve_run" where
  "obtain_object env net client plan pause cache_path object =
     bindE (on_registry (authorize_download_object client (dd_transfer_id (dp_dataset plan))
              (do_object_id object))) (\<lambda>authorization.
     case do_url authorization of
       None \<Rightarrow> fail (Message ''Registry omitted the authorized object URL'')
     | Some url \<Rightarrow>
         bindE (map_errE RegistryFailed (download_object_resumable client net url cache_path
                  (do_transport_bytes object) pause (\<lambda>_ w. w))) (\<lambda>received.
         thenE (ensure (case do_transport_bytes object of None \<Rightarrow> True | Some expected \<Rightarrow> received = expected)
                  (''Downloaded object '' @ uuid_to_string (do_object_id object) @ '' has an unexpected size''))
           (ok received)))"

text \<open>The counters are \<^verbatim>\<open>restored\<close> and \<^verbatim>\<open>received_total\<close>.\<close>

fun restore_objects ::
  "'h retrieve_env \<Rightarrow> 'w download_net \<Rightarrow> 'w RegistryClient \<Rightarrow> RegistryDownloadPlan \<Rightarrow> ('w \<Rightarrow> bool \<times> 'w)
     \<Rightarrow> path \<Rightarrow> path \<Rightarrow> RegistryDownloadObject list \<Rightarrow> groups \<Rightarrow> u64 \<Rightarrow> u64
     \<Rightarrow> ('w, groups \<times> u64 \<times> u64) retrieve_run" where
  "restore_objects env net client plan pause partial cache [] by_object restored_files received_total =
     ok (by_object, restored_files, received_total)"
| "restore_objects env net client plan pause partial cache (object # objects) by_object restored_files received_total =
     bindE (map_errE RegistryFailed (pause_load pause)) (\<lambda>paused.
     if paused then fail (Message ''download paused'')
     else case map_of by_object (do_object_id object) of
       None \<Rightarrow> fail (Message (''Manifest does not reference object '' @ uuid_to_string (do_object_id object)))
     | Some expected_files \<Rightarrow>
         let rest = filter (\<lambda>(i, _). i \<noteq> do_object_id object) by_object;
             restored_now = saturating_add restored_files (of_nat (length expected_files));
             cache_path = path_join cache (uuid_to_string (do_object_id object)) in
         bindE (on_local (all_match env partial expected_files)) (\<lambda>matched.
         if matched then
           restore_objects env net client plan pause partial cache objects rest restored_now
             (saturating_add received_total (case do_transport_bytes object of None \<Rightarrow> 0 | Some n \<Rightarrow> n))
         else
           bindE (obtain_object env net client plan pause cache_path object) (\<lambda>received.
           thenE (on_local (restore_kind env (do_kind object) cache_path partial (do_object_id object) expected_files))
           (thenE (on_local (map_errE IoFailed (remove_file cache_path)))
              (restore_objects env net client plan pause partial cache objects rest restored_now
                 (saturating_add received_total received))))))"

definition write_file :: "path \<Rightarrow> bytes \<Rightarrow> unit io" where
  "write_file p bs = thenE (open_output False p) (write_all p bs)"

definition write_metadata :: "(json \<Rightarrow> string + bytes) \<Rightarrow> path \<Rightarrow> json \<Rightarrow> unit local_run" where
  "write_metadata pretty partial manifest =
     (let metadata = path_join partial ''courier-metadata'' in
      thenE (map_errE IoFailed (create_dir_all metadata))
      (bindE (map_errE Message (lift_res (pretty manifest))) (\<lambda>text.
         map_errE IoFailed (write_file (path_join metadata ''manifest.json'') text))))"

definition restore_download_plan ::
  "'h retrieve_env \<Rightarrow> (json \<Rightarrow> string + bytes) \<Rightarrow> 'w download_net \<Rightarrow> 'w RegistryClient
     \<Rightarrow> RegistryDownloadPlan \<Rightarrow> path \<Rightarrow> ('w \<Rightarrow> bool \<times> 'w) \<Rightarrow> ('w, u64 \<times> u64) retrieve_run" where
  "restore_download_plan env pretty net client plan partial pause =
     (case dec_manifest client (dp_manifest plan) of
        None \<Rightarrow> fail ManifestInvalid
      | Some files \<Rightarrow>
          thenE (validate_download_manifest env files)
          (thenE (ensure (of_nat (length files) = dd_file_count (dp_dataset plan))
                    ''Download manifest file count does not match the verified dataset'')
          (let cache = path_join partial ''.courier-transport'' in
           thenE (on_local (map_errE IoFailed (create_dir_all cache)))
           (let by_object = sort_members (fold push_file files []) in
            bindE (restore_objects env net client plan pause partial cache (dp_objects plan) by_object 0 0)
              (\<lambda>(left, restored_files, received_total).
               thenE (ensure (left = [] \<and> restored_files = of_nat (length files))
                        ''Download plan omitted one or more manifest files'')
               (thenE (on_local (map_errE IoFailed (remove_dir cache)))
               (thenE (on_local (write_metadata pretty partial (dp_manifest plan)))
                  (ok (restored_files, received_total)))))))))"

section \<open>The command\<close>

definition recovery_path :: "path \<Rightarrow> unit local_run" where
  "recovery_path partial =
     bindE (tryE (disk_op (\<lambda>d. case node_at d (loc partial) of
                    None \<Rightarrow> (Inl not_found, d) | Some n \<Rightarrow> (Inr (n = Directory), d)))) (\<lambda>r.
     case r of
       Inr True \<Rightarrow> ok ()
     | Inr False \<Rightarrow> fail (Message ''The existing Courier recovery path is not a directory'')
     | Inl (IoError NotFound _) \<Rightarrow> map_errE IoFailed (create_dir partial)
     | Inl error \<Rightarrow> fail (IoFailed error))"

record DownloadResult =
  dr_transfer_id :: string
  dr_destination :: path
  dr_restored_files :: u64
  dr_original_bytes :: u64
  dr_transport_bytes :: u64

definition partial_of :: "path \<Rightarrow> string \<Rightarrow> path" where
  "partial_of parent name = path_join parent (''.'' @ name @ ''.courier-partial'')"

text \<open>\<open>session\<close> stands for \<^verbatim>\<open>active_registry_session\<close> of the configured Registry.\<close>

definition download_dataset_inner ::
  "'h retrieve_env \<Rightarrow> (json \<Rightarrow> string + bytes) \<Rightarrow> 'w download_net
     \<Rightarrow> ('w client_state, RetrieveError, 'w RegistryClient) comp \<Rightarrow> string \<Rightarrow> path \<Rightarrow> ('w \<Rightarrow> bool \<times> 'w) \<Rightarrow> ('w, DownloadResult) retrieve_run" where
  "download_dataset_inner env pretty net session transfer_id parent pause =
     bindE (with_client session) (\<lambda>client.
     bindE (on_registry (download_plan client transfer_id)) (\<lambda>plan.
     bindE (on_local (gets (path_is_dir parent))) (\<lambda>is_dir.
     thenE (ensure is_dir ''Choose an existing destination folder'')
     (let name = safe_dataset_name (dd_source_name (dp_dataset plan)) (dd_transfer_id (dp_dataset plan));
          destination = path_join parent name; partial = partial_of parent name in
      bindE (on_local (gets (path_exists destination))) (\<lambda>exists.
      thenE (ensure (\<not> exists) (''A file or folder named '' @ name @ '' already exists at the destination''))
      (thenE (on_local (recovery_path partial))
      (bindE (restore_download_plan env pretty net client plan partial pause) (\<lambda>(restored_files, transport_bytes).
       thenE (on_local (map_errE IoFailed (rename partial destination)))
         (ok \<lparr>dr_transfer_id = dd_transfer_id (dp_dataset plan), dr_destination = destination,
              dr_restored_files = restored_files, dr_original_bytes = dd_original_bytes (dp_dataset plan),
              dr_transport_bytes = transport_bytes\<rparr>)))))))))"

end
