(* ===== verification/DesktopRestoreBehaviour.thy ===== *)
theory DesktopRestoreBehaviour
  imports DesktopRestore RetrieveBehaviour
begin

text \<open>
  The desktop's retrieval on the disk: where a manifest path leads, what an object may change and
  what its success leaves, the whole plan, and the move to the destination.
\<close>

section \<open>Places\<close>

definition spot :: "location \<Rightarrow> ManifestFile \<Rightarrow> location" where
  "spot r file = r @ components (mf_path file)"

definition intact :: "'h retrieve_env \<Rightarrow> location \<Rightarrow> disk \<Rightarrow> ManifestFile \<Rightarrow> bool" where
  "intact env r d file \<longleftrightarrow>
     (\<exists>bs t. dk_nodes d (spot r file) = Some (RegularFile bs t) \<and> of_nat (length bs) = mf_size file
        \<and> digest_of (rx_hash env) (dg_algorithm (mf_digest file)) bs = dg_value (mf_digest file))"

lemma components_ne: "v \<noteq> [] \<Longrightarrow> components v \<noteq> []"
proof (rule ccontr)
  assume v: "v \<noteq> []" and "\<not> components v \<noteq> []"
  then have none: "\<not> is_absolute v" "hd (split_on (CHR ''/'') v) \<noteq> ''.''"
    and "\<forall>w \<in> set (split_on (CHR ''/'') v). body_component w = []"
    by (auto simp: components_def Let_def simp del: body_component.simps split: if_splits)
  moreover have "body_component w = [] \<Longrightarrow> w = '''' \<or> w = ''.''" for w by (auto split: if_splits)
  ultimately have parts: "\<forall>w \<in> set (split_on (CHR ''/'') v). w = '''' \<or> w = ''.''" by blast
  obtain w ws where ws: "split_on (CHR ''/'') v = w # ws" by (cases "split_on (CHR ''/'') v") auto
  then have "w = ''''" using none(2) parts by auto
  moreover have "v = join_with ''/'' (w # ws)" using ws join_split [of "CHR ''/''" v] by simp
  ultimately show False using v none(1) by (cases ws) (auto simp: is_absolute_def)
qed

lemma relative_place:
  assumes "safe_relative_path root v = Some p"
  shows "loc p = loc root @ components v" and "components v \<noteq> []" and "list_all is_normal (components v)"
    and "path_parent p = Some q \<Longrightarrow> \<exists>l. loc q = loc root @ l"
proof -
  have v: "v \<noteq> []" "p = path_join root v" and n: "list_all is_normal (components v)"
    using assms by (auto simp: safe_relative_path_def split: if_splits)
  show "list_all is_normal (components v)" by (rule n)
  show ne: "components v \<noteq> []" by (rule components_ne [OF v(1)])
  have "\<not> is_absolute v" "hd (split_on (CHR ''/'') v) \<noteq> ''.''"
    using n by (auto simp: components_def Let_def split: if_splits)
  then have comps: "components p = components root @ components v"
    unfolding v(2) by (rule components_path_join)
  have id: "filter (\<lambda>c. c \<noteq> CurDir) cs = cs" if "list_all is_normal cs" for cs
    using that by (induction cs) auto
  show "loc p = loc root @ components v" by (simp add: loc_def comps id [OF n])
  show "\<exists>l. loc q = loc root @ l" if "path_parent p = Some q"
    using path_parent_Some [OF that] ne by (simp add: loc_def comps butlast_append)
qed

lemma relative_below: "safe_relative_path root v = Some p \<Longrightarrow> loc p \<in> below (loc root)"
  using relative_place(1,2) in_below by metis

lemma spot_path: "safe_relative_path root (mf_path f) = Some p \<Longrightarrow> loc p = spot (loc root) f"
  using relative_place(1) by (simp add: spot_def)

lemma intact_stays: "intact env r d f \<Longrightarrow> stays S W d d' \<Longrightarrow> spot r f \<notin> W \<Longrightarrow> intact env r d' f"
  unfolding intact_def stays_def by blast

lemma verify_same:
  "verify_restored_file env p file d = (Inr (), d') \<longleftrightarrow> verify env p file d = (Inr (), d')"
  by (auto simp: verify_restored_file_def verify_def ensure_def comp_simps)

lemma verified_intact:
  assumes "streaming (rx_hash env)" and "safe_relative_path root (mf_path file) = Some p"
    and "verify_restored_file env p file d = (Inr (), d')"
  shows "intact env (loc root) d' file"
  using verify_bytes [OF assms(1)] assms(3) spot_path [OF assms(2)]
  unfolding verify_same intact_def by (metis file_bytes_Some)

lemma keeps_verify_restored [keeps_intros]:
  "loc p \<in> S \<Longrightarrow> loc p \<in> W \<Longrightarrow> keeps (stays S W d0) (verify_restored_file env p file)"
  unfolding verify_restored_file_def ensure_def by (intro keeps_intros)

lemma keeps_relative_path:
  "(\<And>p. safe_relative_path root v = Some p \<Longrightarrow> keeps I (k p)) \<Longrightarrow> keeps I (bindE (relative_path root v) k)"
  "(\<And>p. safe_relative_path root v = Some p \<Longrightarrow> keeps I (k' p)) \<Longrightarrow> keeps I (bindE (map_errE g (relative_path root v)) k')"
  unfolding relative_path_def keeps_def
  by (auto simp: bindE_def map_errE_def ok_def fail_def split: option.splits)

section \<open>Files already there\<close>

lemma keeps_matches:
  assumes "below (loc root) \<subseteq> S" and "spot (loc root) file \<in> W"
  shows "keeps (stays S W d0) (restored_file_matches env root file)"
proof -
  have "loc p \<in> S \<and> loc p \<in> W" if "safe_relative_path root (mf_path file) = Some p" for p
    using relative_below [OF that] spot_path [OF that] assms by auto
  then show ?thesis unfolding restored_file_matches_def
    by (intro keeps_intros) auto
qed

lemma matches_intact:
  "streaming (rx_hash env) \<Longrightarrow> restored_file_matches env root file d = (Inr True, d') \<Longrightarrow> intact env (loc root) d' file"
  by (auto simp: restored_file_matches_def bindE_def ok_def gets_def tryE_def intro: verified_intact
      split: option.splits if_splits sum.splits prod.splits)

lemma all_match_done:
  assumes "streaming (rx_hash env)" and "below (loc root) \<subseteq> S"
    and "distinct (map (spot (loc root)) files)" and "all_match env root files d = (r, d')"
  shows "stays S (spot (loc root) ` set files) d d'
     \<and> (r = Inr True \<longrightarrow> (\<forall>f \<in> set files. intact env (loc root) d' f))"
  using assms(3,4)
proof (induction files arbitrary: d)
  case (Cons f fs)
  let ?r = "loc root"
  obtain r1 d1 where one: "restored_file_matches env root f d = (r1, d1)" by force
  have f1: "stays S {spot ?r f} d d1"
    by (rule keepsD [OF keeps_matches [OF assms(2)] stays_refl one]) simp
  have g1: "stays S (spot ?r ` set (f # fs)) d d1" by (rule stays_mono [OF f1]) auto
  show ?case
  proof (cases "r1 = Inr True")
    case True
    then have rest: "all_match env root fs d1 = (r, d')"
      using Cons.prems(2) one by (simp add: bindE_def)
    have "distinct (map (spot ?r) fs)" using Cons.prems(1) by simp
    note IH = Cons.IH [OF this rest]
    have "stays S (spot ?r ` set (f # fs)) d d'"
      by (rule stays_trans [OF g1 stays_mono [OF conjunct1 [OF IH]]]) auto
    moreover have "intact env ?r d' f"
      using intact_stays [OF matches_intact [OF assms(1) one [unfolded True]] conjunct1 [OF IH]] Cons.prems(1)
      by auto
    ultimately show ?thesis using IH by auto
  next
    case False
    then have "d' = d1 \<and> r \<noteq> Inr True"
      using Cons.prems(2) one by (auto simp: bindE_def ok_def split: sum.splits if_splits)
    then show ?thesis using g1 by simp
  qed
qed (simp add: ok_def)

section \<open>Restoring one object\<close>

lemma keeps_make_parent:
  assumes "rooted (loc root) d0" and "below (loc root) \<subseteq> S" and "safe_relative_path root v = Some p"
  shows "keeps (stays S W d0) (make_parent p)"
proof -
  have "keeps (stays S W d0) (create_dir_all q)" if q: "path_parent p = Some q" for q
  proof -
    obtain l where "loc q = loc root @ l" using relative_place(4) [OF assms(3) q] by blast
    from keeps_create_dir_all [OF assms(1) this assms(2)] show ?thesis .
  qed
  then show ?thesis unfolding make_parent_def by (auto intro!: keeps_intros split: option.split)
qed

lemma restore_standalone_done:
  assumes hash: "streaming (rx_hash env)" and work: "workspace root S" "rooted (loc root) d"
    and run: "restore_standalone env cache root i expected d = (r, d')"
  shows "stays S (spot (loc root) ` set expected) d d'
     \<and> (r = Inr () \<longrightarrow> (\<forall>f \<in> set expected. intact env (loc root) d' f))"
proof (cases "\<exists>f. expected = [f] \<and> tp_member_index (mf_transport f) = 0")
  case True
  then obtain f where e: "expected = [f]" and "tp_member_index (mf_transport f) = 0" by blast
  then have run: "bindE (relative_path root (mf_path f)) (\<lambda>p.
      thenE (map_errE IoFailed (make_parent p))
      (thenE (map_errE IoFailed (copy_file cache p)) (verify_restored_file env p f))) d = (r, d')"
    using assms(4) by (simp add: restore_standalone_def Let_def)
  have "keeps (stays S {spot (loc root) f} d) (bindE (relative_path root (mf_path f)) (\<lambda>p.
      thenE (map_errE IoFailed (make_parent p))
      (thenE (map_errE IoFailed (copy_file cache p)) (verify_restored_file env p f))))"
    (is "keeps ?I _")
  proof (rule keeps_relative_path)
    fix p assume p: "safe_relative_path root (mf_path f) = Some p"
    have "loc p \<in> S" "loc p \<in> {spot (loc root) f}"
      using relative_below [OF p] spot_path [OF p] work(1) by (auto simp: workspace_def)
    moreover have "keeps ?I (make_parent p)"
      using keeps_make_parent [OF work(2) _ p] work(1) by (simp add: workspace_def)
    ultimately show "keeps ?I (thenE (map_errE IoFailed (make_parent p))
      (thenE (map_errE IoFailed (copy_file cache p)) (verify_restored_file env p f)))"
      by (intro keeps_intros)
  qed
  from keepsD [OF this stays_refl run] have "stays S {spot (loc root) f} d d'" .
  moreover have "intact env (loc root) d' f" if "r = Inr ()"
    using run verified_intact [OF hash] unfolding that
    by (auto simp: comp_simps relative_path_def split: option.splits)
  ultimately show ?thesis by (simp add: e)
next
  case False
  then have "d' = d \<and> r \<noteq> Inr ()"
    using run by (auto simp: restore_standalone_def fail_def Let_def split: list.splits if_splits)
  then show ?thesis by simp
qed

lemma desktop_member_done:
  assumes hash: "streaming (rx_hash env)" and work: "workspace root S" "rooted (loc root) d"
    and run: "desktop_member env root expected seen header content d = (r, d')"
  shows "if seen < length expected
     then stays S {spot (loc root) (expected ! seen)} d d'
       \<and> ((\<exists>k. r = Inr k) \<longrightarrow> intact env (loc root) d' (expected ! seen))
     else stays S {} d d' \<and> \<not> (\<exists>k. r = Inr k)"
proof (cases "seen < length expected")
  case True
  let ?f = "expected ! seen"
  have nth: "nth_opt expected seen = Some ?f" using True by (simp add: nth_opt_def)
  let ?I = "stays S {spot (loc root) ?f} d"
  have "loc p \<in> S" and "loc p \<in> {spot (loc root) ?f}" and "keeps ?I (make_parent p)"
    if p: "safe_relative_path root (mf_path ?f) = Some p" for p
    using relative_below [OF p] spot_path [OF p] keeps_make_parent [OF work(2) _ p] work(1)
    by (auto simp: workspace_def)
  note place = this
  have "keeps ?I (desktop_member env root expected seen header content)"
    unfolding desktop_member_def nth option.case
    by (split if_split, intro conjI impI keeps_fail, rule keeps_relative_path(2), intro keeps_intros place)
  from keepsD [OF this stays_refl run] have "?I d'" .
  moreover have "intact env (loc root) d' ?f" if "r = Inr k" for k
    using run verified_intact [OF hash] unfolding that
    by (auto simp: desktop_member_def nth comp_simps relative_path_def split: option.splits if_splits)
  ultimately show ?thesis using True by auto
next
  case False
  then show ?thesis using run by (auto simp: desktop_member_def nth_opt_def fail_def)
qed

lemma restore_packed_done:
  assumes hash: "streaming (rx_hash env)" and work: "workspace root S" "rooted (loc root) d"
    and spots: "distinct (map (spot (loc root)) expected)"
    and run: "restore_packed env cache root i expected d = (r, d')"
  shows "stays S (spot (loc root) ` set expected) d d'
     \<and> (r = Inr () \<longrightarrow> (\<forall>f \<in> set expected. intact env (loc root) d' f))"
proof -
  let ?W = "spot (loc root) ` set expected" and ?step = "desktop_member_step env root expected"
  obtain source d1 where src: "read_file cache d = (source, d1)" by force
  have d1: "stays S ?W d d1" using keepsD [OF keeps_looks(2) stays_refl src] .
  show ?thesis
  proof (cases source)
    case (Inr bytes)
    obtain r1 d2 seen where decode:
      "decode_pack (rx_zstd env) (rx_header env) ?step bytes (d1, 0) = (r1, (d2, seen))"
      by (metis prod.exhaust)
    have "stays S (\<Union>f \<in> set expected. {spot (loc root) f}) d1 d2
       \<and> ((\<exists>k. r1 = Inr k) \<longrightarrow> seen \<le> length expected \<and> (\<forall>f \<in> set (take seen expected). intact env (loc root) d2 f))"
    proof (rule members_rule [where R = "rooted (loc root)" and mem = "desktop_member env root expected", OF _ _ _ _ _ _ decode])
      show "rooted (loc root) d1" by (rule workspace_rooted [OF work d1])
      show "rooted (loc root) y" if "rooted (loc root) x" "stays S W x y" for x y W
        by (rule workspace_rooted [OF work(1) that])
      show "{spot (loc root) (expected ! i)} \<inter> {spot (loc root) (expected ! j)} = {}" if "i < j" "j < length expected" for i j
        using that spots by (simp add: distinct_conv_nth)
      show "intact env (loc root) y f" if "intact env (loc root) x f" "stays S W x y" "{spot (loc root) f} \<inter> W = {}" for x y f W
        using intact_stays [OF that(1,2)] that(3) by simp
    qed (rule desktop_member_done [OF hash work(1)], assumption+, simp add: desktop_member_step_def)
    then have "stays S ?W d d2"
      "(\<exists>k. r1 = Inr k) \<longrightarrow> seen \<le> length expected \<and> (\<forall>f \<in> set (take seen expected). intact env (loc root) d2 f)"
      using stays_trans [OF d1] by (simp_all add: UNION_singleton_eq_range)
    then show ?thesis using run src Inr decode
      by (auto simp: restore_packed_def bindE_def map_errE_def ensure_def ok_def fail_def split: sum.splits if_splits)
  qed (use run src d1 in \<open>auto simp: restore_packed_def bindE_def map_errE_def\<close>)
qed

lemma restore_kind_done:
  assumes "streaming (rx_hash env)" "workspace root S" "rooted (loc root) d"
    "distinct (map (spot (loc root)) expected)" and "restore_kind env kind cache root i expected d = (r, d')"
  shows "stays S (spot (loc root) ` set expected) d d'
     \<and> (r = Inr () \<longrightarrow> (\<forall>f \<in> set expected. intact env (loc root) d' f))"
  using assms(5) restore_standalone_done [OF assms(1-3)] restore_packed_done [OF assms(1-4)]
  by (auto simp: restore_kind_def fail_def split: if_splits)

section \<open>The groups of the manifest\<close>

lemma push_file_mset: "mset (grouped (push_file f gs)) = add_mset f (mset (grouped gs))"
  by (induction f gs rule: push_file.induct) auto

lemma push_files:
  "distinct (map fst gs) \<Longrightarrow> distinct (map fst (fold push_file files gs))
     \<and> mset (grouped (fold push_file files gs)) = mset (grouped gs) + mset files"
  by (induction files arbitrary: gs) (auto simp: push_file_mset push_file_distinct)

lemma groups_apart:
  assumes "distinct (map fst gs)" and "map_of gs k = Some files"
  shows "mset (grouped gs) = mset (files @ grouped (filter (\<lambda>(i, _). i \<noteq> k) gs))"
    and "distinct (map fst (filter (\<lambda>(i, _). i \<noteq> k) gs))"
proof -
  from assms(2) obtain as bs where gs: "gs = as @ (k, files) # bs"
    by (meson map_of_SomeD split_list)
  have same: "k \<notin> fst ` set xs \<Longrightarrow> filter (\<lambda>(i, _). i \<noteq> k) xs = xs" for xs :: groups by (induction xs) auto
  have rest: "filter (\<lambda>(i, _). i \<noteq> k) gs = as @ bs"
    using assms(1) same [of as] same [of bs] by (auto simp: gs)
  show "mset (grouped gs) = mset (files @ grouped (filter (\<lambda>(i, _). i \<noteq> k) gs))"
    unfolding rest by (simp add: gs grouped_def)
  show "distinct (map fst (filter (\<lambda>(i, _). i \<noteq> k) gs))" unfolding rest using assms(1) by (auto simp: gs)
qed

lemma distinct_spots: "mset xs = mset ys \<Longrightarrow> distinct (map (spot r) xs) = distinct (map (spot r) ys)"
  by (rule mset_eq_imp_distinct_iff) simp

section \<open>The objects\<close>

definition object_trees :: "path \<Rightarrow> uuid \<Rightarrow> location set" where
  "object_trees cache i = tree (loc (path_join cache (uuid_to_string i)))
     \<union> tree (loc (with_extension (path_join cache (uuid_to_string i)) ''part''))"

lemma object_trees_below: "object_trees cache i \<subseteq> below (loc cache)"
  by (auto simp: object_trees_def cache_names in_tree in_below)

lemma keeps_obtain_object:
  assumes "object_trees cache i \<subseteq> S" and "object_trees cache i \<subseteq> W"
  shows "keeps (\<lambda>s. stays S W d0 (fst s))
    (obtain_object env net client plan pause (path_join cache (uuid_to_string i)) object)"
  unfolding obtain_object_def ensure_def
  by (intro keeps_intros keeps_download assms [unfolded object_trees_def])

lemma one_object_done:
  assumes hash: "streaming (rx_hash env)" and work: "workspace root S" "rooted (loc root) d"
    and cache: "below (loc cache) \<subseteq> S" and spots: "distinct (map (spot (loc root)) files)"
    and apart: "spot (loc root) ` set files \<inter> below (loc cache) = {}"
    and run: "bindE (obtain_object env net client plan pause (path_join cache (uuid_to_string i)) object) (\<lambda>received.
           thenE (on_local (restore_kind env kind (path_join cache (uuid_to_string i)) root i files))
           (thenE (on_local (map_errE IoFailed (remove_file (path_join cache (uuid_to_string i))))) (ok received)))
         (d, c) = (r, (d', c'))"
  shows "stays S (spot (loc root) ` set files \<union> below (loc cache)) d d'
     \<and> (\<forall>n. r = Inr n \<longrightarrow> (\<forall>f \<in> set files. intact env (loc root) d' f))"
proof -
  let ?p = "path_join cache (uuid_to_string i)" and ?C = "below (loc cache)"
  let ?W = "spot (loc root) ` set files \<union> ?C"
  obtain r1 d1 c1 where fetch: "obtain_object env net client plan pause ?p object (d, c) = (r1, (d1, c1))"
    by (metis prod.exhaust)
  have f1: "stays S ?C d d1" using keepsD [OF keeps_obtain_object [OF subset_trans [OF object_trees_below cache] object_trees_below] _ fetch] by simp
  obtain r2 d2 where restore: "restore_kind env kind ?p root i files d1 = (r2, d2)" by force
  from restore_kind_done [OF hash work(1) workspace_rooted [OF work f1] spots restore]
  have f2: "stays S (spot (loc root) ` set files) d1 d2"
    and whole: "r2 = Inr () \<longrightarrow> (\<forall>f \<in> set files. intact env (loc root) d2 f)" by auto
  obtain r3 d3 where remove: "map_errE IoFailed (remove_file ?p) d2 = (r3, d3)" by force
  have p: "loc ?p \<in> ?C" by (simp add: cache_names in_below)
  have f3: "stays S ?C d2 d3"
    by (rule keepsD [OF keeps_map_errE [OF keeps_file_ops(1)] stays_refl remove]) (use p cache in auto)
  have g1: "stays S ?W d d1" using stays_mono [OF f1, of S ?W] by blast
  have g2: "stays S ?W d d2" using stays_trans [OF g1] stays_mono [OF f2, of S ?W] by blast
  have g3: "stays S ?W d d3" using stays_trans [OF g2] stays_mono [OF f3, of S ?W] by blast
  have "intact env (loc root) d3 f" if "f \<in> set files" "r2 = Inr ()" for f
    using intact_stays [OF _ f3] whole apart that by blast
  moreover have "bindE (obtain_object env net client plan pause ?p object) (\<lambda>received.
           thenE (on_local (restore_kind env kind ?p root i files))
           (thenE (on_local (map_errE IoFailed (remove_file ?p))) (ok received))) (d, c)
      = (case r1 of Inl e \<Rightarrow> (Inl e, (d1, c1)) | Inr n \<Rightarrow> (case r2 of Inl e \<Rightarrow> (Inl e, (d2, c1))
        | Inr _ \<Rightarrow> (case r3 of Inl e \<Rightarrow> (Inl e, (d3, c1)) | Inr _ \<Rightarrow> (Inr n, (d3, c1)))))"
    using fetch restore remove
    by (cases r1; cases r2; cases r3) (simp_all add: thenE_def bindE_def on_local_def ok_def)
  note this [unfolded run]
  ultimately show ?thesis using g1 g2 g3 by (cases r) (auto split: sum.splits)
qed

lemma restore_objects_done:
  assumes hash: "streaming (rx_hash env)" and cache: "below (loc cache) \<subseteq> below (loc root)"
    and "rooted (loc root) d" and "distinct (map fst gs)"
    and "distinct (map (spot (loc root)) (grouped gs))"
    and "spot (loc root) ` set (grouped gs) \<inter> below (loc cache) = {}"
    and "restore_objects env net client plan pause root cache objects gs n m (d, c) = (r, (d', c'))"
  shows "stays (below (loc root)) (spot (loc root) ` set (grouped gs) \<union> below (loc cache)) d d'
     \<and> (\<forall>left k. r = Inr (left, k) \<longrightarrow> (\<forall>f \<in> set (grouped gs). f \<in> set (grouped left) \<or> intact env (loc root) d' f))"
  using assms(3-7)
proof (induction objects arbitrary: gs n m d c)
  case Nil
  then show ?case by (auto simp: ok_def)
next
  case (Cons object objects)
  let ?i = "do_object_id object" and ?S = "below (loc root)" and ?C = "below (loc cache)" and ?r = "loc root"
  let ?p = "path_join cache (uuid_to_string ?i)"
  have ws: "workspace root ?S" by (auto simp: workspace_def in_below dest: arg_cong [of _ _ length])
  obtain r0 d0 c0 where load: "map_errE RegistryFailed (pause_load pause) (d, c) = (r0, (d0, c0))"
    by (metis prod.exhaust)
  have d0: "stays ?S W d d0" for W
    using keepsD [OF keeps_map_errE [OF keeps_pause] _ load, of "stays ?S W d"] by simp
  show ?case
  proof (cases "r0 = Inr False \<and> map_of gs ?i \<noteq> None")
    case False
    then have "d' = d0 \<and> (\<forall>x. r \<noteq> Inr x)"
      using Cons.prems(5) load by (auto simp: bindE_def fail_def split: sum.splits option.splits if_splits)
    then show ?thesis using d0 by auto
  next
    case True
    then obtain files where files: "map_of gs ?i = Some files" by auto
    let ?gs = "filter (\<lambda>(i, _). i \<noteq> ?i) gs" and ?W = "spot ?r ` set (grouped gs) \<union> ?C"
    note split = groups_apart [OF Cons.prems(2) files]
    have sets: "set (grouped gs) = set files \<union> set (grouped ?gs)"
      using mset_eq_setD [OF split(1)] by simp
    have all: "distinct (map (spot ?r) (files @ grouped ?gs))"
      using Cons.prems(3) distinct_spots [OF split(1)] by simp
    have away: "spot ?r ` set files \<inter> ?C = {}" "spot ?r ` set (grouped ?gs) \<inter> ?C = {}"
      using Cons.prems(4) sets by auto
    have rooted0: "rooted ?r d0" by (rule workspace_rooted [OF ws Cons.prems(1) d0])
    obtain r1 d1 where match: "all_match env root files d0 = (r1, d1)" by force
    have m1: "stays ?S (spot ?r ` set files) d0 d1" "r1 = Inr True \<longrightarrow> (\<forall>f \<in> set files. intact env ?r d1 f)"
      using all_match_done [OF hash subset_refl _ match] all by auto
    have rooted1: "rooted ?r d1" by (rule workspace_rooted [OF ws rooted0 m1(1)])
    let ?fetch = "bindE (obtain_object env net client plan pause ?p object) (\<lambda>received.
           thenE (on_local (restore_kind env (do_kind object) ?p root ?i files))
           (thenE (on_local (map_errE IoFailed (remove_file ?p))) (ok received)))"
    obtain r2 d2 c2 where fetch: "?fetch (d1, c0) = (r2, (d2, c2))" by (metis prod.exhaust)
    have "distinct (map (spot ?r) files)" using all by simp
    from one_object_done [OF hash ws rooted1 cache this away(1) fetch]
    have f2: "stays ?S (spot ?r ` set files \<union> ?C) d1 d2"
      and whole: "\<forall>n. r2 = Inr n \<longrightarrow> (\<forall>f \<in> set files. intact env ?r d2 f)" by auto
    have g1: "stays ?S ?W d d1" using stays_trans [OF d0 stays_mono [OF m1(1), of ?S ?W]] sets by blast
    have g2: "stays ?S ?W d d2" using stays_trans [OF g1 stays_mono [OF f2, of ?S ?W]] sets by blast
    have rest: ?thesis
      if d3: "stays ?S ?W d d3" and got: "\<forall>f \<in> set files. intact env ?r d3 f"
        and run: "restore_objects env net client plan pause root cache objects ?gs n3 m3 (d3, c3) = (r, (d', c'))"
      for d3 n3 m3 c3
    proof -
      have "rooted ?r d3" by (rule workspace_rooted [OF ws Cons.prems(1) d3])
      from Cons.IH [OF this split(2) _ away(2) run] all
      have f4: "stays ?S (spot ?r ` set (grouped ?gs) \<union> ?C) d3 d'"
        and left: "\<forall>left k. r = Inr (left, k) \<longrightarrow> (\<forall>f \<in> set (grouped ?gs). f \<in> set (grouped left) \<or> intact env ?r d' f)"
        by auto
      have "intact env ?r d' f" if f: "f \<in> set files" for f
        by (rule intact_stays [OF bspec [OF got f] f4]) (use all away(1) f in auto)
      moreover have "stays ?S ?W d d'" using stays_trans [OF d3 stays_mono [OF f4, of ?S ?W]] sets by blast
      ultimately show ?thesis using left sets by auto
    qed
    show ?thesis
    proof (cases r1)
      case (Inl e)
      then have "d' = d1 \<and> r = Inl e"
        using Cons.prems(5) load True files match by (simp add: bindE_def on_local_def Let_def)
      then show ?thesis using g1 by simp
    next
      case (Inr matched)
      show ?thesis
      proof (cases matched)
        case True
        then show ?thesis
          using rest [OF g1] m1(2) Cons.prems(5) load \<open>r0 = Inr False \<and> _\<close> files match Inr
          by (simp add: bindE_def on_local_def Let_def)
      next
        case False
        have run: "(case r2 of Inl e \<Rightarrow> (Inl e, (d2, c2)) | Inr received \<Rightarrow>
            restore_objects env net client plan pause root cache objects ?gs
              (saturating_add n (of_nat (length files))) (saturating_add m received) (d2, c2)) = (r, (d', c'))"
          using Cons.prems(5) load \<open>r0 = Inr False \<and> _\<close> files match Inr False fetch
          by (auto simp: bindE_def thenE_def ok_def on_local_def Let_def split: sum.splits prod.splits)
        show ?thesis
        proof (cases r2)
          case (Inr received)
          then show ?thesis using rest [OF g2] whole run by simp
        qed (use run g2 in auto)
      qed
    qed
  qed
qed

section \<open>The whole plan\<close>

definition cache_of :: "path \<Rightarrow> path" where
  "cache_of partial = path_join partial ''.courier-transport''"

definition metadata_spot :: "location \<Rightarrow> location" where
  "metadata_spot r = r @ [Normal ''courier-metadata'', Normal ''manifest.json'']"

lemma loc_cache: "loc (cache_of partial) = loc partial @ [Normal ''.courier-transport'']"
  unfolding cache_of_def by (rule loc_join_name) (simp add: plain_name_def)

lemma loc_metadata:
  "loc (path_join partial ''courier-metadata'') = loc partial @ [Normal ''courier-metadata'']"
  "loc (path_join (path_join partial ''courier-metadata'') ''manifest.json'') = metadata_spot (loc partial)"
proof -
  show dir: "loc (path_join partial ''courier-metadata'') = loc partial @ [Normal ''courier-metadata'']"
    by (rule loc_join_name) (simp add: plain_name_def)
  have "loc (path_join (path_join partial ''courier-metadata'') ''manifest.json'')
      = loc (path_join partial ''courier-metadata'') @ [Normal ''manifest.json'']"
    by (rule loc_join_name) (simp add: plain_name_def)
  then show "loc (path_join (path_join partial ''courier-metadata'') ''manifest.json'') = metadata_spot (loc partial)"
    by (simp add: dir metadata_spot_def)
qed

lemma workspace_below: "workspace root (below (loc root))"
  by (auto simp: workspace_def in_below dest: arg_cong [of _ _ length])

lemma keeps_remove_dir [keeps_intros]: "loc p \<in> S \<Longrightarrow> keeps (stays S W d0) (remove_dir p)"
  unfolding remove_dir_def
  by (rule keeps_disk_op)
    (auto simp: stays_def set_node_def only_def node_at_def split: option.splits node.splits if_splits)

lemma keeps_write_file [keeps_intros]:
  "loc p \<in> S \<Longrightarrow> loc p \<in> W \<Longrightarrow> keeps (stays S W d0) (write_file p bs)"
  unfolding write_file_def by (intro keeps_intros)

lemma keeps_write_metadata:
  assumes "rooted (loc partial) d0" and "metadata_spot (loc partial) \<in> W"
  shows "keeps (stays (below (loc partial)) W d0) (write_metadata pretty partial manifest)"
proof -
  have "metadata_spot (loc partial) \<in> below (loc partial)" by (auto simp: metadata_spot_def in_below)
  then show ?thesis unfolding write_metadata_def Let_def
    using assms by (intro keeps_intros keeps_create_dir_all [OF assms(1) loc_metadata(1)])
      (simp_all add: loc_metadata)
qed

lemma keeps_on_local [keeps_intros]: "keeps I m \<Longrightarrow> keeps (\<lambda>s. I (fst s)) (on_local m)"
  by (auto simp: keeps_def on_local_def split: prod.splits)

text \<open>
  Whatever the manifest says, nothing outside the partial directory changes, and no regular file
  but the places of the manifest's files and the cache files of the plan's objects.
\<close>

lemma keeps_all_match_any:
  "spot (loc root) ` set files \<subseteq> W \<Longrightarrow> keeps (stays (below (loc root)) W d0) (all_match env root files)"
proof (induction files)
  case (Cons f files)
  have "keeps (stays (below (loc root)) W d0) (restored_file_matches env root f)"
    by (rule keeps_matches) (use Cons.prems in auto)
  then show ?case using Cons by (auto intro!: keeps_intros)
qed (auto intro: keeps_intros)

lemma keeps_restore_kind_any:
  assumes "rooted (loc root) d0" and "spot (loc root) ` set files \<subseteq> W"
  shows "keeps (stays (below (loc root)) W d0) (restore_kind env kind cache root i files)"
proof -
  let ?S = "below (loc root)"
  let ?I = "stays ?S W d0"
  have root: "rooted (loc root) d" if "?I d" for d by (rule workspace_rooted [OF workspace_below assms(1) that])
  have "keeps ?I (make_parent p)" "loc p \<in> ?S" if "safe_relative_path root v = Some p" for v p
    using keeps_make_parent [OF assms(1) subset_refl that] relative_below [OF that] by auto
  note place = this
  have spot: "loc p \<in> W" if "safe_relative_path root (mf_path f) = Some p" "f \<in> set files" for f p
    using spot_path [OF that(1)] that(2) assms(2) by auto
  have alone: "keeps ?I (restore_standalone env cache root i files)"
    by (cases files rule: remdups_adj.cases)
      (auto simp: restore_standalone_def Let_def intro!: keeps_intros keeps_relative_path(1) place spot)
  have "keeps ?I (desktop_member env root files seen header content)" for seen header content
  proof (cases "nth_opt files seen")
    case (Some f)
    then have "f \<in> set files" by (auto simp: nth_opt_def split: if_splits)
    then show ?thesis unfolding desktop_member_def Some option.case
      by (intro keeps_if keeps_fail keeps_relative_path(2) keeps_intros place spot)
  qed (simp add: desktop_member_def keeps_fail)
  note member = this
  have "keeps ?I (\<lambda>d. case decode_pack (rx_zstd env) (rx_header env) (desktop_member_step env root files) source (d, 0) of
              (Inl e, (d', _)) \<Rightarrow> (Inl (PackFailed e), d') | (Inr _, (d', seen)) \<Rightarrow> (Inr seen, d'))" for source
  proof (rule keepsI)
    fix d r d' assume d: "?I d" and run: "(case decode_pack (rx_zstd env) (rx_header env)
        (desktop_member_step env root files) source (d, 0) of
          (Inl e, (d', _)) \<Rightarrow> (Inl (PackFailed e), d') | (Inr _, (d', seen)) \<Rightarrow> (Inr seen, d')) = (r, d')"
    have "case desktop_member_step env root files c header content of (Inl e, c') \<Rightarrow> ?I (fst c') | (Inr n, c') \<Rightarrow> ?I (fst c')"
      if "?I (fst c)" for c header content
      using member [of "snd c" header content] that
      by (auto simp: keeps_def desktop_member_step_def split: prod.splits sum.splits)
    from decode_pack_rule [where Q = "\<lambda>c. ?I (fst c)" and E = "\<lambda>c. ?I (fst c)" and c = "(d, 0)"
        and zstd = "rx_zstd env" and member = "desktop_member_step env root files" and js = "rx_header env" and source = source, OF this] d run
    show "?I d'" by (auto split: prod.splits sum.splits)
  qed
  then have "keeps ?I (restore_packed env cache root i files)"
    unfolding restore_packed_def ensure_def by (intro keeps_intros)
  then show ?thesis using alone by (auto simp: restore_kind_def intro: keeps_intros)
qed

lemma rest_subset: "set (grouped (filter P gs)) \<subseteq> set (grouped gs)"
  by (auto simp: grouped_def)

lemma group_subset: "map_of gs k = Some files \<Longrightarrow> set files \<subseteq> set (grouped gs)"
  by (auto simp: grouped_def dest!: map_of_SomeD intro!: bexI [of _ "(k, files)"])

lemma keeps_restore_objects_any:
  assumes "rooted (loc root) d0" and "below (loc cache) \<subseteq> below (loc root)"
    and "spot (loc root) ` set (grouped gs) \<subseteq> W"
    and "\<And>object. object \<in> set objects \<Longrightarrow> object_trees cache (do_object_id object) \<subseteq> W"
  shows "keeps (\<lambda>s. stays (below (loc root)) W d0 (fst s))
    (restore_objects env net client plan pause root cache objects gs n m)"
  using assms(3,4)
proof (induction objects arbitrary: gs n m)
  case (Cons object objects)
  let ?p = "path_join cache (uuid_to_string (do_object_id object))"
  have own: "object_trees cache (do_object_id object) \<subseteq> below (loc root)" "object_trees cache (do_object_id object) \<subseteq> W"
    using object_trees_below assms(2) Cons.prems(2) by auto
  have p: "loc ?p \<in> below (loc root)" "loc ?p \<in> W" using own tree_self unfolding object_trees_def by blast+
  have IH: "keeps (\<lambda>s. stays (below (loc root)) W d0 (fst s))
      (restore_objects env net client plan pause root cache objects (filter P gs) n m)" for P n m
    by (rule Cons.IH [OF subset_trans [OF image_mono [OF rest_subset] Cons.prems(1)]])
      (use Cons.prems(2) in auto)
  have files: "spot (loc root) ` set files \<subseteq> W" if "map_of gs (do_object_id object) = Some files" for files
    using group_subset [OF that] Cons.prems(1) by blast
  show ?case unfolding restore_objects.simps Let_def
    by (intro keeps_intros keeps_on_local keeps_all_match_any keeps_restore_kind_any keeps_obtain_object IH files assms(1) own p)
qed (simp add: keeps_ok)

lemma keeps_validate [keeps_intros]: "keeps I (validate_download_manifest env files)"
proof -
  have "keeps I (validate_files env files paths)" for paths
    by (induction files arbitrary: paths) (auto simp: ensure_def relative_path_def intro!: keeps_intros split: option.split)
  then show ?thesis by (simp add: validate_download_manifest_def)
qed

lemma groups_of_manifest:
  "mset (grouped (sort_members (fold push_file files []))) = mset files"
  "distinct (map fst (sort_members (fold push_file files [])))"
  using push_files [of "[]" files] sort_members_grouped [of "fold push_file files []"]
  by (auto simp: sort_members_def comp_def case_prod_beta)

lemma keeps_restore_plan:
  assumes root: "rooted (loc partial) d0"
    and "\<And>files. dec_manifest client (dp_manifest plan) = Some files \<Longrightarrow> spot (loc partial) ` set files \<subseteq> W"
    and "\<And>object. object \<in> set (dp_objects plan) \<Longrightarrow> object_trees (cache_of partial) (do_object_id object) \<subseteq> W"
    and "metadata_spot (loc partial) \<in> W"
  shows "keeps (\<lambda>s. stays (below (loc partial)) W d0 (fst s))
    (restore_download_plan env pretty net client plan partial pause)"
proof -
  have cache: "below (loc (cache_of partial)) \<subseteq> below (loc partial)" "loc (cache_of partial) \<in> below (loc partial)"
    by (auto simp: loc_cache in_below)
  have spots: "spot (loc partial) ` set (grouped (sort_members (fold push_file files []))) \<subseteq> W"
    if "dec_manifest client (dp_manifest plan) = Some files" for files
    using assms(2) [OF that] mset_eq_setD [OF groups_of_manifest(1), of files] by simp
  show ?thesis
    unfolding restore_download_plan_def Let_def ensure_def cache_of_def
    by (intro keeps_intros keeps_pair keeps_on_local keeps_write_metadata keeps_restore_objects_any
        root assms(3,4) [unfolded cache_of_def] cache [unfolded cache_of_def] spots subset_refl
        keeps_create_dir_all [OF root loc_cache [unfolded cache_of_def]])
qed

text \<open>The manifests whose files do not get in each other's way, nor in the program's.\<close>

definition tidy :: "ManifestFile list \<Rightarrow> bool" where
  "tidy files \<longleftrightarrow> distinct (map (components \<circ> mf_path) files)
     \<and> (\<forall>f \<in> set files. hd (components (mf_path f)) \<noteq> Normal ''.courier-transport''
          \<and> components (mf_path f) \<noteq> [Normal ''courier-metadata'', Normal ''manifest.json''])"

lemma tidy_spots:
  assumes "tidy files"
  shows "distinct (map (spot (loc partial)) files)"
    and "f \<in> set files \<Longrightarrow> spot (loc partial) f \<notin> below (loc (cache_of partial))"
    and "f \<in> set files \<Longrightarrow> spot (loc partial) f \<noteq> metadata_spot (loc partial)"
proof -
  show "distinct (map (spot (loc partial)) files)"
    using assms by (auto simp: tidy_def distinct_map inj_on_def spot_def)
  show "spot (loc partial) f \<notin> below (loc (cache_of partial))" if "f \<in> set files"
    using that assms by (auto simp: tidy_def loc_cache in_below spot_def)
  show "spot (loc partial) f \<noteq> metadata_spot (loc partial)" if "f \<in> set files"
    using that assms by (auto simp: tidy_def metadata_spot_def spot_def)
qed

lemma validate_state: "validate_download_manifest env files s = (r, s') \<Longrightarrow> s' = s"
  using keepsD [OF keeps_validate [of "\<lambda>x. x = s"], of s] by blast

lemma local_Inr: "on_local m s = (Inr x, s') \<longleftrightarrow> m (fst s) = (Inr x, fst s') \<and> snd s' = snd s"
  by (cases s; cases s') (auto simp: on_local_def split: prod.splits)

lemma restore_download_plan_done:
  assumes hash: "streaming (rx_hash env)" and root: "rooted (loc partial) d"
    and run: "restore_download_plan env pretty net client plan partial pause (d, c) = (Inr (n, m), (d', c'))"
  shows "\<exists>files. dec_manifest client (dp_manifest plan) = Some files \<and> n = of_nat (length files)
     \<and> of_nat (length files) = dd_file_count (dp_dataset plan)
     \<and> (tidy files \<longrightarrow> (\<forall>f \<in> set files. intact env (loc partial) d' f))"
proof -
  let ?S = "below (loc partial)" and ?cache = "cache_of partial" and ?r = "loc partial"
  from run obtain files gs d1 d2 c2 d3 where
    files: "dec_manifest client (dp_manifest plan) = Some files" "of_nat (length files) = dd_file_count (dp_dataset plan)"
    and gs: "gs = sort_members (fold push_file files [])"
    and dirs: "create_dir_all ?cache d = (Inr (), d1)"
    and objects: "restore_objects env net client plan pause partial ?cache (dp_objects plan) gs 0 0 (d1, c)
        = (Inr ([], n, m), (d2, c2))" and n: "n = of_nat (length files)"
    and gone: "remove_dir ?cache d2 = (Inr (), d3)"
    and meta: "write_metadata pretty partial (dp_manifest plan) d3 = (Inr (), d')"
    by (auto simp: restore_download_plan_def cache_of_def Let_def comp_simps ensure_def local_Inr
        split: option.splits if_splits prod.splits dest!: validate_state)
  have below: "below (loc ?cache) \<subseteq> ?S" "loc ?cache \<in> ?S" by (auto simp: loc_cache in_below)
  have s1: "stays ?S {} d d1"
    by (rule keepsD [OF keeps_create_dir_all [OF root loc_cache subset_refl] stays_refl dirs])
  have root1: "rooted ?r d1" by (rule workspace_rooted [OF workspace_below root s1])
  have "intact env ?r d' f" if t: "tidy files" and f: "f \<in> set files" for f
  proof -
    have mset: "mset (grouped gs) = mset files" and keys: "distinct (map fst gs)"
      using groups_of_manifest [of files] by (simp_all add: gs)
    have sets: "set (grouped gs) = set files" using mset_eq_setD [OF mset] .
    have spots: "distinct (map (spot ?r) (grouped gs))"
      using tidy_spots(1) [OF t] distinct_spots [OF mset] by simp
    have "spot ?r ` set (grouped gs) \<inter> below (loc ?cache) = {}"
      using tidy_spots(2) [OF t] sets by blast
    from restore_objects_done [OF hash below(1) root1 keys spots this objects]
    have s2: "stays ?S UNIV d1 d2" and i2: "intact env ?r d2 f"
      using f sets stays_mono [of ?S _ d1 d2 ?S UNIV] by auto
    have s3: "stays ?S {} d2 d3" by (rule keepsD [OF keeps_remove_dir [OF below(2)] stays_refl gone])
    have "rooted ?r d3"
      by (rule workspace_rooted [OF workspace_below workspace_rooted [OF workspace_below root1 s2] s3])
    from keepsD [OF keeps_write_metadata [OF this] stays_refl meta]
    have s4: "stays ?S {metadata_spot ?r} d3 d'" by simp
    have "intact env ?r d3 f" by (rule intact_stays [OF i2 s3]) simp
    then show ?thesis by (rule intact_stays [OF _ s4]) (use tidy_spots(3) [OF t f] in simp)
  qed
  then show ?thesis using files n by blast
qed

section \<open>The command\<close>

definition served_plan ::
  "('w client_state, RetrieveError, 'w RegistryClient) comp \<Rightarrow> string \<Rightarrow> 'w client_state \<Rightarrow> 'w RegistryClient
     \<Rightarrow> RegistryDownloadPlan \<Rightarrow> bool" where
  "served_plan session transfer_id c client plan \<longleftrightarrow>
     (\<exists>c1 c2. session c = (Inr client, c1) \<and> download_plan client transfer_id c1 = (Inr plan, c2))"

abbreviation dataset_name :: "RegistryDownloadPlan \<Rightarrow> string" where
  "dataset_name plan \<equiv> safe_dataset_name (dd_source_name (dp_dataset plan)) (dd_transfer_id (dp_dataset plan))"

lemma loc_partial: "plain_name name \<Longrightarrow> loc (partial_of parent name) = loc parent @ [Normal (''.'' @ name @ ''.courier-partial'')]"
  unfolding partial_of_def by (rule loc_join_name) (auto simp: plain_name_def)

lemma rooted_dir: "tree_ok d \<Longrightarrow> node_at d k = Some Directory \<Longrightarrow> rooted k d"
  unfolding rooted_def
proof (intro allI impI)
  fix n assume "tree_ok d" "node_at d k = Some Directory" "n \<le> length k"
  then show "node_at d (take n k) = Some Directory" by (cases "n = length k") (auto simp: tree_ok_def)
qed

lemma recovery_path_run:
  assumes "tree_ok d" and "recovery_path p d = (r, d')"
  shows "only {loc p} d d' \<and> (r = Inr () \<longrightarrow> rooted (loc p) d')"
proof -
  let ?look = "\<lambda>d. case node_at d (loc p) of None \<Rightarrow> (Inl not_found, d) | Some n \<Rightarrow> (Inr (n = Directory), d)"
  obtain x d1 where look: "disk_op ?look d = (x, d1)" by force
  have d1: "dk_nodes d1 = dk_nodes d" "\<And>k. node_at d1 k = node_at d k"
    and dir: "x = Inr True \<Longrightarrow> node_at d (loc p) = Some Directory"
    using look by (auto simp: disk_op_def not_found_def split: option.splits)
  have run: "(case x of Inr True \<Rightarrow> ok () | Inr False \<Rightarrow> fail (Message ''The existing Courier recovery path is not a directory'')
     | Inl (IoError NotFound _) \<Rightarrow> map_errE IoFailed (create_dir p) | Inl error \<Rightarrow> fail (IoFailed error)) d1 = (r, d')"
    using assms(2) look by (simp add: recovery_path_def bindE_def tryE_def)
  have tree: "tree_ok d1" using assms(1) d1(2) by (simp add: tree_ok_def)
  consider "x = Inr True" | "x = Inr False" | m where "x = Inl (IoError NotFound m)"
    | k m where "x = Inl (IoError k m)" "k \<noteq> NotFound"
    by (metis io_error.exhaust sum.exhaust)
  then show ?thesis
  proof cases
    case 1
    then have "d' = d1" using run by (simp add: ok_def)
    then show ?thesis using 1 d1 dir rooted_dir [OF tree] by (simp add: only_def)
  next
    case 3
    then obtain r1 where made: "create_dir p d1 = (r1, d')" "r = map_sum IoFailed id r1"
      using run by (auto simp: map_errE_def split: prod.splits sum.splits)
    note here = create_dir_run [OF made(1)]
    have "rooted (loc p) d'" if "r = Inr ()"
      using here that made(2) rooted_new [OF tree] by (cases r1) auto
    then show ?thesis using here d1 by (simp add: only_def)
  next
    case 4
    then have "d' = d1 \<and> r \<noteq> Inr ()" using run by (cases k) (auto simp: fail_def)
    then show ?thesis using d1 by (simp add: only_def)
  qed (use run d1 in \<open>auto simp: fail_def only_def\<close>)
qed

lemma intact_moved:
  "intact env src d f \<Longrightarrow> dk_nodes d' = dk_nodes (move_tree src dst d) \<Longrightarrow> intact env dst d' f"
  by (auto simp: intact_def spot_def move_tree_def)

text \<open>After the plan is served: the checks, the partial directory, the plan and the move.\<close>

lemma download_inner_tail:
  assumes hash: "streaming (rx_hash env)" and tree: "tree_ok d"
    and run: "bindE (on_local (gets (path_is_dir parent))) (\<lambda>is_dir.
     thenE (ensure is_dir ''Choose an existing destination folder'')
     (bindE (on_local (gets (path_exists destination))) (\<lambda>exists.
      thenE (ensure (\<not> exists) text)
      (thenE (on_local (recovery_path partial))
      (bindE (restore_download_plan env pretty net client plan partial pause) (\<lambda>(restored_files, transport_bytes).
       thenE (on_local (map_errE IoFailed (rename partial destination)))
         (ok (result restored_files transport_bytes)))))))) (d, c) = (r, (d', c'))"
  shows "case r of
      Inl e \<Rightarrow> dk_nodes d' = dk_nodes d
        \<or> node_at d (loc destination) = None \<and> only (tree (loc partial)) d d'
    | Inr v \<Rightarrow> node_at d (loc destination) = None \<and> only (tree (loc partial) \<union> tree (loc destination)) d d'
        \<and> (\<exists>files m. dec_manifest client (dp_manifest plan) = Some files \<and> v = result (of_nat (length files)) m
             \<and> (tidy files \<and> loc partial \<noteq> loc destination \<longrightarrow> (\<forall>f \<in> set files. intact env (loc destination) d' f)))"
proof (cases "path_is_dir parent d \<and> node_at d (loc destination) = None")
  case False
  then have "d' = d \<and> (\<forall>v. r \<noteq> Inr v)"
    using run by (auto simp: bindE_def thenE_def on_local_def gets_def ensure_def ok_def fail_def path_exists_def
        split: if_splits sum.splits)
  then show ?thesis by (cases r) auto
next
  case True
  let ?T = "tree (loc partial)"
  obtain r1 d1 where recover: "recovery_path partial d = (r1, d1)" by force
  obtain r2 d2 c2 where plan: "restore_download_plan env pretty net client plan partial pause (d1, c) = (r2, (d2, c2))"
    by (metis prod.exhaust)
  obtain r3 d3 where move: "rename partial destination d2 = (r3, d3)" by force
  have step: "(r, (d', c')) = (case r1 of Inl e \<Rightarrow> (Inl e, (d1, c)) | Inr _ \<Rightarrow> (case r2 of Inl e \<Rightarrow> (Inl e, (d2, c2))
      | Inr (n, m) \<Rightarrow> (case r3 of Inl e \<Rightarrow> (Inl (IoFailed e), (d3, c2)) | Inr _ \<Rightarrow> (Inr (result n m), (d3, c2)))))"
    unfolding run [symmetric] using True recover plan move
    by (cases r1; cases r2; cases r3)
      (auto simp: bindE_def thenE_def on_local_def map_errE_def gets_def ensure_def ok_def path_exists_def)
  note here = recovery_path_run [OF tree recover]
  have o1: "only ?T d d1" using here tree_self by (auto intro: only_mono)
  show ?thesis
  proof (cases r1)
    case (Inl e)
    then show ?thesis using step o1 True by simp
  next
    case (Inr u)
    then have root: "rooted (loc partial) d1" using here by simp
    from keepsD [OF keeps_restore_plan [OF root, of client _ UNIV] _ plan]
    have s2: "stays (below (loc partial)) UNIV d1 d2" by simp
    then have "only ?T d1 d2" by (auto simp: stays_def below_def intro: only_mono)
    then have o2: "only ?T d d2" by (rule only_trans [OF o1])
    have dir: "node_at d2 (loc partial) = Some Directory"
      using workspace_rooted [OF workspace_below root s2] unfolding rooted_def by (metis order_refl take_all_iff)
    show ?thesis
    proof (cases r2)
      case (Inl e)
      then show ?thesis using step \<open>r1 = Inr u\<close> o2 True by simp
    next
      case (Inr nm)
      obtain n m where nm: "nm = (n, m)" by force
      from restore_download_plan_done [OF hash root plan [unfolded Inr nm]] obtain files where
        files: "dec_manifest client (dp_manifest plan) = Some files" "n = of_nat (length files)"
        and good: "tidy files \<Longrightarrow> \<forall>f \<in> set files. intact env (loc partial) d2 f" by blast
      show ?thesis
      proof (cases "loc partial = loc destination")
        case True
        then have "dk_nodes d3 = dk_nodes d2" using move by (auto simp: rename_def disk_op_def split: option.splits)
        then have "only ?T d d3" using o2 by (simp add: only_def)
        then show ?thesis using step \<open>r1 = Inr u\<close> \<open>r2 = Inr nm\<close> nm files True \<open>_ \<and> node_at d _ = None\<close>
          by (cases r3) auto
      next
        case False
        note moved = rename_dir_run [OF move dir False]
        show ?thesis
        proof (cases r3)
          case (Inl e)
          then have "only ?T d d3" using o2 moved by (simp add: only_def)
          then show ?thesis using step \<open>r1 = Inr u\<close> \<open>r2 = Inr nm\<close> nm True Inl by simp
        next
          case (Inr v)
          then have nodes: "dk_nodes d3 = dk_nodes (move_tree (loc partial) (loc destination) d2)" using moved by simp
          have "only (?T \<union> tree (loc destination)) d d3"
            using o2 nodes by (auto simp: only_def move_tree_def tree_def)
          then show ?thesis using step \<open>r1 = Inr u\<close> \<open>r2 = Inr nm\<close> nm True Inr files intact_moved [OF _ nodes] good
            by auto
        qed
      qed
    qed
  qed
qed

lemma download_inner_done:
  assumes hash: "streaming (rx_hash env)" and tree: "tree_ok d"
    and run: "download_dataset_inner env pretty net session transfer_id parent pause (d, c) = (r, (d', c'))"
  shows "case r of
      Inl e \<Rightarrow> dk_nodes d' = dk_nodes d
        \<or> (\<exists>client plan. served_plan session transfer_id c client plan
             \<and> node_at d (loc (path_join parent (dataset_name plan))) = None
             \<and> only (tree (loc (partial_of parent (dataset_name plan)))) d d')
    | Inr result \<Rightarrow> (\<exists>client plan files. served_plan session transfer_id c client plan
        \<and> dec_manifest client (dp_manifest plan) = Some files
        \<and> dr_destination result = path_join parent (dataset_name plan)
        \<and> dr_restored_files result = of_nat (length files)
        \<and> node_at d (loc (dr_destination result)) = None
        \<and> only (tree (loc (partial_of parent (dataset_name plan))) \<union> tree (loc (dr_destination result))) d d'
        \<and> (tidy files \<and> plain_name (dataset_name plan)
             \<longrightarrow> (\<forall>f \<in> set files. intact env (loc (dr_destination result)) d' f)))"
proof -
  obtain r1 c1 where session: "session c = (r1, c1)" by force
  show ?thesis
  proof (cases r1)
    case (Inl e)
    then show ?thesis using run session by (auto simp: download_dataset_inner_def bindE_def with_client_def)
  next
    case (Inr client)
    obtain r2 c2 where plan: "download_plan client transfer_id c1 = (r2, c2)" by force
    show ?thesis
    proof (cases r2)
      case (Inl e)
      then show ?thesis using run session plan \<open>r1 = _\<close>
        by (auto simp: download_dataset_inner_def bindE_def with_client_def map_errE_def)
    next
      case (Inr p)
      have served: "served_plan session transfer_id c client p"
        using session plan \<open>r1 = _\<close> Inr by (auto simp: served_plan_def)
      let ?d = "path_join parent (dataset_name p)" and ?p = "partial_of parent (dataset_name p)"
      have ne: "loc ?p \<noteq> loc ?d" if "plain_name (dataset_name p)"
        using loc_partial [OF that] loc_join_name [OF that] by simp
      let ?v = "\<lambda>n m. \<lparr>dr_transfer_id = dd_transfer_id (dp_dataset p), dr_destination = ?d,
              dr_restored_files = n, dr_original_bytes = dd_original_bytes (dp_dataset p), dr_transport_bytes = m\<rparr>"
      have "bindE (on_local (gets (path_is_dir parent))) (\<lambda>is_dir.
         thenE (ensure is_dir ''Choose an existing destination folder'')
         (bindE (on_local (gets (path_exists ?d))) (\<lambda>exists.
          thenE (ensure (\<not> exists) (''A file or folder named '' @ dataset_name p @ '' already exists at the destination''))
          (thenE (on_local (recovery_path ?p))
          (bindE (restore_download_plan env pretty net client p ?p pause) (\<lambda>(n, m).
           thenE (on_local (map_errE IoFailed (rename ?p ?d))) (ok (?v n m)))))))) (d, c2) = (r, (d', c'))"
        using run session plan \<open>r1 = _\<close> Inr
        by (simp add: download_dataset_inner_def bindE_def with_client_def map_errE_def Let_def)
      note tail = download_inner_tail [OF hash tree this]
      show ?thesis
      proof (cases r)
        case (Inl e)
        then show ?thesis using tail served by auto
      next
        case (Inr v)
        then obtain files m where "dec_manifest client (dp_manifest p) = Some files" "v = ?v (of_nat (length files)) m"
          "tidy files \<and> loc ?p \<noteq> loc ?d \<longrightarrow> (\<forall>f \<in> set files. intact env (loc ?d) d' f)"
          using tail by auto
        then have "served_plan session transfer_id c client p \<and> dec_manifest client (dp_manifest p) = Some files
          \<and> dr_destination v = path_join parent (dataset_name p) \<and> dr_restored_files v = of_nat (length files)
          \<and> node_at d (loc (dr_destination v)) = None
          \<and> only (tree (loc (partial_of parent (dataset_name p))) \<union> tree (loc (dr_destination v))) d d'
          \<and> (tidy files \<and> plain_name (dataset_name p)
             \<longrightarrow> (\<forall>f \<in> set files. intact env (loc (dr_destination v)) d' f))"
          using served ne tail Inr by auto
        then show ?thesis unfolding Inr sum.case by blast
      qed
    qed
  qed
qed

section \<open>Files verified by an earlier attempt\<close>

lemma local_digest_forward:
  assumes "streaming (rx_hash env)" and "file_bytes d p = Some bs" and "dk_fault d = (\<lambda>_. None)"
  shows "\<exists>d'. local_digest env p alg d = (Inr (digest_of (rx_hash env) alg bs), d')
     \<and> dk_fault d' = (\<lambda>_. None) \<and> dk_nodes d' = dk_nodes d"
proof -
  have "disk_reads p (1024 * 1024) d = (Inr (map Inr (chunks_of (1024 * 1024) bs) @ [Inr []]), turn d)"
    using assms(2,3) by (auto simp: disk_reads_def read_file_def bindE_def ok_def disk_op_def file_bytes_def
        split: option.splits node.splits)
  then have "fs_reads disk_fs p (1024 * 1024) d = (Inr (map Inr (chunks_of (1024 * 1024) bs) @ [Inr []]), turn d)"
    by (simp add: disk_fs_def)
  from hash_file_digest [OF assms(1) this delivered_chunks] obtain t where
    "digest_file disk_fs (rx_hash env) p alg (d, [] :: unit list) = (Inr (digest_of (rx_hash env) alg bs), (turn d, t))"
    unfolding digest_file_def by blast
  then show ?thesis using assms(3) by (auto simp: local_digest_def turn_def)
qed

lemma intact_matches:
  assumes hash: "streaming (rx_hash env)" and quiet: "dk_fault d = (\<lambda>_. None)"
    and p: "safe_relative_path root (mf_path f) = Some p" and there: "intact env (loc root) d f"
  shows "\<exists>d'. restored_file_matches env root f d = (Inr True, d') \<and> dk_fault d' = (\<lambda>_. None)"
proof -
  obtain bs t where bs: "dk_nodes d (loc p) = Some (RegularFile bs t)" "of_nat (length bs) = mf_size f"
    "digest_of (rx_hash env) (dg_algorithm (mf_digest f)) bs = dg_value (mf_digest f)"
    using there spot_path [OF p] by (auto simp: intact_def)
  have "loc p \<noteq> [] \<and> loc p \<noteq> [RootDir]"
    using relative_place(1-3) [OF p] by (cases "loc root") (auto simp: list_all_iff)
  then have here: "node_at d (loc p) = Some (RegularFile bs t)" "file_bytes d p = Some bs"
    using bs(1) by (simp_all add: node_at_def file_bytes_Some)
  have len: "metadata_len p d = (Inr (mf_size f), turn d)"
    using here(1) bs(2) quiet by (simp add: metadata_len_def disk_op_def)
  have fault: "dk_fault (turn d) = (\<lambda>_. None)" using quiet by (simp add: turn_def)
  obtain d1 where digest: "local_digest env p (dg_algorithm (mf_digest f)) (turn d) = (Inr (dg_value (mf_digest f)), d1)"
    and d1: "dk_fault d1 = (\<lambda>_. None)" "dk_nodes d1 = dk_nodes d"
    using local_digest_forward [OF hash, of "turn d" p bs "dg_algorithm (mf_digest f)"] here(2) bs(3) quiet
      fault by auto
  have "\<exists>d2. set_file_mtime p (rx_nanos env (mf_mtime f)) d1 = (Inr (), d2) \<and> dk_fault d2 = (\<lambda>_. None)"
    using d1 here(1)
    by (auto simp: set_file_mtime_def disk_op_def set_node_def turn_def node_at_def split: if_splits)
  then show ?thesis using p here(2) len digest
    by (auto simp: restored_file_matches_def verify_restored_file_def ensure_def bindE_def thenE_def map_errE_def
        gets_def tryE_def ok_def)
qed

lemma intact_all_match:
  assumes hash: "streaming (rx_hash env)" and "dk_fault d = (\<lambda>_. None)" and "distinct (map (spot (loc root)) files)"
    and "\<forall>f \<in> set files. safe_relative_path root (mf_path f) \<noteq> None \<and> intact env (loc root) d f"
  shows "\<exists>d'. all_match env root files d = (Inr True, d') \<and> dk_fault d' = (\<lambda>_. None)"
  using assms(2-4)
proof (induction files arbitrary: d)
  case (Cons f fs)
  obtain p where p: "safe_relative_path root (mf_path f) = Some p" using Cons.prems(3) by auto
  obtain d1 where one: "restored_file_matches env root f d = (Inr True, d1)" "dk_fault d1 = (\<lambda>_. None)"
    using intact_matches [OF hash Cons.prems(1) p] Cons.prems(3) by auto
  have f1: "stays UNIV {spot (loc root) f} d d1"
    by (rule keepsD [OF keeps_matches stays_refl one(1)]) simp_all
  have "intact env (loc root) d1 g" if "g \<in> set fs" for g
  proof (rule intact_stays [OF _ f1])
    show "spot (loc root) g \<notin> {spot (loc root) f}" using Cons.prems(2) that by (metis distinct.simps(2) imageI list.map(2) list.set_map singletonD)
  qed (use Cons.prems(3) that in auto)
  then obtain d2 where "all_match env root fs d1 = (Inr True, d2)" "dk_fault d2 = (\<lambda>_. None)"
    using Cons.IH [OF one(2)] Cons.prems(2,3) by auto
  then show ?case using one(1) by (simp add: bindE_def)
qed (simp add: ok_def)

lemma pause_never: "map_errE RegistryFailed (pause_load never) s = (Inr False, s)"
  by (cases s) (simp add: pause_load_def with_client_def flag_set_def never_def map_errE_def)

lemma intact_objects_skipped:
  assumes hash: "streaming (rx_hash env)"
    and "dk_fault d = (\<lambda>_. None)" and "distinct (map fst gs)" and "distinct (map (spot (loc root)) (grouped gs))"
    and "\<forall>f \<in> set (grouped gs). safe_relative_path root (mf_path f) \<noteq> None \<and> intact env (loc root) d f"
    and "distinct (map do_object_id objects)" and "\<forall>object \<in> set objects. do_object_id object \<in> fst ` set gs"
  shows "\<exists>left n' m' d'. restore_objects env net client plan never root cache objects gs n m (d, c)
     = (Inr (left, n', m'), (d', c)) \<and> left = filter (\<lambda>g. fst g \<notin> do_object_id ` set objects) gs"
  using assms(2-7)
proof (induction objects arbitrary: gs n m d)
  case (Cons object objects)
  let ?i = "do_object_id object"
  obtain files where files: "map_of gs ?i = Some files"
    using Cons.prems(6) by (metis list.set_intros(1) map_of_eq_None_iff not_None_eq)
  let ?gs = "filter (\<lambda>(i, _). i \<noteq> ?i) gs"
  note split = groups_apart [OF Cons.prems(2) files]
  have all: "distinct (map (spot (loc root)) (files @ grouped ?gs))"
    using Cons.prems(3) distinct_spots [OF split(1)] by simp
  have sets: "set (grouped gs) = set files \<union> set (grouped ?gs)" using mset_eq_setD [OF split(1)] by simp
  obtain d1 where match: "all_match env root files d = (Inr True, d1)" "dk_fault d1 = (\<lambda>_. None)"
    using intact_all_match [OF hash Cons.prems(1), of root files] all Cons.prems(4) sets by auto
  have f1: "stays UNIV (spot (loc root) ` set files) d d1"
    using all_match_done [OF hash, of root UNIV files d] match(1) all by simp
  have good: "\<forall>f \<in> set (grouped ?gs). safe_relative_path root (mf_path f) \<noteq> None \<and> intact env (loc root) d1 f"
  proof
    fix f assume f: "f \<in> set (grouped ?gs)"
    have "intact env (loc root) d1 f"
      by (rule intact_stays [OF _ f1]) (use Cons.prems(4) sets f all in auto)
    then show "safe_relative_path root (mf_path f) \<noteq> None \<and> intact env (loc root) d1 f"
      using Cons.prems(4) sets f by auto
  qed
  have ids: "\<forall>object \<in> set objects. do_object_id object \<in> fst ` set ?gs"
    using Cons.prems(5,6) by (force simp: image_iff)
  have "distinct (map (spot (loc root)) (grouped ?gs))" "distinct (map do_object_id objects)"
    using all Cons.prems(5) by simp_all
  from Cons.IH [OF match(2) split(2) this(1) good this(2) ids,
      of "saturating_add n (of_nat (length files))" "saturating_add m (case do_transport_bytes object of None \<Rightarrow> 0 | Some k \<Rightarrow> k)"]
  obtain left n' m' d' where rest: "restore_objects env net client plan never root cache objects ?gs
      (saturating_add n (of_nat (length files))) (saturating_add m (case do_transport_bytes object of None \<Rightarrow> 0 | Some k \<Rightarrow> k))
      (d1, c) = (Inr (left, n', m'), (d', c))" "left = filter (\<lambda>g. fst g \<notin> do_object_id ` set objects) ?gs" by blast
  have "left = filter (\<lambda>g. fst g \<notin> do_object_id ` set (object # objects)) gs"
    unfolding rest(2) filter_filter by (rule filter_cong) auto
  then show ?case using rest(1) match(1) files
    by (auto simp: bindE_def pause_never on_local_def Let_def)
qed (simp add: ok_def)

lemma group_keys:
  "fst ` set (fold push_file files gs) = fst ` set gs \<union> (\<lambda>f. tp_object_id (mf_transport f)) ` set files"
proof (induction files arbitrary: gs)
  case (Cons f fs)
  have "fst ` set (push_file f gs) = insert (tp_object_id (mf_transport f)) (fst ` set gs)"
    using push_file_fst [of f gs] by simp
  then show ?case using Cons.IH [of "push_file f gs"] by auto
qed simp

end
