(* ===== verification/DesktopRestoreProperties.thy ===== *)
theory DesktopRestoreProperties
  imports DesktopRestoreBehaviour RetrieveProperties
begin

text \<open>
  The properties of the desktop's retrieval and a small retrieval that satisfies their hypotheses.
\<close>

section \<open>Properties\<close>

text \<open>C29: A desktop retrieval that succeeds made its destination, which did not exist before, from the
  plan it was served: for a dataset name that is a single file name, every file of a manifest whose
  paths do not collide with each other or with the program's own files is there with the size and the
  digest the manifest gives, and nothing changed outside the destination and the partial directory.\<close>

theorem desktop_retrieval_is_complete:
  assumes "streaming (rx_hash env)" and "tree_ok d"
    and "download_dataset_inner env pretty net session transfer_id parent pause (d, c) = (Inr result, (d', c'))"
  shows "\<exists>client plan files. served_plan session transfer_id c client plan
    \<and> dec_manifest client (dp_manifest plan) = Some files
    \<and> dr_restored_files result = of_nat (length files)
    \<and> node_at d (loc (dr_destination result)) = None
    \<and> only (tree (loc (partial_of parent (dataset_name plan))) \<union> tree (loc (dr_destination result))) d d'
    \<and> (tidy files \<and> plain_name (dataset_name plan) \<longrightarrow>
         (\<forall>f \<in> set files. \<exists>bs t.
            dk_nodes d' (loc (dr_destination result) @ components (mf_path f)) = Some (RegularFile bs t)
          \<and> of_nat (length bs) = mf_size f
          \<and> digest_of (rx_hash env) (dg_algorithm (mf_digest f)) bs = dg_value (mf_digest f)))"
  using download_inner_done [OF assms] unfolding sum.case intact_def spot_def by blast

text \<open>C30: A desktop retrieval that fails, for whatever reason and wherever, leaves its destination as it was.
  Either it changed nothing on the disk, as when it found that the destination already exists; or it
  had found nothing at the destination, changed nothing outside the partial directory of the plan it
  was served, and, for a dataset name that is a single file name, there is still nothing at the
  destination.\<close>

theorem desktop_failure_keeps_the_destination:
  assumes "streaming (rx_hash env)" and "tree_ok d"
    and "download_dataset_inner env pretty net session transfer_id parent pause (d, c) = (Inl e, (d', c'))"
  shows "dk_nodes d' = dk_nodes d
    \<or> (\<exists>client plan. served_plan session transfer_id c client plan
         \<and> node_at d (loc (path_join parent (dataset_name plan))) = None
         \<and> only (tree (loc (partial_of parent (dataset_name plan)))) d d'
         \<and> (plain_name (dataset_name plan) \<longrightarrow> node_at d' (loc (path_join parent (dataset_name plan))) = None))"
proof -
  have "node_at d' (loc (path_join parent name)) = None"
    if "only (tree (loc (partial_of parent name))) d d'" "plain_name name" "node_at d (loc (path_join parent name)) = None" for name
  proof -
    have "loc (path_join parent name) \<notin> tree (loc (partial_of parent name))"
      using loc_partial [OF that(2)] loc_join_name [OF that(2)] by (simp add: in_tree)
    then show ?thesis using that(1,3) by (auto simp: only_def node_at_def split: if_splits)
  qed
  then show ?thesis using download_inner_done [OF assms] unfolding sum.case by blast
qed

text \<open>C31: A regular file left in the cache of the partial directory that is no cache file of the plan's
  objects stops every later retrieval: the plan's files may all be restored, but the cache
  directory can not be removed, so no attempt succeeds, and the file is still there for the next
  one.\<close>

theorem leftover_blocks_the_retrieval:
  assumes "rooted (loc partial) d" and left: "dk_nodes d k = Some (RegularFile bs t)"
    and below: "k \<in> below (loc (path_join partial ''.courier-transport''))"
    and other: "\<forall>object \<in> set (dp_objects plan). k \<notin> object_trees (path_join partial ''.courier-transport'') (do_object_id object)"
    and files: "\<forall>files. dec_manifest client (dp_manifest plan) = Some files \<longrightarrow>
        (\<forall>f \<in> set files. hd (components (mf_path f)) \<noteq> Normal ''.courier-transport'')"
    and run: "restore_download_plan env pretty net client plan partial pause (d, c) = (r, (d', c'))"
  shows "(\<exists>e. r = Inl e) \<and> dk_nodes d' k = Some (RegularFile bs t) \<and> rooted (loc partial) d'"
proof -
  let ?cache = "cache_of partial" and ?W = "- {k}"
  have k: "k \<in> below (loc ?cache)" using below by (simp add: cache_of_def)
  have spots: "spot (loc partial) ` set fs \<subseteq> ?W" if "dec_manifest client (dp_manifest plan) = Some fs" for fs
  proof -
    obtain l where l: "k = loc partial @ Normal ''.courier-transport'' # l" using k by (auto simp: loc_cache in_below)
    have "spot (loc partial) f \<in> ?W" if "f \<in> set fs" for f
    proof -
      have "hd (components (mf_path f)) \<noteq> Normal ''.courier-transport''"
        using files \<open>dec_manifest _ _ = Some fs\<close> that by blast
      then have "components (mf_path f) \<noteq> Normal ''.courier-transport'' # l" by force
      then show ?thesis by (simp add: spot_def l)
    qed
    then show ?thesis by blast
  qed
  have trees: "object_trees ?cache (do_object_id object) \<subseteq> ?W" if "object \<in> set (dp_objects plan)" for object
    using other that by (auto simp: cache_of_def)
  have meta: "metadata_spot (loc partial) \<in> ?W" using k by (auto simp: metadata_spot_def loc_cache in_below)
  from keepsD [OF keeps_restore_plan [OF assms(1) spots trees meta] _ run]
  have frame: "stays (below (loc partial)) ?W d d'" by simp
  then have stays: "dk_nodes d' k = Some (RegularFile bs t)" using left by (simp add: stays_def)
  have "r \<noteq> Inr nm" for nm
  proof
    assume "r = Inr nm"
    then obtain d1 d2 c2 d3 gs left n m fs where
      dirs: "create_dir_all ?cache d = (Inr (), d1)" and "dec_manifest client (dp_manifest plan) = Some fs"
      and "gs = sort_members (fold push_file fs [])"
      and objects: "restore_objects env net client plan pause partial ?cache (dp_objects plan) gs 0 0 (d1, c)
        = (Inr (left, n, m), (d2, c2))" and gone: "remove_dir ?cache d2 = (Inr (), d3)"
      using run by (auto simp: restore_download_plan_def cache_of_def Let_def comp_simps ensure_def local_Inr
          split: option.splits if_splits prod.splits dest!: validate_state)
    then have gs: "spot (loc partial) ` set (grouped gs) \<subseteq> ?W"
      using spots mset_eq_setD [OF groups_of_manifest(1), of fs] by simp
    have s1: "stays (below (loc partial)) {} d d1"
      by (rule keepsD [OF keeps_create_dir_all [OF assms(1) loc_cache subset_refl] stays_refl dirs])
    have root1: "rooted (loc partial) d1" by (rule workspace_rooted [OF workspace_below assms(1) s1])
    have sub: "below (loc ?cache) \<subseteq> below (loc partial)" by (auto simp: loc_cache in_below)
    from keepsD [OF keeps_restore_objects_any [OF root1 sub gs trees] _ objects]
    have "stays (below (loc partial)) ?W d1 d2" by simp
    then have "dk_nodes d2 k = Some (RegularFile bs t)" using s1 left by (simp add: stays_def)
    then have "\<not> empty_dir d2 (loc ?cache)"
      using k unfolding empty_dir_def below_def tree_def by auto
    then show False using gone
      by (auto simp: remove_dir_def comp_simps empty_dir_def split: option.splits node.splits if_splits)
  qed
  then show ?thesis
    using stays workspace_rooted [OF workspace_below assms(1) frame] by (cases r) auto
qed

text \<open>An attempt that finds every file of the plan's objects already in the partial directory, with the
  size and the digest of the manifest, asks the network for nothing: the Registry client's state,
  its trace of requests included, is unchanged, and every object is accounted for.\<close>

theorem verified_files_are_not_fetched_again:
  assumes "streaming (rx_hash env)" and "dk_fault d = (\<lambda>_. None)" and "tidy files"
    and "\<forall>f \<in> set files. \<exists>p bs. safe_relative_path partial (mf_path f) = Some p \<and> file_bytes d p = Some bs
          \<and> of_nat (length bs) = mf_size f
          \<and> digest_of (rx_hash env) (dg_algorithm (mf_digest f)) bs = dg_value (mf_digest f)"
    and "distinct (map do_object_id objects)"
    and "do_object_id ` set objects = (\<lambda>f. tp_object_id (mf_transport f)) ` set files"
  shows "\<exists>n m d'. restore_objects env net client plan never partial cache objects
      (sort_members (fold push_file files [])) 0 0 (d, c) = (Inr ([], n, m), (d', c))"
proof -
  let ?gs = "sort_members (fold push_file files [])"
  have there: "\<forall>f \<in> set (grouped ?gs). safe_relative_path partial (mf_path f) \<noteq> None \<and> intact env (loc partial) d f"
  proof
    fix f assume "f \<in> set (grouped ?gs)"
    then have "f \<in> set files" using mset_eq_setD [OF groups_of_manifest(1)] by blast
    then obtain p bs where "safe_relative_path partial (mf_path f) = Some p" "file_bytes d p = Some bs"
      "of_nat (length bs) = mf_size f"
      "digest_of (rx_hash env) (dg_algorithm (mf_digest f)) bs = dg_value (mf_digest f)" using assms(4) by blast
    then show "safe_relative_path partial (mf_path f) \<noteq> None \<and> intact env (loc partial) d f"
      using spot_path [of partial f p] by (auto simp: intact_def file_bytes_Some)
  qed
  have keys: "fst ` set ?gs = do_object_id ` set objects"
    using group_keys [of files "[]"] assms(6) by (simp add: sort_members_def image_image case_prod_beta)
  then have all: "\<forall>object \<in> set objects. do_object_id object \<in> fst ` set ?gs" by blast
  have spots: "distinct (map (spot (loc partial)) (grouped ?gs))"
    using tidy_spots(1) [OF assms(3)] distinct_spots [OF groups_of_manifest(1)] by simp
  have "filter (\<lambda>g. fst g \<notin> do_object_id ` set objects) ?gs = []" using keys by (auto simp: filter_empty_conv)
  then show ?thesis
    using intact_objects_skipped [OF assms(1,2) groups_of_manifest(2) spots there assms(5) all] by metis
qed

section \<open>A small retrieval\<close>

abbreviation left_name :: string where
  "left_name \<equiv> ''.s.courier-partial''"

definition left_disk :: "(location \<Rightarrow> node option) \<Rightarrow> disk" where
  "left_disk extra = \<lparr>dk_nodes = extra([Normal left_name] \<mapsto> Directory,
     [Normal left_name, Normal ''a''] \<mapsto> RegularFile [7, 8, 9] 5), dk_fault = (\<lambda>_. None), dk_tick = 0, dk_clock = (\<lambda>_. 0)\<rparr>"

definition left_session :: "(unit client_state, RetrieveError, unit RegistryClient) comp" where
  "left_session = (\<lambda>c. (Inr (library_client three_bytes), c))"

definition signed_state :: "unit client_state" where
  "signed_state = fresh_state\<lparr>cs_auth := Some \<lparr>as_access_token = ''a'', as_refresh_token = Some ''r''\<rparr>\<rparr>"

definition the_file :: ManifestFile where
  "the_file = \<lparr>mf_path = ''a'', mf_size = 3, mf_mtime = 0, mf_digest = \<lparr>dg_algorithm = Sha256, dg_value = three_bytes\<rparr>,
     mf_transport = \<lparr>tp_object_id = 1, tp_member_index = 0\<rparr>\<rparr>"

lemma left_names:
  "dataset_name (library_plan g) = ''s''" "partial_of '''' ''s'' = left_name" "path_join '''' ''s'' = ''s''"
  "loc left_name = [Normal left_name]" "loc ''s'' = [Normal ''s'']" "loc '''' = []"
  "safe_relative_path left_name ''a'' = Some (path_join left_name ''a'')"
  "loc (path_join left_name ''a'') = [Normal left_name, Normal ''a'']" "components ''a'' = [Normal ''a'']"
  "plain_name ''s''"
  by (simp_all add: safe_dataset_name_def library_plan_def path_file_name_def components_def is_absolute_def Let_def
      partial_of_def path_join_def loc_def safe_relative_path_def plain_name_def)

lemma left_source: "safe_dataset_name (dd_source_name (dp_dataset (library_plan g))) ''t'' = ''s''"
  using left_names(1) [of g] by simp

lemma left_manifest: "dec_manifest (library_client three_bytes) (one_manifest three_bytes) = Some [the_file]"
  by (simp add: library_manifest_run the_file_def)

lemma left_match:
  assumes "dk_fault d = (\<lambda>_. None)" and "dk_nodes d [Normal left_name, Normal ''a''] = Some (RegularFile [7, 8, 9] t)"
  shows "\<exists>d'. restored_file_matches library_tools left_name the_file d = (Inr True, d') \<and> dk_fault d' = (\<lambda>_. None)
     \<and> dk_nodes d' = (dk_nodes d)([Normal left_name, Normal ''a''] \<mapsto> RegularFile [7, 8, 9] 0)"
  using assms left_names(7,8)
  by (simp add: restored_file_matches_def verify_restored_file_def the_file_def local_digest_def digest_file_def
      hash_file_def on_env_io_def disk_fs_def disk_reads_def read_file_def set_file_mtime_def emit_def ensure_def
      file_bytes_def library_tools_def byte_hash_def three_bytes_def Let_def disk_steps)

lemma left_valid: "validate_download_manifest library_tools [the_file] s = (Inr (), s)"
  by (simp add: validate_download_manifest_def relative_path_def safe_relative_path_def left_names(9) the_file_def
      ensure_def comp_defs)

lemma left_groups: "sort_members [(tp_object_id (mf_transport the_file), [the_file])] = [(1, [the_file])]"
  by (simp add: sort_members_def the_file_def)

lemma left_plan_run:
  assumes "dk_fault d = (\<lambda>_. None)" and "dk_nodes d = dk_nodes (left_disk (\<lambda>_. None))"
  shows "\<exists>d'. restore_download_plan library_tools (\<lambda>_. Inr []) library_net (library_client three_bytes)
     (library_plan three_bytes) left_name never (d, c) = (Inr (1, 3), (d', c))
   \<and> dk_fault d' = (\<lambda>_. None) \<and> dk_nodes d' [Normal left_name] = Some Directory \<and> dk_nodes d' [Normal ''s''] = None"
proof -
  let ?cache = "path_join left_name ''.courier-transport''" and ?meta = "path_join left_name ''courier-metadata''"
  have cache: "loc ?cache = [Normal left_name, Normal ''.courier-transport'']"
    using loc_cache [of left_name] left_names(4) by (simp add: cache_of_def)
  have meta: "loc ?meta = [Normal left_name, Normal ''courier-metadata'']"
    "loc (path_join ?meta ''manifest.json'') = [Normal left_name, Normal ''courier-metadata'', Normal ''manifest.json'']"
    using loc_metadata [of left_name] left_names(4) by (simp_all add: metadata_spot_def)
  obtain d1 where d1: "create_dir_all ?cache d = (Inr (), d1)" "dk_fault d1 = (\<lambda>_. None)"
    "dk_nodes d1 = (dk_nodes (left_disk (\<lambda>_. None)))([Normal left_name, Normal ''.courier-transport''] \<mapsto> Directory)"
    using cache assms by (simp add: create_dir_all_def left_disk_def disk_steps upt_rec)
  have there: "dk_nodes d1 [Normal left_name, Normal ''a''] = Some (RegularFile [7, 8, 9] 5)"
    by (simp add: d1(3) left_disk_def)
  obtain d2 where d2: "restored_file_matches library_tools left_name the_file d1 = (Inr True, d2)" "dk_fault d2 = (\<lambda>_. None)"
    "dk_nodes d2 = (dk_nodes d1)([Normal left_name, Normal ''a''] \<mapsto> RegularFile [7, 8, 9] 0)"
    using left_match [OF d1(2) there] by blast
  have empty: "empty_dir d2 [Normal left_name, Normal ''.courier-transport'']"
    unfolding empty_dir_def d2(3) d1(3) by (auto simp: left_disk_def)
  obtain d3 where d3: "remove_dir ?cache d2 = (Inr (), d3)" "dk_fault d3 = (\<lambda>_. None)"
    "dk_nodes d3 = (dk_nodes d2)([Normal left_name, Normal ''.courier-transport''] := None)"
    using empty d2(2,3) d1(3) by (simp add: remove_dir_def cache disk_op_def node_at_def set_node_def turn_def empty_dir_def)
  have dir: "dk_nodes d3 [Normal left_name] = Some Directory" "dk_nodes d3 [Normal ''s''] = None"
    "dk_nodes d3 [Normal left_name, Normal ''courier-metadata''] = None"
    "dk_nodes d3 [Normal left_name, Normal ''courier-metadata'', Normal ''manifest.json''] = None"
    by (simp_all add: d3(3) d2(3) d1(3) left_disk_def)
  obtain d4 where d4: "write_metadata (\<lambda>_. Inr []) left_name (one_manifest three_bytes) d3 = (Inr (), d4)"
    "dk_fault d4 = (\<lambda>_. None)" "dk_nodes d4 [Normal left_name] = Some Directory" "dk_nodes d4 [Normal ''s''] = None"
    using dir d3(2) by (simp add: write_metadata_def write_file_def create_dir_all_def meta disk_steps upt_rec Let_def)

  have objects: "restore_objects library_tools library_net (library_client three_bytes) (library_plan three_bytes) never
      left_name ?cache [library_object] [(1, [the_file])] 0 0 (d1, c) = (Inr ([], 1, 3), (d2, c))"
    using d2(1) by (simp add: bindE_def pause_never on_local_def Let_def ok_def saturating_add_def)

  show ?thesis
    using d1(1) d3(1) d4
    by (simp add: restore_download_plan_def left_manifest left_groups left_valid objects Let_def ensure_def comp_defs on_local_def
        del: restore_objects.simps)
qed

lemma left_served: "\<exists>c1. download_plan (library_client three_bytes) ''t'' signed_state = (Inr (library_plan three_bytes), c1)"
  using library_plan_run [of signed_state three_bytes] by (auto simp: signed_state_def fresh_state_def new_state_def)

lemma left_plan_served:
  "served_plan left_session ''t'' signed_state client plan \<Longrightarrow>
     client = library_client three_bytes \<and> plan = library_plan three_bytes"
  using left_served by (auto simp: served_plan_def left_session_def)

lemma left_run:
  "\<exists>v d' c'. download_dataset_inner library_tools (\<lambda>_. Inr []) library_net left_session ''t'' '''' never
     (left_disk (\<lambda>_. None), signed_state) = (Inr v, (d', c')) \<and> dr_destination v = ''s''"
proof -
  obtain c1 where c1: "download_plan (library_client three_bytes) ''t'' signed_state = (Inr (library_plan three_bytes), c1)"
    using left_served by blast
  let ?d = "turn (left_disk (\<lambda>_. None))"
  have d1: "recovery_path left_name (left_disk (\<lambda>_. None)) = (Inr (), ?d)"
    by (simp add: recovery_path_def left_names(4) left_disk_def disk_op_def node_at_def turn_def comp_defs)
  have "dk_fault ?d = (\<lambda>_. None)" "dk_nodes ?d = dk_nodes (left_disk (\<lambda>_. None))"
    by (simp_all add: turn_def left_disk_def)
  from left_plan_run [OF this, of c1] obtain d2 where
    d2: "restore_download_plan library_tools (\<lambda>_. Inr []) library_net (library_client three_bytes)
     (library_plan three_bytes) left_name never (?d, c1) = (Inr (1, 3), (d2, c1))"
    "dk_fault d2 = (\<lambda>_. None)" "dk_nodes d2 [Normal left_name] = Some Directory" "dk_nodes d2 [Normal ''s''] = None"
    by blast
  have "\<exists>d3. rename left_name ''s'' d2 = (Inr (), d3)"
    using d2(2-4) by (simp add: rename_def left_names(4,5) disk_op_def node_at_def can_replace_def parent_is_dir_def turn_def)
  moreover have "path_is_dir '''' (left_disk (\<lambda>_. None))" "\<not> path_exists ''s'' (left_disk (\<lambda>_. None))"
    by (simp_all add: path_is_dir_def path_exists_def left_names(5,6) node_at_def left_disk_def)
  ultimately show ?thesis using c1 d1 d2(1)
    by (auto simp: download_dataset_inner_def left_source left_names(2,3) left_session_def with_client_def on_local_def ensure_def
        Let_def comp_defs)
qed

lemma left_tree: "tree_ok (left_disk (\<lambda>_. None))"
  unfolding tree_ok_def
proof (intro allI impI)
  fix k :: location and n
  assume "node_at (left_disk (\<lambda>_. None)) k \<noteq> None" "n < length k"
  then have "k = [RootDir] \<or> k = [Normal left_name] \<or> k = [Normal left_name, Normal ''a'']"
    by (auto simp: node_at_def left_disk_def split: if_splits)
  then show "node_at (left_disk (\<lambda>_. None)) (take n k) = Some Directory"
    using \<open>n < length k\<close> by (auto simp: node_at_def left_disk_def less_Suc_eq)
qed

theorem desktop_retrieval_is_complete_witness:
  "\<exists>v d' c' bs t. download_dataset_inner library_tools (\<lambda>_. Inr []) library_net left_session ''t'' '''' never
     (left_disk (\<lambda>_. None), signed_state) = (Inr v, (d', c')) \<and> dr_restored_files v = 1
   \<and> dk_nodes d' [Normal ''s'', Normal ''a''] = Some (RegularFile bs t) \<and> of_nat (length bs) = (3 :: u64)"
proof -
  obtain v d' c' where run: "download_dataset_inner library_tools (\<lambda>_. Inr []) library_net left_session ''t'' '''' never
     (left_disk (\<lambda>_. None), signed_state) = (Inr v, (d', c'))" "dr_destination v = ''s''" using left_run by blast
  from desktop_retrieval_is_complete [OF library_streaming left_tree run(1)] obtain client plan files where
    plan: "served_plan left_session ''t'' signed_state client plan" "dec_manifest client (dp_manifest plan) = Some files"
    and got: "dr_restored_files v = of_nat (length files)"
      "tidy files \<and> plain_name (dataset_name plan) \<longrightarrow> (\<forall>f \<in> set files. \<exists>bs t.
         dk_nodes d' (loc (dr_destination v) @ components (mf_path f)) = Some (RegularFile bs t) \<and> of_nat (length bs) = mf_size f)"
    by blast
  have p: "client = library_client three_bytes" "plan = library_plan three_bytes"
    using left_plan_served [OF plan(1)] by simp_all
  then have files: "files = [the_file]" using plan(2) left_manifest by simp
  have "tidy files \<and> plain_name (dataset_name plan)"
    unfolding files p(2) left_names(1) using left_names(9,10) by (simp add: tidy_def the_file_def)
  then show ?thesis using got run left_names(5,9) by (auto simp: files the_file_def)
qed

theorem desktop_failure_keeps_the_destination_witness:
  "\<exists>e d' c'. download_dataset_inner library_tools (\<lambda>_. Inr []) library_net left_session ''t'' '''' (\<lambda>w. (True, w))
     (empty_disk, signed_state) = (Inl e, (d', c')) \<and> node_at d' (loc ''s'') = None"
proof -
  obtain c1 where c1: "download_plan (library_client three_bytes) ''t'' signed_state = (Inr (library_plan three_bytes), c1)"
    using left_served by blast
  have cache: "loc (path_join left_name ''.courier-transport'') = [Normal left_name, Normal ''.courier-transport'']"
    using loc_cache [of left_name] left_names(4) by (simp add: cache_of_def)
  have paused: "map_errE RegistryFailed (pause_load (\<lambda>w. (True, w))) s = (Inr True, s)" for s :: "disk \<times> unit client_state"
    by (cases s) (simp add: pause_load_def with_client_def flag_set_def map_errE_def)
  have "\<exists>d1. recovery_path left_name empty_disk = (Inr (), d1) \<and> dk_fault d1 = (\<lambda>_. None)
      \<and> dk_nodes d1 = [[Normal left_name] \<mapsto> Directory]"
    by (simp add: recovery_path_def left_names(4) empty_disk_def create_dir_def not_found_def disk_steps)
  then obtain d1 where d1: "recovery_path left_name empty_disk = (Inr (), d1)" "dk_fault d1 = (\<lambda>_. None)"
      "dk_nodes d1 = [[Normal left_name] \<mapsto> Directory]" by blast
  then obtain d2 where d2: "create_dir_all (path_join left_name ''.courier-transport'') d1 = (Inr (), d2)"
    by (simp add: create_dir_all_def cache disk_steps upt_rec)
  have "restore_download_plan library_tools (\<lambda>_. Inr []) library_net (library_client three_bytes)
     (library_plan three_bytes) left_name (\<lambda>w. (True, w)) (d1, c1) = (Inl (Message ''download paused''), (d2, c1))"
    using d2 by (simp add: restore_download_plan_def left_manifest left_groups left_valid Let_def ensure_def comp_defs
        on_local_def paused [unfolded map_errE_def])
  moreover have "path_is_dir '''' empty_disk" "\<not> path_exists ''s'' empty_disk"
    by (simp_all add: path_is_dir_def path_exists_def left_names(5,6) node_at_def empty_disk_def)
  ultimately have run: "download_dataset_inner library_tools (\<lambda>_. Inr []) library_net left_session ''t'' '''' (\<lambda>w. (True, w))
     (empty_disk, signed_state) = (Inl (Message ''download paused''), (d2, c1))"
    using c1 d1(1)
    by (simp add: download_dataset_inner_def left_source left_names(2,3) left_session_def with_client_def on_local_def ensure_def
        Let_def comp_defs)
  from desktop_failure_keeps_the_destination [OF library_streaming empty_disk_tree this]
  have "dk_nodes d2 = dk_nodes empty_disk \<or> node_at d2 (loc ''s'') = None"
  proof (elim disjE exE conjE)
    fix client plan assume "served_plan left_session ''t'' signed_state client plan"
      "plain_name (dataset_name plan) \<longrightarrow> node_at d2 (loc (path_join '''' (dataset_name plan))) = None"
    then show ?thesis using left_plan_served left_source left_names(3,10) by fastforce
  qed simp
  then have "node_at d2 (loc ''s'') = None" by (auto simp: node_at_def left_names(5) empty_disk_def)
  then show ?thesis using run by blast
qed

theorem leftover_blocks_the_retrieval_witness:
  "\<exists>e d' c'. restore_download_plan library_tools (\<lambda>_. Inr []) library_net (library_client three_bytes)
     (library_plan three_bytes) left_name never
     (left_disk [[Normal left_name, Normal ''.courier-transport'', Normal ''x''] \<mapsto> RegularFile [] 0], signed_state)
       = (Inl e, (d', c'))
   \<and> dk_nodes d' [Normal left_name, Normal ''.courier-transport'', Normal ''x''] = Some (RegularFile [] 0)"
proof -
  let ?d = "left_disk [[Normal left_name, Normal ''.courier-transport'', Normal ''x''] \<mapsto> RegularFile [] 0]"
  let ?k = "[Normal left_name, Normal ''.courier-transport'', Normal ''x'']"
  obtain r d' c' where run: "restore_download_plan library_tools (\<lambda>_. Inr []) library_net (library_client three_bytes)
     (library_plan three_bytes) left_name never (?d, signed_state) = (r, (d', c'))" by (metis prod.exhaust)
  have root: "rooted (loc left_name) ?d"
    by (auto simp: rooted_def left_names(4) left_disk_def node_at_def le_Suc_eq)
  have k: "?k \<in> below (loc (path_join left_name ''.courier-transport''))"
    using loc_cache [of left_name] left_names(4) by (simp add: cache_of_def in_below)
  have "uuid_to_string 1 \<noteq> ''x''" "uuid_to_string 1 @ ''.part'' \<noteq> ''x''"
    using uuid_chars [of 1] by auto
  then have other: "\<forall>object \<in> set (dp_objects (library_plan three_bytes)).
      ?k \<notin> object_trees (path_join left_name ''.courier-transport'') (do_object_id object)"
    using loc_cache [of left_name] left_names(4) by (auto simp: object_trees_def cache_names cache_of_def in_tree)
  show ?thesis
    using leftover_blocks_the_retrieval [OF root _ k other _ run, of "[]" 0] run left_manifest left_names(9)
    by (auto simp: left_disk_def the_file_def)
qed

theorem verified_files_are_not_fetched_again_witness:
  "\<exists>n m d'. restore_objects library_tools library_net (library_client three_bytes) (library_plan three_bytes) never
     left_name ''c'' [library_object] (sort_members (fold push_file [the_file] [])) 0 0 (left_disk (\<lambda>_. None), signed_state)
       = (Inr ([], n, m), (d', signed_state))"
proof (rule verified_files_are_not_fetched_again [OF library_streaming])
  show "tidy [the_file]" by (simp add: tidy_def the_file_def left_names(9))
  show "\<forall>f \<in> set [the_file]. \<exists>p bs. safe_relative_path left_name (mf_path f) = Some p
      \<and> file_bytes (left_disk (\<lambda>_. None)) p = Some bs \<and> of_nat (length bs) = mf_size f
      \<and> digest_of (rx_hash library_tools) (dg_algorithm (mf_digest f)) bs = dg_value (mf_digest f)"
    using left_names(7,8) by (simp add: the_file_def file_bytes_Some left_disk_def digest_of_def library_tools_def
        byte_hash_def three_bytes_def)
qed (simp_all add: left_disk_def the_file_def)

end
