(* ===== verification/DesktopState.thy ===== *)
theory DesktopState
  imports UploadBehaviour
begin

text \<open>
  The desktop application's run-time state, \<^verbatim>\<open>apps/courier-desktop/src-tauri/src/lib.rs\<close>: the pause
  controls of running uploads and downloads, the progress an upload reports, and the view of a
  transfer's files.
\<close>

section \<open>Pause controls\<close>

text \<open>
  \<^verbatim>\<open>controls\<close> and \<^verbatim>\<open>download_controls\<close>: a map from a transfer to the flag of its worker. A flag
  is a shared cell, so it is named by a number; \<open>ct_workers\<close> are the workers under way, each with
  the transfer and the flag it was started with.
\<close>

record 'k controls =
  ct_map :: "'k \<Rightarrow> nat option"
  ct_flags :: "nat \<Rightarrow> bool"
  ct_next :: nat
  ct_workers :: "('k \<times> nat) list"

definition no_controls :: "'k controls" where
  "no_controls = \<lparr>ct_map = (\<lambda>_. None), ct_flags = (\<lambda>_. False), ct_next = 0, ct_workers = []\<rparr>"

definition insert_control :: "'k \<Rightarrow> 'k controls \<Rightarrow> 'k controls" where
  "insert_control i s =
     s\<lparr>ct_map := (ct_map s)(i \<mapsto> ct_next s), ct_flags := (ct_flags s)(ct_next s := False),
       ct_next := Suc (ct_next s), ct_workers := ct_workers s @ [(i, ct_next s)]\<rparr>"

definition remove_control :: "'k \<times> nat \<Rightarrow> 'k controls \<Rightarrow> 'k controls" where
  "remove_control w s =
     s\<lparr>ct_map := (ct_map s)(fst w := None), ct_workers := remove1 w (ct_workers s)\<rparr>"

definition set_control :: "string \<Rightarrow> 'k \<Rightarrow> 'k controls \<Rightarrow> string + 'k controls" where
  "set_control message i s = (case ct_map s i of
     None \<Rightarrow> Inl message | Some n \<Rightarrow> Inr (s\<lparr>ct_flags := (ct_flags s)(n := True)\<rparr>))"

definition start_upload :: "uuid \<Rightarrow> uuid controls \<Rightarrow> uuid controls" where
  "start_upload = insert_control"

definition pause_upload :: "uuid \<Rightarrow> uuid controls \<Rightarrow> string + uuid controls" where
  "pause_upload = set_control ''Transfer is not currently uploading''"

definition download_dataset :: "string \<Rightarrow> string controls \<Rightarrow> string + string controls" where
  "download_dataset i s =
     (if ct_map s i \<noteq> None then Inl ''This dataset is already being retrieved''
      else Inr (insert_control i s))"

definition pause_download :: "string \<Rightarrow> string controls \<Rightarrow> string + string controls" where
  "pause_download = set_control ''Dataset is not currently being retrieved''"

text \<open>The commands in any order; a worker under way ends at any time.\<close>

inductive upload_controls :: "uuid controls \<Rightarrow> uuid controls \<Rightarrow> bool" where
  started: "upload_controls s (start_upload i s)"
| ended: "w \<in> set (ct_workers s) \<Longrightarrow> upload_controls s (remove_control w s)"
| paused: "pause_upload i s = Inr s' \<Longrightarrow> upload_controls s s'"

inductive download_controls :: "string controls \<Rightarrow> string controls \<Rightarrow> bool" where
  retrieving: "download_dataset i s = Inr s' \<Longrightarrow> download_controls s s'"
| retrieved: "w \<in> set (ct_workers s) \<Longrightarrow> download_controls s (remove_control w s)"
| stopping: "pause_download i s = Inr s' \<Longrightarrow> download_controls s s'"

section \<open>Progress\<close>

definition scale_transport_progress :: "u64 \<Rightarrow> u64 \<Rightarrow> u64 \<Rightarrow> u64" where
  "scale_transport_progress transport_bytes original_bytes total_transport =
     (if total_transport = 0 \<or> total_transport \<le> transport_bytes then original_bytes
      else ucast ((ucast transport_bytes * ucast original_bytes :: 128 word) div ucast total_transport))"

text \<open>The counters of \<^verbatim>\<open>DesktopObserver\<close>; the object's own counter wraps, its use saturates.\<close>

record DesktopObserver =
  ob_confirmed :: u64
  ob_base_confirmed :: u64
  ob_object_original_bytes :: u64
  ob_object_transport_bytes :: u64
  ob_object_confirmed_transport_bytes :: u64

definition scaled :: "DesktopObserver \<Rightarrow> u64 \<Rightarrow> u64" where
  "scaled self transport_bytes =
     scale_transport_progress transport_bytes (ob_object_original_bytes self) (ob_object_transport_bytes self)"

definition observer_part_confirmed :: "u64 \<Rightarrow> DesktopObserver \<Rightarrow> DesktopObserver" where
  "observer_part_confirmed source_bytes self =
     (let object_confirmed = saturating_add (ob_object_confirmed_transport_bytes self) source_bytes in
      self\<lparr>ob_object_confirmed_transport_bytes := ob_object_confirmed_transport_bytes self + source_bytes,
           ob_confirmed := saturating_add (ob_base_confirmed self) (scaled self object_confirmed)\<rparr>)"

definition observer_reconciled :: "u64 \<Rightarrow> DesktopObserver \<Rightarrow> DesktopObserver" where
  "observer_reconciled source_bytes_confirmed self =
     self\<lparr>ob_object_confirmed_transport_bytes := source_bytes_confirmed,
          ob_confirmed := saturating_add (ob_base_confirmed self) (scaled self source_bytes_confirmed)\<rparr>"

fun observe_event :: "upload_event \<Rightarrow> DesktopObserver \<Rightarrow> DesktopObserver" where
  "observe_event (PartConfirmed number source_bytes) self = observer_part_confirmed source_bytes self"
| "observe_event (Reconciled source_bytes) self = observer_reconciled source_bytes self"
| "observe_event _ self = self"

section \<open>The files of a transfer\<close>

record LiveObjectProgress =
  lo_object_id :: uuid
  lo_phase :: string
  lo_confirmed_bytes :: u64
  lo_sent_bytes :: u64
  lo_total_bytes :: "u64 option"

record FileProgressView =
  fv_id :: uuid
  fv_relative_path :: path
  fv_size :: u64
  fv_status :: string
  fv_packed :: bool
  fv_active :: bool
  fv_confirmed_bytes :: u64
  fv_sent_bytes :: u64
  fv_transport_bytes :: "u64 option"

definition file_progress_label ::
  "FileStatus \<Rightarrow> TransferStatus \<Rightarrow> string option \<Rightarrow> bool \<Rightarrow> bool \<Rightarrow> string" where
  "file_progress_label file_status transfer_status live_phase paused running =
     (if file_status = FileStatus.Uploaded then
        (if transfer_status = TransferStatus.Complete then ''Verified'' else ''Uploaded'')
      else if file_status = FileStatus.SourceModified then ''Source changed''
      else if file_status = FileStatus.Failed then ''Failed''
      else if transfer_status = TransferStatus.Paused then ''Paused''
      else if paused then ''Pausing''
      else if transfer_status = TransferStatus.Uploading \<and> \<not> running then ''Waiting to resume''
      else
        let queued = (case transfer_status of
            TransferStatus.Interrupted \<Rightarrow> ''Waiting to resume''
          | TransferStatus.Failed \<Rightarrow> ''Not uploaded''
          | _ \<Rightarrow> ''Queued'')
        in if transfer_status = TransferStatus.Uploading
           then (case live_phase of Some phase \<Rightarrow> phase | None \<Rightarrow> queued) else queued)"

definition file_view ::
  "TransferStatus \<Rightarrow> LiveObjectProgress option \<Rightarrow> bool \<Rightarrow> bool \<Rightarrow> TransferFileProgress \<Rightarrow> FileProgressView" where
  "file_view transfer_status live running paused file =
     (let active = (case live of Some p \<Rightarrow> if Some (lo_object_id p) = fp_object_id file then Some p else None
                    | None \<Rightarrow> None);
          confirmed = (case active of None \<Rightarrow> fp_object_confirmed_bytes file
                       | Some p \<Rightarrow> max (lo_confirmed_bytes p) (fp_object_confirmed_bytes file)) in
      \<lparr>fv_id = fp_id file, fv_relative_path = fp_relative_path file, fv_size = fp_size file,
       fv_status = file_progress_label (fp_status file) transfer_status (map_option lo_phase active) paused running,
       fv_packed = (fp_kind file = Some TransportObjectKind.Pack),
       fv_active = (active \<noteq> None \<and> running \<and> \<not> paused \<and> transfer_status = TransferStatus.Uploading
                      \<and> fp_status file \<noteq> FileStatus.Uploaded),
       fv_confirmed_bytes = confirmed,
       fv_sent_bytes = (case active of None \<Rightarrow> confirmed | Some p \<Rightarrow> max (lo_sent_bytes p) confirmed),
       fv_transport_bytes = (case Option.bind active lo_total_bytes of
          Some n \<Rightarrow> Some n | None \<Rightarrow> fp_object_transport_bytes file)\<rparr>)"

text \<open>The live progress is shown only while a worker has a control.\<close>

definition transfer_file_status ::
  "uuid controls \<Rightarrow> (uuid \<Rightarrow> LiveObjectProgress option) \<Rightarrow> uuid \<Rightarrow> u64
     \<Rightarrow> (store, CourierError + string, FileProgressView list \<times> TransferFileProgressPage) comp" where
  "transfer_file_status controls live_objects transfer_id offset =
     (let running = (ct_map controls transfer_id \<noteq> None);
          paused = (case ct_map controls transfer_id of None \<Rightarrow> False | Some n \<Rightarrow> ct_flags controls n);
          live = (if running then live_objects transfer_id else None) in
      bindE (map_errE Inl (get_transfer transfer_id)) (\<lambda>found.
      case found of
        None \<Rightarrow> fail (Inr ''Transfer not found'')
      | Some transfer \<Rightarrow>
          bindE (map_errE Inl (transfer_file_progress transfer_id offset 100 (map_option lo_object_id live))) (\<lambda>page.
            ok (map (file_view (t_status transfer) live running paused) (fpp_files page), page))))"

definition transfer_sizes :: "uuid \<Rightarrow> (store, CourierError + string, u64 \<times> u64 option) comp" where
  "transfer_sizes transfer_id =
     bindE (map_errE Inl (get_transfer transfer_id)) (\<lambda>found.
     case found of
       None \<Rightarrow> fail (Inr (''Transfer not found: '' @ uuid_to_string transfer_id))
     | Some transfer \<Rightarrow>
         bindE (map_errE Inl (transport_objects transfer_id)) (\<lambda>objects.
           ok (t_original_bytes transfer,
               if \<forall>object \<in> set objects. o_transport_bytes object \<noteq> None
               then Some (sum_list (List.map_filter o_transport_bytes objects)) else None)))"

end
