(* ===== verification/DesktopUpload.thy ===== *)
theory DesktopUpload
  imports DesktopState RegistryStore Transport
begin

text \<open>
  The desktop application's upload, \<^verbatim>\<open>apps/courier-desktop/src-tauri/src/lib.rs\<close>: preparing a
  transfer from a source, uploading it through the Registry, and removing transfers.

  The state is that of the upload engine, whose environment is the Registry client's state with the
  world in it and the disk of Courier's own directory. The user's files are read in the world;
  \<open>overlay\<close> is the process' view of both. What is not the program's is in \<open>desk_env\<close>: Zstandard and
  the serialisers, the network, the pause flag, \<^verbatim>\<open>active_registry_session\<close> and the URL checks,
  identifiers and the clock. Diagnostics and events for the user interface are not modelled.
\<close>

section \<open>The environment\<close>

text \<open>The error strings before they are formatted; \<open>DeskPanic\<close> is a panic, which unwinds the worker.\<close>

datatype DesktopError =
    DeskCourier CourierError
  | DeskRegistry RegistryError
  | DeskStore StoreError
  | DeskUpload UploadError
  | DeskStaging staging_error
  | DeskPlan PlanError
  | DeskMessage string
  | DeskPanic

type_synonym 'w desk_state = "'w client_state \<times> disk"
type_synonym ('w, 'a) desk_run = "('w desk_state world, DesktopError, 'a) comp"

record ('w, 'c, 'h) desk_env =
  dx_api :: api_text
  dx_codec :: "'c zstd_codec"
  dx_header :: header_json
  dx_hash :: "'h hash_lib"
  dx_sources :: "'w client_state fs_ops"
  dx_own :: "path \<Rightarrow> bool"
  dx_open :: "path \<Rightarrow> 'w client_state \<Rightarrow> (io_error + unit) \<times> 'w client_state"
  dx_canonicalize :: "path \<Rightarrow> 'w client_state \<Rightarrow> (io_error + path) \<times> 'w client_state"
  dx_draw :: "u64 \<Rightarrow> 'w client_state \<Rightarrow> u64 \<times> 'w client_state"
  dx_net :: "'w object_net"
  dx_pause :: "'w \<Rightarrow> bool \<times> 'w"
  dx_progress :: "uuid \<Rightarrow> u64 \<Rightarrow> 'w \<Rightarrow> 'w"
  dx_session :: "string \<Rightarrow> string \<Rightarrow> 'w client_state \<Rightarrow> (DesktopError + 'w RegistryClient) \<times> 'w client_state"
  dx_normalize :: "string \<Rightarrow> DesktopError + string"
  dx_default_url :: "DesktopError + string"
  dx_database :: path
  dx_now :: datetime
  dx_transfer_id :: uuid
  dx_file_id :: "nat \<Rightarrow> uuid"
  dx_object_id :: "nat \<Rightarrow> uuid"

definition desk_db :: "'a db \<Rightarrow> ('w, 'a) desk_run" where
  "desk_db m = map_errE DeskCourier (on_db m)"

definition on_client_state ::
  "('e \<Rightarrow> DesktopError) \<Rightarrow> ('w client_state \<Rightarrow> ('e + 'a) \<times> 'w client_state) \<Rightarrow> ('w, 'a) desk_run" where
  "on_client_state wrap op =
     map_errE wrap (\<lambda>s. case op (fst (w_env s)) of (r, c) \<Rightarrow> (r, s\<lparr>w_env := (c, snd (w_env s))\<rparr>))"

abbreviation desk_registry :: "('w client_state, RegistryError, 'a) comp \<Rightarrow> ('w, 'a) desk_run" where
  "desk_registry \<equiv> on_client_state DeskRegistry"

definition desk_staging :: "('w client_state, 'a) staging \<Rightarrow> ('w, 'a) desk_run" where
  "desk_staging m = map_errE DeskStaging (\<lambda>s.
     case m \<lparr>pw_sources = fst (w_env s), pw_disk = snd (w_env s), pw_limits = []\<rparr> of
       (r, p) \<Rightarrow> (r, s\<lparr>w_env := (pw_sources p, pw_disk p)\<rparr>))"

definition desk_disk :: "('e \<Rightarrow> DesktopError) \<Rightarrow> (disk, 'e, 'a) comp \<Rightarrow> ('w, 'a) desk_run" where
  "desk_disk wrap m = map_errE wrap (\<lambda>s.
     case m (snd (w_env s)) of (r, d) \<Rightarrow> (r, s\<lparr>w_env := (fst (w_env s), d)\<rparr>))"

definition or_panic :: "('s, DesktopError, 'a option) comp \<Rightarrow> ('s, DesktopError, 'a) comp" where
  "or_panic m = bindE m (\<lambda>r. case r of None \<Rightarrow> fail DeskPanic | Some x \<Rightarrow> ok x)"

text \<open>The Registry's store and the process' file system in the engine's environment.\<close>

definition lift_store :: "'s multipart_store \<Rightarrow> ('s \<times> disk) multipart_store" where
  "lift_store st =
     \<lparr>ms_begin = (\<lambda>key (c, d). case ms_begin st key c of (r, c') \<Rightarrow> (r, (c', d))),
       ms_list_parts = (\<lambda>session (c, d). case ms_list_parts st session c of (r, c') \<Rightarrow> (r, (c', d))),
       ms_upload_part = (\<lambda>session number bs (c, d). case ms_upload_part st session number bs c of (r, c') \<Rightarrow> (r, (c', d))),
       ms_complete = (\<lambda>session parts (c, d). case ms_complete st session parts c of (r, c') \<Rightarrow> (r, (c', d))),
       ms_object_exists = (\<lambda>key (c, d). case ms_object_exists st key c of (r, c') \<Rightarrow> (r, (c', d))),
       ms_abort = (\<lambda>session (c, d). case ms_abort st session c of (r, c') \<Rightarrow> (r, (c', d)))\<rparr>"

definition either_side ::
  "bool \<Rightarrow> ('s \<Rightarrow> 'r \<times> 's) \<Rightarrow> (disk \<Rightarrow> 'r \<times> disk) \<Rightarrow> 's \<times> disk \<Rightarrow> 'r \<times> ('s \<times> disk)" where
  "either_side own src dsk = (\<lambda>(c, d).
     if own then (case dsk d of (r, d') \<Rightarrow> (r, (c, d'))) else (case src c of (r, c') \<Rightarrow> (r, (c', d))))"

definition overlay :: "(path \<Rightarrow> bool) \<Rightarrow> 's fs_ops \<Rightarrow> ('s \<times> disk) fs_ops" where
  "overlay own fs =
     \<lparr>fs_exists = (\<lambda>p. either_side (own p) (fs_exists fs p) (fs_exists disk_fs p)),
      fs_is_file = (\<lambda>p. either_side (own p) (fs_is_file fs p) (fs_is_file disk_fs p)),
      fs_walk = (\<lambda>p. either_side (own p) (fs_walk fs p) (fs_walk disk_fs p)),
      fs_metadata = (\<lambda>p. either_side (own p) (fs_metadata fs p) (fs_metadata disk_fs p)),
      fs_reads = (\<lambda>p n. either_side (own p) (fs_reads fs p n) (fs_reads disk_fs p n)),
      fs_read_exact_at = (\<lambda>p off n. either_side (own p) (fs_read_exact_at fs p off n)
                                     (fs_read_exact_at disk_fs p off n))\<rparr>"

definition pause_requested :: "('w \<Rightarrow> bool \<times> 'w) \<Rightarrow> 'w desk_state \<Rightarrow> bool \<times> 'w desk_state" where
  "pause_requested pause = (\<lambda>(c, d). case pause (cs_world c) of (b, w) \<Rightarrow> (b, (c\<lparr>cs_world := w\<rparr>, d)))"

definition desk_runtime :: "('w, 'c, 'h) desk_env \<Rightarrow> 'w desk_state runtime" where
  "desk_runtime env =
     \<lparr>rt_should_pause = pause_requested (dx_pause env),
      rt_draw = (\<lambda>n (c, d). case dx_draw env n c of (x, c') \<Rightarrow> (x, (c', d))),
      rt_open = (\<lambda>p. either_side (dx_own env p) (dx_open env p) (open_existing p))\<rparr>"

section \<open>The Registry of a transfer\<close>

definition configured_registry_url :: "('w, 'c, 'h) desk_env \<Rightarrow> ('w, string) desk_run" where
  "configured_registry_url env =
     bindE (desk_db active_registry) (\<lambda>found.
       lift_res (case found of Some v \<Rightarrow> dx_normalize env v | None \<Rightarrow> dx_default_url env))"

definition transfer_url :: "('w, 'c, 'h) desk_env \<Rightarrow> uuid \<Rightarrow> ('w, string) desk_run" where
  "transfer_url env tid =
     bindE (desk_db (transfer_registry tid)) (\<lambda>found.
     case found of Some v \<Rightarrow> lift_res (dx_normalize env v) | None \<Rightarrow> configured_registry_url env)"

definition transfer_client :: "('w, 'c, 'h) desk_env \<Rightarrow> uuid \<Rightarrow> ('w, 'w RegistryClient) desk_run" where
  "transfer_client env tid =
     bindE (transfer_url env tid) (\<lambda>base_url.
     bindE (desk_db (transfer_registry_session tid)) (\<lambda>found.
     case found of
       None \<Rightarrow> fail (DeskMessage ''Transfer is not bound to a Registry invitation'')
     | Some session_id \<Rightarrow> on_client_state id (dx_session env session_id base_url)))"

section \<open>Preparing a transfer\<close>

fun plan_sources :: "FileRecord list \<Rightarrow> ('w, unit) desk_run" where
  "plan_sources [] = ok ()"
| "plan_sources (source # sources) =
     bindE (map_errE DeskPlan (lift_res (plan_parts (f_id source) (f_size source) default_limits))) (\<lambda>parts.
       thenE (desk_db (replace_part_plan (f_id source) parts)) (plan_sources sources))"

definition prepare_indexed :: "('w, 'c, 'h) desk_env \<Rightarrow> uuid \<Rightarrow> FileRecord list \<Rightarrow> ('w, Transfer) desk_run" where
  "prepare_indexed env tid files =
     thenE (desk_db (replace_inventory tid files))
     (case path_parent (dx_database env) of
        None \<Rightarrow> fail (DeskMessage ''Courier data directory is unavailable'')
      | Some cache_root \<Rightarrow>
          bindE (desk_staging (prepare_transport_plan_with_observer (dx_sources env) (dx_codec env) (dx_header env)
                   (dx_object_id env) tid files cache_root default_pack_options
                   (pack_cache_budget default_pack_options))) (\<lambda>plan.
          thenE (desk_db (replace_transport_plan tid (pl_objects plan) (pl_members plan)))
          (thenE (plan_sources (pl_upload_sources plan))
          (thenE (desk_db (transition tid TransferStatus.Ready))
          (bindE (desk_db (get_transfer tid)) (\<lambda>found.
           case found of
             None \<Rightarrow> fail (DeskMessage ''Inventory disappeared from local state'')
           | Some ready \<Rightarrow> ok ready))))))"

text \<open>The failed preparation of a transfer that is still inventorying is marked.\<close>

definition mark_failed :: "uuid \<Rightarrow> ('w, unit) desk_run" where
  "mark_failed tid =
     bindE (desk_db (get_transfer tid)) (\<lambda>found.
     case found of
       None \<Rightarrow> ok ()
     | Some current \<Rightarrow>
         if t_status current = TransferStatus.Inventorying
         then desk_db (transition tid TransferStatus.Failed) else ok ())"

definition create_inventory ::
  "('w, 'c, 'h) desk_env \<Rightarrow> path \<Rightarrow> string option \<Rightarrow> HashAlgorithm \<Rightarrow> ('w, Transfer) desk_run" where
  "create_inventory env source_path project_id hash_algorithm =
     bindE (on_client_state (\<lambda>e. DeskStaging (AtPath ''Could not open source'' source_path e))
              (dx_canonicalize env source_path)) (\<lambda>source.
     bindE (configured_registry_url env) (\<lambda>base_url.
     bindE (desk_db active_registry_session_id) (\<lambda>session.
     case session of
       None \<Rightarrow> fail (DeskMessage ''Enter a Registry invitation before preparing a transfer'')
     | Some session_id \<Rightarrow>
         let transfer = draft (dx_now env) (dx_transfer_id env) source project_id; tid = t_id transfer in
         thenE (desk_db (create_transfer transfer))
         (thenE (desk_db (bind_transfer_registry_session tid base_url session_id))
         (thenE (desk_db (transition tid TransferStatus.Inventorying))
         (bindE (tryE (bindE (on_client_state DeskCourier (inventory_transfer (dx_sources env) (dx_hash env)
                     (dx_file_id env) tid source (default_inventory_options\<lparr>io_hash_algorithm := hash_algorithm\<rparr>)))
                   (prepare_indexed env tid))) (\<lambda>result.
          case result of
            Inr ready \<Rightarrow> ok ready
          | Inl error \<Rightarrow> thenE (mark_failed tid) (fail error))))))))"

section \<open>Uploading a transfer\<close>

definition files_index :: "FileRecord list \<Rightarrow> uuid \<Rightarrow> FileRecord option" where
  "files_index files = map_of (rev (map (\<lambda>f. (f_id f, f)) files))"

definition dataset_name :: "Transfer \<Rightarrow> string" where
  "dataset_name transfer =
     (case path_file_name (t_source_root transfer) of None \<Rightarrow> ''dataset'' | Some name \<Rightarrow> name)"

definition default_hash_algorithm :: HashAlgorithm where
  "default_hash_algorithm = Sha256"

definition registered_id ::
  "'w RegistryClient \<Rightarrow> Transfer \<Rightarrow> string \<Rightarrow> FileRecord list \<Rightarrow> ('w, string) desk_run" where
  "registered_id client transfer project_code files =
     (case t_server_transfer_id transfer of
        Some i \<Rightarrow> ok i
      | None \<Rightarrow>
          bindE (or_panic (desk_registry (register_transfer client transfer project_code (dataset_name transfer)
                   (case files of [] \<Rightarrow> default_hash_algorithm | f # _ \<Rightarrow> f_hash_algorithm f)))) (\<lambda>registered.
          thenE (desk_db (bind_registry_transfer (t_id transfer) (rt_public_id registered)))
            (ok (rt_public_id registered))))"

text \<open>A transfer of an older Courier has no snapshot; it is rebuilt for the version the Registry reports.\<close>

definition registered_version :: "RegistryTransferStatus \<Rightarrow> DesktopError + string" where
  "registered_version remote_status =
     (case ts_courier_version remote_status of
        Some version \<Rightarrow> Inr version
      | None \<Rightarrow>
          if ts_manifest_sha256 remote_status = None then Inr courier_version
          else Inl (DeskMessage (''This Registry does not report the transfer's original Courier version. ''
                 @ ''Update the Registry before resuming this older transfer.'')))"

definition immutable_manifest ::
  "('w, 'c, 'h) desk_env \<Rightarrow> 'w RegistryClient \<Rightarrow> Transfer \<Rightarrow> string \<Rightarrow> string \<Rightarrow> FileRecord list
     \<Rightarrow> ManifestTransportPlan \<Rightarrow> ('w, string) desk_run" where
  "immutable_manifest env client transfer project_code server_id files plan =
     bindE (desk_db (manifest_snapshot (t_id transfer))) (\<lambda>found.
     case found of
       Some snapshot \<Rightarrow> ok snapshot
     | None \<Rightarrow>
         bindE (desk_registry (transfer_status client server_id)) (\<lambda>remote_status.
         bindE (lift_res (registered_version remote_status)) (\<lambda>version.
         bindE (map_errE DeskRegistry (lift_res (build_manifest_snapshot (dx_api env) transfer files plan
                  \<lparr>mc_server_transfer_id = server_id, mc_project_code = project_code,
                   mc_source_name = dataset_name transfer, mc_courier_version = version\<rparr>))) (\<lambda>candidate.
           desk_db (ensure_manifest_snapshot (t_id transfer) candidate)))))"

definition bind_objects :: "ManifestReceipt \<Rightarrow> TransportObjectRecord list \<Rightarrow> ('w, unit) desk_run" where
  "bind_objects receipt objects =
     for_each (\<lambda>local. case find (\<lambda>object. ro_id object = o_id local) (mr_transport_objects receipt) of
         None \<Rightarrow> fail (DeskMessage (''Registry omitted transport object '' @ uuid_to_string (o_id local)))
       | Some registered \<Rightarrow>
           desk_db (bind_registry_object (o_id local) (ro_id registered) (ro_object_key registered))) objects"

fun object_bindings :: "TransportObjectRecord list \<Rightarrow> ('w, RegistryObjectBinding list) desk_run" where
  "object_bindings [] = ok []"
| "object_bindings (object # objects) =
     bindE (desk_db (registry_object_binding (o_id object))) (\<lambda>found.
     case found of
       None \<Rightarrow> fail (DeskMessage (''Registry binding missing for '' @ uuid_to_string (o_id object)))
     | Some (server_object_id, key) \<Rightarrow>
         bindE (object_bindings objects) (\<lambda>rest.
           ok (\<lparr>rb_server_object_id = server_object_id, rb_object_key = key\<rparr> # rest)))"

text \<open>What is uploaded for an object: the file itself, or its pack, the only one kept in the cache.\<close>

definition object_source ::
  "('w, 'c, 'h) desk_env \<Rightarrow> TransportObjectRecord list \<Rightarrow> (uuid \<Rightarrow> FileRecord option)
     \<Rightarrow> TransportObjectRecord \<Rightarrow> TransportMemberRecord list \<Rightarrow> ('w, FileRecord) desk_run" where
  "object_source env objects files_by_id object object_members =
     (case o_kind object of
        TransportObjectKind.File \<Rightarrow>
          (case object_members of
             [] \<Rightarrow> fail (DeskMessage (''Transport object '' @ uuid_to_string (o_id object) @ '' has no member''))
           | member # _ \<Rightarrow>
               (case files_by_id (m_file_id member) of
                  None \<Rightarrow> fail (DeskMessage (''Transport object '' @ uuid_to_string (o_id object)
                                 @ '' references a missing file''))
                | Some file \<Rightarrow> ok file))
      | TransportObjectKind.Pack \<Rightarrow>
          thenE (desk_staging (remove_cached_packs_except objects (o_id object)))
            (desk_staging (pack_upload_source (dx_sources env) (dx_codec env) (dx_header env) object
               object_members files_by_id default_pack_options (pack_cache_budget default_pack_options))))"

definition remove_uploaded_pack :: "TransportObjectRecord \<Rightarrow> ('w, unit) desk_run" where
  "remove_uploaded_pack object =
     (case (o_kind object, o_cache_path object) of
        (TransportObjectKind.Pack, Some p) \<Rightarrow>
          desk_disk (DeskStaging \<circ> AtPath ''Could not remove uploaded Courier pack'' p) (remove_file p)
      | _ \<Rightarrow> ok ())"

text \<open>
  The observers of \<open>dx_progress\<close> act on the user interface only; both the engine's observer and
  the store load the worker's pause flag.
\<close>

definition upload_object ::
  "('w, 'c, 'h) desk_env \<Rightarrow> 'w RegistryMultipartStore \<Rightarrow> TransportObjectRecord list
     \<Rightarrow> (uuid \<Rightarrow> FileRecord option) \<Rightarrow> TransportObjectRecord \<Rightarrow> TransportMemberRecord list
     \<Rightarrow> ('w, unit) desk_run" where
  "upload_object env remote objects files_by_id object object_members =
     bindE (object_source env objects files_by_id object object_members) (\<lambda>source.
     bindE (map_errE DeskStore (lift_res (set_part_progress_observer (Some (dx_progress env (o_id object))) remote)))
       (\<lambda>watched.
     thenE (or_panic (map_errE DeskUpload (upload_missing_parts_observed
              (overlay (dx_own env) (dx_sources env)) (lift_store (registry_store watched)) (desk_runtime env)
              source default_retry_policy)))
     (bindE (map_errE DeskStore (lift_res (set_part_progress_observer None watched))) (\<lambda>quieted.
      bindE (on_world (rt_should_pause (desk_runtime env))) (\<lambda>paused.
      if paused then fail (DeskUpload UploadPaused)
      else
        thenE (or_panic (map_errE DeskUpload (complete_uploaded_file (lift_store (registry_store quieted))
                 (desk_runtime env) source default_retry_policy)))
        (thenE (for_each (\<lambda>member. desk_db (mark_file_uploaded (m_file_id member))) object_members)
          (remove_uploaded_pack object)))))))"

definition members_uploaded :: "(uuid \<Rightarrow> FileRecord option) \<Rightarrow> TransportMemberRecord list \<Rightarrow> bool" where
  "members_uploaded files_by_id object_members =
     list_all (\<lambda>member. case files_by_id (m_file_id member) of
         None \<Rightarrow> False | Some file \<Rightarrow> f_status file = FileStatus.Uploaded) object_members"

definition members_of :: "TransportObjectRecord \<Rightarrow> TransportMemberRecord list \<Rightarrow> TransportMemberRecord list" where
  "members_of object members = filter (\<lambda>member. m_object_id member = o_id object) members"

text \<open>The counter of confirmed bytes: a skipped object is added with wrap-around, an uploaded one saturates.\<close>

fun upload_objects ::
  "('w, 'c, 'h) desk_env \<Rightarrow> 'w RegistryMultipartStore \<Rightarrow> TransportObjectRecord list
     \<Rightarrow> (uuid \<Rightarrow> FileRecord option) \<Rightarrow> TransportMemberRecord list \<Rightarrow> TransportObjectRecord list \<Rightarrow> u64
     \<Rightarrow> ('w, u64) desk_run" where
  "upload_objects env remote objects files_by_id members [] confirmed = ok confirmed"
| "upload_objects env remote objects files_by_id members (object # rest) confirmed =
     (if members_uploaded files_by_id (members_of object members)
      then upload_objects env remote objects files_by_id members rest (confirmed + o_original_bytes object)
      else thenE (upload_object env remote objects files_by_id object (members_of object members))
             (upload_objects env remote objects files_by_id members rest
                (saturating_add confirmed (o_original_bytes object))))"

text \<open>The registration, the immutable manifest and the objects' bindings, before any object is uploaded.\<close>

definition open_remote ::
  "('w, 'c, 'h) desk_env \<Rightarrow> Transfer \<Rightarrow> FileRecord list \<Rightarrow> TransportObjectRecord list
     \<Rightarrow> TransportMemberRecord list \<Rightarrow> ('w, 'w RegistryMultipartStore) desk_run" where
  "open_remote env transfer files objects members =
     bindE (transfer_client env (t_id transfer)) (\<lambda>client.
     case t_project_id transfer of
       None \<Rightarrow> fail (DeskMessage ''Transfer has no Registry project'')
     | Some project_code \<Rightarrow>
         bindE (registered_id client transfer project_code files) (\<lambda>server_id.
         bindE (immutable_manifest env client transfer project_code server_id files
                  \<lparr>mp_objects = objects, mp_members = members\<rparr>) (\<lambda>snapshot.
         bindE (or_panic (desk_registry (submit_manifest client server_id snapshot))) (\<lambda>receipt.
         thenE (bind_objects receipt objects)
         (bindE (object_bindings objects) (\<lambda>bindings.
          map_errE DeskStore (lift_res (set_pause_flag (Some (dx_pause env))
            (new_store (dx_net env) client server_id bindings)))))))))"

definition upload_transfer ::
  "('w, 'c, 'h) desk_env \<Rightarrow> Transfer \<Rightarrow> FileRecord list \<Rightarrow> TransportObjectRecord list
     \<Rightarrow> TransportMemberRecord list \<Rightarrow> ('w, unit) desk_run" where
  "upload_transfer env transfer files objects members =
     bindE (open_remote env transfer files objects members) (\<lambda>remote.
     thenE (upload_objects env remote objects (files_index files) members objects 0)
     (thenE (or_panic (desk_registry (finalize_transfer (rm_client remote) (rm_server_transfer_id remote))))
       (ok ())))"

text \<open>The comparison of an error's text with \<^verbatim>\<open>upload paused\<close>.\<close>

definition says_paused :: "DesktopError \<Rightarrow> bool" where
  "says_paused error =
     (case error of
        DeskUpload UploadPaused \<Rightarrow> True
      | DeskUpload (Remote e) \<Rightarrow> store_error_to_string e = ''upload paused''
      | DeskUpload (Reconcile (RemoteReconcile e)) \<Rightarrow> store_error_to_string e = ''upload paused''
      | DeskStore e \<Rightarrow> store_error_to_string e = ''upload paused''
      | DeskStaging (Displayed (IoError _ m)) \<Rightarrow> m = ''upload paused''
      | DeskStaging (Failure m) \<Rightarrow> m = ''upload paused''
      | DeskMessage m \<Rightarrow> m = ''upload paused''
      | _ \<Rightarrow> False)"

definition reread_transfer :: "uuid \<Rightarrow> ('w, Transfer) desk_run" where
  "reread_transfer tid =
     bindE (desk_db (get_transfer tid)) (\<lambda>found.
     case found of
       None \<Rightarrow> fail (DeskMessage ''Transfer disappeared from local state'')
     | Some transfer \<Rightarrow> ok transfer)"

text \<open>A panic unwinds the worker before the status is written.\<close>

definition finish_upload :: "uuid \<Rightarrow> DesktopError + unit \<Rightarrow> ('w, Transfer) desk_run" where
  "finish_upload tid result =
     (case result of
        Inr _ \<Rightarrow> thenE (desk_db (transition tid TransferStatus.Finalizing)) (reread_transfer tid)
      | Inl DeskPanic \<Rightarrow> fail DeskPanic
      | Inl error \<Rightarrow>
          if says_paused error
          then thenE (desk_db (transition tid TransferStatus.Paused)) (reread_transfer tid)
          else thenE (desk_db (transition tid TransferStatus.Interrupted)) (fail error))"

definition enter_uploading :: "Transfer \<Rightarrow> ('w, unit) desk_run" where
  "enter_uploading transfer =
     (case t_status transfer of
        TransferStatus.Ready \<Rightarrow> desk_db (transition (t_id transfer) TransferStatus.Uploading)
      | TransferStatus.Paused \<Rightarrow> desk_db (transition (t_id transfer) TransferStatus.Uploading)
      | TransferStatus.Interrupted \<Rightarrow> desk_db (transition (t_id transfer) TransferStatus.Uploading)
      | TransferStatus.Uploading \<Rightarrow> ok ()
      | status \<Rightarrow> fail (DeskMessage (''Cannot upload a transfer in state '' @ transfer_status_fmt status)))"

definition upload_planned :: "('w, 'c, 'h) desk_env \<Rightarrow> Transfer \<Rightarrow> ('w, Transfer) desk_run" where
  "upload_planned env transfer =
     bindE (desk_db (files_for_transfer (t_id transfer))) (\<lambda>files.
     bindE (desk_db (transport_objects (t_id transfer))) (\<lambda>objects.
     bindE (desk_db (transport_members (t_id transfer))) (\<lambda>members.
     if files \<noteq> [] \<and> objects = []
     then fail (DeskMessage ''This transfer has no v3 transport plan; create a new transfer'')
     else bindE (tryE (upload_transfer env transfer files objects members)) (finish_upload (t_id transfer)))))"

definition run_upload :: "('w, 'c, 'h) desk_env \<Rightarrow> uuid \<Rightarrow> ('w, Transfer) desk_run" where
  "run_upload env tid =
     bindE (desk_db (get_transfer tid)) (\<lambda>found.
     case found of
       None \<Rightarrow> fail (DeskMessage (''Transfer not found: '' @ uuid_to_string tid))
     | Some transfer \<Rightarrow>
         if t_manifest_version transfer \<noteq> 3
         then fail (DeskMessage ''This transfer uses an unsupported legacy manifest; create a new transfer'')
         else thenE (enter_uploading transfer) (upload_planned env transfer))"

end
