(* ===== verification/UploadFrame.thy ===== *)
theory UploadFrame
  imports UploadBehaviour
begin

text \<open>
  What the upload engine leaves alone: a predicate of the database and the trace that each statement
  of the engine keeps is kept by its runs, whatever the store answers. The instances are the schema's
  constraints, the replay of the outbox, a transfer's status, a file marked uploaded, and the trace so far.
  The engine also never reads its trace, so a run's own events can be told from the earlier ones.
\<close>

section \<open>Predicates the engine keeps\<close>

locale engine_kept =
  fixes P :: "tables \<Rightarrow> upload_event list \<Rightarrow> bool"
  assumes stable: "stable P"
    and event: "kind \<notin> state_kinds \<Longrightarrow> tables_keep (\<lambda>t. P t tr) (record_transfer_event tid kind d)"
    and session: "tables_keep (\<lambda>t. P t tr) (set_upload_session i k u)"
    and confirmed: "tables_keep (\<lambda>t. P t tr) (confirm_part i n e c l)"
    and failed: "tables_keep (\<lambda>t. P t tr) (record_part_failure i n m)"
    and reconciled: "tables_keep (\<lambda>t. P t tr) (reconcile_remote_parts i ps)"
    and replanned: "tables_keep (\<lambda>t. P t tr) (replace_part_plan i parts)"
    and marked: "tables_keep (\<lambda>t. P t tr) (mark_file_uploaded i)"
begin

lemma reads:
  "tables_keep (\<lambda>t. P t tr) (upload_session i)" "tables_keep (\<lambda>t. P t tr) (object_key i)"
  "tables_keep (\<lambda>t. P t tr) (parts_for_file i)"
  unfolding upload_session_def object_key_def parts_for_file_def has_transport_object_def Let_def
  by (intro keeps_intros)+

lemmas steps = keeps_on_world keeps_on_files keeps_on_source_check keeps_note [OF stable]
  keeps_sleep [OF stable] keeps_on_remote [OF stable] keeps_db [OF session] keeps_db [OF confirmed]
  keeps_db [OF failed] keeps_db [OF reconciled] keeps_db [OF replanned] keeps_db [OF marked]
  keeps_db [OF reads(1)] keeps_db [OF reads(2)] keeps_db [OF reads(3)]

lemma noted: "kind \<notin> state_kinds \<Longrightarrow> keeps (db_trace P) (on_db (record_transfer_event tid kind d))"
  by (rule keeps_db) (rule event)

lemma kinds:
  "''part.attempt_failed'' \<notin> state_kinds" "''object.reconciliation_retry'' \<notin> state_kinds"
  "''object.completion_retry'' \<notin> state_kinds" "''object.upload_started'' \<notin> state_kinds"
  "''object.upload_succeeded'' \<notin> state_kinds" "''object.upload_paused'' \<notin> state_kinds"
  "''object.upload_failed'' \<notin> state_kinds" "''object.completed'' \<notin> state_kinds"
  "''object.completion_failed'' \<notin> state_kinds"
  by (simp_all add: state_kinds_def)

lemmas noted_kinds = noted [OF kinds(1)] noted [OF kinds(2)] noted [OF kinds(3)] noted [OF kinds(4)]
  noted [OF kinds(5)] noted [OF kinds(6)] noted [OF kinds(7)] noted [OF kinds(8)] noted [OF kinds(9)]

lemma part_attempts_keeps: "keeps (db_trace P) (part_attempts st rt file retry session p bs le ats)"
  by (induction ats arbitrary: le)
    (auto simp: upload_part_def intro!: keeps_intros steps noted_kinds split: sum.splits)

lemma upload_parts_keeps: "keeps (db_trace P) (upload_parts_loop fs st rt file retry session n ps)"
  by (induction ps arbitrary: n)
    (auto simp: upload_one_part_def intro!: keeps_intros steps part_attempts_keeps split: option.splits)

lemma reconcile_file_keeps: "keeps (db_trace P) (reconcile_file st file)"
  unfolding reconcile_file_def open_session_def begin_upload_def list_parts_def Let_def
  by (auto intro!: keeps_intros steps split: option.splits)

lemma reconcile_keeps: "keeps (db_trace P) (reconcile_with_retry st rt file retry)"
proof -
  have "keeps (db_trace P) (reconcile_attempts st rt file retry ats)" for ats
    by (induction ats)
      (auto intro!: keeps_intros steps noted_kinds reconcile_file_keeps split: sum.splits ReconcileError.splits)
  then show ?thesis by (simp add: reconcile_with_retry_def)
qed

lemma inner_keeps: "keeps (db_trace P) (upload_missing_parts_inner fs st rt file retry)"
  unfolding upload_missing_parts_inner_def already_uploaded_def revise_plan_def object_exists_def
  by (auto intro!: keeps_intros steps reconcile_keeps upload_parts_keeps split: option.splits)

lemma upload_keeps: "keeps (db_trace P) (upload_missing_parts_observed fs st rt file retry)"
  unfolding upload_missing_parts_observed_def finish_event_def
  by (auto intro!: keeps_intros noted_kinds inner_keeps split: sum.splits UploadError.splits)

lemma complete_attempts_keeps:
  "keeps (db_trace P) (complete_attempts st rt file retry session parts le ats)"
  by (induction ats arbitrary: le)
    (auto simp: complete_upload_def object_exists_def intro!: keeps_intros steps noted_kinds split: sum.splits)

lemma complete_keeps: "keeps (db_trace P) (complete_uploaded_file st rt file retry)"
  unfolding complete_uploaded_file_def complete_uploaded_file_inner_def finish_event_def object_exists_def Let_def
  by (auto intro!: keeps_intros steps noted_kinds complete_attempts_keeps split: sum.splits option.splits)

end

section \<open>The instances\<close>

text \<open>Whatever every table statement keeps, the engine keeps when its events are kept too.\<close>

locale kept_events = kept_predicate +
  assumes event_kept: "kind \<notin> state_kinds \<Longrightarrow> tables_keep I (record_transfer_event tid kind d)"

sublocale kept_events < engine: engine_kept "\<lambda>t _. I t"
proof unfold_locales
  show "stable (\<lambda>t _. I t)" by (simp add: stable_def)
  show "tables_keep I (mark_file_uploaded i)" for i
    unfolding mark_file_uploaded_def by (rule update_files_keeps) simp
qed (rule event_kept set_upload_session_keeps confirm_part_keeps record_part_failure_keeps
    reconcile_remote_parts_keeps replace_part_plan_keeps; assumption?)+

lemma constraints_event: "tables_keep constraints (record_transfer_event tid kind d)"
  unfolding record_transfer_event_def by (rule keeps_execute) simp

lemma status_event: "tables_keep (status_is i st) (record_transfer_event tid kind d)"
  unfolding record_transfer_event_def by (rule keeps_execute) (auto simp: status_is_def)

interpretation constraints_events: kept_events constraints
  by unfold_locales (rule constraints_event)

interpretation status_events: kept_events "status_is tid st" for tid st
  by unfold_locales (rule status_event)

interpretation outbox_events: kept_events outbox_ok
  by unfold_locales (rule outbox_record_event)

text \<open>A file once marked stays marked; the statement of a part never touches a file's status.\<close>

definition uploaded_in :: "uuid \<Rightarrow> tables \<Rightarrow> bool" where
  "uploaded_in i t \<longleftrightarrow> (\<forall>r \<in> set (tb_files t). f_id r = i \<longrightarrow> f_status r = FileStatus.Uploaded)"


lemma uploaded_same_files: "tb_files t' = tb_files t \<Longrightarrow> uploaded_in i t \<Longrightarrow> uploaded_in i t'"
  by (simp add: uploaded_in_def)

lemma uploaded_update:
  "uploaded_in i t \<Longrightarrow> (\<And>r. f_id (f r) = f_id r) \<Longrightarrow> (\<And>r. f_status r = FileStatus.Uploaded \<Longrightarrow> f_status (f r) = FileStatus.Uploaded)
     \<Longrightarrow> uploaded_in i (t\<lparr>tb_files := update_where Q f (tb_files t)\<rparr>)"
  unfolding uploaded_in_def by (auto dest!: set_update_where)

lemma uploaded_update_files:
  "(\<And>r. f_id (f r) = f_id r) \<Longrightarrow> (\<And>r. f_status r = FileStatus.Uploaded \<Longrightarrow> f_status (f r) = FileStatus.Uploaded)
     \<Longrightarrow> tables_keep (uploaded_in i) (update_files j f)"
  unfolding update_files_def by (rule keeps_execute) (auto intro: uploaded_update)

lemma uploaded_update_objects: "tables_keep (uploaded_in i) (update_objects j f)"
  unfolding update_objects_def by (rule keeps_execute) (auto elim: uploaded_same_files [rotated])

lemma uploaded_refresh: "tables_keep (uploaded_in i) (execute (\<lambda>_ _ t. refresh_stmt j t))"
  by (rule keeps_execute) (auto simp: refresh_stmt_def intro: uploaded_update split: if_splits)

lemma update_parts_files:
  "pt \<in> {file_parts, object_parts} \<Longrightarrow> update_parts pt Q f triggers fresh t = Inr (u, t') \<Longrightarrow> tb_files t' = tb_files t"
  by (auto simp: update_parts_def)

lemma uploaded_statements:
  assumes "pt \<in> {file_parts, object_parts}"
  shows "tables_keep (uploaded_in i) (execute (confirm_stmt pt j n e c l))"
    "tables_keep (uploaded_in i) (execute (fail_stmt pt j n m))"
    "tables_keep (uploaded_in i) (execute (reset_stmt pt j))"
    "tables_keep (uploaded_in i) (execute (restore_stmt pt j p))"
    "tables_keep (uploaded_in i) (delete_parts pt j)"
    "tables_keep (uploaded_in i) (insert_part pt q)"
proof -
  note * = update_parts_files [OF assms] and same = uploaded_same_files [rotated]
  show "tables_keep (uploaded_in i) (execute (confirm_stmt pt j n e c l))"
    by (rule keeps_execute) (auto simp: confirm_stmt_def dest!: * elim: same split: if_splits)
  show "tables_keep (uploaded_in i) (execute (fail_stmt pt j n m))"
    by (rule keeps_execute) (auto simp: fail_stmt_def dest!: * elim: same)
  show "tables_keep (uploaded_in i) (execute (reset_stmt pt j))"
    by (rule keeps_execute) (auto simp: reset_stmt_def dest!: * elim: same)
  show "tables_keep (uploaded_in i) (execute (restore_stmt pt j p))"
    by (rule keeps_execute) (auto simp: restore_stmt_def dest!: * elim: same split: prod.splits)
  show "tables_keep (uploaded_in i) (delete_parts pt j)"
    unfolding delete_parts_def by (rule keeps_execute) (use assms in \<open>auto elim: same\<close>)
  show "tables_keep (uploaded_in i) (insert_part pt q)"
    unfolding insert_part_def by (rule keeps_execute) (use assms in \<open>auto elim: same split: if_splits\<close>)
qed

lemma table_of: "(if b then object_parts else file_parts) \<in> {file_parts, object_parts}"
  by simp

interpretation uploaded_kept: engine_kept "\<lambda>t _. uploaded_in i t" for i
proof unfold_locales
  show "stable (\<lambda>t _. uploaded_in i t)" by (simp add: stable_def)
  show "tables_keep (uploaded_in i) (record_transfer_event tid kind d)" for tid kind d
    unfolding record_transfer_event_def by (rule keeps_execute) (auto elim: uploaded_same_files [rotated])
  show "tables_keep (uploaded_in i) (set_upload_session j k u)" for j k u
    unfolding set_upload_session_def has_transport_object_def
    by (intro keeps_intros) (auto intro!: uploaded_update_files uploaded_update_objects)
  show "tables_keep (uploaded_in i) (confirm_part j n e c l)" for j n e c l
    unfolding confirm_part_def has_transport_object_def refresh_file_progress_def
    by (intro keeps_intros) (auto intro!: keeps_intros uploaded_statements uploaded_refresh)
  show "tables_keep (uploaded_in i) (record_part_failure j n m)" for j n m
    unfolding record_part_failure_def has_transport_object_def
    by (intro keeps_intros) (auto intro!: uploaded_statements)
  show "tables_keep (uploaded_in i) (reconcile_remote_parts j ps)" for j ps
    unfolding reconcile_remote_parts_def Let_def refresh_file_progress_def
    by (intro keeps_intros uploaded_statements table_of) (auto intro!: keeps_intros uploaded_refresh)
  show "tables_keep (uploaded_in i) (replace_part_plan j parts)" for j parts
    unfolding replace_part_plan_def
    by (intro keeps_intros) (auto intro!: keeps_intros uploaded_statements uploaded_refresh)
  show "tables_keep (uploaded_in i) (mark_file_uploaded j)" for j
    unfolding mark_file_uploaded_def by (rule uploaded_update_files) simp_all
qed

lemma marked_uploaded:
  "mark_file_uploaded i s = (Inr u, s') \<Longrightarrow> uploaded_in i (st_tables s')"
  by (auto simp: mark_file_uploaded_def update_files_def comp_simps uploaded_in_def dest!: set_update_where split: if_splits)

text \<open>The trace only grows.\<close>

definition grown :: "upload_event list \<Rightarrow> upload_event list \<Rightarrow> bool" where
  "grown tr0 tr \<longleftrightarrow> (\<exists>new. tr = tr0 @ new)"

lemma keeps_const: "keeps (\<lambda>_. b) m"
  by (simp add: keeps_def)

interpretation trace_kept: engine_kept "\<lambda>_ tr. grown tr0 tr" for tr0
  by unfold_locales (auto simp: stable_def grown_def intro: keeps_const)

section \<open>The trace is only written\<close>

text \<open>A run from a longer trace is the same run with the earlier events in front.\<close>

definition earlier :: "upload_event list \<Rightarrow> 'w world \<Rightarrow> 'w world" where
  "earlier tr s = s\<lparr>w_trace := tr @ w_trace s\<rparr>"

definition blind :: "('w, 'e, 'a) run \<Rightarrow> bool" where
  "blind m \<longleftrightarrow> (\<forall>tr s r s'. m s = (r, s') \<longrightarrow> m (earlier tr s) = (r, earlier tr s'))"

named_theorems blind_intros

lemma blindI: "(\<And>tr s r s'. m s = (r, s') \<Longrightarrow> m (earlier tr s) = (r, earlier tr s')) \<Longrightarrow> blind m"
  by (auto simp: blind_def)

lemma blind_pure [blind_intros]: "blind (ok x)" "blind (fail e)" "blind (lift_res r)"
  by (auto simp: blind_def comp_simps)

lemma blind_bindE [blind_intros]:
  assumes "blind m" and "\<And>x. blind (f x)" shows "blind (bindE m f)"
proof (rule blindI)
  fix tr s r s' assume "bindE m f s = (r, s')"
  then consider (error) e where "m s = (Inl e, s')" "r = Inl e"
    | (done_with) x t where "m s = (Inr x, t)" "f x t = (r, s')"
    by (auto simp: bindE_def split: prod.splits sum.splits)
  then show "bindE m f (earlier tr s) = (r, earlier tr s')"
  proof cases
    case error
    then have "m (earlier tr s) = (Inl e, earlier tr s')" using assms(1) by (simp add: blind_def)
    then show ?thesis using error by (simp add: bindE_def)
  next
    case done_with
    then have "m (earlier tr s) = (Inr x, earlier tr t)" "f x (earlier tr t) = (r, earlier tr s')"
      using assms unfolding blind_def by blast+
    then show ?thesis by (simp add: bindE_def)
  qed
qed

lemma blind_thenE [blind_intros]: "blind m \<Longrightarrow> blind k \<Longrightarrow> blind (thenE m k)"
  unfolding thenE_def by (intro blind_intros)

lemma blind_map_errE [blind_intros]: "blind m \<Longrightarrow> blind (map_errE g m)"
  unfolding blind_def map_errE_def by (fastforce split: prod.splits sum.splits)

lemma blind_tryE [blind_intros]: "blind m \<Longrightarrow> blind (tryE m)"
  unfolding blind_def tryE_def by (fastforce split: prod.splits)

lemma blind_if [blind_intros]: "(b \<Longrightarrow> blind m) \<Longrightarrow> (\<not> b \<Longrightarrow> blind k) \<Longrightarrow> blind (if b then m else k)"
  by simp

lemma blind_db [blind_intros]: "blind (on_db m)"
  by (rule blindI) (auto simp: earlier_def on_db_def split: prod.splits)

lemma blind_world [blind_intros]: "blind (on_world m)"
  by (rule blindI) (auto simp: earlier_def on_world_def split: prod.splits)

lemma blind_remote [blind_intros]: "blind (on_remote m event)"
  by (rule blindI) (auto simp: earlier_def on_remote_def split: prod.splits)

lemma blind_note [blind_intros]: "blind (note_event ev)"
  by (rule blindI) (auto simp: earlier_def comp_simps)

lemma complete_attempts_blind: "blind (complete_attempts st rt file retry session parts le ats)"
  by (induction ats arbitrary: le)
    (auto simp: complete_upload_def object_exists_def sleep_delay_def intro!: blind_intros split: sum.splits)

lemma complete_inner_blind: "blind (complete_uploaded_file_inner st rt file retry)"
  unfolding complete_uploaded_file_inner_def object_exists_def Let_def
  by (auto intro!: blind_intros complete_attempts_blind split: sum.splits option.splits)

text \<open>So a completion leaves an acknowledgement among its own events.\<close>

definition acknowledges :: "upload_event \<Rightarrow> bool" where
  "acknowledges ev \<longleftrightarrow> (\<exists>session parts. ev = Completing session parts (Inr ())) \<or> (\<exists>key. ev = Exists key (Inr True))"

lemma witnessed_acknowledges: "outcome_witnessed outcome tr \<Longrightarrow> filter acknowledges tr \<noteq> []"
  by (cases outcome)
    (auto simp: outcome_witnessed_def object_completed_def object_found_def acknowledges_def filter_empty_conv)

lemma complete_adds_acknowledgement:
  assumes "complete_uploaded_file st rt file retry s = (Inr r, s')"
  shows "\<exists>new. w_trace s' = w_trace s @ new \<and> 1 \<le> length (filter acknowledges new)"
proof -
  let ?s0 = "s\<lparr>w_trace := []\<rparr>"
  obtain s1 where inner: "complete_uploaded_file_inner st rt file retry s = (Inr r, s1)"
    and last: "w_trace s' = w_trace s1"
    using assms by (auto simp: complete_uploaded_file_def finish_event_def comp_simps split: sum.splits)
  obtain r0 s2 where run: "complete_uploaded_file_inner st rt file retry ?s0 = (r0, s2)" by force
  have "complete_uploaded_file_inner st rt file retry (earlier (w_trace s) ?s0) = (r0, earlier (w_trace s) s2)"
    using complete_inner_blind run unfolding blind_def by blast
  moreover have "earlier (w_trace s) ?s0 = s" by (simp add: earlier_def)
  ultimately have eq: "r0 = Inr r" "s1 = earlier (w_trace s) s2" using inner by simp_all
  obtain outcome where "outcome_witnessed outcome (w_trace s2)"
    using hoare_Inr [OF complete_inner_outcome _ run [unfolded eq(1)]] by auto
  then have "filter acknowledges (w_trace s2) \<noteq> []" by (rule witnessed_acknowledges)
  then have "1 \<le> length (filter acknowledges (w_trace s2))" by (cases "filter acknowledges (w_trace s2)") simp_all
  moreover have "w_trace s' = w_trace s @ w_trace s2" using eq last by (simp add: earlier_def)
  ultimately show ?thesis by blast
qed

end
