(* ===== verification/DesktopUploadBehaviour.thy ===== *)
theory DesktopUploadBehaviour
  imports DesktopUpload UploadFrame
begin

text \<open>
  How the desktop upload's steps act on the transfer: what they keep of the database, that an object's
  upload marks its members and adds an acknowledgement of its completion, and that a finalized upload was
  answered by the Registry.
\<close>

section \<open>A Registry call that returns was answered\<close>

text \<open>Some request to this address was answered with a success.\<close>

definition answered :: "string \<Rightarrow> client_event list \<Rightarrow> bool" where
  "answered url tr \<longleftrightarrow>
     (\<exists>request response. Sent request (Inr response) \<in> set tr \<and> rq_url request = url \<and> is_success (hr_status response))"

lemma send_request_answer:
  "send_request self request s = (Inr (Inr response), s') \<Longrightarrow> Sent request (Inr response) \<in> set (cs_trace s')"
  by (auto simp: send_request_def split: prod.splits)

lemma bearer_url: "replace_bearer_auth request token = Inr again \<Longrightarrow> rq_url again = rq_url request"
  by (auto simp: replace_bearer_auth_def Let_def split: if_splits)

lemma clone_url: "try_clone request = Some again \<Longrightarrow> again = request"
  by (auto simp: try_clone_def split: if_splits)

lemma refresh_and_replay_answer:
  assumes "refresh_and_replay self observer retry response0 s = (Inr response, s')"
  shows "\<exists>request. Sent request (Inr response) \<in> set (cs_trace s') \<and> rq_url request = rq_url retry"
proof -
  have unit_case: "(case r of Inl m \<Rightarrow> f m | Inr u \<Rightarrow> k) t = (Inr response, s') \<Longrightarrow> (\<forall>m t. f m t \<noteq> (Inr response, s'))
      \<Longrightarrow> k t = (Inr response, s')" for r :: "string + unit" and f k and t :: "'a client_state"
    by (cases r) simp_all
  obtain token t where "send_again self retry token t = (Inr response, s')"
    using assms by (auto simp: refresh_and_replay_def comp_simps dest!: unit_case split: option.splits)
  then obtain again answer t' where bearer: "replace_bearer_auth retry token = Inr again"
    and sent: "send_request self again t = (Inr answer, t')"
    by (auto simp: send_again_def comp_simps)
  moreover from this have "answer = Inr response" "t' = s'"
    using \<open>send_again self retry token t = (Inr response, s')\<close>
    by (cases answer; auto simp: send_again_def comp_simps)+
  ultimately show ?thesis using send_request_answer bearer_url by metis
qed

lemma send_json_answered:
  assumes "send_json self dec request s = (Inr x, s')"
  shows "answered (rq_url request) (cs_trace s')"
proof -
  let ?again = "\<lambda>auth first. case (auth, rc_observer self, try_clone request) of
         (Some _, Some observer, Some r) \<Rightarrow>
           if hr_status first = 401 then refresh_and_replay self observer r first else ok first
       | _ \<Rightarrow> ok first"
  obtain first t1 response where sent: "send_request self request s = (Inr (Inr first), t1)"
    and again: "?again (cs_auth t1) first t1 = (Inr response, s')" and success: "is_success (hr_status response)"
  proof -
    obtain answer t1 where sent: "send_request self request s = (Inr answer, t1)"
      using assms by (auto simp: send_json_def Let_def comp_simps)
    show thesis
      using assms sent that by (cases answer) (auto simp: send_json_def Let_def comp_simps split: if_splits)
  qed
  have "\<exists>request'. Sent request' (Inr response) \<in> set (cs_trace s') \<and> rq_url request' = rq_url request"
    using again sent
    by (auto simp: comp_simps split: option.splits if_splits dest: send_request_answer clone_url
        dest!: refresh_and_replay_answer)
  then show ?thesis using success unfolding answered_def by blast
qed

lemma attempts_answered:
  "upload_json_attempts self dec request policy ats s = (Inr (Some x), s') \<Longrightarrow> answered (rq_url request) (cs_trace s')"
proof (induction ats arbitrary: s)
  case (Cons a ats)
  then obtain clone again t1 r t2 where clone: "try_clone request = Some clone"
    and bearer: "current_bearer clone s = (Inr again, t1)" and send: "send_json self dec again t1 = (r, t2)"
    by (auto simp: comp_simps split: option.splits)
  have url: "rq_url again = rq_url request"
    using bearer clone by (auto simp: current_bearer_def comp_simps dest: clone_url bearer_url split: option.splits)
  show ?case
  proof (cases r)
    case (Inr v)
    then have "s' = t2" using Cons.prems clone bearer send by (auto simp: comp_simps)
    then show ?thesis using send_json_answered [of self dec again t1 v] send Inr url by simp
  next
    case (Inl e)
    then show ?thesis using Cons clone bearer send by (auto simp: comp_simps split: if_splits)
  qed
qed (simp add: comp_simps)

lemma finalize_answered:
  assumes "finalize_transfer self server_id s = (Inr (Some x), s')"
  shows "answered (rc_base_url self @ ''/api/v1/transfers/'' @ server_id @ ''/finalize'') (cs_trace s')"
proof -
  obtain request t where "authorized self (request_to self ''POST''
         (''/api/v1/transfers/'' @ server_id @ ''/finalize'')) s = (Inr request, t)"
    and "send_upload_json self dec_transfer request t = (Inr (Some x), s')"
    using assms by (auto simp: finalize_transfer_def comp_simps)
  moreover from this(1) have "rq_url request = rc_base_url self @ ''/api/v1/transfers/'' @ server_id @ ''/finalize''"
    by (auto simp: authorized_def comp_simps request_to_def dest!: bearer_url split: option.splits)
  ultimately show ?thesis using attempts_answered unfolding send_upload_json_def by metis
qed

section \<open>What the upload keeps of the database\<close>

lemma keeps_environment: "(\<And>s r s'. m s = (r, s') \<Longrightarrow> \<exists>e. s' = s\<lparr>w_env := e\<rparr>) \<Longrightarrow> keeps (db_trace P) m"
  by (rule keepsI) (fastforce simp: db_trace_def)

lemma keeps_client: "keeps (db_trace P) (on_client_state wrap m)"
  unfolding on_client_state_def
  by (intro keeps_intros keeps_environment) (auto split: prod.splits)

lemma keeps_staging: "keeps (db_trace P) (desk_staging m)"
  unfolding desk_staging_def
  by (intro keeps_intros keeps_environment) (auto split: prod.splits)

lemma keeps_disk: "keeps (db_trace P) (desk_disk wrap m)"
  unfolding desk_disk_def
  by (intro keeps_intros keeps_environment) (auto split: prod.splits)

lemma keeps_desk_db: "(\<And>tr. tables_keep (\<lambda>t. P t tr) m) \<Longrightarrow> keeps (db_trace P) (desk_db m)"
  unfolding desk_db_def by (intro keeps_intros keeps_db)

lemma keeps_or_panic: "keeps I m \<Longrightarrow> keeps I (or_panic m)"
  unfolding or_panic_def by (auto intro!: keeps_intros split: option.splits)

lemmas desk_steps = keeps_client keeps_staging keeps_disk keeps_or_panic keeps_on_world

text \<open>Reads of the local store.\<close>

lemma store_reads:
  "tables_keep I (get_transfer i)" "tables_keep I (files_for_transfer i)" "tables_keep I (transport_objects i)"
  "tables_keep I (transport_members i)" "tables_keep I (registry_object_binding i)"
  "tables_keep I (manifest_snapshot i)" "tables_keep I (transfer_registry i)"
  "tables_keep I (transfer_registry_session i)" "tables_keep I active_registry"
  "tables_keep I active_registry_session_id" "tables_keep I list_transfers"
  unfolding get_transfer_def files_for_transfer_def transport_objects_def transport_members_def
    registry_object_binding_def manifest_snapshot_def transfer_registry_def transfer_registry_session_def
    active_registry_def active_registry_session_id_def get_setting_def list_transfers_def
  by (rule keeps_query)+

lemma desk_reads:
  "keeps (db_trace P) (desk_db (get_transfer i))"
  "keeps (db_trace P) (desk_db (files_for_transfer i))"
  "keeps (db_trace P) (desk_db (transport_objects i))"
  "keeps (db_trace P) (desk_db (transport_members i))"
  "keeps (db_trace P) (desk_db (registry_object_binding i))"
  "keeps (db_trace P) (desk_db (manifest_snapshot i))"
  "keeps (db_trace P) (desk_db (transfer_registry i))"
  "keeps (db_trace P) (desk_db (transfer_registry_session i))"
  "keeps (db_trace P) (desk_db active_registry)"
  "keeps (db_trace P) (desk_db active_registry_session_id)"
  "keeps (db_trace P) (desk_db list_transfers)"
  by (rule keeps_desk_db, rule store_reads)+

lemma client_reads: "keeps (db_trace P) (transfer_client env tid)"
  unfolding transfer_client_def transfer_url_def configured_registry_url_def
  by (auto intro!: keeps_intros desk_reads desk_steps split: option.splits)

locale upload_kept = engine_kept +
  assumes transfer_bound: "tables_keep (\<lambda>t. P t tr) (bind_registry_transfer i v)"
    and object_bound: "tables_keep (\<lambda>t. P t tr) (bind_registry_object i j k)"
    and snapshot_kept: "tables_keep (\<lambda>t. P t tr) (ensure_manifest_snapshot i m)"
begin

lemmas desk_writes = keeps_desk_db [OF transfer_bound] keeps_desk_db [OF object_bound]
  keeps_desk_db [OF snapshot_kept] keeps_desk_db [OF marked]

lemma source_keeps: "keeps (db_trace P) (object_source env objects files_by_id object members)"
  unfolding object_source_def
  by (auto intro!: keeps_intros desk_steps split: TransportObjectKind.splits list.splits option.splits)

lemma object_keeps: "keeps (db_trace P) (upload_object env remote objects files_by_id object members)"
  unfolding upload_object_def remove_uploaded_pack_def
  by (intro keeps_intros source_keeps desk_steps upload_keeps complete_keeps desk_writes)
    (auto intro!: keeps_intros desk_steps split: TransportObjectKind.splits option.splits)

lemma objects_keep: "keeps (db_trace P) (upload_objects env remote objects files_by_id members todo confirmed)"
  by (induction todo arbitrary: confirmed) (auto intro!: keeps_intros object_keeps)

lemma preparation_keeps:
  "keeps (db_trace P) (registered_id client transfer code files)"
  "keeps (db_trace P) (immutable_manifest env client transfer code server_id files plan)"
  "keeps (db_trace P) (bind_objects receipt obs)" "keeps (db_trace P) (object_bindings obs)"
proof -
  show "keeps (db_trace P) (registered_id client transfer code files)"
    unfolding registered_id_def by (auto intro!: keeps_intros desk_steps desk_writes split: option.splits)
  show "keeps (db_trace P) (immutable_manifest env client transfer code server_id files plan)"
    unfolding immutable_manifest_def
    by (auto intro!: keeps_intros desk_steps desk_reads desk_writes split: option.splits)
  show "keeps (db_trace P) (bind_objects receipt obs)"
    unfolding bind_objects_def by (auto intro!: keeps_intros desk_writes split: option.splits)
  show "keeps (db_trace P) (object_bindings obs)"
    by (induction obs) (auto intro!: keeps_intros desk_reads split: option.splits)
qed

lemma remote_keeps: "keeps (db_trace P) (open_remote env transfer files objects members)"
  unfolding open_remote_def
  by (auto intro!: keeps_intros client_reads preparation_keeps desk_steps split: option.splits)

lemma transfer_keeps: "keeps (db_trace P) (upload_transfer env transfer files objects members)"
  unfolding upload_transfer_def by (intro keeps_intros remote_keeps desk_steps objects_keep)

end

sublocale kept_events < upload: upload_kept "\<lambda>t _. I t"
  by unfold_locales
    (auto simp: bind_registry_transfer_def bind_registry_object_def
      intro!: bind_transfer_keeps update_objects_keeps ensure_manifest_snapshot_keeps)

interpretation uploaded_upload: upload_kept "\<lambda>t _. uploaded_in i t" for i
proof unfold_locales
  show "tables_keep (uploaded_in i) (bind_registry_transfer j v)" for j v
    unfolding bind_registry_transfer_def bind_transfer_def
    by (rule keeps_execute) (auto elim: uploaded_same_files [rotated])
  show "tables_keep (uploaded_in i) (bind_registry_object j k l)" for j k l
    unfolding bind_registry_object_def by (rule uploaded_update_objects)
  show "tables_keep (uploaded_in i) (ensure_manifest_snapshot j m)" for j m
    unfolding ensure_manifest_snapshot_def manifest_snapshot_def
    by (intro keeps_intros keeps_execute)
      (auto intro!: keeps_intros elim: uploaded_same_files [rotated] split: option.splits)
qed

interpretation trace_upload: upload_kept "\<lambda>_ tr. grown tr0 tr" for tr0
  by unfold_locales (rule keeps_const)+

section \<open>Uploading the objects\<close>

abbreviation database :: "'w world \<Rightarrow> tables" where
  "database s \<equiv> st_tables (w_db s)"

lemma desk_db_Inr: "desk_db m s = (Inr x, s') \<longleftrightarrow> (\<exists>db'. m (w_db s) = (Inr x, db') \<and> s' = s\<lparr>w_db := db'\<rparr>)"
  by (auto simp: desk_db_def comp_simps)

lemma desk_db_Inl:
  "desk_db m s = (Inl e, s') \<longleftrightarrow> (\<exists>e' db'. m (w_db s) = (Inl e', db') \<and> s' = s\<lparr>w_db := db'\<rparr> \<and> e = DeskCourier e')"
  by (auto simp: desk_db_def comp_simps)

lemma or_panic_Inr: "or_panic m s = (Inr x, s') \<longleftrightarrow> m s = (Inr (Some x), s')"
  by (auto simp: or_panic_def comp_simps split: option.splits)

lemma members_marked:
  "for_each (\<lambda>member. desk_db (mark_file_uploaded (m_file_id member))) members s = (Inr u, s')
     \<Longrightarrow> \<forall>m \<in> set members. uploaded_in (m_file_id m) (database s')"
proof (induction members arbitrary: s)
  case (Cons m ms)
  then obtain t where head: "desk_db (mark_file_uploaded (m_file_id m)) s = (Inr (), t)"
    and rest: "for_each (\<lambda>member. desk_db (mark_file_uploaded (m_file_id member))) ms t = (Inr u, s')"
    by (auto simp: comp_simps)
  have "uploaded_in (m_file_id m) (database t)"
    using head by (auto simp: desk_db_Inr dest: marked_uploaded)
  moreover have "keeps (db_trace (\<lambda>t _. uploaded_in (m_file_id m) t))
      (for_each (\<lambda>member. desk_db (mark_file_uploaded (m_file_id member))) ms)"
    by (intro keeps_intros uploaded_upload.desk_writes)
  ultimately have "uploaded_in (m_file_id m) (database s')"
    using rest unfolding keeps_def db_trace_def by blast
  then show ?case using Cons.IH [OF rest] by simp
qed simp

lemma grownD: "keeps (db_trace (\<lambda>_ tr. grown tr0 tr)) m \<Longrightarrow> m s = (r, s') \<Longrightarrow> tr0 = w_trace s \<Longrightarrow> grown tr0 (w_trace s')"
  using keepsD [of "db_trace (\<lambda>_ tr. grown tr0 tr)" m s r s'] by (auto simp: db_trace_def grown_def)

lemma grown_trans: "grown a b \<Longrightarrow> grown b c \<Longrightarrow> grown a c"
  by (auto simp: grown_def)

definition acknowledged_since :: "nat \<Rightarrow> 'w world \<Rightarrow> 'w world \<Rightarrow> bool" where
  "acknowledged_since n s s' \<longleftrightarrow> (\<exists>new. w_trace s' = w_trace s @ new \<and> n \<le> length (filter acknowledges new))"

lemma acknowledged_since_grown:
  "grown (w_trace s) (w_trace t) \<Longrightarrow> acknowledged_since n t t' \<Longrightarrow> grown (w_trace t') (w_trace s')
     \<Longrightarrow> acknowledged_since n s s'"
  by (fastforce simp: acknowledged_since_def grown_def)

lemma acknowledged_since_add:
  "acknowledged_since n s t \<Longrightarrow> acknowledged_since k t s' \<Longrightarrow> acknowledged_since (n + k) s s'"
  by (fastforce simp: acknowledged_since_def)

lemma acknowledged_since_refl: "acknowledged_since 0 s s"
  by (simp add: acknowledged_since_def)

lemma remove_pack_keeps: "keeps (db_trace P) (remove_uploaded_pack object)"
  unfolding remove_uploaded_pack_def
  by (auto intro!: keeps_intros desk_steps split: TransportObjectKind.splits option.splits)

lemma uploaded_removed:
  "uploaded_in i (database s) \<Longrightarrow> remove_uploaded_pack object s = (r, s') \<Longrightarrow> uploaded_in i (database s')"
  using keepsD [OF remove_pack_keeps [of "\<lambda>t _. uploaded_in i t"]] by (auto simp: db_trace_def)

lemma upload_object_done:
  assumes run: "upload_object env remote objects files_by_id object members s = (Inr u, s')"
  shows "\<forall>m \<in> set members. uploaded_in (m_file_id m) (database s')" and "acknowledged_since 1 s s'"
proof -
  obtain source watched s1 quieted p x y s2 s3 s4 s5 s6 where
    source: "object_source env objects files_by_id object members s = (Inr source, s1)"
    and upload: "upload_missing_parts_observed (overlay (dx_own env) (dx_sources env))
        (lift_store (registry_store watched)) (desk_runtime env) source default_retry_policy s1 = (Inr (Some x), s2)"
    and pause: "on_world (rt_should_pause (desk_runtime env)) s2 = (Inr p, s3)"
    and complete: "complete_uploaded_file (lift_store (registry_store quieted)) (desk_runtime env) source
        default_retry_policy s3 = (Inr (Some y), s4)"
    and mark: "for_each (\<lambda>member. desk_db (mark_file_uploaded (m_file_id member))) members s4 = (Inr (), s5)"
    and remove: "remove_uploaded_pack object s5 = (Inr u, s')"
    using run unfolding upload_object_def bindE_Inr_iff thenE_Inr_iff or_panic_Inr map_errE_Inr_iff lift_res_iff
    by (elim exE conjE) (auto simp: comp_simps or_panic_Inr split: if_split_asm)
  show "\<forall>m \<in> set members. uploaded_in (m_file_id m) (database s')"
    using members_marked [OF mark] uploaded_removed [OF _ remove] by blast
  have "grown (w_trace s) (w_trace s1)" "grown (w_trace s1) (w_trace s2)" "grown (w_trace s2) (w_trace s3)"
    using grownD [OF trace_upload.source_keeps source] grownD [OF trace_kept.upload_keeps upload]
      grownD [OF keeps_on_world pause] by simp_all
  then have before: "grown (w_trace s) (w_trace s3)" by (blast intro: grown_trans)
  have "keeps (db_trace (\<lambda>_ tr. grown tr0 tr))
      (for_each (\<lambda>member. desk_db (mark_file_uploaded (m_file_id member))) members)" for tr0
    by (intro keeps_intros trace_upload.desk_writes)
  from grownD [OF this, where s = s4] have "grown (w_trace s4) (w_trace s5)" using mark by blast
  then have behind: "grown (w_trace s4) (w_trace s')"
    using grownD [OF remove_pack_keeps remove] by (blast intro: grown_trans)
  have "acknowledged_since 1 s3 s4"
    using complete_adds_acknowledgement [OF complete] by (simp add: acknowledged_since_def)
  then show "acknowledged_since 1 s s'" using before behind by (blast intro: acknowledged_since_grown)
qed

lemma members_uploaded_rows:
  assumes "members_uploaded files_by_id members"
    and "\<And>i f. files_by_id i = Some f \<Longrightarrow> f_status f = FileStatus.Uploaded \<Longrightarrow> uploaded_in i t"
  shows "\<forall>m \<in> set members. uploaded_in (m_file_id m) t"
  using assms by (auto simp: members_uploaded_def list_all_iff split: option.splits)

lemma upload_objects_done:
  assumes "upload_objects env remote objects files_by_id members todo confirmed s = (Inr c, s')"
    and "\<And>i f. files_by_id i = Some f \<Longrightarrow> f_status f = FileStatus.Uploaded \<Longrightarrow> uploaded_in i (database s)"
  shows "(\<forall>object \<in> set todo. \<forall>m \<in> set (members_of object members). uploaded_in (m_file_id m) (database s'))
    \<and> acknowledged_since (length (filter (\<lambda>object. \<not> members_uploaded files_by_id (members_of object members)) todo)) s s'"
  using assms
proof (induction todo arbitrary: confirmed s)
  case Nil
  then show ?case by (simp add: comp_simps acknowledged_since_refl)
next
  case (Cons object rest)
  let ?own = "members_of object members"
  have later: "uploaded_in i (database s')"
    if "uploaded_in i (database t)" "upload_objects env remote objects files_by_id members rest c' t = (Inr c, s')" for i t c'
    using keepsD [OF uploaded_upload.objects_keep _ that(2)] that(1) by (simp add: db_trace_def)
  show ?case
  proof (cases "members_uploaded files_by_id ?own")
    case True
    then have run: "upload_objects env remote objects files_by_id members rest (confirmed + o_original_bytes object) s = (Inr c, s')"
      using Cons.prems(1) by simp
    have "\<forall>m \<in> set ?own. uploaded_in (m_file_id m) (database s)"
      by (rule members_uploaded_rows [OF True Cons.prems(2)])
    then show ?thesis using Cons.IH [OF run Cons.prems(2)] later [OF _ run] True by simp
  next
    case False
    then obtain t where first: "upload_object env remote objects files_by_id object ?own s = (Inr (), t)"
      and run: "upload_objects env remote objects files_by_id members rest
        (saturating_add confirmed (o_original_bytes object)) t = (Inr c, s')"
      using Cons.prems(1) by (auto simp: comp_simps)
    have files: "uploaded_in i (database t)" if "files_by_id i = Some f" "f_status f = FileStatus.Uploaded" for i f
      using keepsD [OF uploaded_upload.object_keeps _ first] Cons.prems(2) [OF that] by (simp add: db_trace_def)
    show ?thesis
      using Cons.IH [OF run files] upload_object_done [OF first] later [OF _ run] False
        acknowledged_since_add [of 1 s t _ s'] by (auto simp: add.commute)
  qed
qed

section \<open>The upload of a transfer\<close>

definition open_object :: "uuid \<Rightarrow> tables \<Rightarrow> object_row \<Rightarrow> bool" where
  "open_object tid t object \<longleftrightarrow>
     o_transfer_id object = tid
     \<and> (\<exists>m \<in> set (tb_members t). m_object_id m = o_id object
          \<and> (\<exists>f \<in> set (tb_files t). f_id f = m_file_id m \<and> f_status f \<noteq> FileStatus.Uploaded))"

text \<open>
  Every member of the plan is marked, as many completions were acknowledged as objects were open, and
  the Registry answered the finalization.
\<close>

definition upload_complete :: "uuid \<Rightarrow> 'w desk_state world \<Rightarrow> 'w desk_state world \<Rightarrow> bool" where
  "upload_complete tid s s' \<longleftrightarrow>
     (\<forall>object \<in> set (tb_objects (database s)). o_transfer_id object = tid \<longrightarrow>
        (\<forall>m \<in> set (tb_members (database s)). m_object_id m = o_id object \<longrightarrow>
           uploaded_in (m_file_id m) (database s')))
     \<and> acknowledged_since (length (filter (open_object tid (database s)) (tb_objects (database s)))) s s'
     \<and> (\<exists>base server_id. answered (base @ ''/api/v1/transfers/'' @ server_id @ ''/finalize'')
          (cs_trace (fst (w_env s'))))"

lemma files_read:
  assumes "files_for_transfer tid s = (Inr files, s')"
  shows "st_tables s' = st_tables s"
    and "set files = FileRecord.truncate ` {r \<in> set (tb_files (st_tables s)). f_transfer_id r = tid}"
  using assms by (auto simp: files_for_transfer_def query_Inr)

lemma objects_read:
  assumes "transport_objects tid s = (Inr objects, s')"
  shows "st_tables s' = st_tables s"
    and "objects = map TransportObjectRecord.truncate (sort_key o_id
           (filter (\<lambda>r. o_transfer_id r = tid) (tb_objects (st_tables s))))"
  using assms by (auto simp: transport_objects_def query_Inr)

lemma members_read:
  assumes "transport_members tid s = (Inr members, s')"
  shows "st_tables s' = st_tables s"
    and "set members = {m \<in> set (tb_members (st_tables s)).
           list_ex (\<lambda>r. o_id r = m_object_id m \<and> o_transfer_id r = tid) (tb_objects (st_tables s))}"
  using assms by (auto simp: transport_members_def query_Inr)

lemma files_index_Some: "files_index files i = Some f \<Longrightarrow> f \<in> set files \<and> f_id f = i"
  by (auto simp: files_index_def dest: map_of_SomeD)

lemma index_uploaded:
  assumes "constraints t" and "set files = FileRecord.truncate ` {r \<in> set (tb_files t). f_transfer_id r = tid}"
    and "files_index files i = Some f" and "f_status f = FileStatus.Uploaded"
  shows "uploaded_in i t"
proof -
  obtain r where r: "r \<in> set (tb_files t)" "f = FileRecord.truncate r"
    using files_index_Some [OF assms(3)] assms(2) by auto
  have "f_id r = i" using files_index_Some [OF assms(3)] r(2) by (simp add: FileRecord.truncate_def)
  moreover have "inj_on f_id (set (tb_files t))" using assms(1) by (simp add: constraint_defs distinct_map)
  ultimately show ?thesis
    using r assms(4) unfolding uploaded_in_def by (auto simp: FileRecord.truncate_def dest: inj_onD)
qed

lemma transition_moves: "transition tid nxt s = (Inr u, s') \<Longrightarrow> status_is tid nxt (st_tables s')"
  by (erule transition_cases) (auto simp: update_transfers_Inr status_is_def dest!: set_update_where split: if_splits)

lemma transition_fails: "transition tid nxt s = (Inl e, s') \<Longrightarrow> st_tables s' = st_tables s"
  by (erule transition_cases) simp_all

lemma transition_frame:
  assumes "transition tid nxt s = (r, s')"
  shows "tb_files (st_tables s') = tb_files (st_tables s)" "tb_objects (st_tables s') = tb_objects (st_tables s)"
    "tb_members (st_tables s') = tb_members (st_tables s)"
  using assms by (cases rule: transition_cases; simp add: update_transfers_Inr)+

lemma get_transfer_Inr:
  "get_transfer tid s = (Inr found, s') \<Longrightarrow>
     st_tables s' = st_tables s \<and> found = map_option Transfer.truncate (transfer_by_id (st_tables s) tid)"
  by (auto simp: get_transfer_def query_Inr)

lemma get_transfer_Inl: "get_transfer tid s = (Inl e, s') \<Longrightarrow> st_tables s' = st_tables s"
  by (auto simp: get_transfer_def query_Inl)

lemma found_status:
  "transfer_by_id t tid = Some r \<Longrightarrow> status_is tid st t \<Longrightarrow> t_status r = st"
  by (auto simp: transfer_by_id_def status_is_def find_Some_iff)

lemma found_truncated [simp]: "t_status (Transfer.truncate r) = t_status r" "t_id (Transfer.truncate r) = t_id r"
  by (simp_all add: Transfer.truncate_def)

abbreviation same_plan :: "tables \<Rightarrow> tables \<Rightarrow> bool" where
  "same_plan t t' \<equiv> tb_files t' = tb_files t \<and> tb_objects t' = tb_objects t \<and> tb_members t' = tb_members t"

lemma enter_uploading_done:
  assumes "enter_uploading transfer s = (Inr u, s')" and "status_is (t_id transfer) (t_status transfer) (database s)"
  shows "status_is (t_id transfer) TransferStatus.Uploading (database s') \<and> same_plan (database s) (database s')
    \<and> w_trace s' = w_trace s \<and> w_env s' = w_env s"
proof (cases "t_status transfer = TransferStatus.Uploading")
  case True
  then show ?thesis using assms by (simp add: enter_uploading_def comp_simps)
next
  case False
  then have "desk_db (transition (t_id transfer) TransferStatus.Uploading) s = (Inr u, s')"
    using assms(1) by (auto simp: enter_uploading_def comp_simps split: TransferStatus.splits)
  then show ?thesis by (auto simp: desk_db_Inr dest: transition_moves transition_frame)
qed

lemma enter_uploading_failed: "enter_uploading transfer s = (Inl e, s') \<Longrightarrow> database s' = database s"
  by (auto simp: enter_uploading_def comp_simps desk_db_Inl dest: transition_fails split: TransferStatus.splits)

lemma query_tables: "query f s = (y, s') \<Longrightarrow> st_tables s' = st_tables s"
  by (cases y) (auto simp: query_Inr query_Inl)

lemma enter_uploading_keeps:
  "(\<And>nxt. tables_keep I (transition (t_id transfer) nxt)) \<Longrightarrow> keeps (db_trace (\<lambda>t _. I t)) (enter_uploading transfer)"
  unfolding enter_uploading_def
  by (auto intro!: keeps_intros keeps_desk_db split: TransferStatus.splits)

text \<open>Either the run ends before the upload, or it reads the plan, uploads and records the outcome.\<close>

lemma upload_planned_cases:
  assumes run: "upload_planned env transfer s = (r, s')"
  obtains (stopped) e where "r = Inl e" "database s' = database s"
  | (uploading) t files objects members result u where "database t = database s" "w_trace t = w_trace s"
      "set files = FileRecord.truncate ` {r \<in> set (tb_files (database s)). f_transfer_id r = t_id transfer}"
      "objects = map TransportObjectRecord.truncate (sort_key o_id
           (filter (\<lambda>r. o_transfer_id r = t_id transfer) (tb_objects (database s))))"
      "set members = {m \<in> set (tb_members (database s)).
           list_ex (\<lambda>r. o_id r = m_object_id m \<and> o_transfer_id r = t_id transfer) (tb_objects (database s))}"
      "upload_transfer env transfer files objects members t = (result, u)"
      "finish_upload (t_id transfer) result u = (r, s')"
proof -
  have read: "database t' = database t" "w_trace t' = w_trace t"
    if "desk_db m t = (x, t')" "\<And>d y d'. m d = (y, d') \<Longrightarrow> st_tables d' = st_tables d" for m x t t'
    using that by (auto simp: desk_db_def map_errE_def on_db_def split: prod.splits sum.splits)
  have reads: "files_for_transfer i d = (y, d') \<Longrightarrow> st_tables d' = st_tables d"
    "transport_objects i d = (z, d') \<Longrightarrow> st_tables d' = st_tables d"
    "transport_members i d = (x, d') \<Longrightarrow> st_tables d' = st_tables d" for i d y z x d'
    unfolding files_for_transfer_def transport_objects_def transport_members_def
    by (erule query_tables)+
  obtain a s1 where files: "desk_db (files_for_transfer (t_id transfer)) s = (a, s1)" by force
  obtain b s2 where objects: "desk_db (transport_objects (t_id transfer)) s1 = (b, s2)" by force
  obtain c s3 where members: "desk_db (transport_members (t_id transfer)) s2 = (c, s3)" by force
  have d1: "database s1 = database s" "w_trace s1 = w_trace s" using read [OF files] reads(1) by blast+
  have d2: "database s2 = database s1" "w_trace s2 = w_trace s1" using read [OF objects] reads(2) by blast+
  have d3: "database s3 = database s2" "w_trace s3 = w_trace s2" using read [OF members] reads(3) by blast+
  show thesis
  proof (cases a; cases b; cases c)
    fix fs obs ms assume abc: "a = Inr fs" "b = Inr obs" "c = Inr ms"
    show thesis
    proof (cases "fs \<noteq> [] \<and> obs = []")
      case True
      then show thesis
        using stopped run files objects members abc d1 d2 d3
        by (simp add: upload_planned_def bindE_def comp_simps)
    next
      case False
      obtain result u where up: "upload_transfer env transfer fs obs ms s3 = (result, u)" by force
      show thesis
      proof (rule uploading [of s3 fs obs ms result u])
        show "finish_upload (t_id transfer) result u = (r, s')"
          using run files objects members abc False up by (auto simp: upload_planned_def bindE_def tryE_def)
        show "set fs = FileRecord.truncate ` {r \<in> set (tb_files (database s)). f_transfer_id r = t_id transfer}"
          using files abc files_read(2) by (auto simp: desk_db_Inr)
        show "obs = map TransportObjectRecord.truncate (sort_key o_id
           (filter (\<lambda>r. o_transfer_id r = t_id transfer) (tb_objects (database s))))"
          using objects abc objects_read(2) d1 by (fastforce simp: desk_db_Inr)
        show "set ms = {m \<in> set (tb_members (database s)).
           list_ex (\<lambda>r. o_id r = m_object_id m \<and> o_transfer_id r = t_id transfer) (tb_objects (database s))}"
          using members abc members_read(2) d1 d2 by (fastforce simp: desk_db_Inr)
      qed (use up d1 d2 d3 in simp_all)
    qed
  qed (use run files objects members d1 d2 d3 in \<open>auto simp: upload_planned_def bindE_def intro: stopped\<close>)
qed


lemma get_transfer_tables: "get_transfer tid s = (x, s') \<Longrightarrow> st_tables s' = st_tables s"
  unfolding get_transfer_def by (rule query_tables)

lemma found_transfer:
  assumes "get_transfer tid s = (Inr (Some transfer), s')"
  shows "\<exists>row. transfer_by_id (st_tables s) tid = Some row \<and> transfer = Transfer.truncate row"
  using assms by (cases "transfer_by_id (st_tables s) tid") (auto simp: get_transfer_def query_Inr)

lemma run_upload_cases:
  assumes run: "run_upload env tid s = (r, s')" and st: "status_is tid st (database s)"
  obtains (stopped) e where "r = Inl e" "status_is tid st (database s') \<or> status_is tid TransferStatus.Uploading (database s')"
  | (planned) transfer t where "t_id transfer = tid" "status_is tid TransferStatus.Uploading (database t)"
      "same_plan (database s) (database t)" "w_trace t = w_trace s" "upload_planned env transfer t = (r, s')"
      "constraints (database s) \<longrightarrow> constraints (database t)"
proof -
  obtain found s1 where first: "desk_db (get_transfer tid) s = (found, s1)" by force
  then have s1: "database s1 = database s" "w_trace s1 = w_trace s"
    by (cases found; auto simp: desk_db_Inr desk_db_Inl dest: get_transfer_Inr get_transfer_Inl)+
  consider (gone) "\<exists>e. r = Inl e" "s' = s1"
    | (entered) transfer where "found = Inr (Some transfer)"
        "thenE (enter_uploading transfer) (upload_planned env transfer) s1 = (r, s')"
    using run first by (cases found) (auto simp: run_upload_def bindE_def comp_simps split: option.splits if_splits)
  then show thesis
  proof cases
    case gone
    then show thesis using stopped st s1 by auto
  next
    case entered
    then obtain db' where "get_transfer tid (w_db s) = (Inr (Some transfer), db')"
      using first by (auto simp: desk_db_Inr)
    from found_transfer [OF this]
    obtain row where "transfer_by_id (database s) tid = Some row" "transfer = Transfer.truncate row" by blast
    then have tr: "t_id transfer = tid" "t_status transfer = st"
      using st transfer_by_id_id found_status by fastforce+
    obtain result s2 where enter: "enter_uploading transfer s1 = (result, s2)" by force
    show thesis
    proof (cases result)
      case (Inl e)
      then have "r = Inl e" "s' = s2" "database s2 = database s"
        using entered(2) enter s1 by (auto simp: thenE_def bindE_def dest: enter_uploading_failed)
      then show thesis using stopped st by simp
    next
      case (Inr u)
      have "status_is tid TransferStatus.Uploading (database s2)" "same_plan (database s) (database s2)"
          "w_trace s2 = w_trace s"
        using enter_uploading_done [of transfer s1 u s2] enter Inr s1 st tr by simp_all
      moreover have "constraints (database s) \<longrightarrow> constraints (database s2)"
        using keepsD [OF enter_uploading_keeps [OF transition_constraints] _ enter] s1 by (simp add: db_trace_def)
      ultimately show thesis
        using planned [of transfer s2] entered(2) enter Inr tr by (simp add: thenE_def bindE_def)
    qed
  qed
qed

lemma reread_database: "reread_transfer tid s = (r, s') \<Longrightarrow> database s' = database s \<and> w_trace s' = w_trace s \<and> w_env s' = w_env s"
  by (cases r) (auto simp: reread_transfer_def comp_simps desk_db_Inr desk_db_Inl
      dest!: get_transfer_tables split: option.splits)

lemma reread_status:
  assumes "reread_transfer tid s = (Inr t, s')" and "status_is tid st (database s)" shows "t_status t = st"
proof -
  obtain db' where "get_transfer tid (w_db s) = (Inr (Some t), db')"
    using assms(1) by (auto simp: reread_transfer_def comp_simps desk_db_Inr split: option.splits)
  then obtain row where "transfer_by_id (database s) tid = Some row" "t = Transfer.truncate row"
    using found_transfer by blast
  then show ?thesis using assms(2) found_status by simp
qed

text \<open>Only a finished upload leads to \<^verbatim>\<open>finalizing\<close>.\<close>

lemma finish_upload_status:
  assumes run: "finish_upload tid result s = (r, s')" and st: "status_is tid TransferStatus.Uploading (database s)"
  shows "(\<exists>st. status_is tid st (database s')
        \<and> (st = TransferStatus.Finalizing \<longrightarrow> result = Inr ())
        \<and> (\<forall>t. r = Inr t \<longrightarrow> t_status t = st \<and> st \<in> {TransferStatus.Finalizing, TransferStatus.Paused}))
    \<and> same_plan (database s) (database s') \<and> w_trace s' = w_trace s \<and> w_env s' = w_env s"
proof -
  have stopped: ?thesis if "r = Inl e" "database s' = database s" "w_trace s' = w_trace s" "w_env s' = w_env s" for e
    using that st by auto
  have moved: ?thesis
    if step: "thenE (desk_db (transition tid nxt)) k s = (r, s')"
      and rest: "\<And>t. k t = (r, s') \<Longrightarrow> (\<exists>e. r = Inl e \<and> s' = t) \<or> nxt \<in> {TransferStatus.Finalizing, TransferStatus.Paused}
         \<and> reread_transfer tid t = (r, s')"
      and final: "nxt = TransferStatus.Finalizing \<longrightarrow> result = Inr ()" for nxt k
  proof -
    obtain q t where tr: "desk_db (transition tid nxt) s = (q, t)" by force
    show ?thesis
    proof (cases q)
      case (Inl e)
      then have "r = Inl e" "s' = t" using step tr by (simp_all add: thenE_def bindE_def)
      moreover have "database t = database s" "w_trace t = w_trace s" "w_env t = w_env s"
        using tr Inl by (auto simp: desk_db_Inl dest: transition_fails)
      ultimately show ?thesis using stopped by simp
    next
      case (Inr u)
      then have t: "status_is tid nxt (database t)" "same_plan (database s) (database t)" "w_trace t = w_trace s"
          "w_env t = w_env s" and k: "k t = (r, s')"
        using step tr by (auto simp: thenE_def bindE_def desk_db_Inr dest: transition_moves transition_frame)
      from rest [OF k] show ?thesis
      proof
        assume "(\<exists>e. r = Inl e \<and> s' = t)"
        then show ?thesis using t final by auto
      next
        assume "nxt \<in> {TransferStatus.Finalizing, TransferStatus.Paused} \<and> reread_transfer tid t = (r, s')"
        then have nxt: "nxt \<in> {TransferStatus.Finalizing, TransferStatus.Paused}"
          and re: "reread_transfer tid t = (r, s')" by simp_all
        have "status_is tid nxt (database s')" "same_plan (database s) (database s')" "w_trace s' = w_trace s" "w_env s' = w_env s"
          using reread_database [OF re] t by simp_all
        moreover have "\<forall>x. r = Inr x \<longrightarrow> t_status x = nxt" using re t(1) reread_status by blast
        ultimately show ?thesis using final nxt by blast
      qed
    qed
  qed
  show ?thesis
  proof (cases result)
    case (Inr u)
    then show ?thesis
      using run moved [of TransferStatus.Finalizing "reread_transfer tid"] by (simp add: finish_upload_def)
  next
    case (Inl e)
    then consider "r = Inl DeskPanic" "s' = s"
      | "thenE (desk_db (transition tid TransferStatus.Paused)) (reread_transfer tid) s = (r, s')"
      | "thenE (desk_db (transition tid TransferStatus.Interrupted)) (fail e) s = (r, s')"
      using run by (cases e) (auto simp: finish_upload_def comp_simps split: if_splits)
    then show ?thesis
    proof cases
      case 1 then show ?thesis using stopped by simp
    next
      case 2 then show ?thesis by (rule moved) simp_all
    next
      case 3 then show ?thesis by (rule moved) (auto simp: comp_simps)
    qed
  qed
qed

lemma length_filter_weaken: "(\<And>x. x \<in> set xs \<Longrightarrow> P x \<Longrightarrow> Q x) \<Longrightarrow> length (filter P xs) \<le> length (filter Q xs)"
  by (induction xs) (auto simp: le_SucI)

lemma length_filter_sort: "length (filter P xs) = length (filter P (sort_key k xs))"
  by (metis mset_filter mset_sort size_mset)

lemma open_objects_counted:
  assumes c: "constraints t" and tid: "tid = t_id transfer"
    and files: "set files = FileRecord.truncate ` {r \<in> set (tb_files t). f_transfer_id r = tid}"
    and objects: "objects = map TransportObjectRecord.truncate (sort_key o_id
           (filter (\<lambda>r. o_transfer_id r = tid) (tb_objects t)))"
    and members: "set members = {m \<in> set (tb_members t).
           list_ex (\<lambda>r. o_id r = m_object_id m \<and> o_transfer_id r = tid) (tb_objects t)}"
  shows "length (filter (open_object tid t) (tb_objects t))
    \<le> length (filter (\<lambda>object. \<not> members_uploaded (files_index files) (members_of object members)) objects)"
proof -
  let ?skip = "\<lambda>object. members_uploaded (files_index files) (members_of object members)"
  let ?own = "filter (\<lambda>r. o_transfer_id r = tid) (tb_objects t)"
  have skip: "\<not> ?skip (TransportObjectRecord.truncate r)" if r: "r \<in> set (tb_objects t)" "open_object tid t r" for r
  proof
    assume skip: "?skip (TransportObjectRecord.truncate r)"
    obtain m f where m: "m \<in> set (tb_members t)" "m_object_id m = o_id r" and f: "f \<in> set (tb_files t)"
        "f_id f = m_file_id m" "f_status f \<noteq> FileStatus.Uploaded" and own: "o_transfer_id r = tid"
      using r(2) by (auto simp: open_object_def)
    have "m \<in> set (members_of (TransportObjectRecord.truncate r) members)"
      using m r(1) own by (auto simp: members_of_def members list_ex_iff TransportObjectRecord.truncate_def)
    moreover have "\<forall>m \<in> set (members_of (TransportObjectRecord.truncate r) members). uploaded_in (m_file_id m) t"
      by (rule members_uploaded_rows [OF skip]) (rule index_uploaded [OF c files])
    ultimately have "uploaded_in (m_file_id m) t" by blast
    then show False using f by (simp add: uploaded_in_def)
  qed
  have "length (filter (open_object tid t) (tb_objects t)) = length (filter (open_object tid t) ?own)"
    by (rule arg_cong [where f = length]) (simp, rule filter_cong, auto simp: open_object_def)
  also have "\<dots> \<le> length (filter (\<lambda>r. \<not> ?skip (TransportObjectRecord.truncate r)) ?own)"
    by (rule length_filter_weaken) (auto dest: skip)
  also have "\<dots> = length (filter (\<lambda>r. \<not> ?skip (TransportObjectRecord.truncate r)) (sort_key o_id ?own))"
    by (rule length_filter_sort)
  also have "\<dots> = length (filter (\<lambda>object. \<not> ?skip object) objects)"
    by (simp add: objects filter_map comp_def)
  finally show ?thesis .
qed

lemma upload_transfer_done:
  assumes c: "constraints (database t)"
    and files: "set files = FileRecord.truncate ` {r \<in> set (tb_files (database t)). f_transfer_id r = t_id transfer}"
    and objects: "objects = map TransportObjectRecord.truncate (sort_key o_id
           (filter (\<lambda>r. o_transfer_id r = t_id transfer) (tb_objects (database t))))"
    and members: "set members = {m \<in> set (tb_members (database t)).
           list_ex (\<lambda>r. o_id r = m_object_id m \<and> o_transfer_id r = t_id transfer) (tb_objects (database t))}"
    and run: "upload_transfer env transfer files objects members t = (Inr (), u)"
  shows "upload_complete (t_id transfer) t u"
proof -
  let ?skip = "\<lambda>object. members_uploaded (files_index files) (members_of object members)"
  obtain remote t1 n t2 x where remote: "open_remote env transfer files objects members t = (Inr remote, t1)"
    and loop: "upload_objects env remote objects (files_index files) members objects 0 t1 = (Inr n, t2)"
    and final: "desk_registry (finalize_transfer (rm_client remote) (rm_server_transfer_id remote)) t2 = (Inr (Some x), u)"
    using run by (auto simp: upload_transfer_def comp_simps or_panic_Inr)
  have grown: "grown (w_trace t) (w_trace t1)" by (rule grownD [OF trace_upload.remote_keeps remote]) simp
  have "uploaded_in i (database t1)" if "files_index files i = Some f" "f_status f = FileStatus.Uploaded" for i f
    using keepsD [OF uploaded_upload.remote_keeps _ remote] index_uploaded [OF c files that] by (simp add: db_trace_def)
  note files_marked = this
  have "(\<forall>object \<in> set objects. \<forall>m \<in> set (members_of object members). uploaded_in (m_file_id m) (database t2))
    \<and> acknowledged_since (length (filter (\<lambda>object. \<not> ?skip object) objects)) t1 t2"
    by (rule upload_objects_done [OF loop]) (rule files_marked)
  then have marked: "\<forall>object \<in> set objects. \<forall>m \<in> set (members_of object members). uploaded_in (m_file_id m) (database t2)"
    and acked: "acknowledged_since (length (filter (\<lambda>object. \<not> ?skip object) objects)) t1 t2" by blast+
  obtain c' where fin: "finalize_transfer (rm_client remote) (rm_server_transfer_id remote) (fst (w_env t2)) = (Inr (Some x), c')"
    and u: "u = t2\<lparr>w_env := (c', snd (w_env t2))\<rparr>"
    using final by (auto simp: on_client_state_def comp_simps split: prod.splits)
  have "uploaded_in (m_file_id m) (database u)"
    if "object \<in> set (tb_objects (database t))" "o_transfer_id object = t_id transfer"
      "m \<in> set (tb_members (database t))" "m_object_id m = o_id object" for object m
  proof -
    have "TransportObjectRecord.truncate object \<in> set objects" using that by (simp add: objects)
    moreover have "m \<in> set (members_of (TransportObjectRecord.truncate object) members)"
      using that by (auto simp: members_of_def members list_ex_iff TransportObjectRecord.truncate_def)
    ultimately show ?thesis using marked by (simp add: u)
  qed
  moreover have "acknowledged_since (length (filter (open_object (t_id transfer) (database t)) (tb_objects (database t)))) t u"
    using open_objects_counted [OF c refl files objects members] acked grown
    by (fastforce simp: acknowledged_since_def grown_def u)
  moreover have "\<exists>base server_id. answered (base @ ''/api/v1/transfers/'' @ server_id @ ''/finalize'') (cs_trace (fst (w_env u)))"
    using finalize_answered [OF fin] by (auto simp: u)
  ultimately show ?thesis by (simp add: upload_complete_def)
qed

lemma upload_complete_same:
  assumes "upload_complete tid t u" and "same_plan (database s) (database t)" "w_trace t = w_trace s"
    and "same_plan (database u) (database s')" "w_trace s' = w_trace u" "w_env s' = w_env u"
  shows "upload_complete tid s s'"
proof -
  have "open_object tid (database t) = open_object tid (database s)"
    by (intro ext) (simp add: open_object_def assms(2))
  then show ?thesis using assms by (simp add: upload_complete_def acknowledged_since_def uploaded_in_def)
qed

lemma run_upload_finalizing:
  assumes c: "constraints (database s)" and st: "status_is tid st (database s)" and other: "st \<noteq> TransferStatus.Finalizing"
    and run: "run_upload env tid s = (r, s')"
  shows "\<exists>st'. status_is tid st' (database s')
    \<and> (st' = TransferStatus.Finalizing \<longrightarrow> upload_complete tid s s')
    \<and> (\<forall>t. r = Inr t \<longrightarrow> t_status t = st' \<and> st' \<in> {TransferStatus.Finalizing, TransferStatus.Paused})"
  using run st
proof (cases rule: run_upload_cases)
  case (stopped e)
  then show ?thesis using other by auto
next
  case (planned transfer t)
  have ct: "constraints (database t)" using planned(6) c by simp
  from planned(5) show ?thesis
  proof (cases rule: upload_planned_cases)
    case (stopped e)
    then show ?thesis using planned(2) by auto
  next
    case (uploading t' files objects members result u)
    have "keeps (db_trace (\<lambda>t _. status_is tid TransferStatus.Uploading t)) (upload_transfer env transfer files objects members)"
      by (rule status_events.upload.transfer_keeps)
    from keepsD [OF this _ uploading(6)] have u: "status_is tid TransferStatus.Uploading (database u)"
      using planned(2) uploading(1) by (simp add: db_trace_def)
    have done_: "upload_complete tid s s'" if "result = Inr ()" "same_plan (database u) (database s')"
        "w_trace s' = w_trace u" "w_env s' = w_env u"
      using upload_transfer_done [of t' files transfer objects members env u] uploading planned that ct
        upload_complete_same [of tid t' u s s'] by simp
    obtain st' where "status_is tid st' (database s')" "st' = TransferStatus.Finalizing \<longrightarrow> result = Inr ()"
      "\<forall>t. r = Inr t \<longrightarrow> t_status t = st' \<and> st' \<in> {TransferStatus.Finalizing, TransferStatus.Paused}"
      "same_plan (database u) (database s')" "w_trace s' = w_trace u" "w_env s' = w_env u"
      using finish_upload_status [OF uploading(7)] u planned(1) by auto
    then show ?thesis using done_ by blast
  qed
qed

lemma keeps_found:
  assumes "\<And>found. (\<And>transfer. found = Some transfer \<Longrightarrow> t_id transfer = tid) \<Longrightarrow> keeps (db_trace (\<lambda>t _. I t)) (f found)"
  shows "keeps (db_trace (\<lambda>t _. I t)) (bindE (desk_db (get_transfer tid)) f)"
proof (rule keepsI)
  fix s r s' assume I: "db_trace (\<lambda>t _. I t) s" and run: "bindE (desk_db (get_transfer tid)) f s = (r, s')"
  obtain x t where get: "desk_db (get_transfer tid) s = (x, t)" by force
  have t: "db_trace (\<lambda>t _. I t) t" using keepsD [OF desk_reads(1) I get] .
  show "db_trace (\<lambda>t _. I t) s'"
  proof (cases x)
    case (Inl e)
    then show ?thesis using run get t by (simp add: bindE_def)
  next
    case (Inr found)
    have "t_id transfer = tid" if "found = Some transfer" for transfer
      using get Inr that found_transfer [of tid "w_db s" transfer] transfer_by_id_id by (fastforce simp: desk_db_Inr)
    moreover have "f found t = (r, s')" using run get Inr by (simp add: bindE_def)
    ultimately show ?thesis using keepsD [OF assms t] by blast
  qed
qed

text \<open>What the whole run keeps: the engine's steps, and the transitions of this transfer.\<close>

lemma run_upload_keeps:
  assumes "\<And>transfer files objects members. keeps (db_trace (\<lambda>t _. I t)) (upload_transfer env transfer files objects members)"
    and "\<And>nxt. tables_keep I (transition tid nxt)"
  shows "keeps (db_trace (\<lambda>t _. I t)) (run_upload env tid)"
proof -
  have reread: "keeps (db_trace (\<lambda>t _. I t)) (reread_transfer tid)"
    unfolding reread_transfer_def by (auto intro!: keeps_intros desk_reads split: option.splits)
  have finish: "keeps (db_trace (\<lambda>t _. I t)) (finish_upload tid result)" for result
    unfolding finish_upload_def
    by (auto intro!: keeps_intros keeps_desk_db assms(2) reread split: sum.splits DesktopError.splits)
  have planned: "keeps (db_trace (\<lambda>t _. I t)) (upload_planned env transfer)" if "t_id transfer = tid" for transfer
    unfolding upload_planned_def that by (auto intro!: keeps_intros desk_reads assms(1) finish)
  have enter: "keeps (db_trace (\<lambda>t _. I t)) (enter_uploading transfer)" if "t_id transfer = tid" for transfer
    by (rule enter_uploading_keeps) (use assms(2) that in simp)
  show ?thesis
    unfolding run_upload_def
    by (rule keeps_found) (auto intro!: keeps_intros planned enter split: option.splits)
qed

lemma other_transition: "i \<noteq> tid \<Longrightarrow> tables_keep (status_is i st) (transition tid nxt)"
  by (rule keepsI, erule transition_cases)
    (auto simp: update_transfers_Inr status_is_def dest!: set_update_where split: if_splits)

end
