(* ===== verification/DesktopRun.thy ===== *)
theory DesktopRun
  imports DesktopUploadBehaviour TransportProperties RegistryProperties
begin

text \<open>
  A concrete upload: a Registry that gives one answer to every request, a quiet database with one
  prepared transfer of one file, and the run of \<^verbatim>\<open>run_upload\<close> on it, evaluated step by step. The
  Registry answers that the object exists, so the run marks the file, completes and finalizes.
\<close>

definition registry_answers :: json where
  "registry_answers = JObj [(''transfer_id'', JStr ''T''), (''manifest_sha256'', JStr ''h''), (''files'', JArr []),
     (''transport_objects'', JArr [JObj [(''id'', JStr ''9''), (''object_key'', JStr ''k''), (''status'', JStr ''s'')]]),
     (''exists'', JBool True), (''status'', JStr ''finalizing'')]"

definition desk_answers :: "unit registry_env" where
  "desk_answers = \<lparr>re_send = (\<lambda>q w. (Inr (plain_response 200 (rq_url q)), w)), re_json = (\<lambda>r. Inr registry_answers),
     re_is_json = (\<lambda>_. False), re_status_text = (\<lambda>_. ''''), re_uuid = (\<lambda>_. Some 9), re_time = (\<lambda>_. Some 0),
     re_draw = (\<lambda>n w. (0, w))\<rparr>"

definition desk_client :: "unit RegistryClient" where
  "desk_client = \<lparr>rc_base_url = '''', rc_observer = None, rc_env = desk_answers\<rparr>"

definition steady_env :: "(unit, unit, bytes) desk_env" where
  "steady_env = \<lparr>dx_api = plain_text, dx_codec = plain_codec, dx_header = one_json, dx_hash = byte_hash,
     dx_sources = \<lparr>fs_exists = (\<lambda>p w. (True, w)), fs_is_file = (\<lambda>p w. (True, w)), fs_walk = (\<lambda>p w. ([], w)),
      fs_metadata = (\<lambda>p w. (Inr \<lparr>md_len = 3, md_modified = Inr 5\<rparr>, w)),
      fs_reads = (\<lambda>p n w. (Inr [Inr [1, 2, 3], Inr []], w)),
      fs_read_exact_at = (\<lambda>p off n w. (Inr [1, 2, 3], w))\<rparr>,
     dx_own = (\<lambda>_. False), dx_open = (\<lambda>_ c. (Inr (), c)), dx_canonicalize = (\<lambda>p c. (Inr p, c)),
     dx_draw = (\<lambda>n c. (0, c)), dx_net = \<lparr>on_schedule = (\<lambda>_ w. ([], w)), on_answer = (\<lambda>q _ w. (Inr (plain_response 200 (rq_url q)), w))\<rparr>,
     dx_pause = (\<lambda>w. (False, w)), dx_progress = (\<lambda>_ _ w. w), dx_session = (\<lambda>_ _ c. (Inr desk_client, c)),
     dx_normalize = Inr, dx_default_url = Inr ''r'', dx_database = ''c/db'', dx_now = 0, dx_transfer_id = 4,
     dx_file_id = (\<lambda>_. 9), dx_object_id = (\<lambda>_. 9)\<rparr>"

definition ready_row :: transfer_row where
  "ready_row = first_row\<lparr>t_status := TransferStatus.Ready, t_project_id := Some ''P'', t_server_transfer_id := Some ''T'',
     t_registry_session_id := Some ''s'', tr_registry_url := Some ''r'', tr_manifest_json := Some ''{}''\<rparr>"

definition single_object :: TransportObjectRecord where
  "single_object = \<lparr>o_id = 9, o_transfer_id = 4, o_kind = TransportObjectKind.File, o_compression = ''none'',
     o_encoding_version = 1, o_original_bytes = 3, o_transport_bytes = Some 3, o_cache_path = None\<rparr>"

definition ready_tables :: tables where
  "ready_tables = insert_event 999 (created_event ready_row)
     (empty_tables\<lparr>tb_transfers := [ready_row], tb_files := [file_row_of 4 first_file],
        tb_objects := [(object_row_of single_object)\<lparr>or_upload_id := Some ''u''\<rparr>],
        tb_members := [\<lparr>m_object_id = 9, m_file_id = 9, m_member_index = 0\<rparr>]\<rparr>)"

definition ready_world :: "unit desk_state world" where
  "ready_world = \<lparr>w_db = quiet ready_tables, w_env = (new_state (Some old_auth) (), cache_disk), w_trace = []\<rparr>"

lemmas ready_eval = ready_row_def single_object_def ready_tables_def ready_world_def object_row_of_def
  TransportObjectRecord.defs

lemma ready_ok: "outbox_ok ready_tables"
  by (simp add: outbox_ok_def in_sequence_def replay_def replay_step_def payload_def check_eval ready_eval file_eval)


definition live :: "unit client_state \<Rightarrow> bool" where
  "live c \<longleftrightarrow> cs_auth c = Some old_auth \<and> \<not> cs_poisoned c"

lemma live_send:
  assumes "live c" and "rq_body q \<noteq> StreamBody" and "dec registry_answers = Some x"
  shows "\<exists>c'. live c' \<and> send_json desk_client dec q c = (Inr x, c')"
  using assms
  by (simp add: live_def send_json_def client_eval desk_client_def desk_answers_def plain_response_def is_success_def
      response_json_def try_clone_def Let_def)

lemma live_authorized: "live c \<Longrightarrow> \<exists>q'. authorized desk_client q c = (Inr q', c) \<and> rq_body q' = rq_body q"
  by (simp add: live_def authorized_def client_eval replace_bearer_auth_def valid_header_def byte_of_def old_auth_def)

lemma live_upload:
  assumes "live c" and "rq_body q \<noteq> StreamBody" and "dec registry_answers = Some x"
  shows "\<exists>c'. live c' \<and> send_upload_json desk_client dec q c = (Inr (Some x), c')"
proof -
  have a: "attempts default_retry_policy = 0 # map of_nat [1..<8]"
    by (simp add: attempts_def default_retry_policy_def upt_rec)
  obtain q' where q': "current_bearer q c = (Inr q', c)" "rq_body q' = rq_body q"
    using assms(1)
    by (simp add: live_def current_bearer_def client_eval replace_bearer_auth_def valid_header_def byte_of_def old_auth_def)
  moreover obtain c' where "live c'" "send_json desk_client dec q' c = (Inr x, c')"
    using live_send [where dec = dec and x = x, OF assms(1) _ assms(3), of q'] q'(2) assms(2) by auto
  ultimately show ?thesis
    using assms(2) by (simp add: send_upload_json_def a try_clone_def comp_defs)
qed

lemma live_finalize: "live c \<Longrightarrow> \<exists>c' x. live c' \<and> finalize_transfer desk_client i c = (Inr (Some x), c')"
proof -
  assume l: "live c"
  obtain q' where q: "authorized desk_client (request_to desk_client ''POST'' (''/api/v1/transfers/'' @ i @ ''/finalize'')) c = (Inr q', c)"
      "rq_body q' = NoBody"
    using live_authorized [OF l, of "request_to desk_client ''POST'' (''/api/v1/transfers/'' @ i @ ''/finalize'')"]
    by (auto simp: request_to_def)
  have "dec_transfer registry_answers = Some \<lparr>rt_public_id = ''T'', rt_status = ''finalizing''\<rparr>"
    by (simp add: dec_transfer_def registry_answers_def struct_fields_def required_def dec_string_def)
  from live_upload [where dec = dec_transfer, OF l _ this, of q'] q show ?thesis
    unfolding finalize_transfer_def by (auto simp: bindE_def)
qed

lemma live_submit:
  "live c \<Longrightarrow> \<exists>c' x. live c' \<and> submit_manifest desk_client i m c = (Inr (Some x), c')
     \<and> mr_transport_objects x = [\<lparr>ro_id = 9, ro_object_key = ''k'', ro_status = ''s''\<rparr>]"
proof -
  assume l: "live c"
  obtain q' where q: "authorized desk_client (request_to desk_client ''PUT'' (''/api/v1/transfers/'' @ i @ ''/manifest'')) c = (Inr q', c)"
    using live_authorized [OF l, of "request_to desk_client ''PUT'' (''/api/v1/transfers/'' @ i @ ''/manifest'')"]
    by (auto simp: request_to_def)
  have "dec_receipt desk_client registry_answers = Some \<lparr>mr_transfer_id = ''T'', mr_manifest_sha256 = ''h'', mr_files = [],
      mr_transport_objects = [\<lparr>ro_id = 9, ro_object_key = ''k'', ro_status = ''s''\<rparr>]\<rparr>"
    by (simp add: dec_receipt_def registry_answers_def struct_fields_def required_def dec_string_def dec_list_def
        dec_registry_object_def dec_uuid_def desk_client_def desk_answers_def)
  from live_upload [where dec = "dec_receipt desk_client", OF l _ this, of "q'\<lparr>
      rq_headers := rq_headers q' @ [(''content-type'', ''application/json'')], rq_body := RawBody m\<rparr>"] q
  show ?thesis unfolding submit_manifest_def by (auto simp: bindE_def)
qed

lemma live_exists:
  assumes "live c" and "rm_client st = desk_client" and "rm_files st key = Some i"
  shows "\<exists>c'. live c' \<and> registry_object_exists st key c = (Inr True, c')"
proof -
  obtain q' where q: "authorized desk_client (request_to desk_client ''GET'' (object_url st i @ ''/object'')) c = (Inr q', c)"
      "rq_body q' = NoBody"
    using live_authorized [OF assms(1), of "request_to desk_client ''GET'' (object_url st i @ ''/object'')"]
    by (auto simp: request_to_def)
  have "dec_field ''exists'' dec_bool registry_answers = Some True"
    by (simp add: dec_field_def registry_answers_def struct_fields_def required_def dec_bool_def)
  from live_send [where dec = "dec_field ''exists'' dec_bool", OF assms(1) _ this, of q'] q show ?thesis
    by (auto simp: registry_object_exists_def file_id_def assms authorized_store_def registry_json_def comp_defs)
qed


definition bound_store :: "unit RegistryMultipartStore" where
  "bound_store = \<lparr>rm_client = desk_client, rm_server_transfer_id = ''T'', rm_files = [''k'' \<mapsto> 9],
     rm_part_progress = Cell None, rm_pause_flag = Cell (Some (\<lambda>w. (False, w))),
     rm_net = \<lparr>on_schedule = (\<lambda>_ w. ([], w)), on_answer = (\<lambda>q _ w. (Inr (plain_response 200 (rq_url q)), w))\<rparr>\<rparr>"

definition bound_tables :: tables where
  "bound_tables = ready_tables\<lparr>tb_objects := [(object_row_of single_object)\<lparr>or_server_object_id := Some 9,
     or_object_key := Some ''k'', or_upload_id := Some ''u''\<rparr>]\<rparr>"

definition uploading_tables :: tables where
  "uploading_tables = (let row = ready_row\<lparr>t_status := TransferStatus.Uploading, t_updated_at := 2\<rparr> in
     insert_events (\<lambda>_. 1020) 0 (transition_event ready_row row) (ready_tables\<lparr>tb_transfers := [row]\<rparr>))"

lemmas store_eval = transfer_registry_def transfer_registry_session_def transfer_by_id_def manifest_snapshot_def
  bind_registry_object_def update_objects_def update_where_def registry_object_binding_def object_by_id_def both_def

lemma remote_opened:
  assumes "live c"
  shows "\<exists>c'. live c' \<and> open_remote steady_env (Transfer.truncate ready_row) [first_file] [single_object]
      [\<lparr>m_object_id = 9, m_file_id = 9, m_member_index = 0\<rparr>]
      \<lparr>w_db = (quiet uploading_tables)\<lparr>st_tick := 6\<rparr>, w_env = (c, cache_disk), w_trace = []\<rparr>
    = (Inr bound_store, \<lparr>w_db = (quiet (uploading_tables\<lparr>tb_objects := tb_objects bound_tables\<rparr>))\<lparr>st_tick := 11\<rparr>,
         w_env = (c', cache_disk), w_trace = []\<rparr>)"
proof -
  obtain c' x where "live c'" "submit_manifest desk_client ''T'' ''{}'' c = (Inr (Some x), c')"
     "mr_transport_objects x = [\<lparr>ro_id = 9, ro_object_key = ''k'', ro_status = ''s''\<rparr>]"
    using live_submit [OF assms] by blast
  then show ?thesis
    by (simp add: open_remote_def transfer_client_def transfer_url_def registered_id_def immutable_manifest_def
        bind_objects_def desk_db_def on_db_def on_client_state_def or_panic_def store_eval run_eval steady_env_def
        ready_eval table_eval set_pause_flag_def new_store_def bound_store_def bound_tables_def uploading_tables_def
        transition_event_def Transfer.truncate_def)
qed


abbreviation note_in :: "uuid \<Rightarrow> datetime \<Rightarrow> string \<Rightarrow> tables \<Rightarrow> tables" where
  "note_in i at kind t \<equiv> insert_event i (4, at, kind, object_event first_file) t"

definition marked_tables :: tables where
  "marked_tables =
     (let t0 = uploading_tables\<lparr>tb_objects := tb_objects bound_tables\<rparr>;
          t1 = note_in 1110 11 ''object.upload_started'' t0;
          t2 = t1\<lparr>tb_files := [(file_row_of 4 first_file)\<lparr>f_status := FileStatus.Uploaded, f_bytes_completed := 3\<rparr>]\<rparr>;
          t3 = note_in 1170 17 ''object.upload_succeeded'' t2
      in note_in 1200 20 ''object.completed'' t3)"

lemmas upload_eval = upload_object_def object_source_def set_part_progress_observer_def remove_uploaded_pack_def
  upload_missing_parts_observed_def finish_event_def record_transfer_event_def object_event_def
  upload_missing_parts_inner_def already_uploaded_def object_key_def has_transport_object_def has_object_def
  mark_file_uploaded_def update_files_def parts_for_file_def parts_of_def
  complete_uploaded_file_def complete_uploaded_file_inner_def upload_session_def object_exists_def on_remote_def
  on_world_def note_event_def or_panic_def desk_db_def on_db_def desk_runtime_def pause_requested_def
  registry_store_def lift_store_def default_retry_policy_def files_index_def

lemma unit_world [simp]: "c\<lparr>cs_world := ()\<rparr> = (c :: unit client_state)"
  by (cases c) simp

lemma object_uploaded:
  assumes "live c" and t: "t = uploading_tables\<lparr>tb_objects := tb_objects bound_tables\<rparr>"
  shows "\<exists>c' tr. live c' \<and> upload_object steady_env bound_store [single_object] (files_index [first_file])
      single_object [\<lparr>m_object_id = 9, m_file_id = 9, m_member_index = 0\<rparr>]
      \<lparr>w_db = (quiet t)\<lparr>st_tick := 11\<rparr>, w_env = (c, cache_disk), w_trace = []\<rparr>
    = (Inr (), \<lparr>w_db = (quiet marked_tables)\<lparr>st_tick := 22\<rparr>, w_env = (c', cache_disk), w_trace = tr\<rparr>)"
proof -
  let ?watched = "bound_store\<lparr>rm_part_progress := Cell (Some (\<lambda>_ _. ()))\<rparr>"
  obtain c1 where c1: "live c1" "registry_object_exists ?watched ''k'' c = (Inr True, c1)"
    using live_exists [OF assms(1), of ?watched "''k''" 9] by (auto simp: bound_store_def)
  obtain c2 where c2: "live c2" "registry_object_exists bound_store ''k'' c1 = (Inr True, c2)"
    using live_exists [OF c1(1), of bound_store "''k''" 9] by (auto simp: bound_store_def)
  have pieces: "rm_part_progress bound_store = Cell None" "rm_client bound_store = desk_client"
      "bound_store\<lparr>rm_part_progress := Cell None\<rparr> = bound_store" by (simp_all add: bound_store_def)
  show ?thesis
    using c1 c2
    by (simp add: upload_eval run_eval steady_env_def t pieces check_eval ready_eval file_eval store_eval
        bound_tables_def uploading_tables_def marked_tables_def transition_event_def Let_def)
qed


lemma entered:
  "enter_uploading (Transfer.truncate ready_row) \<lparr>w_db = (quiet ready_tables)\<lparr>st_tick := 1\<rparr>, w_env = e, w_trace = []\<rparr>
     = (Inr (), \<lparr>w_db = (quiet uploading_tables)\<lparr>st_tick := 3\<rparr>, w_env = e, w_trace = []\<rparr>)"
  by (simp add: enter_uploading_def desk_db_def on_db_def transition_def get_transfer_def update_transfers_def run_eval
      ready_eval table_eval store_eval uploading_tables_def transition_event_def check_eval file_eval Transfer.truncate_def
      can_transition_to_def)

lemma plan_read:
  "upload_planned steady_env (Transfer.truncate ready_row) \<lparr>w_db = (quiet uploading_tables)\<lparr>st_tick := 3\<rparr>, w_env = e, w_trace = []\<rparr>
     = bindE (tryE (upload_transfer steady_env (Transfer.truncate ready_row) [first_file] [single_object]
           [\<lparr>m_object_id = 9, m_file_id = 9, m_member_index = 0\<rparr>])) (finish_upload 4)
         \<lparr>w_db = (quiet uploading_tables)\<lparr>st_tick := 6\<rparr>, w_env = e, w_trace = []\<rparr>"
  by (simp add: upload_planned_def desk_db_def on_db_def files_for_transfer_def transport_objects_def transport_members_def
      query_def execute_def bindE_def map_errE_def quiet_def uploading_tables_def ready_eval table_eval file_eval
      transition_event_def Transfer.truncate_def FileRecord.truncate_def TransportObjectRecord.truncate_def Let_def)

lemma finished:
  "\<exists>s' t. finish_upload 4 (Inr ()) \<lparr>w_db = (quiet marked_tables)\<lparr>st_tick := 22\<rparr>, w_env = e, w_trace = tr\<rparr> = (Inr t, s')
     \<and> t_status t = TransferStatus.Finalizing"
  by (simp add: finish_upload_def reread_transfer_def desk_db_def on_db_def transition_def get_transfer_def update_transfers_def
      run_eval ready_eval table_eval store_eval uploading_tables_def marked_tables_def bound_tables_def transition_event_def
      check_eval file_eval Transfer.truncate_def can_transition_to_def)

lemma one_run:
  "\<exists>s' t. run_upload steady_env 4 ready_world = (Inr t, s') \<and> t_status t = TransferStatus.Finalizing"
proof -
  let ?c = "new_state (Some old_auth) ()"
  have "live ?c" by (simp add: live_def new_state_def)
  from remote_opened [OF this] obtain c1 where c1: "live c1" and opened: "open_remote steady_env (Transfer.truncate ready_row)
      [first_file] [single_object] [\<lparr>m_object_id = 9, m_file_id = 9, m_member_index = 0\<rparr>]
      \<lparr>w_db = (quiet uploading_tables)\<lparr>st_tick := 6\<rparr>, w_env = (?c, cache_disk), w_trace = []\<rparr>
    = (Inr bound_store, \<lparr>w_db = (quiet (uploading_tables\<lparr>tb_objects := tb_objects bound_tables\<rparr>))\<lparr>st_tick := 11\<rparr>,
         w_env = (c1, cache_disk), w_trace = []\<rparr>)" by blast
  obtain c2 tr where c2: "live c2" and sent: "upload_object steady_env bound_store [single_object] (files_index [first_file])
      single_object [\<lparr>m_object_id = 9, m_file_id = 9, m_member_index = 0\<rparr>]
      \<lparr>w_db = (quiet (uploading_tables\<lparr>tb_objects := tb_objects bound_tables\<rparr>))\<lparr>st_tick := 11\<rparr>, w_env = (c1, cache_disk), w_trace = []\<rparr>
    = (Inr (), \<lparr>w_db = (quiet marked_tables)\<lparr>st_tick := 22\<rparr>, w_env = (c2, cache_disk), w_trace = tr\<rparr>)"
    using object_uploaded [OF c1 refl] by blast
  obtain c3 x where final: "finalize_transfer desk_client ''T'' c2 = (Inr (Some x), c3)" using live_finalize [OF c2] by blast
  have open_one: "\<not> members_uploaded (files_index [first_file]) [\<lparr>m_object_id = 9, m_file_id = 9, m_member_index = 0\<rparr>]"
    by (simp add: members_uploaded_def files_index_def first_file_def)
  have own: "members_of single_object [\<lparr>m_object_id = 9, m_file_id = 9, m_member_index = 0\<rparr>]
      = [\<lparr>m_object_id = 9, m_file_id = 9, m_member_index = 0\<rparr>]" by (simp add: members_of_def single_object_def)
  have "upload_transfer steady_env (Transfer.truncate ready_row) [first_file] [single_object]
      [\<lparr>m_object_id = 9, m_file_id = 9, m_member_index = 0\<rparr>]
      \<lparr>w_db = (quiet uploading_tables)\<lparr>st_tick := 6\<rparr>, w_env = (?c, cache_disk), w_trace = []\<rparr>
    = (Inr (), \<lparr>w_db = (quiet marked_tables)\<lparr>st_tick := 22\<rparr>, w_env = (c3, cache_disk), w_trace = tr\<rparr>)"
    using opened sent final open_one own
    by (simp add: upload_transfer_def comp_defs or_panic_def on_client_state_def bound_store_def)
  moreover have "run_upload steady_env 4 ready_world = upload_planned steady_env (Transfer.truncate ready_row)
      \<lparr>w_db = (quiet uploading_tables)\<lparr>st_tick := 3\<rparr>, w_env = (?c, cache_disk), w_trace = []\<rparr>"
  proof -
    have "transfer_by_id ready_tables 4 = Some ready_row" by (simp add: transfer_by_id_def ready_eval table_eval)
    then have "desk_db (get_transfer 4) ready_world = (Inr (Some (Transfer.truncate ready_row)),
        \<lparr>w_db = (quiet ready_tables)\<lparr>st_tick := 1\<rparr>, w_env = (?c, cache_disk), w_trace = []\<rparr>)"
      by (simp add: desk_db_def on_db_def get_transfer_def query_def execute_def map_errE_def ready_world_def quiet_def Let_def)
    moreover have "t_manifest_version (Transfer.truncate ready_row) = 3"
      by (simp add: Transfer.truncate_def ready_eval table_eval)
    ultimately show ?thesis by (simp add: entered run_upload_def bindE_def thenE_def del: One_nat_def)
  qed
  ultimately show ?thesis using plan_read finished by (simp add: bindE_def tryE_def)
qed

end
