(* ===== verification/DesktopCommands.thy ===== *)
theory DesktopCommands
  imports DesktopUpload
begin

text \<open>
  The desktop application's remaining commands on transfers,
  \<^verbatim>\<open>apps/courier-desktop/src-tauri/src/lib.rs\<close>: clearing transfers with their cached packs,
  refreshing a transfer from the Registry, and the background synchronisation of the event outbox.
\<close>

section \<open>Clearing transfers\<close>

definition forget_pack_cache :: "uuid \<Rightarrow> ('w, unit) desk_run" where
  "forget_pack_cache tid = modifies (\<lambda>s. case remove_pack_cache tid (w_db s, snd (w_env s)) of
     (db', d) \<Rightarrow> s\<lparr>w_db := db', w_env := (fst (w_env s), d)\<rparr>)"

definition discard_transfer :: "('w, 'c, 'h) desk_env \<Rightarrow> uuid \<Rightarrow> ('w, bool) desk_run" where
  "discard_transfer env tid =
     thenE (forget_pack_cache tid)
     (thenE (desk_disk DeskStaging (remove_transfer_pack_directory (dx_database env) tid))
        (desk_db (delete_transfer tid)))"

fun discard_all :: "('w, 'c, 'h) desk_env \<Rightarrow> Transfer list \<Rightarrow> nat \<Rightarrow> ('w, nat) desk_run" where
  "discard_all env [] removed = ok removed"
| "discard_all env (transfer # transfers) removed =
     bindE (discard_transfer env (t_id transfer)) (\<lambda>deleted.
       discard_all env transfers (if deleted then removed + 1 else removed))"

definition clear_transfers :: "('w, 'c, 'h) desk_env \<Rightarrow> TransferStatus \<Rightarrow> ('w, nat) desk_run" where
  "clear_transfers env status =
     (if status \<noteq> TransferStatus.Inventorying \<and> status \<noteq> TransferStatus.Complete
      then fail (DeskMessage ''Only inventorying or completed transfers can be cleared'')
      else bindE (desk_db list_transfers) (\<lambda>transfers.
        discard_all env (filter (\<lambda>t. t_status t = status) transfers) 0))"

definition clear_incomplete_transfers :: "('w, 'c, 'h) desk_env \<Rightarrow> ('w, nat) desk_run" where
  "clear_incomplete_transfers env =
     bindE (desk_db list_transfers) (\<lambda>transfers.
       discard_all env (filter (\<lambda>t. t_status t \<noteq> TransferStatus.Complete) transfers) 0)"

definition clear_transfer :: "('w, 'c, 'h) desk_env \<Rightarrow> uuid \<Rightarrow> ('w, bool) desk_run" where
  "clear_transfer env tid =
     bindE (desk_db (get_transfer tid)) (\<lambda>found.
     case found of
       None \<Rightarrow> fail (DeskMessage (''Transfer not found: '' @ uuid_to_string tid))
     | Some transfer \<Rightarrow>
         if t_status transfer = TransferStatus.Complete
         then fail (DeskMessage ''Completed transfers must be cleared from transfer history instead'')
         else discard_transfer env (t_id transfer))"

section \<open>The Registry's status\<close>

definition remote_target :: "string \<Rightarrow> TransferStatus option" where
  "remote_target status =
     (if status = ''verifying'' then Some TransferStatus.Verifying
      else if status = ''complete'' then Some TransferStatus.Complete
      else if status = ''failed'' then Some TransferStatus.Failed
      else None)"

definition refresh_transfer_status :: "('w, 'c, 'h) desk_env \<Rightarrow> uuid \<Rightarrow> ('w, Transfer) desk_run" where
  "refresh_transfer_status env tid =
     bindE (desk_db (get_transfer tid)) (\<lambda>found.
     case found of
       None \<Rightarrow> fail (DeskMessage (''Transfer not found: '' @ uuid_to_string tid))
     | Some transfer \<Rightarrow>
         (case t_server_transfer_id transfer of
            None \<Rightarrow> ok transfer
          | Some server_id \<Rightarrow>
              bindE (transfer_client env tid) (\<lambda>client.
              bindE (desk_registry (transfer_status client server_id)) (\<lambda>remote.
              thenE (case remote_target (ts_status remote) of
                       None \<Rightarrow> ok ()
                     | Some target \<Rightarrow> desk_db (reconcile_registry_status tid target))
              (thenE (if ts_status remote = ''complete'' then forget_pack_cache tid else ok ())
                (reread_transfer tid))))))"

section \<open>The event outbox\<close>

definition on_both :: "('w, 'a) sync_run \<Rightarrow> ('w, 'a) desk_run" where
  "on_both m = (\<lambda>s. case m (w_db s, fst (w_env s)) of
     (r, (db', c)) \<Rightarrow> ((case r of Inl e \<Rightarrow> Inl (DeskRegistry e) | Inr x \<Rightarrow> Inr x),
                      s\<lparr>w_db := db', w_env := (c, snd (w_env s))\<rparr>))"

text \<open>The synchronisation of one transfer; what the session or the Registry refuses stays queued.\<close>

definition sync_transfer :: "('w, 'c, 'h) desk_env \<Rightarrow> uuid \<Rightarrow> ('w, unit) desk_run" where
  "sync_transfer env tid =
     bindE (desk_db (get_transfer tid)) (\<lambda>found.
     case Option.bind found t_server_transfer_id of
       None \<Rightarrow> ok ()
     | Some server_id \<Rightarrow>
         bindE (desk_db (transfer_registry_session tid)) (\<lambda>session.
         case session of
           None \<Rightarrow> ok ()
         | Some session_id \<Rightarrow>
             bindE (desk_db (transfer_registry tid)) (\<lambda>registry.
             case registry of
               None \<Rightarrow> ok ()
             | Some base_url \<Rightarrow>
                 thenE (tryE (bindE (lift_res (dx_normalize env base_url)) (\<lambda>url.
                   bindE (on_client_state id (dx_session env session_id url)) (\<lambda>client.
                     on_both (sync_transfer_events client (dx_api env) tid server_id)))))
                   (ok ()))))"

definition sync_pending_transfer_events ::
  "('w, 'c, 'h) desk_env \<Rightarrow> uuid option \<Rightarrow> ('w, uuid option) desk_run" where
  "sync_pending_transfer_events env after =
     bindE (desk_db (transfers_with_pending_events after)) (\<lambda>transfers.
     bindE (if transfers = [] \<and> after \<noteq> None then desk_db (transfers_with_pending_events None)
            else ok transfers) (\<lambda>transfers.
       thenE (for_each (sync_transfer env) transfers)
         (ok (if transfers = [] then None else Some (last transfers)))))"

end
