(* ===== verification/DesktopProperties.thy ===== *)
theory DesktopProperties
  imports DesktopRun DesktopCommands
begin

text \<open>
  What the desktop application promises about its transfers: pausing, the progress it reports, the
  preparation of a transfer, and the upload through the Registry. The instances prepare and upload one
  transfer against a Registry with one answer.
\<close>

section \<open>Pausing\<close>

text \<open>Every worker under way is the only one of its dataset, and its flag is the one a pause sets.\<close>

definition reachable_by_pause :: "'k controls \<Rightarrow> bool" where
  "reachable_by_pause s \<longleftrightarrow>
     distinct (map fst (ct_workers s)) \<and> (\<forall>i n. ct_map s i = Some n \<longleftrightarrow> (i, n) \<in> set (ct_workers s))"

lemma map_fst_remove1: "distinct (map fst xs) \<Longrightarrow> w \<in> set xs \<Longrightarrow> map fst (remove1 w xs) = remove1 (fst w) (map fst xs)"
  by (induction xs) (auto simp: image_iff)

lemma insert_control_reachable:
  assumes "reachable_by_pause s" and "ct_map s i = None" shows "reachable_by_pause (insert_control i s)"
proof -
  have "(i, n) \<notin> set (ct_workers s)" for n
    using assms unfolding reachable_by_pause_def by (metis option.distinct(1))
  moreover from this have "i \<notin> fst ` set (ct_workers s)" by force
  ultimately show ?thesis using assms by (auto simp: reachable_by_pause_def insert_control_def)
qed

lemma remove_control_reachable:
  assumes "reachable_by_pause s" and "w \<in> set (ct_workers s)" shows "reachable_by_pause (remove_control w s)"
proof -
  have d: "distinct (map fst (ct_workers s))" "distinct (ct_workers s)"
    using assms(1) distinct_map by (auto simp: reachable_by_pause_def)
  have only: "x = w" if "x \<in> set (ct_workers s)" "fst x = fst w" for x
    using d(1) that assms(2) by (auto simp: distinct_map inj_on_def)
  have "((ct_map s)(fst w := None)) i = Some n \<longleftrightarrow> (i, n) \<in> set (remove1 w (ct_workers s))" for i n
  proof (cases "i = fst w")
    case True
    then have "(i, n) \<notin> set (remove1 w (ct_workers s))" using only [of "(i, n)"] d(2) by auto
    then show ?thesis using True by simp
  next
    case False
    then show ?thesis using assms(1) d(2) by (auto simp: reachable_by_pause_def)
  qed
  moreover have "distinct (map fst (remove1 w (ct_workers s)))"
    using map_fst_remove1 [OF d(1) assms(2)] d(1) by simp
  ultimately show ?thesis by (simp add: reachable_by_pause_def remove_control_def)
qed

lemma set_control_reachable:
  "set_control m i s = Inr s' \<Longrightarrow> reachable_by_pause s \<Longrightarrow> reachable_by_pause s'"
  by (auto simp: set_control_def reachable_by_pause_def split: option.splits)

inductive_cases download_controlsE: "download_controls s s'"

lemma download_controls_reachable: "download_controls s s' \<Longrightarrow> reachable_by_pause s \<Longrightarrow> reachable_by_pause s'"
  by (erule download_controlsE)
    (auto simp: download_dataset_def pause_download_def split: if_splits
      intro: insert_control_reachable remove_control_reachable set_control_reachable)

text \<open>C34: In every state the retrieval commands reach, in any order, each dataset has at most one worker
  under way, and the flag a pause of that dataset sets is that worker's; a pause is refused exactly when
  no worker of the dataset is under way.\<close>

theorem retrievals_can_be_paused:
  assumes "download_controls\<^sup>*\<^sup>* no_controls s"
  shows "distinct (map fst (ct_workers s))
    \<and> (\<forall>(i, n) \<in> set (ct_workers s). \<exists>s'. pause_download i s = Inr s' \<and> ct_flags s' n)
    \<and> (\<forall>i. (\<exists>s'. pause_download i s = Inr s') \<longleftrightarrow> i \<in> fst ` set (ct_workers s))"
proof -
  have "reachable_by_pause s"
    using assms
  proof (induction rule: rtranclp_induct)
    case base
    show ?case by (simp add: reachable_by_pause_def no_controls_def)
  qed (rule download_controls_reachable)
  then show ?thesis
    by (force simp: reachable_by_pause_def pause_download_def set_control_def split: option.splits)
qed

theorem retrievals_can_be_paused_witness:
  "\<exists>s. download_controls\<^sup>*\<^sup>* no_controls s \<and> ct_workers s = [(''d'', 0)]
     \<and> (\<exists>s'. pause_download ''d'' s = Inr s' \<and> ct_flags s' 0)"
proof -
  let ?s = "insert_control ''d'' no_controls"
  have step: "download_controls no_controls ?s"
    by (rule retrieving [of "''d''"]) (simp add: download_dataset_def no_controls_def)
  have w: "ct_workers ?s = [(''d'', 0)]" by (simp add: insert_control_def no_controls_def)
  have reach: "download_controls\<^sup>*\<^sup>* no_controls ?s" using step by (rule r_into_rtranclp)
  have "\<exists>s'. pause_download ''d'' ?s = Inr s' \<and> ct_flags s' 0"
    using retrievals_can_be_paused [OF reach] unfolding w by simp
  then show ?thesis using reach w by blast
qed

text \<open>An upload is not guarded: started twice, its second worker goes on while a pause is refused.\<close>

lemma second_upload_escapes_the_pause:
  "\<exists>s. upload_controls\<^sup>*\<^sup>* no_controls s \<and> (5, 1) \<in> set (ct_workers s)
     \<and> pause_upload 5 s = Inl ''Transfer is not currently uploading''"
proof -
  let ?a = "start_upload 5 no_controls" and ?b = "start_upload 5 (start_upload 5 no_controls)"
  have workers: "ct_workers ?b = [(5, 0), (5, 1)]"
    by (simp add: start_upload_def insert_control_def no_controls_def)
  have "upload_controls no_controls ?a" "upload_controls ?a ?b" by (rule started)+
  moreover have "upload_controls ?b (remove_control (5, 0) ?b)" by (rule ended) (simp add: workers)
  ultimately have "upload_controls\<^sup>*\<^sup>* no_controls (remove_control (5, 0) ?b)"
    by (meson converse_rtranclp_into_rtranclp rtranclp.rtrancl_refl)
  moreover have "(5, 1) \<in> set (ct_workers (remove_control (5, 0) ?b))"
    by (simp add: remove_control_def workers)
  moreover have "pause_upload 5 (remove_control (5, 0) ?b) = Inl ''Transfer is not currently uploading''"
    by (simp add: pause_upload_def set_control_def remove_control_def)
  ultimately show ?thesis by blast
qed

section \<open>Progress\<close>

lemma unat_widened: "unat (ucast (x :: u64) :: 128 word) = unat x"
proof -
  have "unat x < 2 ^ 64" using unat_bound [of x] by simp
  then have "unat x < 2 ^ 128" by simp
  then show ?thesis by (simp add: unsigned_ucast_eq unsigned_take_bit_eq take_bit_nat_eq_self)
qed

lemma unat_narrowed: "unat (ucast (x :: 128 word) :: u64) = unat x mod 2 ^ 64"
  by (simp add: unsigned_ucast_eq unsigned_take_bit_eq take_bit_eq_mod)

lemma scaled_value:
  "unat (scale_transport_progress sent original whole) =
     (if whole = 0 \<or> whole \<le> sent then unat original else unat sent * unat original div unat whole)"
proof (cases "whole = 0 \<or> whole \<le> sent")
  case False
  have "unat sent * unat original < 2 ^ 64 * 2 ^ 64"
    by (rule mult_strict_mono') (use unat_bound [of sent] unat_bound [of original] in simp_all)
  then have prod: "unat (ucast sent * ucast original :: 128 word) = unat sent * unat original"
    by (subst unat_mult_no_wrap) (simp_all add: unat_widened)
  have "0 < unat whole" "unat sent \<le> unat whole" using False by (auto simp: word_le_nat_alt unat_gt_0)
  then have small: "unat sent * unat original div unat whole \<le> unat original"
    by (metis div_le_mono mult_le_mono1 nonzero_mult_div_cancel_left not_gr_zero)
  have "unat (scale_transport_progress sent original whole) = unat sent * unat original div unat whole mod 2 ^ 64"
    using False by (simp add: scale_transport_progress_def unat_narrowed unat_div prod unat_widened)
  also have "\<dots> = unat sent * unat original div unat whole"
    using small unat_bound [of original] by (intro mod_less) simp
  finally show ?thesis using False by simp
qed (simp add: scale_transport_progress_def)

lemma scaled_bound: "unat (scale_transport_progress sent original whole) \<le> unat original"
proof (cases "whole = 0 \<or> whole \<le> sent")
  case False
  then have "0 < unat whole" "unat sent \<le> unat whole" by (auto simp: word_le_nat_alt unat_gt_0)
  then show ?thesis
    using False by (simp add: scaled_value) (metis div_le_mono mult_le_mono1 nonzero_mult_div_cancel_left not_gr_zero)
qed (simp add: scaled_value)

lemma scaled_mono: "a \<le> b \<Longrightarrow> unat (scale_transport_progress a n whole) \<le> unat (scale_transport_progress b n whole)"
  using scaled_bound [of a n whole]
  by (auto simp: scaled_value word_le_nat_alt div_le_mono mult_le_mono1)

definition object_frame :: "DesktopObserver \<Rightarrow> DesktopObserver \<Rightarrow> bool" where
  "object_frame ob ob' \<longleftrightarrow>
     ob_base_confirmed ob' = ob_base_confirmed ob \<and> ob_object_original_bytes ob' = ob_object_original_bytes ob
     \<and> ob_object_transport_bytes ob' = ob_object_transport_bytes ob
     \<and> unat (ob_base_confirmed ob) \<le> unat (ob_confirmed ob')
     \<and> unat (ob_confirmed ob') \<le> unat (ob_base_confirmed ob) + unat (ob_object_original_bytes ob)"

lemma observe_frame: "object_frame ob ob1 \<Longrightarrow> object_frame ob (observe_event ev ob1)"
  using scaled_bound unat_bound [of "ob_base_confirmed ob"]
  by (cases ev)
    (auto simp: object_frame_def observer_part_confirmed_def observer_reconciled_def unat_saturating_add scaled_def
      Let_def intro: min.coboundedI1)

text \<open>C35: The transferred bytes an upload reports stay true to the object: the scaled progress is the exact
  quotient, rounded down, although it is computed in 128 bits and cut to 64; it is monotone and ends at
  the object's size; and whatever the engine tells the observer, in any order, the confirmed bytes stay
  between what was confirmed before the object and that plus the object's size.\<close>

theorem progress_stays_within_the_object:
  assumes "ob_confirmed ob = ob_base_confirmed ob"
  shows "unat (ob_base_confirmed ob) \<le> unat (ob_confirmed (fold observe_event events ob))
    \<and> unat (ob_confirmed (fold observe_event events ob)) \<le> unat (ob_base_confirmed ob) + unat (ob_object_original_bytes ob)
    \<and> unat (scaled ob sent) = (if ob_object_transport_bytes ob = 0 \<or> ob_object_transport_bytes ob \<le> sent
         then unat (ob_object_original_bytes ob)
         else unat sent * unat (ob_object_original_bytes ob) div unat (ob_object_transport_bytes ob))
    \<and> (sent \<le> later \<longrightarrow> unat (scaled ob sent) \<le> unat (scaled ob later))"
proof -
  have "object_frame ob (fold observe_event evs ob1)" if "object_frame ob ob1" for evs ob1
    using that by (induction evs arbitrary: ob1) (simp_all add: observe_frame)
  moreover have "object_frame ob ob" using assms by (simp add: object_frame_def)
  ultimately show ?thesis using scaled_value scaled_mono by (simp add: object_frame_def scaled_def)
qed

theorem progress_stays_within_the_object_witness:
  "let ob = \<lparr>ob_confirmed = 5, ob_base_confirmed = 5, ob_object_original_bytes = 10,
       ob_object_transport_bytes = 4, ob_object_confirmed_transport_bytes = 0\<rparr>
   in unat (ob_confirmed (fold observe_event [PartConfirmed 1 3, PartConfirmed 2 1, Reconciled 3] ob)) \<le> 15
     \<and> unat (scaled ob 3) = 7"
  using progress_stays_within_the_object [of "\<lparr>ob_confirmed = 5, ob_base_confirmed = 5, ob_object_original_bytes = 10,
       ob_object_transport_bytes = 4, ob_object_confirmed_transport_bytes = 0\<rparr>"
      "[PartConfirmed 1 3, PartConfirmed 2 1, Reconciled 3]" 3 3]
  by (simp add: Let_def)

section \<open>Uploading\<close>

text \<open>C32: A transfer reaches \<^verbatim>\<open>finalizing\<close> only when its upload is complete. Whatever a run of the upload
  returns, if the transfer is then \<^verbatim>\<open>finalizing\<close>, every file its plan's objects carry is marked
  uploaded in the database, the run's own trace holds at least as many acknowledged completions as the
  plan had objects with a file still to upload, and the Registry answered the request to finalize with a
  success. A run that returns a transfer returns it \<^verbatim>\<open>finalizing\<close> or \<^verbatim>\<open>paused\<close>.\<close>

theorem finalizing_means_complete:
  assumes "constraints (database s)" and "status_is tid st (database s)" and "st \<noteq> TransferStatus.Finalizing"
    and "run_upload env tid s = (r, s')"
  shows "(transfer_by_id (database s') tid = Some row \<and> t_status row = TransferStatus.Finalizing
        \<longrightarrow> upload_complete tid s s')
    \<and> (r = Inr transfer \<longrightarrow> t_status transfer \<in> {TransferStatus.Finalizing, TransferStatus.Paused}
          \<and> (t_status transfer = TransferStatus.Finalizing \<longrightarrow> upload_complete tid s s'))"
proof -
  obtain st' where st': "status_is tid st' (database s')"
    and evidence: "st' = TransferStatus.Finalizing \<Longrightarrow> upload_complete tid s s'"
    and result: "\<And>t. r = Inr t \<Longrightarrow> t_status t = st' \<and> st' \<in> {TransferStatus.Finalizing, TransferStatus.Paused}"
    using run_upload_finalizing [OF assms] by blast
  have "t_status row = st'" if "transfer_by_id (database s') tid = Some row"
    using found_status [OF that st'] .
  then show ?thesis using evidence result by auto
qed

lemma ready_hypotheses: "constraints (database ready_world)" "status_is 4 TransferStatus.Ready (database ready_world)"
  using ready_ok constraints_of
  by (simp_all add: ready_world_def quiet_def status_is_def ready_tables_def ready_row_def empty_tables_def)

theorem finalizing_means_complete_witness:
  "\<exists>s' t. run_upload steady_env 4 ready_world = (Inr t, s') \<and> t_status t = TransferStatus.Finalizing
     \<and> upload_complete 4 ready_world s'"
  using one_run finalizing_means_complete [OF ready_hypotheses, of steady_env] by blast

text \<open>C33: The desktop upload leaves the database well-formed, whatever the Registry, the object store and the
  disk answer and wherever the run stops: every table still satisfies the schema's keys, references
  and checks, and the event outbox still replays to the status of every transfer; no other transfer's
  status changes.\<close>

theorem upload_keeps_the_database_well_formed:
  assumes "outbox_ok (database s)" and "run_upload env tid s = (r, s')"
  shows "outbox_ok (database s') \<and> constraints (database s')
    \<and> (i \<noteq> tid \<and> status_is i st (database s) \<longrightarrow> status_is i st (database s'))"
proof -
  have ok: "outbox_ok (database s')"
    using keepsD [OF run_upload_keeps [OF outbox_events.upload.transfer_keeps outbox_transition] _ assms(2)] assms(1)
    by (simp add: db_trace_def)
  have "status_is i st (database s')" if "i \<noteq> tid" "status_is i st (database s)"
    using keepsD [OF run_upload_keeps [OF status_events.upload.transfer_keeps other_transition [OF that(1)]] _ assms(2)]
      that(2) by (simp add: db_trace_def)
  then show ?thesis using ok constraints_of by blast
qed

theorem upload_keeps_the_database_well_formed_witness:
  "\<exists>s' t. run_upload steady_env 4 ready_world = (Inr t, s') \<and> outbox_ok (database s')"
proof -
  have "outbox_ok (database ready_world)" using ready_ok by (simp add: ready_world_def quiet_def)
  then show ?thesis using one_run upload_keeps_the_database_well_formed by blast
qed

end
