(* ===== verification/DesktopRecovery.thy ===== *)
theory DesktopRecovery
  imports RegistryApi Transport DiskFrames
begin

text \<open>
  The desktop application's local state at start, \<^verbatim>\<open>apps/courier-desktop/src-tauri/src/lib.rs\<close>: the
  integrity check of the transfer database, and the archive a corrupt database is moved to with its
  journal sidecars, over a disk that may fail at any operation.
\<close>

section \<open>The archive\<close>

text \<open>The error strings before they are formatted.\<close>

datatype startup_error =
    NoParent
  | ArchiveRefused path io_error
  | NotPreserved path path io_error
  | Disappeared path
  | Unchecked path CourierError
  | NotOpened path CourierError
  | CheckFailed CourierError
  | StillCorrupt "string list"

type_synonym 'a startup = "(disk, startup_error, 'a) comp"

definition archive_name :: "string \<Rightarrow> uuid \<Rightarrow> string" where
  "archive_name stamp u = ''courier-db-recovery-'' @ stamp @ ''-'' @ uuid_to_string u"

definition database_files :: "string list" where
  "database_files = ['''', ''-wal'', ''-shm'']"

text \<open>The renames undone, last first; a rename that fails is ignored.\<close>

fun roll_back :: "(path \<times> path) list \<Rightarrow> unit startup" where
  "roll_back [] = ok ()"
| "roll_back ((original, archived) # moved) = thenE (tryE (rename archived original)) (roll_back moved)"

fun preserve :: "path \<Rightarrow> path \<Rightarrow> string list \<Rightarrow> (path \<times> path) list \<Rightarrow> (path \<times> path) list startup" where
  "preserve archive database [] moved = ok moved"
| "preserve archive database (ending # endings) moved =
     (let source = database @ ending in
      bindE (gets (path_exists source)) (\<lambda>present.
      if \<not> present then preserve archive database endings moved
      else (case path_file_name source of
          None \<Rightarrow> preserve archive database endings moved
        | Some name \<Rightarrow>
            let destination = path_join archive name in
            bindE (tryE (rename source destination)) (\<lambda>r. case r of
              Inl error \<Rightarrow> thenE (roll_back (rev moved))
                (thenE (tryE (remove_dir archive)) (fail (NotPreserved source archive error)))
            | Inr _ \<Rightarrow> preserve archive database endings (moved @ [(source, destination)])))))"

definition archive_corrupt_database :: "string \<Rightarrow> uuid \<Rightarrow> path \<Rightarrow> path startup" where
  "archive_corrupt_database stamp u database =
     (case path_parent database of
        None \<Rightarrow> fail NoParent
      | Some parent \<Rightarrow>
          let archive = path_join parent (archive_name stamp u) in
          thenE (map_errE (ArchiveRefused database) (create_dir archive))
          (bindE (preserve archive database database_files []) (\<lambda>moved.
           if moved = [] then thenE (tryE (remove_dir archive)) (fail (Disappeared database))
           else ok archive)))"

section \<open>The check at start\<close>

text \<open>
  SQLite's own work on the database's files is a parameter: opening it for
  \<^verbatim>\<open>PRAGMA integrity_check\<close>, and opening it for the store.
\<close>

record startup_env =
  su_check :: "path \<Rightarrow> (disk, CourierError, string list) comp"
  su_open :: "path \<Rightarrow> (disk, CourierError, unit) comp"
  su_read_dir :: dir_listing
  su_text :: api_text
  su_stamp :: string
  su_uuid :: uuid
  su_now :: nanos

definition ensure_database_integrity :: "startup_env \<Rightarrow> path \<Rightarrow> (path \<times> string) option startup" where
  "ensure_database_integrity env database =
     (let archived = (\<lambda>details. bindE (archive_corrupt_database (su_stamp env) (su_uuid env) database)
            (\<lambda>archive. ok (Some (archive, details)))) in
      bindE (gets (path_exists database)) (\<lambda>present.
      if \<not> present then
        bindE (gets (\<lambda>d. \<exists>ending \<in> {''-wal'', ''-shm''}. path_exists (database @ ending) d)) (\<lambda>has_orphaned_sidecar.
        if has_orphaned_sidecar
        then archived ''SQLite database is missing but journal sidecars remain'' else ok None)
      else
        bindE (tryE (su_check env database)) (\<lambda>checked. case checked of
          Inr results \<Rightarrow> if results = [''ok''] then ok None else archived (join_with ''; '' results)
        | Inl error \<Rightarrow>
            if is_database_corruption error then archived (courier_error_text (su_text env) error)
            else fail (Unchecked database error))))"

text \<open>The clean-up of the pack cache is reported as a diagnostic and never fails the start.\<close>

definition initialize_local_state :: "startup_env \<Rightarrow> path \<Rightarrow> unit startup" where
  "initialize_local_state env database =
     bindE (ensure_database_integrity env database) (\<lambda>recovery_archive.
     thenE (map_errE (NotOpened database) (su_open env database))
     (bindE (map_errE CheckFailed (su_check env database)) (\<lambda>results.
      if results \<noteq> [''ok''] then fail (StillCorrupt results)
      else bindE (tryE (cleanup_stale_staged_packs (su_read_dir env)
             (case path_parent database of Some parent \<Rightarrow> parent | None \<Rightarrow> ''.'') (su_now env))) (\<lambda>_. ok ()))))"

end
