(* ===== verification/DesktopRecoveryProperties.thy ===== *)
theory DesktopRecoveryProperties
  imports DesktopRecovery
begin

text \<open>
  What the desktop application promises about a corrupt database: whatever the disk refuses, each of the
  database's files is still whole, at its place or in the archive.
\<close>

section \<open>Places\<close>

text \<open>On a real disk the parent of a node is a directory.\<close>

definition tree_ok :: "disk \<Rightarrow> bool" where
  "tree_ok d \<longleftrightarrow> (\<forall>k c. dk_nodes d (k @ [c]) \<noteq> None \<longrightarrow> node_at d k = Some Directory)"

text \<open>The node is at exactly one of two places.\<close>

definition at_one :: "location \<Rightarrow> location \<Rightarrow> node \<Rightarrow> disk \<Rightarrow> bool" where
  "at_one k l n d \<longleftrightarrow> (dk_nodes d k = Some n \<and> dk_nodes d l = None) \<or> (dk_nodes d k = None \<and> dk_nodes d l = Some n)"

lemma at_one_sym: "at_one k l n d = at_one l k n d"
  by (auto simp: at_one_def)

lemma rename_at_one:
  assumes "at_one (loc src) (loc dst) (RegularFile bs t) d" and "rename src dst d = (r, d')"
    and "loc src = k @ [Normal v]" and "loc dst = l @ [Normal w]"
  shows "at_one (loc src) (loc dst) (RegularFile bs t) d'
    \<and> (r = Inr x \<longrightarrow> dk_nodes d' (loc dst) = Some (RegularFile bs t))"
  using assms unfolding rename_def disk_op_def
  by (auto simp: at_one_def node_at_def turn_def set_node_def can_replace_def
      split: option.splits if_splits node.splits prod.splits)

lemma rename_only: "rename src dst d = (r, d') \<Longrightarrow> only (tree (loc src) \<union> tree (loc dst)) d d'"
  using keepsD [OF keeps_rename [OF subset_refl subset_refl]] stays_refl unfolding stays_def by blast

lemma rename_elsewhere:
  assumes "k \<notin> tree (loc src) \<union> tree (loc dst)" and "l \<notin> tree (loc src) \<union> tree (loc dst)"
  shows "keeps (at_one k l n) (rename src dst)"
  unfolding keeps_def using rename_only assms unfolding only_def at_one_def by metis

lemma create_dir_elsewhere: "k \<noteq> loc p \<Longrightarrow> l \<noteq> loc p \<Longrightarrow> keeps (at_one k l n) (create_dir p)"
  unfolding create_dir_def
  by (rule keeps_disk_op) (auto simp: at_one_def turn_def set_node_def split: if_splits)

lemma remove_dir_elsewhere: "k \<noteq> loc p \<Longrightarrow> l \<noteq> loc p \<Longrightarrow> keeps (at_one k l n) (remove_dir p)"
  unfolding remove_dir_def
  by (rule keeps_disk_op) (auto simp: at_one_def turn_def set_node_def split: if_splits option.splits node.splits)

section \<open>The database's files\<close>

definition database_in :: "path \<Rightarrow> path" where
  "database_in directory = path_join directory ''courier.db''"

abbreviation named :: "string \<Rightarrow> string" where
  "named ending \<equiv> ''courier.db'' @ ending"

lemma database_file: "database_in directory @ ending = path_join directory (named ending)"
  by (simp add: database_in_def path_join_def is_absolute_def)

lemma named_plain: "ending \<in> set database_files \<Longrightarrow> plain_name (named ending)"
  by (auto simp: database_files_def plain_name_def)

lemma database_slot:
  assumes "ending \<in> set database_files"
  shows "loc (database_in directory @ ending) = loc directory @ [Normal (named ending)]"
    "path_file_name (database_in directory @ ending) = Some (named ending)"
    "loc (path_join archive (named ending)) = loc archive @ [Normal (named ending)]"
proof -
  note plain = named_plain [OF assms]
  show "loc (database_in directory @ ending) = loc directory @ [Normal (named ending)]"
    unfolding database_file using loc_join_name [OF plain] .
  show "loc (path_join archive (named ending)) = loc archive @ [Normal (named ending)]"
    using loc_join_name [OF plain] .
  have "components (path_join directory (named ending)) = components directory @ [Normal (named ending)]"
    using components_path_join [of "named ending" directory] plain_single [OF plain] plain
    by (simp add: plain_name_def)
  then show "path_file_name (database_in directory @ ending) = Some (named ending)"
    by (simp add: database_file path_file_name_def)
qed

lemma database_parent:
  obtains parent where "path_parent (database_in directory) = Some parent" and "loc parent = loc directory"
proof -
  have plain: "plain_name ''courier.db''" by (simp add: plain_name_def)
  have "components (database_in directory) = components directory @ [Normal ''courier.db'']"
    using components_path_join [of "''courier.db''" directory] plain_single [OF plain]
    by (simp add: database_in_def)
  then have "path_parent (database_in directory) = Some (render (components directory))"
    by (simp add: path_parent_def)
  moreover have "loc (render (components directory)) = loc directory"
    using loc_render [OF canonical_components] by (simp add: loc_def)
  ultimately show ?thesis using that by blast
qed

lemma archive_plain: "CHR ''/'' \<notin> set stamp \<Longrightarrow> plain_name (archive_name stamp u)"
  using uuid_chars [of u] by (auto simp: plain_name_def archive_name_def)

lemma archive_differs: "archive_name stamp u \<noteq> named ending"
  by (simp add: archive_name_def)


section \<open>The archive keeps every file\<close>

text \<open>A file of the database with the ending \<open>e\<close>, at its place or in the archive.\<close>

definition held :: "path \<Rightarrow> path \<Rightarrow> string \<Rightarrow> node \<Rightarrow> disk \<Rightarrow> bool" where
  "held directory archive e = at_one (loc (database_in directory @ e)) (loc (path_join archive (named e)))"

definition beside :: "path \<Rightarrow> path \<Rightarrow> bool" where
  "beside directory archive \<longleftrightarrow> (\<exists>w. loc archive = loc directory @ [Normal w] \<and> (\<forall>e. w \<noteq> named e))"

lemma rename_held:
  assumes "e \<in> set database_files" and "held directory archive e (RegularFile bs t) d"
  shows "rename (database_in directory @ e) (path_join archive (named e)) d = (r, d') \<Longrightarrow>
      held directory archive e (RegularFile bs t) d'
      \<and> (r = Inr x \<longrightarrow> dk_nodes d' (loc (path_join archive (named e))) = Some (RegularFile bs t))"
    and "rename (path_join archive (named e)) (database_in directory @ e) d = (r, d') \<Longrightarrow>
      held directory archive e (RegularFile bs t) d'"
proof -
  note slots = database_slot(1) [OF assms(1), of directory] database_slot(3) [OF assms(1), of archive]
  note here = assms(2) [unfolded held_def]
  show "held directory archive e (RegularFile bs t) d'
      \<and> (r = Inr x \<longrightarrow> dk_nodes d' (loc (path_join archive (named e))) = Some (RegularFile bs t))"
    if "rename (database_in directory @ e) (path_join archive (named e)) d = (r, d')"
    unfolding held_def by (rule rename_at_one [OF here that slots])
  show "held directory archive e (RegularFile bs t) d'"
    if "rename (path_join archive (named e)) (database_in directory @ e) d = (r, d')"
    using rename_at_one [OF here [unfolded at_one_sym [of "loc (database_in directory @ e)"]] that slots(2,1)]
    unfolding held_def at_one_sym [of "loc (database_in directory @ e)"] by blast
qed

lemma rename_keeps_held:
  assumes "beside directory archive" and "e \<in> set database_files" and "e' \<in> set database_files"
  shows "keeps (held directory archive e (RegularFile bs t))
           (rename (database_in directory @ e') (path_join archive (named e')))
       \<and> keeps (held directory archive e (RegularFile bs t))
           (rename (path_join archive (named e')) (database_in directory @ e'))"
proof (cases "e = e'")
  case True
  then show ?thesis unfolding keeps_def using rename_held [OF assms(2)] by blast
next
  case False
  obtain w where w: "loc archive = loc directory @ [Normal w]" "w \<noteq> named e'"
    using assms(1) by (auto simp: beside_def)
  have "loc (database_in directory @ e) \<notin> tree (loc (database_in directory @ e')) \<union> tree (loc (path_join archive (named e')))"
    "loc (path_join archive (named e)) \<notin> tree (loc (database_in directory @ e')) \<union> tree (loc (path_join archive (named e')))"
    using False w(2) database_slot [OF assms(2)] database_slot [OF assms(3)] w(1) by (auto simp: in_tree)
  then show ?thesis unfolding held_def by (intro conjI rename_elsewhere) (simp_all add: Un_commute)
qed

lemma archive_dir_keeps_held:
  assumes "beside directory archive" and "e \<in> set database_files"
  shows "keeps (held directory archive e n) (create_dir archive)" "keeps (held directory archive e n) (remove_dir archive)"
proof -
  obtain w where "loc archive = loc directory @ [Normal w]" "w \<noteq> named e"
    using assms(1) by (auto simp: beside_def)
  then have "loc (database_in directory @ e) \<noteq> loc archive" "loc (path_join archive (named e)) \<noteq> loc archive"
    using database_slot(1) [OF assms(2), of directory] database_slot(3) [OF assms(2), of archive] by simp_all
  then show "keeps (held directory archive e n) (create_dir archive)" "keeps (held directory archive e n) (remove_dir archive)"
    unfolding held_def using create_dir_elsewhere remove_dir_elsewhere by blast+
qed

definition pair_of :: "path \<Rightarrow> path \<Rightarrow> path \<times> path \<Rightarrow> bool" where
  "pair_of directory archive p \<longleftrightarrow>
     (\<exists>e \<in> set database_files. p = (database_in directory @ e, path_join archive (named e)))"

lemma roll_back_keeps:
  assumes "\<And>e. e \<in> set database_files \<Longrightarrow>
      keeps I (rename (path_join archive (named e)) (database_in directory @ e))"
    and "list_all (pair_of directory archive) moved"
  shows "keeps I (roll_back moved)"
  using assms(2)
proof (induction moved)
  case (Cons p moved)
  then obtain e where e: "e \<in> set database_files" "p = (database_in directory @ e, path_join archive (named e))"
    by (auto simp: pair_of_def)
  have rest: "keeps I (roll_back moved)" using Cons by simp
  show ?case unfolding e(2) roll_back.simps by (rule keeps_thenE, rule keeps_tryE, rule assms(1) [OF e(1)], rule rest)
qed (simp add: keeps_ok)

text \<open>What the renames, both ways, and the removal of the archive keep, the run keeps.\<close>

lemma preserve_keeps:
  assumes renames: "\<And>e. e \<in> set database_files \<Longrightarrow>
      keeps I (rename (database_in directory @ e) (path_join archive (named e)))
      \<and> keeps I (rename (path_join archive (named e)) (database_in directory @ e))"
    and remove: "keeps I (remove_dir archive)"
    and "set endings \<subseteq> set database_files" and "list_all (pair_of directory archive) moved"
  shows "keeps I (preserve archive (database_in directory) endings moved)"
  using assms(3,4)
proof (induction endings arbitrary: moved)
  case (Cons e endings)
  have e: "e \<in> set database_files" using Cons.prems(1) by simp
  have this_pair: "pair_of directory archive (database_in directory @ e, path_join archive (named e))"
    using e unfolding pair_of_def by blast
  have "list_all (pair_of directory archive) (rev moved)" using Cons.prems(2) by (simp add: list_all_iff)
  then have undone: "keeps I (roll_back (rev moved))" using roll_back_keeps renames by blast
  have go: "keeps I (preserve archive (database_in directory) endings m)" if "list_all (pair_of directory archive) m" for m
    using Cons.IH [OF _ that] Cons.prems(1) by simp
  show ?case
    unfolding preserve.simps Let_def database_slot(2) [OF e] option.case
    by (intro keeps_bindE keeps_if keeps_tryE keeps_gets go Cons.prems(2) renames [OF e, THEN conjunct1])
      (auto simp: Cons.prems(2) this_pair [simplified] split: sum.splits
         intro!: keeps_thenE keeps_tryE keeps_fail go undone remove)
qed (simp add: keeps_ok)

text \<open>A run that succeeds has moved every file of the database that was there.\<close>

lemma preserve_archives:
  assumes "beside directory archive" and "e \<in> set database_files" and "set endings \<subseteq> set database_files"
    and "preserve archive (database_in directory) endings moved d = (Inr m, d')"
    and "held directory archive e (RegularFile bs t) d"
    and "e \<in> set endings \<or> dk_nodes d (loc (path_join archive (named e))) = Some (RegularFile bs t)"
  shows "dk_nodes d' (loc (path_join archive (named e))) = Some (RegularFile bs t)"
  using assms(3-6)
proof (induction endings arbitrary: moved d)
  case Nil
  then show ?case by (simp add: comp_simps)
next
  case (Cons e' endings)
  let ?src = "database_in directory @ e'" and ?dst = "path_join archive (named e')"
    and ?A = "loc (path_join archive (named e))" and ?L = "loc (database_in directory @ e)"
  have e': "e' \<in> set database_files" "set endings \<subseteq> set database_files" using Cons.prems(1) by simp_all
  have L: "?L \<noteq> []" "?L \<noteq> [RootDir]" using database_slot(1) [OF assms(2), of directory] by simp_all
  show ?case
  proof (cases "path_exists ?src d")
    case False
    then have "preserve archive (database_in directory) endings moved d = (Inr m, d')"
      using Cons.prems(2) by (simp add: Let_def bindE_def gets_def)
    moreover have "e \<in> set endings \<or> dk_nodes d ?A = Some (RegularFile bs t)"
      using Cons.prems(3,4) False L by (auto simp: held_def at_one_def path_exists_def node_at_def)
    ultimately show ?thesis using Cons.IH [OF e'(2) _ Cons.prems(3)] by blast
  next
    case True
    obtain r d1 where ren: "rename ?src ?dst d = (r, d1)" by force
    have held1: "held directory archive e (RegularFile bs t) d1"
      using keepsD [OF rename_keeps_held [OF assms(1,2) e'(1), THEN conjunct1] Cons.prems(3) ren] .
    obtain u where r: "r = Inr u"
      using Cons.prems(2) True ren by (cases r)
        (auto simp: database_slot(2) [OF e'(1)] Let_def comp_simps bindE_def gets_def tryE_def)
    have run: "preserve archive (database_in directory) endings (moved @ [(?src, ?dst)]) d1 = (Inr m, d')"
      using Cons.prems(2) True ren r by (simp add: database_slot(2) [OF e'(1)] Let_def bindE_def gets_def tryE_def)
    have "e \<in> set endings \<or> dk_nodes d1 ?A = Some (RegularFile bs t)"
    proof (cases "e = e'")
      case True
      then show ?thesis using rename_held(1) [OF assms(2) Cons.prems(3)] ren r by blast
    next
      case False
      have "?A \<notin> tree (loc ?src) \<union> tree (loc ?dst)"
        using False assms(1) database_slot [OF assms(2)] database_slot [OF e'(1)]
        by (auto simp: beside_def in_tree)
      then show ?thesis using rename_only [OF ren] Cons.prems(4) False by (auto simp: only_def)
    qed
    then show ?thesis using Cons.IH [OF e'(2) run held1] by blast
  qed
qed


definition recovery_area :: "path \<Rightarrow> path \<Rightarrow> location set" where
  "recovery_area directory archive = tree (loc archive) \<union> (\<Union>e \<in> set database_files. tree (loc (database_in directory @ e)))"

lemma recovery_renames:
  assumes "e \<in> set database_files"
  shows "tree (loc (database_in directory @ e)) \<union> tree (loc (path_join archive (named e))) \<subseteq> recovery_area directory archive"
  using assms database_slot(3) [OF assms, of archive] by (auto simp: recovery_area_def in_tree)

lemma remove_dir_stays: "loc p \<in> S \<Longrightarrow> loc p \<in> W \<Longrightarrow> keeps (stays S W d0) (remove_dir p)"
  unfolding remove_dir_def
  by (rule keeps_disk_op) (auto intro: stays_set_node split: if_splits option.splits node.splits)

lemma preserve_stays:
  assumes "set endings \<subseteq> set database_files"
  shows "keeps (stays (recovery_area directory archive) (recovery_area directory archive) d0)
           (preserve archive (database_in directory) endings [])"
proof (rule preserve_keeps [OF _ _ assms])
  fix e assume e: "e \<in> set database_files"
  note area = recovery_renames [OF e, of directory archive]
  show "keeps (stays (recovery_area directory archive) (recovery_area directory archive) d0)
      (rename (database_in directory @ e) (path_join archive (named e))) \<and>
    keeps (stays (recovery_area directory archive) (recovery_area directory archive) d0)
      (rename (path_join archive (named e)) (database_in directory @ e))"
    using keeps_rename area area [unfolded Un_commute [of "tree (loc (database_in directory @ e))"]] by blast
qed (simp_all add: remove_dir_stays recovery_area_def)

lemma archive_runs:
  assumes "CHR ''/'' \<notin> set stamp"
  obtains archive where "beside directory archive"
    and "loc archive = loc directory @ [Normal (archive_name stamp u)]"
    and "archive_corrupt_database stamp u (database_in directory) =
      thenE (map_errE (ArchiveRefused (database_in directory)) (create_dir archive))
        (bindE (preserve archive (database_in directory) database_files []) (\<lambda>moved.
           if moved = [] then thenE (tryE (remove_dir archive)) (fail (Disappeared (database_in directory)))
           else ok archive))"
proof -
  obtain parent where parent: "path_parent (database_in directory) = Some parent" "loc parent = loc directory"
    by (rule database_parent)
  let ?archive = "path_join parent (archive_name stamp u)"
  have "loc ?archive = loc directory @ [Normal (archive_name stamp u)]"
    using loc_join_name [OF archive_plain [OF assms]] parent(2) by simp
  moreover from this have "beside directory ?archive" using archive_differs by (auto simp: beside_def)
  ultimately show ?thesis using that parent(1) by (simp add: archive_corrupt_database_def Let_def)
qed

lemma file_at_place:
  assumes "e \<in> set database_files"
  shows "file_bytes d (database_in directory @ e) = Some bs \<longleftrightarrow>
      (\<exists>t. dk_nodes d (loc (database_in directory @ e)) = Some (RegularFile bs t))"
    and "file_bytes d (path_join archive (named e)) = Some bs \<longleftrightarrow>
      (\<exists>t. dk_nodes d (loc (path_join archive (named e))) = Some (RegularFile bs t))"
  using database_slot(1) [OF assms, of directory] database_slot(3) [OF assms, of archive]
  by (simp_all add: file_bytes_Some)

lemma created_fresh:
  assumes "create_dir p d = (r, d')" and "tree_ok d"
  shows "(r = Inr () \<and> (\<forall>c. dk_nodes d (loc p @ [c]) = None)) \<or> (\<exists>x. r = Inl x \<and> dk_nodes d' = dk_nodes d)"
  using assms unfolding create_dir_def disk_op_def tree_ok_def
  by (fastforce split: option.splits if_splits)

lemma archive_keeps_files:
  assumes "CHR ''/'' \<notin> set stamp" and "tree_ok d" and "e \<in> set database_files"
    and "file_bytes d (database_in directory @ e) = Some bs"
    and "archive_corrupt_database stamp u (database_in directory) d = (r, d')"
  shows "(file_bytes d' (database_in directory @ e) = Some bs
      \<or> file_bytes d' (path_join (path_join directory (archive_name stamp u)) (named e)) = Some bs)
    \<and> (\<forall>a. r = Inr a \<longrightarrow> file_bytes d' (path_join a (named e)) = Some bs
          \<and> \<not> path_exists (database_in directory @ e) d')"
proof -
  obtain archive where archive: "beside directory archive"
    "loc archive = loc directory @ [Normal (archive_name stamp u)]"
    and run: "archive_corrupt_database stamp u (database_in directory) =
      thenE (map_errE (ArchiveRefused (database_in directory)) (create_dir archive))
        (bindE (preserve archive (database_in directory) database_files []) (\<lambda>moved.
           if moved = [] then thenE (tryE (remove_dir archive)) (fail (Disappeared (database_in directory)))
           else ok archive))"
    using archive_runs [OF assms(1)] by blast
  let ?L = "loc (database_in directory @ e)" and ?A = "loc (path_join archive (named e))"
  have A: "?A = loc (path_join (path_join directory (archive_name stamp u)) (named e))"
    using database_slot(3) [OF assms(3)] archive(2) loc_join_name [OF archive_plain [OF assms(1)]] by simp
  have slots: "?L = loc directory @ [Normal (named e)]" "?A = loc archive @ [Normal (named e)]"
    using database_slot [OF assms(3)] by simp_all
  obtain t where t: "dk_nodes d ?L = Some (RegularFile bs t)"
    using assms(4) file_at_place(1) [OF assms(3)] by blast
  obtain r1 d1 where c: "create_dir archive d = (r1, d1)" by force
  show ?thesis
  proof (cases r1)
    case (Inl x)
    then have "r = Inl (ArchiveRefused (database_in directory) x)" "d' = d1"
      using assms(5) c unfolding run by (auto simp: thenE_def bindE_def map_errE_def)
    moreover have "dk_nodes d1 = dk_nodes d" using created_fresh [OF c assms(2)] Inl by blast
    ultimately show ?thesis using t file_at_place(1) [OF assms(3)] by simp
  next
    case (Inr y)
    then have "dk_nodes d ?A = None" using created_fresh [OF c assms(2)] slots(2) by auto
    then have "held directory archive e (RegularFile bs t) d" using t by (simp add: held_def at_one_def)
    then have held1: "held directory archive e (RegularFile bs t) d1"
      using keepsD [OF archive_dir_keeps_held(1) [OF archive(1) assms(3)] _ c] by blast
    obtain r2 d2 where p: "preserve archive (database_in directory) database_files [] d1 = (r2, d2)" by force
    have keeps_rest: "keeps (held directory archive e (RegularFile bs t))
        (preserve archive (database_in directory) database_files [])"
      by (rule preserve_keeps) (use rename_keeps_held [OF archive(1) assms(3)]
        archive_dir_keeps_held(2) [OF archive(1) assms(3)] in \<open>simp_all\<close>)
    have held2: "held directory archive e (RegularFile bs t) d2" using keepsD [OF keeps_rest held1 p] .
    have rest: "(case r2 of Inl x \<Rightarrow> (Inl x, d2) | Inr moved \<Rightarrow>
        (if moved = [] then thenE (tryE (remove_dir archive)) (fail (Disappeared (database_in directory)))
         else ok archive) d2) = (r, d')"
      using assms(5) unfolding run thenE_def bindE_def map_errE_def by (cases r2) (simp_all add: c Inr p)
    have "keeps (held directory archive e (RegularFile bs t))
        (thenE (tryE (remove_dir archive)) (fail (Disappeared (database_in directory))))"
      by (intro keeps_thenE keeps_tryE keeps_fail archive_dir_keeps_held(2) [OF archive(1) assms(3)])
    then have held': "held directory archive e (RegularFile bs t) d'"
      using rest held2 by (auto simp: ok_def keeps_def split: sum.splits if_splits)
    have "dk_nodes d' ?A = Some (RegularFile bs t) \<and> a = archive" if ra: "r = Inr a" for a
    proof -
      obtain m where m: "r2 = Inr m" "d' = d2" "a = archive"
        using rest ra by (auto simp: ok_def thenE_def bindE_def tryE_def fail_def split: sum.splits if_splits prod.splits)
      show ?thesis using preserve_archives [OF archive(1) assms(3) subset_refl p [unfolded m(1)] held1] assms(3) m by simp
    qed
    then show ?thesis
      using held' file_at_place [OF assms(3)] A slots unfolding held_def at_one_def path_exists_def node_at_def
      by (auto simp: file_bytes_Some)
  qed
qed

section \<open>The check at start\<close>

text \<open>The disk after SQLite's check of the database, if there is one.\<close>

definition checked_disk :: "startup_env \<Rightarrow> path \<Rightarrow> disk \<Rightarrow> disk" where
  "checked_disk env database d = (if path_exists database d then snd (su_check env database d) else d)"

lemma ensured_cases:
  assumes "ensure_database_integrity env database d = (r, d')"
  obtains "r = Inr None" and "d' = checked_disk env database d"
      and "path_exists database d \<Longrightarrow> fst (su_check env database d) = Inr [''ok'']"
    | error where "r = Inl (Unchecked database error)" and "d' = checked_disk env database d"
    | details q where "archive_corrupt_database (su_stamp env) (su_uuid env) database (checked_disk env database d) = (q, d')"
      and "r = map_sum id (\<lambda>a. Some (a, details)) q"
proof (cases "path_exists database d")
  case False
  then show ?thesis
    using assms that(1) that(3) [of _ "''SQLite database is missing but journal sidecars remain''"]
    by (auto simp: ensure_database_integrity_def checked_disk_def bindE_def gets_def ok_def Let_def
        split: if_splits prod.splits sum.splits)
next
  case True
  obtain c d1 where c: "su_check env database d = (c, d1)" by force
  show ?thesis
  proof (cases "c = Inr [''ok'']")
    case ok: True
    then show ?thesis using assms that(1) c True
      by (auto simp: ensure_database_integrity_def checked_disk_def bindE_def gets_def ok_def tryE_def Let_def)
  next
    case False
    then show ?thesis using assms that(2) c True
      by (auto simp: ensure_database_integrity_def checked_disk_def bindE_def gets_def ok_def tryE_def fail_def Let_def
          split: sum.splits if_splits prod.splits intro: that(3))
  qed
qed

text \<open>C36: The start never loses the database, whatever SQLite finds and whatever the disk refuses: a file of
  the database that is there after the integrity check, its sidecars included, is whole afterwards, at
  its place or in the recovery archive. When the start goes on without an archive, the check found
  the database sound or there is none, and nothing was moved; when it reports an archive, every
  file of the database is in it and none is left where a fresh database is created.\<close>

theorem startup_never_loses_the_database:
  assumes "ensure_database_integrity env (database_in directory) d = (r, d')"
    and "CHR ''/'' \<notin> set (su_stamp env)" and "tree_ok (checked_disk env (database_in directory) d)"
    and "e \<in> set database_files"
    and "file_bytes (checked_disk env (database_in directory) d) (database_in directory @ e) = Some bs"
  shows "(file_bytes d' (database_in directory @ e) = Some bs
      \<or> file_bytes d' (path_join (path_join directory (archive_name (su_stamp env) (su_uuid env))) (named e)) = Some bs)
    \<and> (r = Inr None \<longrightarrow> d' = checked_disk env (database_in directory) d
         \<and> (path_exists (database_in directory) d \<longrightarrow> fst (su_check env (database_in directory) d) = Inr [''ok'']))
    \<and> (r = Inr (Some (archive, details)) \<longrightarrow> file_bytes d' (path_join archive (named e)) = Some bs
         \<and> \<not> path_exists (database_in directory @ e) d')"
  using assms(1)
proof (cases rule: ensured_cases)
  case (3 details' q)
  note archived = archive_keeps_files [OF assms(2-5) 3(1)]
  have "q = Inr archive" if "r = Inr (Some (archive, details))" using 3(2) that by (cases q) auto
  moreover have "r \<noteq> Inr None" using 3(2) by (cases q) auto
  ultimately show ?thesis using archived by blast
qed (use assms(5) in simp_all)

section \<open>A corrupt database, archived\<close>

definition damaged_disk :: disk where
  "damaged_disk = \<lparr>dk_nodes = (\<lambda>k.
       if k = [RootDir, Normal ''d''] then Some Directory
       else if k = [RootDir, Normal ''d'', Normal ''courier.db''] then Some (RegularFile [1, 2] 0)
       else if k = [RootDir, Normal ''d'', Normal ''courier.db-wal''] then Some (RegularFile [3] 0) else None),
     dk_fault = (\<lambda>_. None), dk_tick = 0, dk_clock = (\<lambda>_. 0)\<rparr>"

definition damaged_env :: startup_env where
  "damaged_env = \<lparr>su_check = (\<lambda>_. ok [''row 1 missing'']), su_open = (\<lambda>_. ok ()), su_read_dir = (\<lambda>_. ok []),
     su_text = \<lparr>at_rfc3339 = (\<lambda>_. ''''), at_timestamp_opt = (\<lambda>_ _. None), at_json = (\<lambda>_. Inl ''''),
       at_sqlite = (\<lambda>_. ''''), at_os = ''''\<rparr>,
     su_stamp = ''t'', su_uuid = 0, su_now = 0\<rparr>"

lemma damaged_checked: "checked_disk damaged_env (database_in ''/d'') damaged_disk = damaged_disk"
  by (simp add: checked_disk_def damaged_env_def ok_def)

lemma damaged_loc: "loc ''/d'' = [RootDir, Normal ''d'']"
  by (simp add: loc_def components_def Let_def is_absolute_def)

lemma damaged_slots:
  "loc (database_in ''/d'') = [RootDir, Normal ''d'', Normal ''courier.db'']"
  "loc (database_in ''/d'' @ ''-wal'') = [RootDir, Normal ''d'', Normal ''courier.db-wal'']"
  "loc (database_in ''/d'' @ ''-shm'') = [RootDir, Normal ''d'', Normal ''courier.db-shm'']"
  using database_slot(1) [of "''''" "''/d''"] database_slot(1) [of "''-wal''" "''/d''"]
    database_slot(1) [of "''-shm''" "''/d''"]
  by (simp_all add: database_files_def damaged_loc)

lemma damaged_run:
  "\<exists>archive details d'. ensure_database_integrity damaged_env (database_in ''/d'') damaged_disk
     = (Inr (Some (archive, details)), d')"
proof -
  obtain archive where archive: "beside ''/d'' archive"
    "loc archive = loc ''/d'' @ [Normal (archive_name ''t'' 0)]"
    and run: "archive_corrupt_database ''t'' 0 (database_in ''/d'') =
      thenE (map_errE (ArchiveRefused (database_in ''/d'')) (create_dir archive))
        (bindE (preserve archive (database_in ''/d'') database_files []) (\<lambda>moved.
           if moved = [] then thenE (tryE (remove_dir archive)) (fail (Disappeared (database_in ''/d'')))
           else ok archive))"
    using archive_runs [of "''t''" "''/d''" 0] by auto
  obtain w where w: "loc archive = [RootDir, Normal ''d'', Normal w]" "\<And>e. w \<noteq> named e"
    using archive(1) by (auto simp: beside_def damaged_loc)
  have apart: "w \<noteq> ''courier.db''" "w \<noteq> ''courier.db-wal''" "w \<noteq> ''courier.db-shm''"
    using w(2) [of "''''"] w(2) [of "''-wal''"] w(2) [of "''-shm''"] by simp_all
  have names: "path_file_name (database_in ''/d'') = Some ''courier.db''"
    "path_file_name (database_in ''/d'' @ ''-wal'') = Some ''courier.db-wal''"
    using database_slot(2) [of "''''" "''/d''"] database_slot(2) [of "''-wal''" "''/d''"]
    by (simp_all add: database_files_def)
  have targets: "loc (path_join archive ''courier.db'') = [RootDir, Normal ''d'', Normal w, Normal ''courier.db'']"
    "loc (path_join archive ''courier.db-wal'') = [RootDir, Normal ''d'', Normal w, Normal ''courier.db-wal'']"
    using database_slot(3) [of "''''" archive] database_slot(3) [of "''-wal''" archive]
    by (simp_all add: database_files_def w(1))
  have "\<exists>d'. archive_corrupt_database ''t'' 0 (database_in ''/d'') damaged_disk = (Inr archive, d')"
    unfolding run database_files_def
    by (simp add: damaged_slots names targets w(1) apart apart [symmetric] Let_def thenE_def bindE_def map_errE_def
        tryE_def gets_def ok_def create_dir_def rename_def disk_op_def path_exists_def can_replace_def
        parent_is_dir_def node_at_def set_node_def damaged_disk_def turn_def)
  then show ?thesis
    by (auto simp: ensure_database_integrity_def damaged_env_def path_exists_def damaged_slots node_at_def
        bindE_def gets_def tryE_def ok_def damaged_disk_def Let_def)
qed

theorem startup_never_loses_the_database_witness:
  "\<exists>archive details d'. ensure_database_integrity damaged_env (database_in ''/d'') damaged_disk
       = (Inr (Some (archive, details)), d')
     \<and> file_bytes d' (path_join archive ''courier.db-wal'') = Some [3]"
proof -
  obtain archive details d' where run:
    "ensure_database_integrity damaged_env (database_in ''/d'') damaged_disk = (Inr (Some (archive, details)), d')"
    using damaged_run by blast
  have "tree_ok damaged_disk"
    by (auto simp: tree_ok_def damaged_disk_def node_at_def split: if_splits)
  moreover have "file_bytes damaged_disk (database_in ''/d'' @ ''-wal'') = Some [3]"
    by (simp add: file_bytes_Some damaged_slots) (simp add: damaged_disk_def)
  moreover have "CHR ''/'' \<notin> set (su_stamp damaged_env)" "''-wal'' \<in> set database_files"
    by (simp_all add: damaged_env_def database_files_def)
  ultimately have "file_bytes d' (path_join archive (named ''-wal'')) = Some [3]"
    using startup_never_loses_the_database [OF run, of "''-wal''" "[3]" archive details] by (simp add: damaged_checked)
  then show ?thesis using run by auto
qed

end
