(* ===== verification/DesktopSession.thy ===== *)
theory DesktopSession
  imports RegistryApi TransferStore
begin

text \<open>
  The desktop application's Registry sessions, \<^verbatim>\<open>apps/courier-desktop/src-tauri/src/lib.rs\<close>: the URL
  check, the credentials in the operating system's vault and their cache, the session records, the
  renewal of a session and the commands that authorize this device.

  The world of a session is the network's state, the local store, the cache, the vault and the
  device lock. What is not the program's is in \<open>session_env\<close>: the URL parser, the invitation's digest,
  the vault, the serialisers, the clock and the biometric prompt. The vault is that of the platforms
  other than macOS. The gate that serialises the renewals is not modelled: a run here is one
  holder's. Times count nanoseconds.
\<close>

section \<open>Registry URLs\<close>

datatype url_host = Domain string | Ipv4 "32 word" | Ipv6 "128 word"

record parsed_url =
  pu_scheme :: string
  pu_username :: string
  pu_password :: "string option"
  pu_query :: "string option"
  pu_fragment :: "string option"
  pu_path :: string
  pu_host :: "url_host option"
  pu_origin :: string

definition is_loopback :: "url_host \<Rightarrow> bool" where
  "is_loopback host =
     (case host of
        Domain name \<Rightarrow> to_ascii_lowercase name = ''localhost''
      | Ipv4 address \<Rightarrow> drop_bit 24 address = 127
      | Ipv6 address \<Rightarrow> address = 1)"

datatype session_error =
    SessionMessage string
  | SessionVault string string
  | SessionSerde string
  | SessionStore CourierError
  | SessionRegistry RegistryError

definition normalize_registry_url :: "(string \<Rightarrow> parsed_url option) \<Rightarrow> string \<Rightarrow> session_error + string" where
  "normalize_registry_url parse_url v =
     (case parse_url (trim v) of
        None \<Rightarrow> Inl (SessionMessage ''Enter a valid Registry URL'')
      | Some parsed \<Rightarrow>
          if pu_scheme parsed \<noteq> ''http'' \<and> pu_scheme parsed \<noteq> ''https''
          then Inl (SessionMessage ''Registry URL must use HTTPS'')
          else if pu_username parsed \<noteq> '''' \<or> pu_password parsed \<noteq> None \<or> pu_query parsed \<noteq> None
                  \<or> pu_fragment parsed \<noteq> None \<or> (pu_path parsed \<noteq> '''' \<and> pu_path parsed \<noteq> ''/'')
          then Inl (SessionMessage ''Registry URL must contain only a scheme, host, and optional port'')
          else (case pu_host parsed of
              None \<Rightarrow> Inl (SessionMessage ''Registry URL must include a host'')
            | Some host \<Rightarrow>
                if pu_scheme parsed \<noteq> ''https'' \<and> \<not> is_loopback host
                then Inl (SessionMessage ''Remote Registry connections require HTTPS'')
                else Inr (pu_origin parsed)))"

section \<open>The world of a session\<close>

record RegistryCredentials =
  rk_access_token :: string
  rk_refresh_token :: string

datatype keyring_error = NoEntry | OtherKeyring string

text \<open>The store here is the local database as the session code opens it, each time anew.\<close>

record ('n, 'v) session_world =
  sw_net :: 'n
  sw_store :: store
  sw_cache :: "string \<Rightarrow> RegistryCredentials option"
  sw_poisoned :: bool
  sw_vault :: 'v
  sw_unlocked :: bool

type_synonym ('n, 'v, 'a) session_run = "(('n, 'v) session_world, session_error, 'a) comp"

record ('n, 'v) session_env =
  se_registry :: "('n, 'v) session_world registry_env"
  se_text :: api_text
  se_parse_url :: "string \<Rightarrow> parsed_url option"
  se_variable :: "string option"
  se_digest :: "string \<Rightarrow> string"
  se_entry :: "string \<Rightarrow> string + unit"
  se_get :: "string \<Rightarrow> 'v \<Rightarrow> (keyring_error + string) \<times> 'v"
  se_put :: "string \<Rightarrow> string \<Rightarrow> 'v \<Rightarrow> (keyring_error + unit) \<times> 'v"
  se_encode :: "RegistryCredentials \<Rightarrow> string + string"
  se_decode :: "string \<Rightarrow> string + RegistryCredentials"
  se_projects :: "RegistryProject list \<Rightarrow> string + string"
  se_clock :: "'n \<Rightarrow> datetime \<times> 'n"
  se_authenticate :: "'n \<Rightarrow> (string + unit) \<times> 'n"
  se_biometric :: "'n \<Rightarrow> bool \<times> 'n"
  se_macos :: bool

type_synonym ('n, 'v) opened_client =
  "('n, 'v) session_world \<Rightarrow>
     ('n, 'v) session_world RegistryClient \<times> ('n, 'v) session_world client_state"

definition on_session_store :: "'a db \<Rightarrow> ('n, 'v, 'a) session_run" where
  "on_session_store m = map_errE SessionStore (\<lambda>w. case m (sw_store w) of (r, st) \<Rightarrow> (r, w\<lparr>sw_store := st\<rparr>))"

definition on_net :: "('n \<Rightarrow> 'a \<times> 'n) \<Rightarrow> ('n, 'v, 'a) session_run" where
  "on_net op = (\<lambda>w. case op (sw_net w) of (x, n) \<Rightarrow> (Inr x, w\<lparr>sw_net := n\<rparr>))"

definition on_vault :: "('v \<Rightarrow> 'a \<times> 'v) \<Rightarrow> ('n, 'v, 'a) session_run" where
  "on_vault op = (\<lambda>w. case op (sw_vault w) of (x, v) \<Rightarrow> (Inr x, w\<lparr>sw_vault := v\<rparr>))"

definition with_registry ::
  "('n, 'v) opened_client
     \<Rightarrow> (('n, 'v) session_world RegistryClient \<Rightarrow> (('n, 'v) session_world, 'a) client_run)
     \<Rightarrow> ('n, 'v, 'a) session_run" where
  "with_registry opened m = map_errE SessionRegistry (\<lambda>w. case opened w of
     (client, c) \<Rightarrow> (case m client c of (r, c') \<Rightarrow> (r, cs_world c')))"

definition default_registry_url :: "('n, 'v) session_env \<Rightarrow> session_error + string" where
  "default_registry_url env = normalize_registry_url (se_parse_url env)
     (case se_variable env of Some v \<Rightarrow> v | None \<Rightarrow> ''https://courier.icyseascolab.io'')"

definition registry_endpoint :: "('n, 'v) session_env \<Rightarrow> ('n, 'v, string) session_run" where
  "registry_endpoint env =
     bindE (on_session_store active_registry) (\<lambda>found.
       lift_res (case found of Some v \<Rightarrow> normalize_registry_url (se_parse_url env) v
                 | None \<Rightarrow> default_registry_url env))"

section \<open>Credentials\<close>

definition invitation_scope :: "('n, 'v) session_env \<Rightarrow> string \<Rightarrow> string" where
  "invitation_scope env invitation_code = ''invite:'' @ se_digest env (trim invitation_code)"

definition credential_entry :: "('n, 'v) session_env \<Rightarrow> string \<Rightarrow> session_error + string" where
  "credential_entry env name =
     (case se_entry env name of Inl e \<Rightarrow> Inl (SessionVault ''prepare'' e) | Inr _ \<Rightarrow> Inr name)"

definition keyring_text :: "keyring_error \<Rightarrow> string" where
  "keyring_text e = (case e of NoEntry \<Rightarrow> ''No matching entry found in secure storage'' | OtherKeyring m \<Rightarrow> m)"

definition decoded :: "string + 'a \<Rightarrow> session_error + 'a" where
  "decoded r = (case r of Inl m \<Rightarrow> Inl (SessionSerde m) | Inr x \<Rightarrow> Inr x)"

definition save_credentials ::
  "('n, 'v) session_env \<Rightarrow> string \<Rightarrow> RegistryCredentials \<Rightarrow> ('n, 'v, unit) session_run" where
  "save_credentials env session_id credentials =
     bindE (lift_res (decoded (se_encode env credentials))) (\<lambda>encoded.
     bindE (lift_res (credential_entry env session_id)) (\<lambda>entry_name.
     bindE (on_vault (se_put env entry_name encoded)) (\<lambda>stored. case stored of
       Inl e \<Rightarrow> fail (SessionVault ''save'' (keyring_text e)) | Inr _ \<Rightarrow> ok ())))"

definition found_credentials ::
  "('n, 'v) session_env \<Rightarrow> keyring_error + string \<Rightarrow> ('n, 'v, RegistryCredentials option) session_run" where
  "found_credentials env found = (case found of
     Inr encoded \<Rightarrow> bindE (lift_res (decoded (se_decode env encoded))) (\<lambda>credentials. ok (Some credentials))
   | Inl NoEntry \<Rightarrow> ok None
   | Inl e \<Rightarrow> fail (SessionVault ''read'' (keyring_text e)))"

definition load_persisted_credentials ::
  "('n, 'v) session_env \<Rightarrow> string \<Rightarrow> string \<Rightarrow> ('n, 'v, RegistryCredentials option) session_run" where
  "load_persisted_credentials env session_id base_url =
     bindE (lift_res (case credential_entry env session_id of
         Inl _ \<Rightarrow> credential_entry env base_url | Inr name \<Rightarrow> Inr name)) (\<lambda>entry_name.
     bindE (on_vault (se_get env entry_name)) (\<lambda>found.
     if found = Inl NoEntry \<and> session_id \<noteq> base_url then
       bindE (lift_res (credential_entry env base_url)) (\<lambda>older.
       bindE (on_vault (se_get env older)) (found_credentials env))
     else found_credentials env found))"

definition locked_cache :: "('n, 'v, unit) session_run" where
  "locked_cache = (\<lambda>w. if sw_poisoned w
     then (Inl (SessionMessage ''Registry credential cache is unavailable''), w) else (Inr (), w))"

definition put_cache :: "string \<Rightarrow> RegistryCredentials \<Rightarrow> ('n, 'v, unit) session_run" where
  "put_cache session_id credentials =
     thenE locked_cache (modifies (\<lambda>w. w\<lparr>sw_cache := (sw_cache w)(session_id \<mapsto> credentials)\<rparr>))"

definition load_credentials ::
  "('n, 'v) session_env \<Rightarrow> string \<Rightarrow> string \<Rightarrow> ('n, 'v, RegistryCredentials option) session_run" where
  "load_credentials env session_id base_url =
     thenE locked_cache
     (bindE (gets (\<lambda>w. sw_cache w session_id)) (\<lambda>cached. case cached of
        Some credentials \<Rightarrow> ok (Some credentials)
      | None \<Rightarrow>
          bindE (load_persisted_credentials env session_id base_url) (\<lambda>persisted. case persisted of
            None \<Rightarrow> ok None
          | Some credentials \<Rightarrow> thenE (put_cache session_id credentials) (ok (Some credentials)))))"

section \<open>Sessions\<close>

definition session_record ::
  "('n, 'v) session_env \<Rightarrow> string \<Rightarrow> string \<Rightarrow> RegistrySession \<Rightarrow> session_error + RegistrySessionRecord" where
  "session_record env base_url session_id session =
     (case se_projects env (ss_projects session) of
        Inl m \<Rightarrow> Inl (SessionSerde m)
      | Inr projects_json \<Rightarrow> Inr \<lparr>rs_session_id = session_id, rs_base_url = base_url,
          rs_expires_at = ss_expires_at session, rs_refresh_expires_at = ss_refresh_expires_at session,
          rs_projects_json = projects_json\<rparr>)"

definition persist_registry_session ::
  "('n, 'v) session_env \<Rightarrow> string \<Rightarrow> string \<Rightarrow> RegistrySession \<Rightarrow> ('n, 'v, unit) session_run" where
  "persist_registry_session env base_url session_id session =
     (let credentials = \<lparr>rk_access_token = ss_access_token session,
                         rk_refresh_token = ss_refresh_token session\<rparr> in
      thenE (save_credentials env session_id credentials)
      (thenE (put_cache session_id credentials)
      (bindE (lift_res (session_record env base_url session_id session)) (\<lambda>record.
        on_session_store (save_registry_session record)))))"

text \<open>The full text of an error; \<open>session_text\<close> is what the observer returns to the client.\<close>

definition session_text :: "('n, 'v) session_env \<Rightarrow> session_error \<Rightarrow> string" where
  "session_text env error =
     (case error of
        SessionMessage m \<Rightarrow> m
      | SessionVault operation e \<Rightarrow> ''Courier could not '' @ operation
          @ '' Registry credentials in the operating system secure credential store: '' @ e
      | SessionSerde m \<Rightarrow> m
      | SessionStore e \<Rightarrow> courier_error_text (se_text env) e
      | SessionRegistry e \<Rightarrow> error_text (new_client (se_registry env) '''' None) e)"

definition session_observer ::
  "('n, 'v) session_env \<Rightarrow> string \<Rightarrow> string \<Rightarrow> RegistrySession \<Rightarrow> ('n, 'v) session_world
     \<Rightarrow> (string + unit) \<times> ('n, 'v) session_world" where
  "session_observer env base_url session_id session =
     map_errE (session_text env) (persist_registry_session env base_url session_id session)"

definition renewing_client ::
  "('n, 'v) session_env \<Rightarrow> string \<Rightarrow> string \<Rightarrow> string \<Rightarrow> string \<Rightarrow> ('n, 'v) opened_client" where
  "renewing_client env session_id base_url access_token refresh_token =
     renewable (se_registry env) base_url access_token refresh_token (session_observer env base_url session_id)"

definition five_minutes :: datetime where
  "five_minutes = 5 * 60 * 1000000000"

definition active_registry_session ::
  "('n, 'v) session_env \<Rightarrow> string \<Rightarrow> string
     \<Rightarrow> ('n, 'v, ('n, 'v) opened_client \<times> RegistrySessionRecord) session_run" where
  "active_registry_session env session_id base_url =
     bindE (on_session_store (registry_session session_id)) (\<lambda>found.
     case found of
       None \<Rightarrow> fail (SessionMessage ''Enter a Registry invitation to authorize this device'')
     | Some metadata \<Rightarrow>
         bindE (gets sw_unlocked) (\<lambda>unlocked.
         if \<not> unlocked then fail (SessionMessage ''Unlock saved Courier project access before continuing'')
         else
           bindE (load_credentials env session_id base_url) (\<lambda>loaded.
           case loaded of
             None \<Rightarrow> fail (SessionMessage
               (''Registry credentials are unavailable in the operating system credential vault; ''
                @ ''enter a new invitation''))
           | Some credentials \<Rightarrow>
               bindE (on_net (se_clock env)) (\<lambda>at.
               if rs_refresh_expires_at metadata \<le> at
               then fail (SessionMessage ''Registry authorization expired; enter a new invitation'')
               else
                 bindE (on_net (se_clock env)) (\<lambda>at.
                 if at + five_minutes < rs_expires_at metadata
                 then ok (renewing_client env session_id base_url (rk_access_token credentials)
                            (rk_refresh_token credentials), metadata)
                 else
                   bindE (with_registry (unauthenticated (se_registry env) base_url)
                            (\<lambda>client. refresh_session client (rk_refresh_token credentials))) (\<lambda>refreshed.
                   thenE (persist_registry_session env base_url session_id refreshed)
                   (bindE (lift_res (session_record env base_url session_id refreshed)) (\<lambda>metadata.
                     ok (renewing_client env session_id base_url (ss_access_token refreshed)
                           (ss_refresh_token refreshed), metadata)))))))))"

section \<open>The commands\<close>

record DeviceAuthorization =
  da_registry_url :: string
  da_expires_at :: datetime
  da_projects :: "RegistryProject list"
  da_hash_algorithm :: HashAlgorithm
  da_purpose :: RegistryInvitationPurpose
  da_downloads :: "RegistryDownloadDataset list"

definition exchange_invitation ::
  "('n, 'v) session_env \<Rightarrow> string \<Rightarrow> string \<Rightarrow> ('n, 'v, DeviceAuthorization) session_run" where
  "exchange_invitation env registry_url invitation_code =
     (let reg = se_registry env in
      bindE (lift_res (normalize_registry_url (se_parse_url env) registry_url)) (\<lambda>base_url.
      let session_id = invitation_scope env invitation_code in
      bindE (with_registry (unauthenticated reg base_url) (\<lambda>client.
               RegistryApi.exchange_invitation client (trim invitation_code) ''courier-desktop'')) (\<lambda>remote.
      bindE (if ss_purpose remote = Download
             then with_registry (authenticated reg base_url (ss_access_token remote)) downloadable_datasets
             else ok []) (\<lambda>downloads.
      bindE (with_registry (unauthenticated reg base_url) system_config) (\<lambda>algorithm.
      thenE (persist_registry_session env base_url session_id remote)
      (thenE (on_session_store (set_active_registry_session session_id base_url))
      (thenE (modifies (\<lambda>w. w\<lparr>sw_unlocked := True\<rparr>))
        (ok \<lparr>da_registry_url = base_url, da_expires_at = ss_expires_at remote,
             da_projects = ss_projects remote, da_hash_algorithm = algorithm,
             da_purpose = ss_purpose remote, da_downloads = downloads\<rparr>))))))))"

definition contains :: "string \<Rightarrow> string \<Rightarrow> bool" where
  "contains text pattern = (\<exists>n \<le> length text. take (length pattern) (drop n text) = pattern)"

text \<open>The requests of one opened client share its token state, so they are one run of it.\<close>

definition current_authorization ::
  "('n, 'v) session_env \<Rightarrow> ('n, 'v, DeviceAuthorization option) session_run" where
  "current_authorization env =
     bindE (registry_endpoint env) (\<lambda>base_url.
     bindE (on_session_store active_registry_session_id) (\<lambda>found.
     case found of
       None \<Rightarrow> fail (SessionMessage ''Enter a Registry invitation to authorize this device'')
     | Some session_id \<Rightarrow>
         bindE (tryE (active_registry_session env session_id base_url)) (\<lambda>active. case active of
           Inl error \<Rightarrow>
             if contains (session_text env error) ''enter a new invitation''
                \<or> contains (session_text env error) ''Enter a Registry invitation''
             then ok None else fail error
         | Inr (opened, metadata) \<Rightarrow>
             bindE (with_registry opened (\<lambda>client. bindE (session_authorization client) (\<lambda>remote.
                 bindE (if ra_purpose remote = Download then downloadable_datasets client else ok [])
                   (\<lambda>downloads. ok (remote, downloads))))) (\<lambda>(remote, downloads).
             bindE (with_registry (unauthenticated (se_registry env) base_url) system_config) (\<lambda>algorithm.
               ok (Some \<lparr>da_registry_url = base_url, da_expires_at = rs_expires_at metadata,
                         da_projects = ra_projects remote, da_hash_algorithm = algorithm,
                         da_purpose = ra_purpose remote, da_downloads = downloads\<rparr>))))))"

definition authenticate_device :: "('n, 'v) session_env \<Rightarrow> ('n, 'v, unit) session_run" where
  "authenticate_device env =
     bindE (on_net (se_authenticate env)) (\<lambda>answer. case answer of
       Inl m \<Rightarrow> fail (SessionMessage m)
     | Inr _ \<Rightarrow>
         bindE (on_session_store active_registry_session_id) (\<lambda>found.
         thenE (case found of
             None \<Rightarrow> ok ()
           | Some session_id \<Rightarrow>
               bindE (on_session_store (registry_session session_id)) (\<lambda>record.
               let base_url = (case record of Some r \<Rightarrow> rs_base_url r | None \<Rightarrow> '''') in
               bindE (load_credentials env session_id base_url) (\<lambda>loaded. case loaded of
                 None \<Rightarrow> fail (SessionMessage
                   ''Saved Registry credentials are unavailable; enter a new invitation'')
               | Some _ \<Rightarrow> ok ())))
           (modifies (\<lambda>w. w\<lparr>sw_unlocked := True\<rparr>))))"

record DeviceAccessStatus =
  dv_has_stored_authorization :: bool
  dv_biometric_available :: bool
  dv_biometric_label :: string
  dv_authentication_required :: bool

definition stored_session :: "string option \<Rightarrow> ('n, 'v, RegistrySessionRecord option) session_run" where
  "stored_session found = (case found of
     None \<Rightarrow> ok None
   | Some session_id \<Rightarrow> bindE (tryE (on_session_store (registry_session session_id))) (\<lambda>r.
       ok (case r of Inr record \<Rightarrow> record | Inl (_ :: session_error) \<Rightarrow> None)))"

definition device_access_status :: "('n, 'v) session_env \<Rightarrow> ('n, 'v, DeviceAccessStatus) session_run" where
  "device_access_status env =
     bindE (on_session_store active_registry_session_id) (\<lambda>found.
     bindE (stored_session found) (\<lambda>session.
     bindE (case session of
         None \<Rightarrow> ok False
       | Some r \<Rightarrow> bindE (on_net (se_clock env)) (\<lambda>at. ok (at < rs_refresh_expires_at r))) (\<lambda>has_stored.
     bindE (on_net (se_biometric env)) (\<lambda>biometric.
       ok \<lparr>dv_has_stored_authorization = has_stored, dv_biometric_available = biometric,
           dv_biometric_label = (if se_macos env \<and> biometric then ''Touch ID''
              else if se_macos env then ''Mac authentication'' else ''Device authentication''),
           dv_authentication_required = se_macos env\<rparr>))))"

end
