(* ===== verification/DesktopSessionProperties.thy ===== *)
theory DesktopSessionProperties
  imports DesktopSession RegistryProperties StoreBehaviour
begin

text \<open>
  What the desktop application promises about its Registry sessions: an accepted invitation survives a
  restart, the tokens of a client and the remembered ones stay the same through a renewal, and no
  session is opened on a locked device.
\<close>

section \<open>The vault\<close>

text \<open>What is relied on: a stored secret is found again, and a decoded one is what was encoded.\<close>

definition vault_keeps :: "('n, 'v) session_env \<Rightarrow> bool" where
  "vault_keeps env \<longleftrightarrow> (\<forall>k x v v'. se_put env k x v = (Inr (), v') \<longrightarrow> fst (se_get env k v') = Inr x)"

definition credentials_decode :: "('n, 'v) session_env \<Rightarrow> bool" where
  "credentials_decode env \<longleftrightarrow> (\<forall>c t. se_encode env c = Inr t \<longrightarrow> se_decode env t = Inr c)"

text \<open>The credentials are in the vault under the session's own entry.\<close>

definition vaulted :: "('n, 'v) session_env \<Rightarrow> string \<Rightarrow> RegistryCredentials \<Rightarrow> 'v \<Rightarrow> bool" where
  "vaulted env i c v \<longleftrightarrow>
     credential_entry env i = Inr i \<and> (\<exists>t. fst (se_get env i v) = Inr t \<and> se_decode env t = Inr c)"

lemma credential_entry_Inr: "credential_entry env i = Inr k \<Longrightarrow> k = i"
  by (simp add: credential_entry_def split: sum.splits)

lemma unit_sum: "\<forall>e. y \<noteq> Inl e \<Longrightarrow> y = Inr ()"
  by (cases y) auto

lemma saved_vaulted:
  assumes "vault_keeps env" and "credentials_decode env" and "save_credentials env i c w = (Inr x, w')"
  shows "vaulted env i c (sw_vault w') \<and> sw_net w' = sw_net w \<and> sw_store w' = sw_store w
    \<and> sw_cache w' = sw_cache w \<and> sw_unlocked w' = sw_unlocked w"
  using assms
  by (auto simp: save_credentials_def comp_simps on_vault_def decoded_def vaulted_def vault_keeps_def
      credentials_decode_def dest!: credential_entry_Inr unit_sum split: sum.splits prod.splits)

lemma loaded_vaulted:
  assumes "vaulted env i c (sw_vault w)" and "sw_cache w i = None" and "\<not> sw_poisoned w"
  shows "\<exists>v. load_credentials env i u w = (Inr (Some c), w\<lparr>sw_vault := v, sw_cache := (sw_cache w)(i \<mapsto> c)\<rparr>)"
proof -
  obtain t where t: "credential_entry env i = Inr i" "fst (se_get env i (sw_vault w)) = Inr t" "se_decode env t = Inr c"
    using assms(1) by (auto simp: vaulted_def)
  obtain v where v: "se_get env i (sw_vault w) = (Inr t, v)" using t(2) by (cases "se_get env i (sw_vault w)") simp
  show ?thesis using assms(2,3) t(1,3) v
    by (auto simp: load_credentials_def load_persisted_credentials_def found_credentials_def put_cache_def
        locked_cache_def comp_defs on_vault_def decoded_def)
qed

lemma loaded_cached:
  assumes "sw_cache w i = Some c" and "\<not> sw_poisoned w"
  shows "load_credentials env i u w = (Inr (Some c), w)"
  using assms by (simp add: load_credentials_def locked_cache_def comp_defs)

definition tokens_of :: "RegistrySession \<Rightarrow> RegistryCredentials" where
  "tokens_of s = \<lparr>rk_access_token = ss_access_token s, rk_refresh_token = ss_refresh_token s\<rparr>"

text \<open>A persisted session: its tokens are in the vault and the cache, its record is in the store.\<close>

lemma persisted_session:
  assumes "persist_registry_session env u i s w = (Inr x, w')" and "vault_keeps env" and "credentials_decode env"
  obtains r where "session_record env u i s = Inr r" and "vaulted env i (tokens_of s) (sw_vault w')"
    and "sw_cache w' = (sw_cache w)(i \<mapsto> tokens_of s)" and "sw_net w' = sw_net w"
    and "save_registry_session r (sw_store w) = (Inr (), sw_store w')" and "sw_unlocked w' = sw_unlocked w"
    and "\<not> sw_poisoned w'"
proof -
  obtain w1 r where 1: "save_credentials env i (tokens_of s) w = (Inr (), w1)" and p: "\<not> sw_poisoned w1"
    and r: "session_record env u i s = Inr r"
    and 2: "on_session_store (save_registry_session r) (w1\<lparr>sw_cache := (sw_cache w1)(i \<mapsto> tokens_of s)\<rparr>) = (Inr x, w')"
    using assms(1)
    by (auto simp: persist_registry_session_def put_cache_def locked_cache_def comp_simps tokens_of_def Let_def
        modifies_def split: if_splits)
  from saved_vaulted [OF assms(2,3) 1] 2 p show ?thesis
    by (intro that [OF r]) (auto simp: on_session_store_def comp_simps split: prod.splits)
qed

section \<open>An accepted invitation\<close>

text \<open>The application started again and the device unlocked, with a database that answers.\<close>

definition restarted :: "('n, 'v) session_world \<Rightarrow> ('n, 'v) session_world \<Rightarrow> bool" where
  "restarted w w' \<longleftrightarrow>
     st_tables (sw_store w') = st_tables (sw_store w) \<and> st_fault (sw_store w') = (\<lambda>_. None)
     \<and> sw_vault w' = sw_vault w \<and> sw_cache w' = (\<lambda>_. None) \<and> \<not> sw_poisoned w' \<and> sw_unlocked w'"

definition invited ::
  "('n, 'v) session_env \<Rightarrow> string \<Rightarrow> string \<Rightarrow> ('n, 'v) session_world \<Rightarrow> RegistrySession \<Rightarrow> bool" where
  "invited env base_url code w session \<longleftrightarrow>
     (\<exists>c. RegistryApi.exchange_invitation (fst (unauthenticated (se_registry env) base_url w)) (trim code)
            ''courier-desktop'' (snd (unauthenticated (se_registry env) base_url w)) = (Inr session, c))"

lemma with_registry_Inr:
  "with_registry opened m w = (Inr x, w') \<longleftrightarrow>
     (\<exists>c. m (fst (opened w)) (snd (opened w)) = (Inr x, c) \<and> w' = cs_world c)"
  by (auto simp: with_registry_def comp_simps split: prod.splits)

lemma on_session_store_Inr:
  "on_session_store m w = (Inr x, w') \<longleftrightarrow> (\<exists>st. m (sw_store w) = (Inr x, st) \<and> w' = w\<lparr>sw_store := st\<rparr>)"
  by (auto simp: on_session_store_def comp_simps split: prod.splits)

lemma modifies_Inr: "modifies f w = (Inr x, w') \<longleftrightarrow> w' = f w"
  by (auto simp: modifies_def)

lemma exchanged:
  assumes "exchange_invitation env url code w = (Inr auth, w')"
  obtains session w1 w2 where "normalize_registry_url (se_parse_url env) url = Inr (da_registry_url auth)"
    and "invited env (da_registry_url auth) code w session"
    and "persist_registry_session env (da_registry_url auth) (invitation_scope env code) session w1 = (Inr (), w2)"
    and "set_active_registry_session (invitation_scope env code) (da_registry_url auth) (sw_store w2) = (Inr (), sw_store w')"
    and "sw_vault w' = sw_vault w2" and "da_expires_at auth = ss_expires_at session" and "sw_unlocked w'"
  using assms unfolding exchange_invitation_def Let_def
  by (clarsimp simp: comp_simps with_registry_Inr on_session_store_Inr modifies_Inr invited_def intro!: that)

lemma saved_session:
  assumes "save_registry_session r st = (Inr x, st1)" and "set_active_registry_session i u st1 = (Inr y, st2)"
    and "rs_session_id r = i" and "st_tables st3 = st_tables st2" and "st_fault st3 = (\<lambda>_. None)"
  shows "registry_session i st3 = (Inr (Some (RegistrySessionRecord.truncate r)), st3\<lparr>st_tick := Suc (st_tick st3)\<rparr>)"
    and "active_registry_session_id st3 = (Inr (Some i), st3\<lparr>st_tick := Suc (st_tick st3)\<rparr>)"
    and "active_registry st3 = (Inr (Some u), st3\<lparr>st_tick := Suc (st_tick st3)\<rparr>)"
  using assms
  by (auto simp: registry_session_def active_registry_session_id_def active_registry_def get_setting_def
      save_registry_session_def set_active_registry_session_def set_active_registry_def put_setting_def comp_simps
      find_upsert RegistrySessionRecord.defs)

text \<open>C37: An accepted invitation outlives the process. After the invitation's exchange succeeded, the
  application is started again with an empty cache, and the device unlocked: the stored active session
  is the invitation's, and until the tokens are about to expire the client it opens bears the
  tokens the Registry issued for that invitation. Opening it sends no request: all that happens to the
  network's side is the two readings of the clock, and the client has sent nothing yet.\<close>

theorem authorization_survives_a_restart:
  assumes "vault_keeps env" and "credentials_decode env"
    and "exchange_invitation env url code w = (Inr auth, w')" and "restarted w' w''"
    and "se_clock env (sw_net w'') = (at1, n1)" and "se_clock env n1 = (at2, n2)"
  shows "\<exists>session. invited env (da_registry_url auth) code w session
    \<and> (\<exists>w3. on_session_store active_registry_session_id w'' = (Inr (Some (invitation_scope env code)), w3))
    \<and> (at1 < ss_refresh_expires_at session \<and> at2 + five_minutes < da_expires_at auth \<longrightarrow>
        (\<exists>opened metadata w3.
           active_registry_session env (invitation_scope env code) (da_registry_url auth) w''
             = (Inr (opened, metadata), w3)
           \<and> sw_net w3 = n2 \<and> cs_trace (snd (opened w3)) = []
           \<and> rs_expires_at metadata = da_expires_at auth
           \<and> cs_auth (snd (opened w3)) = Some \<lparr>as_access_token = ss_access_token session,
                                              as_refresh_token = Some (ss_refresh_token session)\<rparr>))"
proof -
  let ?i = "invitation_scope env code" and ?u = "da_registry_url auth"
  obtain session w1 w2 where session: "invited env ?u code w session"
    and persist: "persist_registry_session env ?u ?i session w1 = (Inr (), w2)"
    and active: "set_active_registry_session ?i ?u (sw_store w2) = (Inr (), sw_store w')"
    and rest: "sw_vault w' = sw_vault w2" "da_expires_at auth = ss_expires_at session"
    using exchanged [OF assms(3)] by metis
  obtain r where r: "session_record env ?u ?i session = Inr r" "vaulted env ?i (tokens_of session) (sw_vault w2)"
    "save_registry_session r (sw_store w1) = (Inr (), sw_store w2)"
    using persisted_session [OF persist assms(1,2)] by metis
  have id: "rs_session_id r = ?i" "rs_expires_at r = ss_expires_at session"
    "rs_refresh_expires_at r = ss_refresh_expires_at session"
    using r(1) by (auto simp: session_record_def split: sum.splits)
  note again = assms(4) [unfolded restarted_def]
  note stored = saved_session [OF r(3) active id(1)]
  have facts: "registry_session ?i (sw_store w'') = (Inr (Some (RegistrySessionRecord.truncate r)),
        sw_store w''\<lparr>st_tick := Suc (st_tick (sw_store w''))\<rparr>)"
    "active_registry_session_id (sw_store w'') = (Inr (Some ?i), sw_store w''\<lparr>st_tick := Suc (st_tick (sw_store w''))\<rparr>)"
    using stored [of "sw_store w''"] again by simp_all
  let ?w = "w''\<lparr>sw_store := sw_store w''\<lparr>st_tick := Suc (st_tick (sw_store w''))\<rparr>\<rparr>"
  obtain v where loaded: "load_credentials env ?i ?u ?w
      = (Inr (Some (tokens_of session)), ?w\<lparr>sw_vault := v, sw_cache := (sw_cache ?w)(?i \<mapsto> tokens_of session)\<rparr>)"
    using loaded_vaulted [of env ?i "tokens_of session" ?w] r(2) again rest(1) by auto
  have "\<exists>w3. active_registry_session env ?i ?u w'' = (Inr (renewing_client env ?i ?u (ss_access_token session)
        (ss_refresh_token session), RegistrySessionRecord.truncate r), w3) \<and> sw_net w3 = n2"
    if "at1 < ss_refresh_expires_at session" "at2 + five_minutes < ss_expires_at session"
    using that again loaded assms(5,6) id
    by (simp add: active_registry_session_def on_session_store_def comp_defs facts(1) map_errE_def on_net_def
        tokens_of_def RegistrySessionRecord.defs)
  then show ?thesis
    using session rest(2) id(2) facts(2)
    by (fastforce simp: renewing_client_def renewable_def new_state_def on_session_store_def map_errE_def
        RegistrySessionRecord.defs)
qed

section \<open>Renewals\<close>

text \<open>What is relied on: a request reaches neither the vault's cache nor the lock that guards it.\<close>

definition network_apart :: "('n, 'v) session_env \<Rightarrow> bool" where
  "network_apart env \<longleftrightarrow> (\<forall>q w a w'. re_send (se_registry env) q w = (a, w') \<longrightarrow>
     sw_cache w' = sw_cache w \<and> sw_poisoned w' = sw_poisoned w)"

text \<open>The tokens of the client and the cached ones are the same.\<close>

definition in_sync :: "string \<Rightarrow> ('n, 'v) session_world client_state \<Rightarrow> bool" where
  "in_sync i s \<longleftrightarrow> (\<exists>c. sw_cache (cs_world s) i = Some c
     \<and> cs_auth s = Some \<lparr>as_access_token = rk_access_token c, as_refresh_token = Some (rk_refresh_token c)\<rparr>)"

definition cached :: "string \<Rightarrow> RegistryCredentials \<Rightarrow> ('n, 'v) session_world client_state \<Rightarrow> bool" where
  "cached i c s \<longleftrightarrow> sw_cache (cs_world s) i = Some c"

lemma send_keeps_cached:
  assumes "network_apart env" and "rc_env self = se_registry env"
  shows "keeps (\<lambda>s. cached i c s \<and> cs_auth s = a) (send_request self q)"
    "keeps (\<lambda>s. cached i c s \<and> cs_auth s = a) (observe l m)"
  using assms unfolding keeps_def network_apart_def cached_def
  by (auto simp: send_request_def observe_def trace_event_def modifies_def split: prod.splits)

lemma again_keeps_cached:
  assumes "network_apart env" and "rc_env self = se_registry env"
  shows "keeps (\<lambda>s. cached i c s \<and> cs_auth s = a) (send_again self q token)"
    "keeps (\<lambda>s. cached i c s \<and> cs_auth s = a) (refresh_session self token)"
  unfolding send_again_def refresh_session_def Let_def
  by (auto intro!: keeps_bindE keeps_thenE keeps_intros send_keeps_cached [OF assms] split: sum.splits)

text \<open>A renewal that succeeds leaves the new tokens in the client and in the cache.\<close>

lemma renewal_in_sync:
  assumes "network_apart env" and "vault_keeps env" and "credentials_decode env"
    and "rc_env self = se_registry env"
    and "refresh_and_replay self (session_observer env u i) retry response s = (Inr x, s')"
  shows "in_sync i s'"
proof -
  obtain token session w1 s1 s2 where
    obs: "session_observer env u i session (cs_world s1) = (Inr (), w1)"
    and again: "send_again self retry (ss_access_token session) s2 = (Inr x, s')"
    and s2: "s2 = s1\<lparr>cs_world := w1, cs_auth := Some \<lparr>as_access_token = ss_access_token session,
        as_refresh_token = Some (ss_refresh_token session)\<rparr>\<rparr>"
    using assms(5) unfolding refresh_and_replay_def
    by (auto simp: comp_simps client_eval split: option.splits sum.splits prod.splits if_splits)
  have "persist_registry_session env u i session (cs_world s1) = (Inr (), w1)"
    using obs by (simp add: session_observer_def comp_simps)
  then have "sw_cache w1 i = Some (tokens_of session)"
    using persisted_session [OF _ assms(2,3)] by (metis fun_upd_same)
  then have "cached i (tokens_of session) s2" by (simp add: cached_def s2)
  then have "cached i (tokens_of session) s' \<and> cs_auth s' = cs_auth s2"
    using keepsD [OF again_keeps_cached(1) [OF assms(1,4)] _ again] by blast
  then show ?thesis by (auto simp: in_sync_def cached_def s2 tokens_of_def)
qed

lemma persisted_net: "keeps (\<lambda>w. sw_net w = n) (load_persisted_credentials env i u)"
proof -
  have "keeps (\<lambda>w. sw_net w = n) (on_vault op)" for op
    unfolding keeps_def on_vault_def by (auto split: prod.splits)
  moreover have "keeps (\<lambda>w. sw_net w = n) (lift_res r)" for r
    unfolding keeps_def lift_res_def by auto
  ultimately show ?thesis unfolding load_persisted_credentials_def found_credentials_def
    by (auto intro!: keeps_bindE keeps_intros split: sum.splits keyring_error.splits)
qed

lemma cached_load:
  assumes "load_credentials env i u w = (Inr (Some c), w')"
  shows "sw_cache w' i = Some c \<and> sw_net w' = sw_net w"
proof (cases "sw_cache w i")
  case None
  obtain r w1 where p: "load_persisted_credentials env i u w = (r, w1)" by force
  have "\<not> sw_poisoned w"
    using assms by (cases "sw_poisoned w") (simp_all add: load_credentials_def locked_cache_def comp_defs)
  then have run: "(case r of Inl e \<Rightarrow> (Inl e, w1) | Inr persisted \<Rightarrow>
      (case persisted of None \<Rightarrow> ok None | Some c' \<Rightarrow> thenE (put_cache i c') (ok (Some c'))) w1) = (Inr (Some c), w')"
    using assms None p
    by (simp add: load_credentials_def locked_cache_def bindE_def thenE_def gets_def) (cases r; cases "projr r"; simp add: bindE_def thenE_def)
  obtain c' where r: "r = Inr (Some c')" using run by (cases r; cases "projr r") (auto simp: ok_def)
  have "thenE (put_cache i c') (ok (Some c')) w1 = (Inr (Some c), w')" using run r by simp
  then have w': "w' = w1\<lparr>sw_cache := (sw_cache w1)(i \<mapsto> c)\<rparr>"
    by (cases "sw_poisoned w1") (auto simp: put_cache_def locked_cache_def comp_defs)
  have "sw_net w1 = sw_net w" using keepsD [OF persisted_net refl p] .
  then show ?thesis unfolding w' by simp
next
  case (Some c')
  then show ?thesis using assms unfolding load_credentials_def
    by (auto simp: comp_simps locked_cache_def gets_def ok_def split: if_splits)
qed

text \<open>C38: The tokens of an opened client and the remembered ones never part. A session is opened only on an
  unlocked device and for a record whose authorization has not run out; the client then bears the
  cached tokens, and after every request that succeeds, a renewal within it included, it still bears
  the cached ones, so that the next client starts from the tokens the Registry issued last.\<close>

theorem client_and_cache_stay_in_sync:
  assumes "network_apart env" and "vault_keeps env" and "credentials_decode env"
    and "active_registry_session env i u w = (Inr (opened, metadata), w')"
  shows "sw_unlocked w \<and> in_sync i (snd (opened w'))
    \<and> (\<exists>stored st. registry_session i (sw_store w) = (Inr (Some stored), st)
        \<and> fst (se_clock env (sw_net w)) < rs_refresh_expires_at stored)
    \<and> (in_sync i s \<and> send_json (fst (opened w')) dec q s = (Inr x, s') \<longrightarrow> in_sync i s')"
proof -
  obtain stored st c w1 at1 n1 at2 n2 where
    stored: "registry_session i (sw_store w) = (Inr (Some stored), st)" and unlocked: "sw_unlocked w"
    and load: "load_credentials env i u (w\<lparr>sw_store := st\<rparr>) = (Inr (Some c), w1)"
    and clock: "se_clock env (sw_net w1) = (at1, n1)" "at1 < rs_refresh_expires_at stored" "se_clock env n1 = (at2, n2)"
    and rest: "(if at2 + five_minutes < rs_expires_at stored
        then ok (renewing_client env i u (rk_access_token c) (rk_refresh_token c), stored)
        else bindE (with_registry (unauthenticated (se_registry env) u)
               (\<lambda>client. refresh_session client (rk_refresh_token c))) (\<lambda>refreshed.
             thenE (persist_registry_session env u i refreshed)
             (bindE (lift_res (session_record env u i refreshed)) (\<lambda>metadata.
               ok (renewing_client env i u (ss_access_token refreshed) (ss_refresh_token refreshed), metadata)))))
        (w1\<lparr>sw_net := n2\<rparr>) = (Inr (opened, metadata), w')"
    using assms(4) unfolding active_registry_session_def
    by (auto simp: bindE_Inr_iff on_session_store_Inr on_net_def gets_def fail_def not_le
        split: option.splits if_splits prod.splits)
  have net: "sw_net w1 = sw_net w" "sw_cache w1 i = Some c" using cached_load [OF load] by simp_all
  obtain c' where opened: "opened = renewing_client env i u (rk_access_token c') (rk_refresh_token c')"
    and cache: "sw_cache w' i = Some c'"
  proof (cases "at2 + five_minutes < rs_expires_at stored")
    case True
    then show ?thesis using rest net(2) by (intro that [of c]) (auto simp: ok_def)
  next
    case False
    then obtain refreshed w2 where "persist_registry_session env u i refreshed w2 = (Inr (), w')"
      "opened = renewing_client env i u (ss_access_token refreshed) (ss_refresh_token refreshed)"
      using rest by (auto simp: bindE_Inr_iff thenE_Inr_iff lift_res_def ok_def)
    then show ?thesis using that [of "tokens_of refreshed"] persisted_session [OF _ assms(2,3)]
      by (metis tokens_of_def fun_upd_same RegistryCredentials.select_convs(1,2))
  qed
  let ?client = "fst (opened w')"
  have client: "rc_env ?client = se_registry env" "rc_observer ?client = Some (session_observer env u i)"
    by (simp_all add: opened renewing_client_def renewable_def new_client_def)
  have "in_sync i s'" if sync: "in_sync i s" and run: "send_json ?client dec q s = (Inr x, s')"
  proof -
    obtain c where c: "cached i c s" "cs_auth s = Some \<lparr>as_access_token = rk_access_token c,
        as_refresh_token = Some (rk_refresh_token c)\<rparr>"
      using sync by (auto simp: in_sync_def cached_def)
    obtain y s1 where sent: "send_request ?client q s = (Inr y, s1)"
      by (cases "re_send (rc_env ?client) q (cs_world s)") (simp add: send_request_def)
    then obtain answer where y: "y = Inr answer"
      using run unfolding send_json_def Let_def by (cases y) (auto simp: bindE_def thenE_def observe_def trace_event_def
          modifies_def fail_def)
    note send = sent [unfolded y]
    have s1: "cached i c s1 \<and> cs_auth s1 = cs_auth s"
      using keepsD [OF send_keeps_cached(1) [OF assms(1) client(1)] _ send] c(1) by blast
    then have sync1: "in_sync i s1" using c by (auto simp: in_sync_def cached_def)
    have "s' = s1 \<or> (\<exists>retry x. refresh_and_replay ?client (session_observer env u i) retry answer s1 = (Inr x, s'))"
      using run send client(2) s1 c(2) unfolding send_json_def Let_def
      by (auto simp: bindE_Inr_iff thenE_Inr_iff gets_def lift_res_def ok_def fail_def
          split: option.splits if_splits)
    then show ?thesis using sync1 renewal_in_sync [OF assms(1-3) client(1)] by blast
  qed
  moreover have "in_sync i (snd (opened w'))"
    using cache by (simp add: opened renewing_client_def renewable_def new_state_def in_sync_def)
  ultimately show ?thesis using stored unlocked clock(1,2) net(1) by auto
qed

section \<open>A Registry that invites\<close>

definition answer_json :: json where
  "answer_json = JObj [(''access_token'', JStr ''a2''), (''refresh_token'', JStr ''r2''),
     (''expires_at'', JStr ''t''), (''refresh_expires_at'', JStr ''t''), (''projects'', JArr []),
     (''purpose'', JStr ''upload''), (''hash_algorithm'', JStr ''sha256'')]"

text \<open>It refuses the token \<^verbatim>\<open>a1\<close> and accepts every other request.\<close>

definition inviting :: "(unit, string \<Rightarrow> string option) session_world registry_env" where
  "inviting = \<lparr>re_send = (\<lambda>q w. (Inr (plain_response
         (if (''authorization'', ''Bearer a1'') \<in> set (rq_headers q) then 401 else 200) (rq_url q)), w)),
     re_json = (\<lambda>_. Inr answer_json), re_is_json = (\<lambda>_. False), re_status_text = (\<lambda>_. ''''),
     re_uuid = (\<lambda>_. None), re_time = (\<lambda>_. Some (10 ^ 15)), re_draw = (\<lambda>n w. (0, w))\<rparr>"

definition slash_encode :: "RegistryCredentials \<Rightarrow> string + string" where
  "slash_encode c = (if CHR ''/'' \<in> set (rk_access_token c) then Inl ''''
     else Inr (rk_access_token c @ ''/'' @ rk_refresh_token c))"

definition slash_decode :: "string \<Rightarrow> string + RegistryCredentials" where
  "slash_decode t = Inr \<lparr>rk_access_token = takeWhile (\<lambda>c. c \<noteq> CHR ''/'') t,
     rk_refresh_token = tl (dropWhile (\<lambda>c. c \<noteq> CHR ''/'') t)\<rparr>"

definition home_env :: "(unit, string \<Rightarrow> string option) session_env" where
  "home_env = \<lparr>se_registry = inviting,
     se_text = \<lparr>at_rfc3339 = (\<lambda>_. ''''), at_timestamp_opt = (\<lambda>_ _. None), at_json = (\<lambda>_. Inl ''''),
       at_sqlite = (\<lambda>_. ''''), at_os = ''''\<rparr>,
     se_parse_url = (\<lambda>_. Some \<lparr>pu_scheme = ''https'', pu_username = '''', pu_password = None, pu_query = None,
       pu_fragment = None, pu_path = ''/'', pu_host = Some (Domain ''r''), pu_origin = ''https://r''\<rparr>),
     se_variable = None, se_digest = id, se_entry = (\<lambda>_. Inr ()),
     se_get = (\<lambda>k v. (case v k of None \<Rightarrow> Inl NoEntry | Some t \<Rightarrow> Inr t, v)),
     se_put = (\<lambda>k t v. (Inr (), v(k \<mapsto> t))), se_encode = slash_encode, se_decode = slash_decode,
     se_projects = (\<lambda>_. Inr ''[]''), se_clock = (\<lambda>n. (0, n)), se_authenticate = (\<lambda>n. (Inr (), n)),
     se_biometric = (\<lambda>n. (False, n)), se_macos = False\<rparr>"

lemma home_laws: "vault_keeps home_env" "credentials_decode home_env" "network_apart home_env"
proof -
  show "credentials_decode home_env"
    unfolding credentials_decode_def home_env_def
  proof (simp, intro allI impI)
    fix c t assume t: "slash_encode c = Inr t"
    then have plain: "\<forall>x \<in> set (rk_access_token c). x \<noteq> CHR ''/''"
      and t': "t = rk_access_token c @ CHR ''/'' # rk_refresh_token c"
      by (auto simp: slash_encode_def split: if_splits)
    show "slash_decode t = Inr c"
      using plain by (simp add: slash_decode_def t' takeWhile_append2 dropWhile_append2)
  qed
qed (simp_all add: vault_keeps_def network_apart_def home_env_def inviting_def)

type_synonym home = "(unit, string \<Rightarrow> string option) session_world"

definition home_world :: home where
  "home_world = \<lparr>sw_net = (), sw_store = \<lparr>st_tables = empty_tables, st_tick = 0, st_now = (\<lambda>_. 0),
       st_fresh = (\<lambda>_ _. 0), st_fault = (\<lambda>_. None)\<rparr>,
     sw_cache = (\<lambda>_. None), sw_poisoned = False, sw_vault = (\<lambda>_. None), sw_unlocked = False\<rparr>"

definition issued :: RegistrySession where
  "issued = \<lparr>ss_access_token = ''a2'', ss_refresh_token = ''r2'', ss_expires_at = 10 ^ 15,
     ss_refresh_expires_at = 10 ^ 15, ss_projects = [], ss_purpose = RegistryInvitationPurpose.Upload\<rparr>"

lemma issued_fields [simp]: "ss_purpose issued = RegistryInvitationPurpose.Upload" "ss_expires_at issued = 10 ^ 15"
  "ss_refresh_expires_at issued = 10 ^ 15" "ss_access_token issued = ''a2''" "ss_refresh_token issued = ''r2''"
  by (simp_all add: issued_def)

lemmas inviting_eval = inviting_def answer_json_def new_state_def new_client_def plain_response_def client_eval
  send_json_def request_to_def response_json_def is_success_def try_clone_def method_name_def dec_session_def
  dec_purpose_def dec_time_def dec_list_def dec_string_def struct_fields_def required_def Let_def

lemma inviting_session:
  fixes w :: home
  shows "\<exists>c. RegistryApi.exchange_invitation (fst (unauthenticated inviting u w)) code i (snd (unauthenticated inviting u w))
     = (Inr issued, c) \<and> cs_world c = w"
  by (simp add: RegistryApi.exchange_invitation_def unauthenticated_def issued_def inviting_eval)

lemma inviting_config:
  fixes w :: home
  shows "with_registry (unauthenticated inviting u) system_config w = (Inr Sha256, w)"
  by (simp add: with_registry_def system_config_def unauthenticated_def dec_system_config_def dec_hash_algorithm_def
      hash_algorithm_fmt_def
      map_errE_def inviting_eval)

lemma home_exchange:
  "\<exists>auth w'. exchange_invitation home_env ''https://r'' ''code'' home_world = (Inr auth, w')
     \<and> da_registry_url auth = ''https://r'' \<and> da_expires_at auth = 10 ^ 15"
proof -
  have invite: "with_registry (unauthenticated inviting u) (\<lambda>client.
      RegistryApi.exchange_invitation client code i) w = (Inr issued, w)" for u code i and w :: home
    using inviting_session [of u w code i]
    unfolding with_registry_def map_errE_def by (auto split: prod.splits)
  have url: "normalize_registry_url (se_parse_url home_env) v = Inr ''https://r''" for v
    by (simp add: normalize_registry_url_def home_env_def)
  have save: "\<exists>w'. persist_registry_session home_env u i issued home_world = (Inr (), w')
      \<and> st_fault (sw_store w') = (\<lambda>_. None)" for u i
    by (simp add: persist_registry_session_def save_credentials_def put_cache_def locked_cache_def session_record_def
        on_session_store_def save_registry_session_def execute_def comp_defs map_errE_def on_vault_def decoded_def
        credential_entry_def home_env_def home_world_def issued_def slash_encode_def Let_def)
  obtain w1 where w1: "persist_registry_session home_env ''https://r'' (invitation_scope home_env ''code'') issued home_world
      = (Inr (), w1)" "st_fault (sw_store w1) = (\<lambda>_. None)" using save by blast
  obtain w2 where w2: "on_session_store (set_active_registry_session (invitation_scope home_env ''code'') ''https://r'') w1
      = (Inr (), w2)"
    using w1(2) by (simp add: on_session_store_def set_active_registry_session_def set_active_registry_def put_setting_def
        execute_def comp_defs map_errE_def Let_def)
  have reg: "se_registry home_env = inviting" by (simp add: home_env_def)
  show ?thesis
    unfolding exchange_invitation_def Let_def reg
    by (simp add: bindE_def thenE_def lift_res_def url invite inviting_config w1(1) w2 ok_def modifies_def)
qed

theorem authorization_survives_a_restart_witness:
  "\<exists>auth w' w'' opened metadata w3.
     exchange_invitation home_env ''https://r'' ''code'' home_world = (Inr auth, w') \<and> restarted w' w''
     \<and> active_registry_session home_env (invitation_scope home_env ''code'') ''https://r'' w''
         = (Inr (opened, metadata), w3)
     \<and> cs_auth (snd (opened w3)) = Some \<lparr>as_access_token = ''a2'', as_refresh_token = Some ''r2''\<rparr>"
proof -
  obtain auth w' where run: "exchange_invitation home_env ''https://r'' ''code'' home_world = (Inr auth, w')"
    and auth: "da_registry_url auth = ''https://r''" "da_expires_at auth = 10 ^ 15"
    using home_exchange by blast
  let ?w = "w'\<lparr>sw_store := (sw_store w')\<lparr>st_fault := (\<lambda>_. None)\<rparr>, sw_cache := (\<lambda>_. None), sw_poisoned := False,
      sw_unlocked := True\<rparr>"
  have again: "restarted w' ?w" by (simp add: restarted_def)
  have clock: "se_clock home_env n = (0, n)" for n by (simp add: home_env_def)
  obtain session where s: "invited home_env ''https://r'' ''code'' home_world session"
    and opened: "0 < ss_refresh_expires_at session \<and> 0 + five_minutes < da_expires_at auth \<longrightarrow>
        (\<exists>opened metadata w3.
           active_registry_session home_env (invitation_scope home_env ''code'') ''https://r'' ?w
             = (Inr (opened, metadata), w3)
           \<and> sw_net w3 = sw_net ?w \<and> cs_trace (snd (opened w3)) = []
           \<and> rs_expires_at metadata = da_expires_at auth
           \<and> cs_auth (snd (opened w3)) = Some \<lparr>as_access_token = ss_access_token session,
                                              as_refresh_token = Some (ss_refresh_token session)\<rparr>)"
    using authorization_survives_a_restart [OF home_laws(1,2) run again clock clock] unfolding auth(1) by blast
  obtain c where c: "RegistryApi.exchange_invitation (fst (unauthenticated inviting ''https://r'' home_world)) (trim ''code'')
      ''courier-desktop'' (snd (unauthenticated inviting ''https://r'' home_world)) = (Inr issued, c)"
    using inviting_session by blast
  have reg: "se_registry home_env = inviting" by (simp add: home_env_def)
  have "session = issued" using s c unfolding invited_def reg by auto
  then obtain opened metadata w3 where
    "active_registry_session home_env (invitation_scope home_env ''code'') ''https://r'' ?w = (Inr (opened, metadata), w3)"
    "cs_auth (snd (opened w3)) = Some \<lparr>as_access_token = ''a2'', as_refresh_token = Some ''r2''\<rparr>"
    using opened auth(2) by (auto simp: five_minutes_def)
  then show ?thesis using run again by blast
qed

definition remembering :: home where
  "remembering = home_world\<lparr>sw_store := (sw_store home_world)\<lparr>st_tables := empty_tables\<lparr>tb_sessions :=
       [\<lparr>rs_session_id = ''s'', rs_base_url = ''https://r'', rs_expires_at = 10 ^ 15, rs_refresh_expires_at = 10 ^ 15,
         rs_projects_json = ''[]'', sr_created_at = 0\<rparr>]\<rparr>\<rparr>,
     sw_cache := (\<lambda>_. None)(''s'' \<mapsto> \<lparr>rk_access_token = ''a1'', rk_refresh_token = ''r1''\<rparr>), sw_unlocked := True\<rparr>"

lemma remembered_session:
  "\<exists>metadata w'. active_registry_session home_env ''s'' ''https://r'' remembering
     = (Inr (renewing_client home_env ''s'' ''https://r'' ''a1'' ''r1'', metadata), w')
     \<and> \<not> sw_poisoned w' \<and> st_fault (sw_store w') = (\<lambda>_. None)"
  by (simp add: active_registry_session_def on_session_store_def registry_session_def query_def execute_def comp_defs
      map_errE_def remembering_def home_world_def empty_tables_def load_credentials_def locked_cache_def on_net_def
      home_env_def five_minutes_def RegistrySessionRecord.defs Let_def)

definition refused :: http_request where
  "refused = \<lparr>rq_method = ''GET'', rq_url = ''https://r/c'', rq_headers = [(''authorization'', ''Bearer a1'')],
     rq_body = NoBody, rq_timeout = None\<rparr>"

lemma refused_renewed:
  fixes w :: home
  assumes "\<not> sw_poisoned w" and "st_fault (sw_store w) = (\<lambda>_. None)"
  shows "\<exists>s'. send_json (fst (renewing_client home_env ''s'' ''https://r'' ''a1'' ''r1'' w)) dec_system_config refused
      (snd (renewing_client home_env ''s'' ''https://r'' ''a1'' ''r1'' w)) = (Inr Sha256, s')
    \<and> cs_auth s' = Some \<lparr>as_access_token = ''a2'', as_refresh_token = Some ''r2''\<rparr>"
proof -
  have observed: "\<exists>w'. session_observer home_env u i
      \<lparr>ss_access_token = ''a2'', ss_refresh_token = ''r2'', ss_expires_at = 1000000000000000,
       ss_refresh_expires_at = 1000000000000000, ss_projects = [], ss_purpose = RegistryInvitationPurpose.Upload\<rparr> w
      = (Inr (), w')" for u i
    using assms
    by (simp add: session_observer_def persist_registry_session_def save_credentials_def put_cache_def locked_cache_def
        session_record_def on_session_store_def save_registry_session_def execute_def comp_defs map_errE_def on_vault_def
        decoded_def credential_entry_def home_env_def slash_encode_def Let_def)
  obtain w' where w': "session_observer home_env ''https://r'' ''s''
      \<lparr>ss_access_token = ''a2'', ss_refresh_token = ''r2'', ss_expires_at = 1000000000000000,
       ss_refresh_expires_at = 1000000000000000, ss_projects = [], ss_purpose = RegistryInvitationPurpose.Upload\<rparr> w
      = (Inr (), w')" using observed by blast
  have reg: "se_registry home_env = inviting" by (simp add: home_env_def)
  show ?thesis unfolding renewing_client_def reg
    by (simp add: renewable_def refused_def refresh_and_replay_def refresh_session_def refresh_request_def send_again_def
        replace_bearer_auth_def valid_header_def byte_of_def dec_system_config_def dec_hash_algorithm_def
        hash_algorithm_fmt_def w' inviting_eval)
qed

theorem client_and_cache_stay_in_sync_witness:
  "\<exists>opened metadata w' s'. active_registry_session home_env ''s'' ''https://r'' remembering = (Inr (opened, metadata), w')
     \<and> send_json (fst (opened w')) dec_system_config refused (snd (opened w')) = (Inr Sha256, s')
     \<and> cs_auth s' = Some \<lparr>as_access_token = ''a2'', as_refresh_token = Some ''r2''\<rparr> \<and> in_sync ''s'' s'"
proof -
  let ?opened = "renewing_client home_env ''s'' ''https://r'' ''a1'' ''r1''"
  obtain metadata w' where run: "active_registry_session home_env ''s'' ''https://r'' remembering = (Inr (?opened, metadata), w')"
    and w': "\<not> sw_poisoned w'" "st_fault (sw_store w') = (\<lambda>_. None)" using remembered_session by blast
  obtain s' where s': "send_json (fst (?opened w')) dec_system_config refused (snd (?opened w')) = (Inr Sha256, s')"
    "cs_auth s' = Some \<lparr>as_access_token = ''a2'', as_refresh_token = Some ''r2''\<rparr>"
    using refused_renewed [OF w'] by blast
  have "in_sync ''s'' s'"
    using client_and_cache_stay_in_sync [OF home_laws(3,1,2) run, of "snd (?opened w')" dec_system_config refused Sha256 s']
      s'(1) by (elim conjE) (rule mp, assumption, rule conjI)
  then show ?thesis using run s' by blast
qed

end
