(* ===== verification/DesktopWiring.thy ===== *)
theory DesktopWiring
  imports DesktopSessionProperties DesktopRun
begin

text \<open>
  The upload driver on the application's own sessions: \<open>wired\<close> puts the session code in the places an
  upload leaves open, and a locked device then sends nothing.
\<close>

section \<open>The sessions of the driver\<close>

fun desk_error :: "('n, 'v) session_env \<Rightarrow> session_error \<Rightarrow> DesktopError" where
  "desk_error env (SessionStore e) = DeskCourier e"
| "desk_error env (SessionRegistry e) = DeskRegistry e"
| "desk_error env e = DeskMessage (session_text env e)"

text \<open>The client of a session continues the run's trace; its token state is its own.\<close>

definition session_client ::
  "('n, 'v) session_env \<Rightarrow> string \<Rightarrow> string \<Rightarrow> ('n, 'v) session_world client_state
     \<Rightarrow> (DesktopError + ('n, 'v) session_world RegistryClient) \<times> ('n, 'v) session_world client_state" where
  "session_client env session_id base_url c =
     (case active_registry_session env session_id base_url (cs_world c) of
        (Inl e, w) \<Rightarrow> (Inl (desk_error env e), c\<lparr>cs_world := w\<rparr>)
      | (Inr (opened, _), w) \<Rightarrow> (case opened w of
           (client, c') \<Rightarrow> (Inr client, c'\<lparr>cs_trace := cs_trace c\<rparr>)))"

definition desk_url :: "('n, 'v) session_env \<Rightarrow> session_error + string \<Rightarrow> DesktopError + string" where
  "desk_url env r = (case r of Inl e \<Rightarrow> Inl (desk_error env e) | Inr u \<Rightarrow> Inr u)"

definition wired ::
  "('n, 'v) session_env \<Rightarrow> (('n, 'v) session_world, 'c, 'h) desk_env \<Rightarrow> (('n, 'v) session_world, 'c, 'h) desk_env" where
  "wired env desk = desk\<lparr>dx_session := session_client env,
     dx_normalize := (\<lambda>v. desk_url env (normalize_registry_url (se_parse_url env) v)),
     dx_default_url := desk_url env (default_registry_url env)\<rparr>"

section \<open>A locked device\<close>

definition silent :: "('n, 'v) session_world desk_state world \<Rightarrow> ('n, 'v) session_world desk_state world \<Rightarrow> bool" where
  "silent s0 s \<longleftrightarrow> w_trace s = w_trace s0 \<and> cs_trace (fst (w_env s)) = cs_trace (fst (w_env s0))
     \<and> \<not> sw_unlocked (cs_world (fst (w_env s)))"

lemma desk_db_silent: "keeps (silent s0) (desk_db m)"
  unfolding keeps_def desk_db_def map_errE_def on_db_def silent_def by (auto split: prod.splits sum.splits)

lemma lift_silent: "keeps (silent s0) (lift_res r)"
  unfolding keeps_def lift_res_def by auto

lemma locked_session:
  assumes "\<not> sw_unlocked w"
  shows "\<exists>e st. active_registry_session env i u w = (Inl e, w\<lparr>sw_store := st\<rparr>)
    \<and> ((\<exists>m. e = SessionMessage m \<and> m \<noteq> ''upload paused'') \<or> (\<exists>x. e = SessionStore x))"
  using assms
  by (auto simp: active_registry_session_def on_session_store_def map_errE_def bindE_def gets_def fail_def
      split: prod.splits sum.splits option.splits)

text \<open>The errors a locked device meets; none of them reads \<^verbatim>\<open>upload paused\<close>.\<close>

definition plain_error :: "DesktopError \<Rightarrow> bool" where
  "plain_error e \<longleftrightarrow> e \<noteq> DeskPanic \<and> \<not> says_paused e"

lemma normalize_errors:
  "normalize_registry_url parse v = Inl e \<Longrightarrow> \<exists>m. e = SessionMessage m \<and> m \<noteq> ''upload paused''"
  by (auto simp: normalize_registry_url_def split: option.splits if_splits)

lemma url_errors:
  assumes "desk_url env r = Inl e" and "r = normalize_registry_url (se_parse_url env) v"
  shows "plain_error e"
  using assms normalize_errors [of "se_parse_url env" v]
  by (auto simp: plain_error_def desk_url_def says_paused_def session_text_def split: sum.splits)


lemma desk_db_error: "desk_db m s = (Inl e, s') \<Longrightarrow> plain_error e"
  by (auto simp: desk_db_def map_errE_def plain_error_def says_paused_def split: prod.splits sum.splits)

lemma desk_db_cases:
  assumes "silent s0 s"
  obtains e s' where "desk_db m s = (Inl e, s')" and "silent s0 s'" and "plain_error e"
    | x s' where "desk_db m s = (Inr x, s')" and "silent s0 s'"
proof -
  obtain r s' where run: "desk_db m s = (r, s')" by force
  have "silent s0 s'" using keepsD [OF desk_db_silent assms run] .
  then show ?thesis using that run desk_db_error by (cases r) blast+
qed

definition refuses :: "('n, 'v) session_world desk_state world \<Rightarrow> (('n, 'v) session_world, 'a) desk_run \<Rightarrow> bool" where
  "refuses s0 m \<longleftrightarrow> (\<forall>s. silent s0 s \<longrightarrow> (\<exists>e s'. m s = (Inl e, s') \<and> silent s0 s' \<and> plain_error e))"

lemma refuses_bind: "refuses s0 m \<Longrightarrow> refuses s0 (bindE m f)"
  unfolding refuses_def bindE_def by fastforce

lemma refuses_db: "(\<And>x. refuses s0 (f x)) \<Longrightarrow> refuses s0 (bindE (desk_db m) f)"
  unfolding refuses_def bindE_def
proof (intro allI impI)
  fix s assume f: "\<And>x. \<forall>s. silent s0 s \<longrightarrow> (\<exists>e s'. f x s = (Inl e, s') \<and> silent s0 s' \<and> plain_error e)" and "silent s0 s"
  from this(2) show "\<exists>e s'. (case desk_db m s of (Inl e, s') \<Rightarrow> (Inl e, s') | (Inr x, s') \<Rightarrow> f x s') = (Inl e, s')
      \<and> silent s0 s' \<and> plain_error e"
    by (cases rule: desk_db_cases [where m = m]) (use f in auto)
qed

lemma refuses_url:
  assumes "r = desk_url env (normalize_registry_url (se_parse_url env) v)" and "\<And>u. refuses s0 (f u)"
  shows "refuses s0 (bindE (lift_res r) f)"
  using assms(2) url_errors [OF _ refl, of env v] unfolding assms(1) refuses_def bindE_def lift_res_def
  by (cases "desk_url env (normalize_registry_url (se_parse_url env) v)") auto

lemma refuses_message: "m \<noteq> ''upload paused'' \<Longrightarrow> refuses s0 (fail (DeskMessage m))"
  by (simp add: refuses_def fail_def plain_error_def says_paused_def)

lemma refuses_session: "refuses s0 (on_client_state id (session_client env i u))"
  unfolding refuses_def
proof (intro allI impI)
  fix s assume s: "silent s0 s"
  let ?w = "cs_world (fst (w_env s))"
  obtain e st where e: "active_registry_session env i u ?w = (Inl e, ?w\<lparr>sw_store := st\<rparr>)"
    "(\<exists>m. e = SessionMessage m \<and> m \<noteq> ''upload paused'') \<or> (\<exists>x. e = SessionStore x)"
    using locked_session [of ?w env i u] s by (auto simp: silent_def)
  have "plain_error (desk_error env e)"
    using e(2) by (auto simp: plain_error_def says_paused_def session_text_def)
  moreover have "on_client_state id (session_client env i u) s =
      (Inl (desk_error env e), s\<lparr>w_env := ((fst (w_env s))\<lparr>cs_world := ?w\<lparr>sw_store := st\<rparr>\<rparr>, snd (w_env s))\<rparr>)"
    by (simp add: on_client_state_def map_errE_def session_client_def e(1))
  ultimately show "\<exists>e s'. on_client_state id (session_client env i u) s = (Inl e, s') \<and> silent s0 s' \<and> plain_error e"
    using s by (auto simp: silent_def)
qed

lemma refuses_client: "refuses s0 (transfer_client (wired env desk) tid)"
proof -
  have session: "refuses s0 (bindE (desk_db (transfer_registry_session tid)) (\<lambda>found.
     case found of
       None \<Rightarrow> fail (DeskMessage ''Transfer is not bound to a Registry invitation'')
     | Some session_id \<Rightarrow> on_client_state id (session_client env session_id u)))" for u
    by (intro refuses_db) (auto intro: refuses_message refuses_session split: option.split)
  have sel: "dx_session (wired env desk) = session_client env"
    "dx_normalize (wired env desk) v = desk_url env (normalize_registry_url (se_parse_url env) v)"
    "dx_default_url (wired env desk) = desk_url env (normalize_registry_url (se_parse_url env)
        (case se_variable env of Some v \<Rightarrow> v | None \<Rightarrow> ''https://courier.icyseascolab.io''))" for v
    by (simp_all add: wired_def default_registry_url_def)
  have assoc: "bindE (bindE m f) g = bindE m (\<lambda>x. bindE (f x) g)"
    for m :: "(('a, 'b) session_world, string option) desk_run"
      and f :: "_ \<Rightarrow> (('a, 'b) session_world, string) desk_run"
      and g :: "_ \<Rightarrow> (('a, 'b) session_world, ('a, 'b) session_world RegistryClient) desk_run"
    by (rule ext) (simp add: bindE_def split: prod.split sum.split)
  have url: "refuses s0 (bindE (lift_res (case found of Some v \<Rightarrow> dx_normalize (wired env desk) v
      | None \<Rightarrow> dx_default_url (wired env desk))) f)"
    if "\<And>u. refuses s0 (f u)"
    for found and f :: "_ \<Rightarrow> (('a, 'b) session_world, ('a, 'b) session_world RegistryClient) desk_run"
    using refuses_url [OF refl that] by (cases found) (simp_all add: sel)
  have "refuses s0 (bindE (case found of Some v \<Rightarrow> lift_res (dx_normalize (wired env desk) v)
      | None \<Rightarrow> configured_registry_url (wired env desk)) f)"
    if "\<And>u. refuses s0 (f u)"
    for found and f :: "_ \<Rightarrow> (('a, 'b) session_world, ('a, 'b) session_world RegistryClient) desk_run"
  proof (cases found)
    case None
    show ?thesis unfolding None configured_registry_url_def assoc option.case
      by (intro refuses_db url) (rule that)
  next
    case (Some v)
    then show ?thesis using url [OF that, of "Some v"] by simp
  qed
  then show ?thesis unfolding transfer_client_def transfer_url_def assoc sel(1)
    by (intro refuses_db) (simp add: session)
qed

text \<open>C40: A locked device uploads nothing. While the saved access is locked, a run of the upload on the
  application's own sessions ends with an error, whatever the transfer's state and its Registry: no
  request is sent, neither to the Registry nor for a part, and the device stays locked.\<close>

theorem locked_device_sends_nothing:
  assumes "\<not> sw_unlocked (cs_world (fst (w_env s)))" and "run_upload (wired env desk) tid s = (r, s')"
  shows "(\<exists>e. r = Inl e) \<and> w_trace s' = w_trace s \<and> cs_trace (fst (w_env s')) = cs_trace (fst (w_env s))
    \<and> \<not> sw_unlocked (cs_world (fst (w_env s')))"
proof -
  have "refuses s (open_remote (wired env desk) transfer files objects members)" for transfer files objects members
    unfolding open_remote_def by (intro refuses_bind refuses_client)
  then have upload: "refuses s (upload_transfer (wired env desk) transfer files objects members)"
    for transfer files objects members
    unfolding upload_transfer_def by (intro refuses_bind)
  have finish: "refuses s (bindE (tryE (upload_transfer (wired env desk) transfer files objects members)) (finish_upload i))"
    for transfer files objects members i
    unfolding refuses_def
  proof (intro allI impI)
    fix z assume "silent s z"
    then obtain e z' where z': "upload_transfer (wired env desk) transfer files objects members z = (Inl e, z')"
      "silent s z'" "plain_error e"
      using upload [of transfer files objects members] unfolding refuses_def by blast
    have "refuses s (thenE (desk_db (transition i TransferStatus.Interrupted)) (fail e :: (_, Transfer) desk_run))"
      unfolding thenE_def using z'(3) by (intro refuses_db) (simp add: refuses_def fail_def)
    moreover have "finish_upload i (Inl e) z' = thenE (desk_db (transition i TransferStatus.Interrupted)) (fail e) z'"
      using z'(3) by (cases e) (auto simp: finish_upload_def plain_error_def)
    ultimately have "\<exists>e' z''. finish_upload i (Inl e) z' = (Inl e', z'') \<and> silent s z'' \<and> plain_error e'"
      using z'(2) unfolding refuses_def by simp
    then show "\<exists>e z'. bindE (tryE (upload_transfer (wired env desk) transfer files objects members)) (finish_upload i) z
        = (Inl e, z') \<and> silent s z' \<and> plain_error e"
      using z'(1) by (simp add: bindE_def tryE_def)
  qed
  have planned: "refuses s (upload_planned (wired env desk) transfer)" for transfer
    unfolding upload_planned_def by (intro refuses_db) (auto intro: refuses_message finish)
  have enter: "refuses s (thenE (enter_uploading transfer) (upload_planned (wired env desk) transfer))" for transfer
    unfolding thenE_def enter_uploading_def
    by (cases "t_status transfer") (auto intro!: refuses_db planned intro: refuses_bind refuses_message
        simp: ok_def bindE_def [of "\<lambda>s. (Inr (), s)"])
  have "refuses s (run_upload (wired env desk) tid)"
    unfolding run_upload_def
    by (intro refuses_db) (auto intro: refuses_message enter split: option.split)
  moreover have "silent s s" using assms(1) by (simp add: silent_def)
  ultimately obtain e z where "run_upload (wired env desk) tid s = (Inl e, z)" "silent s z"
    unfolding refuses_def by blast
  then show ?thesis using assms(2) by (simp add: silent_def)
qed

definition locked_world :: "home desk_state world" where
  "locked_world = \<lparr>w_db = quiet ready_tables, w_env = (new_state None home_world, cache_disk), w_trace = []\<rparr>"

theorem locked_device_sends_nothing_witness:
  "\<forall>desk :: (home, unit, bytes) desk_env. \<exists>e s'. run_upload (wired home_env desk) 4 locked_world = (Inl e, s')
     \<and> w_trace s' = [] \<and> cs_trace (fst (w_env s')) = []"
proof
  fix desk :: "(home, unit, bytes) desk_env"
  obtain r s' where run: "run_upload (wired home_env desk) 4 locked_world = (r, s')" by force
  have "\<not> sw_unlocked (cs_world (fst (w_env locked_world)))" "w_trace locked_world = []"
    "cs_trace (fst (w_env locked_world)) = []"
    by (simp_all add: locked_world_def new_state_def home_world_def)
  then show "\<exists>e s'. run_upload (wired home_env desk) 4 locked_world = (Inl e, s') \<and> w_trace s' = []
      \<and> cs_trace (fst (w_env s')) = []"
    using locked_device_sends_nothing [OF _ run] run by auto
qed

end
