(* ===== verification/DiagnosticProbe.thy ===== *)
theory DiagnosticProbe
  imports RegistryClient
begin

text \<open>
  The unauthenticated probe of a Registry for the support report of a failed transfer,
  \<^verbatim>\<open>RegistryClient::diagnostic_probe\<close> of \<^verbatim>\<open>crates/courier-registry/src/lib.rs\<close>. It builds a client of its
  own, which neither follows redirects nor waits long, and sends three requests. They are joined: the run
  here has them in the order in which they are first polled. The run's state is the
  environment with the requests sent so far.
\<close>

record 'w probe_env =
  pe_client :: "string + unit"
  pe_send :: "http_request \<Rightarrow> 'w \<Rightarrow> (transport_error + http_response) \<times> 'w"
  pe_content_length :: "http_response \<Rightarrow> u64 option"
  pe_status_text :: "u16 \<Rightarrow> string"
  pe_json :: "bytes \<Rightarrow> json option"
  pe_debug :: "string \<Rightarrow> string"

record RegistryDiagnosticProbe =
  dp_health :: string
  dp_readiness :: string
  dp_version :: string

type_synonym 'w probe_state = "'w \<times> http_request list"

definition probe_request :: "string \<Rightarrow> http_request" where
  "probe_request url =
     \<lparr>rq_method = ''GET'', rq_url = url, rq_headers = [], rq_body = NoBody, rq_timeout = None\<rparr>"

definition probe_get ::
  "'w probe_env \<Rightarrow> string \<Rightarrow> 'w probe_state \<Rightarrow> (transport_error + http_response) \<times> 'w probe_state" where
  "probe_get env url = (\<lambda>(w, sent). case pe_send env (probe_request url) w of
     (r, w') \<Rightarrow> (r, (w', sent @ [probe_request url])))"

definition probe_failure :: "transport_error \<Rightarrow> string" where
  "probe_failure e = (if te_timeout e then ''timed out''
     else if te_connect e then ''connection failed'' else ''request failed'')"

definition probe_status :: "'w probe_env \<Rightarrow> string \<Rightarrow> 'w probe_state \<Rightarrow> string \<times> 'w probe_state" where
  "probe_status env url s = (case probe_get env url s of
     (Inr response, s') \<Rightarrow> (''HTTP '' @ pe_status_text env (hr_status response), s')
   | (Inl e, s') \<Rightarrow> (probe_failure e, s'))"

text \<open>The loop over \<^verbatim>\<open>response.chunk()\<close>; an error is the text reported.\<close>

fun read_version_body :: "bytes \<Rightarrow> (transport_error + bytes) list \<Rightarrow> string + bytes" where
  "read_version_body body [] = Inr body"
| "read_version_body body (Inl e # items) = Inl ''response unreadable''"
| "read_version_body body (Inr chunk # items) =
     (if 2048 < length body + length chunk then Inl ''response too large''
      else read_version_body (body @ chunk) items)"

text \<open>\<^verbatim>\<open>Value::get\<close> and \<^verbatim>\<open>Value::as_str\<close>: of a repeated field serde_json keeps the last.\<close>

fun string_field :: "string \<Rightarrow> json \<Rightarrow> string option" where
  "string_field k (JObj members) = (case map_of (rev members) k of Some (JStr v) \<Rightarrow> Some v | _ \<Rightarrow> None)"
| "string_field k _ = None"

definition version_text :: "'w probe_env \<Rightarrow> http_response \<Rightarrow> string" where
  "version_text env response =
     (if \<not> is_success (hr_status response) then ''HTTP '' @ pe_status_text env (hr_status response)
      else if (case pe_content_length env response of Some n \<Rightarrow> 2048 < n | None \<Rightarrow> False)
      then ''response too large''
      else case read_version_body [] (hr_body response) of
          Inl problem \<Rightarrow> problem
        | Inr body \<Rightarrow>
            (case pe_json env body of
               None \<Rightarrow> ''invalid version response''
             | Some v \<Rightarrow>
                 (case (string_field ''version'' v, string_field ''build'' v) of
                    (Some version, Some build) \<Rightarrow>
                      if length version \<le> 80 \<and> length build \<le> 80
                      then ''version '' @ pe_debug env version @ '', build '' @ pe_debug env build
                      else ''invalid version response''
                  | _ \<Rightarrow> ''invalid version response'')))"

definition probe_version :: "'w probe_env \<Rightarrow> string \<Rightarrow> 'w probe_state \<Rightarrow> string \<times> 'w probe_state" where
  "probe_version env url s = (case probe_get env url s of
     (Inr response, s') \<Rightarrow> (version_text env response, s')
   | (Inl e, s') \<Rightarrow> (probe_failure e, s'))"

definition diagnostic_probe ::
  "'w probe_env \<Rightarrow> 'v RegistryClient \<Rightarrow> 'w probe_state \<Rightarrow> RegistryDiagnosticProbe \<times> 'w probe_state" where
  "diagnostic_probe env self s = (case pe_client env of
     Inl e \<Rightarrow> (let failure = ''probe unavailable: '' @ e in
               (\<lparr>dp_health = failure, dp_readiness = failure, dp_version = failure\<rparr>, s))
   | Inr _ \<Rightarrow>
       (case probe_status env (rc_base_url self @ ''/health'') s of (health, s1) \<Rightarrow>
        case probe_status env (rc_base_url self @ ''/ready'') s1 of (readiness, s2) \<Rightarrow>
        case probe_version env (rc_base_url self @ ''/api/v1/version'') s2 of (version, s3) \<Rightarrow>
          (\<lparr>dp_health = health, dp_readiness = readiness, dp_version = version\<rparr>, s3)))"

text \<open>The body that is parsed is the whole body and has at most 2048 bytes.\<close>

fun whole_body :: "(transport_error + bytes) list \<Rightarrow> bytes option" where
  "whole_body [] = Some []"
| "whole_body (Inl e # items) = None"
| "whole_body (Inr chunk # items) = map_option ((@) chunk) (whole_body items)"

lemma read_version_body_Inr:
  "read_version_body body items = Inr bs \<longleftrightarrow>
     (\<exists>rest. whole_body items = Some rest \<and> bs = body @ rest \<and> (items = [] \<or> length bs \<le> 2048))"
proof (induction body items rule: read_version_body.induct)
  case (3 body chunk items)
  then show ?case by (cases items) auto
qed auto

lemma read_version_body_Inl:
  "read_version_body body items = Inl problem \<Longrightarrow> problem \<in> {''response too large'', ''response unreadable''}"
  by (induction body items rule: read_version_body.induct) (auto split: if_splits)

text \<open>What the report says of the version: how the request ended, or two short strings of a small answer.\<close>

lemma version_text_reports:
  "version_text env response \<in> {''HTTP '' @ pe_status_text env (hr_status response), ''response too large'',
       ''response unreadable'', ''invalid version response''}
   \<or> (\<exists>bs v version build. whole_body (hr_body response) = Some bs \<and> length bs \<le> 2048
        \<and> pe_json env bs = Some v \<and> string_field ''version'' v = Some version
        \<and> string_field ''build'' v = Some build \<and> length version \<le> 80 \<and> length build \<le> 80
        \<and> version_text env response = ''version '' @ pe_debug env version @ '', build '' @ pe_debug env build)"
proof (cases "read_version_body [] (hr_body response)")
  case (Inl problem)
  then have "problem \<in> {''response too large'', ''response unreadable''}" by (rule read_version_body_Inl)
  then show ?thesis using Inl by (auto simp: version_text_def)
next
  case (Inr bs)
  then have "whole_body (hr_body response) = Some bs" "length bs \<le> 2048"
    by (auto simp: read_version_body_Inr)
  then show ?thesis using Inr
    by (cases "pe_json env bs"; cases "string_field ''version'' (the (pe_json env bs))";
        cases "string_field ''build'' (the (pe_json env bs))") (auto simp: version_text_def)
qed

text \<open>The probe sends nothing but the three public requests, without credentials.\<close>

lemma probe_status_sends: "snd (snd (probe_status env url s)) = snd s @ [probe_request url]"
  by (auto simp: probe_status_def probe_get_def split: prod.splits sum.splits)

lemma probe_version_sends: "snd (snd (probe_version env url s)) = snd s @ [probe_request url]"
  by (auto simp: probe_version_def probe_get_def split: prod.splits sum.splits)

lemma probe_sends_public_requests:
  "snd (snd (diagnostic_probe env self s)) = snd s \<or>
   snd (snd (diagnostic_probe env self s)) = snd s @ map (\<lambda>p. probe_request (rc_base_url self @ p))
     [''/health'', ''/ready'', ''/api/v1/version'']"
  using probe_status_sends [of env "rc_base_url self @ ''/health''" s]
    probe_status_sends [of env "rc_base_url self @ ''/ready''"]
    probe_version_sends [of env "rc_base_url self @ ''/api/v1/version''"]
  by (auto simp: diagnostic_probe_def split: sum.splits prod.splits) (metis append.assoc append_Cons append_Nil snd_conv)+

end
