(* ===== verification/DesktopDiagnostics.thy ===== *)
theory DesktopDiagnostics
  imports DesktopSession DiagnosticProbe DiskFrames
begin

text \<open>
  The desktop application's diagnostics, \<^verbatim>\<open>apps/courier-desktop/src-tauri/src/lib.rs\<close>: the ring of the
  most recent events, the report it is rendered to, and what is gathered and saved after a failed upload.

  A run's state is the ring, the world of the sessions and the local disk. What is not the
  program's is in \<open>diag_env\<close>: the clock, the probe's network, the state of the user's source, and the names of
  the version, the platform and the kinds of I/O errors. Events for the user interface are not modelled.
\<close>

section \<open>The ring\<close>

record DiagnosticEvent =
  de_timestamp :: string
  de_level :: string
  de_message :: string

definition MAX_DIAGNOSTIC_EVENTS :: nat where
  "MAX_DIAGNOSTIC_EVENTS = 5000"

datatype source_kind = SourceDirectory | SourceFile | SourceOther

record ('n, 'v) diag_world =
  di_diagnostics :: "DiagnosticEvent list"
  di_poisoned :: bool
  di_session :: "('n, 'v) session_world"
  di_disk :: disk

record ('n, 'v) diag_env =
  dv_session :: "('n, 'v) session_env"
  dv_timestamp :: "'n \<Rightarrow> string \<times> 'n"
  dv_probe :: "'n probe_env"
  dv_source :: "path \<Rightarrow> 'n \<Rightarrow> (io_error + source_kind) \<times> 'n"
  dv_processors :: "'n \<Rightarrow> (io_error + nat) \<times> 'n"
  dv_kind_text :: "io_kind \<Rightarrow> string"
  dv_uppercase :: "string \<Rightarrow> string"
  dv_version :: string
  dv_os :: string
  dv_arch :: string

type_synonym ('n, 'v, 'a) diag_run = "(('n, 'v) diag_world, string, 'a) comp"

definition on_diag_net :: "('n \<Rightarrow> 'a \<times> 'n) \<Rightarrow> ('n, 'v, 'a) diag_run" where
  "on_diag_net op = (\<lambda>w. case op (sw_net (di_session w)) of (x, n) \<Rightarrow>
     (Inr x, w\<lparr>di_session := di_session w\<lparr>sw_net := n\<rparr>\<rparr>))"

definition on_diag_session :: "('n, 'v, 'a) session_run \<Rightarrow> ('n, 'v, session_error + 'a) diag_run" where
  "on_diag_session m = (\<lambda>w. case m (di_session w) of (r, s) \<Rightarrow> (Inr r, w\<lparr>di_session := s\<rparr>))"

definition on_diag_disk :: "'a io \<Rightarrow> ('n, 'v, io_error + 'a) diag_run" where
  "on_diag_disk m = (\<lambda>w. case m (di_disk w) of (r, d) \<Rightarrow> (Inr r, w\<lparr>di_disk := d\<rparr>))"

definition push_diagnostic :: "DiagnosticEvent \<Rightarrow> DiagnosticEvent list \<Rightarrow> DiagnosticEvent list" where
  "push_diagnostic event diagnostics =
     (if length diagnostics = MAX_DIAGNOSTIC_EVENTS then tl diagnostics else diagnostics) @ [event]"

definition record_diagnostic ::
  "('n, 'v) diag_env \<Rightarrow> string \<Rightarrow> string \<Rightarrow> ('n, 'v, unit) diag_run" where
  "record_diagnostic env level message =
     bindE (on_diag_net (dv_timestamp env)) (\<lambda>timestamp.
       modifies (\<lambda>w. if di_poisoned w then w
         else w\<lparr>di_diagnostics := push_diagnostic
                \<lparr>de_timestamp = timestamp, de_level = level, de_message = message\<rparr> (di_diagnostics w)\<rparr>))"

section \<open>The report\<close>

definition newline :: string where
  "newline = [CHR 0x0A]"

definition diagnostic_line :: "('n, 'v) diag_env \<Rightarrow> DiagnosticEvent \<Rightarrow> string" where
  "diagnostic_line env event =
     de_timestamp event @ '' ['' @ dv_uppercase env (de_level event) @ ''] '' @ de_message event @ newline"

definition privacy_note :: string where
  "privacy_note = ''Privacy note: Courier diagnostics do not include invitation codes, Registry session tokens, '' @
     ''or presigned URL query strings. Diagnostics may include local source/file paths and the path to a '' @
     ''preserved recovery database. The in-memory session log retains the most recent 5,000 events.''"

definition report_text :: "('n, 'v) diag_env \<Rightarrow> string \<Rightarrow> DiagnosticEvent list \<Rightarrow> string" where
  "report_text env generated events =
     ''Icy Seas Courier diagnostics'' @ newline @ ''Generated: '' @ generated @ newline @
     ''Courier version: '' @ dv_version env @ newline @
     ''Platform: '' @ dv_os env @ '' '' @ dv_arch env @ newline @ newline @
     ''Events (newest last)'' @ newline @
     (if events = [] then ''No diagnostic events have been recorded in this Courier session.'' @ newline
      else concat (map (diagnostic_line env) events)) @
     newline @ privacy_note @ newline"

definition diagnostic_report ::
  "('n, 'v) diag_env \<Rightarrow> DiagnosticEvent list \<Rightarrow> ('n, 'v, string) diag_run" where
  "diagnostic_report env events =
     bindE (on_diag_net (dv_timestamp env)) (\<lambda>generated. ok (report_text env generated events))"

definition diagnostic_events :: "string \<Rightarrow> ('n, 'v, DiagnosticEvent list) diag_run" where
  "diagnostic_events unavailable =
     (\<lambda>w. if di_poisoned w then (Inl unavailable, w) else (Inr (di_diagnostics w), w))"

definition diagnostic_report_text :: "('n, 'v) diag_env \<Rightarrow> ('n, 'v, string) diag_run" where
  "diagnostic_report_text env =
     bindE (diagnostic_events ''Courier diagnostics are unavailable'') (diagnostic_report env)"

definition as_bytes :: "string \<Rightarrow> bytes" where
  "as_bytes = map of_char"

text \<open>\<^verbatim>\<open>fs::write\<close>.\<close>

definition fs_write :: "path \<Rightarrow> bytes \<Rightarrow> unit io" where
  "fs_write p bs = thenE (open_output False p) (write_all p bs)"

definition save_diagnostic_report :: "('n, 'v) diag_env \<Rightarrow> path \<Rightarrow> ('n, 'v, unit) diag_run" where
  "save_diagnostic_report env p =
     bindE (diagnostic_report_text env) (\<lambda>report.
     bindE (on_diag_disk (fs_write p (as_bytes report))) (\<lambda>written. case written of
       Inl e \<Rightarrow> fail (''Could not save diagnostics to '' @ p @ '': '' @ io_text e)
     | Inr _ \<Rightarrow> record_diagnostic env ''info'' (''Saved diagnostic report to '' @ p)))"

section \<open>After a failed upload\<close>

definition with_file_name :: "path \<Rightarrow> string \<Rightarrow> path" where
  "with_file_name p name = (case (path_file_name p, path_parent p) of
     (Some _, Some parent) \<Rightarrow> path_join parent name | _ \<Rightarrow> path_join p name)"

definition failure_report_path :: "path \<Rightarrow> path" where
  "failure_report_path database = with_file_name database ''courier-last-upload-failure.txt''"

text \<open>The mode of the file is not part of the disk: setting it may fail, and changes nothing.\<close>

definition set_permissions :: "unit io" where
  "set_permissions = disk_op (\<lambda>d. (Inr (), d))"

definition shown :: "io_error + 'a \<Rightarrow> string + 'a" where
  "shown r = (case r of Inl e \<Rightarrow> Inl (io_text e) | Inr x \<Rightarrow> Inr x)"

definition save_last_upload_failure_report ::
  "('n, 'v) diag_env \<Rightarrow> path \<Rightarrow> ('n, 'v, path) diag_run" where
  "save_last_upload_failure_report env database =
     bindE (diagnostic_events ''diagnostic events are unavailable'') (\<lambda>events.
     let p = failure_report_path database in
     bindE (bindE (on_diag_disk (open_output False p)) (lift_res \<circ> shown)) (\<lambda>_.
     bindE (bindE (on_diag_disk set_permissions) (lift_res \<circ> shown)) (\<lambda>_.
     bindE (diagnostic_report env events) (\<lambda>report.
     bindE (bindE (on_diag_disk (write_all p (as_bytes report))) (lift_res \<circ> shown)) (\<lambda>_. ok p)))))"

definition source_text :: "('n, 'v) diag_env \<Rightarrow> io_error + source_kind \<Rightarrow> string" where
  "source_text env found = (case found of
     Inr SourceDirectory \<Rightarrow> ''accessible directory'' | Inr SourceFile \<Rightarrow> ''accessible file''
   | Inr SourceOther \<Rightarrow> ''unsupported source type''
   | Inl (IoError kind _) \<Rightarrow> ''unavailable ('' @ dv_kind_text env kind @ '')'')"

definition local_state_text :: "('n, 'v) diag_env \<Rightarrow> io_error + u64 \<Rightarrow> string" where
  "local_state_text env found = (case found of
     Inr n \<Rightarrow> ''accessible, '' @ decimal (unat n) @ '' bytes''
   | Inl (IoError kind _) \<Rightarrow> ''unavailable ('' @ dv_kind_text env kind @ '')'')"

text \<open>The Registry of the transfer, or else the configured one; errors of the store count as none.\<close>

definition postmortem_url :: "('n, 'v) diag_env \<Rightarrow> uuid \<Rightarrow> ('n, 'v, string option) diag_run" where
  "postmortem_url env tid =
     bindE (on_diag_session (on_session_store (transfer_registry tid))) (\<lambda>bound.
     bindE (case bound of Inr (Some v) \<Rightarrow> ok (Some v)
       | _ \<Rightarrow> bindE (on_diag_session (registry_endpoint (dv_session env))) (\<lambda>configured.
               ok (case configured of Inr v \<Rightarrow> Some v | Inl _ \<Rightarrow> None))) (\<lambda>found.
     ok (case found of None \<Rightarrow> None
         | Some v \<Rightarrow> (case normalize_registry_url (se_parse_url (dv_session env)) v of
             Inr base_url \<Rightarrow> Some base_url | Inl _ \<Rightarrow> None))))"

definition run_probe :: "('n, 'v) diag_env \<Rightarrow> string \<Rightarrow> ('n, 'v, RegistryDiagnosticProbe) diag_run" where
  "run_probe env base_url = on_diag_net (\<lambda>n.
     let self = \<lparr>rc_base_url = trim_end_slashes base_url, rc_observer = None,
                 rc_env = se_registry (dv_session env)\<rparr>
     in case diagnostic_probe (dv_probe env) self (n, []) of (probe, (n', _)) \<Rightarrow> (probe, n'))"

definition record_environment ::
  "('n, 'v) diag_env \<Rightarrow> Transfer \<Rightarrow> path \<Rightarrow> ('n, 'v, unit) diag_run" where
  "record_environment env transfer database =
     bindE (on_diag_net (dv_source env (t_source_root transfer))) (\<lambda>source.
     bindE (on_diag_disk (metadata_len database)) (\<lambda>local_state.
     bindE (on_diag_net (dv_processors env)) (\<lambda>processors.
     record_diagnostic env ''info'' (''Upload failure environment: Courier '' @ dv_version env @ '', platform '' @
       dv_os env @ '' '' @ dv_arch env @ '', logical bytes '' @ decimal (unat (t_original_bytes transfer)) @
       '', source '' @ source_text env source @ '', local state '' @ local_state_text env local_state @
       '', available processors '' @ (case processors of Inr n \<Rightarrow> decimal n | Inl _ \<Rightarrow> ''unknown'')))))"

definition record_postmortem :: "('n, 'v) diag_env \<Rightarrow> uuid \<Rightarrow> ('n, 'v, unit) diag_run" where
  "record_postmortem env tid =
     bindE (postmortem_url env tid) (\<lambda>found. case found of
       Some base_url \<Rightarrow> bindE (run_probe env base_url) (\<lambda>probe.
         record_diagnostic env ''info'' (''Registry postmortem check at '' @ base_url @ '': health '' @
           dp_health probe @ '', readiness '' @ dp_readiness probe @ '', version '' @ dp_version probe))
     | None \<Rightarrow> record_diagnostic env ''warning''
         ''Registry postmortem check unavailable: no valid Registry origin'')"

definition record_upload_failure_diagnostics ::
  "('n, 'v) diag_env \<Rightarrow> Transfer \<Rightarrow> path \<Rightarrow> ('n, 'v, unit) diag_run" where
  "record_upload_failure_diagnostics env transfer database =
     thenE (record_environment env transfer database)
     (thenE (record_postmortem env (t_id transfer))
     (bindE (tryE (save_last_upload_failure_report env database)) (\<lambda>saved. case saved of
        Inr p \<Rightarrow> record_diagnostic env ''info'' (''Saved upload failure diagnostics to '' @ p)
      | Inl e \<Rightarrow> record_diagnostic env ''warning'' (''Could not save upload failure diagnostics: '' @ e))))"

section \<open>What diagnostics keep\<close>

text \<open>The ring holds the most recent events, whatever is recorded.\<close>

lemma ring_holds_the_newest:
  assumes "length ring \<le> MAX_DIAGNOSTIC_EVENTS"
  shows "fold push_diagnostic events ring
    = drop (length ring + length events - MAX_DIAGNOSTIC_EVENTS) (ring @ events)"
  using assms
proof (induction events arbitrary: ring)
  case (Cons event events)
  have pushed: "push_diagnostic event ring = drop (Suc (length ring) - MAX_DIAGNOSTIC_EVENTS) (ring @ [event])"
    using Cons.prems by (auto simp: push_diagnostic_def drop_Suc MAX_DIAGNOSTIC_EVENTS_def)
  have short: "length (push_diagnostic event ring) \<le> MAX_DIAGNOSTIC_EVENTS"
    using Cons.prems by (auto simp: push_diagnostic_def MAX_DIAGNOSTIC_EVENTS_def)
  show ?case
    using Cons.IH [OF short] Cons.prems
    by (auto simp: push_diagnostic_def MAX_DIAGNOSTIC_EVENTS_def drop_Suc le_Suc_eq)
qed simp

text \<open>
  Diagnosing a failure reads the store and writes one file: the database, the credentials and the
  device lock stay as they are, and so does every other file.
\<close>

definition undisturbed :: "location set \<Rightarrow> ('n, 'v) diag_world \<Rightarrow> ('n, 'v) diag_world \<Rightarrow> bool" where
  "undisturbed S w0 w \<longleftrightarrow>
     st_tables (sw_store (di_session w)) = st_tables (sw_store (di_session w0))
     \<and> sw_cache (di_session w) = sw_cache (di_session w0) \<and> sw_vault (di_session w) = sw_vault (di_session w0)
     \<and> sw_unlocked (di_session w) = sw_unlocked (di_session w0) \<and> only S (di_disk w0) (di_disk w)"

lemma undisturbed_net: "keeps (undisturbed S w0) (on_diag_net op)"
  by (auto simp: keeps_def on_diag_net_def undisturbed_def split: prod.splits)

lemma undisturbed_session:
  assumes "\<And>s r s'. m s = (r, s') \<Longrightarrow> st_tables (sw_store s') = st_tables (sw_store s) \<and> sw_cache s' = sw_cache s
      \<and> sw_vault s' = sw_vault s \<and> sw_unlocked s' = sw_unlocked s"
  shows "keeps (undisturbed S w0) (on_diag_session m)"
  using assms by (fastforce simp: keeps_def on_diag_session_def undisturbed_def split: prod.splits)

lemma undisturbed_disk:
  assumes "\<And>d0. keeps (only S d0) m"
  shows "keeps (undisturbed S w0) (on_diag_disk m)"
  using assms by (fastforce simp: keeps_def on_diag_disk_def undisturbed_def split: prod.splits)

lemma undisturbed_record: "keeps (undisturbed S w0) (record_diagnostic env level message)"
  unfolding record_diagnostic_def
  by (intro keeps_intros undisturbed_net keeps_modifies) (simp add: undisturbed_def)

lemma undisturbed_events: "keeps (undisturbed S w0) (diagnostic_events unavailable)"
  by (auto simp: keeps_def diagnostic_events_def)

lemma only_open_output: "loc p \<in> S \<Longrightarrow> keeps (only S d0) (open_output appending p)"
  by (auto simp: keeps_def open_output_def disk_op_def split: option.splits node.splits if_splits)

lemma only_write_all: "loc p \<in> S \<Longrightarrow> keeps (only S d0) (write_all p bs)"
  by (auto simp: keeps_def write_all_def split: option.splits)

lemma only_metadata: "keeps (only S d0) (metadata_len p)"
  by (auto simp: keeps_def metadata_len_def disk_op_def split: option.splits node.splits)

lemma only_permissions: "keeps (only S d0) set_permissions"
  by (auto simp: keeps_def set_permissions_def disk_op_def split: option.splits)

lemma query_changes_nothing: "query f s = (r, s') \<Longrightarrow> st_tables s' = st_tables s"
  by (cases r) (auto simp: comp_simps)

lemma undisturbed_bound: "keeps (undisturbed S w0) (on_diag_session (on_session_store (transfer_registry tid)))"
  by (rule undisturbed_session)
    (auto simp: on_session_store_def transfer_registry_def map_errE_def
      split: prod.splits sum.splits dest: query_changes_nothing)

lemma undisturbed_configured: "keeps (undisturbed S w0) (on_diag_session (registry_endpoint env))"
  by (rule undisturbed_session)
    (auto simp: registry_endpoint_def on_session_store_def active_registry_def get_setting_def map_errE_def
      bindE_def lift_res_def split: prod.splits sum.splits option.splits dest: query_changes_nothing)

lemmas undisturbed_steps = undisturbed_net undisturbed_record undisturbed_events undisturbed_bound
  undisturbed_configured undisturbed_disk only_open_output only_write_all only_metadata only_permissions

lemma undisturbed_saving:
  "loc (failure_report_path database) \<in> S
     \<Longrightarrow> keeps (undisturbed S w0) (save_last_upload_failure_report env database)"
  unfolding save_last_upload_failure_report_def diagnostic_report_def Let_def comp_def
  by (intro keeps_intros undisturbed_steps)

lemma failure_diagnosis_writes_one_file:
  assumes "record_upload_failure_diagnostics env transfer database w = (r, w')"
  shows "undisturbed {loc (failure_report_path database)} w w'"
proof -
  have "keeps (undisturbed {loc (failure_report_path database)} w)
      (record_upload_failure_diagnostics env transfer database)"
    unfolding record_upload_failure_diagnostics_def record_environment_def record_postmortem_def
      postmortem_url_def run_probe_def
    by (auto intro!: keeps_intros undisturbed_steps undisturbed_saving split: option.splits sum.splits)
  moreover have "undisturbed {loc (failure_report_path database)} w w"
    by (simp add: undisturbed_def)
  ultimately show ?thesis using assms by (blast dest: keepsD)
qed

lemma on_diag_disk_iff:
  "on_diag_disk m w = (r, w') \<longleftrightarrow> (\<exists>x d. m (di_disk w) = (x, d) \<and> r = Inr x \<and> w' = w\<lparr>di_disk := d\<rparr>)"
  by (auto simp: on_diag_disk_def split: prod.splits)

lemma on_diag_net_iff:
  "on_diag_net op w = (r, w') \<longleftrightarrow> (\<exists>x n. op (sw_net (di_session w)) = (x, n) \<and> r = Inr x
     \<and> w' = w\<lparr>di_session := di_session w\<lparr>sw_net := n\<rparr>\<rparr>)"
  by (auto simp: on_diag_net_def split: prod.splits)

lemma shown_Inr: "shown r = Inr x \<longleftrightarrow> r = Inr x"
  by (auto simp: shown_def split: sum.splits)

lemma diagnostic_events_Inr:
  "diagnostic_events unavailable w = (Inr events, w') \<longleftrightarrow> \<not> di_poisoned w \<and> events = di_diagnostics w \<and> w' = w"
  by (auto simp: diagnostic_events_def)

text \<open>A report that was saved is on the disk, with every event of the ring.\<close>

lemma saved_report_is_whole:
  assumes "save_last_upload_failure_report env database w = (Inr p, w')"
    and "loc (failure_report_path database) \<noteq> []" and "loc (failure_report_path database) \<noteq> [RootDir]"
  shows "p = failure_report_path database
    \<and> (\<exists>generated. file_bytes (di_disk w') p = Some (as_bytes (report_text env generated (di_diagnostics w))))"
proof -
  have opened: "file_bytes d' p = Some []"
    if "open_output False p d = (Inr (), d')" "loc p \<noteq> []" "loc p \<noteq> [RootDir]" for d d' p
    using that by (auto simp: open_output_def disk_op_def file_bytes_def node_at_def set_node_def turn_def
        split: option.splits node.splits if_splits)
  have moded: "dk_nodes d' = dk_nodes d" if "set_permissions d = (Inr (), d')" for d d'
    using that by (auto simp: set_permissions_def disk_op_def turn_def split: option.splits)
  have written: "file_bytes d' p = Some (as_bytes report)"
    if "write_all p (as_bytes report) d = (Inr (), d')" "file_bytes d p = Some []" "loc p \<noteq> []" "loc p \<noteq> [RootDir]"
    for d d' p report
    using that by (auto simp: write_all_def append_bytes_def file_bytes_def node_at_def set_node_def turn_def
        split: option.splits node.splits if_splits)
  obtain d1 d2 n report d3 where steps: "open_output False (failure_report_path database) (di_disk w) = (Inr (), d1)"
      "set_permissions d1 = (Inr (), d2)"
      "write_all (failure_report_path database) (as_bytes (report_text env n (di_diagnostics w))) d2 = (Inr (), d3)"
    and w': "di_disk w' = d3" "p = failure_report_path database"
    using assms(1)
    by (auto simp: save_last_upload_failure_report_def diagnostic_report_def Let_def bindE_Inr_iff comp_def
        shown_Inr on_diag_disk_iff on_diag_net_iff diagnostic_events_Inr lift_res_iff ok_iff)
  then show ?thesis
    using opened [OF steps(1) assms(2,3)] moded [OF steps(2)] written [OF steps(3) _ assms(2,3)]
    by (auto simp: file_bytes_def node_at_def)
qed

end
