(* ===== verification/DesktopPreparation.thy ===== *)
theory DesktopPreparation
  imports DesktopRun DesktopCommands TransportProperties
begin

text \<open>
  What the desktop application promises of a transfer it has prepared: every indexed file is carried by
  exactly one member of one of the transfer's objects, and every object has its parts planned.
\<close>

section \<open>The rows of a transport plan\<close>

lemma object_row_fields [simp]:
  "o_id (object_row_of ob) = o_id ob" "o_transfer_id (object_row_of ob) = o_transfer_id ob"
  "o_transport_bytes (object_row_of ob) = o_transport_bytes ob"
  by (simp_all add: object_row_of_def TransportObjectRecord.defs)

lemma file_row_fields [simp]: "f_id (file_row_of tid file) = f_id file" "f_transfer_id (file_row_of tid file) = tid"
  by (simp_all add: file_row_of_def FileRecord.defs)

lemma insert_objects_rows:
  assumes "for_each insert_object objects s = (Inr (), s')"
  shows "tb_objects (st_tables s') = tb_objects (st_tables s) @ map object_row_of objects
    \<and> tb_files (st_tables s') = tb_files (st_tables s)"
  using assms
proof (induction objects arbitrary: s)
  case (Cons ob objects)
  then obtain s1 where "insert_object ob s = (Inr (), s1)" "for_each insert_object objects s1 = (Inr (), s')"
    by (auto simp: comp_simps)
  moreover from this(1) have "tb_objects (st_tables s1) = tb_objects (st_tables s) @ [object_row_of ob]"
    "tb_files (st_tables s1) = tb_files (st_tables s)"
    by (auto simp: insert_object_def comp_simps checked_def split: if_splits)
  ultimately show ?case using Cons.IH by simp
qed (simp add: comp_simps)

lemma insert_members_rows:
  assumes "for_each insert_member members s = (Inr (), s')"
  shows "tb_members (st_tables s') = tb_members (st_tables s) @ members
    \<and> tb_objects (st_tables s') = tb_objects (st_tables s) \<and> tb_files (st_tables s') = tb_files (st_tables s)"
  using assms
proof (induction members arbitrary: s)
  case (Cons m members)
  then obtain s1 where "insert_member m s = (Inr (), s1)" "for_each insert_member members s1 = (Inr (), s')"
    by (auto simp: comp_simps)
  moreover from this(1) have "tb_members (st_tables s1) = tb_members (st_tables s) @ [m]"
    "tb_objects (st_tables s1) = tb_objects (st_tables s)" "tb_files (st_tables s1) = tb_files (st_tables s)"
    by (auto simp: insert_member_def comp_simps checked_def split: if_splits)
  ultimately show ?case using Cons.IH by simp
qed (simp add: comp_simps)

lemma replace_transport_plan_rows:
  assumes "replace_transport_plan tid objects members s = (Inr (), s')"
  shows "tb_objects (st_tables s') = filter (\<lambda>r. o_transfer_id r \<noteq> tid) (tb_objects (st_tables s)) @ map object_row_of objects
    \<and> set members \<subseteq> set (tb_members (st_tables s')) \<and> tb_files (st_tables s') = tb_files (st_tables s)"
proof -
  from assms obtain s1 s2 where s1: "st_tables s1 = st_tables s" and s': "st_tables s' = st_tables s2"
    and run: "thenE (execute (\<lambda>_ _ t. Inr ((), drop_objects (\<lambda>r. o_transfer_id r = tid) t)))
       (thenE (for_each insert_object objects) (for_each insert_member members)) s1 = (Inr (), s2)"
    unfolding replace_transport_plan_def by (auto dest: atomically_Inr)
  then obtain s3 s4 where d0: "execute (\<lambda>_ _ t. Inr ((), drop_objects (\<lambda>r. o_transfer_id r = tid) t)) s1 = (Inr (), s3)"
    and o4: "for_each insert_object objects s3 = (Inr (), s4)" and m: "for_each insert_member members s4 = (Inr (), s2)"
    by (simp add: thenE_Inr_iff del: execute_Inr) blast
  have d: "st_tables s3 = drop_objects (\<lambda>r. o_transfer_id r = tid) (st_tables s)"
    using d0 s1 by (auto simp: execute_Inr)
  show ?thesis
    using insert_objects_rows [OF o4] insert_members_rows [OF m] s'
    by (simp add: d drop_objects_def Let_def)
qed

section \<open>The parts of the objects\<close>

text \<open>What planning parts and moving the status leave as it is.\<close>

definition shape :: "tables \<Rightarrow> object_row list \<times> TransportMemberRecord list \<times> (uuid \<times> uuid) list" where
  "shape t = (tb_objects t, tb_members t, map (\<lambda>r. (f_id r, f_transfer_id r)) (tb_files t))"

definition object_rows :: "uuid \<Rightarrow> tables \<Rightarrow> part_row list" where
  "object_rows i t = filter (\<lambda>r. pr_owner r = i) (tb_object_parts t)"

lemma transition_shape: "tables_keep (\<lambda>t. shape t = z \<and> object_rows i t = rows) (transition tid nxt)"
  unfolding transition_def get_transfer_def
  by (auto intro!: keeps_intros keeps_execute simp: update_transfers_def checked_def shape_def object_rows_def
      split: option.splits if_splits)

lemma refresh_shape: "tables_keep (\<lambda>t. shape t = z \<and> object_rows i t = rows) (execute (\<lambda>_ _ t. refresh_stmt j t))"
  by (rule keeps_execute)
    (auto simp: refresh_stmt_def shape_def object_rows_def update_where_def comp_def if_distrib [of f_id]
      if_distrib [of f_transfer_id] split: if_splits)

lemma replace_part_plan_shape:
  assumes "\<forall>p \<in> set parts. p_file_id p = j" and "j \<noteq> i"
  shows "tables_keep (\<lambda>t. shape t = z \<and> object_rows i t = rows) (replace_part_plan j parts)"
proof -
  have others: "filter (\<lambda>r. pr_owner r = i) (filter (\<lambda>r. pr_owner r \<noteq> j) rs) = filter (\<lambda>r. pr_owner r = i) rs" for rs :: "part_row list"
    using assms(2) by (auto intro!: filter_cong simp: filter_filter)
  have delete: "tables_keep (\<lambda>t. shape t = z \<and> object_rows i t = rows) (delete_parts pt j)"
    if "pt \<in> {file_parts, object_parts}" for pt
    unfolding delete_parts_def using that
    by (intro keeps_execute) (auto simp: shape_def object_rows_def file_parts_def object_parts_def others simp del: filter_filter)
  have insert: "tables_keep (\<lambda>t. shape t = z \<and> object_rows i t = rows) (for_each (insert_part pt) parts)"
    if "pt \<in> {file_parts, object_parts}" for pt
  proof (rule keeps_for_each)
    fix p assume "p \<in> set parts"
    then have "pr_owner (part_row_of p) \<noteq> i" using assms by (simp add: part_row_of_def)
    then show "tables_keep (\<lambda>t. shape t = z \<and> object_rows i t = rows) (insert_part pt p)"
      unfolding insert_part_def using that
      by (intro keeps_execute) (auto simp: shape_def object_rows_def file_parts_def object_parts_def checked_def
          split: if_splits)
  qed
  show ?thesis unfolding replace_part_plan_def
    by (intro keeps_intros delete insert refresh_shape) simp_all
qed

lemma replace_part_plan_planned:
  assumes "replace_part_plan i parts s = (Inr (), s')" and "has_object (st_tables s) i"
    and "\<forall>p \<in> set parts. p_file_id p = i"
  shows "object_rows i (st_tables s') = map part_row_of parts"
  using replace_part_plan_rows [OF assms(1)] assms(2,3)
  by (auto simp: ledger_rows_def object_rows_def filter_id_conv part_row_of_def)

lemma object_present: "has_object t i \<longleftrightarrow> i \<in> o_id ` set (fst (shape t))"
  by (auto simp: has_object_def shape_def list_ex_iff)

lemma plan_sources_planned:
  assumes "plan_sources sources s = (Inr u, s')" and "distinct (map f_id sources)"
    and "\<forall>x \<in> set sources. has_object (database s) (f_id x)"
  shows "shape (database s') = shape (database s)
    \<and> (\<forall>i. i \<notin> f_id ` set sources \<longrightarrow> object_rows i (database s') = object_rows i (database s))
    \<and> (\<forall>x \<in> set sources. \<exists>parts. plan_parts (f_id x) (f_size x) default_limits = Inr parts
         \<and> object_rows (f_id x) (database s') = map part_row_of parts)"
  using assms
proof (induction sources arbitrary: s)
  case (Cons x sources)
  from Cons.prems(1) obtain parts s1 where parts: "plan_parts (f_id x) (f_size x) default_limits = Inr parts"
    and first: "desk_db (replace_part_plan (f_id x) parts) s = (Inr (), s1)" and rest: "plan_sources sources s1 = (Inr u, s')"
    by (auto simp: comp_simps)
  from first obtain db1 where db1: "replace_part_plan (f_id x) parts (w_db s) = (Inr (), db1)" "w_db s1 = db1"
    by (auto simp: desk_db_Inr)
  have ids: "\<forall>p \<in> set parts. p_file_id p = f_id x"
    using plan_parts_well_planned [OF parts] by (simp add: well_planned_def)
  have kept: "shape (database s1) = shape (database s) \<and> object_rows i (database s1) = object_rows i (database s)"
    if "i \<noteq> f_id x" for i
    using keepsD [OF replace_part_plan_shape [OF ids that [symmetric]] _ db1(1)] db1(2) by simp
  obtain i :: uuid where "i \<noteq> f_id x" by (metis add_0 add_cancel_right_right zero_neq_one)
  with kept have sh: "shape (database s1) = shape (database s)" by blast
  have here: "object_rows (f_id x) (database s1) = map part_row_of parts"
    using replace_part_plan_planned [OF db1(1) _ ids] Cons.prems(3) db1(2) by simp
  have "\<forall>y \<in> set sources. has_object (database s1) (f_id y)"
    using Cons.prems(3) by (simp add: object_present sh)
  with Cons.IH [OF rest] Cons.prems(2) have IH: "shape (database s') = shape (database s1)"
    "\<forall>i. i \<notin> f_id ` set sources \<longrightarrow> object_rows i (database s') = object_rows i (database s1)"
    "\<forall>y \<in> set sources. \<exists>ps. plan_parts (f_id y) (f_size y) default_limits = Inr ps
       \<and> object_rows (f_id y) (database s') = map part_row_of ps" by auto
  have "f_id x \<notin> f_id ` set sources" using Cons.prems(2) by auto
  then show ?case using IH sh here parts kept by auto
qed (simp add: comp_simps)

section \<open>The prepared transfer\<close>

text \<open>Every file of the transfer has one member, in one of the transfer's objects; every object has the
  planned parts of its transport bytes.\<close>

definition prepared :: "uuid \<Rightarrow> tables \<Rightarrow> bool" where
  "prepared tid t \<longleftrightarrow>
     (\<forall>r \<in> set (tb_files t). f_transfer_id r = tid \<longrightarrow>
        (\<exists>!m. m \<in> set (tb_members t) \<and> m_file_id m = f_id r)
        \<and> (\<exists>m \<in> set (tb_members t). m_file_id m = f_id r
             \<and> (\<exists>ob \<in> set (tb_objects t). o_id ob = m_object_id m \<and> o_transfer_id ob = tid)))
     \<and> (\<forall>ob \<in> set (tb_objects t). o_transfer_id ob = tid \<longrightarrow>
          (\<exists>size parts. o_transport_bytes ob = Some size \<and> plan_parts (o_id ob) size default_limits = Inr parts
             \<and> object_rows (o_id ob) t = map part_row_of parts))"

lemma planned_sources:
  assumes "planned tid batches plan"
  shows "map f_id (pl_upload_sources plan) = map o_id (pl_objects plan)"
    and "ob \<in> set (pl_objects plan) \<Longrightarrow>
      \<exists>x \<in> set (pl_upload_sources plan). f_id x = o_id ob \<and> o_transport_bytes ob = Some (f_size x)"
    and "ob \<in> set (pl_objects plan) \<Longrightarrow> o_transfer_id ob = tid"
proof -
  let ?z = "zip (pl_objects plan) (pl_upload_sources plan)"
  have all: "\<forall>i < length ?z. carries tid (batches ! i) (?z ! i)" and len: "length (pl_objects plan) = length (pl_upload_sources plan)"
    using assms by (auto simp: planned_def list_all2_conv_all_nth)
  have each: "o_transfer_id (pl_objects plan ! i) = tid \<and> f_id (pl_upload_sources plan ! i) = o_id (pl_objects plan ! i)
      \<and> o_transport_bytes (pl_objects plan ! i) = Some (f_size (pl_upload_sources plan ! i))" if "i < length (pl_objects plan)" for i
    using all [rule_format, of i] that len by (simp add: carries_def)
  show "map f_id (pl_upload_sources plan) = map o_id (pl_objects plan)"
    using each len by (auto intro: nth_equalityI)
  show "\<exists>x \<in> set (pl_upload_sources plan). f_id x = o_id ob \<and> o_transport_bytes ob = Some (f_size x)"
    if "ob \<in> set (pl_objects plan)"
    using that each len by (metis in_set_conv_nth)
  show "o_transfer_id ob = tid" if "ob \<in> set (pl_objects plan)"
    using that each by (metis in_set_conv_nth)
qed

lemma planned_member_object:
  assumes "planned tid batches plan" and "m \<in> set (pl_members plan)"
  shows "\<exists>ob \<in> set (pl_objects plan). m_object_id m = o_id ob"
  using assms by (auto simp: planned_def pack_members_def dest: set_zip_leftD)

lemma replaced_plan_prepared:
  assumes "planned tid batches plan" and "mset (concat batches) = mset files"
    and files: "{f_id r | r. r \<in> set (tb_files t) \<and> f_transfer_id r = tid} \<subseteq> f_id ` set files"
    and objects: "{r \<in> set (tb_objects t). o_transfer_id r = tid} = object_row_of ` set (pl_objects plan)"
    and members: "set (pl_members plan) \<subseteq> set (tb_members t)" and c: "constraints t"
    and same: "shape t' = shape t"
    and parts: "\<forall>x \<in> set (pl_upload_sources plan). \<exists>ps. plan_parts (f_id x) (f_size x) default_limits = Inr ps
         \<and> object_rows (f_id x) t' = map part_row_of ps"
  shows "prepared tid t'"
proof -
  have t': "tb_objects t' = tb_objects t" "tb_members t' = tb_members t"
    "map (\<lambda>r. (f_id r, f_transfer_id r)) (tb_files t') = map (\<lambda>r. (f_id r, f_transfer_id r)) (tb_files t)"
    using same by (simp_all add: shape_def)
  have once: "\<exists>!m. m \<in> set (tb_members t) \<and> m_file_id m = i"
    and carried: "\<exists>m \<in> set (tb_members t). m_file_id m = i
             \<and> (\<exists>ob \<in> set (tb_objects t). o_id ob = m_object_id m \<and> o_transfer_id ob = tid)"
    if "i \<in> f_id ` set files" for i
  proof -
    have "set (map m_file_id (pl_members plan)) = f_id ` set files"
      using planned_member_ids [OF assms(1)] assms(2) by (metis mset_eq_setD set_map)
    then have "i \<in> m_file_id ` set (pl_members plan)" using that by simp
    then obtain m where m: "m \<in> set (pl_members plan)" "m_file_id m = i" by blast
    from planned_member_object [OF assms(1) m(1)] obtain ob where "ob \<in> set (pl_objects plan)" "m_object_id m = o_id ob" by blast
    then have "object_row_of ob \<in> {r \<in> set (tb_objects t). o_transfer_id r = tid}" unfolding objects by simp
    with \<open>m_object_id m = o_id ob\<close> have "object_row_of ob \<in> set (tb_objects t)" "o_transfer_id (object_row_of ob) = tid" "o_id (object_row_of ob) = m_object_id m"
      by simp_all
    then show "\<exists>m \<in> set (tb_members t). m_file_id m = i
             \<and> (\<exists>ob \<in> set (tb_objects t). o_id ob = m_object_id m \<and> o_transfer_id ob = tid)"
      using m members by blast
    have "distinct (map m_file_id (tb_members t))" using c by (simp add: constraint_defs)
    then show "\<exists>!m. m \<in> set (tb_members t) \<and> m_file_id m = i"
      using m members by (auto simp: distinct_map dest: inj_onD)
  qed
  have listed: "f_id r \<in> f_id ` set files" if r: "r \<in> set (tb_files t')" "f_transfer_id r = tid" for r
  proof -
    have "(f_id r, tid) \<in> set (map (\<lambda>r. (f_id r, f_transfer_id r)) (tb_files t))"
      using r by (auto simp flip: t'(3))
    then show ?thesis using files by auto
  qed
  have planned_object: "\<exists>size ps. o_transport_bytes ob = Some size \<and> plan_parts (o_id ob) size default_limits = Inr ps
      \<and> object_rows (o_id ob) t' = map part_row_of ps" if ob: "ob \<in> set (tb_objects t)" "o_transfer_id ob = tid" for ob
  proof -
    from ob objects obtain b where b: "b \<in> set (pl_objects plan)" "ob = object_row_of b" by auto
    with planned_sources(2) [OF assms(1) b(1)] parts show ?thesis by auto
  qed
  show ?thesis
    unfolding prepared_def t'(1,2)
    by (intro conjI ballI impI planned_object once carried) (simp_all add: listed)
qed

lemma prepare_indexed_prepared:
  assumes run: "prepare_indexed env tid files s = (Inr ready, s')" and c: "constraints (database s)"
  shows "t_id ready = tid \<and> t_status ready = TransferStatus.Ready \<and> prepared tid (database s')"
proof -
  from run obtain s1 root plan s2 s3 s4 s5 where
    inventory: "desk_db (replace_inventory tid files) s = (Inr (), s1)"
    and staged: "desk_staging (prepare_transport_plan_with_observer (dx_sources env) (dx_codec env) (dx_header env)
           (dx_object_id env) tid files root default_pack_options (pack_cache_budget default_pack_options)) s1 = (Inr plan, s2)"
    and plan_rows: "desk_db (replace_transport_plan tid (pl_objects plan) (pl_members plan)) s2 = (Inr (), s3)"
    and sources: "plan_sources (pl_upload_sources plan) s3 = (Inr (), s4)"
    and moved: "desk_db (transition tid TransferStatus.Ready) s4 = (Inr (), s5)"
    and found: "desk_db (get_transfer tid) s5 = (Inr (Some ready), s')"
    unfolding prepare_indexed_def by (auto simp: comp_simps split: option.splits)
  from inventory obtain db1 where i: "replace_inventory tid files (w_db s) = (Inr (), db1)" "w_db s1 = db1" by (auto simp: desk_db_Inr)
  from plan_rows obtain db3 where r: "replace_transport_plan tid (pl_objects plan) (pl_members plan) (w_db s2) = (Inr (), db3)"
    "w_db s3 = db3" by (auto simp: desk_db_Inr)
  have s2: "w_db s2 = w_db s1" using staged by (auto simp: desk_staging_def comp_simps split: prod.splits)
  from staged obtain p where "prepare_transport_plan_with_observer (dx_sources env) (dx_codec env) (dx_header env)
      (dx_object_id env) tid files root default_pack_options (pack_cache_budget default_pack_options)
      \<lparr>pw_sources = fst (w_env s1), pw_disk = snd (w_env s1), pw_limits = []\<rparr> = (Inr plan, p)"
    by (auto simp: desk_staging_def comp_simps split: prod.splits)
  from prepared_is_planned [OF this] obtain packs where packs: "plan_packs files default_pack_options = Inr packs"
    and planned: "planned tid (pp_packs packs @ map (\<lambda>f. [f]) (pp_standalone packs)) plan" by blast
  have c1: "constraints (database s1)"
    using keepsD [OF run_op_constraints [of "ReplaceInventory tid files"] c] i by simp
  have c3: "constraints (database s3)"
    using keepsD [OF run_op_constraints [of "ReplaceTransportPlan tid (pl_objects plan) (pl_members plan)"], of "w_db s2"] c1 r s2 by simp
  note rows = replace_transport_plan_rows [OF r(1)]
  have objects: "{r \<in> set (tb_objects (database s3)). o_transfer_id r = tid} = object_row_of ` set (pl_objects plan)"
    using rows r(2) planned_sources(3) [OF planned] by auto
  have ids: "distinct (map f_id (pl_upload_sources plan))"
  proof -
    have "distinct (map o_id (map object_row_of (pl_objects plan)))"
      using c3 rows r(2) by (simp add: constraint_defs)
    then show ?thesis by (simp add: planned_sources(1) [OF planned] comp_def)
  qed
  have present: "\<forall>x \<in> set (pl_upload_sources plan). has_object (database s3) (f_id x)"
  proof
    fix x assume "x \<in> set (pl_upload_sources plan)"
    then have "f_id x \<in> set (map o_id (pl_objects plan))" by (simp flip: planned_sources(1) [OF planned])
    then show "has_object (database s3) (f_id x)"
      using rows r(2) by (simp add: object_present shape_def image_Un image_image)
  qed
  note done' = plan_sources_planned [OF sources ids present]
  from moved obtain db5 where m: "transition tid TransferStatus.Ready (w_db s4) = (Inr (), db5)" "w_db s5 = db5" by (auto simp: desk_db_Inr)
  from found obtain db' where g: "get_transfer tid (w_db s5) = (Inr (Some ready), db')" "w_db s' = db'" by (auto simp: desk_db_Inr)
  from get_transfer_Inr [OF g(1)] obtain row where t': "database s' = database s5"
    and row: "ready = Transfer.truncate row" "transfer_by_id (database s5) tid = Some row" using g(2)
    by (cases "transfer_by_id (database s5) tid") auto
  have kept: "shape (database s') = shape (database s4) \<and> object_rows i (database s') = object_rows i (database s4)" for i
    using keepsD [OF transition_shape _ m(1), of "shape (database s4)" i "object_rows i (database s4)"] m(2) t' by simp
  have "prepared tid (database s')"
  proof (rule replaced_plan_prepared [OF planned packs_cover [OF packs] _ objects _ c3])
    have listed: "tb_files (database s3) = filter (\<lambda>r. f_transfer_id r \<noteq> tid) (tb_files (database s)) @ map (file_row_of tid) files"
      using replace_inventory_rows [OF i(1)] i(2) rows r(2) s2 by simp
    show "{f_id r | r. r \<in> set (tb_files (database s3)) \<and> f_transfer_id r = tid} \<subseteq> f_id ` set files"
    proof
      fix j assume "j \<in> {f_id r | r. r \<in> set (tb_files (database s3)) \<and> f_transfer_id r = tid}"
      then have "j \<in> f_id ` set (map (file_row_of tid) files)" by (auto simp: listed)
      then show "j \<in> f_id ` set files" by (simp add: image_image)
    qed
    show "set (pl_members plan) \<subseteq> set (tb_members (database s3))" using rows r(2) by simp
    show "shape (database s') = shape (database s3)" using kept done' by simp
    show "\<forall>x \<in> set (pl_upload_sources plan). \<exists>ps. plan_parts (f_id x) (f_size x) default_limits = Inr ps
         \<and> object_rows (f_id x) (database s') = map part_row_of ps" using kept done' by simp
  qed
  moreover have "t_status row = TransferStatus.Ready"
    using found_status [OF row(2)] transition_moves [OF m(1)] m(2) by simp
  moreover have "t_id row = tid" using row(2) by (auto simp: transfer_by_id_def find_Some_iff)
  ultimately show ?thesis by (simp add: row(1))
qed

section \<open>Creating an inventory\<close>

lemma constraints_after:
  "keeps (db_trace (\<lambda>t _. constraints t)) m \<Longrightarrow> m s = (r, s') \<Longrightarrow> constraints (database s) \<Longrightarrow> constraints (database s')"
  by (auto simp: keeps_def db_trace_def)

lemma draft_id [simp]: "t_id (draft at i source project) = i"
  by (simp add: draft_def)

lemma op_constraints: "keeps (db_trace (\<lambda>t _. constraints t)) (desk_db (run_op oper))"
  by (rule keeps_desk_db) (rule run_op_constraints)

lemmas creation_constraints = op_constraints [of "CreateTransfer tr" for tr, simplified]
  op_constraints [of "BindTransferRegistrySession i v w" for i v w, simplified]
  op_constraints [of "Transition i st" for i st, simplified]

lemma create_inventory_steps:
  assumes "create_inventory env source_path project_id algorithm s = (Inr ready, s')"
  obtains source s1 base_url s2 session_id s3 s4 s5 s6 files s7 where
    "on_client_state (\<lambda>e. DeskStaging (AtPath ''Could not open source'' source_path e))
      (dx_canonicalize env source_path) s = (Inr source, s1)"
    and "configured_registry_url env s1 = (Inr base_url, s2)"
    and "desk_db active_registry_session_id s2 = (Inr (Some session_id), s3)"
    and "desk_db (create_transfer (draft (dx_now env) (dx_transfer_id env) source project_id)) s3 = (Inr (), s4)"
    and "desk_db (bind_transfer_registry_session (dx_transfer_id env) base_url session_id) s4 = (Inr (), s5)"
    and "desk_db (transition (dx_transfer_id env) TransferStatus.Inventorying) s5 = (Inr (), s6)"
    and "on_client_state DeskCourier (inventory_transfer (dx_sources env) (dx_hash env) (dx_file_id env) (dx_transfer_id env) source
        (default_inventory_options\<lparr>io_hash_algorithm := algorithm\<rparr>)) s6 = (Inr files, s7)"
    and "prepare_indexed env (dx_transfer_id env) files s7 = (Inr ready, s')"
proof -
  have caught: "(case r of Inl e \<Rightarrow> thenE (mark_failed i) (fail e) | Inr x \<Rightarrow> ok x) t = (Inr ready, s') \<longleftrightarrow> r = Inr ready \<and> t = s'"
    for r i t by (cases r) (auto simp: comp_simps)
  from assms show thesis
    unfolding create_inventory_def Let_def
    by (auto simp: comp_simps caught split: option.split_asm) (rule that; assumption)
qed

text \<open>C39: A transfer that the desktop application reports as ready has a complete plan. After a successful
  preparation its status is ready; every file of its inventory is carried by exactly one member, of an
  object of the same transfer; and every object has exactly the parts that are planned for its transport bytes. So an upload
  that marks every planned part leaves no file out.\<close>

theorem prepared_transfer_is_complete:
  assumes "create_inventory env source_path project_id algorithm s = (Inr ready, s')"
    and "constraints (database s)"
  shows "t_id ready = dx_transfer_id env \<and> t_status ready = TransferStatus.Ready
    \<and> prepared (dx_transfer_id env) (database s')"
proof -
  let ?tid = "dx_transfer_id env"
  from create_inventory_steps [OF assms(1)] obtain source s1 base_url s2 session_id s3 s4 s5 s6 files s7 where
    opened: "on_client_state (\<lambda>e. DeskStaging (AtPath ''Could not open source'' source_path e))
      (dx_canonicalize env source_path) s = (Inr source, s1)"
    and url: "configured_registry_url env s1 = (Inr base_url, s2)"
    and session: "desk_db active_registry_session_id s2 = (Inr (Some session_id), s3)"
    and created: "desk_db (create_transfer (draft (dx_now env) ?tid source project_id)) s3 = (Inr (), s4)"
    and bound: "desk_db (bind_transfer_registry_session ?tid base_url session_id) s4 = (Inr (), s5)"
    and moved: "desk_db (transition ?tid TransferStatus.Inventorying) s5 = (Inr (), s6)"
    and listed: "on_client_state DeskCourier (inventory_transfer (dx_sources env) (dx_hash env) (dx_file_id env) ?tid source
        (default_inventory_options\<lparr>io_hash_algorithm := algorithm\<rparr>)) s6 = (Inr files, s7)"
    and indexed: "prepare_indexed env ?tid files s7 = (Inr ready, s')" .
  note reads = keeps_client [where P = "\<lambda>t _. constraints t"]
  have "keeps (db_trace (\<lambda>t _. constraints t)) (configured_registry_url env)"
    unfolding configured_registry_url_def by (auto intro!: keeps_intros desk_reads split: option.splits)
  then have "constraints (database s2)"
    using constraints_after [OF reads opened assms(2)] url by (blast intro: constraints_after)
  then have "constraints (database s3)"
    using session by (blast intro: constraints_after desk_reads)
  then have "constraints (database s6)"
    using constraints_after [OF creation_constraints(1) created] constraints_after [OF creation_constraints(2) bound]
      constraints_after [OF creation_constraints(3) moved] by blast
  then have "constraints (database s7)" by (rule constraints_after [OF reads listed])
  then show ?thesis by (rule prepare_indexed_prepared [OF indexed])
qed

section \<open>A concrete preparation\<close>

text \<open>A source of one file of three bytes, an authorized device and an empty database.\<close>

definition new_tables :: tables where
  "new_tables = empty_tables\<lparr>tb_settings := [\<lparr>sg_key = ''active_registry_session_id'', sg_value = ''s'', sg_updated_at = 0\<rparr>]\<rparr>"

definition first_pack_path :: path where
  "first_pack_path = staged_path pack_dir 9"

definition first_plan :: PreparedTransportPlan where
  "first_plan = \<lparr>pl_objects = [pack_object 9 4 3 28 first_pack_path], pl_members = pack_members 9 [one_record],
     pl_upload_sources = [pack_source 9 4 first_pack_path 28 0]\<rparr>"

lemmas prep_eval = create_transfer_def bind_transfer_registry_session_def bind_transfer_def transition_def get_transfer_def
  update_transfers_def fits_sql_def can_transition_to_def transition_event_def update_where_def transfer_by_id_def

lemma first_parts: "plan_parts 9 28 default_limits = Inr [part 9 1 0 28]"
  by (simp add: plan_eval default_limits_def) (simp add: word_le_nat_alt)

definition first_preparation :: "Transfer option db" where
 "first_preparation = thenE (create_transfer (draft 0 4 ''/d/a'' None)) (thenE (bind_transfer_registry_session 4 ''r'' ''s'')
    (thenE (transition 4 TransferStatus.Inventorying)
    (thenE (replace_inventory 4 [one_record])
    (thenE (replace_transport_plan 4 (pl_objects first_plan) (pl_members first_plan))
    (thenE (replace_part_plan 9 [part 9 1 0 28])
    (thenE (transition 4 TransferStatus.Ready) (get_transfer 4)))))))"

lemma first_preparation_runs: "\<exists>t s'. first_preparation ((quiet new_tables)\<lparr>st_tick := 2\<rparr>) = (Inr (Some t), s')"
  by (simp add: first_preparation_def run_eval prep_eval table_eval new_tables_def check_eval replace_inventory_def atomically_def
    drop_files_def insert_file_def file_row_of_def FileRecord.defs one_record_def inventory_bytes_def
    replace_transport_plan_def drop_objects_def insert_object_def object_row_of_def TransportObjectRecord.defs
    insert_member_def first_plan_def pack_object_def pack_members_def replace_part_plan_def has_transport_object_def has_object_def
    delete_parts_def insert_part_def object_parts_def file_parts_def part_row_of_def part_def refresh_stmt_def part_fits_def
    saturating_add_def)

definition new_world :: "unit desk_state world" where
  "new_world = \<lparr>w_db = quiet new_tables, w_env = (new_state None (), cache_disk), w_trace = []\<rparr>"

lemma steady_inventory:
  "inventory_transfer (dx_sources steady_env) byte_hash (\<lambda>_. 9) 4 ''/d/a''
     (default_inventory_options\<lparr>io_hash_algorithm := Sha256\<rparr>) c = (Inr [one_record], c)"
  by (simp add: inventory_transfer_def inventory_transfer_observed_def inventory_visited_def inventory_one_def hash_file_def
      comp_defs on_env_def on_env_io_def steady_env_def byte_hash_def modified_ns_def emit_def
      default_inventory_options_def path_parent_def render_def components_def is_absolute_def
      strip_prefix_def one_record_def progress_def Let_def saturating_add_def split_def)

lemma steady_pack:
  "encode_pack (dx_sources steady_env) (over_writer plain_codec (bounded_write limit) id) one_json [one_record] 3
     (c, ((), [])) = (Inr 28, (c, ((), one_pack)))" if "100 \<le> limit"
  using that by (simp add: codec_eval plain_codec_def bounded_write_def one_pack_def steady_env_def) (simp add: word_le_nat_alt)

lemma steady_staged:
  "\<exists>d'. prepare_transport_plan_with_observer (dx_sources steady_env) plain_codec one_json (\<lambda>_. 9) 4 [one_record] ''c''
     default_pack_options (pack_cache_budget default_pack_options) \<lparr>pw_sources = c, pw_disk = cache_disk, pw_limits = []\<rparr>
   = (Inr first_plan, \<lparr>pw_sources = c, pw_disk = d', pw_limits = []\<rparr>)"
proof -
  let ?none = "\<lparr>pl_objects = [], pl_members = [], pl_upload_sources = []\<rparr>"
  let ?s = "\<lparr>pw_sources = c, pw_disk = cache_disk, pw_limits = []\<rparr>"
  let ?budget = "pack_cache_budget default_pack_options"
  obtain d1 where d1: "create_dir_all pack_dir cache_disk = (Inr (), d1)" "calm d1" "node_at d1 (loc pack_dir) = Some Directory"
    "\<forall>w. dk_nodes d1 (loc pack_dir @ [w]) = None" using pack_dir_created by blast
  have ready: "ready_for pack_dir ((\<lambda>_. 9) (length (pl_objects ?none))) (?s\<lparr>pw_disk := d1\<rparr>)"
    using d1 by (simp add: ready_for_def pack_locations)
  have budget: "100 \<le> saturating_sub ?budget 0" "saturating_sub ?budget 0 \<noteq> 0"
    by (simp_all add: pack_cache_budget_def default_pack_options_def saturating_mul_def saturating_sub_def word_le_nat_alt)
  have fits: "fits_as (dx_sources steady_env) plain_codec one_json default_pack_options (saturating_sub ?budget 0)
      [one_record] (pw_sources (?s\<lparr>pw_disk := d1\<rparr>)) one_pack"
    using steady_pack [OF budget(1), of c] budget(2) by (simp add: fits_as_def default_pack_options_def plain_codec_def)
  have "fold (\<lambda>file n. saturating_add n (f_size file)) [one_record] 0 = (3 :: u64)"
    by (simp add: one_record_def saturating_add_def)
  moreover have "(of_nat (length one_pack) :: u64) = 28" by (simp add: one_pack_def MAGIC_def member_frame_def)
  ultimately obtain d2 where
    run: "prepare_pack (dx_sources steady_env) plain_codec one_json (\<lambda>_. 9) 4 pack_dir default_pack_options ?budget [one_record]
        (?none, 0) (?s\<lparr>pw_disk := d1\<rparr>) = (Inr (first_plan, saturating_add 0 28), ?s\<lparr>pw_disk := d2\<rparr>)"
    using prepare_pack_forward [where fresh = "\<lambda>_. 9" and plan = ?none and tid = 4, OF ready fits]
    by (auto simp: add_object_def first_plan_def first_pack_path_def)
  have "prepare_transport_plan_with_observer (dx_sources steady_env) plain_codec one_json (\<lambda>_. 9) 4 [one_record] ''c''
      default_pack_options ?budget ?s = (Inr first_plan, ?s\<lparr>pw_disk := d2\<rparr>)"
    using run d1(1) one_planned
    by (simp add: prepare_transport_plan_with_observer_def Let_def pack_dir_def comp_defs displayed_def on_cache_def)
  then show ?thesis by auto
qed

lemma steady_fields:
  "dx_hash steady_env = byte_hash" "dx_file_id steady_env = (\<lambda>_. 9)" "dx_object_id steady_env = (\<lambda>_. 9)"
  "dx_transfer_id steady_env = 4" "dx_now steady_env = 0" "dx_database steady_env = ''c/db''"
  "dx_codec steady_env = plain_codec" "dx_header steady_env = one_json" "dx_canonicalize steady_env = (\<lambda>p c. (Inr p, c))"
  "dx_default_url steady_env = Inr ''r''"
  by (simp_all add: steady_env_def)

lemma cache_parent: "path_parent ''c/db'' = Some ''c''"
  by (simp add: path_parent_def components_def render_def is_absolute_def)

lemma settings_read:
  "active_registry (quiet new_tables) = (Inr None, (quiet new_tables)\<lparr>st_tick := 1\<rparr>)"
  "active_registry_session_id ((quiet new_tables)\<lparr>st_tick := 1\<rparr>) = (Inr (Some ''s''), (quiet new_tables)\<lparr>st_tick := 2\<rparr>)"
  by (simp_all add: active_registry_def active_registry_session_id_def get_setting_def run_eval new_tables_def)

lemma new_transfer_created:
  "\<exists>t s'. create_inventory steady_env ''/d/a'' None Sha256 new_world = (Inr t, s')"
proof -
  obtain t s1 s2 s3 s4 s5 s6 s7 s8 where run: "create_transfer (draft 0 4 ''/d/a'' None) ((quiet new_tables)\<lparr>st_tick := 2\<rparr>) = (Inr (), s1)"
      "bind_transfer_registry_session 4 ''r'' ''s'' s1 = (Inr (), s2)" "transition 4 TransferStatus.Inventorying s2 = (Inr (), s3)"
      "replace_inventory 4 [one_record] s3 = (Inr (), s4)"
      "replace_transport_plan 4 (pl_objects first_plan) (pl_members first_plan) s4 = (Inr (), s5)"
      "replace_part_plan 9 [part 9 1 0 28] s5 = (Inr (), s6)" "transition 4 TransferStatus.Ready s6 = (Inr (), s7)"
      "get_transfer 4 s7 = (Inr (Some t), s8)"
    using first_preparation_runs unfolding first_preparation_def thenE_Inr_iff by auto
  obtain d where on_disk: "prepare_transport_plan_with_observer (dx_sources steady_env) plain_codec one_json (\<lambda>_. 9) 4 [one_record] ''c''
     default_pack_options (pack_cache_budget default_pack_options)
     \<lparr>pw_sources = new_state None (), pw_disk = cache_disk, pw_limits = []\<rparr>
   = (Inr first_plan, \<lparr>pw_sources = new_state None (), pw_disk = d, pw_limits = []\<rparr>)"
    using steady_staged by blast
  have "pl_upload_sources first_plan = [pack_source 9 4 first_pack_path 28 0]" "f_id (pack_source 9 4 first_pack_path 28 0) = 9"
    "f_size (pack_source 9 4 first_pack_path 28 0) = 28" by (simp_all add: first_plan_def pack_source_def)
  with run on_disk steady_inventory first_parts show ?thesis
    by (simp add: create_inventory_def prepare_indexed_def configured_registry_url_def comp_defs desk_db_def on_db_def
        on_client_state_def desk_staging_def steady_fields settings_read cache_parent new_world_def
        del: One_nat_def)
qed

theorem prepared_transfer_is_complete_witness:
  "\<exists>ready s'. create_inventory steady_env ''/d/a'' None Sha256 new_world = (Inr ready, s')
     \<and> t_status ready = TransferStatus.Ready \<and> prepared 4 (database s')"
proof -
  obtain t s' where run: "create_inventory steady_env ''/d/a'' None Sha256 new_world = (Inr t, s')"
    using new_transfer_created by blast
  have "constraints (database new_world)"
    by (simp add: new_world_def quiet_def new_tables_def check_eval empty_tables_def)
  with prepared_transfer_is_complete [OF run] run show ?thesis by (auto simp: steady_fields)
qed

end
