(* ===== verification/Spec2Isabelle.thy ===== *)
theory Spec2Isabelle
  imports PlanProperties StoreProperties UploadProperties RegistryProperties RetrieveProperties Cli
    TransportProperties DesktopRestoreProperties DesktopProperties DesktopRecoveryProperties DesktopWiring
    DesktopDiagnostics DesktopPreparation
begin

text \<open>
  Icy Seas Courier: the verified model of the transfer engine, its command line and its desktop
  application. This theory imports the whole development.

  \<^bold>\<open>The program.\<close> Courier moves scientific datasets to object storage and back. A source directory
  is inventoried and hashed (\<^verbatim>\<open>crates/courier-core\<close>), small files are grouped into compressed packs
  (\<^verbatim>\<open>crates/courier-pack\<close>), every object is cut into parts and uploaded through a multipart contract,
  with a part ledger in a local SQLite database that survives a crash (\<^verbatim>\<open>crates/courier-transfer\<close>), and
  a Data Registry authorizes the device, registers the transfer, presigns the part requests and collects
  the events of the transfer (\<^verbatim>\<open>crates/courier-registry\<close>). Two applications drive these crates:
  the command line (\<^verbatim>\<open>apps/courier-cli\<close>), which uploads to S3 and retrieves a dataset, and the desktop
  application (\<^verbatim>\<open>apps/courier-desktop/src-tauri\<close>), which uploads through the Registry from its stored
  sessions, and retrieves with pause and resume.

  \<^bold>\<open>How code becomes a definition.\<close> A fallible stateful function is a computation of
  \<open>Courier_Prelude\<close>: a function of the state to an error or a value, with the state it leaves behind, on
  the error paths too. Machine integers are words; saturating and checked arithmetic is written
  out. A panic is an error value where the program unwinds. An async function is its sequence of
  steps; where two tasks race, as a request and a timer do in \<^verbatim>\<open>select!\<close>, the environment supplies the
  order as a finite schedule. What is outside the repository is a record of functions the definitions
  take: the file system (\<open>fs_ops\<close>), the hashers (\<open>hash_lib\<close>), Zstandard (\<open>zstd_codec\<close>), the S3 SDK
  client, the network and the JSON library (\<open>registry_env\<close>, \<open>object_net\<close>, \<open>download_net\<close>), the
  vault, the clock and the prompt (\<open>session_env\<close>). They may answer anything, unless a hypothesis
  of a theorem, which its witness discharges on a concrete instance, says what is relied on.
\<close>

text \<open>
  \<^bold>\<open>Theories, by the code they model.\<close>

  \<^item> \<open>Courier_Prelude\<close>: computations, words, options and lists shared by all theories; \<open>Paths\<close>:
    \<^verbatim>\<open>std::path\<close> and the three path checks; \<open>Disk\<close>, \<open>DiskFrames\<close>: the local disk on which any operation
    may fail, and what each operation leaves alone.
  \<^item> \<open>Model\<close>: \<^verbatim>\<open>courier-core/src/model.rs\<close>, \<^verbatim>\<open>error.rs\<close>, \<^verbatim>\<open>events.rs\<close>, \<^verbatim>\<open>retry.rs\<close>. \<open>Inventory\<close>:
    \<^verbatim>\<open>inventory.rs\<close>.
  \<^item> \<open>Sqlite\<close>: the schema the migrations end in, as lists of rows with keys, foreign keys, checks and the
    outbox triggers; a statement may fail at any time. \<open>TransferStore\<close>, \<open>PartLedger\<close>: every operation of
    \<^verbatim>\<open>db.rs\<close>. \<open>StoreInvariants\<close>, \<open>StoreBehaviour\<close>, \<open>StoreProperties\<close>: what they keep and do.
  \<^item> \<open>Pack\<close>: \<^verbatim>\<open>courier-pack/src/lib.rs\<close>. \<open>Planner\<close>: \<^verbatim>\<open>courier-transfer/src/planner.rs\<close> and the replanning
    of a tail. \<open>PlanProperties\<close>: plans, packs, paths.
  \<^item> \<open>Upload\<close>: \<^verbatim>\<open>store.rs\<close>, \<^verbatim>\<open>reconcile.rs\<close> and \<^verbatim>\<open>executor.rs\<close> of \<^verbatim>\<open>courier-transfer\<close>; \<open>S3\<close>: \<^verbatim>\<open>s3.rs\<close>.
    \<open>UploadBehaviour\<close>, \<open>UploadFrame\<close>, \<open>UploadProperties\<close>: runs against any store.
  \<^item> \<open>RegistryClient\<close>, \<open>RegistryApi\<close>, \<open>RegistryStore\<close>, \<open>Diagnostics\<close>, \<open>Download\<close>, \<open>DiagnosticProbe\<close>:
    \<^verbatim>\<open>courier-registry/src/lib.rs\<close>, that is sessions and requests, endpoints, the streamed data plane, the
    redaction of messages, resumable downloads, and the probe of a support report. \<open>RegistryProperties\<close>, \<open>DownloadBehaviour\<close>.
  \<^item> \<open>Retrieve\<close>: \<^verbatim>\<open>courier-cli/src/retrieve.rs\<close>; \<open>Cli\<close>: \<^verbatim>\<open>courier-cli/src/main.rs\<close>.
    \<open>RetrieveBehaviour\<close>, \<open>RetrieveProperties\<close>.
  \<^item> The desktop application, \<^verbatim>\<open>courier-desktop/src-tauri/src/lib.rs\<close>: \<open>Transport\<close> (the transport plan
    and the bounded pack cache), \<open>DesktopState\<close> (pause controls, progress, file view), \<open>DesktopUpload\<close>
    (preparation and the upload driver), \<open>DesktopCommands\<close> (clearing, refreshing, background synchronisation),
    \<open>DesktopRestore\<close> (retrieval), \<open>DesktopRecovery\<close> (start and the archive of a corrupt database),
    \<open>DesktopSession\<close> (credentials, sessions, device access), \<open>DesktopDiagnostics\<close> (the ring of events, the
    support report, what is saved after a failed upload). \<open>TransportBehaviour\<close>,
    \<open>TransportProperties\<close>, \<open>DesktopRestoreBehaviour\<close>, \<open>DesktopRestoreProperties\<close>,
    \<open>DesktopUploadBehaviour\<close>, \<open>DesktopRun\<close> (a concrete upload), \<open>DesktopProperties\<close>, \<open>DesktopPreparation\<close>,
    \<open>DesktopRecoveryProperties\<close>, \<open>DesktopSessionProperties\<close>. \<open>DesktopWiring\<close> puts the sessions
    into the upload driver.
\<close>

text \<open>
  \<^bold>\<open>State.\<close> The database is a \<open>store\<close>: the tables, and the environment that fails statements, tells
  the time and draws identifiers. An upload runs on a \<open>world\<close>: the store, an environment, and a trace of
  notifications and of requests with their answers, which no definition reads. A Registry client is a
  \<open>client_state\<close>: the shared authentication state, the network, and its own trace. A retrieval runs on a disk and
  a client state. The desktop upload is an upload world whose environment is a client state and the
  disk of Courier's directory.

  \<^bold>\<open>Interfaces.\<close> \<open>kept_predicate\<close> (a predicate of the tables every statement keeps) gives it for every
  operation, and is interpreted on the constraints, a status, a manifest snapshot and the replay of the outbox;
  \<open>engine_kept\<close>, \<open>kept_events\<close> and \<open>upload_kept\<close> carry the same predicates through the upload engine and
  the desktop driver. \<open>part_ledger\<close> is the contract of the two part tables, \<open>le_codec\<close> that of the two
  little-endian integers of a pack, \<open>writer_simulation\<close> relates the encoder's runs over the capped, the
  bounded, the counting and the in-memory writer.

  \<^bold>\<open>What is shown.\<close> Plans: parts and packs cover their input exactly, packs decode to what was encoded.
  Database: what a replaced inventory or plan leaves in the tables, the schema's constraints, the state
  machine of a transfer, the event outbox as a faithful log of its status in a database made by this
  version (the snapshot events with which migration 012 begins an older one are not modelled).
  Upload: nothing is complete that the remote store did not acknowledge, a success leaves nothing
  incomplete, requests match the ledger, and \<open>finalizing\<close> in the desktop application means that every object was
  acknowledged by the Registry. Registry: one bearer token on each request, bounded attempts, tokens
  replaced only after they were stored, credentials hidden from messages, parts streamed whole. Retrieval:
  a download resumes from any interruption, a success is the manifest bit for bit, a failure changes
  nothing outside the retrieval's own directories. Desktop: a transfer reported as ready
  carries every file once with all parts planned, the cached pack is complete and is the one uploaded, every worker can be paused, the start never loses the database, an authorization survives a restart, the
  client and the saved tokens agree, and a locked device sends nothing.

  \<^bold>\<open>Bounds.\<close> Loops over data are structural. The attempts of a part and of a request are
  counted by the retry policy (eight by default), which is their measure. A schedule (the polls and ticks of a streamed
  request, the timers of a download) is a finite list, because a request that has returned saw finitely
  many; no result depends on its length. The pages of an S3 listing are the
  service's to end: \<open>list_pages\<close> is a \<open>partial_function\<close> into \<open>option\<close>, and
  \<open>s3_listing_is_complete\<close> says exactly when it ends.
\<close>

text \<open>
  \<^bold>\<open>Not modelled.\<close>

  \<^item> Concurrency: the clones of a Registry client and the lock around their refresh, the gate around the renewal of a
    desktop session, and the mutexes of the desktop state. A run is one task's. The pause controls,
    where interleaving is the point, are a step relation over any order of commands.
  \<^item> SQLite itself: running the migrations, the PRAGMAs, the durability of a commit, opening a database and its
    integrity check; the last two are parameters of \<open>DesktopRecovery\<close>.
  \<^item> In the S3 adapter and the Registry client the construction of the HTTP clients from their configuration.
  \<^item> In the desktop application the events for the user interface, the places in the other
    commands that record a diagnostic, the macOS key chain and the biometric prompt (a parameter), the development vault, and the
    launch of the window. The writes of the session observer during an upload reach the session's own store, which
    is not the store of the upload driver.
  \<^item> In the command line the parsing of arguments and the printed text.
  \<^item> Symbolic links, permissions and \<^verbatim>\<open>..\<close> on the disk the program writes; the walk of a source meets
    links through the directory walker, a parameter.
  \<^item> The Data Registry, a Python service, and the Svelte user interface: other languages, seen as the
    network and as the commands called.
\<close>

end
